(* ===== verification/Prelude.thy ===== *)
theory Prelude
  imports Main "HOL-Library.List_Lexorder" "HOL-Library.Char_ord" "HOL-Library.Multiset"
    "HOL-Library.AList"
begin

text \<open>
  Shared vocabulary of the development: the pieces of the JavaScript run time the source uses
  (stable \<open>Array.prototype.sort\<close> with a comparator, string tests and case folding on ASCII
  strings, \<open>Math.round\<close> of a quotient of integers, the falsy-value reading of \<open>||\<close> on
  numbers and strings, insertion-ordered maps), generic list lemmas, and the collections of
  facts the component theories extend.
\<close>

named_theorems model_defs \<open>definitions a component unfolds in its own proofs\<close>
named_theorems frame_simps \<open>fields an operation leaves unchanged\<close>

type_synonym paise = int
type_synonym millis = int
type_synonym ident = string

section \<open>Stable sorting with a comparator\<close>

fun js_insort :: "('a \<Rightarrow> 'a \<Rightarrow> int) \<Rightarrow> 'a \<Rightarrow> 'a list \<Rightarrow> 'a list" where
  "js_insort cmp x [] = [x]"
| "js_insort cmp x (y # ys) = (if cmp x y \<le> 0 then x # y # ys else y # js_insort cmp x ys)"

definition js_sort :: "('a \<Rightarrow> 'a \<Rightarrow> int) \<Rightarrow> 'a list \<Rightarrow> 'a list" where
  "js_sort cmp xs = foldr (js_insort cmp) xs []"

definition cmp_by :: "('a \<Rightarrow> 'b::linorder) \<Rightarrow> 'a \<Rightarrow> 'a \<Rightarrow> int" where
  "cmp_by f x y = (if f x < f y then - 1 else if f y < f x then 1 else 0)"

lemma mset_js_insort [simp]: "mset (js_insort cmp x xs) = add_mset x (mset xs)"
  by (induction xs) auto

lemma mset_js_sort [simp]: "mset (js_sort cmp xs) = mset xs"
  unfolding js_sort_def by (induction xs) auto

lemma set_js_sort [simp]: "set (js_sort cmp xs) = set xs"
  by (rule mset_eq_setD) simp

lemma length_js_sort [simp]: "length (js_sort cmp xs) = length xs"
  by (rule mset_eq_length) simp

lemma distinct_js_sort [simp]: "distinct (js_sort cmp xs) = distinct xs"
  by (rule mset_eq_imp_distinct_iff) simp

text \<open>
  ECMAScript fixes the result of \<open>sort\<close> only for a consistent comparator: antisymmetric in
  sign and transitive. This is the contract a sorting client relies on.
\<close>

locale js_comparator =
  fixes cmp :: "'a \<Rightarrow> 'a \<Rightarrow> int"
  assumes cmp_skew: "sgn (cmp x y) = - sgn (cmp y x)"
    and cmp_trans: "cmp x y \<le> 0 \<Longrightarrow> cmp y z \<le> 0 \<Longrightarrow> cmp x z \<le> 0"
begin

lemma cmp_total: "\<not> cmp x y \<le> 0 \<Longrightarrow> cmp y x \<le> 0"
  using cmp_skew [of x y] by (auto simp: sgn_if split: if_splits)

lemma sorted_js_insort:
  "sorted_wrt (\<lambda>x y. cmp x y \<le> 0) xs \<Longrightarrow> sorted_wrt (\<lambda>x y. cmp x y \<le> 0) (js_insort cmp x xs)"
proof (induction xs)
  case Nil
  then show ?case by simp
next
  case (Cons y ys)
  have ins: "set (js_insort cmp x ys) = insert x (set ys)"
    by (rule mset_eq_setD [of _ "x # ys", simplified]) simp
  show ?case
  proof (cases "cmp x y \<le> 0")
    case True
    with Cons.prems show ?thesis by (auto intro: cmp_trans)
  next
    case False
    then have "cmp y x \<le> 0" by (rule cmp_total)
    with False Cons ins show ?thesis by auto
  qed
qed

lemma sorted_js_sort: "sorted_wrt (\<lambda>x y. cmp x y \<le> 0) (js_sort cmp xs)"
  unfolding js_sort_def by (induction xs) (auto intro: sorted_js_insort)

text \<open>A sorted list is a fixed point, so sorting twice is sorting once.\<close>

lemma js_sort_fixed:
  "sorted_wrt (\<lambda>x y. cmp x y \<le> 0) xs \<Longrightarrow> js_sort cmp xs = xs"
proof (induction xs)
  case Nil
  then show ?case by (simp add: js_sort_def)
next
  case (Cons x xs)
  then have "js_sort cmp (x # xs) = js_insort cmp x xs" by (simp add: js_sort_def)
  with Cons.prems show ?case by (cases xs) auto
qed

lemma js_sort_idem: "js_sort cmp (js_sort cmp xs) = js_sort cmp xs"
  by (rule js_sort_fixed) (rule sorted_js_sort)

end

text \<open>Comparators by a key in a linear order are consistent, whatever the key.\<close>

interpretation by_key: js_comparator "cmp_by f" for f :: "'a \<Rightarrow> 'b::linorder"
  by unfold_locales (auto simp: cmp_by_def sgn_if split: if_splits)

lemma sorted_js_sort_cmp_by: "sorted (map f (js_sort (cmp_by f) xs))"
  using by_key.sorted_js_sort [of f xs]
  by (auto simp: sorted_wrt_map cmp_by_def split: if_splits elim!: sorted_wrt_mono_rel [rotated])

text \<open>Sorting by a key that no two elements share gives one list, whatever the order of its argument.\<close>

lemma js_sort_unique:
  assumes "mset xs = mset ys" "distinct (map f ys)"
  shows "js_sort (cmp_by f) xs = js_sort (cmp_by f) ys"
proof (rule map_sorted_distinct_set_unique)
  have s: "set xs = set ys" using assms(1) by (metis set_mset_mset)
  have dx: "distinct (map f xs)" using assms by (metis mset_map mset_eq_imp_distinct_iff)
  show "inj_on f (set (js_sort (cmp_by f) xs) \<union> set (js_sort (cmp_by f) ys))"
    using assms(2) s by (simp add: distinct_map)
  show "sorted (map f (js_sort (cmp_by f) xs))" "sorted (map f (js_sort (cmp_by f) ys))"
    by (rule sorted_js_sort_cmp_by)+
  show "distinct (map f (js_sort (cmp_by f) xs))" using dx by (simp add: distinct_map)
  show "distinct (map f (js_sort (cmp_by f) ys))" using assms(2) by (simp add: distinct_map)
  show "set (js_sort (cmp_by f) xs) = set (js_sort (cmp_by f) ys)" using s by simp
qed

text \<open>The comparator \<open>(a, b) => a - b\<close> on numbers.\<close>

interpretation amount_order: js_comparator "\<lambda>a b :: int. a - b"
  by unfold_locales (auto simp: sgn_if)

lemma sorted_amounts: "sorted (js_sort (\<lambda>a b :: int. a - b) xs)"
  using amount_order.sorted_js_sort [of xs]
  by (simp add: sorted_wrt_iff_nth_less sorted_iff_nth_mono_less)

section \<open>Strings\<close>

definition js_whitespace :: "char \<Rightarrow> bool" where
  "js_whitespace c = (of_char c \<in> {9, 10, 11, 12, 13, 32 :: nat})"

definition js_lower :: "char \<Rightarrow> char" where
  "js_lower c = (let n = of_char c :: nat in if 65 \<le> n \<and> n \<le> 90 then char_of (n + 32) else c)"

definition js_upper :: "char \<Rightarrow> char" where
  "js_upper c = (let n = of_char c :: nat in if 97 \<le> n \<and> n \<le> 122 then char_of (n - 32) else c)"

definition js_toLowerCase :: "string \<Rightarrow> string" where
  "js_toLowerCase = map js_lower"

definition js_toUpperCase :: "string \<Rightarrow> string" where
  "js_toUpperCase = map js_upper"

definition js_trim :: "string \<Rightarrow> string" where
  "js_trim s = rev (dropWhile js_whitespace (rev (dropWhile js_whitespace s)))"

fun js_startsWith :: "string \<Rightarrow> string \<Rightarrow> bool" where
  "js_startsWith s [] = True"
| "js_startsWith [] (p # ps) = False"
| "js_startsWith (c # s) (p # ps) = (c = p \<and> js_startsWith s ps)"

fun js_includes :: "string \<Rightarrow> string \<Rightarrow> bool" where
  "js_includes [] p = (p = [])"
| "js_includes (c # s) p = (js_startsWith (c # s) p \<or> js_includes s p)"

fun js_join :: "string \<Rightarrow> string list \<Rightarrow> string" where
  "js_join sep [] = []"
| "js_join sep [x] = x"
| "js_join sep (x # y # ys) = x @ sep @ js_join sep (y # ys)"

text \<open>A nullable string is truthy when it is neither null nor empty.\<close>

definition truthy_str :: "string option \<Rightarrow> bool" where
  "truthy_str s = (case s of None \<Rightarrow> False | Some t \<Rightarrow> t \<noteq> [])"

lemma js_startsWith_append [simp]: "js_startsWith (p @ s) p"
  by (induction p) auto

lemma js_startsWith_iff: "js_startsWith s p \<longleftrightarrow> (\<exists>t. s = p @ t)"
  by (induction s p rule: js_startsWith.induct) auto

lemma js_includes_iff: "js_includes s p \<longleftrightarrow> (\<exists>u t. s = u @ p @ t)"
proof (induction s)
  case Nil
  then show ?case by auto
next
  case (Cons c s)
  have "(\<exists>u t. c # s = u @ p @ t) \<longleftrightarrow> (\<exists>t. c # s = p @ t) \<or> (\<exists>u t. s = u @ p @ t)"
  proof
    assume "\<exists>u t. c # s = u @ p @ t"
    then obtain u t where "c # s = u @ p @ t" by blast
    then show "(\<exists>t. c # s = p @ t) \<or> (\<exists>u t. s = u @ p @ t)" by (cases u) auto
  next
    assume "(\<exists>t. c # s = p @ t) \<or> (\<exists>u t. s = u @ p @ t)"
    then show "\<exists>u t. c # s = u @ p @ t"
      by (metis append_Cons append_Nil)
  qed
  with Cons.IH show ?case by (simp add: js_startsWith_iff)
qed

section \<open>Numbers\<close>

text \<open>
  \<open>Math.round (n / d)\<close> for integers \<open>n\<close> and \<open>d > 0\<close>: the nearest integer, halves
  rounded up.
\<close>

definition js_round_div :: "int \<Rightarrow> int \<Rightarrow> int" where
  "js_round_div n d = (2 * n + d) div (2 * d)"

lemma js_round_div_bounds:
  assumes "0 < d"
  shows "2 * \<bar>js_round_div n d * d - n\<bar> \<le> d"
proof -
  define q where "q = (2 * n + d) div (2 * d)"
  define r where "r = (2 * n + d) mod (2 * d)"
  have "2 * n + d = 2 * d * q + r" by (simp add: q_def r_def)
  moreover have "0 \<le> r" "r < 2 * d" using assms by (simp_all add: r_def)
  ultimately have "2 * (q * d - n) \<le> d" "2 * (n - q * d) \<le> d" by (simp_all add: algebra_simps)
  then have "2 * \<bar>q * d - n\<bar> \<le> d" by (simp add: abs_if)
  then show ?thesis by (simp add: js_round_div_def q_def)
qed

lemma js_round_div_nonneg: "0 \<le> n \<Longrightarrow> 0 < d \<Longrightarrow> 0 \<le> js_round_div n d"
  by (simp add: js_round_div_def pos_imp_zdiv_nonneg_iff)

text \<open>\<open>a || b || 0\<close> on a number and a nullable number: zero and null are falsy.\<close>

definition or_zero :: "int \<Rightarrow> int option \<Rightarrow> int" where
  "or_zero a b = (if a \<noteq> 0 then a else case b of None \<Rightarrow> 0 | Some c \<Rightarrow> c)"

section \<open>Maps that collect values under a key\<close>

text \<open>
  The source builds \<open>Map<K, V[]>\<close> by \<open>get\<close> and then \<open>push\<close> or \<open>set\<close>; \<open>set\<close> on an
  insertion-ordered map keeps the position of a key that is there and appends a new one, which
  is what \<open>AList.update\<close> does.
\<close>

definition push_at :: "('k \<rightharpoonup> 'v list) \<Rightarrow> 'k \<Rightarrow> 'v \<Rightarrow> ('k \<rightharpoonup> 'v list)" where
  "push_at m k v = m(k \<mapsto> (case m k of None \<Rightarrow> [v] | Some vs \<Rightarrow> vs @ [v]))"

definition push_assoc :: "('k \<times> 'v list) list \<Rightarrow> 'k \<Rightarrow> 'v \<Rightarrow> ('k \<times> 'v list) list" where
  "push_assoc m k v = AList.update k (case map_of m k of None \<Rightarrow> [v] | Some vs \<Rightarrow> vs @ [v]) m"

definition get_list :: "('k \<rightharpoonup> 'v list) \<Rightarrow> 'k \<Rightarrow> 'v list" where
  "get_list m k = (case m k of None \<Rightarrow> [] | Some vs \<Rightarrow> vs)"

lemma get_list_push_at:
  "get_list (push_at m k v) k' = (if k' = k then get_list m k @ [v] else get_list m k')"
  by (auto simp: get_list_def push_at_def split: option.splits)

lemma get_list_fold_push:
  "get_list (fold (\<lambda>x m. if P x then push_at m (key x) x else m) xs m0) k
     = get_list m0 k @ filter (\<lambda>x. P x \<and> key x = k) xs"
  by (induction xs arbitrary: m0) (auto simp: get_list_push_at)

lemma get_list_fold_push_all:
  "get_list (fold (\<lambda>x m. push_at m (key x) x) xs m0) k = get_list m0 k @ filter (\<lambda>x. key x = k) xs"
  by (induction xs arbitrary: m0) (auto simp: get_list_push_at)

lemma get_list_empty [simp]: "get_list Map.empty k = []"
  by (simp add: get_list_def)

lemma map_of_push_assoc: "map_of (push_assoc m k v) = push_at (map_of m) k v"
  by (simp add: push_assoc_def push_at_def update_conv')

lemma fst_push_assoc:
  "fst ` set (push_assoc m k v) = insert k (fst ` set m)"
  by (simp add: push_assoc_def dom_update)

lemma distinct_push_assoc: "distinct (map fst m) \<Longrightarrow> distinct (map fst (push_assoc m k v))"
  by (simp add: push_assoc_def distinct_update)

lemma push_assoc_fold:
  assumes "distinct (map fst m)"
  shows "distinct (map fst (fold (\<lambda>b m. if P b then push_assoc m (key b) b else m) bs m))
    \<and> fst ` set (fold (\<lambda>b m. if P b then push_assoc m (key b) b else m) bs m)
        = fst ` set m \<union> key ` {b \<in> set bs. P b}
    \<and> map_of (fold (\<lambda>b m. if P b then push_assoc m (key b) b else m) bs m)
        = fold (\<lambda>b m. if P b then push_at m (key b) b else m) bs (map_of m)"
  using assms
proof (induction bs arbitrary: m)
  case Nil
  then show ?case by simp
next
  case (Cons b bs)
  show ?case
  proof (cases "P b")
    case True
    from Cons.IH [OF distinct_push_assoc [OF Cons.prems]] True show ?thesis
      by (auto simp: fst_push_assoc map_of_push_assoc)
  next
    case False
    with Cons show ?thesis by auto
  qed
qed

text \<open>\<open>Map.set\<close> in a loop keeps the last element stored under a key.\<close>

definition set_all :: "('a \<Rightarrow> 'k) \<Rightarrow> 'a list \<Rightarrow> ('k \<rightharpoonup> 'a) \<Rightarrow> ('k \<rightharpoonup> 'a)" where
  "set_all key xs m = fold (\<lambda>x m. m(key x \<mapsto> x)) xs m"

lemma set_all_Nil [simp]: "set_all key [] m = m"
  by (simp add: set_all_def)

lemma set_all_snoc [simp]: "set_all key (xs @ [x]) m = (set_all key xs m)(key x \<mapsto> x)"
  by (simp add: set_all_def)

lemma set_all_Some:
  "set_all key xs Map.empty k = Some x \<Longrightarrow> x \<in> set xs \<and> key x = k"
  by (induction xs rule: rev_induct) (auto split: if_splits)

lemma set_all_None: "set_all key xs Map.empty k = None \<longleftrightarrow> k \<notin> key ` set xs"
  by (induction xs rule: rev_induct) auto

lemma set_all_distinct:
  "distinct (map key xs) \<Longrightarrow> x \<in> set xs \<Longrightarrow> set_all key xs Map.empty (key x) = Some x"
  by (induction xs rule: rev_induct) (auto simp: image_iff)

section \<open>Printing numbers\<close>

fun js_show_nat :: "nat \<Rightarrow> string" where
  "js_show_nat n = (if n < 10 then [char_of (48 + n)] else js_show_nat (n div 10) @ [char_of (48 + n mod 10)])"

declare js_show_nat.simps [simp del]

definition js_show_int :: "int \<Rightarrow> string" where
  "js_show_int i = (if i < 0 then ''-'' @ js_show_nat (nat (- i)) else js_show_nat (nat i))"

lemma js_show_nat_digits: "c \<in> set (js_show_nat n) \<Longrightarrow> (of_char c :: nat) \<in> {48..57}"
proof (induction n rule: js_show_nat.induct)
  case (1 n)
  show ?case
  proof (cases "n < 10")
    case True
    with 1(2) show ?thesis by (subst (asm) js_show_nat.simps) auto
  next
    case False
    with 1(2) consider "c \<in> set (js_show_nat (n div 10))" | "c = char_of (48 + n mod 10)"
      by (subst (asm) js_show_nat.simps) auto
    then show ?thesis
    proof cases
      case 2
      have "n mod 10 < 10" by simp
      with 2 show ?thesis by simp
    qed (use 1(1) False in simp)
  qed
qed

lemma js_show_nat_value: "foldl (\<lambda>a c. 10 * a + (of_char c - 48)) 0 (js_show_nat n) = n"
proof (induction n rule: js_show_nat.induct)
  case (1 n)
  then show ?case by (subst js_show_nat.simps) simp
qed

lemma js_show_nat_inject [simp]: "js_show_nat m = js_show_nat n \<longleftrightarrow> m = n"
  by (metis js_show_nat_value)

text \<open>A printed number ends before the first character that is not a digit.\<close>

lemma js_show_nat_split:
  assumes "js_show_nat m @ d # xs = js_show_nat n @ d # ys" "(of_char d :: nat) \<notin> {48..57}"
  shows "m = n \<and> xs = ys"
proof -
  have "takeWhile (\<lambda>c. c \<noteq> d) (js_show_nat k @ d # zs) = js_show_nat k" for k zs
    using assms(2) js_show_nat_digits [of _ k] by (subst takeWhile_append2) auto
  with assms(1) have "js_show_nat m = js_show_nat n" by metis
  with assms(1) show ?thesis by simp
qed

section \<open>Bisection\<close>

text \<open>
  The loop \<open>while (low < high) \<dots>\<close> with \<open>mid = (low + high) >>> 1\<close>, moving \<open>low\<close> past
  \<open>mid\<close> while the test holds there. Array lengths stay below \<open>2 ^ 31\<close>, where the unsigned
  shift is the division.
\<close>

function bisect_loop :: "('a \<Rightarrow> bool) \<Rightarrow> 'a list \<Rightarrow> nat \<Rightarrow> nat \<Rightarrow> nat" where
  "bisect_loop P arr low high =
     (if low < high then
        let mid = (low + high) div 2
        in if P (arr ! mid) then bisect_loop P arr (mid + 1) high else bisect_loop P arr low mid
      else low)"
  by pat_completeness auto
termination
  by (relation "measure (\<lambda>(P, arr, low, high). high - low)") auto

declare bisect_loop.simps [simp del]

definition bisect :: "('a \<Rightarrow> bool) \<Rightarrow> 'a list \<Rightarrow> nat" where
  "bisect P arr = bisect_loop P arr 0 (length arr)"

lemma bisect_loop_split:
  assumes "low \<le> high" "high \<le> length arr"
    and "\<And>i j. i \<le> j \<Longrightarrow> j < length arr \<Longrightarrow> P (arr ! j) \<Longrightarrow> P (arr ! i)"
    and "\<And>i. i < low \<Longrightarrow> P (arr ! i)"
    and "\<And>i. high \<le> i \<Longrightarrow> i < length arr \<Longrightarrow> \<not> P (arr ! i)"
  shows "bisect_loop P arr low high \<le> length arr
    \<and> (\<forall>i < bisect_loop P arr low high. P (arr ! i))
    \<and> (\<forall>i. bisect_loop P arr low high \<le> i \<longrightarrow> i < length arr \<longrightarrow> \<not> P (arr ! i))"
  using assms
proof (induction P arr low high rule: bisect_loop.induct)
  case (1 P arr low high)
  define mid where "mid = (low + high) div 2"
  show ?case
  proof (cases "low < high")
    case False
    then have "bisect_loop P arr low high = low" by (simp add: bisect_loop.simps [of P arr low high])
    with False "1.prems" show ?thesis by auto
  next
    case True
    then have mid: "low \<le> mid" "mid < high" "mid < length arr"
      using "1.prems"(2) by (auto simp: mid_def)
    show ?thesis
    proof (cases "P (arr ! mid)")
      case True
      have eq: "bisect_loop P arr low high = bisect_loop P arr (mid + 1) high"
        using \<open>low < high\<close> True by (simp add: bisect_loop.simps [of P arr low high] mid_def Let_def)
      have le: "mid + 1 \<le> high" using mid by simp
      have below: "P (arr ! i)" if "i < mid + 1" for i
        by (rule "1.prems"(3) [of i mid]) (use that mid True in simp_all)
      show ?thesis unfolding eq
        by (rule "1.IH"(1) [OF \<open>low < high\<close> mid_def True le "1.prems"(2,3) below "1.prems"(5)])
    next
      case False
      have eq: "bisect_loop P arr low high = bisect_loop P arr low mid"
        using \<open>low < high\<close> False by (simp add: bisect_loop.simps [of P arr low high] mid_def Let_def)
      have above: "\<not> P (arr ! i)" if "mid \<le> i" "i < length arr" for i
        using "1.prems"(3) [OF that] False by blast
      have le: "mid \<le> length arr" using mid by simp
      show ?thesis unfolding eq
        by (rule "1.IH"(2) [OF \<open>low < high\<close> mid_def False mid(1) le "1.prems"(3,4) above])
    qed
  qed
qed

lemma bisect_takeWhile:
  assumes "\<And>i j. i \<le> j \<Longrightarrow> j < length arr \<Longrightarrow> P (arr ! j) \<Longrightarrow> P (arr ! i)"
  shows "bisect P arr = length (takeWhile P arr)"
proof -
  have spec: "bisect P arr \<le> length arr" "\<And>i. i < bisect P arr \<Longrightarrow> P (arr ! i)"
    "\<And>i. bisect P arr \<le> i \<Longrightarrow> i < length arr \<Longrightarrow> \<not> P (arr ! i)"
    using bisect_loop_split [of 0 "length arr" arr P] assms by (auto simp: bisect_def)
  have "takeWhile P arr = take (bisect P arr) arr"
    by (rule takeWhile_eq_take_P_nth) (use spec in auto)
  with spec(1) show ?thesis by simp
qed

lemma bisect_loop_le: "low \<le> high \<Longrightarrow> high \<le> length arr \<Longrightarrow> bisect_loop P arr low high \<le> length arr"
proof (induction P arr low high rule: bisect_loop.induct)
  case (1 P arr low high)
  then show ?case by (subst bisect_loop.simps) (auto simp: Let_def)
qed

lemma bisect_takeWhile_le: "bisect P arr \<le> length arr"
  unfolding bisect_def by (rule bisect_loop_le) simp_all

text \<open>On a sorted list, the slice between the two bounds is the range.\<close>

lemma sorted_takeWhile_less: "sorted xs \<Longrightarrow> takeWhile (\<lambda>x. x \<le> (m :: 'a :: linorder)) xs = filter (\<lambda>x. x \<le> m) xs"
proof (induction xs)
  case (Cons a xs)
  then show ?case by (cases "a \<le> m") (auto intro!: filter_False [symmetric] dest: order_trans)
qed simp

lemma sorted_dropWhile_less: "sorted xs \<Longrightarrow> dropWhile (\<lambda>x. x < (m :: 'a :: linorder)) xs = filter (\<lambda>x. m \<le> x) xs"
proof (induction xs)
  case (Cons a xs)
  then show ?case by (cases "a < m") (auto intro!: filter_True [symmetric])
qed simp

lemma bisect_slice:
  fixes arr :: "'a :: linorder list"
  assumes "sorted arr" "lo \<le> hi"
  shows "take (bisect (\<lambda>x. x \<le> hi) arr - bisect (\<lambda>x. x < lo) arr) (drop (bisect (\<lambda>x. x < lo) arr) arr)
    = filter (\<lambda>x. lo \<le> x \<and> x \<le> hi) arr"
proof -
  have nth: "\<And>i j. i \<le> j \<Longrightarrow> j < length arr \<Longrightarrow> arr ! i \<le> arr ! j"
    using assms(1) by (rule sorted_nth_mono)
  have lo: "bisect (\<lambda>x. x < lo) arr = length (takeWhile (\<lambda>x. x < lo) arr)"
    by (rule bisect_takeWhile) (rule le_less_trans [OF nth])
  have hi: "bisect (\<lambda>x. x \<le> hi) arr = length (takeWhile (\<lambda>x. x \<le> hi) arr)"
    by (rule bisect_takeWhile) (rule order_trans [OF nth])
  define ys where "ys = filter (\<lambda>x. x \<le> hi) arr"
  have ys: "take (length (takeWhile (\<lambda>x. x \<le> hi) arr)) arr = ys"
    unfolding ys_def takeWhile_eq_take [symmetric] by (rule sorted_takeWhile_less) (rule assms)
  have "takeWhile (\<lambda>x. x < lo) arr = takeWhile (\<lambda>x. x < lo) ys"
    using assms unfolding ys_def
  proof (induction arr)
    case (Cons a xs)
    then have "\<not> a \<le> hi \<Longrightarrow> filter (\<lambda>x. x \<le> hi) xs = []"
      by (intro filter_False ballI) (auto dest: order_trans)
    with Cons show ?case by (cases "a \<le> hi") auto
  qed simp
  then have "drop (length (takeWhile (\<lambda>x. x < lo) arr)) ys = dropWhile (\<lambda>x. x < lo) ys"
    by (simp add: dropWhile_eq_drop)
  also have "\<dots> = filter (\<lambda>x. lo \<le> x) ys"
    by (rule sorted_dropWhile_less) (use assms(1) in \<open>simp add: ys_def sorted_filter [of id, simplified]\<close>)
  finally show ?thesis
    unfolding lo hi drop_take [symmetric] ys by (simp add: ys_def conj_commute)
qed

lemma bisect_from:
  fixes arr :: "'a :: linorder list"
  assumes "sorted arr"
  shows "takeWhile (\<lambda>x. x \<le> hi) (drop (bisect (\<lambda>x. x < lo) arr) arr) = filter (\<lambda>x. lo \<le> x \<and> x \<le> hi) arr"
proof -
  have nth: "\<And>i j. i \<le> j \<Longrightarrow> j < length arr \<Longrightarrow> arr ! i \<le> arr ! j"
    using assms by (rule sorted_nth_mono)
  have lo: "bisect (\<lambda>x. x < lo) arr = length (takeWhile (\<lambda>x. x < lo) arr)"
    by (rule bisect_takeWhile) (rule le_less_trans [OF nth])
  have "drop (bisect (\<lambda>x. x < lo) arr) arr = filter (\<lambda>x. lo \<le> x) arr"
    unfolding lo by (simp add: dropWhile_eq_drop [symmetric] sorted_dropWhile_less [OF assms])
  moreover have "sorted (filter (\<lambda>x. lo \<le> x) arr)"
    using assms by (simp add: sorted_filter [of id, simplified])
  ultimately show ?thesis by (simp add: sorted_takeWhile_less conj_commute)
qed

section \<open>Lists\<close>

text \<open>A list that another one continues.\<close>

definition continued_by :: "'a list \<Rightarrow> 'a list \<Rightarrow> bool" where
  "continued_by xs ys \<longleftrightarrow> take (length xs) ys = xs"

lemma continued_byE:
  assumes "continued_by xs ys"
  obtains zs where "ys = xs @ zs"
  using assms unfolding continued_by_def by (metis append_take_drop_id)

lemma continued_by_append [simp]: "continued_by xs (xs @ zs)"
  by (simp add: continued_by_def)

lemma continued_by_refl [simp]: "continued_by xs xs"
  by (simp add: continued_by_def)

lemma continued_by_trans: "continued_by xs ys \<Longrightarrow> continued_by ys zs \<Longrightarrow> continued_by xs zs"
  by (auto elim!: continued_byE)

lemma take_take_append: "take n (take n xs @ ys) = take n (xs @ ys)"
  by (cases "n \<le> length xs") auto


lemma mset_concat_cong:
  assumes "mset ks = mset ks'"
  shows "mset (concat (map f ks)) = mset (concat (map f ks'))"
proof -
  have "\<Sum>\<^sub># (mset (map (mset \<circ> f) ks)) = \<Sum>\<^sub># (mset (map (mset \<circ> f) ks'))"
    using assms by simp
  then show ?thesis by (simp add: mset_concat sum_mset_sum_list del: mset_map)
qed

lemma mset_concat_filter_keys:
  "distinct ks \<Longrightarrow> mset (concat (map (\<lambda>k. filter (\<lambda>x. P x \<and> key x = k) xs) ks))
     = mset (filter (\<lambda>x. P x \<and> key x \<in> set ks) xs)"
proof (induction ks)
  case Nil
  then show ?case by simp
next
  case (Cons k ks)
  then have "k \<notin> set ks" by simp
  then have "mset (filter (\<lambda>x. P x \<and> (key x = k \<or> key x \<in> set ks)) xs)
      = mset (filter (\<lambda>x. P x \<and> key x = k) xs) + mset (filter (\<lambda>x. P x \<and> key x \<in> set ks) xs)"
    by (induction xs) auto
  with Cons show ?case by simp
qed

lemma sum_list_filter_split:
  fixes f :: "'a \<Rightarrow> int"
  shows "sum_list (map f xs) = sum_list (map f (filter P xs)) + sum_list (map f (filter (\<lambda>x. \<not> P x) xs))"
  by (induction xs) auto

lemma length_filter_split:
  "length xs = length (filter P xs) + length (filter (\<lambda>x. \<not> P x) xs)"
  by (induction xs) auto

lemma subseqs_Cons_iff:
  "ys \<in> set (subseqs (x # xs)) \<longleftrightarrow> ys \<in> set (subseqs xs) \<or> (\<exists>zs. ys = x # zs \<and> zs \<in> set (subseqs xs))"
  by (auto simp: Let_def)

lemma subseqs_set_subset: "ys \<in> set (subseqs xs) \<Longrightarrow> set ys \<subseteq> set xs"
proof (induction xs arbitrary: ys)
  case Nil
  then show ?case by simp
next
  case (Cons x xs)
  then show ?case unfolding subseqs_Cons_iff by fastforce
qed

lemma Nil_in_subseqs [simp]: "[] \<in> set (subseqs xs)"
  by (induction xs) (auto simp: Let_def)

lemma subseqs_distinct: "distinct xs \<Longrightarrow> ys \<in> set (subseqs xs) \<Longrightarrow> distinct ys"
proof (induction xs arbitrary: ys)
  case Nil
  then show ?case by simp
next
  case (Cons x xs)
  then show ?case
    unfolding subseqs_Cons_iff using subseqs_set_subset [of _ xs] by fastforce
qed

lemma subseqs_mset_subset: "ys \<in> set (subseqs xs) \<Longrightarrow> mset ys \<subseteq># mset xs"
proof (induction xs arbitrary: ys)
  case Nil
  then show ?case by simp
next
  case (Cons x xs)
  from Cons.prems consider "ys \<in> set (subseqs xs)" | zs where "ys = x # zs" "zs \<in> set (subseqs xs)"
    unfolding subseqs_Cons_iff by blast
  then show ?case
  proof cases
    case 1
    then have "mset ys \<subseteq># mset xs" by (rule Cons.IH)
    then show ?thesis by (simp add: subseteq_mset_def le_SucI)
  next
    case 2
    with Cons.IH show ?thesis by simp
  qed
qed

lemma mset_filter_sub: "mset (filter P xs) \<subseteq># mset xs"
  by (simp add: mset_filter multiset_filter_subset)

lemma mset_take_sub: "mset (take n xs) \<subseteq># mset xs"
  by (metis append_take_drop_id mset_append mset_subset_eq_add_left)

lemma mset_take_sort_sub: "mset (take n (js_sort cmp xs)) \<subseteq># mset xs"
  using mset_take_sub [of n "js_sort cmp xs"] by simp

lemma mset_sub_set: "mset xs \<subseteq># mset ys \<Longrightarrow> set xs \<subseteq> set ys"
  by (metis set_mset_mono set_mset_mset)

lemma mset_sub_distinct: "mset xs \<subseteq># mset ys \<Longrightarrow> distinct (map f ys) \<Longrightarrow> distinct (map f xs)"
proof -
  assume "mset xs \<subseteq># mset ys" "distinct (map f ys)"
  then have "mset (map f xs) \<subseteq># mset (map f ys)" by (simp add: image_mset_subseteq_mono)
  then obtain zs where "mset (map f ys) = mset (map f xs @ zs)"
    by (metis ex_mset mset_append subset_mset.add_diff_inverse)
  with \<open>distinct (map f ys)\<close> show ?thesis
    by (metis distinct_append mset_eq_imp_distinct_iff)
qed

section \<open>Keeping the first best candidate\<close>

text \<open>
  The searches of the source keep the best candidate seen so far and replace it only by one with
  a strictly smaller key. \<open>is_best\<close> says that a state is a best element of a set of candidates;
  it is the invariant of every such search, closed under considering one more candidate and
  under skipping a dominated one.
\<close>

definition keep_best :: "('a \<Rightarrow> 'k::linorder) \<Rightarrow> 'a \<Rightarrow> 'a option \<Rightarrow> 'a option" where
  "keep_best key c st = (case st of None \<Rightarrow> Some c | Some b \<Rightarrow> if key c < key b then Some c else st)"

definition is_best :: "('a \<Rightarrow> 'k::linorder) \<Rightarrow> 'a set \<Rightarrow> 'a option \<Rightarrow> bool" where
  "is_best key S st \<longleftrightarrow>
     (case st of None \<Rightarrow> S = {} | Some b \<Rightarrow> b \<in> S \<and> (\<forall>c \<in> S. key b \<le> key c))"

lemma is_best_empty [simp]: "is_best key {} None"
  by (simp add: is_best_def)

lemma is_best_keep: "is_best key S st \<Longrightarrow> is_best key (insert c S) (keep_best key c st)"
  by (auto simp: is_best_def keep_best_def split: option.splits)

lemma is_best_dominated:
  assumes "is_best key S st" "\<And>c. c \<in> T \<Longrightarrow> \<exists>b \<in> S. key b \<le> key c"
  shows "is_best key (S \<union> T) st"
proof (cases st)
  case None
  with assms have "S = {}" by (simp add: is_best_def)
  with assms(2) have "T = {}" by blast
  with None \<open>S = {}\<close> show ?thesis by simp
next
  case (Some b)
  with assms(1) have b: "b \<in> S" "\<And>c. c \<in> S \<Longrightarrow> key b \<le> key c" by (auto simp: is_best_def)
  have "key b \<le> key c" if "c \<in> S \<union> T" for c
  proof (cases "c \<in> S")
    case False
    with that assms(2) obtain b' where "b' \<in> S" "key b' \<le> key c" by blast
    with b(2) show ?thesis by (blast intro: order_trans)
  qed (rule b(2))
  with Some b(1) show ?thesis by (simp add: is_best_def)
qed

lemma is_best_Some: "is_best key S (Some b) \<Longrightarrow> b \<in> S \<and> (\<forall>c \<in> S. key b \<le> key c)"
  by (simp add: is_best_def)

lemma is_best_None: "is_best key S None \<Longrightarrow> S = {}"
  by (simp add: is_best_def)

lemma is_best_key_unique: "is_best key S a \<Longrightarrow> is_best key S b \<Longrightarrow> map_option key a = map_option key b"
  by (auto simp: is_best_def intro: order_antisym split: option.splits)

lemma is_best_empty_None: "is_best key {} st \<Longrightarrow> st = None"
  by (simp add: is_best_def split: option.splits)

lemma is_best_fold: "is_best key S st \<Longrightarrow> is_best key (S \<union> set cs) (fold (keep_best key) cs st)"
proof (induction cs arbitrary: S st)
  case Nil
  then show ?case by simp
next
  case (Cons c cs)
  from Cons.IH [OF is_best_keep [OF Cons.prems]] show ?case by simp
qed

lemma subseqs_append_iff:
  "zs \<in> set (subseqs (xs @ ys)) \<longleftrightarrow> (\<exists>us vs. zs = us @ vs \<and> us \<in> set (subseqs xs) \<and> vs \<in> set (subseqs ys))"
proof (induction xs arbitrary: zs)
  case Nil
  then show ?case by simp
next
  case (Cons x xs)
  show ?case
  proof
    assume "zs \<in> set (subseqs ((x # xs) @ ys))"
    then consider "zs \<in> set (subseqs (xs @ ys))" | ws where "zs = x # ws" "ws \<in> set (subseqs (xs @ ys))"
      unfolding append_Cons subseqs_Cons_iff by blast
    then show "\<exists>us vs. zs = us @ vs \<and> us \<in> set (subseqs (x # xs)) \<and> vs \<in> set (subseqs ys)"
    proof cases
      case 1
      then show ?thesis unfolding Cons.IH subseqs_Cons_iff by blast
    next
      case 2
      then obtain us vs where "zs = (x # us) @ vs" "us \<in> set (subseqs xs)" "vs \<in> set (subseqs ys)"
        unfolding Cons.IH by auto
      then show ?thesis unfolding subseqs_Cons_iff by blast
    qed
  next
    assume "\<exists>us vs. zs = us @ vs \<and> us \<in> set (subseqs (x # xs)) \<and> vs \<in> set (subseqs ys)"
    then show "zs \<in> set (subseqs ((x # xs) @ ys))"
      unfolding append_Cons subseqs_Cons_iff Cons.IH by fastforce
  qed
qed

end
