(* ===== verification/Audit_Chain.thy ===== *)
theory Audit_Chain
  imports Prelude
begin

text \<open>
  The tamper-evident audit chain (\<open>src/lib/reconciliation/audit-chain.ts\<close>): canonical
  serialisation of a payload, the hash chain of a batch, appending an event and verifying the
  chain. SHA-256 is a parameter. An integer of a payload is \<open>JInt\<close>, any other number
  is \<open>JNum\<close> with the text the language prints for it; the text of a date is the
  one \<open>toISOString\<close> gives. Between the read of the last event and the insert, other writers may
  append to the same batch: the unique constraint on the sequence number then rejects the insert
  and the source retries, up to five times.
\<close>

section \<open>Canonical serialisation\<close>

datatype json =
    JUndefined
  | JNull
  | JBool bool
  | JInt int
  | JNum string
  | JStr string
  | JDate string
  | JArr "json list"
  | JObj "(string \<times> json) list"

definition hex_digit :: "nat \<Rightarrow> char" where
  "hex_digit n = char_of (if n < 10 then 48 + n else 87 + n)"

definition json_escape :: "char \<Rightarrow> string" where
  "json_escape c = (let n = of_char c :: nat in
     if n = 34 then [char_of (92 :: nat), c]
     else if n = 92 then [c, c]
     else if n = 8 then [char_of (92 :: nat), CHR ''b'']
     else if n = 9 then [char_of (92 :: nat), CHR ''t'']
     else if n = 10 then [char_of (92 :: nat), CHR ''n'']
     else if n = 12 then [char_of (92 :: nat), CHR ''f'']
     else if n = 13 then [char_of (92 :: nat), CHR ''r'']
     else if n < 32 then char_of (92 :: nat) # ''u00'' @ [hex_digit (n div 16), hex_digit (n mod 16)]
     else [c])"

definition json_string :: "string \<Rightarrow> string" where
  "json_string s = [CHR 0x22] @ concat (map json_escape s) @ [CHR 0x22]"

fun canonicalize :: "json \<Rightarrow> string" where
  "canonicalize JUndefined = ''null''"
| "canonicalize JNull = ''null''"
| "canonicalize (JBool b) = (if b then ''true'' else ''false'')"
| "canonicalize (JInt i) = js_show_int i"
| "canonicalize (JNum text) = text"
| "canonicalize (JStr s) = json_string s"
| "canonicalize (JDate s) = json_string s"
| "canonicalize (JArr xs) = ''['' @ js_join '','' (map canonicalize xs) @ '']''"
| "canonicalize (JObj fs) =
     ''{'' @ js_join '','' (map (\<lambda>(k, t). json_string k @ '':'' @ t)
        (js_sort (cmp_by fst) (map (\<lambda>(k, v). (k, canonicalize v)) (filter (\<lambda>(k, v). v \<noteq> JUndefined) fs)))) @ ''}''"

text \<open>\<open>JSON.stringify\<close>: the same, with the keys in insertion order.\<close>

fun json_stringify :: "json \<Rightarrow> string" where
  "json_stringify JUndefined = ''null''"
| "json_stringify JNull = ''null''"
| "json_stringify (JBool b) = (if b then ''true'' else ''false'')"
| "json_stringify (JInt i) = js_show_int i"
| "json_stringify (JNum text) = text"
| "json_stringify (JStr s) = json_string s"
| "json_stringify (JDate s) = json_string s"
| "json_stringify (JArr xs) = ''['' @ js_join '','' (map json_stringify xs) @ '']''"
| "json_stringify (JObj fs) =
     ''{'' @ js_join '','' (map (\<lambda>(k, t). json_string k @ '':'' @ t)
        (map (\<lambda>(k, v). (k, json_stringify v)) (filter (\<lambda>(k, v). v \<noteq> JUndefined) fs))) @ ''}''"

section \<open>The chain\<close>

definition GENESIS_HASH :: string where
  "GENESIS_HASH = replicate 64 (CHR ''0'')"

record AuditEvent =
  ae_batchId :: ident
  ae_seq :: nat
  ae_eventType :: string
  ae_actor :: string
  ae_entityId :: "string option"
  ae_occurredAt :: string
  ae_canonicalPayload :: string
  ae_previousHash :: string
  ae_currentHash :: string

definition hashChainLink :: "(string \<Rightarrow> string) \<Rightarrow> string \<Rightarrow> string \<Rightarrow> string" where
  "hashChainLink sha256Hex previousHash canonicalPayload = sha256Hex (previousHash @ canonicalPayload)"

datatype ChainReason = BAD_GENESIS | SEQ_GAP_OR_REORDER | HASH_MISMATCH | LINK_BROKEN

record ChainVerification =
  cv_valid :: bool
  cv_reason :: "ChainReason option"
  cv_seq :: "nat option"
  cv_eventCount :: nat

definition broken :: "nat \<Rightarrow> ChainReason \<Rightarrow> nat \<Rightarrow> ChainVerification" where
  "broken n reason s = \<lparr>cv_valid = False, cv_reason = Some reason, cv_seq = Some s, cv_eventCount = n\<rparr>"

text \<open>The loop over the sorted rows; \<open>prev\<close> is the hash of the row before, if there is one.\<close>

fun check_links ::
  "(string \<Rightarrow> string) \<Rightarrow> nat \<Rightarrow> nat \<Rightarrow> string option \<Rightarrow> AuditEvent list \<Rightarrow> ChainVerification" where
  "check_links sha n i prev [] = \<lparr>cv_valid = True, cv_reason = None, cv_seq = None, cv_eventCount = n\<rparr>"
| "check_links sha n i prev (row # rows) =
     (if ae_seq row \<noteq> i then broken n SEQ_GAP_OR_REORDER (ae_seq row)
      else if ae_currentHash row \<noteq> hashChainLink sha (ae_previousHash row) (ae_canonicalPayload row)
      then broken n HASH_MISMATCH (ae_seq row)
      else if (case prev of None \<Rightarrow> False | Some h \<Rightarrow> ae_previousHash row \<noteq> h)
      then broken n LINK_BROKEN (ae_seq row)
      else check_links sha n (i + 1) (Some (ae_currentHash row)) rows)"

definition verifyChainFromRows :: "(string \<Rightarrow> string) \<Rightarrow> AuditEvent list \<Rightarrow> ChainVerification" where
  "verifyChainFromRows sha rows =
     (let sorted = js_sort (\<lambda>a b. int (ae_seq a) - int (ae_seq b)) rows; n = length sorted
      in case sorted of
           [] \<Rightarrow> \<lparr>cv_valid = True, cv_reason = None, cv_seq = None, cv_eventCount = 0\<rparr>
         | first # _ \<Rightarrow>
             if ae_previousHash first \<noteq> GENESIS_HASH then broken n BAD_GENESIS (ae_seq first)
             else check_links sha n 0 None sorted)"

record AppendAuditEventInput =
  in_batchId :: ident
  in_eventType :: string
  in_actor :: string
  in_entityId :: "string option"
  in_payload :: "(string \<times> json) list"
  in_occurredAt :: string

text \<open>An object literal: later fields overwrite earlier ones of the same name.\<close>

definition merge_fields :: "(string \<times> json) list \<Rightarrow> (string \<times> json) list \<Rightarrow> (string \<times> json) list" where
  "merge_fields base extra = fold (\<lambda>(k, v) fs. AList.update k v fs) extra base"

definition event_payload :: "AppendAuditEventInput \<Rightarrow> string" where
  "event_payload inp = canonicalize (JObj (merge_fields (in_payload inp)
     [(''eventType'', JStr (in_eventType inp)), (''actor'', JStr (in_actor inp)),
      (''entityId'', case in_entityId inp of None \<Rightarrow> JNull | Some e \<Rightarrow> JStr e),
      (''occurredAt'', JStr (in_occurredAt inp))]))"

definition batch_events :: "ident \<Rightarrow> AuditEvent list \<Rightarrow> AuditEvent list" where
  "batch_events bid tbl = filter (\<lambda>e. ae_batchId e = bid) tbl"

fun last_event :: "AuditEvent list \<Rightarrow> AuditEvent option" where
  "last_event [] = None"
| "last_event (e # es) = (case last_event es of None \<Rightarrow> Some e | Some f \<Rightarrow> if ae_seq e \<ge> ae_seq f then Some e else Some f)"

definition next_event :: "(string \<Rightarrow> string) \<Rightarrow> AppendAuditEventInput \<Rightarrow> AuditEvent list \<Rightarrow> AuditEvent" where
  "next_event sha inp tbl =
     (let last = last_event (batch_events (in_batchId inp) tbl);
          previousHash = (case last of None \<Rightarrow> GENESIS_HASH | Some e \<Rightarrow> ae_currentHash e);
          payload = event_payload inp
      in \<lparr>ae_batchId = in_batchId inp, ae_seq = (case last of None \<Rightarrow> 0 | Some e \<Rightarrow> ae_seq e + 1),
          ae_eventType = in_eventType inp, ae_actor = in_actor inp, ae_entityId = in_entityId inp,
          ae_occurredAt = in_occurredAt inp, ae_canonicalPayload = payload, ae_previousHash = previousHash,
          ae_currentHash = hashChainLink sha previousHash payload\<rparr>)"

text \<open>The insert under the unique constraint on batch and sequence number.\<close>

definition insert_event :: "AuditEvent \<Rightarrow> AuditEvent list \<Rightarrow> AuditEvent list option" where
  "insert_event e tbl =
     (if (ae_batchId e, ae_seq e) \<in> (\<lambda>f. (ae_batchId f, ae_seq f)) ` set tbl then None else Some (tbl @ [e]))"

text \<open>
  \<open>others\<close> holds, for each attempt, the table as the other writers left it when the insert is made;
  it is given as a function of the table the attempt read.
\<close>

definition MAX_RETRIES :: nat where "MAX_RETRIES = 5"

fun append_attempts ::
  "nat \<Rightarrow> (string \<Rightarrow> string) \<Rightarrow> (nat \<Rightarrow> AuditEvent list \<Rightarrow> AuditEvent list) \<Rightarrow> AppendAuditEventInput \<Rightarrow> AuditEvent list
     \<Rightarrow> AuditEvent option \<times> AuditEvent list" where
  "append_attempts 0 sha others inp tbl = (None, tbl)"
| "append_attempts (Suc k) sha others inp tbl =
     (let e = next_event sha inp tbl; tbl1 = others k tbl
      in case insert_event e tbl1 of
           Some tbl2 \<Rightarrow> (Some e, tbl2)
         | None \<Rightarrow> append_attempts k sha others inp tbl1)"

definition appendAuditEvent ::
  "(string \<Rightarrow> string) \<Rightarrow> (nat \<Rightarrow> AuditEvent list \<Rightarrow> AuditEvent list) \<Rightarrow> AppendAuditEventInput \<Rightarrow> AuditEvent list
     \<Rightarrow> AuditEvent option \<times> AuditEvent list" where
  "appendAuditEvent sha others inp tbl = append_attempts MAX_RETRIES sha others inp tbl"

definition verifyAuditChain :: "(string \<Rightarrow> string) \<Rightarrow> ident \<Rightarrow> AuditEvent list \<Rightarrow> ChainVerification" where
  "verifyAuditChain sha bid tbl = verifyChainFromRows sha (batch_events bid tbl)"

end
