(* ===== verification/Domain.thy ===== *)
theory Domain
  imports Prelude
begin

text \<open>
  The data model of the reconciliation engine (\<open>src/lib/reconciliation/types.ts\<close>), its
  configuration constants (\<open>src/lib/constants.ts\<close>) and the normalisation of stored rows
  (\<open>src/lib/reconciliation/normalizer.ts\<close>). Amounts are integer paise; dates are milliseconds
  since the epoch, as \<open>Date.getTime\<close> reads them; a nullable field is an \<open>option\<close>. The field
  names carry a one-letter prefix for the row they belong to.
\<close>

record NormalizedPayment =
  p_dbId :: ident
  p_paymentId :: ident
  p_orderId :: ident
  p_amount :: paise
  p_fee :: paise
  p_tax :: paise
  p_method :: string
  p_status :: string
  p_capturedAt :: "millis option"
  p_createdAt :: millis

record NormalizedSettlement =
  s_dbId :: ident
  s_settlementId :: ident
  s_paymentId :: ident
  s_amount :: paise
  s_fee :: paise
  s_tax :: paise
  s_utr :: "string option"
  s_status :: string
  s_settledAt :: "millis option"
  s_createdAt :: millis

record NormalizedBankTxn =
  b_dbId :: ident
  b_txnId :: ident
  b_utr :: "string option"
  b_amount :: paise
  b_type :: string
  b_narration :: "string option"
  b_txnDate :: millis
  b_matched :: bool

record NormalizedRefund =
  r_dbId :: ident
  r_refundId :: ident
  r_paymentId :: ident
  r_amount :: paise
  r_status :: string

record NormalizedChargeback =
  c_dbId :: ident
  c_chargebackId :: ident
  c_paymentId :: ident
  c_amount :: paise
  c_status :: string

record NormalizedOrder =
  o_dbId :: ident
  o_orderId :: ident
  o_amount :: paise
  o_status :: string
  o_createdAt :: millis

record GroundTruth =
  g_paymentId :: ident
  g_expectedLabel :: string
  g_scenario :: string

record BatchData =
  orders :: "NormalizedOrder list"
  payments :: "NormalizedPayment list"
  settlements :: "NormalizedSettlement list"
  bankTransactions :: "NormalizedBankTxn list"
  refunds :: "NormalizedRefund list"
  chargebacks :: "NormalizedChargeback list"
  groundTruths :: "GroundTruth list"

text \<open>The labels of \<open>EXCEPTION_TYPES\<close>: the values a result's status takes.\<close>

datatype ExceptionType =
    AUTO_MATCHED
  | PENDING_SETTLEMENT
  | MISSING_BANK_CREDIT
  | AMOUNT_MISMATCH
  | DUPLICATE_SETTLEMENT
  | ORPHAN_BANK_CREDIT
  | REFUND_MISMATCH
  | CHARGEBACK_ADJUSTMENT
  | DELAYED_BANK_CREDIT
  | NEEDS_MANUAL_REVIEW

fun label :: "ExceptionType \<Rightarrow> string" where
  "label AUTO_MATCHED = ''AUTO_MATCHED''"
| "label PENDING_SETTLEMENT = ''PENDING_SETTLEMENT''"
| "label MISSING_BANK_CREDIT = ''MISSING_BANK_CREDIT''"
| "label AMOUNT_MISMATCH = ''AMOUNT_MISMATCH''"
| "label DUPLICATE_SETTLEMENT = ''DUPLICATE_SETTLEMENT''"
| "label ORPHAN_BANK_CREDIT = ''ORPHAN_BANK_CREDIT''"
| "label REFUND_MISMATCH = ''REFUND_MISMATCH''"
| "label CHARGEBACK_ADJUSTMENT = ''CHARGEBACK_ADJUSTMENT''"
| "label DELAYED_BANK_CREDIT = ''DELAYED_BANK_CREDIT''"
| "label NEEDS_MANUAL_REVIEW = ''NEEDS_MANUAL_REVIEW''"

datatype CardinalityType = One_One | One_N | N_One | N_M

text \<open>The texts that describe a cardinality group, as templates with their values.\<close>

datatype GroupDetails =
    SettlementsToCreditExact nat
  | SettlementsToCreditTolerated nat paise
  | CreditsToSettlementExact nat
  | CreditsToSettlementTolerated nat paise
  | Correlated nat nat
  | CorrelatedMeetInMiddle nat nat
  | IndexedOneToOne
  | IndexedAggregate nat

text \<open>
  A message template with the values it interpolates stands for the text of
  \<open>matchDetails\<close>; \<open>NoDetails\<close> is the empty string. Durations are kept in milliseconds,
  before the source divides and prints them.
\<close>

datatype MatchDetails =
    NoDetails
  | WithinWindow millis
  | SettlementOverdue millis
  | FoundSettlements "ident list"
  | RefundNotDeducted paise
  | AmountDelta paise paise paise
  | ChargebackOnSettled paise
  | BankNotSettlement paise paise
  | BankCreditLate millis
  | FuzzyCreditLate millis
  | AmbiguousCredits "ident list"
  | NoBankCreditFound ident
  | OrphanCredit ident paise "string option" "string option"
  | GroupVerified GroupDetails paise
  | CreditAggregates GroupDetails ident nat
  | SettlementMaps GroupDetails ident nat

record MatchResult =
  paymentId :: ident
  orderId :: ident
  settlementIds :: "ident list"
  bankTxnIds :: "ident list"
  refundIds :: "ident list"
  chargebackIds :: "ident list"
  orderAmount :: paise
  paymentAmount :: paise
  paymentFee :: paise
  paymentTax :: paise
  refundAmount :: paise
  chargebackAmount :: paise
  expectedNetAmount :: paise
  actualSettledAmount :: "paise option"
  bankCreditedAmount :: "paise option"
  mismatchAmount :: "paise option"
  status :: ExceptionType
  confidenceScore :: int
  matchMethod :: string
  matchDetails :: MatchDetails
  cardinalityType :: CardinalityType
  cardinalityReason :: "string option"
  relationshipScore :: "int option"

text \<open>A cardinality relationship (\<open>src/lib/reconciliation/cardinality.ts\<close>).\<close>

record CardinalityMatch =
  cm_type :: CardinalityType
  cm_settlementIds :: "ident list"
  cm_bankTxnIds :: "ident list"
  cm_settlementAmount :: paise
  cm_bankAmount :: paise
  cm_differencePaise :: paise
  cm_confidenceScore :: int
  cm_reasonCode :: string
  cm_details :: GroupDetails

section \<open>Configuration\<close>

definition DELAY_DAYS :: int where "DELAY_DAYS = 2"
definition BANK_CREDIT_EXPECTED_HOURS :: int where "BANK_CREDIT_EXPECTED_HOURS = 24"
definition BANK_CREDIT_MAX_HOURS :: int where "BANK_CREDIT_MAX_HOURS = 72"
definition AMOUNT_TOLERANCE_PAISE :: int where "AMOUNT_TOLERANCE_PAISE = 100"

definition PAYMENT_METHODS :: "string list" where
  "PAYMENT_METHODS = [''upi'', ''card'', ''netbanking'', ''wallet'']"

definition ms_per_hour :: int where "ms_per_hour = 1000 * 60 * 60"
definition ms_per_day :: int where "ms_per_day = 1000 * 60 * 60 * 24"

lemmas config_defs [model_defs] =
  DELAY_DAYS_def BANK_CREDIT_EXPECTED_HOURS_def BANK_CREDIT_MAX_HOURS_def
  AMOUNT_TOLERANCE_PAISE_def ms_per_hour_def ms_per_day_def

section \<open>Normalisation of stored rows\<close>

text \<open>
  The rows a batch has in the database are given by \<open>db\<close>, one \<open>BatchData\<close> of raw rows per
  batch; \<open>fetchBatchData\<close> trims and case-folds the identifying strings. A missing or empty UTR
  is null; one that only holds blanks becomes the empty string.
\<close>

definition norm_lower :: "string \<Rightarrow> string" where
  "norm_lower s = js_toLowerCase (js_trim s)"

definition norm_upper :: "string \<Rightarrow> string" where
  "norm_upper s = js_toUpperCase (js_trim s)"

definition norm_nullable :: "(string \<Rightarrow> string) \<Rightarrow> string option \<Rightarrow> string option" where
  "norm_nullable f s = (if truthy_str s then map_option f s else None)"

definition fetchBatchData :: "(ident \<Rightarrow> BatchData) \<Rightarrow> ident \<Rightarrow> BatchData" where
  "fetchBatchData db batchId = (let raw = db batchId in
     \<lparr>orders = map (\<lambda>x. x\<lparr>o_orderId := norm_lower (o_orderId x),
          o_status := norm_lower (o_status x)\<rparr>) (orders raw),
      payments = map (\<lambda>p. p\<lparr>p_paymentId := norm_lower (p_paymentId p),
          p_orderId := norm_lower (p_orderId p), p_method := norm_lower (p_method p),
          p_status := norm_lower (p_status p)\<rparr>) (payments raw),
      settlements = map (\<lambda>s. s\<lparr>s_settlementId := norm_lower (s_settlementId s),
          s_paymentId := norm_lower (s_paymentId s), s_utr := norm_nullable norm_upper (s_utr s),
          s_status := norm_lower (s_status s)\<rparr>) (settlements raw),
      bankTransactions = map (\<lambda>b. b\<lparr>b_txnId := norm_lower (b_txnId b),
          b_utr := norm_nullable norm_upper (b_utr b), b_type := norm_upper (b_type b),
          b_narration := norm_nullable js_trim (b_narration b), b_matched := False\<rparr>)
          (bankTransactions raw),
      refunds = map (\<lambda>r. r\<lparr>r_refundId := norm_lower (r_refundId r),
          r_paymentId := norm_lower (r_paymentId r), r_status := norm_lower (r_status r)\<rparr>)
          (refunds raw),
      chargebacks = map (\<lambda>c. c\<lparr>c_chargebackId := norm_lower (c_chargebackId c),
          c_paymentId := norm_lower (c_paymentId c), c_status := norm_lower (c_status c)\<rparr>)
          (chargebacks raw),
      groundTruths = map (\<lambda>g. g\<lparr>g_paymentId := norm_lower (g_paymentId g)\<rparr>)
          (groundTruths raw)\<rparr>)"

end
