(* ===== verification/Confidence.thy ===== *)
theory Confidence
  imports Domain
begin

text \<open>
  The confidence score of a match (\<open>src/lib/reconciliation/confidence.ts\<close>), the
  reclassification it drives, and the settlement lifecycle classifier of
  \<open>src/lib/reconciliation/temporal.ts\<close>.
\<close>

section \<open>Confidence score\<close>

record ConfidenceInput =
  exactUtrMatch :: bool
  exactIdMatch :: bool
  exactAmountMatch :: bool
  dateWithinWindow :: bool
  narrationContainsId :: bool
  singleCandidate :: bool
  multipleCandidates :: bool
  amountDeltaPaise :: paise
  hasRefund :: bool
  hasChargeback :: bool
  noBankCredit :: bool
  noSettlement :: bool

definition weight :: "bool \<Rightarrow> int \<Rightarrow> int" where
  "weight b n = (if b then n else 0)"

definition mismatch_penalty :: "paise \<Rightarrow> int" where
  "mismatch_penalty d =
     (if d > 0 then
        if d \<le> 100 then 5 else if d \<le> 1000 then 15 else if d \<le> 10000 then 25 else 40
      else 0)"

definition raw_confidence :: "ConfidenceInput \<Rightarrow> int" where
  "raw_confidence i =
     weight (exactUtrMatch i) 40 + weight (exactIdMatch i) 25 + weight (exactAmountMatch i) 15
     + weight (dateWithinWindow i) 10 + weight (narrationContainsId i) 10
     + weight (singleCandidate i) 5
     - weight (multipleCandidates i) 30 - weight (noBankCredit i) 20 - weight (noSettlement i) 15
     - mismatch_penalty (amountDeltaPaise i)
     - weight (hasRefund i) 3 - weight (hasChargeback i) 8"

definition computeConfidence :: "ConfidenceInput \<Rightarrow> int" where
  "computeConfidence i = max 0 (min 100 (raw_confidence i))"

definition classifyByConfidence :: "int \<Rightarrow> ExceptionType \<Rightarrow> ExceptionType" where
  "classifyByConfidence score currentStatus =
     (if score \<ge> 80 \<and> currentStatus = AUTO_MATCHED then AUTO_MATCHED
      else if score < 50 \<and> currentStatus = AUTO_MATCHED then NEEDS_MANUAL_REVIEW
      else currentStatus)"

lemmas confidence_defs [model_defs] =
  computeConfidence_def raw_confidence_def weight_def mismatch_penalty_def

lemma computeConfidence_range [simp]: "0 \<le> computeConfidence i" "computeConfidence i \<le> 100"
  by (simp_all add: computeConfidence_def)

lemma classifyByConfidence_auto:
  "classifyByConfidence score st = AUTO_MATCHED \<longleftrightarrow> st = AUTO_MATCHED \<and> 50 \<le> score"
  by (auto simp: classifyByConfidence_def)

lemma classifyByConfidence_other:
  "st \<noteq> AUTO_MATCHED \<Longrightarrow> classifyByConfidence score st = st"
  by (simp add: classifyByConfidence_def)

text \<open>
  Without a bank credit no signal that depends on one can be set, and what remains cannot
  reach the threshold.
\<close>

lemma no_credit_low_confidence:
  assumes "noBankCredit i" "\<not> exactUtrMatch i" "\<not> dateWithinWindow i" "\<not> narrationContainsId i"
  shows "computeConfidence i \<le> 25"
  using assms by (auto simp: confidence_defs)

text \<open>More evidence never lowers the score: each positive signal is monotone.\<close>

lemma computeConfidence_utr_mono:
  "computeConfidence (i\<lparr>exactUtrMatch := False\<rparr>) \<le> computeConfidence (i\<lparr>exactUtrMatch := True\<rparr>)"
  by (simp add: computeConfidence_def raw_confidence_def weight_def [of "exactUtrMatch _"] weight_def [of True] weight_def [of False])

section \<open>Settlement lifecycle\<close>

datatype TemporalLifecycleState =
    NOT_YET_SETTLED
  | PENDING_SETTLEMENT_WINDOW
  | DELAYED_SETTLEMENT
  | TRUE_FINANCIAL_EXCEPTION

record TemporalEvaluationParams =
  paymentCapturedAt :: millis
  evaluationTime :: millis
  settlementObserved :: bool
  bankCreditObserved :: bool
  policyToleranceWindowHours :: int

record TemporalState =
  t_state :: TemporalLifecycleState
  elapsedMs :: millis
  isWithinPolicyWindow :: bool
  requiresExceptionHandling :: bool

text \<open>
  \<open>elapsedHours\<close> is kept as its numerator in milliseconds; the comparisons with a number of
  hours are cross-multiplied.
\<close>

definition classifyTemporalState :: "TemporalEvaluationParams \<Rightarrow> TemporalState" where
  "classifyTemporalState ps =
     (let diffMs = max 0 (evaluationTime ps - paymentCapturedAt ps);
          within = (diffMs \<le> policyToleranceWindowHours ps * ms_per_hour)
      in if settlementObserved ps \<and> bankCreditObserved ps then
           \<lparr>t_state = NOT_YET_SETTLED, elapsedMs = diffMs, isWithinPolicyWindow = within,
            requiresExceptionHandling = False\<rparr>
         else if within then
           \<lparr>t_state = (if diffMs < 12 * ms_per_hour then NOT_YET_SETTLED else PENDING_SETTLEMENT_WINDOW),
            elapsedMs = diffMs, isWithinPolicyWindow = True, requiresExceptionHandling = False\<rparr>
         else
           \<lparr>t_state = DELAYED_SETTLEMENT, elapsedMs = diffMs, isWithinPolicyWindow = False,
            requiresExceptionHandling = True\<rparr>)"

lemma classifyTemporalState_never_true_exception:
  "t_state (classifyTemporalState ps) \<noteq> TRUE_FINANCIAL_EXCEPTION"
  by (simp add: classifyTemporalState_def Let_def)

lemma classifyTemporalState_exception_iff:
  "requiresExceptionHandling (classifyTemporalState ps) \<longleftrightarrow>
     \<not> (settlementObserved ps \<and> bankCreditObserved ps)
     \<and> max 0 (evaluationTime ps - paymentCapturedAt ps) > policyToleranceWindowHours ps * ms_per_hour"
  by (auto simp: classifyTemporalState_def Let_def)

lemma classifyTemporalState_delayed_iff:
  "t_state (classifyTemporalState ps) = DELAYED_SETTLEMENT \<longleftrightarrow>
     requiresExceptionHandling (classifyTemporalState ps)"
  by (simp add: classifyTemporalState_def Let_def)

end
