(* ===== verification/Indexer.thy ===== *)
theory Indexer
  imports Domain
begin

text \<open>
  The hash indexes of a batch (\<open>src/lib/reconciliation/indexer.ts\<close>). Plain maps are HOL maps;
  \<open>bankByAmount\<close>, whose keys the code enumerates, is an insertion-ordered association list.
  The locale \<open>match_index\<close> states what the matcher relies on; \<open>buildIndexes\<close> satisfies it.
\<close>

record Indexes =
  paymentById :: "ident \<rightharpoonup> NormalizedPayment"
  orderById :: "ident \<rightharpoonup> NormalizedOrder"
  settlementById :: "ident \<rightharpoonup> NormalizedSettlement"
  settlementsByPaymentId :: "ident \<rightharpoonup> NormalizedSettlement list"
  bankByUtr :: "string \<rightharpoonup> NormalizedBankTxn"
  bankByAmount :: "(paise \<times> NormalizedBankTxn list) list"
  sortedBankAmounts :: "paise list"
  amountFirstSeenIndex :: "paise \<rightharpoonup> nat"
  settlementUtrSet :: "string set"
  hasNullSettlementUtr :: bool
  refundsByPaymentId :: "ident \<rightharpoonup> NormalizedRefund list"
  chargebacksByPaymentId :: "ident \<rightharpoonup> NormalizedChargeback list"
  maxCapturedDate :: millis

definition is_credit :: "NormalizedBankTxn \<Rightarrow> bool" where
  "is_credit b = (b_type b = ''CREDIT'')"

definition later_capture :: "NormalizedPayment \<Rightarrow> millis \<Rightarrow> millis" where
  "later_capture p m = (case p_capturedAt p of None \<Rightarrow> m | Some t \<Rightarrow> if t > m then t else m)"

definition add_settlement_utr ::
  "NormalizedSettlement \<Rightarrow> string set \<times> bool \<Rightarrow> string set \<times> bool" where
  "add_settlement_utr s st = (case st of (utrs, hasNull) \<Rightarrow>
     (case s_utr s of
        None \<Rightarrow> (utrs, True)
      | Some u \<Rightarrow> if u = [] then (utrs, True) else (insert u utrs, hasNull)))"

definition index_utr :: "NormalizedBankTxn \<Rightarrow> (string \<rightharpoonup> NormalizedBankTxn) \<Rightarrow> (string \<rightharpoonup> NormalizedBankTxn)" where
  "index_utr b m = (case b_utr b of
      None \<Rightarrow> m
    | Some u \<Rightarrow> if u \<noteq> [] \<and> is_credit b then m(u \<mapsto> b) else m)"

definition index_amount ::
  "NormalizedBankTxn \<Rightarrow> (paise \<times> NormalizedBankTxn list) list \<times> (paise \<rightharpoonup> nat) \<times> nat
     \<Rightarrow> (paise \<times> NormalizedBankTxn list) list \<times> (paise \<rightharpoonup> nat) \<times> nat" where
  "index_amount b st = (case st of (byAmount, firstSeen, amountOrder) \<Rightarrow>
     if is_credit b then
       (push_assoc byAmount (b_amount b) b,
        if map_of byAmount (b_amount b) = None
        then (firstSeen(b_amount b \<mapsto> amountOrder), Suc amountOrder)
        else (firstSeen, amountOrder))
     else st)"

definition refund_processed :: "NormalizedRefund \<Rightarrow> bool" where
  "refund_processed r = (r_status r = ''processed'')"

definition chargeback_active :: "NormalizedChargeback \<Rightarrow> bool" where
  "chargeback_active c = (c_status c = ''open'' \<or> c_status c = ''under_review'' \<or> c_status c = ''accepted'')"

definition buildIndexes :: "BatchData \<Rightarrow> Indexes" where
  "buildIndexes data =
     (let utrs = fold add_settlement_utr (settlements data) ({}, False);
          amounts = fold index_amount (bankTransactions data) ([], Map.empty, 0)
      in \<lparr>paymentById = set_all p_paymentId (payments data) Map.empty,
          orderById = set_all o_orderId (orders data) Map.empty,
          settlementById = set_all s_settlementId (settlements data) Map.empty,
          settlementsByPaymentId =
            fold (\<lambda>s m. push_at m (s_paymentId s) s) (settlements data) Map.empty,
          bankByUtr = fold index_utr (bankTransactions data) Map.empty,
          bankByAmount = fst amounts,
          sortedBankAmounts = js_sort (\<lambda>a b. a - b) (map fst (fst amounts)),
          amountFirstSeenIndex = fst (snd amounts),
          settlementUtrSet = fst utrs,
          hasNullSettlementUtr = snd utrs,
          refundsByPaymentId =
            fold (\<lambda>r m. if refund_processed r then push_at m (r_paymentId r) r else m) (refunds data) Map.empty,
          chargebacksByPaymentId =
            fold (\<lambda>c m. if chargeback_active c then push_at m (c_paymentId c) c else m) (chargebacks data) Map.empty,
          maxCapturedDate = fold later_capture (payments data) 0\<rparr>)"

section \<open>What the matcher relies on\<close>

locale match_index =
  fixes build :: "BatchData \<Rightarrow> Indexes"
  assumes order_lookup: "orderById (build d) = set_all o_orderId (orders d) Map.empty"
    and settlement_group:
      "get_list (settlementsByPaymentId (build d)) k = filter (\<lambda>s. s_paymentId s = k) (settlements d)"
    and refund_group:
      "get_list (refundsByPaymentId (build d)) k
         = filter (\<lambda>r. refund_processed r \<and> r_paymentId r = k) (refunds d)"
    and chargeback_group:
      "get_list (chargebacksByPaymentId (build d)) k
         = filter (\<lambda>c. chargeback_active c \<and> c_paymentId c = k) (chargebacks d)"
    and utr_lookup_sound:
      "bankByUtr (build d) u = Some b \<Longrightarrow>
         b \<in> set (bankTransactions d) \<and> is_credit b \<and> b_utr b = Some u"
    and utr_lookup_complete:
      "bankByUtr (build d) u = None \<Longrightarrow> u \<noteq> [] \<Longrightarrow> b \<in> set (bankTransactions d) \<Longrightarrow>
         is_credit b \<Longrightarrow> b_utr b \<noteq> Some u"
    and amount_group:
      "get_list (map_of (bankByAmount (build d))) a
         = filter (\<lambda>b. is_credit b \<and> b_amount b = a) (bankTransactions d)"
    and amounts_sorted: "sorted (sortedBankAmounts (build d))"
    and amounts_distinct: "distinct (sortedBankAmounts (build d))"
    and amounts_set:
      "set (sortedBankAmounts (build d)) = b_amount ` {b \<in> set (bankTransactions d). is_credit b}"
    and utr_set: "settlementUtrSet (build d) = {u. u \<noteq> [] \<and> Some u \<in> s_utr ` set (settlements d)}"
    and null_utr: "hasNullSettlementUtr (build d) \<longleftrightarrow> (\<exists>s \<in> set (settlements d). \<not> truthy_str (s_utr s))"

section \<open>The indexes satisfy it\<close>

lemma settlement_utrs_spec:
  "fold add_settlement_utr ss (us, n)
     = (us \<union> {u. u \<noteq> [] \<and> Some u \<in> s_utr ` set ss}, n \<or> (\<exists>s \<in> set ss. \<not> truthy_str (s_utr s)))"
  by (induction ss arbitrary: us n)
    (auto simp: add_settlement_utr_def truthy_str_def split: option.splits)

lemma index_utr_Some:
  "fold index_utr bs Map.empty u = Some b \<Longrightarrow>
     b \<in> set bs \<and> is_credit b \<and> b_utr b = Some u"
  by (induction bs rule: rev_induct) (auto simp: index_utr_def split: option.splits if_splits)

lemma index_utr_None:
  "fold index_utr bs Map.empty u = None \<Longrightarrow> u \<noteq> [] \<Longrightarrow> b \<in> set bs \<Longrightarrow> is_credit b \<Longrightarrow>
     b_utr b \<noteq> Some u"
  by (induction bs rule: rev_induct) (auto simp: index_utr_def split: option.splits if_splits)

lemma index_amount_fst:
  "fst (fold index_amount bs st)
     = fold (\<lambda>b m. if is_credit b then push_assoc m (b_amount b) b else m) bs (fst st)"
  by (induction bs arbitrary: st) (auto simp: index_amount_def split: prod.splits)

lemmas bank_amount_index =
  push_assoc_fold [of "[]" is_credit b_amount, simplified]

interpretation batch: match_index buildIndexes
proof
  fix d k u b a
  show "orderById (buildIndexes d) = set_all o_orderId (orders d) Map.empty"
    by (simp add: buildIndexes_def Let_def)
  show "get_list (settlementsByPaymentId (buildIndexes d)) k
      = filter (\<lambda>s. s_paymentId s = k) (settlements d)"
    by (simp add: buildIndexes_def Let_def get_list_fold_push_all)
  show "get_list (refundsByPaymentId (buildIndexes d)) k
      = filter (\<lambda>r. refund_processed r \<and> r_paymentId r = k) (refunds d)"
    by (simp add: buildIndexes_def Let_def get_list_fold_push)
  show "get_list (chargebacksByPaymentId (buildIndexes d)) k
      = filter (\<lambda>c. chargeback_active c \<and> c_paymentId c = k) (chargebacks d)"
    by (simp add: buildIndexes_def Let_def get_list_fold_push)
  show "bankByUtr (buildIndexes d) u = Some b \<Longrightarrow>
      b \<in> set (bankTransactions d) \<and> is_credit b \<and> b_utr b = Some u"
    by (rule index_utr_Some) (simp add: buildIndexes_def Let_def)
  show "bankByUtr (buildIndexes d) u = None \<Longrightarrow> u \<noteq> [] \<Longrightarrow> b \<in> set (bankTransactions d) \<Longrightarrow>
      is_credit b \<Longrightarrow> b_utr b \<noteq> Some u"
    by (rule index_utr_None) (simp_all add: buildIndexes_def Let_def)
  show "get_list (map_of (bankByAmount (buildIndexes d))) a
      = filter (\<lambda>b. is_credit b \<and> b_amount b = a) (bankTransactions d)"
    using bank_amount_index [of "bankTransactions d"]
    by (simp add: buildIndexes_def Let_def index_amount_fst get_list_fold_push)
  show "sorted (sortedBankAmounts (buildIndexes d))"
    by (simp add: buildIndexes_def Let_def sorted_amounts)
  show "distinct (sortedBankAmounts (buildIndexes d))"
    using bank_amount_index [of "bankTransactions d"]
    by (simp add: buildIndexes_def Let_def index_amount_fst)
  show "set (sortedBankAmounts (buildIndexes d)) = b_amount ` {b \<in> set (bankTransactions d). is_credit b}"
    using bank_amount_index [of "bankTransactions d"]
    by (simp add: buildIndexes_def Let_def index_amount_fst)
  show "settlementUtrSet (buildIndexes d) = {u. u \<noteq> [] \<and> Some u \<in> s_utr ` set (settlements d)}"
    by (simp add: buildIndexes_def Let_def settlement_utrs_spec)
  show "hasNullSettlementUtr (buildIndexes d) \<longleftrightarrow> (\<exists>s \<in> set (settlements d). \<not> truthy_str (s_utr s))"
    by (simp add: buildIndexes_def Let_def settlement_utrs_spec)
qed

text \<open>The reference date is the latest capture, never before the epoch.\<close>

lemma later_capture_fold:
  "m \<le> fold later_capture ps m \<and> (\<forall>p \<in> set ps. \<forall>t. p_capturedAt p = Some t \<longrightarrow> t \<le> fold later_capture ps m)"
proof (induction ps arbitrary: m)
  case Nil
  then show ?case by simp
next
  case (Cons p ps)
  have "m \<le> later_capture p m \<and> (\<forall>t. p_capturedAt p = Some t \<longrightarrow> t \<le> later_capture p m)"
    by (auto simp: later_capture_def split: option.splits)
  with Cons [of "later_capture p m"] show ?case by (auto intro: order_trans)
qed

end
