(* ===== verification/Matcher.thy ===== *)
theory Matcher
  imports Confidence Indexer
begin

text \<open>
  The deterministic matcher (\<open>src/lib/reconciliation/matcher.ts\<close>): one result per captured
  payment, threading the set of bank credits already taken, and one result per orphan bank
  credit. Comparisons of a duration in hours or days with a constant are cross-multiplied to
  milliseconds.
\<close>

section \<open>Binary search over the sorted amounts\<close>

definition lowerBound :: "paise list \<Rightarrow> paise \<Rightarrow> nat" where
  "lowerBound arr target = bisect (\<lambda>x. x < target) arr"

definition upperBound :: "paise list \<Rightarrow> paise \<Rightarrow> nat" where
  "upperBound arr target = bisect (\<lambda>x. x \<le> target) arr"

section \<open>Fuzzy candidates\<close>

definition fuzzy_tolerance :: "NormalizedSettlement \<Rightarrow> paise" where
  "fuzzy_tolerance s = max AMOUNT_TOLERANCE_PAISE (js_round_div (s_amount s) 100)"

definition matching_amounts :: "Indexes \<Rightarrow> paise \<Rightarrow> paise \<Rightarrow> paise list" where
  "matching_amounts idx minAmount maxAmount =
     (let arr = sortedBankAmounts idx;
          startIdx = lowerBound arr minAmount;
          endIdx = upperBound arr maxAmount
      in if startIdx \<ge> endIdx then []
         else if endIdx - startIdx = 1 then [arr ! startIdx]
         else js_sort (\<lambda>a b. int (case amountFirstSeenIndex idx a of None \<Rightarrow> 0 | Some i \<Rightarrow> i)
                           - int (case amountFirstSeenIndex idx b of None \<Rightarrow> 0 | Some i \<Rightarrow> i))
                (take (endIdx - startIdx) (drop startIdx arr)))"

definition in_date_window :: "NormalizedSettlement \<Rightarrow> NormalizedBankTxn \<Rightarrow> bool" where
  "in_date_window s txn = (case s_settledAt s of
      None \<Rightarrow> True
    | Some t \<Rightarrow> \<not> (b_txnDate txn - t < - 1 * ms_per_hour
                  \<or> b_txnDate txn - t > BANK_CREDIT_MAX_HOURS * ms_per_hour))"

definition findFuzzyBankCandidates ::
  "NormalizedSettlement \<Rightarrow> Indexes \<Rightarrow> ident set \<Rightarrow> NormalizedBankTxn list" where
  "findFuzzyBankCandidates s idx matchedIds =
     (let tol = fuzzy_tolerance s
      in concat (map (\<lambda>amount. filter (\<lambda>txn. b_txnId txn \<notin> matchedIds \<and> is_credit txn \<and> in_date_window s txn)
                        (get_list (map_of (bankByAmount idx)) amount))
                 (matching_amounts idx (s_amount s - tol) (s_amount s + tol))))"

section \<open>One captured payment\<close>

definition initial_result :: "Indexes \<Rightarrow> NormalizedPayment \<Rightarrow> MatchResult" where
  "initial_result idx p =
     (let rs = get_list (refundsByPaymentId idx) (p_paymentId p);
          cs = get_list (chargebacksByPaymentId idx) (p_paymentId p);
          refund = sum_list (map r_amount rs);
          chargeback = sum_list (map c_amount cs)
      in \<lparr>paymentId = p_paymentId p,
          orderId = p_orderId p,
          settlementIds = map s_settlementId (get_list (settlementsByPaymentId idx) (p_paymentId p)),
          bankTxnIds = [],
          refundIds = map r_refundId rs,
          chargebackIds = map c_chargebackId cs,
          orderAmount = (case orderById idx (p_orderId p) of None \<Rightarrow> p_amount p | Some ord \<Rightarrow> o_amount ord),
          paymentAmount = p_amount p,
          paymentFee = p_fee p,
          paymentTax = p_tax p,
          refundAmount = refund,
          chargebackAmount = chargeback,
          expectedNetAmount = p_amount p - p_fee p - p_tax p - refund - chargeback,
          actualSettledAmount = None,
          bankCreditedAmount = None,
          mismatchAmount = None,
          status = AUTO_MATCHED,
          confidenceScore = 0,
          matchMethod = ''NONE'',
          matchDetails = NoDetails,
          cardinalityType = One_One,
          cardinalityReason = None,
          relationshipScore = None\<rparr>)"

definition no_settlement_result :: "Indexes \<Rightarrow> NormalizedPayment \<Rightarrow> MatchResult \<Rightarrow> MatchResult" where
  "no_settlement_result idx p r =
     (let r1 = (case p_capturedAt p of
            None \<Rightarrow> r\<lparr>status := PENDING_SETTLEMENT, matchMethod := ''NO_CAPTURE_DATE''\<rparr>
          | Some t \<Rightarrow>
              let sinceCapture = maxCapturedDate idx - t
              in if sinceCapture < (DELAY_DAYS + 1) * ms_per_day
                 then r\<lparr>status := PENDING_SETTLEMENT, matchMethod := ''NO_SETTLEMENT_YET'',
                        matchDetails := WithinWindow sinceCapture\<rparr>
                 else r\<lparr>status := MISSING_BANK_CREDIT, matchMethod := ''OVERDUE_NO_SETTLEMENT'',
                        matchDetails := SettlementOverdue sinceCapture\<rparr>)
      in r1\<lparr>confidenceScore := computeConfidence
           \<lparr>exactUtrMatch = False, exactIdMatch = True, exactAmountMatch = False,
            dateWithinWindow = (status r1 = PENDING_SETTLEMENT), narrationContainsId = False,
            singleCandidate = True, multipleCandidates = False, amountDeltaPaise = 0,
            hasRefund = (refundAmount r1 > 0), hasChargeback = (chargebackAmount r1 > 0),
            noBankCredit = True, noSettlement = True\<rparr>\<rparr>)"

definition duplicate_result :: "NormalizedSettlement list \<Rightarrow> MatchResult \<Rightarrow> MatchResult" where
  "duplicate_result ss r =
     (let settled = sum_list (map s_amount ss)
      in r\<lparr>status := DUPLICATE_SETTLEMENT,
           actualSettledAmount := Some settled,
           matchMethod := ''MULTIPLE_SETTLEMENTS'',
           matchDetails := FoundSettlements (map s_settlementId ss),
           confidenceScore := computeConfidence
             \<lparr>exactUtrMatch = False, exactIdMatch = True, exactAmountMatch = False,
              dateWithinWindow = False, narrationContainsId = False, singleCandidate = False,
              multipleCandidates = True, amountDeltaPaise = \<bar>expectedNetAmount r - settled\<bar>,
              hasRefund = (refundAmount r > 0), hasChargeback = (chargebackAmount r > 0),
              noBankCredit = False, noSettlement = False\<rparr>\<rparr>)"

definition amount_delta :: "NormalizedSettlement \<Rightarrow> MatchResult \<Rightarrow> paise" where
  "amount_delta s r = \<bar>expectedNetAmount r - s_amount s\<bar>"

definition classify_amount :: "NormalizedPayment \<Rightarrow> NormalizedSettlement \<Rightarrow> MatchResult \<Rightarrow> MatchResult" where
  "classify_amount p s r =
     (let delta = amount_delta s r
      in if delta > AMOUNT_TOLERANCE_PAISE then
           (if refundAmount r > 0 then
              (if \<bar>p_amount p - p_fee p - p_tax p - s_amount s\<bar> \<le> AMOUNT_TOLERANCE_PAISE
               then r\<lparr>status := REFUND_MISMATCH, matchDetails := RefundNotDeducted (refundAmount r)\<rparr>
               else r\<lparr>status := AMOUNT_MISMATCH,
                      matchDetails := AmountDelta (expectedNetAmount r) (s_amount s) delta\<rparr>)
            else if chargebackAmount r > 0
            then r\<lparr>status := CHARGEBACK_ADJUSTMENT, matchDetails := ChargebackOnSettled (chargebackAmount r)\<rparr>
            else r\<lparr>status := AMOUNT_MISMATCH,
                   matchDetails := AmountDelta (expectedNetAmount r) (s_amount s) delta\<rparr>)
             \<lparr>mismatchAmount := Some delta\<rparr>
         else r)"

definition flag_delay ::
  "(millis \<Rightarrow> MatchDetails) \<Rightarrow> NormalizedSettlement \<Rightarrow> NormalizedBankTxn \<Rightarrow> MatchResult \<Rightarrow> MatchResult" where
  "flag_delay msg s b r = (case s_settledAt s of
      None \<Rightarrow> r
    | Some t \<Rightarrow>
        let delay = b_txnDate b - t
        in if delay > BANK_CREDIT_EXPECTED_HOURS * ms_per_hour \<and> status r = AUTO_MATCHED
           then r\<lparr>status := DELAYED_BANK_CREDIT, matchDetails := msg delay\<rparr> else r)"

definition attach_credit :: "string \<Rightarrow> NormalizedBankTxn \<Rightarrow> MatchResult \<Rightarrow> MatchResult" where
  "attach_credit method b r =
     r\<lparr>matchMethod := method, bankTxnIds := [b_txnId b], bankCreditedAmount := Some (b_amount b)\<rparr>"

definition exact_utr_match ::
  "NormalizedSettlement \<Rightarrow> NormalizedBankTxn \<Rightarrow> MatchResult \<Rightarrow> MatchResult" where
  "exact_utr_match s b r =
     (let r1 = attach_credit ''EXACT_UTR'' b r;
          bankDelta = \<bar>b_amount b - s_amount s\<bar>;
          r2 = (if bankDelta > AMOUNT_TOLERANCE_PAISE \<and> status r1 = AUTO_MATCHED
                then r1\<lparr>status := AMOUNT_MISMATCH, mismatchAmount := Some bankDelta,
                        matchDetails := BankNotSettlement (b_amount b) (s_amount s)\<rparr>
                else r1)
      in flag_delay BankCreditLate s b r2)"

definition fuzzy_match ::
  "NormalizedSettlement \<Rightarrow> NormalizedBankTxn \<Rightarrow> MatchResult \<Rightarrow> MatchResult" where
  "fuzzy_match s b r =
     flag_delay FuzzyCreditLate s b
       (attach_credit (if matchMethod r = ''NONE'' then ''FUZZY_AMOUNT_DATE'' else matchMethod r @ ''+FUZZY'') b r)"

definition ambiguous_match :: "NormalizedBankTxn list \<Rightarrow> MatchResult \<Rightarrow> MatchResult" where
  "ambiguous_match cands r =
     r\<lparr>status := (if status r = AUTO_MATCHED then NEEDS_MANUAL_REVIEW else status r),
       matchMethod := ''AMBIGUOUS_FUZZY'',
       matchDetails := AmbiguousCredits (map b_txnId cands)\<rparr>"

definition no_bank_match :: "Indexes \<Rightarrow> NormalizedSettlement \<Rightarrow> MatchResult \<Rightarrow> MatchResult" where
  "no_bank_match idx s r =
     (let r1 = (if status r = AUTO_MATCHED
                then (case s_settledAt s of
                    None \<Rightarrow> r
                  | Some t \<Rightarrow> if maxCapturedDate idx - t > DELAY_DAYS * ms_per_day
                             then r\<lparr>status := MISSING_BANK_CREDIT, matchDetails := NoBankCreditFound (s_settlementId s)\<rparr>
                             else r)
                else r)
      in r1\<lparr>matchMethod := (if matchMethod r1 = ''NONE'' then ''NO_BANK_MATCH'' else matchMethod r1)\<rparr>)"

text \<open>The bank credit found for the settlement, the updated result and the ids taken so far.\<close>

definition find_credit ::
  "Indexes \<Rightarrow> NormalizedSettlement \<Rightarrow> MatchResult \<Rightarrow> ident set \<Rightarrow> NormalizedBankTxn option \<times> MatchResult \<times> ident set" where
  "find_credit idx s r matched =
     (case (case s_utr s of None \<Rightarrow> None | Some u \<Rightarrow> if u = [] then None else bankByUtr idx u) of
        Some b \<Rightarrow> (Some b, exact_utr_match s b r, insert (b_txnId b) matched)
      | None \<Rightarrow>
          (case findFuzzyBankCandidates s idx matched of
             [] \<Rightarrow> (None, no_bank_match idx s r, matched)
           | [b] \<Rightarrow> (Some b, fuzzy_match s b r, insert (b_txnId b) matched)
           | b # c # rest \<Rightarrow> (None, ambiguous_match (b # c # rest) r, matched)))"

definition score_single :: "NormalizedSettlement \<Rightarrow> NormalizedBankTxn option \<Rightarrow> MatchResult \<Rightarrow> int" where
  "score_single s txn r = computeConfidence
     \<lparr>exactUtrMatch = js_includes (matchMethod r) ''EXACT_UTR'',
      exactIdMatch = True,
      exactAmountMatch = (amount_delta s r \<le> AMOUNT_TOLERANCE_PAISE),
      dateWithinWindow = (case txn of None \<Rightarrow> False | Some b \<Rightarrow> (case s_settledAt s of None \<Rightarrow> False
         | Some t \<Rightarrow> \<bar>b_txnDate b - t\<bar> < BANK_CREDIT_EXPECTED_HOURS * ms_per_hour)),
      narrationContainsId = (case txn of None \<Rightarrow> False | Some b \<Rightarrow> (case b_narration b of None \<Rightarrow> False
         | Some n \<Rightarrow> js_includes n (s_settlementId s))),
      singleCandidate = True,
      multipleCandidates = (matchMethod r = ''AMBIGUOUS_FUZZY''),
      amountDeltaPaise = amount_delta s r,
      hasRefund = (refundAmount r > 0),
      hasChargeback = (chargebackAmount r > 0),
      noBankCredit = (txn = None),
      noSettlement = False\<rparr>"

definition single_settlement_result ::
  "Indexes \<Rightarrow> NormalizedPayment \<Rightarrow> NormalizedSettlement \<Rightarrow> MatchResult \<Rightarrow> ident set \<Rightarrow> MatchResult \<times> ident set" where
  "single_settlement_result idx p s r matched =
     (case find_credit idx s (classify_amount p s (r\<lparr>actualSettledAmount := Some (s_amount s)\<rparr>)) matched of
        (txn, r1, matched') \<Rightarrow>
          let score = score_single s txn r1
          in (r1\<lparr>confidenceScore := score, status := classifyByConfidence score (status r1)\<rparr>, matched'))"

definition processPayment ::
  "Indexes \<Rightarrow> NormalizedPayment \<Rightarrow> ident set \<Rightarrow> MatchResult \<times> ident set" where
  "processPayment idx p matched =
     (let r = initial_result idx p
      in case get_list (settlementsByPaymentId idx) (p_paymentId p) of
           [] \<Rightarrow> (no_settlement_result idx p r, matched)
         | [s] \<Rightarrow> single_settlement_result idx p s r matched
         | s # s' # ss \<Rightarrow> (duplicate_result (s # s' # ss) r, matched))"

fun processPayments ::
  "Indexes \<Rightarrow> NormalizedPayment list \<Rightarrow> ident set \<Rightarrow> MatchResult list \<times> ident set" where
  "processPayments idx [] matched = ([], matched)"
| "processPayments idx (p # ps) matched =
     (case processPayment idx p matched of (r, matched') \<Rightarrow>
      (case processPayments idx ps matched' of (rs, matched'') \<Rightarrow> (r # rs, matched'')))"

text \<open>The loop, read through its two results.\<close>

lemma processPayments_Cons:
  "fst (processPayments idx (p # ps) m)
     = fst (processPayment idx p m) # fst (processPayments idx ps (snd (processPayment idx p m)))"
  "snd (processPayments idx (p # ps) m) = snd (processPayments idx ps (snd (processPayment idx p m)))"
  by (simp_all split: prod.split)

lemmas processPayments_rec [simp] = processPayments_Cons processPayments.simps(1)
declare processPayments.simps(2) [simp del]

section \<open>Orphan bank credits\<close>

definition id_char :: "char \<Rightarrow> bool" where
  "id_char c = (let n = of_char (js_lower c) :: nat in (97 \<le> n \<and> n \<le> 122) \<or> (48 \<le> n \<and> n \<le> 57) \<or> n = 95)"

text \<open>
  The case-insensitive regular expression \<open>prefix[a-z0-9_]+\<close>: the leftmost position where the
  prefix matches and at least one more identifier character follows, extended greedily.
\<close>

fun id_match :: "string \<Rightarrow> string \<Rightarrow> string option" where
  "id_match prefix [] = None"
| "id_match prefix (c # s) =
     (let tail = takeWhile id_char (drop (length prefix) (c # s))
      in if js_startsWith (js_toLowerCase (c # s)) (js_toLowerCase prefix) \<and> tail \<noteq> []
         then Some (js_toLowerCase (take (length prefix) (c # s) @ tail))
         else id_match prefix s)"

definition extractIdFromNarration :: "string option \<Rightarrow> string \<Rightarrow> string option" where
  "extractIdFromNarration narration prefix =
     (if truthy_str narration then id_match prefix (the narration) else None)"

definition matched_to_settlement :: "Indexes \<Rightarrow> NormalizedBankTxn \<Rightarrow> bool" where
  "matched_to_settlement idx b = (case b_utr b of
      None \<Rightarrow> hasNullSettlementUtr idx
    | Some u \<Rightarrow> u \<in> settlementUtrSet idx)"

definition is_orphan :: "Indexes \<Rightarrow> ident set \<Rightarrow> NormalizedBankTxn \<Rightarrow> bool" where
  "is_orphan idx matched b = (is_credit b \<and> b_txnId b \<notin> matched \<and> \<not> matched_to_settlement idx b)"

definition orphanResult :: "NormalizedBankTxn \<Rightarrow> MatchResult" where
  "orphanResult b =
     \<lparr>paymentId = (case extractIdFromNarration (b_narration b) ''pay_'' of
          Some pid \<Rightarrow> pid | None \<Rightarrow> ''orphan_'' @ b_txnId b),
      orderId = ''N/A'',
      settlementIds = (case extractIdFromNarration (b_narration b) ''setl_'' of
          Some sid \<Rightarrow> [sid] | None \<Rightarrow> []),
      bankTxnIds = [b_txnId b], refundIds = [], chargebackIds = [],
      orderAmount = 0, paymentAmount = 0, paymentFee = 0, paymentTax = 0,
      refundAmount = 0, chargebackAmount = 0, expectedNetAmount = 0,
      actualSettledAmount = None, bankCreditedAmount = Some (b_amount b), mismatchAmount = None,
      status = ORPHAN_BANK_CREDIT, confidenceScore = 25, matchMethod = ''ORPHAN_DETECTION'',
      matchDetails = OrphanCredit (b_txnId b) (b_amount b) (b_utr b) (b_narration b),
      cardinalityType = One_One, cardinalityReason = None, relationshipScore = None\<rparr>"

definition capturedPayments :: "BatchData \<Rightarrow> NormalizedPayment list" where
  "capturedPayments data = filter (\<lambda>p. p_status p = ''captured'') (payments data)"

definition matchAllRecords :: "BatchData \<Rightarrow> Indexes \<Rightarrow> MatchResult list" where
  "matchAllRecords data idx =
     (case processPayments idx (capturedPayments data) {} of (results, matched) \<Rightarrow>
        results @ map orphanResult (filter (is_orphan idx matched) (bankTransactions data)))"

end
