(* ===== verification/Evaluator.thy ===== *)
theory Evaluator
  imports Matcher
begin

text \<open>
  The batch metrics (\<open>src/lib/reconciliation/evaluator.ts\<close>). A ratio is kept as its numerator
  and denominator, before the source divides, rounds and scales it to a percentage; wall-clock
  fields (throughput, processing time, phase timings) are left out. The per-label counters are
  insertion-ordered dictionaries, since a ground-truth label outside the known ones adds a key.
\<close>

record ReconciliationMetrics =
  m_totalRecords :: int
  m_autoMatched :: int
  m_exceptionsFound :: int
  m_unresolvedCount :: int
  m_accuracy :: "nat \<times> nat"
  m_precision :: "nat \<times> nat"
  m_recall :: "nat \<times> nat"
  m_confusionMatrix :: "string \<Rightarrow> string \<Rightarrow> nat"
  m_perType :: "(string \<times> nat \<times> nat \<times> nat \<times> nat) list"
  m_grossOrderAmount :: paise
  m_capturedPayments :: paise
  m_expectedSettlement :: paise
  m_actualBankCredits :: paise
  m_totalRefunds :: paise
  m_totalChargebacks :: paise
  m_amountAtRisk :: paise
  m_exceptionsByType :: "ExceptionType \<Rightarrow> nat"

definition allLabels :: "string list" where
  "allLabels = map label [AUTO_MATCHED, PENDING_SETTLEMENT, MISSING_BANK_CREDIT, AMOUNT_MISMATCH,
     DUPLICATE_SETTLEMENT, ORPHAN_BANK_CREDIT, REFUND_MISMATCH, CHARGEBACK_ADJUSTMENT,
     DELAYED_BANK_CREDIT, NEEDS_MANUAL_REVIEW]"

definition is_orphan_id :: "ident \<Rightarrow> bool" where
  "is_orphan_id i = js_startsWith i ''orphan_''"

definition count_of :: "(string \<times> nat) list \<Rightarrow> string \<Rightarrow> nat" where
  "count_of m k = (case map_of m k of None \<Rightarrow> 0 | Some n \<Rightarrow> n)"

definition bump :: "string \<Rightarrow> (string \<times> nat) list \<Rightarrow> (string \<times> nat) list" where
  "bump k m = AList.update k (count_of m k + 1) m"

definition effectiveTruth :: "string \<Rightarrow> string" where
  "effectiveTruth g = (if g = label ORPHAN_BANK_CREDIT then label AUTO_MATCHED else g)"

record EvalState =
  ev_correct :: nat
  ev_total :: nat
  ev_TP :: "(string \<times> nat) list"
  ev_FP :: "(string \<times> nat) list"
  ev_FN :: "(string \<times> nat) list"
  ev_matrix :: "string \<Rightarrow> string \<Rightarrow> nat"

definition initial_eval :: EvalState where
  "initial_eval = \<lparr>ev_correct = 0, ev_total = 0, ev_TP = map (\<lambda>l. (l, 0)) allLabels,
     ev_FP = map (\<lambda>l. (l, 0)) allLabels, ev_FN = map (\<lambda>l. (l, 0)) allLabels,
     ev_matrix = (\<lambda>_ _. 0)\<rparr>"

definition evaluate_row :: "(ident \<rightharpoonup> GroundTruth) \<Rightarrow> MatchResult \<Rightarrow> EvalState \<Rightarrow> EvalState" where
  "evaluate_row truths r st =
     (case truths (paymentId r) of
        None \<Rightarrow> st
      | Some g \<Rightarrow>
          if g_expectedLabel g = [] then st
          else let predicted = label (status r);
                   truth = effectiveTruth (g_expectedLabel g);
                   st1 = st\<lparr>ev_total := ev_total st + 1\<rparr>;
                   st2 = (if predicted = truth
                          then st1\<lparr>ev_correct := ev_correct st1 + 1, ev_TP := bump predicted (ev_TP st1)\<rparr>
                          else st1\<lparr>ev_FP := bump predicted (ev_FP st1), ev_FN := bump truth (ev_FN st1)\<rparr>)
               in if truth \<in> set allLabels \<and> predicted \<in> set allLabels
                  then st2\<lparr>ev_matrix := (ev_matrix st2)(truth := (ev_matrix st2 truth)(predicted := ev_matrix st2 truth predicted + 1))\<rparr>
                  else st2)"

definition evaluate_rows :: "MatchResult list \<Rightarrow> BatchData \<Rightarrow> EvalState" where
  "evaluate_rows results data =
     fold (evaluate_row (set_all g_paymentId (groundTruths data) Map.empty))
       (filter (\<lambda>r. \<not> is_orphan_id (paymentId r)) results) initial_eval"

definition payment_exceptions :: "MatchResult list \<Rightarrow> MatchResult list" where
  "payment_exceptions results = filter (\<lambda>r. status r \<noteq> AUTO_MATCHED \<and> \<not> is_orphan_id (paymentId r)) results"

definition sum_counts :: "(string \<times> nat) list \<Rightarrow> nat" where
  "sum_counts m = sum_list (map snd m)"

definition evaluateResults :: "MatchResult list \<Rightarrow> BatchData \<Rightarrow> ReconciliationMetrics" where
  "evaluateResults results data =
     (let ev = evaluate_rows results data;
          orphanResults = length (filter (\<lambda>r. status r = ORPHAN_BANK_CREDIT) results);
          orphanTruths = length (filter (\<lambda>g. g_expectedLabel g = label ORPHAN_BANK_CREDIT) (groundTruths data));
          detected = (orphanTruths > 0 \<and> orphanResults > 0);
          correct = ev_correct ev + (if detected then min orphanResults orphanTruths else 0);
          total = ev_total ev + (if detected then orphanTruths else 0);
          tp = sum_counts (ev_TP ev); fp = sum_counts (ev_FP ev); fn = sum_counts (ev_FN ev)
      in \<lparr>m_totalRecords = int (length results),
          m_autoMatched = int (length (filter (\<lambda>r. status r = AUTO_MATCHED) results)),
          m_exceptionsFound = int (length (payment_exceptions results)),
          m_unresolvedCount = int (length (filter (\<lambda>r. status r = NEEDS_MANUAL_REVIEW) results)),
          m_accuracy = (correct, total),
          m_precision = (tp, tp + fp),
          m_recall = (tp, tp + fn),
          m_confusionMatrix = ev_matrix ev,
          m_perType = map (\<lambda>l. (l, count_of (ev_TP ev) l, count_of (ev_FP ev) l, count_of (ev_FN ev) l,
             length (filter (\<lambda>g. effectiveTruth (g_expectedLabel g) = l) (groundTruths data)))) allLabels,
          m_grossOrderAmount = sum_list (map o_amount (orders data)),
          m_capturedPayments = sum_list (map p_amount (capturedPayments data)),
          m_expectedSettlement = sum_list (map expectedNetAmount results),
          m_actualBankCredits = sum_list (map b_amount (filter is_credit (bankTransactions data))),
          m_totalRefunds = sum_list (map r_amount (refunds data)),
          m_totalChargebacks = sum_list (map c_amount (chargebacks data)),
          m_amountAtRisk = sum_list (map (\<lambda>e. \<bar>or_zero (expectedNetAmount e) (bankCreditedAmount e)\<bar>)
             (payment_exceptions results)),
          m_exceptionsByType = (\<lambda>st. length (filter (\<lambda>r. status r = st) results))\<rparr>)"

section \<open>Facts\<close>

lemma sum_counts_Cons [simp]: "sum_counts ((k, v) # m) = v + sum_counts m"
  by (simp add: sum_counts_def)

lemma sum_counts_bump: "distinct (map fst m) \<Longrightarrow> sum_counts (bump k m) = Suc (sum_counts m)"
proof (induction m)
  case Nil
  then show ?case by (simp add: bump_def count_of_def sum_counts_def)
next
  case (Cons x m)
  then show ?case
    by (cases x) (auto simp: bump_def count_of_def sum_counts_def)
qed

lemma distinct_bump: "distinct (map fst m) \<Longrightarrow> distinct (map fst (bump k m))"
  by (simp add: bump_def distinct_update)

text \<open>
  Every evaluated row is either one true positive, or one false positive together with one
  false negative: the loop invariant.
\<close>

definition eval_inv :: "EvalState \<Rightarrow> bool" where
  "eval_inv st \<longleftrightarrow>
     distinct (map fst (ev_TP st)) \<and> distinct (map fst (ev_FP st)) \<and> distinct (map fst (ev_FN st))
     \<and> sum_counts (ev_TP st) = ev_correct st
     \<and> sum_counts (ev_FP st) = sum_counts (ev_FN st)
     \<and> ev_total st = ev_correct st + sum_counts (ev_FN st)"

lemma evaluate_row_inv: "eval_inv st \<Longrightarrow> eval_inv (evaluate_row truths r st)"
  by (auto simp: eval_inv_def evaluate_row_def Let_def sum_counts_bump distinct_bump split: option.split)

lemma evaluate_rows_inv: "eval_inv (evaluate_rows results data)"
proof -
  have "eval_inv initial_eval"
    by (simp add: eval_inv_def initial_eval_def sum_counts_def allLabels_def)
  moreover have "eval_inv (fold (evaluate_row t) rs st)" if "eval_inv st" for t rs st
    using that by (induction rs arbitrary: st) (auto intro: evaluate_row_inv)
  ultimately show ?thesis by (simp add: evaluate_rows_def)
qed

section \<open>Properties\<close>

text \<open>
  The reported ratios are proper and consistent: correct predictions never exceed evaluated
  records, so accuracy is at most 100 percent; and since every wrong row counts once as a false
  positive and once as a false negative, the aggregate precision equals the aggregate recall.
\<close>

theorem metrics_ratios:
  "fst (m_accuracy (evaluateResults results data)) \<le> snd (m_accuracy (evaluateResults results data))
   \<and> m_precision (evaluateResults results data) = m_recall (evaluateResults results data)
   \<and> fst (m_precision (evaluateResults results data)) \<le> snd (m_precision (evaluateResults results data))"
  using evaluate_rows_inv [of results data]
  by (auto simp: evaluateResults_def Let_def eval_inv_def intro: trans_le_add2)

end
