(* ===== verification/Run_Metadata.thy ===== *)
theory Run_Metadata
  imports Audit_Chain Evaluator
begin

text \<open>
  Run metadata and deterministic replay (\<open>src/lib/reconciliation/run-metadata.ts\<close>,
  \<open>versions.ts\<close>): the fingerprints of the input and of the outcome of a run, the table of runs and
  the check that a stored run was made by the current versions. The text of a date and of a
  floating-point number are those of the language's printer, a parameter: a number that is not an
  integer is kept as the floating-point expression that computes it.
\<close>

section \<open>Versions\<close>

record VersionSet =
  vs_providerSchema :: string
  vs_normalizer :: string
  vs_matcher :: string
  vs_cardinality :: string
  vs_ruleset :: string
  vs_policy :: string
  vs_model :: string
  vs_engine :: string

definition PIPELINE_VERSIONS :: VersionSet where
  "PIPELINE_VERSIONS = \<lparr>vs_providerSchema = ''1.0'', vs_normalizer = ''1.0'', vs_matcher = ''1.0'',
     vs_cardinality = ''1.0'', vs_ruleset = ''1.0'', vs_policy = ''1.0'', vs_model = ''1.0'', vs_engine = ''1.0''\<rparr>"

text \<open>\<open>Object.entries\<close> of a version set, in the order its keys are declared.\<close>

definition layers :: "VersionSet \<Rightarrow> (string \<times> string) list" where
  "layers v = [(''providerSchema'', vs_providerSchema v), (''normalizer'', vs_normalizer v),
     (''matcher'', vs_matcher v), (''cardinality'', vs_cardinality v), (''ruleset'', vs_ruleset v),
     (''policy'', vs_policy v), (''model'', vs_model v), (''engine'', vs_engine v)]"

section \<open>Fingerprints\<close>

datatype float_expr =
    Quotient int int
  | HarmonicMean "int \<times> int" "int \<times> int"

record Printer =
  toISOString :: "millis \<Rightarrow> string"
  float_text :: "float_expr \<Rightarrow> string"

definition j_opt :: "('a \<Rightarrow> json) \<Rightarrow> 'a option \<Rightarrow> json" where
  "j_opt f x = (case x of None \<Rightarrow> JNull | Some y \<Rightarrow> f y)"

definition order_json :: "Printer \<Rightarrow> NormalizedOrder \<Rightarrow> json" where
  "order_json pr x = JObj [(''dbId'', JStr (o_dbId x)), (''orderId'', JStr (o_orderId x)), (''amount'', JInt (o_amount x)),
     (''status'', JStr (o_status x)), (''createdAt'', JDate (toISOString pr (o_createdAt x)))]"

definition payment_json :: "Printer \<Rightarrow> NormalizedPayment \<Rightarrow> json" where
  "payment_json pr p = JObj [(''dbId'', JStr (p_dbId p)), (''paymentId'', JStr (p_paymentId p)),
     (''orderId'', JStr (p_orderId p)), (''amount'', JInt (p_amount p)), (''fee'', JInt (p_fee p)), (''tax'', JInt (p_tax p)),
     (''method'', JStr (p_method p)), (''status'', JStr (p_status p)),
     (''capturedAt'', j_opt (JDate \<circ> toISOString pr) (p_capturedAt p)),
     (''createdAt'', JDate (toISOString pr (p_createdAt p)))]"

definition settlement_json :: "Printer \<Rightarrow> NormalizedSettlement \<Rightarrow> json" where
  "settlement_json pr s = JObj [(''dbId'', JStr (s_dbId s)), (''settlementId'', JStr (s_settlementId s)),
     (''paymentId'', JStr (s_paymentId s)), (''amount'', JInt (s_amount s)), (''fee'', JInt (s_fee s)), (''tax'', JInt (s_tax s)),
     (''utr'', j_opt JStr (s_utr s)), (''status'', JStr (s_status s)),
     (''settledAt'', j_opt (JDate \<circ> toISOString pr) (s_settledAt s)),
     (''createdAt'', JDate (toISOString pr (s_createdAt s)))]"

definition bank_json :: "Printer \<Rightarrow> NormalizedBankTxn \<Rightarrow> json" where
  "bank_json pr b = JObj [(''dbId'', JStr (b_dbId b)), (''txnId'', JStr (b_txnId b)), (''utr'', j_opt JStr (b_utr b)),
     (''amount'', JInt (b_amount b)), (''type'', JStr (b_type b)), (''narration'', j_opt JStr (b_narration b)),
     (''txnDate'', JDate (toISOString pr (b_txnDate b))), (''matched'', JBool (b_matched b))]"

definition refund_json :: "NormalizedRefund \<Rightarrow> json" where
  "refund_json r = JObj [(''dbId'', JStr (r_dbId r)), (''refundId'', JStr (r_refundId r)),
     (''paymentId'', JStr (r_paymentId r)), (''amount'', JInt (r_amount r)), (''status'', JStr (r_status r))]"

definition chargeback_json :: "NormalizedChargeback \<Rightarrow> json" where
  "chargeback_json c = JObj [(''dbId'', JStr (c_dbId c)), (''chargebackId'', JStr (c_chargebackId c)),
     (''paymentId'', JStr (c_paymentId c)), (''amount'', JInt (c_amount c)), (''status'', JStr (c_status c))]"

definition truth_json :: "GroundTruth \<Rightarrow> json" where
  "truth_json g = JObj [(''paymentId'', JStr (g_paymentId g)), (''expectedLabel'', JStr (g_expectedLabel g)),
     (''scenario'', JStr (g_scenario g))]"

definition batch_json :: "Printer \<Rightarrow> BatchData \<Rightarrow> json" where
  "batch_json pr d = JObj [(''orders'', JArr (map (order_json pr) (orders d))),
     (''payments'', JArr (map (payment_json pr) (payments d))),
     (''settlements'', JArr (map (settlement_json pr) (settlements d))),
     (''bankTransactions'', JArr (map (bank_json pr) (bankTransactions d))),
     (''refunds'', JArr (map refund_json (refunds d))),
     (''chargebacks'', JArr (map chargeback_json (chargebacks d))),
     (''groundTruths'', JArr (map truth_json (groundTruths d)))]"

definition buildInputFingerprint :: "Printer \<Rightarrow> (string \<Rightarrow> string) \<Rightarrow> BatchData \<Rightarrow> string" where
  "buildInputFingerprint pr sha256Hex data = sha256Hex (canonicalize (batch_json pr data))"

fun cardinality_text :: "CardinalityType \<Rightarrow> string" where
  "cardinality_text One_One = ''1:1''"
| "cardinality_text One_N = ''1:N''"
| "cardinality_text N_One = ''N:1''"
| "cardinality_text N_M = ''N:M''"

definition result_json :: "MatchResult \<Rightarrow> json" where
  "result_json r = JObj [(''paymentId'', JStr (paymentId r)), (''status'', JStr (label (status r))),
     (''matchMethod'', JStr (matchMethod r)), (''expectedNetAmount'', JInt (expectedNetAmount r)),
     (''bankCreditedAmount'', j_opt JInt (bankCreditedAmount r)), (''mismatchAmount'', j_opt JInt (mismatchAmount r)),
     (''confidenceScore'', JInt (confidenceScore r)), (''cardinalityType'', JStr (cardinality_text (cardinalityType r))),
     (''cardinalityReason'', j_opt JStr (cardinalityReason r)),
     (''settlementIds'', JArr (map JStr (settlementIds r))), (''bankTxnIds'', JArr (map JStr (bankTxnIds r))),
     (''refundIds'', JArr (map JStr (refundIds r))), (''chargebackIds'', JArr (map JStr (chargebackIds r)))]"

text \<open>A ratio with a zero denominator counts as zero; a percentage is rounded to two decimals.\<close>

definition percent_json :: "Printer \<Rightarrow> nat \<times> nat \<Rightarrow> json" where
  "percent_json pr q =
     (if snd q = 0 then JInt 0 else JNum (float_text pr (Quotient (js_round_div (int (fst q) * 10000) (int (snd q))) 100)))"

definition ratio_json :: "Printer \<Rightarrow> nat \<Rightarrow> nat \<Rightarrow> json" where
  "ratio_json pr n d = (if d = 0 then JInt 0 else JNum (float_text pr (Quotient (int n) (int d))))"

definition per_type_json :: "Printer \<Rightarrow> string \<times> nat \<times> nat \<times> nat \<times> nat \<Rightarrow> string \<times> json" where
  "per_type_json pr row = (case row of (l, tp, fp, fn, cnt) \<Rightarrow>
     (l, JObj [(''precision'', ratio_json pr tp (tp + fp)), (''recall'', ratio_json pr tp (tp + fn)),
        (''f1'', if tp = 0 then JInt 0
                 else JNum (float_text pr (HarmonicMean (int tp, int (tp + fp)) (int tp, int (tp + fn))))),
        (''count'', JInt (int cnt))]))"

text \<open>\<open>exceptionsByType\<close> has a key for every status that occurs, in the order of first occurrence.\<close>

definition by_type_json :: "MatchResult list \<Rightarrow> ReconciliationMetrics \<Rightarrow> json" where
  "by_type_json results m =
     JObj (map (\<lambda>st. (label st, JInt (int (m_exceptionsByType m st)))) (rev (remdups (rev (map status results)))))"

definition metrics_json :: "Printer \<Rightarrow> MatchResult list \<Rightarrow> ReconciliationMetrics \<Rightarrow> json" where
  "metrics_json pr results m = JObj [(''totalRecords'', JInt (m_totalRecords m)), (''autoMatched'', JInt (m_autoMatched m)),
     (''exceptionsFound'', JInt (m_exceptionsFound m)), (''unresolvedCount'', JInt (m_unresolvedCount m)),
     (''accuracy'', percent_json pr (m_accuracy m)), (''precision'', percent_json pr (m_precision m)),
     (''recall'', percent_json pr (m_recall m)), (''grossOrderAmount'', JInt (m_grossOrderAmount m)),
     (''capturedPayments'', JInt (m_capturedPayments m)), (''expectedSettlement'', JInt (m_expectedSettlement m)),
     (''actualBankCredits'', JInt (m_actualBankCredits m)), (''totalRefunds'', JInt (m_totalRefunds m)),
     (''totalChargebacks'', JInt (m_totalChargebacks m)), (''amountAtRisk'', JInt (m_amountAtRisk m)),
     (''perTypeMetrics'', JObj (map (per_type_json pr) (m_perType m))),
     (''exceptionsByType'', by_type_json results m)]"

definition buildOutcomeFingerprint ::
  "Printer \<Rightarrow> (string \<Rightarrow> string) \<Rightarrow> MatchResult list \<Rightarrow> ReconciliationMetrics \<Rightarrow> string" where
  "buildOutcomeFingerprint pr sha256Hex results m = sha256Hex (canonicalize
     (JObj [(''results'', JArr (map result_json results)), (''metrics'', metrics_json pr results m)]))"

definition runIdentity :: "(string \<Rightarrow> string) \<Rightarrow> string \<Rightarrow> VersionSet \<Rightarrow> string" where
  "runIdentity sha256Hex fingerprint v = sha256Hex (canonicalize
     (JObj [(''inputFingerprint'', JStr fingerprint), (''versions'', JObj (map (\<lambda>(k, x). (k, JStr x)) (layers v)))]))"

section \<open>Replay\<close>

record ReplayVerification =
  replayable :: bool
  changedLayers :: "string list"

definition verifyReplay :: "VersionSet \<Rightarrow> VersionSet \<Rightarrow> ReplayVerification" where
  "verifyReplay stored current =
     (let changed = map fst (filter (\<lambda>(k, x). map_of (layers stored) k \<noteq> Some x) (layers current))
      in \<lparr>replayable = (length changed = 0), changedLayers = changed\<rparr>)"

section \<open>The table of runs\<close>

record RunMetadataRow =
  rm_id :: ident
  rm_runId :: ident
  rm_batchId :: ident
  rm_inputFingerprint :: string
  rm_outcomeFingerprint :: "string option"
  rm_outcomeStatus :: "string option"
  rm_createdAt :: millis
  rm_versions :: VersionSet

record PersistRunMetadataInput =
  pi_runId :: ident
  pi_batchId :: ident
  pi_inputFingerprint :: string
  pi_outcomeFingerprint :: "string option"
  pi_outcomeStatus :: string
  pi_versions :: "VersionSet option"

text \<open>The upsert by run id; a created row takes a fresh id and the current time.\<close>

definition persistRunMetadata ::
  "ident \<Rightarrow> millis \<Rightarrow> PersistRunMetadataInput \<Rightarrow> RunMetadataRow list \<Rightarrow> RunMetadataRow list" where
  "persistRunMetadata newId now i tbl =
     (let versions = (case pi_versions i of None \<Rightarrow> PIPELINE_VERSIONS | Some v \<Rightarrow> v);
          upd = (\<lambda>r. r\<lparr>rm_batchId := pi_batchId i, rm_inputFingerprint := pi_inputFingerprint i,
                   rm_outcomeFingerprint := pi_outcomeFingerprint i, rm_outcomeStatus := Some (pi_outcomeStatus i),
                   rm_versions := versions\<rparr>)
      in if \<exists>r \<in> set tbl. rm_runId r = pi_runId i
         then map (\<lambda>r. if rm_runId r = pi_runId i then upd r else r) tbl
         else tbl @ [\<lparr>rm_id = newId, rm_runId = pi_runId i, rm_batchId = pi_batchId i,
                rm_inputFingerprint = pi_inputFingerprint i, rm_outcomeFingerprint = pi_outcomeFingerprint i,
                rm_outcomeStatus = Some (pi_outcomeStatus i), rm_createdAt = now, rm_versions = versions\<rparr>])"

definition getRunMetadata :: "ident \<Rightarrow> RunMetadataRow list \<Rightarrow> RunMetadataRow option" where
  "getRunMetadata runId tbl = find (\<lambda>r. rm_runId r = runId) tbl"

definition verifyReplayForRun :: "ident \<Rightarrow> RunMetadataRow list \<Rightarrow> ReplayVerification \<times> RunMetadataRow option" where
  "verifyReplayForRun runId tbl =
     (case getRunMetadata runId tbl of
        None \<Rightarrow> (\<lparr>replayable = False, changedLayers = [''run-not-found'']\<rparr>, None)
      | Some run \<Rightarrow> (verifyReplay (rm_versions run) PIPELINE_VERSIONS, Some run))"

section \<open>Facts\<close>

lemma changed_keys:
  assumes "distinct (map fst ys)" "fst ` set xs = fst ` set ys"
  shows "fst ` {x \<in> set ys. case x of (k, v) \<Rightarrow> map_of xs k \<noteq> Some v} = {k. map_of xs k \<noteq> map_of ys k}"
proof (intro set_eqI iffI)
  fix k assume "k \<in> fst ` {x \<in> set ys. case x of (k, v) \<Rightarrow> map_of xs k \<noteq> Some v}"
  with map_of_is_SomeI [OF assms(1)] show "k \<in> {k. map_of xs k \<noteq> map_of ys k}" by auto
next
  fix k assume k: "k \<in> {k. map_of xs k \<noteq> map_of ys k}"
  have "k \<in> fst ` set ys"
  proof (rule ccontr)
    assume "k \<notin> fst ` set ys"
    with assms(2) have "map_of ys k = None" "map_of xs k = None" by (simp_all only: map_of_eq_None_iff not_False_eq_True)
    with k show False by simp
  qed
  then obtain v where v: "(k, v) \<in> set ys" by auto
  from map_of_is_SomeI [OF assms(1) v] k have "map_of xs k \<noteq> Some v" by simp
  with v have "(k, v) \<in> {x \<in> set ys. case x of (k, v) \<Rightarrow> map_of xs k \<noteq> Some v}" by simp
  then show "k \<in> fst ` {x \<in> set ys. case x of (k, v) \<Rightarrow> map_of xs k \<noteq> Some v}"
    by (rule rev_image_eqI) simp
qed

lemma verifyReplay_exact:
  "replayable (verifyReplay stored current) \<longleftrightarrow> stored = current"
  "set (changedLayers (verifyReplay stored current)) = {k. map_of (layers stored) k \<noteq> map_of (layers current) k}"
proof -
  show "replayable (verifyReplay stored current) \<longleftrightarrow> stored = current"
    by (cases stored; cases current) (auto simp: verifyReplay_def layers_def Let_def)
  have "distinct (map fst (layers current))" "fst ` set (layers stored) = fst ` set (layers current)"
    by (simp_all add: layers_def)
  from changed_keys [OF this]
  show "set (changedLayers (verifyReplay stored current)) = {k. map_of (layers stored) k \<noteq> map_of (layers current) k}"
    by (simp add: verifyReplay_def Let_def)
qed

lemma find_map_update:
  assumes "\<And>x. key (f x) = key x"
  shows "find (\<lambda>x. key x = k) (map (\<lambda>x. if key x = i then f x else x) xs)
    = map_option (\<lambda>x. if k = i then f x else x) (find (\<lambda>x. key x = k) xs)"
  using assms by (induction xs) auto

lemma find_append: "find P (xs @ ys) = (case find P xs of None \<Rightarrow> find P ys | Some x \<Rightarrow> Some x)"
  by (induction xs) auto

lemma persistRunMetadata_other:
  "runId \<noteq> pi_runId i \<Longrightarrow> getRunMetadata runId (persistRunMetadata newId now i tbl) = getRunMetadata runId tbl"
  by (auto simp: persistRunMetadata_def getRunMetadata_def Let_def find_append find_map_update
      map_option_idI option.map_ident split: option.splits)

lemma persistRunMetadata_same:
  "\<exists>r. getRunMetadata (pi_runId i) (persistRunMetadata newId now i tbl) = Some r
    \<and> rm_runId r = pi_runId i \<and> rm_batchId r = pi_batchId i \<and> rm_inputFingerprint r = pi_inputFingerprint i
    \<and> rm_outcomeFingerprint r = pi_outcomeFingerprint i \<and> rm_outcomeStatus r = Some (pi_outcomeStatus i)
    \<and> rm_versions r = (case pi_versions i of None \<Rightarrow> PIPELINE_VERSIONS | Some v \<Rightarrow> v)"
proof (cases "find (\<lambda>r. rm_runId r = pi_runId i) tbl")
  case None
  then have "\<not> (\<exists>r \<in> set tbl. rm_runId r = pi_runId i)" by (auto simp: find_None_iff)
  with None show ?thesis by (simp add: persistRunMetadata_def getRunMetadata_def Let_def find_append)
next
  case (Some r)
  then have "r \<in> set tbl" "rm_runId r = pi_runId i" by (auto simp: find_Some_iff)
  with Some show ?thesis
    by (auto simp: persistRunMetadata_def getRunMetadata_def Let_def find_map_update)
qed

section \<open>Properties\<close>

text \<open>
  Storing a run and reading it back: the stored run carries the fingerprints, status and
  versions of the input, its replay check is positive exactly when those versions are the current
  ones and otherwise names exactly the layers that differ, and every other run reads as before.
\<close>

theorem run_metadata_roundtrip:
  "let tbl' = persistRunMetadata newId now i tbl;
       versions = (case pi_versions i of None \<Rightarrow> PIPELINE_VERSIONS | Some v \<Rightarrow> v)
   in (\<exists>run. verifyReplayForRun (pi_runId i) tbl' = (verifyReplay versions PIPELINE_VERSIONS, Some run)
         \<and> rm_batchId run = pi_batchId i \<and> rm_inputFingerprint run = pi_inputFingerprint i
         \<and> rm_outcomeFingerprint run = pi_outcomeFingerprint i \<and> rm_outcomeStatus run = Some (pi_outcomeStatus i)
         \<and> rm_versions run = versions)
      \<and> (replayable (verifyReplay versions PIPELINE_VERSIONS) \<longleftrightarrow> versions = PIPELINE_VERSIONS)
      \<and> set (changedLayers (verifyReplay versions PIPELINE_VERSIONS))
          = {k. map_of (layers versions) k \<noteq> map_of (layers PIPELINE_VERSIONS) k}
      \<and> (\<lambda>k. getRunMetadata k tbl')(pi_runId i := None) = (\<lambda>k. getRunMetadata k tbl)(pi_runId i := None)"
  using persistRunMetadata_same [of i newId now tbl] persistRunMetadata_other [of _ i newId now tbl] verifyReplay_exact
  by (auto simp: verifyReplayForRun_def Let_def fun_eq_iff)

end
