(* ===== verification/Samples.thy ===== *)
theory Samples
  imports Domain
begin

text \<open>
  Concrete batches at which the witnesses evaluate the model: a payment settled and credited
  under its UTR, one credited without a UTR (found by amount and date), one still waiting for
  its settlement, and a bank credit no settlement explains.
\<close>

definition sample_payment :: "ident \<Rightarrow> ident \<Rightarrow> paise \<Rightarrow> paise \<Rightarrow> paise \<Rightarrow> NormalizedPayment" where
  "sample_payment pid oid amount fee tax =
     \<lparr>p_dbId = pid, p_paymentId = pid, p_orderId = oid, p_amount = amount, p_fee = fee, p_tax = tax,
      p_method = ''upi'', p_status = ''captured'', p_capturedAt = Some 0, p_createdAt = 0\<rparr>"

definition sample_settlement :: "ident \<Rightarrow> ident \<Rightarrow> paise \<Rightarrow> string option \<Rightarrow> NormalizedSettlement" where
  "sample_settlement sid pid amount utr =
     \<lparr>s_dbId = sid, s_settlementId = sid, s_paymentId = pid, s_amount = amount, s_fee = 0, s_tax = 0,
      s_utr = utr, s_status = ''processed'', s_settledAt = Some 0, s_createdAt = 0\<rparr>"

definition sample_credit :: "ident \<Rightarrow> paise \<Rightarrow> string option \<Rightarrow> NormalizedBankTxn" where
  "sample_credit tid amount utr =
     \<lparr>b_dbId = tid, b_txnId = tid, b_utr = utr, b_amount = amount, b_type = ''CREDIT'',
      b_narration = None, b_txnDate = 3600000, b_matched = False\<rparr>"

definition sample_batch :: BatchData where
  "sample_batch =
     \<lparr>orders = [],
      payments = [sample_payment ''pay_1'' ''ord_1'' 500000 10000 1800,
                  sample_payment ''pay_2'' ''ord_2'' 300000 6000 1080,
                  sample_payment ''pay_3'' ''ord_3'' 200000 4000 720],
      settlements = [sample_settlement ''setl_1'' ''pay_1'' 488200 (Some ''UTR1''),
                     sample_settlement ''setl_3'' ''pay_3'' 195280 (Some ''UTR3'')],
      bankTransactions = [sample_credit ''b1'' 488200 (Some ''UTR1''),
                          sample_credit ''b3'' 195280 (Some ''UTR9''),
                          sample_credit ''b4'' 77700 (Some ''UTR7'')],
      refunds = [], chargebacks = [], groundTruths = []\<rparr>"

lemmas sample_defs = sample_batch_def sample_payment_def sample_settlement_def sample_credit_def

text \<open>Three settlements, two of which one bulk credit aggregates.\<close>

definition bulk_settlements :: "NormalizedSettlement list" where
  "bulk_settlements =
     [sample_settlement ''setl_1'' ''pay_1'' 300000 None, sample_settlement ''setl_2'' ''pay_2'' 200000 None,
      sample_settlement ''setl_3'' ''pay_3'' 900000 None]"

definition bulk_credit :: "ident \<Rightarrow> paise \<Rightarrow> NormalizedBankTxn" where
  "bulk_credit tid amount = (sample_credit tid amount None)\<lparr>b_narration := Some ''BULK SETTLEMENT''\<rparr>"

lemmas bulk_defs = bulk_settlements_def bulk_credit_def sample_settlement_def sample_credit_def

text \<open>A batch without records, a large payment whose bank credit is missing, and a batch whose only payment failed.\<close>

definition empty_batch :: BatchData where
  "empty_batch = \<lparr>orders = [], payments = [], settlements = [], bankTransactions = [], refunds = [],
     chargebacks = [], groundTruths = []\<rparr>"

definition open_result :: MatchResult where
  "open_result = \<lparr>paymentId = ''pay_9'', orderId = ''ord_9'', settlementIds = [''setl_9''], bankTxnIds = [], refundIds = [],
     chargebackIds = [], orderAmount = 6000000, paymentAmount = 6000000, paymentFee = 0, paymentTax = 0,
     refundAmount = 0, chargebackAmount = 0, expectedNetAmount = 6000000, actualSettledAmount = Some 6000000,
     bankCreditedAmount = None, mismatchAmount = Some 6000000, status = MISSING_BANK_CREDIT, confidenceScore = 20,
     matchMethod = ''NONE'', matchDetails = NoDetails, cardinalityType = One_One, cardinalityReason = None,
     relationshipScore = None\<rparr>"

definition failed_batch :: BatchData where
  "failed_batch = empty_batch\<lparr>payments := [(sample_payment ''pay_f'' ''ord_f'' 100000 0 0)\<lparr>p_status := ''failed''\<rparr>]\<rparr>"

end
