(* ===== verification/Decision.thy ===== *)
theory Decision
  imports Samples
begin

text \<open>
  The decision engine (\<open>src/lib/reconciliation/decision.ts\<close>): every match result is mapped to
  one of three outcomes with a risk level and the triggers that drove it, and the batch is
  aggregated. Evidence lines are kept as the value they print.
\<close>

datatype DecisionOutcome = D_AUTO_MATCHED | D_SUGGESTED_MATCH | D_EXCEPTION

datatype RiskLevel = LOW | MEDIUM | HIGH | CRITICAL

fun RISK_ORDER :: "RiskLevel \<Rightarrow> nat" where
  "RISK_ORDER LOW = 0"
| "RISK_ORDER MEDIUM = 1"
| "RISK_ORDER HIGH = 2"
| "RISK_ORDER CRITICAL = 3"

lemma RISK_ORDER_inj: "RISK_ORDER a = RISK_ORDER b \<Longrightarrow> a = b"
  by (cases a; cases b) simp_all

instantiation RiskLevel :: linorder
begin

definition less_eq_RiskLevel :: "RiskLevel \<Rightarrow> RiskLevel \<Rightarrow> bool" where
  "less_eq_RiskLevel a b = (RISK_ORDER a \<le> RISK_ORDER b)"

definition less_RiskLevel :: "RiskLevel \<Rightarrow> RiskLevel \<Rightarrow> bool" where
  "less_RiskLevel a b = (RISK_ORDER a < RISK_ORDER b)"

instance
  by standard (auto simp: less_eq_RiskLevel_def less_RiskLevel_def intro: RISK_ORDER_inj)

end

datatype RiskTrigger =
    MATERIAL_AMOUNT | LOW_CONFIDENCE | FIRST_OCCURRENCE | PROVIDER_RISK
  | UNUSUAL_PATTERN | POLICY_MODEL_VERSION | AGGREGATE_EXPOSURE

datatype EvidenceLine = Details MatchDetails | Cardinality string | MismatchPaise paise

record Decision =
  d_paymentId :: ident
  d_outcome :: DecisionOutcome
  d_confidence :: int
  d_riskLevel :: RiskLevel
  d_reasonCode :: string
  d_matchStrategy :: string
  d_evidence :: "EvidenceLine list"
  d_relationshipRef :: "string option"
  d_triggers :: "RiskTrigger list"

record Aggregate =
  ag_total :: nat
  ag_autoMatched :: nat
  ag_suggestedMatches :: nat
  ag_exceptions :: nat
  ag_byOutcome :: "DecisionOutcome \<Rightarrow> nat"
  ag_byRisk :: "RiskLevel \<Rightarrow> nat"
  ag_lowRiskCount :: nat
  ag_mediumRiskCount :: nat
  ag_highRiskCount :: nat
  ag_amountAtRisk :: paise
  ag_aggregateExposurePaise :: paise
  ag_novelCount :: nat
  ag_maxRisk :: RiskLevel

record DecisionReport =
  decisions :: "Decision list"
  aggregate :: Aggregate

definition MATERIAL_AMOUNT_PAISE :: paise where "MATERIAL_AMOUNT_PAISE = 1000000"
definition LOW_CONFIDENCE_MAX :: int where "LOW_CONFIDENCE_MAX = 40"
definition AGGREGATE_EXPOSURE_PAISE :: paise where "AGGREGATE_EXPOSURE_PAISE = 5000000"
definition PROVIDER_RISK_METHODS :: "string list" where
  "PROVIDER_RISK_METHODS = [''card'', ''netbanking'']"

definition LEGACY_MATCH_STRATEGIES :: "string list" where
  "LEGACY_MATCH_STRATEGIES =
     [''NO_SETTLEMENT_YET'', ''OVERDUE_NO_SETTLEMENT'', ''NO_CAPTURE_DATE'', ''ORPHAN_DETECTION'',
      ''AMBIGUOUS_FUZZY'', ''NO_BANK_MATCH'', ''MULTIPLE_SETTLEMENTS'']"

section \<open>One record\<close>

definition outcome_of :: "ExceptionType \<Rightarrow> DecisionOutcome" where
  "outcome_of st = (if st = AUTO_MATCHED then D_AUTO_MATCHED
     else if st = NEEDS_MANUAL_REVIEW then D_SUGGESTED_MATCH else D_EXCEPTION)"

definition reasonCodeFor :: "ExceptionType \<Rightarrow> DecisionOutcome \<Rightarrow> string" where
  "reasonCodeFor st outcome =
     (if outcome = D_AUTO_MATCHED then ''AUTO_MATCHED_CONFIRMED''
      else if outcome = D_SUGGESTED_MATCH then ''SUGGESTED_MATCH_NEEDS_REVIEW''
      else ''EXCEPTION_'' @ label st)"

fun cardinality_suffix :: "CardinalityType \<Rightarrow> string" where
  "cardinality_suffix One_One = ''1_TO_1''"
| "cardinality_suffix One_N = ''1_TO_N''"
| "cardinality_suffix N_One = ''N_TO_1''"
| "cardinality_suffix N_M = ''N_TO_M''"

definition matchStrategyFor :: "MatchResult \<Rightarrow> string" where
  "matchStrategyFor r =
     (let method = js_trim (matchMethod r)
      in if method \<noteq> [] \<and> method \<noteq> ''NONE'' then method
         else if truthy_str (cardinalityReason r) then ''CARDINALITY_'' @ cardinality_suffix (cardinalityType r)
         else ''UNRESOLVED'')"

definition evidenceFor :: "MatchResult \<Rightarrow> EvidenceLine list" where
  "evidenceFor r =
     (if matchDetails r \<noteq> NoDetails then [Details (matchDetails r)] else [])
     @ (case cardinalityReason r of
          None \<Rightarrow> []
        | Some c \<Rightarrow> if js_trim c \<noteq> [] then [Cardinality (js_trim c)] else [])
     @ (case mismatchAmount r of None \<Rightarrow> [] | Some m \<Rightarrow> if m \<noteq> 0 then [MismatchPaise m] else [])"

definition isNovel :: "MatchResult \<Rightarrow> string option \<Rightarrow> bool" where
  "isNovel r method =
     (js_startsWith (paymentId r) ''orphan_''
      \<or> (case method of None \<Rightarrow> False | Some m \<Rightarrow> m \<notin> set PAYMENT_METHODS))"

definition hasUnusualPattern :: "MatchResult \<Rightarrow> bool" where
  "hasUnusualPattern r =
     (let net = \<bar>expectedNetAmount r\<bar>
      in (case mismatchAmount r of
            None \<Rightarrow> False
          | Some mismatch \<Rightarrow> mismatch \<noteq> 0 \<and> net > 0 \<and> \<bar>mismatch\<bar> > max 1000 (js_round_div net 20))
         \<or> ((status r = DELAYED_BANK_CREDIT \<or> status r = MISSING_BANK_CREDIT)
            \<and> net \<ge> MATERIAL_AMOUNT_PAISE))"

definition triggersFor :: "MatchResult \<Rightarrow> string option \<Rightarrow> RiskTrigger list" where
  "triggersFor r method =
     (if \<bar>expectedNetAmount r\<bar> \<ge> MATERIAL_AMOUNT_PAISE then [MATERIAL_AMOUNT] else [])
     @ (if confidenceScore r < LOW_CONFIDENCE_MAX then [LOW_CONFIDENCE] else [])
     @ (if isNovel r method then [FIRST_OCCURRENCE] else [])
     @ (case method of None \<Rightarrow> [] | Some m \<Rightarrow> if m \<in> set PROVIDER_RISK_METHODS then [PROVIDER_RISK] else [])
     @ (if hasUnusualPattern r then [UNUSUAL_PATTERN] else [])
     @ (if matchStrategyFor r \<in> set LEGACY_MATCH_STRATEGIES then [POLICY_MODEL_VERSION] else [])"

definition riskLevelFor :: "MatchResult \<Rightarrow> DecisionOutcome \<Rightarrow> RiskTrigger list \<Rightarrow> RiskLevel" where
  "riskLevelFor r outcome triggers =
     (let material = (\<bar>expectedNetAmount r\<bar> \<ge> MATERIAL_AMOUNT_PAISE);
          lowConfidence = (confidenceScore r < LOW_CONFIDENCE_MAX)
      in if outcome = D_SUGGESTED_MATCH then (if material \<or> lowConfidence then HIGH else MEDIUM)
         else if (lowConfidence \<and> material) \<or> UNUSUAL_PATTERN \<in> set triggers
                 \<or> PROVIDER_RISK \<in> set triggers \<or> FIRST_OCCURRENCE \<in> set triggers then HIGH
         else if material \<or> lowConfidence then MEDIUM
         else LOW)"

definition evaluateDecision :: "MatchResult \<Rightarrow> string option \<Rightarrow> Decision" where
  "evaluateDecision r method =
     (let outcome = outcome_of (status r);
          triggers = (if outcome = D_AUTO_MATCHED then [] else triggersFor r method)
      in \<lparr>d_paymentId = paymentId r,
          d_outcome = outcome,
          d_confidence = confidenceScore r,
          d_riskLevel = (if outcome = D_AUTO_MATCHED then LOW else riskLevelFor r outcome triggers),
          d_reasonCode = reasonCodeFor (status r) outcome,
          d_matchStrategy = matchStrategyFor r,
          d_evidence = evidenceFor r,
          d_relationshipRef = None,
          d_triggers = triggers\<rparr>)"

section \<open>The batch\<close>

definition relationships_by ::
  "(CardinalityMatch \<Rightarrow> ident list) \<Rightarrow> CardinalityMatch list \<Rightarrow> (ident \<rightharpoonup> CardinalityMatch)" where
  "relationships_by ids rels = fold (\<lambda>rel m. fold (\<lambda>i m. m(i \<mapsto> rel)) (ids rel) m) rels Map.empty"

fun first_relationship :: "(ident \<rightharpoonup> CardinalityMatch) \<Rightarrow> ident list \<Rightarrow> CardinalityMatch option" where
  "first_relationship m [] = None"
| "first_relationship m (i # is) = (case m i of Some rel \<Rightarrow> Some rel | None \<Rightarrow> first_relationship m is)"

definition relationshipRefFor :: "CardinalityMatch list \<Rightarrow> MatchResult \<Rightarrow> string option" where
  "relationshipRefFor rels r =
     (let rel = (case first_relationship (relationships_by cm_bankTxnIds rels) (bankTxnIds r) of
            Some x \<Rightarrow> Some x
          | None \<Rightarrow> first_relationship (relationships_by cm_settlementIds rels) (settlementIds r))
      in map_option (\<lambda>x. cm_reasonCode x @ ''@settlement:'' @ js_join '','' (cm_settlementIds x)
            @ ''|bank:'' @ js_join '','' (cm_bankTxnIds x)) rel)"

definition firstPass :: "MatchResult list \<Rightarrow> BatchData \<Rightarrow> CardinalityMatch list \<Rightarrow> Decision list" where
  "firstPass results data rels =
     (let byId = set_all p_paymentId (payments data) Map.empty
      in map (\<lambda>r. (evaluateDecision r (map_option p_method (byId (paymentId r))))
                    \<lparr>d_relationshipRef := relationshipRefFor rels r\<rparr>) results)"

definition count_outcome :: "DecisionOutcome \<Rightarrow> Decision list \<Rightarrow> nat" where
  "count_outcome o1 ds = length (filter (\<lambda>d. d_outcome d = o1) ds)"

definition count_risk :: "(RiskLevel \<Rightarrow> bool) \<Rightarrow> Decision list \<Rightarrow> nat" where
  "count_risk P ds = length (filter (\<lambda>d. P (d_riskLevel d)) ds)"

definition decisionAmountAtRisk :: "MatchResult list \<Rightarrow> Decision list \<Rightarrow> paise" where
  "decisionAmountAtRisk results ds =
     sum_list (map (\<lambda>(d, r). if d_outcome d = D_AUTO_MATCHED then 0
                            else \<bar>or_zero (expectedNetAmount r) (bankCreditedAmount r)\<bar>) (zip ds results))"

definition overrideExposure :: "Decision \<Rightarrow> Decision" where
  "overrideExposure d =
     (if d_outcome d = D_AUTO_MATCHED then d
      else d\<lparr>d_triggers := (if AGGREGATE_EXPOSURE \<in> set (d_triggers d) then d_triggers d
                            else d_triggers d @ [AGGREGATE_EXPOSURE]),
             d_riskLevel := HIGH\<rparr>)"

definition maxRiskOf :: "Decision list \<Rightarrow> RiskLevel" where
  "maxRiskOf ds = fold (\<lambda>d m. if m < d_riskLevel d then d_riskLevel d else m) ds LOW"

definition evaluateBatchDecisions ::
  "MatchResult list \<Rightarrow> BatchData \<Rightarrow> CardinalityMatch list \<Rightarrow> DecisionReport" where
  "evaluateBatchDecisions results data rels =
     (let ds = firstPass results data rels;
          atRisk = decisionAmountAtRisk results ds;
          ds' = (if atRisk \<ge> AGGREGATE_EXPOSURE_PAISE then map overrideExposure ds else ds)
      in \<lparr>decisions = ds',
          aggregate =
            \<lparr>ag_total = length ds,
             ag_autoMatched = count_outcome D_AUTO_MATCHED ds,
             ag_suggestedMatches = count_outcome D_SUGGESTED_MATCH ds,
             ag_exceptions = count_outcome D_EXCEPTION ds,
             ag_byOutcome = (\<lambda>o1. count_outcome o1 ds),
             ag_byRisk = (\<lambda>l. count_risk (\<lambda>x. x = l) ds'),
             ag_lowRiskCount = count_risk (\<lambda>x. x = LOW) ds',
             ag_mediumRiskCount = count_risk (\<lambda>x. x = MEDIUM) ds',
             ag_highRiskCount = count_risk (\<lambda>x. x \<noteq> LOW \<and> x \<noteq> MEDIUM) ds',
             ag_amountAtRisk = atRisk,
             ag_aggregateExposurePaise = atRisk,
             ag_novelCount = length (filter (\<lambda>d. FIRST_OCCURRENCE \<in> set (d_triggers d)) ds),
             ag_maxRisk = maxRiskOf ds'\<rparr>\<rparr>)"

section \<open>Facts\<close>

lemma evaluateDecision_outcome [simp]: "d_outcome (evaluateDecision r m) = outcome_of (status r)"
  by (simp add: evaluateDecision_def Let_def)

lemma evaluateDecision_auto:
  "status r = AUTO_MATCHED \<Longrightarrow> d_riskLevel (evaluateDecision r m) = LOW \<and> d_triggers (evaluateDecision r m) = []"
  by (simp add: evaluateDecision_def outcome_of_def)

lemma evaluateDecision_not_critical: "d_riskLevel (evaluateDecision r m) \<noteq> CRITICAL"
  by (simp add: evaluateDecision_def riskLevelFor_def Let_def)

lemma evaluateDecision_suggested_not_low:
  "status r = NEEDS_MANUAL_REVIEW \<Longrightarrow> MEDIUM \<le> d_riskLevel (evaluateDecision r m)"
  by (simp add: evaluateDecision_def riskLevelFor_def outcome_of_def Let_def less_eq_RiskLevel_def)

lemma evaluateDecision_orphan_high:
  "status r \<noteq> AUTO_MATCHED \<Longrightarrow> status r \<noteq> NEEDS_MANUAL_REVIEW \<Longrightarrow>
     js_startsWith (paymentId r) ''orphan_'' \<Longrightarrow> d_riskLevel (evaluateDecision r m) = HIGH"
  by (simp add: evaluateDecision_def riskLevelFor_def outcome_of_def triggersFor_def isNovel_def Let_def)

lemma firstPass_simps:
  "length (firstPass results data rels) = length results"
  "map d_outcome (firstPass results data rels) = map (\<lambda>r. outcome_of (status r)) results"
  "map d_paymentId (firstPass results data rels) = map paymentId results"
  by (simp_all add: firstPass_def Let_def comp_def evaluateDecision_def)

lemma firstPass_in:
  "d \<in> set (firstPass results data rels) \<Longrightarrow>
     \<exists>r \<in> set results. \<exists>m ref. d = (evaluateDecision r m)\<lparr>d_relationshipRef := ref\<rparr>"
  by (auto simp: firstPass_def Let_def)

lemma overrideExposure_simps [simp]:
  "d_outcome (overrideExposure d) = d_outcome d"
  "d_paymentId (overrideExposure d) = d_paymentId d"
  by (simp_all add: overrideExposure_def)

lemma maxRiskOf_fold: "fold (\<lambda>d m. if m < d_riskLevel d then d_riskLevel d else m) ds l = Max (insert l (d_riskLevel ` set ds))"
proof (induction ds arbitrary: l)
  case Nil
  then show ?case by simp
next
  case (Cons d ds)
  have "(if l < d_riskLevel d then d_riskLevel d else l) = max l (d_riskLevel d)"
    by (auto simp: max_def)
  with Cons show ?case by (cases "ds = []") (simp_all add: max.assoc insert_commute max.commute)
qed

lemma maxRiskOf_Max: "maxRiskOf ds = Max (insert LOW (d_riskLevel ` set ds))"
  by (simp add: maxRiskOf_def maxRiskOf_fold)

lemma count_outcome_total:
  "length ds = count_outcome D_AUTO_MATCHED ds + count_outcome D_SUGGESTED_MATCH ds + count_outcome D_EXCEPTION ds"
proof (induction ds)
  case (Cons d ds)
  then show ?case by (cases "d_outcome d") (simp_all add: count_outcome_def)
qed (simp add: count_outcome_def)

lemma count_risk_total:
  "length ds = count_risk (\<lambda>x. x = LOW) ds + count_risk (\<lambda>x. x = MEDIUM) ds
     + count_risk (\<lambda>x. x \<noteq> LOW \<and> x \<noteq> MEDIUM) ds"
  by (induction ds) (auto simp: count_risk_def)

lemma count_risk_zero: "count_risk P ds = 0 \<longleftrightarrow> (\<forall>d \<in> set ds. \<not> P (d_riskLevel d))"
  by (auto simp: count_risk_def filter_empty_conv)

lemma first_pass_levels: "d_riskLevel ` set (firstPass results data rels) \<subseteq> {LOW, MEDIUM, HIGH}"
proof -
  have "d_riskLevel d \<noteq> CRITICAL" if "d \<in> set (firstPass results data rels)" for d
    using firstPass_in [OF that] evaluateDecision_not_critical by auto
  then show ?thesis using RiskLevel.exhaust by blast
qed

lemma decisions_levels:
  "d_riskLevel ` set (decisions (evaluateBatchDecisions results data rels)) \<subseteq> {LOW, MEDIUM, HIGH}"
  using first_pass_levels [of results data rels]
  by (auto simp: evaluateBatchDecisions_def Let_def overrideExposure_def split: if_splits)

lemma triggersFor_no_exposure: "AGGREGATE_EXPOSURE \<notin> set (triggersFor r m)"
  by (auto simp: triggersFor_def split: option.splits if_splits)

lemma triggersFor_distinct: "distinct (triggersFor r m)"
  by (simp add: triggersFor_def split: option.split)

lemma first_pass_triggers:
  assumes "d \<in> set (firstPass results data rels)"
  shows "distinct (d_triggers d) \<and> AGGREGATE_EXPOSURE \<notin> set (d_triggers d)"
  using firstPass_in [OF assms] triggersFor_no_exposure triggersFor_distinct
  by (auto simp: evaluateDecision_def Let_def split: if_splits)

section \<open>Properties\<close>

text \<open>
  The decision engine never assigns CRITICAL, which is reserved to the risk gate, and an
  automatically matched record is always LOW risk with no trigger.
\<close>

theorem decisions_never_critical:
  "d_riskLevel ` set (decisions (evaluateBatchDecisions results data rels)) \<subseteq> {LOW, MEDIUM, HIGH}
   \<and> (\<lambda>d. (d_riskLevel d, d_triggers d))
        ` {d \<in> set (decisions (evaluateBatchDecisions results data rels)). d_outcome d = D_AUTO_MATCHED}
       \<subseteq> {(LOW, [])}"
proof
  show "d_riskLevel ` set (decisions (evaluateBatchDecisions results data rels)) \<subseteq> {LOW, MEDIUM, HIGH}"
    by (rule decisions_levels)
  have "d_riskLevel d = LOW \<and> d_triggers d = []"
    if d: "d \<in> set (firstPass results data rels)" and "d_outcome d = D_AUTO_MATCHED" for d
  proof -
    from firstPass_in [OF d] obtain r m ref where "d = (evaluateDecision r m)\<lparr>d_relationshipRef := ref\<rparr>"
      by blast
    with that(2) show ?thesis
      using evaluateDecision_auto [of r m] by (simp add: outcome_of_def split: if_splits)
  qed
  then show "(\<lambda>d. (d_riskLevel d, d_triggers d))
        ` {d \<in> set (decisions (evaluateBatchDecisions results data rels)). d_outcome d = D_AUTO_MATCHED}
       \<subseteq> {(LOW, [])}"
    by (auto simp: evaluateBatchDecisions_def Let_def overrideExposure_def split: if_splits)
qed

text \<open>
  The report accounts for every record: one decision per result, in order, the three outcome
  counts and the three risk counts each add up to the total, and the recorded maximum risk is
  the maximum of the decisions' levels.
\<close>

theorem decision_report_totals:
  "map d_paymentId (decisions (evaluateBatchDecisions results data rels)) = map paymentId results
   \<and> (let a = aggregate (evaluateBatchDecisions results data rels)
      in ag_total a = length results
         \<and> ag_total a = ag_autoMatched a + ag_suggestedMatches a + ag_exceptions a
         \<and> ag_total a = ag_lowRiskCount a + ag_mediumRiskCount a + ag_highRiskCount a
         \<and> ag_maxRisk a = Max (insert LOW (d_riskLevel ` set (decisions (evaluateBatchDecisions results data rels)))))"
proof -
  let ?ds = "decisions (evaluateBatchDecisions results data rels)"
  have ids: "map d_paymentId ?ds = map paymentId results"
    by (simp add: evaluateBatchDecisions_def Let_def firstPass_simps comp_def)
  then have len: "length ?ds = length results" by (metis length_map)
  show ?thesis
    using ids len count_risk_total [of ?ds] count_outcome_total [of "firstPass results data rels"]
    by (simp add: evaluateBatchDecisions_def Let_def firstPass_simps maxRiskOf_Max split: if_splits)
qed

text \<open>
  Concentration of exposure: once the amount at risk of the batch reaches 5,000,000 paise,
  every decision that is not an automatic match is HIGH risk and carries the exposure trigger
  exactly once.
\<close>

theorem exposure_forces_high:
  assumes "5000000 \<le> ag_amountAtRisk (aggregate (evaluateBatchDecisions results data rels))"
    and "d \<in> set (decisions (evaluateBatchDecisions results data rels))"
    and "d_outcome d \<noteq> D_AUTO_MATCHED"
  shows "d_riskLevel d = HIGH \<and> count_list (d_triggers d) AGGREGATE_EXPOSURE = 1"
proof -
  from assms(1,2) obtain d0 where d0: "d0 \<in> set (firstPass results data rels)" "d = overrideExposure d0"
    by (auto simp: evaluateBatchDecisions_def Let_def AGGREGATE_EXPOSURE_PAISE_def)
  with assms(3) have "d_outcome d0 \<noteq> D_AUTO_MATCHED" by simp
  with d0(2) first_pass_triggers [OF d0(1)] show ?thesis
    by (simp add: overrideExposure_def)
qed

theorem exposure_forces_high_witness:
  "5000000 \<le> ag_amountAtRisk (aggregate (evaluateBatchDecisions [open_result] empty_batch []))
   \<and> d_riskLevel (hd (decisions (evaluateBatchDecisions [open_result] empty_batch []))) = HIGH
   \<and> count_list (d_triggers (hd (decisions (evaluateBatchDecisions [open_result] empty_batch [])))) AGGREGATE_EXPOSURE = 1"
proof -
  let ?rep = "evaluateBatchDecisions [open_result] empty_batch []"
  have at_risk: "5000000 \<le> ag_amountAtRisk (aggregate ?rep)" by code_simp
  have one: "length (decisions ?rep) = 1" by code_simp
  have outcome: "d_outcome (hd (decisions ?rep)) \<noteq> D_AUTO_MATCHED" by code_simp
  from one have mem: "hd (decisions ?rep) \<in> set (decisions ?rep)" by (intro hd_in_set) auto
  from at_risk exposure_forces_high [OF at_risk mem outcome] show ?thesis by blast
qed

end
