(* ===== verification/Invariants.thy ===== *)
theory Invariants
  imports Evaluator
begin

text \<open>
  The financial invariants gate (\<open>src/lib/reconciliation/invariants.ts\<close>). Each check returns
  the failures it adds and the counts and amounts it records; the text of a failure is not kept,
  its code, expected and actual value and tolerance are.
\<close>

datatype InvariantReasonCode =
    INVARIANT_INPUT_COMPLETE
  | INVARIANT_MONEY_CONSERVATION
  | INVARIANT_DEBIT_CREDIT_BALANCE
  | INVARIANT_CARDINALITY_CONSISTENCY
  | INVARIANT_PARTITION_COMPLETE
  | INVARIANT_LEDGER_CONSISTENCY

datatype FailureValue = Num int | Str string | Null

record InvariantFailure =
  f_code :: InvariantReasonCode
  f_expected :: FailureValue
  f_actual :: FailureValue
  f_tolerance :: int

record InvariantReport =
  passed :: bool
  failures :: "InvariantFailure list"
  checkedCounts :: "(string \<times> int) list"
  checkedAmounts :: "(string \<times> int) list"

type_synonym check_result = "InvariantFailure list \<times> (string \<times> int) list \<times> (string \<times> int) list"

definition DEFAULT_TOLERANCE :: paise where "DEFAULT_TOLERANCE = AMOUNT_TOLERANCE_PAISE"

definition aggTolerance :: "int \<Rightarrow> paise \<Rightarrow> paise" where
  "aggTolerance amount tolerancePaise = max tolerancePaise (js_round_div \<bar>amount\<bar> 1000)"

definition fail :: "InvariantReasonCode \<Rightarrow> FailureValue \<Rightarrow> FailureValue \<Rightarrow> int \<Rightarrow> InvariantFailure" where
  "fail c e a t = \<lparr>f_code = c, f_expected = e, f_actual = a, f_tolerance = t\<rparr>"

definition fail_when :: "bool \<Rightarrow> InvariantFailure \<Rightarrow> InvariantFailure list" where
  "fail_when b f = (if b then [f] else [])"

definition attributedTxnIds :: "MatchResult list \<Rightarrow> ident set" where
  "attributedTxnIds results = \<Union> (set ` bankTxnIds ` set results)"

definition checkInputComplete :: "BatchData \<Rightarrow> MatchResult list \<Rightarrow> check_result" where
  "checkInputComplete data results =
     (let missing = int (length (filter (\<lambda>p. p_paymentId p \<notin> paymentId ` set results) (payments data)))
      in (fail_when (missing > 0) (fail INVARIANT_INPUT_COMPLETE (Num 0) (Num missing) 0),
          [(''payments'', int (length (payments data))), (''results'', int (length results))],
          []))"

definition checkMoneyConservation :: "BatchData \<Rightarrow> MatchResult list \<Rightarrow> paise \<Rightarrow> check_result" where
  "checkMoneyConservation data results tol =
     (let captured = capturedPayments data;
          capturedAmount = sum_list (map p_amount captured);
          refundTotal = sum_list (map r_amount (refunds data));
          chargebackTotal = sum_list (map c_amount (chargebacks data));
          expectedNetTotal = sum_list (map expectedNetAmount results);
          rhs = capturedAmount - sum_list (map p_fee captured) - sum_list (map p_tax captured)
                - refundTotal - chargebackTotal;
          tolerance = aggTolerance (max \<bar>expectedNetTotal\<bar> \<bar>rhs\<bar>) tol
      in (fail_when (\<bar>expectedNetTotal - rhs\<bar> > tolerance)
            (fail INVARIANT_MONEY_CONSERVATION (Num rhs) (Num expectedNetTotal) tolerance),
          [(''capturedPayments'', int (length captured)), (''refunds'', int (length (refunds data))),
           (''chargebacks'', int (length (chargebacks data)))],
          [(''expectedNetTotal'', expectedNetTotal), (''capturedAmount'', capturedAmount),
           (''refundTotal'', refundTotal), (''chargebackTotal'', chargebackTotal)]))"

definition settlement_utrs :: "BatchData \<Rightarrow> string set \<times> bool" where
  "settlement_utrs data = fold add_settlement_utr (settlements data) ({}, False)"

definition sharesUtrWithSettlement :: "BatchData \<Rightarrow> NormalizedBankTxn \<Rightarrow> bool" where
  "sharesUtrWithSettlement data b = (case b_utr b of
      None \<Rightarrow> snd (settlement_utrs data)
    | Some u \<Rightarrow> u \<in> fst (settlement_utrs data))"

definition unattributed :: "BatchData \<Rightarrow> MatchResult list \<Rightarrow> NormalizedBankTxn \<Rightarrow> bool" where
  "unattributed data results b \<longleftrightarrow>
     b_txnId b \<notin> attributedTxnIds results \<and> \<not> sharesUtrWithSettlement data b"

definition is_debit :: "NormalizedBankTxn \<Rightarrow> bool" where
  "is_debit b = (b_type b = ''DEBIT'')"

definition checkDebitCreditBalance :: "BatchData \<Rightarrow> MatchResult list \<Rightarrow> paise \<Rightarrow> check_result" where
  "checkDebitCreditBalance data results tol =
     (let credits = filter is_credit (bankTransactions data);
          debits = filter is_debit (bankTransactions data);
          creditTotal = sum_list (map b_amount credits);
          debitTotal = sum_list (map b_amount debits);
          unexplainedCredit = sum_list (map b_amount (filter (unattributed data results) credits));
          chargebackTotal = sum_list (map c_amount (chargebacks data));
          unexplainedDebit = \<bar>debitTotal - chargebackTotal\<bar>;
          creditTolerance = aggTolerance creditTotal tol;
          debitTolerance = aggTolerance debitTotal tol
      in (fail_when (unexplainedCredit > creditTolerance)
            (fail INVARIANT_DEBIT_CREDIT_BALANCE (Num 0) (Num unexplainedCredit) creditTolerance)
          @ fail_when (unexplainedDebit > debitTolerance)
            (fail INVARIANT_DEBIT_CREDIT_BALANCE (Num chargebackTotal) (Num debitTotal) debitTolerance),
          [(''bankCredits'', int (length credits)), (''bankDebits'', int (length debits))],
          [(''creditTotal'', creditTotal), (''debitTotal'', debitTotal),
           (''unexplainedCredit'', unexplainedCredit), (''unexplainedDebit'', unexplainedDebit)]))"

text \<open>The double-count scan of one relationship's ids against those used so far.\<close>

fun use_ids :: "ident list \<Rightarrow> ident set \<Rightarrow> InvariantFailure list \<times> ident set" where
  "use_ids [] used = ([], used)"
| "use_ids (i # is) used =
     (case use_ids is (insert i used) of (fs, used') \<Rightarrow>
        (fail_when (i \<in> used) (fail INVARIANT_CARDINALITY_CONSISTENCY Null (Str i) 0) @ fs, used'))"

definition amount_by :: "('a \<Rightarrow> ident) \<Rightarrow> ('a \<Rightarrow> paise) \<Rightarrow> 'a list \<Rightarrow> ident \<Rightarrow> paise" where
  "amount_by key amount xs i = (case set_all key xs Map.empty i of None \<Rightarrow> 0 | Some x \<Rightarrow> amount x)"

fun check_relationships ::
  "BatchData \<Rightarrow> paise \<Rightarrow> CardinalityMatch list \<Rightarrow> ident set \<Rightarrow> ident set \<Rightarrow> InvariantFailure list" where
  "check_relationships data tol [] usedS usedB = []"
| "check_relationships data tol (rel # rels) usedS usedB =
     (let (fs, usedS') = use_ids (cm_settlementIds rel) usedS;
          (fb, usedB') = use_ids (cm_bankTxnIds rel) usedB;
          sourceSum = sum_list (map (amount_by s_settlementId s_amount (settlements data)) (cm_settlementIds rel));
          targetSum = sum_list (map (amount_by b_txnId b_amount (bankTransactions data)) (cm_bankTxnIds rel));
          tolerance = aggTolerance (max (max sourceSum targetSum) (cm_bankAmount rel)) tol
      in fs @ fb
         @ fail_when (\<bar>sourceSum - targetSum\<bar> > tolerance)
             (fail INVARIANT_CARDINALITY_CONSISTENCY (Num targetSum) (Num sourceSum) tolerance)
         @ check_relationships data tol rels usedS' usedB')"

definition checkCardinalityConsistency :: "BatchData \<Rightarrow> CardinalityMatch list \<Rightarrow> paise \<Rightarrow> check_result" where
  "checkCardinalityConsistency data rels tol =
     (check_relationships data tol rels {} {}, [(''relationships'', int (length rels))], [])"

definition checkPartitionComplete :: "BatchData \<Rightarrow> MatchResult list \<Rightarrow> check_result" where
  "checkPartitionComplete data results =
     (let resultSettlementIds = concat (map settlementIds results);
          unaccountedSettlements =
            int (length (filter (\<lambda>s. s_settlementId s \<notin> set resultSettlementIds) (settlements data)));
          unaccountedCredits =
            int (length (filter (\<lambda>b. is_credit b \<and> unattributed data results b) (bankTransactions data)))
      in (fail_when (unaccountedSettlements > 0)
            (fail INVARIANT_PARTITION_COMPLETE (Num 0) (Num unaccountedSettlements) 0)
          @ fail_when (unaccountedCredits > 0)
            (fail INVARIANT_PARTITION_COMPLETE (Num 0) (Num unaccountedCredits) 0),
          [(''settlements'', int (length (settlements data))),
           (''resultSettlements'', int (length (remdups resultSettlementIds))),
           (''unaccountedSettlements'', unaccountedSettlements),
           (''unaccountedCredits'', unaccountedCredits)],
          []))"

text \<open>The recomputed value of each metric beside the value the evaluator reported.\<close>

definition ledger_fields :: "BatchData \<Rightarrow> MatchResult list \<Rightarrow> ReconciliationMetrics \<Rightarrow> (string \<times> int \<times> int) list" where
  "ledger_fields data results m =
     (let exceptions = filter (\<lambda>r. status r \<noteq> AUTO_MATCHED \<and> \<not> js_startsWith (paymentId r) ''orphan_'') results
      in [(''totalRecords'', int (length results), m_totalRecords m),
          (''autoMatched'', int (length (filter (\<lambda>r. status r = AUTO_MATCHED) results)), m_autoMatched m),
          (''exceptionsFound'', int (length exceptions), m_exceptionsFound m),
          (''unresolvedCount'', int (length (filter (\<lambda>r. status r = NEEDS_MANUAL_REVIEW) results)), m_unresolvedCount m),
          (''grossOrderAmount'', sum_list (map o_amount (orders data)), m_grossOrderAmount m),
          (''capturedPayments'', sum_list (map p_amount (capturedPayments data)), m_capturedPayments m),
          (''expectedSettlement'', sum_list (map expectedNetAmount results), m_expectedSettlement m),
          (''actualBankCredits'', sum_list (map b_amount (filter is_credit (bankTransactions data))), m_actualBankCredits m),
          (''totalRefunds'', sum_list (map r_amount (refunds data)), m_totalRefunds m),
          (''totalChargebacks'', sum_list (map c_amount (chargebacks data)), m_totalChargebacks m),
          (''amountAtRisk'', sum_list (map (\<lambda>e. \<bar>or_zero (expectedNetAmount e) (bankCreditedAmount e)\<bar>) exceptions),
             m_amountAtRisk m)])"

definition count_fields :: "string list" where
  "count_fields = [''totalRecords'', ''autoMatched'', ''exceptionsFound'', ''unresolvedCount'']"

definition checkLedgerConsistency ::
  "BatchData \<Rightarrow> MatchResult list \<Rightarrow> ReconciliationMetrics \<Rightarrow> check_result" where
  "checkLedgerConsistency data results m =
     (let fields = ledger_fields data results m
      in (concat (map (\<lambda>(name, recomputed, metric).
             fail_when (metric \<noteq> recomputed) (fail INVARIANT_LEDGER_CONSISTENCY (Num recomputed) (Num metric) 0)) fields),
          map (\<lambda>(name, recomputed, metric). (name, recomputed)) (filter (\<lambda>f. fst f \<in> set count_fields) fields),
          map (\<lambda>(name, recomputed, metric). (name, recomputed)) (filter (\<lambda>f. fst f \<notin> set count_fields) fields)))"

definition evaluateInvariants ::
  "BatchData \<Rightarrow> MatchResult list \<Rightarrow> ReconciliationMetrics \<Rightarrow> CardinalityMatch list \<Rightarrow> paise \<Rightarrow> InvariantReport" where
  "evaluateInvariants data results m rels tol =
     (let checks = [checkInputComplete data results, checkMoneyConservation data results tol,
                    checkDebitCreditBalance data results tol, checkCardinalityConsistency data rels tol,
                    checkPartitionComplete data results, checkLedgerConsistency data results m];
          fs = concat (map fst checks)
      in \<lparr>passed = (fs = []), failures = fs,
          checkedCounts = concat (map (fst \<circ> snd) checks),
          checkedAmounts = concat (map (snd \<circ> snd) checks)\<rparr>)"

datatype ControlDecision = PASSED | CONTROL_FAILURE

definition controlDecision :: "InvariantReport \<Rightarrow> ControlDecision" where
  "controlDecision rep = (if passed rep then PASSED else CONTROL_FAILURE)"

text \<open>The gate throws \<open>ControlFailureError\<close> carrying the report, or returns it.\<close>

datatype ControlFailureError = ControlFailureError InvariantReport

definition assertInvariantsPass ::
  "BatchData \<Rightarrow> MatchResult list \<Rightarrow> ReconciliationMetrics \<Rightarrow> CardinalityMatch list \<Rightarrow> paise
     \<Rightarrow> ControlFailureError + InvariantReport" where
  "assertInvariantsPass data results m rels tol =
     (let rep = evaluateInvariants data results m rels tol
      in if \<not> passed rep then Inl (ControlFailureError rep) else Inr rep)"

lemma use_ids_codes: "f_code ` set (fst (use_ids is used)) \<subseteq> {INVARIANT_CARDINALITY_CONSISTENCY}"
  by (induction "is" used rule: use_ids.induct) (auto simp: fail_when_def fail_def image_subset_iff split: prod.splits if_splits)

lemma check_relationships_codes:
  "f_code ` set (check_relationships d tol rels us ub) \<subseteq> {INVARIANT_CARDINALITY_CONSISTENCY}"
proof (induction rels arbitrary: us ub)
  case Nil
  then show ?case by simp
next
  case (Cons rel rels)
  from Cons use_ids_codes [of "cm_settlementIds rel" us] use_ids_codes [of "cm_bankTxnIds rel" ub] show ?case
    by (cases "use_ids (cm_settlementIds rel) us"; cases "use_ids (cm_bankTxnIds rel) ub")
      (auto simp: Let_def fail_when_def fail_def image_subset_iff split: if_splits)
qed

end
