(* ===== verification/Risk_Gate.thy ===== *)
theory Risk_Gate
  imports Decision Invariants
begin

text \<open>
  The batch risk gate (\<open>src/lib/reconciliation/risk-gate.ts\<close>): routing of a batch from its
  decision report and its invariant report, and the capped corrective cycle. The text of a
  verdict is kept as the template with the values it interpolates.
\<close>

datatype RoutingOutcome =
  STRAIGHT_THROUGH | CONTROLLED_REVIEW | MAKER_CHECKER_REQUIRED | CRITICAL_BLOCKED

datatype CorrectionEndState =
  UNRESOLVABLE | ESCALATED_TO_CONTROLLER | PERMANENTLY_BLOCKED_PENDING_REVIEW

datatype GateReason =
    InvariantsFailed "InvariantReasonCode list"
  | HighRiskDecisions nat
  | MediumRiskDecisions nat
  | AllLowRisk
  | StillFailing int

record GateVerdict =
  v_routing :: RoutingOutcome
  v_riskLevel :: RiskLevel
  v_reason :: GateReason
  v_correctionAttempts :: int
  v_escalated :: bool
  v_endState :: "CorrectionEndState option"

definition MAX_CORRECTION_ATTEMPTS :: int where "MAX_CORRECTION_ATTEMPTS = 3"

definition correctiveEndState :: "int \<Rightarrow> RiskLevel \<Rightarrow> CorrectionEndState option" where
  "correctiveEndState attempts level =
     (if attempts \<le> MAX_CORRECTION_ATTEMPTS then None
      else if level = CRITICAL \<or> level = HIGH then Some ESCALATED_TO_CONTROLLER
      else Some PERMANENTLY_BLOCKED_PENDING_REVIEW)"

definition evaluateGate :: "DecisionReport \<Rightarrow> InvariantReport \<Rightarrow> int \<Rightarrow> GateVerdict" where
  "evaluateGate rep irep attempts =
     (if length (failures irep) > 0 then
        \<lparr>v_routing = CRITICAL_BLOCKED, v_riskLevel = CRITICAL,
         v_reason = InvariantsFailed (map f_code (failures irep)), v_correctionAttempts = attempts,
         v_escalated = (attempts \<ge> MAX_CORRECTION_ATTEMPTS),
         v_endState = (if attempts \<ge> MAX_CORRECTION_ATTEMPTS then correctiveEndState attempts CRITICAL else None)\<rparr>
      else if ag_maxRisk (aggregate rep) = HIGH \<or> ag_highRiskCount (aggregate rep) > 0 then
        \<lparr>v_routing = MAKER_CHECKER_REQUIRED, v_riskLevel = HIGH,
         v_reason = HighRiskDecisions (ag_highRiskCount (aggregate rep)), v_correctionAttempts = attempts,
         v_escalated = False, v_endState = None\<rparr>
      else if ag_mediumRiskCount (aggregate rep) > 0 then
        \<lparr>v_routing = CONTROLLED_REVIEW, v_riskLevel = MEDIUM,
         v_reason = MediumRiskDecisions (ag_mediumRiskCount (aggregate rep)), v_correctionAttempts = attempts,
         v_escalated = False, v_endState = None\<rparr>
      else
        \<lparr>v_routing = STRAIGHT_THROUGH, v_riskLevel = LOW, v_reason = AllLowRisk,
         v_correctionAttempts = attempts, v_escalated = False, v_endState = None\<rparr>)"

definition canFinalize :: "string \<Rightarrow> bool" where
  "canFinalize actor =
     (let who = js_toUpperCase (js_trim actor)
      in if who = ''AI'' then False
         else if who = ''MAKER'' \<or> who = ''CHECKER'' \<or> who = ''SYSTEM'' then True
         else True)"

record CorrectionCycleInput =
  cc_decisionReport :: DecisionReport
  cc_invariantsPass :: bool
  cc_riskLevel :: RiskLevel
  cc_attempt :: int

definition evaluateCorrectionCycle :: "CorrectionCycleInput \<Rightarrow> GateVerdict" where
  "evaluateCorrectionCycle i =
     (let attempt = cc_attempt i; exhausted = (attempt > MAX_CORRECTION_ATTEMPTS)
      in if \<not> cc_invariantsPass i then
           \<lparr>v_routing = CRITICAL_BLOCKED, v_riskLevel = CRITICAL, v_reason = StillFailing attempt,
            v_correctionAttempts = attempt, v_escalated = exhausted,
            v_endState = (if exhausted then correctiveEndState attempt CRITICAL else None)\<rparr>
         else
           let base = evaluateGate (cc_decisionReport i)
                        \<lparr>passed = True, failures = [], checkedCounts = [], checkedAmounts = []\<rparr> (attempt - 1)
           in base\<lparr>v_correctionAttempts := attempt,
                   v_escalated := exhausted \<and> (cc_riskLevel i = HIGH \<or> cc_riskLevel i = CRITICAL),
                   v_endState := (if exhausted then correctiveEndState attempt (cc_riskLevel i) else v_endState base)\<rparr>)"

section \<open>Facts\<close>

lemma gate_blocked_iff: "v_routing (evaluateGate rep irep n) = CRITICAL_BLOCKED \<longleftrightarrow> failures irep \<noteq> []"
  by (simp add: evaluateGate_def)

lemma gate_risk_iff_routing:
  "v_riskLevel (evaluateGate rep irep n) =
     (case v_routing (evaluateGate rep irep n) of STRAIGHT_THROUGH \<Rightarrow> LOW | CONTROLLED_REVIEW \<Rightarrow> MEDIUM
        | MAKER_CHECKER_REQUIRED \<Rightarrow> HIGH | CRITICAL_BLOCKED \<Rightarrow> CRITICAL)"
  by (simp add: evaluateGate_def)

lemma report_counts:
  "ag_highRiskCount (aggregate (evaluateBatchDecisions rs d rels)) > 0 \<longleftrightarrow>
     HIGH \<in> d_riskLevel ` set (decisions (evaluateBatchDecisions rs d rels))"
  "ag_mediumRiskCount (aggregate (evaluateBatchDecisions rs d rels)) > 0 \<longleftrightarrow>
     MEDIUM \<in> d_riskLevel ` set (decisions (evaluateBatchDecisions rs d rels))"
proof -
  let ?rep = "evaluateBatchDecisions rs d rels"
  have counts: "ag_highRiskCount (aggregate ?rep) = count_risk (\<lambda>x. x \<noteq> LOW \<and> x \<noteq> MEDIUM) (decisions ?rep)"
    "ag_mediumRiskCount (aggregate ?rep) = count_risk (\<lambda>x. x = MEDIUM) (decisions ?rep)"
    by (simp_all add: evaluateBatchDecisions_def Let_def)
  have pos: "0 < count_risk P ds \<longleftrightarrow> (\<exists>x \<in> set ds. P (d_riskLevel x))" for P ds
    using count_risk_zero [of P ds] by auto
  show "ag_highRiskCount (aggregate ?rep) > 0 \<longleftrightarrow> HIGH \<in> d_riskLevel ` set (decisions ?rep)"
    unfolding counts pos using decisions_levels [of rs d rels] by force
  show "ag_mediumRiskCount (aggregate ?rep) > 0 \<longleftrightarrow> MEDIUM \<in> d_riskLevel ` set (decisions ?rep)"
    unfolding counts pos by force
qed

lemma report_max_high:
  "ag_maxRisk (aggregate (evaluateBatchDecisions rs d rels)) = HIGH \<Longrightarrow>
     HIGH \<in> d_riskLevel ` set (decisions (evaluateBatchDecisions rs d rels))"
proof -
  let ?ds = "decisions (evaluateBatchDecisions rs d rels)"
  assume "ag_maxRisk (aggregate (evaluateBatchDecisions rs d rels)) = HIGH"
  then have "Max (insert LOW (d_riskLevel ` set ?ds)) = HIGH"
    by (simp add: evaluateBatchDecisions_def Let_def maxRiskOf_Max)
  then have "HIGH \<in> insert LOW (d_riskLevel ` set ?ds)"
    by (metis Max_in finite.insertI finite_imageI finite_set insert_not_empty)
  then show ?thesis by simp
qed

lemma gate_routing_levels:
  "(let levels = d_riskLevel ` set (decisions (evaluateBatchDecisions rs d rels))
    in v_routing (evaluateGate (evaluateBatchDecisions rs d rels) irep n)
       = (if failures irep \<noteq> [] then CRITICAL_BLOCKED
          else if HIGH \<in> levels then MAKER_CHECKER_REQUIRED
          else if MEDIUM \<in> levels then CONTROLLED_REVIEW
          else STRAIGHT_THROUGH))"
  using report_counts [of rs d rels] report_max_high [of rs d rels]
  by (auto simp: evaluateGate_def Let_def)

section \<open>Properties\<close>

text \<open>
  The gate is fail-closed and exact on the decision engine's reports: a batch is blocked
  exactly when an invariant failed, whatever the confidence of its decisions; otherwise it needs
  maker/checker approval exactly when some decision is HIGH, controlled review exactly when none
  is HIGH and some is MEDIUM, and goes straight through exactly when every decision is LOW.
\<close>

theorem gate_routing_exact:
  "(let levels = d_riskLevel ` set (decisions (evaluateBatchDecisions rs d rels))
    in v_routing (evaluateGate (evaluateBatchDecisions rs d rels) irep n)
       = (if failures irep \<noteq> [] then CRITICAL_BLOCKED
          else if HIGH \<in> levels then MAKER_CHECKER_REQUIRED
          else if MEDIUM \<in> levels then CONTROLLED_REVIEW
          else STRAIGHT_THROUGH))"
  by (rule gate_routing_levels)

text \<open>
  The corrective budget: with failing invariants the verdict is escalated from the third
  attempt on, but an end state is only recorded from the fourth, so at exactly
  three attempts the gate reports an escalation without a terminal state.
\<close>

theorem escalation_without_end_state:
  "failures irep \<noteq> [] \<Longrightarrow>
     (v_escalated (evaluateGate rep irep n) \<longleftrightarrow> 3 \<le> n)
     \<and> v_endState (evaluateGate rep irep n) = (if n \<le> 3 then None else Some ESCALATED_TO_CONTROLLER)"
  by (auto simp: evaluateGate_def correctiveEndState_def MAX_CORRECTION_ATTEMPTS_def)

theorem escalation_without_end_state_witness:
  "let irep = \<lparr>passed = False, failures = [fail INVARIANT_INPUT_COMPLETE (Num 0) (Num 1) 0],
              checkedCounts = [], checkedAmounts = []\<rparr>;
       v = evaluateGate (evaluateBatchDecisions [] \<lparr>orders = [], payments = [], settlements = [],
              bankTransactions = [], refunds = [], chargebacks = [], groundTruths = []\<rparr> []) irep 3
   in failures irep \<noteq> [] \<and> v_escalated v \<and> v_endState v = None"
proof -
  let ?irep = "\<lparr>passed = False, failures = [fail INVARIANT_INPUT_COMPLETE (Num 0) (Num 1) 0],
              checkedCounts = [], checkedAmounts = []\<rparr>"
  have "failures ?irep \<noteq> []" by simp
  from escalation_without_end_state [OF this, of _ 3] show ?thesis by (simp add: Let_def)
qed

end
