(* ===== verification/Ledger.thy ===== *)
theory Ledger
  imports Decision
begin

text \<open>
  The reconciliation ledger (\<open>src/lib/reconciliation/ledger.ts\<close>): one entry per result, and the
  versioned table they are stored in. The table is the list of its rows; the transaction client
  and the chunked inserts of the source write the same rows.
\<close>

datatype LedgerApprovalState = APPROVED | PENDING_REVIEW | PENDING_APPROVAL

record SourceRecordIds =
  src_settlements :: "ident list"
  src_bankTxns :: "ident list"
  src_refunds :: "ident list"
  src_chargebacks :: "ident list"

record LedgerEntry =
  l_paymentId :: ident
  l_orderId :: ident
  l_runId :: "ident option"
  l_outcome :: DecisionOutcome
  l_riskLevel :: RiskLevel
  l_reasonCode :: string
  l_matchStrategy :: string
  l_approvalState :: LedgerApprovalState
  l_sourceRecordIds :: SourceRecordIds
  l_grossPaise :: paise
  l_feePaise :: paise
  l_taxPaise :: paise
  l_refundPaise :: paise
  l_chargebackPaise :: paise
  l_netPaise :: paise
  l_currency :: string
  l_expectedNetPaise :: paise
  l_actualSettledPaise :: "paise option"
  l_bankCreditedPaise :: "paise option"
  l_mismatchPaise :: "paise option"

definition LEDGER_CURRENCY :: string where "LEDGER_CURRENCY = ''INR''"

definition sourceRecordIdsFor :: "MatchResult \<Rightarrow> SourceRecordIds" where
  "sourceRecordIdsFor r = \<lparr>src_settlements = settlementIds r, src_bankTxns = bankTxnIds r,
     src_refunds = refundIds r, src_chargebacks = chargebackIds r\<rparr>"

definition ledgerEntryFor ::
  "(ident \<rightharpoonup> Decision) \<Rightarrow> LedgerApprovalState \<Rightarrow> ident option \<Rightarrow> MatchResult \<Rightarrow> LedgerEntry" where
  "ledgerEntryFor byId approval runId r =
     (let d = byId (paymentId r)
      in \<lparr>l_paymentId = paymentId r, l_orderId = orderId r, l_runId = runId,
          l_outcome = (case d of None \<Rightarrow> D_EXCEPTION | Some x \<Rightarrow> d_outcome x),
          l_riskLevel = (case d of None \<Rightarrow> MEDIUM | Some x \<Rightarrow> d_riskLevel x),
          l_reasonCode = (case d of None \<Rightarrow> ''EXCEPTION_UNCLASSIFIED'' | Some x \<Rightarrow> d_reasonCode x),
          l_matchStrategy = (case d of None \<Rightarrow> ''UNRESOLVED'' | Some x \<Rightarrow> d_matchStrategy x),
          l_approvalState = approval,
          l_sourceRecordIds = sourceRecordIdsFor r,
          l_grossPaise = paymentAmount r, l_feePaise = paymentFee r, l_taxPaise = paymentTax r,
          l_refundPaise = refundAmount r, l_chargebackPaise = chargebackAmount r,
          l_netPaise = paymentAmount r - paymentFee r - paymentTax r - refundAmount r - chargebackAmount r,
          l_currency = LEDGER_CURRENCY,
          l_expectedNetPaise = expectedNetAmount r,
          l_actualSettledPaise = actualSettledAmount r,
          l_bankCreditedPaise = bankCreditedAmount r,
          l_mismatchPaise = mismatchAmount r\<rparr>)"

definition buildLedgerEntries ::
  "MatchResult list \<Rightarrow> DecisionReport \<Rightarrow> LedgerApprovalState \<Rightarrow> ident option \<Rightarrow> LedgerEntry list" where
  "buildLedgerEntries results rep approval runId =
     map (ledgerEntryFor (set_all d_paymentId (decisions rep) Map.empty) approval runId) results"

datatype LedgerStatus = ACTIVE | SUPERSEDED

record LedgerRow =
  row_batchId :: ident
  row_version :: nat
  row_status :: LedgerStatus
  row_entry :: LedgerEntry

definition maxVersion :: "ident \<Rightarrow> LedgerRow list \<Rightarrow> nat" where
  "maxVersion batchId tbl = fold max (map row_version (filter (\<lambda>x. row_batchId x = batchId) tbl)) 0"

definition supersede :: "ident \<Rightarrow> LedgerRow \<Rightarrow> LedgerRow" where
  "supersede batchId x =
     (if row_batchId x = batchId \<and> row_status x = ACTIVE then x\<lparr>row_status := SUPERSEDED\<rparr> else x)"

definition persistLedger :: "ident \<Rightarrow> LedgerEntry list \<Rightarrow> LedgerRow list \<Rightarrow> LedgerRow list \<times> nat" where
  "persistLedger batchId entries tbl =
     (let version = maxVersion batchId tbl + 1;
          rows = map (\<lambda>e. \<lparr>row_batchId = batchId, row_version = version, row_status = ACTIVE, row_entry = e\<rparr>) entries
      in (map (supersede batchId) tbl @ rows, length rows))"

section \<open>Facts\<close>

definition active_rows :: "ident \<Rightarrow> LedgerRow list \<Rightarrow> LedgerRow list" where
  "active_rows batchId tbl = filter (\<lambda>x. row_batchId x = batchId \<and> row_status x = ACTIVE) tbl"

lemma supersede_simps [simp]:
  "row_batchId (supersede b x) = row_batchId x" "row_version (supersede b x) = row_version x"
  "row_entry (supersede b x) = row_entry x"
  by (simp_all add: supersede_def)

lemma fold_max_ge: "(m :: nat) \<le> fold max xs m \<and> (\<forall>x \<in> set xs. x \<le> fold max xs m)"
proof (induction xs arbitrary: m)
  case Nil
  then show ?case by simp
next
  case (Cons x xs)
  from Cons [of "max x m"] show ?case by simp
qed

lemma maxVersion_ge: "x \<in> set tbl \<Longrightarrow> row_batchId x = b \<Longrightarrow> row_version x \<le> maxVersion b tbl"
  using fold_max_ge [of 0 "map row_version (filter (\<lambda>x. row_batchId x = b) tbl)"]
  by (auto simp: maxVersion_def)

lemma active_superseded: "active_rows b (map (supersede b) tbl) = []"
  by (induction tbl) (simp_all add: active_rows_def supersede_def)

lemma active_superseded_other: "b' \<noteq> b \<Longrightarrow> active_rows b' (map (supersede b) tbl) = active_rows b' tbl"
  by (induction tbl) (auto simp: active_rows_def supersede_def)

lemma persistLedger_active: "map row_entry (active_rows b (fst (persistLedger b es tbl))) = es"
  using active_superseded [of b tbl] by (simp add: persistLedger_def active_rows_def Let_def filter_id_conv comp_def)

section \<open>Properties\<close>

text \<open>
  Storing a ledger keeps version history: the active rows of the batch become exactly the
  new entries, at a version above every row the batch had; every earlier row is kept with its
  entry and version; and the active rows of any other batch are untouched.
\<close>

theorem persistLedger_versions:
  "let tbl' = fst (persistLedger b es tbl)
   in map row_entry (active_rows b tbl') = es
      \<and> row_version ` set (active_rows b tbl') \<subseteq> {maxVersion b tbl + 1}
      \<and> row_version ` {x \<in> set tbl. row_batchId x = b} \<subseteq> {..maxVersion b tbl}
      \<and> map (\<lambda>x. (row_batchId x, row_version x, row_entry x)) (take (length tbl) tbl')
          = map (\<lambda>x. (row_batchId x, row_version x, row_entry x)) tbl
      \<and> (\<lambda>b'. active_rows b' tbl')(b := []) = (\<lambda>b'. active_rows b' tbl)(b := [])"
proof -
  let ?v = "maxVersion b tbl + 1"
  let ?rows = "map (\<lambda>e. \<lparr>row_batchId = b, row_version = ?v, row_status = ACTIVE, row_entry = e\<rparr>) es"
  have tbl': "fst (persistLedger b es tbl) = map (supersede b) tbl @ ?rows"
    by (simp add: persistLedger_def Let_def)
  have new: "active_rows b (map (supersede b) tbl @ ?rows) = ?rows"
    using active_superseded [of b tbl] by (simp add: active_rows_def filter_id_conv)
  have other: "active_rows b' (map (supersede b) tbl @ ?rows) = active_rows b' tbl" if "b' \<noteq> b" for b'
    using active_superseded_other [OF that, of tbl] that by (simp add: active_rows_def)
  show ?thesis
    unfolding Let_def tbl' new using other maxVersion_ge by (auto simp: comp_def fun_eq_iff)
qed

end
