(* ===== verification/Cardinality_Solvers.thy ===== *)
theory Cardinality_Solvers
  imports Domain "HOL-Library.Product_Lexorder"
begin

text \<open>
  The cardinality solver (\<open>src/lib/reconciliation/cardinality.ts\<close>): settlements that one bank
  credit aggregates (N:1), credits one settlement is split into (1:N), and groups on both sides
  (N:M), by depth-first enumeration with a cap and by meet-in-the-middle. A search state is
  \<open>None\<close> while the source's best group is empty. \<open>localeCompare\<close> is a parameter.
\<close>

record CardinalitySolverConfig =
  maxGroupSize :: nat
  maxCandidates :: nat
  tolerancePaise :: paise
  maxHours :: int

definition DEFAULT_CARDINALITY_CONFIG :: CardinalitySolverConfig where
  "DEFAULT_CARDINALITY_CONFIG = \<lparr>maxGroupSize = 8, maxCandidates = 24, tolerancePaise = 100, maxHours = 96\<rparr>"

definition normalizeAmount :: "paise \<Rightarrow> paise" where
  "normalizeAmount amount = js_round_div amount 1"

text \<open>\<open>hoursBetween(a, b) <= maxHours\<close>; a missing date is infinitely far away.\<close>

definition hours_within :: "millis option \<Rightarrow> millis \<Rightarrow> int \<Rightarrow> bool" where
  "hours_within a b hours = (case a of None \<Rightarrow> False | Some t \<Rightarrow> \<bar>t - b\<bar> \<le> hours * 3600000)"

section \<open>The group search\<close>

text \<open>
  \<open>search(startIndex, selected, total)\<close> of the two one-sided solvers, with the list of the
  candidates from \<open>startIndex\<close> on in place of the index, and its loop.
\<close>

definition group_diff :: "('a \<Rightarrow> paise) \<Rightarrow> paise \<Rightarrow> 'a list \<Rightarrow> paise" where
  "group_diff amt target xs = \<bar>sum_list (map amt xs) - target\<bar>"

definition group_key :: "('a \<Rightarrow> paise) \<Rightarrow> paise \<Rightarrow> 'a list \<Rightarrow> paise \<times> nat" where
  "group_key amt target xs = (group_diff amt target xs, length xs)"

function (sequential) group_search ::
  "('a \<Rightarrow> paise) \<Rightarrow> paise \<Rightarrow> paise \<Rightarrow> nat \<Rightarrow> 'a list \<Rightarrow> 'a list \<Rightarrow> paise \<Rightarrow> 'a list option \<Rightarrow> 'a list option"
and group_loop ::
  "('a \<Rightarrow> paise) \<Rightarrow> paise \<Rightarrow> paise \<Rightarrow> nat \<Rightarrow> 'a list \<Rightarrow> 'a list \<Rightarrow> paise \<Rightarrow> 'a list option \<Rightarrow> 'a list option"
where
  "group_search amt target tol maxSize rest selected acc st =
     (let st1 = (if length selected \<ge> 2 \<and> \<bar>acc - target\<bar> \<le> tol
                 then keep_best (group_key amt target) selected st else st)
      in if length selected \<ge> 2 \<and> acc \<ge> target + tol then st1
         else if length selected \<ge> maxSize then st1
         else group_loop amt target tol maxSize rest selected acc st1)"
| "group_loop amt target tol maxSize [] selected acc st = st"
| "group_loop amt target tol maxSize (x # rest) selected acc st =
     group_loop amt target tol maxSize rest selected acc
       (group_search amt target tol maxSize rest (selected @ [x]) (acc + amt x) st)"
  by pat_completeness auto
termination
  by (relation "measure (\<lambda>arg. case arg of
        Inl (_, _, _, _, rest, _) \<Rightarrow> 2 * length rest + 1
      | Inr (_, _, _, _, rest, _) \<Rightarrow> 2 * length rest)") auto

declare group_search.simps [simp del]

section \<open>N:1 and 1:N\<close>

definition cmpSettlementForBank :: "NormalizedBankTxn \<Rightarrow> NormalizedSettlement \<Rightarrow> NormalizedSettlement \<Rightarrow> int" where
  "cmpSettlementForBank b s t =
     (let da = \<bar>normalizeAmount (s_amount s) - b_amount b\<bar>; db = \<bar>normalizeAmount (s_amount t) - b_amount b\<bar>
      in if da \<noteq> db then da - db else cmp_by s_settlementId s t)"

definition selectCandidates ::
  "NormalizedSettlement list \<Rightarrow> NormalizedBankTxn \<Rightarrow> CardinalitySolverConfig \<Rightarrow> NormalizedSettlement list" where
  "selectCandidates ss b cfg =
     take (maxCandidates cfg) (js_sort (cmpSettlementForBank b)
       (filter (\<lambda>s. s_settledAt s = None \<or> hours_within (s_settledAt s) (b_txnDate b) (maxHours cfg)) ss))"

definition findSettlementGroupForBank ::
  "NormalizedSettlement list \<Rightarrow> NormalizedBankTxn \<Rightarrow> CardinalitySolverConfig \<Rightarrow> CardinalityMatch option" where
  "findSettlementGroupForBank ss b cfg =
     (if b_type b \<noteq> ''CREDIT'' then None
      else let candidates = selectCandidates ss b cfg
           in if length candidates < 2 then None
              else case group_search (normalizeAmount \<circ> s_amount) (b_amount b) (tolerancePaise cfg) (maxGroupSize cfg)
                          candidates [] 0 None of
                     None \<Rightarrow> None
                   | Some grp \<Rightarrow>
                       (let total = sum_list (map (normalizeAmount \<circ> s_amount) grp);
                            exact = (total = b_amount b)
                        in Some \<lparr>cm_type = N_One,
                             cm_settlementIds = sort (map s_settlementId grp),
                             cm_bankTxnIds = [b_txnId b],
                             cm_settlementAmount = total,
                             cm_bankAmount = b_amount b,
                             cm_differencePaise = \<bar>total - b_amount b\<bar>,
                             cm_confidenceScore = (if exact then 96 else 90),
                             cm_reasonCode = (if exact then ''EXACT_MANY_TO_ONE_AGGREGATION''
                                              else ''TOLERATED_MANY_TO_ONE_AGGREGATION''),
                             cm_details = (if exact then SettlementsToCreditExact (length grp)
                                           else SettlementsToCreditTolerated (length grp) (tolerancePaise cfg))\<rparr>))"

definition cmpCreditForSettlement ::
  "(string \<Rightarrow> string \<Rightarrow> int) \<Rightarrow> NormalizedSettlement \<Rightarrow> NormalizedBankTxn \<Rightarrow> NormalizedBankTxn \<Rightarrow> int" where
  "cmpCreditForSettlement localeCompare s a b =
     (let d = \<bar>b_amount a - s_amount s\<bar> - \<bar>b_amount b - s_amount s\<bar>
      in if d \<noteq> 0 then d else localeCompare (b_txnId a) (b_txnId b))"

definition creditCandidates ::
  "(string \<Rightarrow> string \<Rightarrow> int) \<Rightarrow> NormalizedSettlement \<Rightarrow> NormalizedBankTxn list \<Rightarrow> CardinalitySolverConfig
     \<Rightarrow> NormalizedBankTxn list" where
  "creditCandidates localeCompare s bs cfg =
     take (maxCandidates cfg) (js_sort (cmpCreditForSettlement localeCompare s)
       (filter (\<lambda>b. hours_within (s_settledAt s) (b_txnDate b) (maxHours cfg))
         (filter (\<lambda>b. b_type b = ''CREDIT'') bs)))"

definition findBankGroupForSettlement ::
  "(string \<Rightarrow> string \<Rightarrow> int) \<Rightarrow> NormalizedSettlement \<Rightarrow> NormalizedBankTxn list \<Rightarrow> CardinalitySolverConfig
     \<Rightarrow> CardinalityMatch option" where
  "findBankGroupForSettlement localeCompare s bs cfg =
     (let credits = creditCandidates localeCompare s bs cfg
      in if length credits < 2 then None
         else case group_search b_amount (s_amount s) (tolerancePaise cfg) (maxGroupSize cfg) credits [] 0 None of
                None \<Rightarrow> None
              | Some grp \<Rightarrow>
                  (let total = sum_list (map b_amount grp);
                       exact = (total = s_amount s)
                   in Some \<lparr>cm_type = One_N,
                        cm_settlementIds = [s_settlementId s],
                        cm_bankTxnIds = sort (map b_txnId grp),
                        cm_settlementAmount = s_amount s,
                        cm_bankAmount = total,
                        cm_differencePaise = \<bar>total - s_amount s\<bar>,
                        cm_confidenceScore = (if exact then 96 else 90),
                        cm_reasonCode = (if exact then ''EXACT_ONE_TO_MANY_AGGREGATION''
                                         else ''TOLERATED_ONE_TO_MANY_AGGREGATION''),
                        cm_details = (if exact then CreditsToSettlementExact (length grp)
                                      else CreditsToSettlementTolerated (length grp) (tolerancePaise cfg))\<rparr>))"

section \<open>Subset sums and meet in the middle\<close>

record 'a SubsetSumEntry =
  e_sum :: paise
  e_items :: "'a list"
  e_count :: nat

definition extend_entry :: "('a \<Rightarrow> paise) \<Rightarrow> 'a \<Rightarrow> 'a SubsetSumEntry \<Rightarrow> 'a SubsetSumEntry" where
  "extend_entry amountOf x prev =
     \<lparr>e_sum = e_sum prev + amountOf x, e_items = e_items prev @ [x], e_count = e_count prev + 1\<rparr>"

definition generateSubsetSums :: "'a list \<Rightarrow> ('a \<Rightarrow> paise) \<Rightarrow> nat \<Rightarrow> 'a SubsetSumEntry list" where
  "generateSubsetSums items amountOf maxItems =
     fold (\<lambda>x result. result @ map (extend_entry amountOf x) (filter (\<lambda>prev. e_count prev < maxItems) result))
       items [\<lparr>e_sum = 0, e_items = [], e_count = 0\<rparr>]"

definition meetInTheMiddleSubsets :: "'a list \<Rightarrow> ('a \<Rightarrow> paise) \<Rightarrow> nat \<Rightarrow> 'a SubsetSumEntry list" where
  "meetInTheMiddleSubsets items amountOf maxTotalItems =
     (let n = length items
      in if n \<le> 1 then map (\<lambda>x. \<lparr>e_sum = amountOf x, e_items = [x], e_count = 1\<rparr>) items
         else let mid = n div 2;
                  leftSubsets = generateSubsetSums (take mid items) amountOf (min mid maxTotalItems);
                  rightSubsets = generateSubsetSums (drop mid items) amountOf (min (n - mid) maxTotalItems)
              in concat (map (\<lambda>l. map (\<lambda>r. \<lparr>e_sum = e_sum l + e_sum r, e_items = e_items l @ e_items r,
                                             e_count = e_count l + e_count r\<rparr>)
                   (filter (\<lambda>r. 2 \<le> e_count l + e_count r \<and> e_count l + e_count r \<le> maxTotalItems) rightSubsets))
                 leftSubsets))"

section \<open>N:M\<close>

text \<open>
  The pairing loop of both N:M solvers: the bank groups bucketed by sum, the distinct sums
  sorted, and for each settlement group the buckets whose total lies within the tolerance, from
  the bisected lower end on.
\<close>

type_synonym ('s, 'b) group_pair = "('s list \<times> paise) \<times> ('b list \<times> paise)"

definition pair_key :: "('s, 'b) group_pair \<Rightarrow> paise \<times> nat" where
  "pair_key p = (\<bar>snd (fst p) - snd (snd p)\<bar>, length (fst (fst p)) + length (fst (snd p)))"

definition groups_by_sum :: "('b list \<times> paise) list \<Rightarrow> (paise \<times> ('b list \<times> paise) list) list" where
  "groups_by_sum gs = fold (\<lambda>g m. push_assoc m (snd g) g) gs []"

definition pairs_near ::
  "paise \<Rightarrow> (paise \<times> ('b list \<times> paise) list) list \<Rightarrow> 's list \<times> paise \<Rightarrow> ('s, 'b) group_pair list" where
  "pairs_near tol buckets sg =
     (let sums = js_sort (\<lambda>a b. a - b) (map fst buckets);
          lo = bisect (\<lambda>x. x < snd sg - tol) sums;
          near = takeWhile (\<lambda>x. x \<le> snd sg + tol) (drop lo sums)
      in concat (map (\<lambda>total. map (\<lambda>bg. (sg, bg)) (get_list (map_of buckets) total)) near))"

definition best_pair ::
  "paise \<Rightarrow> ('s list \<times> paise) list \<Rightarrow> ('b list \<times> paise) list \<Rightarrow> ('s, 'b) group_pair option" where
  "best_pair tol sgs bgs =
     (let buckets = groups_by_sum bgs
      in fold (keep_best pair_key) (concat (map (pairs_near tol buckets) sgs)) None)"

definition many_to_many_match ::
  "(nat \<Rightarrow> nat \<Rightarrow> GroupDetails) \<Rightarrow> (NormalizedSettlement, NormalizedBankTxn) group_pair \<Rightarrow> CardinalityMatch" where
  "many_to_many_match msg p =
     (let sg = fst (fst p); bg = fst (snd p); diff = \<bar>snd (fst p) - snd (snd p)\<bar>
      in \<lparr>cm_type = N_M,
          cm_settlementIds = sort (map s_settlementId sg),
          cm_bankTxnIds = sort (map b_txnId bg),
          cm_settlementAmount = sum_list (map s_amount sg),
          cm_bankAmount = sum_list (map b_amount bg),
          cm_differencePaise = diff,
          cm_confidenceScore = (if diff = 0 then 94 else 88),
          cm_reasonCode = (if diff = 0 then ''EXACT_MANY_TO_MANY_CORRELATION''
                           else ''TOLERATED_MANY_TO_MANY_CORRELATION''),
          cm_details = msg (length sg) (length bg)\<rparr>)"

definition nm_credits :: "NormalizedBankTxn list \<Rightarrow> CardinalitySolverConfig \<Rightarrow> NormalizedBankTxn list" where
  "nm_credits bs cfg =
     take (maxCandidates cfg) (js_sort (cmp_by b_txnId) (filter (\<lambda>b. b_type b = ''CREDIT'') bs))"

definition nm_settlements :: "NormalizedSettlement list \<Rightarrow> CardinalitySolverConfig \<Rightarrow> NormalizedSettlement list" where
  "nm_settlements ss cfg = take (maxCandidates cfg) (js_sort (cmp_by s_settlementId) ss)"

definition finish_pair ::
  "(nat \<Rightarrow> nat \<Rightarrow> GroupDetails) \<Rightarrow> (NormalizedSettlement, NormalizedBankTxn) group_pair option \<Rightarrow> CardinalityMatch option" where
  "finish_pair msg best = (case best of
      None \<Rightarrow> None
    | Some p \<Rightarrow> if length (fst (fst p)) < 2 \<or> length (fst (snd p)) < 2 then None else Some (many_to_many_match msg p))"

definition solveManyToManyMeetInMiddle ::
  "NormalizedSettlement list \<Rightarrow> NormalizedBankTxn list \<Rightarrow> CardinalitySolverConfig \<Rightarrow> CardinalityMatch option" where
  "solveManyToManyMeetInMiddle ss bs cfg =
     (let credits = nm_credits bs cfg; sc = nm_settlements ss cfg
      in if length sc < 2 \<or> length credits < 2 then None
         else let maxSize = min (maxGroupSize cfg) 6
              in finish_pair CorrelatedMeetInMiddle
                   (best_pair (tolerancePaise cfg)
                     (map (\<lambda>e. (e_items e, e_sum e)) (meetInTheMiddleSubsets sc s_amount maxSize))
                     (map (\<lambda>e. (e_items e, e_sum e)) (meetInTheMiddleSubsets credits b_amount maxSize))))"

text \<open>The capped depth-first enumeration \<open>walk\<close> and its loop.\<close>

definition MAX_ENUMERATED_GROUPS :: nat where "MAX_ENUMERATED_GROUPS = 3000"

function (sequential) walk ::
  "nat \<Rightarrow> ('a \<Rightarrow> paise) \<Rightarrow> nat \<Rightarrow> 'a list \<Rightarrow> 'a list \<Rightarrow> paise \<Rightarrow> ('a list \<times> paise) list \<Rightarrow> ('a list \<times> paise) list"
and walk_loop ::
  "nat \<Rightarrow> ('a \<Rightarrow> paise) \<Rightarrow> nat \<Rightarrow> 'a list \<Rightarrow> 'a list \<Rightarrow> paise \<Rightarrow> ('a list \<times> paise) list \<Rightarrow> ('a list \<times> paise) list"
where
  "walk cap amountOf maxSize rest selected acc groups =
     (if length groups \<ge> cap then groups
      else let groups1 = (if length selected \<ge> 2 then groups @ [(selected, acc)] else groups)
           in if length selected \<ge> maxSize then groups1
              else walk_loop cap amountOf maxSize rest selected acc groups1)"
| "walk_loop cap amountOf maxSize [] selected acc groups = groups"
| "walk_loop cap amountOf maxSize (x # rest) selected acc groups =
     (if length groups \<ge> cap then groups
      else walk_loop cap amountOf maxSize rest selected acc
             (walk cap amountOf maxSize rest (selected @ [x]) (acc + amountOf x) groups))"
  by pat_completeness auto
termination
  by (relation "measure (\<lambda>arg. case arg of
        Inl (_, _, _, rest, _) \<Rightarrow> 2 * length rest + 1
      | Inr (_, _, _, rest, _) \<Rightarrow> 2 * length rest)") auto

declare walk.simps [simp del]

definition buildGroups :: "CardinalitySolverConfig \<Rightarrow> 'a list \<Rightarrow> ('a \<Rightarrow> paise) \<Rightarrow> ('a list \<times> paise) list" where
  "buildGroups cfg items amountOf =
     walk MAX_ENUMERATED_GROUPS amountOf (min (maxGroupSize cfg) 6) items [] 0 []"

definition findManyToManyMatch ::
  "NormalizedSettlement list \<Rightarrow> NormalizedBankTxn list \<Rightarrow> CardinalitySolverConfig \<Rightarrow> CardinalityMatch option" where
  "findManyToManyMatch ss bs cfg =
     (let credits = nm_credits bs cfg; sc = nm_settlements ss cfg
      in if length sc < 2 \<or> length credits < 2 then None
         else finish_pair Correlated
                (best_pair (tolerancePaise cfg) (buildGroups cfg sc s_amount) (buildGroups cfg credits b_amount)))"

end
