(* ===== verification/Cardinality_Correct.thy ===== *)
theory Cardinality_Correct
  imports Cardinality_Solvers Samples
begin

text \<open>
  The cardinality searches are exact: the pruned depth-first search returns a best group among
  all groups of its candidates, the subset generators enumerate exactly the bounded subsets, and
  the bucketed pairing returns a best pair of groups within the tolerance.
\<close>

section \<open>The one-sided search\<close>

definition feasible_group :: "('a \<Rightarrow> paise) \<Rightarrow> paise \<Rightarrow> paise \<Rightarrow> nat \<Rightarrow> 'a list \<Rightarrow> bool" where
  "feasible_group amt target tol maxSize xs \<longleftrightarrow>
     2 \<le> length xs \<and> length xs \<le> maxSize \<and> group_diff amt target xs \<le> tol"

definition groups_of :: "('a \<Rightarrow> paise) \<Rightarrow> paise \<Rightarrow> paise \<Rightarrow> nat \<Rightarrow> 'a list \<Rightarrow> 'a list set" where
  "groups_of amt target tol maxSize cands =
     {xs \<in> set (subseqs cands). feasible_group amt target tol maxSize xs}"

definition extensions :: "('a list \<Rightarrow> bool) \<Rightarrow> 'a list \<Rightarrow> 'a list \<Rightarrow> 'a list set" where
  "extensions P rest sel = {sel @ ys | ys. ys \<in> set (subseqs rest) \<and> P (sel @ ys)}"

definition proper_extensions :: "('a list \<Rightarrow> bool) \<Rightarrow> 'a list \<Rightarrow> 'a list \<Rightarrow> 'a list set" where
  "proper_extensions P rest sel = {sel @ ys | ys. ys \<in> set (subseqs rest) \<and> ys \<noteq> [] \<and> P (sel @ ys)}"

lemma extensions_split:
  "extensions P rest sel = (if P sel then {sel} else {}) \<union> proper_extensions P rest sel"
  unfolding extensions_def proper_extensions_def
  by (auto split: if_splits)

lemma proper_extensions_Nil [simp]: "proper_extensions P [] sel = {}"
  by (auto simp: proper_extensions_def)

lemma proper_extensions_Cons:
  "proper_extensions P (x # rest) sel = extensions P rest (sel @ [x]) \<union> proper_extensions P rest sel"
  unfolding extensions_def proper_extensions_def subseqs_Cons_iff by auto

lemma subseqs_sum_nonneg:
  "\<forall>x \<in> set rest. 0 \<le> amt x \<Longrightarrow> ys \<in> set (subseqs rest) \<Longrightarrow> (0 :: int) \<le> sum_list (map amt ys)"
  by (rule sum_list_nonneg) (auto dest: subseqs_set_subset)

text \<open>A group that already reaches the upper end of the tolerance dominates its extensions.\<close>

lemma overshoot_dominates:
  assumes nonneg: "\<forall>x \<in> set rest. 0 \<le> amt x" and len: "2 \<le> length sel" "length sel \<le> maxSize"
    and over: "target + tol \<le> sum_list (map amt sel)"
    and c: "c \<in> proper_extensions (feasible_group amt target tol maxSize) rest sel"
  shows "feasible_group amt target tol maxSize sel \<and> group_key amt target sel \<le> group_key amt target c"
proof -
  from c obtain ys where ys: "c = sel @ ys" "ys \<in> set (subseqs rest)" "feasible_group amt target tol maxSize c"
    by (auto simp: proper_extensions_def)
  from subseqs_sum_nonneg [OF nonneg ys(2)] ys over
  have "group_diff amt target c = tol" "group_diff amt target sel = tol"
    by (auto simp: feasible_group_def group_diff_def)
  with len ys(1) show ?thesis by (simp add: feasible_group_def group_key_def less_eq_prod_def)
qed

lemma group_search_best:
  "\<forall>x \<in> set rest. 0 \<le> amt x \<Longrightarrow> acc = sum_list (map amt sel) \<Longrightarrow> length sel \<le> maxSize \<Longrightarrow>
     is_best (group_key amt target) S st \<Longrightarrow>
     is_best (group_key amt target) (S \<union> extensions (feasible_group amt target tol maxSize) rest sel)
       (group_search amt target tol maxSize rest sel acc st)"
  "\<forall>x \<in> set rest. 0 \<le> amt x \<Longrightarrow> acc = sum_list (map amt sel) \<Longrightarrow> length sel < maxSize \<Longrightarrow>
     is_best (group_key amt target) S st \<Longrightarrow>
     is_best (group_key amt target) (S \<union> proper_extensions (feasible_group amt target tol maxSize) rest sel)
       (group_loop amt target tol maxSize rest sel acc st)"
proof (induction amt target tol maxSize rest sel acc st and amt target tol maxSize rest sel acc st
    arbitrary: S and S rule: group_search_group_loop.induct)
  case (1 amt target tol maxSize rest sel acc st)
  let ?F = "feasible_group amt target tol maxSize" and ?key = "group_key amt target"
  let ?st1 = "if length sel \<ge> 2 \<and> \<bar>acc - target\<bar> \<le> tol then keep_best ?key sel st else st"
  have Fsel: "?F sel \<longleftrightarrow> length sel \<ge> 2 \<and> \<bar>acc - target\<bar> \<le> tol"
    using "1.prems" by (auto simp: feasible_group_def group_diff_def)
  have st1: "is_best ?key (S \<union> (if ?F sel then {sel} else {})) ?st1"
    using "1.prems"(4) is_best_keep [of ?key S st sel] by (simp add: Fsel)
  show ?case
  proof (cases "length sel \<ge> 2 \<and> acc \<ge> target + tol")
    case True
    have "is_best ?key (S \<union> (if ?F sel then {sel} else {}) \<union> proper_extensions ?F rest sel) ?st1"
    proof (rule is_best_dominated [OF st1])
      fix c
      assume "c \<in> proper_extensions ?F rest sel"
      with overshoot_dominates [OF "1.prems"(1), of sel maxSize target tol c] True "1.prems"(2,3)
      show "\<exists>b \<in> S \<union> (if ?F sel then {sel} else {}). ?key b \<le> ?key c" by auto
    qed
    moreover have "group_search amt target tol maxSize rest sel acc st = ?st1"
      unfolding group_search.simps Let_def using True by (simp only: if_True simp_thms)
    ultimately show ?thesis by (simp only: extensions_split Un_assoc)
  next
    case False
    show ?thesis
    proof (cases "length sel \<ge> maxSize")
      case True
      then have "proper_extensions ?F rest sel = {}"
        by (force simp: proper_extensions_def feasible_group_def neq_Nil_conv)
      moreover have "group_search amt target tol maxSize rest sel acc st = ?st1"
        unfolding group_search.simps Let_def using True False by (simp only: if_True if_False simp_thms)
      ultimately show ?thesis using st1 by (simp only: extensions_split Un_empty_right)
    next
      case small: False
      with "1.prems" have "length sel < maxSize" by simp
      moreover have "group_search amt target tol maxSize rest sel acc st
          = group_loop amt target tol maxSize rest sel acc ?st1"
        unfolding group_search.simps Let_def using False small by (simp only: if_False simp_thms)
      ultimately show ?thesis
        using "1.IH" [OF refl False small "1.prems"(1,2) _ st1] by (simp only: extensions_split Un_assoc)
    qed
  qed
next
  case (2 amt target tol maxSize sel acc st)
  then show ?case by simp
next
  case (3 amt target tol maxSize x rest sel acc st)
  let ?F = "feasible_group amt target tol maxSize" and ?key = "group_key amt target"
  have "is_best ?key (S \<union> extensions ?F rest (sel @ [x]))
      (group_search amt target tol maxSize rest (sel @ [x]) (acc + amt x) st)"
    by (rule "3.IH"(1)) (use "3.prems" in auto)
  then have "is_best ?key (S \<union> extensions ?F rest (sel @ [x]) \<union> proper_extensions ?F rest sel)
      (group_loop amt target tol maxSize rest sel acc
        (group_search amt target tol maxSize rest (sel @ [x]) (acc + amt x) st))"
    by (intro "3.IH"(2)) (use "3.prems" in auto)
  then show ?case by (simp add: proper_extensions_Cons Un_assoc)
qed

lemma group_search_optimal:
  assumes "\<forall>x \<in> set cands. 0 \<le> amt x"
  shows "is_best (group_key amt target) (groups_of amt target tol maxSize cands)
    (group_search amt target tol maxSize cands [] 0 None)"
  using group_search_best(1) [OF assms, of 0 "[]" maxSize target "{}" None tol]
  by (simp add: extensions_def groups_of_def)

lemma group_search_Some:
  assumes "\<forall>x \<in> set cands. 0 \<le> amt x" "group_search amt target tol maxSize cands [] 0 None = Some g"
  shows "g \<in> groups_of amt target tol maxSize cands"
    and "\<And>h. h \<in> groups_of amt target tol maxSize cands \<Longrightarrow> group_key amt target g \<le> group_key amt target h"
  using group_search_optimal [OF assms(1), of target tol maxSize] assms(2)
  by (auto simp: is_best_def)

section \<open>Subset sums\<close>

definition proper_entry :: "('a \<Rightarrow> paise) \<Rightarrow> 'a SubsetSumEntry \<Rightarrow> bool" where
  "proper_entry amt e \<longleftrightarrow> e_sum e = sum_list (map amt (e_items e)) \<and> e_count e = length (e_items e)"

lemma subseqs_snoc_iff:
  "zs \<in> set (subseqs (xs @ [x])) \<longleftrightarrow> zs \<in> set (subseqs xs) \<or> (\<exists>us \<in> set (subseqs xs). zs = us @ [x])"
  unfolding subseqs_append_iff by (auto simp: Let_def)

lemma generateSubsetSums_spec:
  "(\<forall>e \<in> set (generateSubsetSums xs amt k). proper_entry amt e)
   \<and> e_items ` set (generateSubsetSums xs amt k) = {ys \<in> set (subseqs xs). length ys \<le> k}"
proof (induction xs rule: rev_induct)
  case Nil
  then show ?case by (auto simp: generateSubsetSums_def proper_entry_def)
next
  case (snoc x xs)
  let ?res = "generateSubsetSums xs amt k"
  have step: "generateSubsetSums (xs @ [x]) amt k
      = ?res @ map (extend_entry amt x) (filter (\<lambda>e. e_count e < k) ?res)"
    by (simp add: generateSubsetSums_def)
  from snoc have ok: "\<And>e. e \<in> set ?res \<Longrightarrow> proper_entry amt e"
    and its: "e_items ` set ?res = {ys \<in> set (subseqs xs). length ys \<le> k}" by auto
  have "e_items ` extend_entry amt x ` {e \<in> set ?res. e_count e < k}
      = (\<lambda>ys. ys @ [x]) ` {ys \<in> e_items ` set ?res. length ys < k}"
  proof -
    have "{e \<in> set ?res. e_count e < k} = {e \<in> set ?res. length (e_items e) < k}"
      using ok by (auto simp: proper_entry_def)
    then show ?thesis by (auto simp: extend_entry_def image_iff)
  qed
  also have "\<dots> = {zs. \<exists>us \<in> set (subseqs xs). zs = us @ [x] \<and> length zs \<le> k}"
    unfolding its by auto
  finally have "e_items ` set (generateSubsetSums (xs @ [x]) amt k)
      = {ys \<in> set (subseqs xs). length ys \<le> k} \<union> {zs. \<exists>us \<in> set (subseqs xs). zs = us @ [x] \<and> length zs \<le> k}"
    by (simp add: step image_Un its)
  moreover have "\<forall>e \<in> set (generateSubsetSums (xs @ [x]) amt k). proper_entry amt e"
    using ok by (auto simp: step extend_entry_def proper_entry_def)
  ultimately show ?case by (auto simp: subseqs_snoc_iff)
qed

lemma subseqs_length_le: "ys \<in> set (subseqs xs) \<Longrightarrow> length ys \<le> length xs"
proof (induction xs arbitrary: ys)
  case Nil
  then show ?case by simp
next
  case (Cons x xs)
  then show ?case unfolding subseqs_Cons_iff by fastforce
qed

lemma meetInTheMiddle_spec:
  assumes "2 \<le> length xs"
  shows "(\<forall>e \<in> set (meetInTheMiddleSubsets xs amt k). proper_entry amt e)
   \<and> e_items ` set (meetInTheMiddleSubsets xs amt k) = {ys \<in> set (subseqs xs). 2 \<le> length ys \<and> length ys \<le> k}"
proof -
  define mid where "mid = length xs div 2"
  define L where "L = generateSubsetSums (take mid xs) amt (min mid k)"
  define R where "R = generateSubsetSums (drop mid xs) amt (min (length xs - mid) k)"
  let ?comb = "\<lambda>l r. \<lparr>e_sum = e_sum l + e_sum r, e_items = e_items l @ e_items r, e_count = e_count l + e_count r\<rparr>"
  have eq: "set (meetInTheMiddleSubsets xs amt k)
      = {?comb l r | l r. l \<in> set L \<and> r \<in> set R \<and> 2 \<le> e_count l + e_count r \<and> e_count l + e_count r \<le> k}"
    using assms by (auto simp: meetInTheMiddleSubsets_def Let_def mid_def L_def R_def)
  have L: "\<And>l. l \<in> set L \<Longrightarrow> proper_entry amt l" "e_items ` set L = {ys \<in> set (subseqs (take mid xs)). length ys \<le> min mid k}"
    using generateSubsetSums_spec [of "take mid xs" amt "min mid k"] by (auto simp: L_def)
  have R: "\<And>r. r \<in> set R \<Longrightarrow> proper_entry amt r"
    "e_items ` set R = {ys \<in> set (subseqs (drop mid xs)). length ys \<le> min (length xs - mid) k}"
    using generateSubsetSums_spec [of "drop mid xs" amt "min (length xs - mid) k"] by (auto simp: R_def)
  have "proper_entry amt e" if "e \<in> set (meetInTheMiddleSubsets xs amt k)" for e
    using that L(1) R(1) by (auto simp: eq proper_entry_def)
  moreover have "e_items ` set (meetInTheMiddleSubsets xs amt k)
      = {us @ vs | us vs. us \<in> e_items ` set L \<and> vs \<in> e_items ` set R \<and> 2 \<le> length (us @ vs) \<and> length (us @ vs) \<le> k}"
    using L(1) R(1) by (auto simp: eq proper_entry_def image_iff) (fastforce+)
  moreover have "\<dots> = {us @ vs | us vs. us \<in> set (subseqs (take mid xs)) \<and> vs \<in> set (subseqs (drop mid xs))
        \<and> 2 \<le> length (us @ vs) \<and> length (us @ vs) \<le> k}"
    unfolding L(2) R(2) using subseqs_length_le [of _ "take mid xs"] subseqs_length_le [of _ "drop mid xs"]
    by (fastforce simp: mid_def)
  moreover have "\<dots> = {ys \<in> set (subseqs (take mid xs @ drop mid xs)). 2 \<le> length ys \<and> length ys \<le> k}"
    unfolding subseqs_append_iff by blast
  ultimately show ?thesis by simp
qed

section \<open>Pairs of groups\<close>

lemma groups_by_sum_spec:
  "fst ` set (groups_by_sum gs) = snd ` set gs"
  "get_list (map_of (groups_by_sum gs)) t = filter (\<lambda>g. snd g = t) gs"
  using push_assoc_fold [of "[]" "\<lambda>_. True" snd gs]
  by (simp_all add: groups_by_sum_def get_list_fold_push_all)

definition near_pairs :: "paise \<Rightarrow> ('s list \<times> paise) set \<Rightarrow> ('b list \<times> paise) set \<Rightarrow> ('s, 'b) group_pair set" where
  "near_pairs tol A B = {(sg, bg). sg \<in> A \<and> bg \<in> B \<and> \<bar>snd sg - snd bg\<bar> \<le> tol}"

lemma set_pairs_near:
  "set (pairs_near tol (groups_by_sum gs) sg) = near_pairs tol {sg} (set gs)"
proof -
  let ?sums = "js_sort (\<lambda>a b. a - b) (map fst (groups_by_sum gs))"
  have "set (pairs_near tol (groups_by_sum gs) sg)
      = (\<Union>t \<in> {t \<in> snd ` set gs. snd sg - tol \<le> t \<and> t \<le> snd sg + tol}. Pair sg ` {g \<in> set gs. snd g = t})"
    unfolding pairs_near_def Let_def bisect_from [OF sorted_amounts]
    by (auto simp: groups_by_sum_spec)
  also have "\<dots> = near_pairs tol {sg} (set gs)"
    by (auto simp: near_pairs_def)
  finally show ?thesis .
qed

lemma best_pair_optimal:
  "is_best pair_key (near_pairs tol (set sgs) (set bgs)) (best_pair tol sgs bgs)"
proof -
  have "set (concat (map (pairs_near tol (groups_by_sum bgs)) sgs)) = near_pairs tol (set sgs) (set bgs)"
    unfolding set_concat set_map by (auto simp: set_pairs_near near_pairs_def)
  then show ?thesis
    using is_best_fold [OF is_best_empty, of pair_key "concat (map (pairs_near tol (groups_by_sum bgs)) sgs)"]
    by (simp add: best_pair_def)
qed

section \<open>The capped enumeration\<close>

fun nonempty_subsets :: "nat \<Rightarrow> 'a list \<Rightarrow> 'a list list" where
  "nonempty_subsets n [] = []"
| "nonempty_subsets 0 (x # xs) = []"
| "nonempty_subsets (Suc n) (x # xs) = map ((#) x) ([] # nonempty_subsets n xs) @ nonempty_subsets (Suc n) xs"

lemma nonempty_subsets_0 [simp]: "nonempty_subsets 0 xs = []"
  by (cases xs) simp_all

lemma set_nonempty_subsets:
  "set (nonempty_subsets n xs) = {ys \<in> set (subseqs xs). ys \<noteq> [] \<and> length ys \<le> n}"
proof (induction n xs rule: nonempty_subsets.induct)
  case (3 n x xs)
  then have "set (nonempty_subsets (Suc n) (x # xs))
      = (#) x ` ({[]} \<union> {ys \<in> set (subseqs xs). ys \<noteq> [] \<and> length ys \<le> n})
        \<union> {ys \<in> set (subseqs xs). ys \<noteq> [] \<and> length ys \<le> Suc n}"
    by simp
  also have "\<dots> = {ys \<in> set (subseqs (x # xs)). ys \<noteq> [] \<and> length ys \<le> Suc n}"
    unfolding subseqs_Cons_iff by auto
  finally show ?case .
qed auto

lemma length_nonempty_subsets: "length (nonempty_subsets n xs) < 2 ^ length xs"
  by (induction n xs rule: nonempty_subsets.induct) auto

definition emit :: "('a \<Rightarrow> paise) \<Rightarrow> 'a list \<Rightarrow> paise \<Rightarrow> 'a list list \<Rightarrow> ('a list \<times> paise) list" where
  "emit amt sel acc yss =
     map (\<lambda>ys. (sel @ ys, acc + sum_list (map amt ys))) (filter (\<lambda>ys. 2 \<le> length sel + length ys) yss)"

lemma emit_simps:
  "emit amt sel acc [] = []"
  "emit amt sel acc (xs @ ys) = emit amt sel acc xs @ emit amt sel acc ys"
  "emit amt sel acc ([] # yss) = (if 2 \<le> length sel then [(sel, acc)] else []) @ emit amt sel acc yss"
  "emit amt sel acc (map ((#) x) yss) = emit amt (sel @ [x]) (acc + amt x) yss"
  by (auto simp: emit_def filter_map o_def add.assoc)

lemma walk_is_prefix:
  "length gs \<le> cap \<Longrightarrow> walk cap amt M rest sel acc gs
     = take cap (gs @ emit amt sel acc ([] # nonempty_subsets (M - length sel) rest))"
  "length gs \<le> cap \<Longrightarrow> length sel < M \<Longrightarrow> walk_loop cap amt M rest sel acc gs
     = take cap (gs @ emit amt sel acc (nonempty_subsets (M - length sel) rest))"
proof (induction cap amt M rest sel acc gs and cap amt M rest sel acc gs rule: walk_walk_loop.induct)
  case (1 cap amt M rest sel acc gs)
  show ?case
  proof (cases "cap \<le> length gs")
    case True
    with "1.prems" show ?thesis by (simp add: walk.simps)
  next
    case False
    let ?gs1 = "if length sel \<ge> 2 then gs @ [(sel, acc)] else gs"
    from False have le: "length ?gs1 \<le> cap" by simp
    show ?thesis
    proof (cases "M \<le> length sel")
      case True
      with False le show ?thesis by (auto simp: walk.simps emit_simps)
    next
      case small: False
      from "1.IH" [OF False refl small le] small False show ?thesis
        by (simp add: walk.simps [of cap] emit_simps)
    qed
  qed
next
  case (2 cap amt M sel acc gs)
  then show ?case by (simp add: emit_simps)
next
  case (3 cap amt M x rest sel acc gs)
  show ?case
  proof (cases "cap \<le> length gs")
    case True
    with "3.prems" show ?thesis by simp
  next
    case False
    define n where "n = M - length (sel @ [x])"
    have n: "M - length sel = Suc n" using "3.prems"(2) by (simp add: n_def)
    let ?inner = "walk cap amt M rest (sel @ [x]) (acc + amt x) gs"
    have inner: "?inner = take cap (gs @ emit amt (sel @ [x]) (acc + amt x) ([] # nonempty_subsets n rest))"
      unfolding n_def by (rule "3.IH"(1) [OF False "3.prems"(1)])
    have "length ?inner \<le> cap" unfolding inner by simp
    from "3.IH"(2) [OF False this "3.prems"(2)] False
    have "walk_loop cap amt M (x # rest) sel acc gs
        = take cap (?inner @ emit amt sel acc (nonempty_subsets (Suc n) rest))"
      by (simp add: n)
    then show ?thesis
      unfolding inner take_take_append n nonempty_subsets.simps(3) emit_simps(2) emit_simps(4) append_assoc .
  qed
qed

lemma buildGroups_prefix:
  "buildGroups cfg xs amt = take 3000 (map (\<lambda>ys. (ys, sum_list (map amt ys)))
     (filter (\<lambda>ys. 2 \<le> length ys) (nonempty_subsets (min (maxGroupSize cfg) 6) xs)))"
  by (simp add: buildGroups_def walk_is_prefix MAX_ENUMERATED_GROUPS_def emit_def)

definition bounded_groups :: "('a \<Rightarrow> paise) \<Rightarrow> nat \<Rightarrow> 'a list \<Rightarrow> ('a list \<times> paise) set" where
  "bounded_groups amt k xs =
     (\<lambda>ys. (ys, sum_list (map amt ys))) ` {ys \<in> set (subseqs xs). 2 \<le> length ys \<and> length ys \<le> k}"

lemma enumerated_groups_set:
  "set (map (\<lambda>ys. (ys, sum_list (map amt ys))) (filter (\<lambda>ys. 2 \<le> length ys) (nonempty_subsets k xs)))
     = bounded_groups amt k xs"
proof -
  have "set (filter (\<lambda>ys. 2 \<le> length ys) (nonempty_subsets k xs))
      = {ys \<in> set (subseqs xs). 2 \<le> length ys \<and> length ys \<le> k}"
    unfolding set_filter set_nonempty_subsets by (rule Collect_cong) auto
  then show ?thesis by (simp only: bounded_groups_def set_map)
qed

lemma buildGroups_sound: "set (buildGroups cfg xs amt) \<subseteq> bounded_groups amt (min (maxGroupSize cfg) 6) xs"
  unfolding buildGroups_prefix enumerated_groups_set [symmetric] by (rule set_take_subset)

lemma buildGroups_complete:
  assumes "length xs \<le> 11"
  shows "set (buildGroups cfg xs amt) = bounded_groups amt (min (maxGroupSize cfg) 6) xs"
proof -
  let ?yss = "nonempty_subsets (min (maxGroupSize cfg) 6) xs"
  have "length (filter (\<lambda>ys. 2 \<le> length ys) ?yss) \<le> length ?yss" by (rule length_filter_le)
  also have "\<dots> < 2 ^ length xs" by (rule length_nonempty_subsets)
  also have "\<dots> \<le> 2 ^ 11" by (rule power_increasing) (use assms in simp_all)
  finally have "length (filter (\<lambda>ys. 2 \<le> length ys) ?yss) \<le> 3000" by simp
  then show ?thesis unfolding buildGroups_prefix enumerated_groups_set [symmetric] by simp
qed

lemma meetInTheMiddle_groups:
  assumes "2 \<le> length xs"
  shows "set (map (\<lambda>e. (e_items e, e_sum e)) (meetInTheMiddleSubsets xs amt k)) = bounded_groups amt k xs"
proof -
  have spec: "\<And>e. e \<in> set (meetInTheMiddleSubsets xs amt k) \<Longrightarrow> proper_entry amt e"
    "e_items ` set (meetInTheMiddleSubsets xs amt k) = {ys \<in> set (subseqs xs). 2 \<le> length ys \<and> length ys \<le> k}"
    using meetInTheMiddle_spec [OF assms, of amt k] by auto
  have "(\<lambda>e. (e_items e, e_sum e)) ` set (meetInTheMiddleSubsets xs amt k)
      = (\<lambda>ys. (ys, sum_list (map amt ys))) ` e_items ` set (meetInTheMiddleSubsets xs amt k)"
    unfolding image_image by (rule image_cong) (auto dest: spec(1) simp: proper_entry_def)
  then show ?thesis by (simp add: bounded_groups_def spec(2))
qed

section \<open>What every solver promises\<close>

text \<open>
  A relationship resolves settlements against credits: its ids are those of a group of the
  settlements and a group of the credits it was given, every record used at most once, and the
  two sums differ by at most the tolerance.
\<close>

definition resolves :: "paise \<Rightarrow> NormalizedSettlement list \<Rightarrow> NormalizedBankTxn list \<Rightarrow> CardinalityMatch \<Rightarrow> bool" where
  "resolves tol ss bs m \<longleftrightarrow> (\<exists>gs gb. gs \<noteq> [] \<and> gb \<noteq> []
     \<and> mset gs \<subseteq># mset ss \<and> mset gb \<subseteq># mset bs
     \<and> cm_settlementIds m = sort (map s_settlementId gs) \<and> cm_bankTxnIds m = sort (map b_txnId gb)
     \<and> \<bar>sum_list (map s_amount gs) - sum_list (map b_amount gb)\<bar> \<le> tol)"

lemma resolvesI:
  assumes "gs \<noteq> []" "gb \<noteq> []" "mset gs \<subseteq># mset ss" "mset gb \<subseteq># mset bs"
    and "cm_settlementIds m = sort (map s_settlementId gs)" "cm_bankTxnIds m = sort (map b_txnId gb)"
    and "\<bar>sum_list (map s_amount gs) - sum_list (map b_amount gb)\<bar> \<le> tol"
  shows "resolves tol ss bs m"
  unfolding resolves_def using assms by blast

lemma resolves_mono:
  assumes "resolves tol ss bs m" "mset ss \<subseteq># mset ss'" "mset bs \<subseteq># mset bs'"
  shows "resolves tol ss' bs' m"
  using assms unfolding resolves_def by (meson subset_mset.order_trans)

lemma resolves_ids:
  assumes "resolves tol ss bs m"
  shows "set (cm_settlementIds m) \<subseteq> s_settlementId ` set ss" "set (cm_bankTxnIds m) \<subseteq> b_txnId ` set bs"
    "cm_settlementIds m \<noteq> []" "cm_bankTxnIds m \<noteq> []"
proof -
  from assms obtain gs gb where g: "gs \<noteq> []" "gb \<noteq> []" "set gs \<subseteq> set ss" "set gb \<subseteq> set bs"
    "cm_settlementIds m = sort (map s_settlementId gs)" "cm_bankTxnIds m = sort (map b_txnId gb)"
    unfolding resolves_def by (auto dest: mset_sub_set)
  then show "set (cm_settlementIds m) \<subseteq> s_settlementId ` set ss" "set (cm_bankTxnIds m) \<subseteq> b_txnId ` set bs"
    by (simp_all add: image_mono)
  from g(1,2) have "set (cm_settlementIds m) \<noteq> {}" "set (cm_bankTxnIds m) \<noteq> {}" by (simp_all add: g(5,6))
  then show "cm_settlementIds m \<noteq> []" "cm_bankTxnIds m \<noteq> []" by auto
qed

lemma resolves_distinct:
  assumes "resolves tol ss bs m"
  shows "distinct (map s_settlementId ss) \<Longrightarrow> distinct (cm_settlementIds m)"
    "distinct (map b_txnId bs) \<Longrightarrow> distinct (cm_bankTxnIds m)"
  using assms unfolding resolves_def by (auto dest: mset_sub_distinct)

locale cardinality_solver =
  fixes solve :: "NormalizedSettlement list \<Rightarrow> NormalizedBankTxn list \<Rightarrow> CardinalityMatch option"
    and tol :: paise
  assumes solve_sound: "solve ss bs = Some m \<Longrightarrow> resolves tol ss bs m"
begin

lemma solve_ids:
  assumes "solve ss bs = Some m"
  shows "set (cm_settlementIds m) \<subseteq> s_settlementId ` set ss" "set (cm_bankTxnIds m) \<subseteq> b_txnId ` set bs"
  using resolves_ids [OF solve_sound [OF assms]] by blast+

lemma solve_within: "solve ss bs = Some m \<Longrightarrow> mset ss \<subseteq># mset ss' \<Longrightarrow> mset bs \<subseteq># mset bs' \<Longrightarrow> resolves tol ss' bs' m"
  by (rule resolves_mono [OF solve_sound])

end

subsection \<open>The one-sided solvers\<close>

definition found_in :: "'a set \<Rightarrow> 'a option \<Rightarrow> bool" where
  "found_in S st \<longleftrightarrow> (case st of None \<Rightarrow> True | Some g \<Rightarrow> g \<in> S)"

lemma found_in_keep: "found_in S st \<Longrightarrow> c \<in> S \<Longrightarrow> found_in S (keep_best key c st)"
  by (auto simp: found_in_def keep_best_def split: option.splits)

lemma group_search_found:
  "acc = sum_list (map amt sel) \<Longrightarrow> length sel \<le> maxSize \<Longrightarrow>
     extensions (feasible_group amt target tol maxSize) rest sel \<subseteq> S \<Longrightarrow> found_in S st \<Longrightarrow>
     found_in S (group_search amt target tol maxSize rest sel acc st)"
  "acc = sum_list (map amt sel) \<Longrightarrow> length sel < maxSize \<Longrightarrow>
     proper_extensions (feasible_group amt target tol maxSize) rest sel \<subseteq> S \<Longrightarrow> found_in S st \<Longrightarrow>
     found_in S (group_loop amt target tol maxSize rest sel acc st)"
proof (induction amt target tol maxSize rest sel acc st and amt target tol maxSize rest sel acc st
    rule: group_search_group_loop.induct)
  case (1 amt target tol maxSize rest sel acc st)
  let ?F = "feasible_group amt target tol maxSize"
  let ?st1 = "if length sel \<ge> 2 \<and> \<bar>acc - target\<bar> \<le> tol then keep_best (group_key amt target) sel st else st"
  have "?F sel \<longleftrightarrow> length sel \<ge> 2 \<and> \<bar>acc - target\<bar> \<le> tol"
    using "1.prems" by (auto simp: feasible_group_def group_diff_def)
  with "1.prems"(3,4) have st1: "found_in S ?st1"
    by (auto simp: extensions_split intro: found_in_keep)
  have "found_in S (group_loop amt target tol maxSize rest sel acc ?st1)"
    if "\<not> (length sel \<ge> 2 \<and> acc \<ge> target + tol)" "\<not> length sel \<ge> maxSize"
    by (rule "1.IH" [OF refl that "1.prems"(1) _ _ st1])
      (use "1.prems" that in \<open>auto simp: extensions_split\<close>)
  with st1 show ?case unfolding group_search.simps [of amt] Let_def by presburger
next
  case (2 amt target tol maxSize sel acc st)
  then show ?case by simp
next
  case (3 amt target tol maxSize x rest sel acc st)
  have "found_in S (group_search amt target tol maxSize rest (sel @ [x]) (acc + amt x) st)"
    by (rule "3.IH"(1)) (use "3.prems" in \<open>auto simp: proper_extensions_Cons\<close>)
  then have "found_in S (group_loop amt target tol maxSize rest sel acc
      (group_search amt target tol maxSize rest (sel @ [x]) (acc + amt x) st))"
    by (intro "3.IH"(2)) (use "3.prems" in \<open>auto simp: proper_extensions_Cons\<close>)
  then show ?case by simp
qed

lemma group_search_sound:
  assumes "group_search amt target tol maxSize cands [] 0 None = Some g"
  shows "g \<in> groups_of amt target tol maxSize cands"
  using group_search_found(1) [of 0 amt "[]" maxSize target tol cands "groups_of amt target tol maxSize cands" None] assms
  by (simp add: found_in_def extensions_def groups_of_def)

lemma groups_ofD:
  assumes "g \<in> groups_of amt target tol maxSize cands"
  shows "g \<in> set (subseqs cands)" "mset g \<subseteq># mset cands" "g \<noteq> []" "2 \<le> length g" "length g \<le> maxSize"
    "\<bar>sum_list (map amt g) - target\<bar> \<le> tol"
  using assms subseqs_mset_subset [of g cands]
  by (auto simp: groups_of_def feasible_group_def group_diff_def)

lemma normalizeAmount_id [simp]: "normalizeAmount a = a"
  by (simp add: normalizeAmount_def js_round_div_def)

lemma candidates_sub:
  "mset (selectCandidates ss b cfg) \<subseteq># mset ss"
  "mset (creditCandidates lc s bs cfg) \<subseteq># mset bs"
  "mset (nm_credits bs cfg) \<subseteq># mset bs"
  "mset (nm_settlements ss cfg) \<subseteq># mset ss"
  unfolding selectCandidates_def creditCandidates_def nm_credits_def nm_settlements_def
  by (meson mset_take_sort_sub mset_filter_sub subset_mset.order_trans)+

lemma findSettlementGroupForBank_resolves:
  assumes "findSettlementGroupForBank ss b cfg = Some m"
  shows "resolves (tolerancePaise cfg) ss [b] m"
proof -
  from assms obtain g where g: "group_search (normalizeAmount \<circ> s_amount) (b_amount b) (tolerancePaise cfg)
      (maxGroupSize cfg) (selectCandidates ss b cfg) [] 0 None = Some g"
    "cm_settlementIds m = sort (map s_settlementId g)" "cm_bankTxnIds m = [b_txnId b]"
    by (auto simp: findSettlementGroupForBank_def Let_def split: if_splits option.splits)
  note grp = groups_ofD [OF group_search_sound [OF g(1)]]
  show ?thesis
    by (rule resolvesI [of g "[b]"])
      (use g grp candidates_sub(1) [of ss b cfg] in \<open>auto simp: comp_def intro: subset_mset.order_trans\<close>)
qed

lemma findBankGroupForSettlement_resolves:
  assumes "findBankGroupForSettlement lc s bs cfg = Some m"
  shows "resolves (tolerancePaise cfg) [s] bs m"
proof -
  from assms obtain g where g: "group_search b_amount (s_amount s) (tolerancePaise cfg)
      (maxGroupSize cfg) (creditCandidates lc s bs cfg) [] 0 None = Some g"
    "cm_settlementIds m = [s_settlementId s]" "cm_bankTxnIds m = sort (map b_txnId g)"
    by (auto simp: findBankGroupForSettlement_def Let_def split: if_splits option.splits)
  note grp = groups_ofD [OF group_search_sound [OF g(1)]]
  show ?thesis
    by (rule resolvesI [of "[s]" g])
      (use g grp candidates_sub(2) [of lc s bs cfg] in \<open>auto simp: abs_minus_commute intro: subset_mset.order_trans\<close>)
qed

interpretation n_to_one: cardinality_solver
  "\<lambda>ss bs. case bs of [b] \<Rightarrow> findSettlementGroupForBank ss b cfg | _ \<Rightarrow> None" "tolerancePaise cfg" for cfg
  by unfold_locales (auto split: list.splits intro: findSettlementGroupForBank_resolves)

interpretation one_to_n: cardinality_solver
  "\<lambda>ss bs. case ss of [s] \<Rightarrow> findBankGroupForSettlement lc s bs cfg | _ \<Rightarrow> None" "tolerancePaise cfg" for lc cfg
  by unfold_locales (auto split: list.splits intro: findBankGroupForSettlement_resolves)

subsection \<open>The two-sided solvers\<close>

lemma bounded_groupsD:
  assumes "g \<in> bounded_groups amt k xs"
  shows "mset (fst g) \<subseteq># mset xs" "2 \<le> length (fst g)" "length (fst g) \<le> k" "snd g = sum_list (map amt (fst g))"
  using assms subseqs_mset_subset by (auto simp: bounded_groups_def)

lemma best_pair_resolves:
  assumes best: "best_pair tol sgs bgs = Some p"
    and "set sgs \<subseteq> bounded_groups s_amount k sc" "set bgs \<subseteq> bounded_groups b_amount k' credits"
    and sub: "mset sc \<subseteq># mset ss" "mset credits \<subseteq># mset bs"
  shows "resolves tol ss bs (many_to_many_match msg p)" "2 \<le> length (fst (fst p))" "2 \<le> length (fst (snd p))"
proof -
  from is_best_Some [OF best_pair_optimal [of tol sgs bgs, unfolded best]] assms(2,3)
  have p: "fst p \<in> bounded_groups s_amount k sc" "snd p \<in> bounded_groups b_amount k' credits"
    "\<bar>snd (fst p) - snd (snd p)\<bar> \<le> tol"
    by (auto simp: near_pairs_def)
  note s = bounded_groupsD [OF p(1)] and b = bounded_groupsD [OF p(2)]
  show "2 \<le> length (fst (fst p))" "2 \<le> length (fst (snd p))" using s b by simp_all
  show "resolves tol ss bs (many_to_many_match msg p)"
    by (rule resolvesI [of "fst (fst p)" "fst (snd p)"])
      (use s b p(3) sub in \<open>auto simp: many_to_many_match_def Let_def intro: subset_mset.order_trans\<close>)
qed

lemma mitm_groups:
  "2 \<le> length xs \<Longrightarrow> set (map (\<lambda>e. (e_items e, e_sum e)) (meetInTheMiddleSubsets xs amt k)) \<subseteq> bounded_groups amt k xs"
  by (simp only: meetInTheMiddle_groups order_refl)

interpretation enumerated: cardinality_solver "\<lambda>ss bs. findManyToManyMatch ss bs cfg" "tolerancePaise cfg" for cfg
proof
  fix ss bs m
  assume "findManyToManyMatch ss bs cfg = Some m"
  then obtain p where p: "best_pair (tolerancePaise cfg) (buildGroups cfg (nm_settlements ss cfg) s_amount)
      (buildGroups cfg (nm_credits bs cfg) b_amount) = Some p" "m = many_to_many_match Correlated p"
    by (auto simp: findManyToManyMatch_def finish_pair_def Let_def split: if_splits option.splits)
  show "resolves (tolerancePaise cfg) ss bs m"
    unfolding p(2) by (rule best_pair_resolves(1) [OF p(1) buildGroups_sound buildGroups_sound candidates_sub(4,3)])
qed

interpretation mitm: cardinality_solver "\<lambda>ss bs. solveManyToManyMeetInMiddle ss bs cfg" "tolerancePaise cfg" for cfg
proof
  fix ss bs m
  assume m: "solveManyToManyMeetInMiddle ss bs cfg = Some m"
  let ?gs = "\<lambda>xs amt. map (\<lambda>e. (e_items e, e_sum e)) (meetInTheMiddleSubsets xs amt (min (maxGroupSize cfg) 6))"
  from m obtain p where p: "best_pair (tolerancePaise cfg) (?gs (nm_settlements ss cfg) s_amount)
      (?gs (nm_credits bs cfg) b_amount) = Some p" "m = many_to_many_match CorrelatedMeetInMiddle p"
    and len: "2 \<le> length (nm_settlements ss cfg)" "2 \<le> length (nm_credits bs cfg)"
    by (auto simp: solveManyToManyMeetInMiddle_def finish_pair_def Let_def not_less split: if_splits option.splits)
  show "resolves (tolerancePaise cfg) ss bs m"
    unfolding p(2) by (rule best_pair_resolves(1) [OF p(1) mitm_groups [OF len(1)] mitm_groups [OF len(2)] candidates_sub(4,3)])
qed

section \<open>Properties\<close>

lemma groups_of_short: "length cands < 2 \<Longrightarrow> groups_of amt target tol maxSize cands = {}"
  using subseqs_length_le [of _ cands] by (fastforce simp: groups_of_def feasible_group_def)

lemma bounded_groups_short: "length xs < 2 \<Longrightarrow> bounded_groups amt k xs = {}"
  using subseqs_length_le [of _ xs] by (fastforce simp: bounded_groups_def)

lemma near_pairs_empty [simp]: "near_pairs tol {} B = {}" "near_pairs tol A {} = {}"
  by (simp_all add: near_pairs_def)

lemma default_limits:
  "tolerancePaise DEFAULT_CARDINALITY_CONFIG = 100" "maxGroupSize DEFAULT_CARDINALITY_CONFIG = 8"
  by (simp_all add: DEFAULT_CARDINALITY_CONFIG_def)

text \<open>
  C7. The N:1 search is exact: on settlements with non-negative amounts, the group it reports for a
  bank credit is a best one among all groups of its candidates of admissible size within the
  tolerance (least difference, then fewest settlements), and it reports none only when there is
  none. The early return on overshooting sums never loses a better group.
\<close>

theorem n_to_one_optimal:
  assumes "\<forall>s \<in> set ss. 0 \<le> s_amount s" and "b_type b = ''CREDIT''"
  shows "\<exists>best. is_best (group_key s_amount (b_amount b))
      (groups_of s_amount (b_amount b) (tolerancePaise cfg) (maxGroupSize cfg) (selectCandidates ss b cfg)) best
    \<and> map_option cm_settlementIds (findSettlementGroupForBank ss b cfg) = map_option (sort \<circ> map s_settlementId) best
    \<and> map_option cm_differencePaise (findSettlementGroupForBank ss b cfg) = map_option (group_diff s_amount (b_amount b)) best"
proof -
  let ?cands = "selectCandidates ss b cfg"
  let ?best = "group_search s_amount (b_amount b) (tolerancePaise cfg) (maxGroupSize cfg) ?cands [] 0 None"
  have "\<forall>s \<in> set ?cands. 0 \<le> s_amount s"
    using assms(1) mset_sub_set [OF candidates_sub(1)] by blast
  note opt = group_search_optimal [OF this, of "b_amount b" "tolerancePaise cfg" "maxGroupSize cfg"]
  have norm: "normalizeAmount \<circ> s_amount = s_amount" by (rule ext) simp
  have "?best = None" if "length ?cands < 2"
    using opt that by (simp add: groups_of_short is_best_empty_None)
  then show ?thesis using assms(2) opt
    by (intro exI [of _ ?best])
      (auto simp: findSettlementGroupForBank_def norm Let_def group_diff_def split: option.splits)
qed

theorem n_to_one_optimal_witness:
  "b_type (bulk_credit ''b1'' 500000) = ''CREDIT''
   \<and> (\<exists>best. is_best (group_key s_amount 500000)
        (groups_of s_amount 500000 100 8 (selectCandidates bulk_settlements (bulk_credit ''b1'' 500000) DEFAULT_CARDINALITY_CONFIG)) best
      \<and> map_option (sort \<circ> map s_settlementId) best = Some [''setl_1'', ''setl_2'']
      \<and> map_option (group_diff s_amount 500000) best = Some 0)"
proof -
  have hyps: "\<forall>s \<in> set bulk_settlements. 0 \<le> s_amount s" "b_type (bulk_credit ''b1'' 500000) = ''CREDIT''"
    "b_amount (bulk_credit ''b1'' 500000) = 500000"
    by (simp_all add: bulk_defs)
  have "findSettlementGroupForBank bulk_settlements (bulk_credit ''b1'' 500000) DEFAULT_CARDINALITY_CONFIG
      = Some \<lparr>cm_type = N_One, cm_settlementIds = [''setl_1'', ''setl_2''], cm_bankTxnIds = [''b1''],
          cm_settlementAmount = 500000, cm_bankAmount = 500000, cm_differencePaise = 0, cm_confidenceScore = 96,
          cm_reasonCode = ''EXACT_MANY_TO_ONE_AGGREGATION'', cm_details = SettlementsToCreditExact 2\<rparr>"
    by code_simp
  with n_to_one_optimal [OF hyps(1,2), of DEFAULT_CARDINALITY_CONFIG] show ?thesis
    using hyps unfolding hyps(3) default_limits by (metis (no_types, lifting) CardinalityMatch.select_convs(2,6) option.map(2))
qed

text \<open>
  The 1:N search is exact in the same sense, for every collation of the transaction ids and
  non-negative credits.
\<close>

theorem one_to_n_optimal:
  assumes "\<forall>b \<in> set bs. 0 \<le> b_amount b"
  shows "\<exists>best. is_best (group_key b_amount (s_amount s))
      (groups_of b_amount (s_amount s) (tolerancePaise cfg) (maxGroupSize cfg) (creditCandidates lc s bs cfg)) best
    \<and> map_option cm_bankTxnIds (findBankGroupForSettlement lc s bs cfg) = map_option (sort \<circ> map b_txnId) best
    \<and> map_option cm_differencePaise (findBankGroupForSettlement lc s bs cfg) = map_option (group_diff b_amount (s_amount s)) best"
proof -
  let ?cands = "creditCandidates lc s bs cfg"
  let ?best = "group_search b_amount (s_amount s) (tolerancePaise cfg) (maxGroupSize cfg) ?cands [] 0 None"
  have "\<forall>b \<in> set ?cands. 0 \<le> b_amount b"
    using assms mset_sub_set [OF candidates_sub(2)] by blast
  note opt = group_search_optimal [OF this, of "s_amount s" "tolerancePaise cfg" "maxGroupSize cfg"]
  have "?best = None" if "length ?cands < 2"
    using opt that by (simp add: groups_of_short is_best_empty_None)
  then show ?thesis using opt
    by (intro exI [of _ ?best])
      (auto simp: findBankGroupForSettlement_def Let_def group_diff_def split: option.splits)
qed

theorem one_to_n_optimal_witness:
  "list_all (\<lambda>b. 0 \<le> b_amount b) [sample_credit ''b1'' 300000 None, sample_credit ''b2'' 200050 None]
   \<and> (\<exists>best. is_best (group_key b_amount 500000)
        (groups_of b_amount 500000 100 8 (creditCandidates (cmp_by (\<lambda>i. i)) (sample_settlement ''setl_1'' ''pay_1'' 500000 None)
           [sample_credit ''b1'' 300000 None, sample_credit ''b2'' 200050 None] DEFAULT_CARDINALITY_CONFIG)) best
      \<and> map_option (sort \<circ> map b_txnId) best = Some [''b1'', ''b2'']
      \<and> map_option (group_diff b_amount 500000) best = Some 50)"
proof -
  let ?bs = "[sample_credit ''b1'' 300000 None, sample_credit ''b2'' 200050 None]"
  let ?s = "sample_settlement ''setl_1'' ''pay_1'' 500000 None"
  have hyps: "\<forall>b \<in> set ?bs. 0 \<le> b_amount b" "s_amount ?s = 500000" by (simp_all add: bulk_defs)
  have "map_option (\<lambda>m. (cm_bankTxnIds m, cm_differencePaise m))
      (findBankGroupForSettlement (cmp_by (\<lambda>i. i)) ?s ?bs DEFAULT_CARDINALITY_CONFIG) = Some ([''b1'', ''b2''], 50)"
    by code_simp
  then obtain m where "findBankGroupForSettlement (cmp_by (\<lambda>i. i)) ?s ?bs DEFAULT_CARDINALITY_CONFIG = Some m"
    "cm_bankTxnIds m = [''b1'', ''b2'']" "cm_differencePaise m = 50" by auto
  with one_to_n_optimal [OF hyps(1), of ?s DEFAULT_CARDINALITY_CONFIG "cmp_by (\<lambda>i. i)"] show ?thesis
    using hyps(1) unfolding hyps(2) default_limits list_all_iff by (metis (no_types, lifting) option.map(2))
qed

lemma finish_pair_best:
  assumes "is_best pair_key (near_pairs tol (bounded_groups amt k xs) (bounded_groups amt' k' ys)) best"
  shows "finish_pair msg best = map_option (many_to_many_match msg) best"
proof (cases best)
  case (Some p)
  from is_best_Some [OF assms [unfolded Some]]
  have "fst p \<in> bounded_groups amt k xs" "snd p \<in> bounded_groups amt' k' ys" by (auto simp: near_pairs_def)
  from bounded_groupsD(2) [OF this(1)] bounded_groupsD(2) [OF this(2)] Some show ?thesis
    by (simp add: finish_pair_def)
qed (simp add: finish_pair_def)

lemma many_to_many_key:
  "pair_key p = (cm_differencePaise (many_to_many_match msg p),
     length (cm_settlementIds (many_to_many_match msg p)) + length (cm_bankTxnIds (many_to_many_match msg p)))"
  by (simp add: pair_key_def many_to_many_match_def Let_def)

lemma mitm_best:
  "\<exists>best. is_best pair_key
      (near_pairs (tolerancePaise cfg) (bounded_groups s_amount (min (maxGroupSize cfg) 6) (nm_settlements ss cfg))
        (bounded_groups b_amount (min (maxGroupSize cfg) 6) (nm_credits bs cfg))) best
    \<and> solveManyToManyMeetInMiddle ss bs cfg = map_option (many_to_many_match CorrelatedMeetInMiddle) best"
proof (cases "length (nm_settlements ss cfg) < 2 \<or> length (nm_credits bs cfg) < 2")
  case True
  then show ?thesis
    by (intro exI [of _ None]) (auto simp: bounded_groups_short solveManyToManyMeetInMiddle_def Let_def)
next
  case False
  let ?gs = "\<lambda>xs amt. map (\<lambda>e. (e_items e, e_sum e)) (meetInTheMiddleSubsets xs amt (min (maxGroupSize cfg) 6))"
  let ?best = "best_pair (tolerancePaise cfg) (?gs (nm_settlements ss cfg) s_amount) (?gs (nm_credits bs cfg) b_amount)"
  from False have len: "2 \<le> length (nm_settlements ss cfg)" "2 \<le> length (nm_credits bs cfg)" by auto
  note opt = best_pair_optimal [of "tolerancePaise cfg" "?gs (nm_settlements ss cfg) s_amount" "?gs (nm_credits bs cfg) b_amount",
      unfolded meetInTheMiddle_groups [OF len(1)] meetInTheMiddle_groups [OF len(2)]]
  show ?thesis
    using opt finish_pair_best [OF opt] False
    by (intro exI [of _ ?best]) (simp add: solveManyToManyMeetInMiddle_def Let_def)
qed

lemma enumerated_best:
  assumes "length (nm_settlements ss cfg) \<le> 11" "length (nm_credits bs cfg) \<le> 11"
  shows "\<exists>best. is_best pair_key
      (near_pairs (tolerancePaise cfg) (bounded_groups s_amount (min (maxGroupSize cfg) 6) (nm_settlements ss cfg))
        (bounded_groups b_amount (min (maxGroupSize cfg) 6) (nm_credits bs cfg))) best
    \<and> findManyToManyMatch ss bs cfg = map_option (many_to_many_match Correlated) best"
proof (cases "length (nm_settlements ss cfg) < 2 \<or> length (nm_credits bs cfg) < 2")
  case True
  then show ?thesis
    by (intro exI [of _ None]) (auto simp: bounded_groups_short findManyToManyMatch_def Let_def)
next
  case False
  let ?best = "best_pair (tolerancePaise cfg) (buildGroups cfg (nm_settlements ss cfg) s_amount)
    (buildGroups cfg (nm_credits bs cfg) b_amount)"
  note opt = best_pair_optimal [of "tolerancePaise cfg" "buildGroups cfg (nm_settlements ss cfg) s_amount"
      "buildGroups cfg (nm_credits bs cfg) b_amount",
      unfolded buildGroups_complete [OF assms(1)] buildGroups_complete [OF assms(2)]]
  show ?thesis
    using opt finish_pair_best [OF opt] False
    by (intro exI [of _ ?best]) (simp add: findManyToManyMatch_def Let_def)
qed

text \<open>
  The meet-in-the-middle N:M solver is exact: it returns a best pair of groups (least difference,
  then fewest records) among all pairs of groups of two to six of its candidates within the
  tolerance, and nothing only when there is no such pair. Splitting the candidates in halves,
  bucketing by sum and bisecting lose nothing.
\<close>

theorem meet_in_middle_optimal:
  "\<exists>best. is_best pair_key
      (near_pairs (tolerancePaise cfg) (bounded_groups s_amount (min (maxGroupSize cfg) 6) (nm_settlements ss cfg))
        (bounded_groups b_amount (min (maxGroupSize cfg) 6) (nm_credits bs cfg))) best
    \<and> solveManyToManyMeetInMiddle ss bs cfg = map_option (many_to_many_match CorrelatedMeetInMiddle) best"
  by (rule mitm_best)

text \<open>
  C8. The capped depth-first N:M solver agrees with the meet-in-the-middle solver, in what they find
  and in the difference and size of the pair, as long as the cap of 3000 groups cannot bind: with
  at most eleven candidates on each side.
\<close>

theorem many_to_many_solvers_agree:
  assumes "length (nm_settlements ss cfg) \<le> 11" "length (nm_credits bs cfg) \<le> 11"
  shows "map_option (\<lambda>m. (cm_differencePaise m, length (cm_settlementIds m) + length (cm_bankTxnIds m)))
      (findManyToManyMatch ss bs cfg)
    = map_option (\<lambda>m. (cm_differencePaise m, length (cm_settlementIds m) + length (cm_bankTxnIds m)))
      (solveManyToManyMeetInMiddle ss bs cfg)"
proof -
  let ?near = "near_pairs (tolerancePaise cfg)
    (bounded_groups s_amount (min (maxGroupSize cfg) 6) (nm_settlements ss cfg))
    (bounded_groups b_amount (min (maxGroupSize cfg) 6) (nm_credits bs cfg))"
  let ?f = "\<lambda>m. (cm_differencePaise m, length (cm_settlementIds m) + length (cm_bankTxnIds m))"
  from enumerated_best [OF assms] obtain a where a: "is_best pair_key ?near a"
    "findManyToManyMatch ss bs cfg = map_option (many_to_many_match Correlated) a" by blast
  from mitm_best obtain b where b: "is_best pair_key ?near b"
    "solveManyToManyMeetInMiddle ss bs cfg = map_option (many_to_many_match CorrelatedMeetInMiddle) b" by blast
  have "?f \<circ> many_to_many_match msg = pair_key" for msg
    by (rule ext) (simp add: many_to_many_key [of _ msg])
  then show ?thesis
    unfolding a(2) b(2) option.map_comp using is_best_key_unique [OF a(1) b(1)] by simp
qed

theorem many_to_many_solvers_agree_witness:
  "map_option (\<lambda>m. (cm_differencePaise m, length (cm_settlementIds m) + length (cm_bankTxnIds m)))
     (solveManyToManyMeetInMiddle bulk_settlements [bulk_credit ''b1'' 350000, bulk_credit ''b2'' 150000] DEFAULT_CARDINALITY_CONFIG)
   = Some (0, 4)"
proof -
  let ?bs = "[bulk_credit ''b1'' 350000, bulk_credit ''b2'' 150000]"
  have "length (nm_settlements bulk_settlements DEFAULT_CARDINALITY_CONFIG) \<le> 11"
    "length (nm_credits ?bs DEFAULT_CARDINALITY_CONFIG) \<le> 11"
    by code_simp+
  from many_to_many_solvers_agree [OF this]
  have "map_option (\<lambda>m. (cm_differencePaise m, length (cm_settlementIds m) + length (cm_bankTxnIds m)))
      (solveManyToManyMeetInMiddle bulk_settlements ?bs DEFAULT_CARDINALITY_CONFIG)
    = map_option (\<lambda>m. (cm_differencePaise m, length (cm_settlementIds m) + length (cm_bankTxnIds m)))
      (findManyToManyMatch bulk_settlements ?bs DEFAULT_CARDINALITY_CONFIG)"
    by (rule sym)
  also have "\<dots> = Some (0, 4)" by code_simp
  finally show ?thesis .
qed

end
