(* ===== verification/Scale.thy ===== *)
theory Scale
  imports Cardinality_Correct
begin

text \<open>
  The pure part of the scalable cardinality path (\<open>src/lib/reconciliation/scale\<close>): amount, UTR
  and date buckets (\<open>buckets.ts\<close>), the partitions of the candidates (\<open>clusters.ts\<close>), the
  strategy chosen for a partition and its resolution (\<open>strategy.ts\<close>), and the execution of one
  partition (\<open>execution.ts\<close>). A date-bucket key is the integer the source prints, or
  \<open>None\<close> for the bucket \<open>unknown\<close>; a partition id is the pair of key and index that
  \<open>p-<key>-<index>\<close> prints.
\<close>

section \<open>Buckets\<close>

definition SCALE_tolerancePaise :: paise where "SCALE_tolerancePaise = 100"
definition SCALE_maxHours :: int where "SCALE_maxHours = 96"
definition SCALE_boundedClusterMaxItems :: nat where "SCALE_boundedClusterMaxItems = 12"
definition SCALE_scalableMinRecords :: nat where "SCALE_scalableMinRecords = 1000"
definition SCALE_maxRetries :: nat where "SCALE_maxRetries = 3"
definition SCALE_backoffBaseMs :: millis where "SCALE_backoffBaseMs = 50"
definition SCALE_backoffFactor :: int where "SCALE_backoffFactor = 2"
definition SCALE_partitionWindowMs :: millis where "SCALE_partitionWindowMs = 96 * 3600000"

lemmas scale_config_defs [model_defs] =
  SCALE_tolerancePaise_def SCALE_maxHours_def SCALE_boundedClusterMaxItems_def SCALE_scalableMinRecords_def
  SCALE_maxRetries_def SCALE_backoffBaseMs_def SCALE_backoffFactor_def SCALE_partitionWindowMs_def

definition buildAmountIndexes ::
  "NormalizedSettlement list \<Rightarrow> NormalizedBankTxn list
     \<Rightarrow> (paise \<rightharpoonup> NormalizedSettlement list) \<times> (paise \<rightharpoonup> NormalizedBankTxn list)" where
  "buildAmountIndexes ss cs =
     (fold (\<lambda>s m. push_at m (js_round_div (s_amount s) 1) s) ss Map.empty,
      fold (\<lambda>c m. if b_type c = ''CREDIT'' then push_at m (js_round_div (b_amount c) 1) c else m) cs Map.empty)"

definition buildUtrIndexes ::
  "NormalizedSettlement list \<Rightarrow> NormalizedBankTxn list
     \<Rightarrow> (string \<rightharpoonup> NormalizedSettlement) \<times> (string \<rightharpoonup> NormalizedBankTxn)" where
  "buildUtrIndexes ss cs =
     (fold (\<lambda>s m. if truthy_str (s_utr s) then m(the (s_utr s) \<mapsto> s) else m) ss Map.empty,
      fold (\<lambda>c m. if truthy_str (b_utr c) \<and> b_type c = ''CREDIT'' then m(the (b_utr c) \<mapsto> c) else m) cs Map.empty)"

type_synonym bucket_key = "int option"

definition dateBucketKey :: "millis option \<Rightarrow> millis \<Rightarrow> bucket_key" where
  "dateBucketKey ts windowMs = map_option (\<lambda>t. t div windowMs) ts"

section \<open>Partitions\<close>

type_synonym partition_id = "bucket_key \<times> nat"

record ScalePartition =
  sp_id :: partition_id
  sp_bucketKey :: bucket_key
  sp_settlements :: "NormalizedSettlement list"
  sp_credits :: "NormalizedBankTxn list"

type_synonym accumulator = "NormalizedSettlement list \<times> NormalizedBankTxn list"

definition accumulate ::
  "bucket_key \<Rightarrow> (accumulator \<Rightarrow> accumulator) \<Rightarrow> (bucket_key \<times> accumulator) list \<Rightarrow> (bucket_key \<times> accumulator) list" where
  "accumulate k f m = AList.update k (f (case map_of m k of None \<Rightarrow> ([], []) | Some acc \<Rightarrow> acc)) m"

definition add_settlement :: "millis \<Rightarrow> NormalizedSettlement \<Rightarrow> (bucket_key \<times> accumulator) list \<Rightarrow> (bucket_key \<times> accumulator) list" where
  "add_settlement w s = accumulate (dateBucketKey (s_settledAt s) w) (\<lambda>(ss, cs). (ss @ [s], cs))"

definition add_credit :: "millis \<Rightarrow> NormalizedBankTxn \<Rightarrow> (bucket_key \<times> accumulator) list \<Rightarrow> (bucket_key \<times> accumulator) list" where
  "add_credit w c m =
     (if b_type c \<noteq> ''CREDIT'' then m
      else accumulate (dateBucketKey (Some (b_txnDate c)) w) (\<lambda>(ss, cs). (ss, cs @ [c])) m)"

text \<open>
  Two printed integers compare by value; the text \<open>unknown\<close> is not a number, so it is compared
  as a string, and comes after every digit and the minus sign.
\<close>

fun numericCompare :: "bucket_key \<Rightarrow> bucket_key \<Rightarrow> int" where
  "numericCompare (Some a) (Some b) = a - b"
| "numericCompare (Some a) None = - 1"
| "numericCompare None (Some b) = 1"
| "numericCompare None None = 0"

definition make_partition :: "(bucket_key \<times> accumulator) list \<Rightarrow> nat \<times> bucket_key \<Rightarrow> ScalePartition" where
  "make_partition byBucket ik =
     (let acc = (case map_of byBucket (snd ik) of None \<Rightarrow> ([], []) | Some acc \<Rightarrow> acc)
      in \<lparr>sp_id = (snd ik, fst ik), sp_bucketKey = snd ik,
          sp_settlements = js_sort (cmp_by s_settlementId) (fst acc),
          sp_credits = js_sort (cmp_by b_txnId) (snd acc)\<rparr>)"

definition partitionCandidates ::
  "NormalizedSettlement list \<Rightarrow> NormalizedBankTxn list \<Rightarrow> millis \<Rightarrow> ScalePartition list" where
  "partitionCandidates ss cs w =
     (let byBucket = fold (add_credit w) cs (fold (add_settlement w) ss []);
          keys = js_sort numericCompare (map fst byBucket)
      in map (make_partition byBucket) (enumerate 0 keys))"

section \<open>Strategies\<close>

datatype ScaleStrategy = INDEXED | BOUNDED | AMBIGUOUS

record StrategyConfig =
  st_tolerancePaise :: paise
  st_maxHours :: int
  st_boundedClusterMaxItems :: nat

definition buildStrategyConfig :: StrategyConfig where
  "buildStrategyConfig = \<lparr>st_tolerancePaise = SCALE_tolerancePaise, st_maxHours = SCALE_maxHours,
     st_boundedClusterMaxItems = SCALE_boundedClusterMaxItems\<rparr>"

definition totalItems :: "ScalePartition \<Rightarrow> nat" where
  "totalItems p = length (sp_settlements p) + length (sp_credits p)"

definition settlement_sum :: "ScalePartition \<Rightarrow> paise" where
  "settlement_sum p = sum_list (map (\<lambda>s. js_round_div (s_amount s) 1) (sp_settlements p))"

definition selectStrategy :: "ScalePartition \<Rightarrow> StrategyConfig \<Rightarrow> ScaleStrategy" where
  "selectStrategy p cfg =
     (if length (sp_credits p) = 1 \<and> length (sp_settlements p) \<ge> 2
         \<and> \<bar>settlement_sum p - js_round_div (b_amount (sp_credits p ! 0)) 1\<bar> \<le> st_tolerancePaise cfg
      then INDEXED
      else if length (sp_settlements p) = 1 \<and> length (sp_credits p) = 1
         \<and> (let s = sp_settlements p ! 0; c = sp_credits p ! 0
            in \<bar>s_amount s - b_amount c\<bar> \<le> st_tolerancePaise cfg
               \<and> truthy_str (s_utr s) \<and> truthy_str (b_utr c) \<and> s_utr s = b_utr c)
      then INDEXED
      else if totalItems p \<le> st_boundedClusterMaxItems cfg then BOUNDED else AMBIGUOUS)"

definition resolveIndexedOneToOne :: "ScalePartition \<Rightarrow> CardinalityMatch option" where
  "resolveIndexedOneToOne p =
     (let s = sp_settlements p ! 0; c = sp_credits p ! 0
      in Some \<lparr>cm_type = One_One, cm_settlementIds = [s_settlementId s], cm_bankTxnIds = [b_txnId c],
           cm_settlementAmount = js_round_div (s_amount s) 1, cm_bankAmount = js_round_div (b_amount c) 1,
           cm_differencePaise = \<bar>js_round_div (s_amount s) 1 - js_round_div (b_amount c) 1\<bar>,
           cm_confidenceScore = 98, cm_reasonCode = ''EXACT_ONE_TO_ONE_INDEXED'', cm_details = IndexedOneToOne\<rparr>)"

definition resolveIndexedAggregate :: "ScalePartition \<Rightarrow> StrategyConfig \<Rightarrow> CardinalityMatch option" where
  "resolveIndexedAggregate p cfg =
     (let credit = sp_credits p ! 0;
          settlementAmount = settlement_sum p;
          bankAmount = js_round_div (b_amount credit) 1;
          differencePaise = \<bar>settlementAmount - bankAmount\<bar>
      in if differencePaise > st_tolerancePaise cfg then None
         else Some \<lparr>cm_type = N_One, cm_settlementIds = sort (map s_settlementId (sp_settlements p)),
                cm_bankTxnIds = [b_txnId credit], cm_settlementAmount = settlementAmount,
                cm_bankAmount = bankAmount, cm_differencePaise = differencePaise,
                cm_confidenceScore = (if differencePaise = 0 then 96 else 90),
                cm_reasonCode = (if differencePaise = 0 then ''EXACT_MANY_TO_ONE_AGGREGATION''
                                 else ''TOLERATED_MANY_TO_ONE_AGGREGATION''),
                cm_details = IndexedAggregate (length (sp_settlements p))\<rparr>)"

definition asSolverConfig :: "StrategyConfig \<Rightarrow> CardinalitySolverConfig" where
  "asSolverConfig cfg = \<lparr>maxGroupSize = 8, maxCandidates = max (st_boundedClusterMaxItems cfg) 24,
     tolerancePaise = st_tolerancePaise cfg, maxHours = st_maxHours cfg\<rparr>"

text \<open>The loop \<open>for (const x of xs) { const match = f(x); if (match) return match; }\<close>.\<close>

fun first_some :: "('a \<Rightarrow> 'b option) \<Rightarrow> 'a list \<Rightarrow> 'b option" where
  "first_some f [] = None"
| "first_some f (x # xs) = (case f x of None \<Rightarrow> first_some f xs | Some y \<Rightarrow> Some y)"

definition resolveBounded :: "(string \<Rightarrow> string \<Rightarrow> int) \<Rightarrow> ScalePartition \<Rightarrow> StrategyConfig \<Rightarrow> CardinalityMatch option" where
  "resolveBounded localeCompare p cfg =
     (let solverConfig = asSolverConfig cfg
      in case first_some (\<lambda>credit. findSettlementGroupForBank (sp_settlements p) credit solverConfig) (sp_credits p) of
           Some m \<Rightarrow> Some m
         | None \<Rightarrow>
            (case first_some (\<lambda>s. findBankGroupForSettlement localeCompare s (sp_credits p) solverConfig) (sp_settlements p) of
               Some m \<Rightarrow> Some m
             | None \<Rightarrow> findManyToManyMatch (sp_settlements p) (sp_credits p) solverConfig))"

definition option_list :: "'a option \<Rightarrow> 'a list" where
  "option_list m = (case m of None \<Rightarrow> [] | Some x \<Rightarrow> [x])"

definition resolvePartition :: "(string \<Rightarrow> string \<Rightarrow> int) \<Rightarrow> ScalePartition \<Rightarrow> StrategyConfig \<Rightarrow> CardinalityMatch list" where
  "resolvePartition localeCompare p cfg =
     (case selectStrategy p cfg of
        INDEXED \<Rightarrow> if length (sp_settlements p) = 1 \<and> length (sp_credits p) = 1
                    then option_list (resolveIndexedOneToOne p)
                    else option_list (resolveIndexedAggregate p cfg)
      | BOUNDED \<Rightarrow> option_list (resolveBounded localeCompare p cfg)
      | AMBIGUOUS \<Rightarrow> [])"

section \<open>Execution of one partition\<close>

definition countMatched :: "ScalePartition \<Rightarrow> CardinalityMatch list \<Rightarrow> nat" where
  "countMatched p rels =
     (let consumedSettlements = remdups (concat (map cm_settlementIds rels));
          consumedCredits = remdups (concat (map cm_bankTxnIds rels))
      in length (filter (\<lambda>i. i \<in> s_settlementId ` set (sp_settlements p)) consumedSettlements)
         + length (filter (\<lambda>i. i \<in> b_txnId ` set (sp_credits p)) consumedCredits))"

definition executePartition ::
  "(string \<Rightarrow> string \<Rightarrow> int) \<Rightarrow> ScalePartition \<Rightarrow> StrategyConfig \<Rightarrow> CardinalityMatch list \<times> nat" where
  "executePartition localeCompare p cfg =
     (let rels = resolvePartition localeCompare p cfg in (rels, countMatched p rels))"

end
