(* ===== verification/Scale_Correct.thy ===== *)
theory Scale_Correct
  imports Scale
begin

text \<open>
  The scalable path partitions its candidates (every record in exactly one partition), and
  resolving a partition yields at most one relationship, which meets the solvers' contract on the
  partition's own records.
\<close>

section \<open>Buckets\<close>

interpretation bucket_order: js_comparator numericCompare
proof
  fix x y z :: bucket_key
  show "sgn (numericCompare x y) = - sgn (numericCompare y x)"
    by (cases x; cases y) (auto simp: sgn_if)
  show "numericCompare x y \<le> 0 \<Longrightarrow> numericCompare y z \<le> 0 \<Longrightarrow> numericCompare x z \<le> 0"
    by (cases x; cases y; cases z) auto
qed

definition acc_at :: "(bucket_key \<times> accumulator) list \<Rightarrow> bucket_key \<Rightarrow> accumulator" where
  "acc_at m k = (case map_of m k of None \<Rightarrow> ([], []) | Some acc \<Rightarrow> acc)"

lemma accumulate_spec:
  "acc_at (accumulate k f m) k' = (if k' = k then f (acc_at m k) else acc_at m k')"
  "fst ` set (accumulate k f m) = insert k (fst ` set m)"
  "distinct (map fst m) \<Longrightarrow> distinct (map fst (accumulate k f m))"
  by (auto simp: accumulate_def acc_at_def update_conv' dom_update distinct_update)

abbreviation settlement_key :: "millis \<Rightarrow> NormalizedSettlement \<Rightarrow> bucket_key" where
  "settlement_key w s \<equiv> dateBucketKey (s_settledAt s) w"

abbreviation credit_key :: "millis \<Rightarrow> NormalizedBankTxn \<Rightarrow> bucket_key" where
  "credit_key w c \<equiv> dateBucketKey (Some (b_txnDate c)) w"

lemma add_settlements_spec:
  "acc_at (fold (add_settlement w) ss m) k
     = (fst (acc_at m k) @ filter (\<lambda>s. settlement_key w s = k) ss, snd (acc_at m k))"
  "fst ` set (fold (add_settlement w) ss m) = fst ` set m \<union> settlement_key w ` set ss"
  "distinct (map fst m) \<Longrightarrow> distinct (map fst (fold (add_settlement w) ss m))"
  by (induction ss arbitrary: m)
    (auto simp: add_settlement_def accumulate_spec split: prod.splits)

lemma add_credits_spec:
  "acc_at (fold (add_credit w) cs m) k
     = (fst (acc_at m k), snd (acc_at m k) @ filter (\<lambda>c. b_type c = ''CREDIT'' \<and> credit_key w c = k) cs)"
  "fst ` set (fold (add_credit w) cs m) = fst ` set m \<union> credit_key w ` {c \<in> set cs. b_type c = ''CREDIT''}"
  "distinct (map fst m) \<Longrightarrow> distinct (map fst (fold (add_credit w) cs m))"
  by (induction cs arbitrary: m)
    (auto simp: add_credit_def accumulate_spec split: prod.splits)

section \<open>Partitions\<close>

definition bucket_keys :: "NormalizedSettlement list \<Rightarrow> NormalizedBankTxn list \<Rightarrow> millis \<Rightarrow> bucket_key list" where
  "bucket_keys ss cs w = js_sort numericCompare (map fst (fold (add_credit w) cs (fold (add_settlement w) ss [])))"

lemma bucket_keys_spec:
  "distinct (bucket_keys ss cs w)"
  "set (bucket_keys ss cs w) = settlement_key w ` set ss \<union> credit_key w ` {c \<in> set cs. b_type c = ''CREDIT''}"
  using add_credits_spec(2) [of w cs "fold (add_settlement w) ss []"] add_settlements_spec(2) [of w ss "[]"]
    add_credits_spec(3) [of "fold (add_settlement w) ss []" w cs] add_settlements_spec(3) [of "[]" w ss]
  by (simp_all add: bucket_keys_def)

lemma partition_fields:
  "map sp_id (partitionCandidates ss cs w) = map (\<lambda>ik. (snd ik, fst ik)) (enumerate 0 (bucket_keys ss cs w))"
  "map sp_bucketKey (partitionCandidates ss cs w) = bucket_keys ss cs w"
  "map sp_settlements (partitionCandidates ss cs w)
     = map (\<lambda>k. js_sort (cmp_by s_settlementId) (filter (\<lambda>s. settlement_key w s = k) ss)) (bucket_keys ss cs w)"
  "map sp_credits (partitionCandidates ss cs w)
     = map (\<lambda>k. js_sort (cmp_by b_txnId) (filter (\<lambda>c. b_type c = ''CREDIT'' \<and> credit_key w c = k) cs)) (bucket_keys ss cs w)"
proof -
  let ?m = "fold (add_credit w) cs (fold (add_settlement w) ss [])"
  have parts: "partitionCandidates ss cs w = map (make_partition ?m) (enumerate 0 (bucket_keys ss cs w))"
    by (simp add: partitionCandidates_def bucket_keys_def Let_def)
  have acc: "(case map_of ?m k of None \<Rightarrow> ([], []) | Some acc \<Rightarrow> acc)
      = (filter (\<lambda>s. settlement_key w s = k) ss, filter (\<lambda>c. b_type c = ''CREDIT'' \<and> credit_key w c = k) cs)" for k
    using add_credits_spec(1) [of w cs "fold (add_settlement w) ss []" k] add_settlements_spec(1) [of w ss "[]" k]
    by (simp add: acc_at_def)
  have snds: "map (\<lambda>ik. g (snd ik)) (enumerate 0 ks) = map g ks" for g :: "bucket_key \<Rightarrow> 'z" and ks
    by (metis comp_apply list.map_comp list.map_cong0 map_snd_enumerate)
  show "map sp_id (partitionCandidates ss cs w) = map (\<lambda>ik. (snd ik, fst ik)) (enumerate 0 (bucket_keys ss cs w))"
    by (simp add: parts make_partition_def Let_def)
  show "map sp_bucketKey (partitionCandidates ss cs w) = bucket_keys ss cs w"
    using snds [of "\<lambda>k. k"] by (simp add: parts make_partition_def Let_def comp_def)
  show "map sp_settlements (partitionCandidates ss cs w)
     = map (\<lambda>k. js_sort (cmp_by s_settlementId) (filter (\<lambda>s. settlement_key w s = k) ss)) (bucket_keys ss cs w)"
    using snds [of "\<lambda>k. js_sort (cmp_by s_settlementId) (filter (\<lambda>s. settlement_key w s = k) ss)"]
    by (simp add: parts make_partition_def acc Let_def comp_def)
  show "map sp_credits (partitionCandidates ss cs w)
     = map (\<lambda>k. js_sort (cmp_by b_txnId) (filter (\<lambda>c. b_type c = ''CREDIT'' \<and> credit_key w c = k) cs)) (bucket_keys ss cs w)"
    using snds [of "\<lambda>k. js_sort (cmp_by b_txnId) (filter (\<lambda>c. b_type c = ''CREDIT'' \<and> credit_key w c = k) cs)"]
    by (simp add: parts make_partition_def acc Let_def comp_def)
qed

lemma mset_concat_sorts:
  "mset (concat (map (\<lambda>k. js_sort (c k) (f k)) ks)) = mset (concat (map f ks))"
  by (induction ks) auto

lemma partition_cover:
  "mset (concat (map sp_settlements (partitionCandidates ss cs w))) = mset ss"
  "mset (concat (map sp_credits (partitionCandidates ss cs w))) = mset (filter (\<lambda>c. b_type c = ''CREDIT'') cs)"
proof -
  note keys = bucket_keys_spec [of ss cs w]
  have "filter (\<lambda>s. True \<and> settlement_key w s \<in> set (bucket_keys ss cs w)) ss = ss"
    unfolding filter_id_conv by (auto simp: keys(2))
  then show "mset (concat (map sp_settlements (partitionCandidates ss cs w))) = mset ss"
    using mset_concat_filter_keys [OF keys(1), of "\<lambda>_. True" "settlement_key w" ss]
    by (simp add: partition_fields mset_concat_sorts)
  have "filter (\<lambda>c. b_type c = ''CREDIT'' \<and> credit_key w c \<in> set (bucket_keys ss cs w)) cs = filter (\<lambda>c. b_type c = ''CREDIT'') cs"
    by (rule filter_cong) (auto simp: keys(2))
  then show "mset (concat (map sp_credits (partitionCandidates ss cs w))) = mset (filter (\<lambda>c. b_type c = ''CREDIT'') cs)"
    using mset_concat_filter_keys [OF keys(1), of "\<lambda>c. b_type c = ''CREDIT''" "credit_key w" cs]
    by (simp add: partition_fields mset_concat_sorts)
qed

lemma partition_ids_distinct: "distinct (map sp_id (partitionCandidates ss cs w))"
proof -
  have "map fst (map sp_id (partitionCandidates ss cs w)) = bucket_keys ss cs w"
    unfolding partition_fields(1) by (simp add: comp_def)
  then show ?thesis using bucket_keys_spec(1) [of ss cs w] by (metis distinct_map)
qed

section \<open>Resolution\<close>

lemma first_some_Some: "first_some f xs = Some y \<Longrightarrow> \<exists>x \<in> set xs. f x = Some y"
  by (induction xs) (auto split: option.splits)

lemma round_int [simp]: "js_round_div a 1 = a"
  by (simp add: js_round_div_def)

lemma mset_single_sub: "x \<in> set xs \<Longrightarrow> mset [x] \<subseteq># mset xs"
  by simp

lemma asSolverConfig_tol [simp]: "tolerancePaise (asSolverConfig cfg) = st_tolerancePaise cfg"
  by (simp add: asSolverConfig_def)

lemma resolveBounded_resolves:
  assumes "resolveBounded lc p cfg = Some m"
  shows "resolves (st_tolerancePaise cfg) (sp_settlements p) (sp_credits p) m"
proof -
  let ?cfg = "asSolverConfig cfg"
  from assms consider
      c where "c \<in> set (sp_credits p)" "findSettlementGroupForBank (sp_settlements p) c ?cfg = Some m"
    | s where "s \<in> set (sp_settlements p)" "findBankGroupForSettlement lc s (sp_credits p) ?cfg = Some m"
    | "findManyToManyMatch (sp_settlements p) (sp_credits p) ?cfg = Some m"
    by (auto simp: resolveBounded_def Let_def split: option.splits dest!: first_some_Some)
  then show ?thesis
  proof cases
    case 1
    from findSettlementGroupForBank_resolves [OF 1(2), unfolded asSolverConfig_tol] show ?thesis
      by (rule resolves_mono) (use 1(1) in simp_all)
  next
    case 2
    from findBankGroupForSettlement_resolves [OF 2(2), unfolded asSolverConfig_tol] show ?thesis
      by (rule resolves_mono) (use 2(1) in simp_all)
  next
    case 3
    from enumerated.solve_sound [OF 3] show ?thesis by simp
  qed
qed

lemma resolvePartition_resolves:
  assumes "m \<in> set (resolvePartition lc p cfg)"
  shows "resolves (st_tolerancePaise cfg) (sp_settlements p) (sp_credits p) m"
proof (cases "selectStrategy p cfg")
  case BOUNDED
  with assms show ?thesis
    by (auto simp: resolvePartition_def option_list_def intro: resolveBounded_resolves split: option.splits)
next
  case AMBIGUOUS
  with assms show ?thesis by (simp add: resolvePartition_def)
next
  case INDEXED
  then have len: "length (sp_credits p) = 1" "sp_settlements p \<noteq> []"
    by (auto simp: selectStrategy_def split: if_splits)
  then obtain c where c: "sp_credits p = [c]" by (metis One_nat_def length_0_conv length_Suc_conv)
  show ?thesis
  proof (cases "length (sp_settlements p) = 1")
    case True
    then obtain s where s: "sp_settlements p = [s]" by (metis One_nat_def length_0_conv length_Suc_conv)
    from INDEXED have "\<bar>s_amount s - b_amount c\<bar> \<le> st_tolerancePaise cfg"
      by (simp add: selectStrategy_def s c Let_def split: if_splits)
    with assms INDEXED show ?thesis
      by (intro resolvesI [of "[s]" "[c]"])
        (auto simp: resolvePartition_def resolveIndexedOneToOne_def option_list_def s c Let_def)
  next
    case False
    with assms INDEXED have m: "resolveIndexedAggregate p cfg = Some m"
      by (auto simp: resolvePartition_def option_list_def c split: option.splits)
    show ?thesis
      by (rule resolvesI [of "sp_settlements p" "[c]"])
        (use m len in \<open>auto simp: resolveIndexedAggregate_def settlement_sum_def c Let_def split: if_splits\<close>)
  qed
qed

lemma resolvePartition_at_most_one: "length (resolvePartition lc p cfg) \<le> 1"
  by (auto simp: resolvePartition_def option_list_def split: ScaleStrategy.splits option.splits)

section \<open>Properties\<close>

text \<open>
  The partitions of the scalable path cover the candidates exactly: every settlement and every
  credit is in one partition and in one only (counting duplicates), records that are not credits
  are in none, the partition ids are distinct, and the partitions come in ascending order of
  their date buckets.
\<close>

theorem partitions_exact:
  "mset (concat (map sp_settlements (partitionCandidates ss cs w))) = mset ss
   \<and> mset (concat (map sp_credits (partitionCandidates ss cs w))) = mset (filter (\<lambda>c. b_type c = ''CREDIT'') cs)
   \<and> distinct (map sp_id (partitionCandidates ss cs w))
   \<and> sorted_wrt (\<lambda>p q. numericCompare (sp_bucketKey p) (sp_bucketKey q) \<le> 0) (partitionCandidates ss cs w)"
proof -
  have "sorted_wrt (\<lambda>j k. numericCompare j k \<le> 0) (map sp_bucketKey (partitionCandidates ss cs w))"
    unfolding partition_fields(2) bucket_keys_def by (rule bucket_order.sorted_js_sort)
  then show ?thesis
    using partition_cover [of ss cs w] partition_ids_distinct [of ss cs w] by (simp add: sorted_wrt_map)
qed

end
