(* ===== verification/Scale_Durable.thy ===== *)
theory Scale_Durable
  imports Scale_Correct
begin

text \<open>
  Durable execution of the scalable path: the run and partition rows and the operations on them
  (\<open>scale/durable.ts\<close>), and the orchestrator (\<open>scale/scale-run.ts\<close>). The database is a pair of
  row lists. The hash, the collation by which the database orders partition ids, the id it gives
  a new run and the clock readings are parameters; row timestamps and the measured times of the
  report are left out, as nothing reads them. A run's checkpoint is the JSON object it stores:
  the progress fields, the report, or both.
\<close>

section \<open>Rows\<close>

datatype ScaleRunStatus = RUN_RUNNING | RUN_COMPLETED | RUN_FAILED | RUN_DEAD_LETTER

datatype ScalePartitionStatus = PENDING | RUNNING | COMPLETED | FAILED | DEAD_LETTER

datatype StrategyBucket = Indexed | Bounded | Review

record Progress =
  pg_completed :: "partition_id list"
  pg_indexed :: nat
  pg_bounded :: nat
  pg_review :: nat

record ScaleReport =
  rp_partitionCount :: nat
  rp_candidateCount :: nat
  rp_maxClusterSize :: nat
  rp_indexed :: nat
  rp_bounded :: nat
  rp_review :: nat
  rp_retryCount :: nat
  rp_deadLetterCount :: nat
  rp_totalMatched :: nat

record ScaleRunRow =
  sr_id :: ident
  sr_batchId :: ident
  sr_runId :: ident
  sr_idempotencyKey :: string
  sr_status :: ScaleRunStatus
  sr_totalPartitions :: nat
  sr_completedPartitions :: nat
  sr_progressPct :: int
  sr_progress :: "Progress option"
  sr_report :: "ScaleReport option"

record PartitionRow =
  pr_scaleRunId :: ident
  pr_partitionId :: partition_id
  pr_bucketKey :: bucket_key
  pr_status :: ScalePartitionStatus
  pr_idempotencyKey :: string
  pr_settlementIds :: "ident list"
  pr_creditIds :: "ident list"
  pr_attempt :: nat
  pr_retryCount :: nat
  pr_matchedCount :: nat
  pr_lastError :: "string option"
  pr_nextRetryAt :: "millis option"

record ScaleDb =
  scaleRuns :: "ScaleRunRow list"
  scalePartitions :: "PartitionRow list"

definition row_key :: "PartitionRow \<Rightarrow> ident \<times> partition_id" where
  "row_key r = (pr_scaleRunId r, pr_partitionId r)"

definition update_rows :: "(PartitionRow \<Rightarrow> bool) \<Rightarrow> (PartitionRow \<Rightarrow> PartitionRow) \<Rightarrow> ScaleDb \<Rightarrow> ScaleDb" where
  "update_rows P f db = db\<lparr>scalePartitions := map (\<lambda>r. if P r then f r else r) (scalePartitions db)\<rparr>"

definition update_run :: "ident \<Rightarrow> (ScaleRunRow \<Rightarrow> ScaleRunRow) \<Rightarrow> ScaleDb \<Rightarrow> ScaleDb" where
  "update_run rid f db = db\<lparr>scaleRuns := map (\<lambda>r. if sr_id r = rid then f r else r) (scaleRuns db)\<rparr>"

definition find_run :: "ident \<Rightarrow> ScaleDb \<Rightarrow> ScaleRunRow option" where
  "find_run rid db = find (\<lambda>r. sr_id r = rid) (scaleRuns db)"

definition find_partition :: "ident \<Rightarrow> partition_id \<Rightarrow> ScaleDb \<Rightarrow> PartitionRow option" where
  "find_partition rid pid db = find (\<lambda>r. row_key r = (rid, pid)) (scalePartitions db)"

text \<open>The text of a partition id.\<close>

definition key_text :: "bucket_key \<Rightarrow> string" where
  "key_text k = (case k of None \<Rightarrow> ''unknown'' | Some i \<Rightarrow> js_show_int i)"

definition partition_text :: "partition_id \<Rightarrow> string" where
  "partition_text pid = ''p-'' @ key_text (fst pid) @ ''-'' @ js_show_nat (snd pid)"

definition partitionIdempotencyKey :: "(string \<Rightarrow> string) \<Rightarrow> ident \<Rightarrow> partition_id \<Rightarrow> string" where
  "partitionIdempotencyKey sha256Hex runId pid = sha256Hex (runId @ '':'' @ partition_text pid)"

definition runIdempotencyKey :: "(string \<Rightarrow> string) \<Rightarrow> ident \<Rightarrow> string" where
  "runIdempotencyKey sha256Hex runId = sha256Hex runId"

section \<open>Operations\<close>

definition no_progress :: Progress where
  "no_progress = \<lparr>pg_completed = [], pg_indexed = 0, pg_bounded = 0, pg_review = 0\<rparr>"

definition new_partition_row :: "(string \<Rightarrow> string) \<Rightarrow> ident \<Rightarrow> ident \<Rightarrow> ScalePartition \<Rightarrow> PartitionRow" where
  "new_partition_row sha rid runId p =
     \<lparr>pr_scaleRunId = rid, pr_partitionId = sp_id p, pr_bucketKey = sp_bucketKey p, pr_status = PENDING,
      pr_idempotencyKey = partitionIdempotencyKey sha runId (sp_id p),
      pr_settlementIds = map s_settlementId (sp_settlements p), pr_creditIds = map b_txnId (sp_credits p),
      pr_attempt = 0, pr_retryCount = 0, pr_matchedCount = 0, pr_lastError = None, pr_nextRetryAt = None\<rparr>"

definition createScaleRun ::
  "(string \<Rightarrow> string) \<Rightarrow> ident \<Rightarrow> ident \<Rightarrow> ident \<Rightarrow> ScalePartition list \<Rightarrow> ScaleDb \<Rightarrow> (ident \<times> bool) \<times> ScaleDb" where
  "createScaleRun sha newId batchId runId parts db =
     (let key = runIdempotencyKey sha runId
      in case find (\<lambda>r. sr_idempotencyKey r = key) (scaleRuns db) of
           Some existing \<Rightarrow> ((sr_id existing, False), db)
         | None \<Rightarrow>
            ((newId, True),
             db\<lparr>scaleRuns := scaleRuns db @
                  [\<lparr>sr_id = newId, sr_batchId = batchId, sr_runId = runId, sr_idempotencyKey = key,
                    sr_status = RUN_RUNNING, sr_totalPartitions = length parts, sr_completedPartitions = 0,
                    sr_progressPct = 0, sr_progress = Some no_progress, sr_report = None\<rparr>],
                scalePartitions := scalePartitions db @ map (new_partition_row sha newId runId) parts\<rparr>))"

definition by_id :: "(partition_id \<Rightarrow> partition_id \<Rightarrow> int) \<Rightarrow> PartitionRow \<Rightarrow> PartitionRow \<Rightarrow> int" where
  "by_id idOrder a b = idOrder (pr_partitionId a) (pr_partitionId b)"

definition pending_of :: "ident \<Rightarrow> ScaleDb \<Rightarrow> PartitionRow list" where
  "pending_of rid db = filter (\<lambda>r. pr_scaleRunId r = rid \<and> pr_status r = PENDING) (scalePartitions db)"

definition retryable_of :: "ident \<Rightarrow> millis \<Rightarrow> ScaleDb \<Rightarrow> PartitionRow list" where
  "retryable_of rid now db =
     filter (\<lambda>r. pr_scaleRunId r = rid \<and> pr_status r = FAILED
                \<and> (case pr_nextRetryAt r of None \<Rightarrow> False | Some t \<Rightarrow> t \<le> now)) (scalePartitions db)"

definition mark_running :: "bool \<Rightarrow> PartitionRow \<Rightarrow> PartitionRow" where
  "mark_running clearError r =
     r\<lparr>pr_status := RUNNING, pr_attempt := pr_attempt r + 1,
       pr_lastError := (if clearError then None else pr_lastError r)\<rparr>"

definition claim_rows ::
  "bool \<Rightarrow> PartitionRow list \<Rightarrow> ScaleDb \<Rightarrow> (partition_id \<times> nat) list \<times> ScaleDb" where
  "claim_rows clearError rows db =
     (map (\<lambda>r. (pr_partitionId r, pr_attempt r + 1)) rows,
      update_rows (\<lambda>r. row_key r \<in> row_key ` set rows) (mark_running clearError) db)"

definition claimNextPartition ::
  "(partition_id \<Rightarrow> partition_id \<Rightarrow> int) \<Rightarrow> ident \<Rightarrow> millis \<Rightarrow> ScaleDb \<Rightarrow> (partition_id \<times> nat) option \<times> ScaleDb" where
  "claimNextPartition idOrder rid now db =
     (case js_sort (by_id idOrder) (pending_of rid db) of
        r # _ \<Rightarrow> (Some (pr_partitionId r, pr_attempt r + 1), snd (claim_rows False [r] db))
      | [] \<Rightarrow> (case js_sort (by_id idOrder) (retryable_of rid now db) of
                 r # _ \<Rightarrow> (Some (pr_partitionId r, pr_attempt r + 1), snd (claim_rows True [r] db))
               | [] \<Rightarrow> (None, db)))"

definition claimNextPartitionBatch ::
  "(partition_id \<Rightarrow> partition_id \<Rightarrow> int) \<Rightarrow> ident \<Rightarrow> nat \<Rightarrow> millis \<Rightarrow> ScaleDb
     \<Rightarrow> (partition_id \<times> nat) list \<times> ScaleDb" where
  "claimNextPartitionBatch idOrder rid limit now db =
     (let pending = take limit (js_sort (by_id idOrder) (pending_of rid db))
      in if pending \<noteq> [] then claim_rows False pending db
         else let retryable = take limit (js_sort (by_id idOrder) (retryable_of rid now db))
              in if retryable \<noteq> [] then claim_rows True retryable db else ([], db))"

record CompletePartitionInput =
  ci_partitionId :: partition_id
  ci_matchedCount :: nat
  ci_bucket :: "StrategyBucket option"

definition note_completed :: "CompletePartitionInput \<Rightarrow> Progress \<Rightarrow> Progress" where
  "note_completed it pg =
     pg\<lparr>pg_completed := pg_completed pg @ [ci_partitionId it],
        pg_indexed := pg_indexed pg + (if ci_bucket it = Some Indexed then 1 else 0),
        pg_bounded := pg_bounded pg + (if ci_bucket it = Some Bounded then 1 else 0),
        pg_review := pg_review pg + (if ci_bucket it = Some Review then 1 else 0)\<rparr>"

definition progress_of :: "ScaleRunRow \<Rightarrow> Progress" where
  "progress_of run = (case sr_progress run of None \<Rightarrow> no_progress | Some pg \<Rightarrow> pg)"

definition pct :: "nat \<Rightarrow> nat \<Rightarrow> int" where
  "pct ready n = js_round_div (100 * int ready) (int (max n 1))"

definition completePartition :: "ident \<Rightarrow> CompletePartitionInput \<Rightarrow> ScaleDb \<Rightarrow> ScaleDb" where
  "completePartition rid it db =
     (case find_partition rid (ci_partitionId it) db of
        None \<Rightarrow> db
      | Some existing \<Rightarrow>
          if pr_status existing = COMPLETED then db
          else let db1 = update_rows (\<lambda>r. row_key r = row_key existing)
                           (\<lambda>r. r\<lparr>pr_status := COMPLETED, pr_matchedCount := ci_matchedCount it\<rparr>) db
               in case find_run rid db1 of
                    None \<Rightarrow> db1
                  | Some run \<Rightarrow>
                      update_run rid (\<lambda>_. run\<lparr>sr_completedPartitions := sr_completedPartitions run + 1,
                          sr_progressPct := pct (sr_completedPartitions run + 1) (sr_totalPartitions run),
                          sr_progress := Some (note_completed it (progress_of run))\<rparr>) db1)"

definition completePartitionBatch :: "ident \<Rightarrow> CompletePartitionInput list \<Rightarrow> ScaleDb \<Rightarrow> ScaleDb" where
  "completePartitionBatch rid items db =
     (if items = [] then db
      else let db1 = update_rows (\<lambda>r. pr_scaleRunId r = rid \<and> pr_partitionId r \<in> ci_partitionId ` set items
                                    \<and> pr_status r \<noteq> COMPLETED) (\<lambda>r. r\<lparr>pr_status := COMPLETED\<rparr>) db
           in case find_run rid db1 of
                None \<Rightarrow> db1
              | Some run \<Rightarrow>
                  (let completed = sr_completedPartitions run + length items
                   in update_run rid (\<lambda>_. run\<lparr>sr_completedPartitions := completed,
                        sr_progressPct := min 100 (pct completed (sr_totalPartitions run)),
                        sr_progress := Some (fold note_completed items (progress_of run))\<rparr>) db1))"

definition failPartition :: "ident \<Rightarrow> partition_id \<Rightarrow> string \<Rightarrow> millis \<Rightarrow> ScaleDb \<Rightarrow> bool \<times> ScaleDb" where
  "failPartition rid pid err now db =
     (case find_partition rid pid db of
        None \<Rightarrow> (False, db)
      | Some p \<Rightarrow>
          (let retryCount = pr_retryCount p + 1;
               deadLettered = retryCount \<ge> SCALE_maxRetries;
               delayMs = SCALE_backoffBaseMs * SCALE_backoffFactor ^ (retryCount - 1)
           in (deadLettered,
               update_rows (\<lambda>r. row_key r = row_key p)
                 (\<lambda>r. r\<lparr>pr_status := (if deadLettered then DEAD_LETTER else FAILED), pr_retryCount := retryCount,
                        pr_lastError := Some err,
                        pr_nextRetryAt := (if deadLettered then None else Some (now + delayMs))\<rparr>) db)))"

definition rows_of :: "ident \<Rightarrow> ScaleDb \<Rightarrow> PartitionRow list" where
  "rows_of rid db = filter (\<lambda>r. pr_scaleRunId r = rid) (scalePartitions db)"

definition countPartitionsByStatus :: "ident \<Rightarrow> ScalePartitionStatus \<Rightarrow> ScaleDb \<Rightarrow> nat" where
  "countPartitionsByStatus rid st db = length (filter (\<lambda>r. pr_status r = st) (rows_of rid db))"

definition runProgressOr :: "PartitionRow list \<Rightarrow> ScaleRunStatus \<Rightarrow> int" where
  "runProgressOr rows st =
     (if st = RUN_COMPLETED then 100 else pct (length (filter (\<lambda>r. pr_status r = COMPLETED) rows)) (length rows))"

text \<open>The completion record: retries and dead letters of the run; \<open>prisma\<close> throws on a missing run.\<close>

definition finalizeScaleRun ::
  "ident \<Rightarrow> ScaleRunStatus \<Rightarrow> ScaleReport \<Rightarrow> ScaleDb \<Rightarrow> (nat \<times> nat) \<times> ScaleDb" where
  "finalizeScaleRun rid st rep db =
     (let rows = rows_of rid db;
          deadLetterCount = length (filter (\<lambda>r. pr_status r = DEAD_LETTER) rows);
          retryCount = sum_list (map pr_retryCount rows)
      in ((retryCount, deadLetterCount),
          update_run rid (\<lambda>run. run\<lparr>sr_status := st,
             sr_progressPct := (if st = RUN_COMPLETED then 100 else runProgressOr rows st),
             sr_progress := None, sr_report := Some rep\<rparr>) db))"

definition getScaleRun :: "ident \<Rightarrow> ScaleDb \<Rightarrow> (ScaleRunStatus \<times> Progress option \<times> ScaleReport option) option" where
  "getScaleRun rid db = map_option (\<lambda>run. (sr_status run, sr_progress run, sr_report run)) (find_run rid db)"

section \<open>The orchestrator\<close>

record ScalePlan =
  pl_partitions :: "ScalePartition list"
  pl_candidateCount :: nat
  pl_maxClusterSize :: nat

definition planScaleExecution :: "NormalizedSettlement list \<Rightarrow> NormalizedBankTxn list \<Rightarrow> ScalePlan" where
  "planScaleExecution ss cs =
     (let parts = partitionCandidates ss cs SCALE_partitionWindowMs
      in \<lparr>pl_partitions = parts, pl_candidateCount = length ss + length cs,
          pl_maxClusterSize = fold (\<lambda>p acc. max acc (length (sp_settlements p) + length (sp_credits p))) parts 0\<rparr>)"

definition strategyBucket :: "ScalePartition \<Rightarrow> StrategyBucket" where
  "strategyBucket p = (case selectStrategy p buildStrategyConfig of
      INDEXED \<Rightarrow> Indexed | BOUNDED \<Rightarrow> Bounded | AMBIGUOUS \<Rightarrow> Review)"

definition empty_report :: "ScalePlan \<Rightarrow> ScaleReport" where
  "empty_report plan = \<lparr>rp_partitionCount = length (pl_partitions plan), rp_candidateCount = pl_candidateCount plan,
     rp_maxClusterSize = pl_maxClusterSize plan, rp_indexed = 0, rp_bounded = 0, rp_review = 0, rp_retryCount = 0,
     rp_deadLetterCount = 0, rp_totalMatched = 0\<rparr>"

definition note_bucket :: "StrategyBucket \<Rightarrow> nat \<Rightarrow> ScaleReport \<Rightarrow> ScaleReport" where
  "note_bucket b matched rep =
     rep\<lparr>rp_indexed := rp_indexed rep + (if b = Indexed then 1 else 0),
         rp_bounded := rp_bounded rep + (if b = Bounded then 1 else 0),
         rp_review := rp_review rep + (if b = Review then 1 else 0),
         rp_totalMatched := rp_totalMatched rep + matched\<rparr>"

type_synonym work = "ScaleReport \<times> CardinalityMatch list"

text \<open>The body of the loop over a claimed batch.\<close>

fun execute_claimed ::
  "(string \<Rightarrow> string \<Rightarrow> int) \<Rightarrow> (partition_id \<rightharpoonup> ScalePartition) \<Rightarrow> (partition_id \<times> nat) list
     \<Rightarrow> work \<Rightarrow> work \<times> CompletePartitionInput list" where
  "execute_claimed lc partitionById [] w = (w, [])"
| "execute_claimed lc partitionById (claimed # rest) (rep, rels) =
     (case partitionById (fst claimed) of
        None \<Rightarrow> execute_claimed lc partitionById rest (rep\<lparr>rp_retryCount := rp_retryCount rep + 1\<rparr>, rels)
      | Some p \<Rightarrow>
          (let execution = executePartition lc p buildStrategyConfig;
               bucket = strategyBucket p;
               (w', items) = execute_claimed lc partitionById rest
                   (note_bucket bucket (snd execution) rep, rels @ fst execution)
           in (w', \<lparr>ci_partitionId = fst claimed, ci_matchedCount = snd execution, ci_bucket = Some bucket\<rparr> # items)))"

definition BATCH_SIZE :: nat where "BATCH_SIZE = 250"

definition claimable :: "PartitionRow \<Rightarrow> bool" where
  "claimable r \<longleftrightarrow> pr_status r = PENDING \<or> pr_status r = FAILED"

definition claimable_count :: "ScaleDb \<Rightarrow> nat" where
  "claimable_count db = length (filter claimable (scalePartitions db))"

lemma length_filter_map_le:
  "(\<And>x. P (f x) \<Longrightarrow> P x) \<Longrightarrow> length (filter P (map f xs)) \<le> length (filter P xs)"
  by (induction xs) (auto intro: le_SucI)

lemma length_filter_map_less:
  assumes "\<And>x. P (f x) \<Longrightarrow> P x" "x \<in> set xs" "P x" "\<not> P (f x)"
  shows "length (filter P (map f xs)) < length (filter P xs)"
  using assms(2)
proof (induction xs)
  case (Cons y ys)
  show ?case
  proof (cases "x = y")
    case True
    with assms(3,4) length_filter_map_le [of P f ys, OF assms(1)] show ?thesis by (simp add: le_imp_less_Suc)
  next
    case False
    with Cons have "length (filter P (map f ys)) < length (filter P ys)" by simp
    with assms(1) [of y] show ?thesis by auto
  qed
qed simp

lemma completePartitionBatch_rows:
  "scalePartitions (completePartitionBatch rid items db)
     = map (\<lambda>r. if pr_scaleRunId r = rid \<and> pr_partitionId r \<in> ci_partitionId ` set items \<and> pr_status r \<noteq> COMPLETED
              then r\<lparr>pr_status := COMPLETED\<rparr> else r) (scalePartitions db)"
  by (auto simp: completePartitionBatch_def Let_def update_rows_def update_run_def split: option.splits)

lemma complete_claimable: "claimable_count (completePartitionBatch rid items db) \<le> claimable_count db"
  unfolding claimable_count_def completePartitionBatch_rows
  by (rule length_filter_map_le) (simp add: claimable_def split: if_splits)

lemma claim_rows_claimable:
  assumes "rows \<noteq> []" "\<And>r. r \<in> set rows \<Longrightarrow> r \<in> set (scalePartitions db) \<and> claimable r"
  shows "claimable_count (snd (claim_rows b rows db)) < claimable_count db"
proof -
  from assms obtain r where r: "r \<in> set rows" "r \<in> set (scalePartitions db)" "claimable r"
    by (cases rows) auto
  let ?f = "\<lambda>r. if row_key r \<in> row_key ` set rows then mark_running b r else r"
  have "length (filter claimable (map ?f (scalePartitions db))) < length (filter claimable (scalePartitions db))"
    by (rule length_filter_map_less [of _ _ r])
      (use r in \<open>auto simp: claimable_def mark_running_def split: if_splits\<close>)
  then show ?thesis by (simp add: claimable_count_def claim_rows_def update_rows_def)
qed

lemma claim_claimable:
  "claimable_count (snd (claimNextPartitionBatch idOrder rid limit now db)) < claimable_count db
   \<or> claimNextPartitionBatch idOrder rid limit now db = ([], db)"
proof -
  have pend: "r \<in> set (scalePartitions db) \<and> claimable r"
    if "r \<in> set (take limit (js_sort (by_id idOrder) (pending_of rid db)))" for r
    using in_set_takeD [OF that] by (auto simp: pending_of_def claimable_def)
  have retry: "r \<in> set (scalePartitions db) \<and> claimable r"
    if "r \<in> set (take limit (js_sort (by_id idOrder) (retryable_of rid now db)))" for r
    using in_set_takeD [OF that] by (auto simp: retryable_of_def claimable_def)
  show ?thesis
    using claim_rows_claimable [OF _ pend] claim_rows_claimable [OF _ retry]
    unfolding claimNextPartitionBatch_def Let_def by auto
qed

text \<open>
  The inner \<open>while\<close> loop: \<open>n\<close> counts the clock readings. It ends because every non-empty claim
  takes a row out of the claimable states.
\<close>

function claim_loop ::
  "(string \<Rightarrow> string \<Rightarrow> int) \<Rightarrow> (partition_id \<Rightarrow> partition_id \<Rightarrow> int) \<Rightarrow> (nat \<Rightarrow> millis) \<Rightarrow> ident
     \<Rightarrow> (partition_id \<rightharpoonup> ScalePartition) \<Rightarrow> nat \<Rightarrow> (partition_id \<times> nat) list \<Rightarrow> ScaleDb \<Rightarrow> work
     \<Rightarrow> nat \<times> ScaleDb \<times> work" where
  "claim_loop lc idOrder clock rid byId n claimed db w =
     (if claimed = [] then (n, db, w)
      else let (w', items) = execute_claimed lc byId claimed w;
               db1 = completePartitionBatch rid items db;
               nxt = claimNextPartitionBatch idOrder rid BATCH_SIZE (clock n) db1
           in claim_loop lc idOrder clock rid byId (Suc n) (fst nxt) (snd nxt) w')"
  by pat_completeness auto
termination
proof (relation "measure (\<lambda>(lc, idOrder, clock, rid, byId, n, claimed, db, w).
    claimable_count db + (if claimed = [] then 0 else 1))", goal_cases)
  case 1
  show ?case by simp
next
  case (2 lc idOrder clock rid byId n claimed db w x w' items db1 nxt)
  have "claimable_count db1 \<le> claimable_count db" unfolding 2(4) by (rule complete_claimable)
  moreover have "claimable_count (snd nxt) < claimable_count db1 \<or> nxt = ([], db1)"
    unfolding 2(5) by (rule claim_claimable)
  ultimately show ?case using 2(1) by auto
qed

declare claim_loop.simps [simp del]

fun sweeps ::
  "nat \<Rightarrow> (string \<Rightarrow> string \<Rightarrow> int) \<Rightarrow> (partition_id \<Rightarrow> partition_id \<Rightarrow> int) \<Rightarrow> (nat \<Rightarrow> millis) \<Rightarrow> ident
     \<Rightarrow> (partition_id \<rightharpoonup> ScalePartition) \<Rightarrow> nat \<Rightarrow> ScaleDb \<Rightarrow> work \<Rightarrow> bool \<times> ScaleDb \<times> work" where
  "sweeps 0 lc idOrder clock rid byId n db w = (False, db, w)"
| "sweeps (Suc k) lc idOrder clock rid byId n db w =
     (let c = claimNextPartitionBatch idOrder rid BATCH_SIZE (clock n) db
      in if fst c = [] then (False, snd c, w)
         else let (n', db', w') = claim_loop lc idOrder clock rid byId (Suc n) (fst c) (snd c) w
              in if countPartitionsByStatus rid DEAD_LETTER db' > 0 then (True, db', w')
                 else sweeps k lc idOrder clock rid byId n' db' w')"

definition runScalableCardinality ::
  "(string \<Rightarrow> string \<Rightarrow> int) \<Rightarrow> (partition_id \<Rightarrow> partition_id \<Rightarrow> int) \<Rightarrow> (string \<Rightarrow> string) \<Rightarrow> (nat \<Rightarrow> millis)
     \<Rightarrow> ident \<Rightarrow> ident \<Rightarrow> ident \<Rightarrow> NormalizedSettlement list \<Rightarrow> NormalizedBankTxn list \<Rightarrow> ScaleDb
     \<Rightarrow> (CardinalityMatch list \<times> ScaleReport) \<times> ScaleDb" where
  "runScalableCardinality lc idOrder sha clock newId batchId runId ss cs db =
     (let plan = planScaleExecution ss cs
      in if pl_partitions plan = [] then (([], empty_report plan), db)
         else let byId = map_of (map (\<lambda>p. (sp_id p, p)) (pl_partitions plan));
                  ((rid, created), db1) = createScaleRun sha newId batchId runId (pl_partitions plan) db;
                  (deadLettered, db2, rep, rels) = sweeps SCALE_maxRetries lc idOrder clock rid byId 0 db1 (empty_report plan, []);
                  ((retries, deadLetters), db3) =
                    finalizeScaleRun rid (if deadLettered then RUN_DEAD_LETTER else RUN_COMPLETED) rep db2
              in ((if deadLettered then [] else rels,
                   rep\<lparr>rp_retryCount := retries, rp_deadLetterCount := deadLetters\<rparr>), db3))"

end
