(* ===== verification/Scale_Durable_Correct.thy ===== *)
theory Scale_Durable_Correct
  imports Scale_Durable
begin

text \<open>
  The durable run executes every partition exactly once: a fresh run ends with every partition
  row completed and with the relationships of every partition, no matter how the database orders
  the ids and what the clock reads. Re-running a completed run finds nothing to claim.
\<close>

section \<open>Rows of a run\<close>

lemma pending_of_rows: "pending_of rid db = filter (\<lambda>r. pr_status r = PENDING) (rows_of rid db)"
  by (simp add: pending_of_def rows_of_def conj_commute)

lemma retryable_of_rows:
  "set (retryable_of rid now db) \<subseteq> {r \<in> set (rows_of rid db). pr_status r = FAILED}"
  by (auto simp: retryable_of_def rows_of_def)

lemma filter_map_invariant:
  "(\<And>x. P (f x) = P x) \<Longrightarrow> filter P (map f xs) = map f (filter P xs)"
  by (induction xs) auto

lemma claim_rows_of:
  assumes "\<And>r. r \<in> set rows \<Longrightarrow> pr_scaleRunId r = rid"
  shows "rows_of rid (snd (claim_rows b rows db))
    = map (\<lambda>r. if pr_partitionId r \<in> pr_partitionId ` set rows then mark_running b r else r) (rows_of rid db)"
proof -
  let ?f = "\<lambda>r. if row_key r \<in> row_key ` set rows then mark_running b r else r"
  have "rows_of rid (snd (claim_rows b rows db)) = map ?f (rows_of rid db)"
    unfolding rows_of_def claim_rows_def update_rows_def
    by (simp, rule filter_map_invariant) (simp add: mark_running_def)
  also have "\<dots> = map (\<lambda>r. if pr_partitionId r \<in> pr_partitionId ` set rows then mark_running b r else r) (rows_of rid db)"
    using assms by (intro map_cong refl) (auto simp: rows_of_def row_key_def image_iff)
  finally show ?thesis .
qed

lemma complete_rows_of:
  "rows_of rid (completePartitionBatch rid items db)
    = map (\<lambda>r. if pr_partitionId r \<in> ci_partitionId ` set items \<and> pr_status r \<noteq> COMPLETED
             then r\<lparr>pr_status := COMPLETED\<rparr> else r) (rows_of rid db)"
proof -
  let ?f = "\<lambda>r. if pr_scaleRunId r = rid \<and> pr_partitionId r \<in> ci_partitionId ` set items \<and> pr_status r \<noteq> COMPLETED
    then r\<lparr>pr_status := COMPLETED\<rparr> else r"
  have "rows_of rid (completePartitionBatch rid items db) = map ?f (rows_of rid db)"
    unfolding rows_of_def completePartitionBatch_rows by (rule filter_map_invariant) simp
  then show ?thesis by (auto simp: rows_of_def)
qed

lemma mset_split_by_key:
  assumes "distinct (map f xs)" "mset ys \<subseteq># mset xs"
  shows "mset xs = mset ys + mset (filter (\<lambda>x. f x \<notin> f ` set ys) xs)"
proof -
  have "set ys \<subseteq> set xs" by (rule mset_sub_set [OF assms(2)])
  then have "set ys = set (filter (\<lambda>x. f x \<in> f ` set ys) xs)"
    using assms(1) by (auto simp: distinct_map dest: inj_onD)
  moreover have "distinct ys" using mset_sub_distinct [OF assms(2), of "\<lambda>x. x"] assms(1) by (simp add: distinct_map)
  ultimately have "mset ys = mset (filter (\<lambda>x. f x \<in> f ` set ys) xs)"
    using assms(1) set_eq_iff_mset_eq_distinct [of ys "filter (\<lambda>x. f x \<in> f ` set ys) xs"]
    by (simp add: distinct_map del: mset_filter set_filter)
  moreover have "mset xs = mset (filter (\<lambda>x. f x \<in> f ` set ys) xs) + mset (filter (\<lambda>x. f x \<notin> f ` set ys) xs)"
    unfolding mset_filter by (rule multiset_partition)
  ultimately show ?thesis by (simp only:)
qed

section \<open>The invariant of the orchestrator\<close>

text \<open>
  The rows of the run have distinct partition ids, all known to the plan; each is pending,
  completed, or running and in the claimed batch.
\<close>

definition run_inv :: "ident \<Rightarrow> (partition_id \<rightharpoonup> ScalePartition) \<Rightarrow> (partition_id \<times> nat) list \<Rightarrow> ScaleDb \<Rightarrow> bool" where
  "run_inv rid byId claimed db \<longleftrightarrow>
     distinct (map pr_partitionId (rows_of rid db)) \<and> fst ` set claimed \<subseteq> dom byId
     \<and> (\<forall>r \<in> set (rows_of rid db). pr_partitionId r \<in> dom byId
          \<and> (pr_status r = PENDING \<and> pr_partitionId r \<notin> fst ` set claimed \<or> pr_status r = COMPLETED
             \<or> pr_status r = RUNNING \<and> pr_partitionId r \<in> fst ` set claimed))"

definition work_of :: "(string \<Rightarrow> string \<Rightarrow> int) \<Rightarrow> (partition_id \<rightharpoonup> ScalePartition) \<Rightarrow> partition_id list \<Rightarrow> CardinalityMatch multiset" where
  "work_of lc byId pids =
     mset (concat (map (\<lambda>pid. resolvePartition lc (the (byId pid)) buildStrategyConfig) pids))"

lemma work_of_append: "work_of lc byId (xs @ ys) = work_of lc byId xs + work_of lc byId ys"
  by (simp add: work_of_def)

lemma work_of_mset: "mset xs = mset ys \<Longrightarrow> work_of lc byId xs = work_of lc byId ys"
  unfolding work_of_def by (rule mset_concat_cong)

lemma execute_claimed_both:
  "fst ` set claimed \<subseteq> dom byId \<Longrightarrow>
     mset (snd (fst (execute_claimed lc byId claimed (rep, rels)))) = mset rels + work_of lc byId (map fst claimed)
     \<and> map ci_partitionId (snd (execute_claimed lc byId claimed (rep, rels))) = map fst claimed"
proof (induction claimed arbitrary: rep rels)
  case Nil
  then show ?case by (simp add: work_of_def)
next
  case (Cons c claimed)
  then obtain p where p: "byId (fst c) = Some p" by auto
  have "fst ` set claimed \<subseteq> dom byId" using Cons.prems by simp
  from Cons.IH [OF this] p show ?case
    by (simp add: work_of_def executePartition_def Let_def case_prod_unfold)
qed

lemmas execute_claimed_spec = execute_claimed_both [THEN conjunct1] execute_claimed_both [THEN conjunct2]

definition pending_ids :: "ident \<Rightarrow> ScaleDb \<Rightarrow> partition_id list" where
  "pending_ids rid db = map pr_partitionId (pending_of rid db)"

lemma pending_after_marks:
  "filter (\<lambda>r. pr_status r = PENDING) (map (\<lambda>r. if Q (pr_partitionId r) then mark_running b r else r) xs)
     = filter (\<lambda>r. \<not> Q (pr_partitionId r)) (filter (\<lambda>r. pr_status r = PENDING) xs)"
  by (induction xs) (auto simp: mark_running_def)

lemma claim_spec:
  fixes idOrder :: "partition_id \<Rightarrow> partition_id \<Rightarrow> int" and now :: millis and rid :: ident and db :: ScaleDb
  assumes "run_inv rid byId [] db"
  defines "nxt \<equiv> claimNextPartitionBatch idOrder rid BATCH_SIZE now db"
  shows "run_inv rid byId (fst nxt) (snd nxt)"
    and "work_of lc byId (pending_ids rid db)
      = work_of lc byId (map fst (fst nxt)) + work_of lc byId (pending_ids rid (snd nxt))"
    and "map pr_partitionId (rows_of rid (snd nxt)) = map pr_partitionId (rows_of rid db)"
    and "fst nxt = [] \<Longrightarrow> pending_of rid (snd nxt) = []"
    and "pending_of rid db = [] \<Longrightarrow> nxt = ([], db)"
proof -
  let ?pending = "take BATCH_SIZE (js_sort (by_id idOrder) (pending_of rid db))"
  have no_failed: "retryable_of rid now db = []"
  proof -
    have "{r \<in> set (rows_of rid db). pr_status r = FAILED} = {}"
      using assms(1) by (force simp: run_inv_def)
    with retryable_of_rows [of rid now db] show ?thesis by simp
  qed
  have sub: "mset ?pending \<subseteq># mset (pending_of rid db)" by (rule mset_take_sort_sub)
  have rid: "pr_scaleRunId r = rid" if "r \<in> set ?pending" for r
    using in_set_takeD [OF that] by (simp add: pending_of_def)
  have dist: "distinct (map pr_partitionId (pending_of rid db))"
    using assms(1) unfolding run_inv_def pending_of_rows by (simp add: distinct_map_filter)
  note rows' = claim_rows_of [OF rid, of ?pending False db, simplified]
  have "run_inv rid byId (fst nxt) (snd nxt)
    \<and> work_of lc byId (pending_ids rid db)
        = work_of lc byId (map fst (fst nxt)) + work_of lc byId (pending_ids rid (snd nxt))
    \<and> map pr_partitionId (rows_of rid (snd nxt)) = map pr_partitionId (rows_of rid db)
    \<and> (fst nxt = [] \<longrightarrow> pending_of rid (snd nxt) = []) \<and> (pending_of rid db = [] \<longrightarrow> nxt = ([], db))"
  proof (cases "?pending = []")
    case True
    then have "pending_of rid db = []" by (auto simp: BATCH_SIZE_def dest: arg_cong [where f = length])
    moreover from this no_failed have "nxt = ([], db)"
      by (simp add: nxt_def claimNextPartitionBatch_def js_sort_def)
    ultimately show ?thesis using assms(1) by (simp add: pending_ids_def work_of_def)
  next
    case False
    then have nxt: "nxt = claim_rows False ?pending db"
      by (simp add: nxt_def claimNextPartitionBatch_def Let_def)
    have fst_nxt: "map fst (fst nxt) = map pr_partitionId ?pending" by (simp add: nxt claim_rows_def comp_def)
    have rows: "rows_of rid (snd nxt)
        = map (\<lambda>r. if pr_partitionId r \<in> fst ` set (fst nxt) then mark_running False r else r) (rows_of rid db)"
    proof -
      have "fst ` set (fst nxt) = pr_partitionId ` set ?pending"
        using arg_cong [OF fst_nxt, of set] by (simp only: set_map)
      then show ?thesis using claim_rows_of [of ?pending rid False db, OF rid] unfolding nxt by (simp only:)
    qed
    have ids: "map pr_partitionId (rows_of rid (snd nxt)) = map pr_partitionId (rows_of rid db)"
      unfolding rows by (simp add: mark_running_def)
    have claimed_ids: "fst ` set (fst nxt) = pr_partitionId ` set ?pending"
      using arg_cong [OF fst_nxt, of set] by (simp only: set_map)
    have "set ?pending \<subseteq> set (rows_of rid db)"
      using mset_sub_set [OF sub] by (auto simp: pending_of_rows)
    then have "fst ` set (fst nxt) \<subseteq> dom byId"
      using assms(1) unfolding claimed_ids run_inv_def by blast
    then have inv: "run_inv rid byId (fst nxt) (snd nxt)"
      using assms(1) unfolding run_inv_def ids unfolding rows by (auto simp: mark_running_def intro: rev_image_eqI)
    have "pending_of rid (snd nxt) = filter (\<lambda>r. pr_partitionId r \<notin> pr_partitionId ` set ?pending) (pending_of rid db)"
      using pending_after_marks [of "\<lambda>pid. pid \<in> pr_partitionId ` set ?pending" False "rows_of rid db"]
      unfolding pending_of_rows [of rid "snd nxt"] rows claimed_ids by (simp only: pending_of_rows [of rid db, symmetric])
    with mset_split_by_key [OF dist sub]
    have "mset (pending_of rid db) = mset (?pending @ pending_of rid (snd nxt))" by simp
    then have "mset (pending_ids rid db) = mset (map fst (fst nxt) @ pending_ids rid (snd nxt))"
      unfolding pending_ids_def fst_nxt map_append [symmetric] by (simp only: mset_map)
    then have "work_of lc byId (pending_ids rid db) = work_of lc byId (map fst (fst nxt)) + work_of lc byId (pending_ids rid (snd nxt))"
      unfolding work_of_append [symmetric] by (rule work_of_mset)
    moreover have "fst nxt \<noteq> []" "pending_of rid db \<noteq> []"
      using False by (auto simp: nxt claim_rows_def js_sort_def)
    ultimately show ?thesis using inv ids by blast
  qed
  then show "run_inv rid byId (fst nxt) (snd nxt)"
    "work_of lc byId (pending_ids rid db)
      = work_of lc byId (map fst (fst nxt)) + work_of lc byId (pending_ids rid (snd nxt))"
    "map pr_partitionId (rows_of rid (snd nxt)) = map pr_partitionId (rows_of rid db)"
    "fst nxt = [] \<Longrightarrow> pending_of rid (snd nxt) = []" "pending_of rid db = [] \<Longrightarrow> nxt = ([], db)"
    by blast+
qed

lemma complete_spec:
  assumes "run_inv rid byId claimed db" "ci_partitionId ` set items = fst ` set claimed"
  shows "run_inv rid byId [] (completePartitionBatch rid items db)"
    "map pr_partitionId (rows_of rid (completePartitionBatch rid items db)) = map pr_partitionId (rows_of rid db)"
proof -
  show ids: "map pr_partitionId (rows_of rid (completePartitionBatch rid items db)) = map pr_partitionId (rows_of rid db)"
    by (simp add: complete_rows_of)
  show "run_inv rid byId [] (completePartitionBatch rid items db)"
    using assms(1) unfolding run_inv_def ids unfolding complete_rows_of assms(2) by auto
qed

lemma filter_map_untouched:
  "(\<And>x. x \<in> set xs \<Longrightarrow> P x \<Longrightarrow> f x = x) \<Longrightarrow> (\<And>x. x \<in> set xs \<Longrightarrow> \<not> P x \<Longrightarrow> \<not> P (f x)) \<Longrightarrow>
     filter P (map f xs) = filter P xs"
  by (induction xs) auto

lemma complete_pending:
  assumes "run_inv rid byId claimed db" "ci_partitionId ` set items = fst ` set claimed"
  shows "pending_of rid (completePartitionBatch rid items db) = pending_of rid db"
  unfolding pending_of_rows complete_rows_of assms(2)
  by (rule filter_map_untouched) (use assms(1) in \<open>auto simp: run_inv_def\<close>)

lemma claim_loop_spec:
  "run_inv rid byId claimed db \<Longrightarrow> (claimed = [] \<Longrightarrow> pending_of rid db = []) \<Longrightarrow>
     claim_loop lc idOrder clock rid byId n claimed db w = (n', db', w') \<Longrightarrow>
     run_inv rid byId [] db' \<and> pending_of rid db' = []
     \<and> map pr_partitionId (rows_of rid db') = map pr_partitionId (rows_of rid db)
     \<and> mset (snd w') = mset (snd w) + work_of lc byId (map fst claimed) + work_of lc byId (pending_ids rid db)"
proof (induction lc idOrder clock rid byId n claimed db w rule: claim_loop.induct)
  case (1 lc idOrder clock rid byId n claimed db w)
  show ?case
  proof (cases "claimed = []")
    case True
    with "1.prems" show ?thesis by (simp add: claim_loop.simps [of _ _ _ _ _ _ "[]"] work_of_def pending_ids_def)
  next
    case False
    obtain w1 items where ex: "execute_claimed lc byId claimed w = (w1, items)" by fastforce
    define db1 where "db1 = completePartitionBatch rid items db"
    define nxt where "nxt = claimNextPartitionBatch idOrder rid BATCH_SIZE (clock n) db1"
    have dom: "fst ` set claimed \<subseteq> dom byId" using "1.prems"(1) by (simp add: run_inv_def)
    have its: "map ci_partitionId items = map fst claimed"
      and w1: "mset (snd w1) = mset (snd w) + work_of lc byId (map fst claimed)"
      using execute_claimed_both [OF dom, of lc "fst w" "snd w"] ex by simp_all
    have items: "ci_partitionId ` set items = fst ` set claimed" using arg_cong [OF its, of set] by (simp only: set_map)
    note comp = complete_spec [OF "1.prems"(1) items, folded db1_def]
    have pend: "pending_ids rid db1 = pending_ids rid db"
      unfolding pending_ids_def db1_def complete_pending [OF "1.prems"(1) items] ..
    note claim = claim_spec [OF comp(1), where idOrder = idOrder and now = "clock n", folded nxt_def]
    have step: "claim_loop lc idOrder clock rid byId (Suc n) (fst nxt) (snd nxt) w1 = (n', db', w')"
      using "1.prems"(3) False ex
      by (simp add: claim_loop.simps [of _ _ _ _ _ _ claimed] Let_def db1_def nxt_def)
    from "1.IH" [OF False ex [symmetric] refl db1_def nxt_def claim(1) claim(4) step]
    show ?thesis using claim(2) [of lc] claim(3) comp(2) w1 pend by simp
  qed
qed

lemma sweeps_done:
  assumes "run_inv rid byId [] db" "pending_of rid db = []"
  shows "sweeps k lc idOrder clock rid byId n db w = (False, db, w)"
  using claim_spec(5) [OF assms(1), where idOrder = idOrder and now = "clock n"] assms(2)
  by (cases k) (simp_all add: Let_def)

lemma no_dead_letters:
  assumes "run_inv rid byId [] db"
  shows "countPartitionsByStatus rid DEAD_LETTER db = 0"
  using assms by (force simp: countPartitionsByStatus_def run_inv_def filter_empty_conv)

lemma sweeps_spec:
  assumes "run_inv rid byId [] db" "sweeps (Suc k) lc idOrder clock rid byId n db w = (dead, db', w')"
  shows "\<not> dead \<and> run_inv rid byId [] db' \<and> pending_of rid db' = []
    \<and> map pr_partitionId (rows_of rid db') = map pr_partitionId (rows_of rid db)
    \<and> mset (snd w') = mset (snd w) + work_of lc byId (pending_ids rid db)"
proof (cases "pending_of rid db = []")
  case True
  with sweeps_done [OF assms(1) True] assms show ?thesis by (simp add: pending_ids_def work_of_def)
next
  case False
  let ?nxt = "claimNextPartitionBatch idOrder rid BATCH_SIZE (clock n) db"
  note claim = claim_spec [OF assms(1), where idOrder = idOrder and now = "clock n"]
  obtain n1 db1 w1 where loop: "claim_loop lc idOrder clock rid byId (Suc n) (fst ?nxt) (snd ?nxt) w = (n1, db1, w1)"
    using prod_cases3 by blast
  note spec = claim_loop_spec [OF claim(1) claim(4) loop]
  show ?thesis
  proof (cases "fst ?nxt = []")
    case True
    with claim(4) assms(2) claim show ?thesis by (simp add: Let_def work_of_def pending_ids_def)
  next
    case claimed: False
    from spec have "sweeps k lc idOrder clock rid byId n1 db1 w1 = (False, db1, w1)" by (intro sweeps_done) simp_all
    with assms(2) claimed loop no_dead_letters [OF conjunct1 [OF spec]] have "(dead, db', w') = (False, db1, w1)"
      by (simp add: Let_def)
    with spec claim(2) [of lc] claim(3) show ?thesis by (simp add: add.assoc)
  qed
qed

section \<open>Properties\<close>

lemma map_of_partitions:
  assumes "distinct (map sp_id parts)" "p \<in> set parts"
  shows "map_of (map (\<lambda>p. (sp_id p, p)) parts) (sp_id p) = Some p"
  using assms by (intro map_of_is_SomeI) (auto simp: comp_def)

lemma find_None_forall: "find P xs = None \<longleftrightarrow> (\<forall>x \<in> set xs. \<not> P x)"
  by (auto simp: find_None_iff)

definition fresh_run :: "(string \<Rightarrow> string) \<Rightarrow> ident \<Rightarrow> ident \<Rightarrow> ScaleDb \<Rightarrow> bool" where
  "fresh_run sha newId runId db \<longleftrightarrow>
     newId \<notin> sr_id ` set (scaleRuns db) \<and> newId \<notin> pr_scaleRunId ` set (scalePartitions db)
     \<and> runIdempotencyKey sha runId \<notin> sr_idempotencyKey ` set (scaleRuns db)"

lemma createScaleRun_fresh:
  assumes "fresh_run sha newId runId db" "distinct (map sp_id parts)"
  defines "byId \<equiv> map_of (map (\<lambda>p. (sp_id p, p)) parts)"
  shows "fst (createScaleRun sha newId batchId runId parts db) = (newId, True)"
    and "run_inv newId byId [] (snd (createScaleRun sha newId batchId runId parts db))"
    and "pending_ids newId (snd (createScaleRun sha newId batchId runId parts db)) = map sp_id parts"
    and "map pr_partitionId (rows_of newId (snd (createScaleRun sha newId batchId runId parts db))) = map sp_id parts"
proof -
  have none: "find (\<lambda>r. sr_idempotencyKey r = runIdempotencyKey sha runId) (scaleRuns db) = None"
    using assms(1) unfolding fresh_run_def find_None_forall by (metis imageI)
  then show "fst (createScaleRun sha newId batchId runId parts db) = (newId, True)"
    by (simp add: createScaleRun_def Let_def)
  have "filter (\<lambda>r. pr_scaleRunId r = newId) (scalePartitions db) = []"
    using assms(1) by (auto simp: fresh_run_def filter_empty_conv)
  then have rows: "rows_of newId (snd (createScaleRun sha newId batchId runId parts db))
      = map (new_partition_row sha newId runId) parts"
    by (simp add: createScaleRun_def Let_def none rows_of_def filter_map comp_def new_partition_row_def)
  show "pending_ids newId (snd (createScaleRun sha newId batchId runId parts db)) = map sp_id parts"
    unfolding pending_ids_def pending_of_rows rows by (simp add: filter_map comp_def new_partition_row_def)
  show "map pr_partitionId (rows_of newId (snd (createScaleRun sha newId batchId runId parts db))) = map sp_id parts"
    unfolding rows by (simp add: new_partition_row_def)
  show "run_inv newId byId [] (snd (createScaleRun sha newId batchId runId parts db))"
  proof -
    have "sp_id p \<in> dom byId" if "p \<in> set parts" for p
      using map_of_partitions [OF assms(2) that] by (auto simp: byId_def)
    then show ?thesis unfolding run_inv_def rows using assms(2) by (auto simp: comp_def new_partition_row_def)
  qed
qed

lemma work_of_plan:
  assumes "distinct (map sp_id parts)"
  shows "work_of lc (map_of (map (\<lambda>p. (sp_id p, p)) parts)) (map sp_id parts)
    = mset (concat (map (\<lambda>p. resolvePartition lc p buildStrategyConfig) parts))"
proof -
  have "map (\<lambda>pid. resolvePartition lc (the (map_of (map (\<lambda>p. (sp_id p, p)) parts) pid)) buildStrategyConfig) (map sp_id parts)
      = map (\<lambda>p. resolvePartition lc p buildStrategyConfig) parts"
    using map_of_partitions [OF assms] by simp
  then show ?thesis by (simp only: work_of_def)
qed

lemma finalize_rows [simp]: "rows_of rid (snd (finalizeScaleRun rid' st rep db)) = rows_of rid db"
  by (simp add: finalizeScaleRun_def Let_def update_run_def rows_of_def)

lemma all_completed:
  assumes "run_inv rid byId [] db" "pending_of rid db = []"
  shows "pr_status ` set (rows_of rid db) \<subseteq> {COMPLETED}"
  using assms by (auto simp: run_inv_def pending_of_rows filter_empty_conv)

lemma runScalableCardinality_fresh:
  assumes fresh: "fresh_run sha newId runId db"
    and run: "runScalableCardinality lc idOrder sha clock newId batchId runId ss cs db = ((rels, rep), db')"
  shows "mset rels = mset (concat (map (\<lambda>p. resolvePartition lc p buildStrategyConfig)
           (partitionCandidates ss cs SCALE_partitionWindowMs)))
    \<and> map pr_partitionId (rows_of newId db') = map sp_id (partitionCandidates ss cs SCALE_partitionWindowMs)
    \<and> pr_status ` set (rows_of newId db') \<subseteq> {COMPLETED}"
proof -
  define parts where "parts = partitionCandidates ss cs SCALE_partitionWindowMs"
  have plan: "pl_partitions (planScaleExecution ss cs) = parts"
    by (simp add: planScaleExecution_def Let_def parts_def)
  show ?thesis
  proof (cases "parts = []")
    case True
    moreover from fresh have "rows_of newId db = []" by (auto simp: fresh_run_def rows_of_def filter_empty_conv)
    ultimately show ?thesis using run by (simp add: runScalableCardinality_def plan Let_def parts_def [symmetric])
  next
    case False
    let ?byId = "map_of (map (\<lambda>p. (sp_id p, p)) parts)"
    have dist: "distinct (map sp_id parts)" unfolding parts_def by (rule partition_ids_distinct)
    obtain db1 where create: "createScaleRun sha newId batchId runId parts db = ((newId, True), db1)"
      using createScaleRun_fresh(1) [OF fresh dist, of batchId] by (metis prod.collapse)
    note created = createScaleRun_fresh [OF fresh dist, of batchId, unfolded create snd_conv]
    obtain dead db2 rep2 rels2 where sw:
      "sweeps SCALE_maxRetries lc idOrder clock newId ?byId 0 db1 (empty_report (planScaleExecution ss cs), []) = (dead, db2, rep2, rels2)"
      by (rule prod_cases4)
    have three: "SCALE_maxRetries = Suc 2" by (simp add: SCALE_maxRetries_def)
    from sw have sw3: "sweeps (Suc 2) lc idOrder clock newId ?byId 0 db1 (empty_report (planScaleExecution ss cs), []) = (dead, db2, rep2, rels2)"
      by (simp only: three)
    note full = sweeps_spec [OF created(2) sw3, unfolded created(3) created(4) work_of_plan [OF dist] snd_conv mset.simps(1) add_0]
    then have spec: "\<not> dead" "run_inv newId ?byId [] db2" "pending_of newId db2 = []"
      "map pr_partitionId (rows_of newId db2) = map sp_id parts"
      "mset rels2 = mset (concat (map (\<lambda>p. resolvePartition lc p buildStrategyConfig) parts))"
      by blast+
    from run sw create spec(1) have "rels = rels2" "db' = snd (finalizeScaleRun newId RUN_COMPLETED rep2 db2)"
      by (auto simp: runScalableCardinality_def plan False Let_def split: prod.splits)
    with spec all_completed [OF spec(2,3)] show ?thesis by (simp add: parts_def [symmetric])
  qed
qed

text \<open>
  C9. A fresh durable run leaves nothing undone and does nothing twice: whatever order the database
  gives the partition ids and whatever the clock reads, it returns the relationships of every
  partition exactly once, its partition rows are those of the plan, and all of them are completed.
\<close>

theorem fresh_scale_run_complete:
  assumes "fresh_run sha newId runId db"
    and "runScalableCardinality lc idOrder sha clock newId batchId runId ss cs db = ((rels, rep), db')"
  shows "mset rels = mset (concat (map (\<lambda>p. resolvePartition lc p buildStrategyConfig)
           (partitionCandidates ss cs SCALE_partitionWindowMs)))
    \<and> map pr_partitionId (rows_of newId db') = map sp_id (partitionCandidates ss cs SCALE_partitionWindowMs)
    \<and> pr_status ` set (rows_of newId db') \<subseteq> {COMPLETED}"
  by (rule runScalableCardinality_fresh [OF assms])

definition sample_run :: "ScaleDb \<Rightarrow> (CardinalityMatch list \<times> ScaleReport) \<times> ScaleDb" where
  "sample_run = runScalableCardinality (cmp_by (\<lambda>i. i)) (\<lambda>_ _. 0) (\<lambda>t. t) (\<lambda>_. 0) ''row_1'' ''batch_1'' ''run_1''
     bulk_settlements [bulk_credit ''b1'' 1400000]"

definition empty_db :: ScaleDb where
  "empty_db = \<lparr>scaleRuns = [], scalePartitions = []\<rparr>"

theorem fresh_scale_run_complete_witness:
  "fresh_run (\<lambda>t. t) ''row_1'' ''run_1'' empty_db
   \<and> map cm_settlementIds (fst (fst (sample_run empty_db))) = [[''setl_1'', ''setl_2'', ''setl_3'']]
   \<and> pr_status ` set (rows_of ''row_1'' (snd (sample_run empty_db))) \<subseteq> {COMPLETED}"
proof -
  have fresh: "fresh_run (\<lambda>t. t) ''row_1'' ''run_1'' empty_db" by (simp add: fresh_run_def empty_db_def)
  have rels: "map cm_settlementIds (fst (fst (sample_run empty_db))) = [[''setl_1'', ''setl_2'', ''setl_3'']]"
    by code_simp
  obtain rels rep db' where run: "sample_run empty_db = ((rels, rep), db')" by (metis prod.collapse)
  from fresh_scale_run_complete [OF fresh run [unfolded sample_run_def]] fresh rels show ?thesis
    unfolding run snd_conv by blast
qed

text \<open>
  A second invocation with the same run id finds every partition completed and returns no
  relationships at all, although the first returned some.
\<close>

lemma resumed_run_returns_nothing:
  "fst (fst (sample_run empty_db)) \<noteq> [] \<and> fst (fst (sample_run (snd (sample_run empty_db)))) = []"
  by code_simp

end
