(* ===== verification/Apply_Cardinality.thy ===== *)
theory Apply_Cardinality
  imports Scale_Durable_Correct
begin

text \<open>
  Applying the cardinality solvers to the matcher's results
  (\<open>src/lib/reconciliation/apply-cardinality.ts\<close>). The result objects the source mutates are the
  elements of the result list; \<open>resultByPaymentId\<close> maps a payment to the index of its object.
\<close>

definition CONFIG :: CardinalitySolverConfig where
  "CONFIG = \<lparr>maxGroupSize = 8, maxCandidates = 24, tolerancePaise = 100, maxHours = 96\<rparr>"

definition isBulkBankCredit :: "NormalizedBankTxn \<Rightarrow> bool" where
  "isBulkBankCredit txn =
     (if b_type txn \<noteq> ''CREDIT'' then False
      else let narration = js_toUpperCase (case b_narration txn of None \<Rightarrow> '''' | Some n \<Rightarrow> n)
           in js_includes narration ''BULK SETTLEMENT'' \<or> js_includes narration ''AGGREGATED SETTLEMENT''
              \<or> js_includes narration ''PAYOUT BATCH'')"

definition setCardinality :: "CardinalityType \<Rightarrow> string \<Rightarrow> int \<Rightarrow> MatchResult \<Rightarrow> MatchResult" where
  "setCardinality type reason score r =
     r\<lparr>cardinalityType := type, cardinalityReason := Some reason, relationshipScore := Some score,
       confidenceScore := max (confidenceScore r) score\<rparr>"

definition hasBankRelationship :: "MatchResult \<Rightarrow> bool" where
  "hasBankRelationship r \<longleftrightarrow> length (bankTxnIds r) > 0"

type_synonym result_index = "ident \<rightharpoonup> nat"

definition resultByPaymentId :: "MatchResult list \<Rightarrow> result_index" where
  "resultByPaymentId results =
     fold (\<lambda>(i, r) m. if js_startsWith (paymentId r) ''orphan_'' then m else m(paymentId r \<mapsto> i))
       (enumerate 0 results) Map.empty"

definition getAvailableSettlements :: "BatchData \<Rightarrow> result_index \<Rightarrow> MatchResult list \<Rightarrow> NormalizedSettlement list" where
  "getAvailableSettlements data byPayment results =
     filter (\<lambda>s. case byPayment (s_paymentId s) of None \<Rightarrow> False | Some i \<Rightarrow> \<not> hasBankRelationship (results ! i))
       (settlements data)"

text \<open>
  The loop over the settlement ids of a relationship, which the passes share: the settlement's
  result gains the id, then its bank side is set by \<open>upd\<close>.
\<close>

definition add_settlement_id :: "ident \<Rightarrow> MatchResult \<Rightarrow> MatchResult" where
  "add_settlement_id sid r =
     r\<lparr>settlementIds := (if sid \<in> set (settlementIds r) then settlementIds r else settlementIds r @ [sid])\<rparr>"

definition link_settlement ::
  "(ident \<rightharpoonup> NormalizedSettlement) \<Rightarrow> result_index \<Rightarrow> (MatchResult \<Rightarrow> MatchResult) \<Rightarrow> ident \<Rightarrow> MatchResult list \<Rightarrow> MatchResult list" where
  "link_settlement settlementById byPayment upd sid results =
     (case settlementById sid of
        None \<Rightarrow> results
      | Some s \<Rightarrow> (case byPayment (s_paymentId s) of
                     None \<Rightarrow> results
                   | Some i \<Rightarrow> results[i := upd (add_settlement_id sid (results ! i))]))"

definition link_settlements ::
  "(ident \<rightharpoonup> NormalizedSettlement) \<Rightarrow> result_index \<Rightarrow> (MatchResult \<Rightarrow> MatchResult) \<Rightarrow> ident list \<Rightarrow> MatchResult list \<Rightarrow> MatchResult list" where
  "link_settlements settlementById byPayment upd = fold (link_settlement settlementById byPayment upd)"

definition set_bank_side ::
  "ident list \<Rightarrow> paise \<Rightarrow> CardinalityType \<Rightarrow> string \<Rightarrow> MatchDetails \<Rightarrow> CardinalityMatch \<Rightarrow> MatchResult \<Rightarrow> MatchResult" where
  "set_bank_side txns amount type method details rel r =
     (setCardinality type (cm_reasonCode rel) (cm_confidenceScore rel)
        (r\<lparr>bankTxnIds := txns, bankCreditedAmount := Some amount\<rparr>))
       \<lparr>matchMethod := method, matchDetails := details\<rparr>"

fun method_text :: "CardinalityType \<Rightarrow> string" where
  "method_text One_One = ''CARDINALITY_1_TO_1''"
| "method_text One_N = ''CARDINALITY_1_TO_N''"
| "method_text N_One = ''CARDINALITY_N_TO_1''"
| "method_text N_M = ''CARDINALITY_N_TO_M''"

record ApplyState =
  ap_results :: "MatchResult list"
  ap_used :: "ident set"
  ap_relationships :: "CardinalityMatch list"

definition applyRelationshipToResults ::
  "(ident \<rightharpoonup> NormalizedSettlement) \<Rightarrow> result_index \<Rightarrow> CardinalityMatch \<Rightarrow> ApplyState \<Rightarrow> ApplyState" where
  "applyRelationshipToResults settlementById byPayment rel st =
     st\<lparr>ap_results := link_settlements settlementById byPayment
          (set_bank_side (cm_bankTxnIds rel) (cm_bankAmount rel) (cm_type rel) (method_text (cm_type rel))
             (GroupVerified (cm_details rel) (cm_differencePaise rel)) rel)
          (cm_settlementIds rel) (ap_results st),
        ap_used := ap_used st \<union> set (cm_bankTxnIds rel)\<rparr>"

definition push_relationship :: "CardinalityMatch \<Rightarrow> ApplyState \<Rightarrow> ApplyState" where
  "push_relationship rel st = st\<lparr>ap_relationships := ap_relationships st @ [rel]\<rparr>"

section \<open>The passes\<close>

definition pass1_step ::
  "BatchData \<Rightarrow> (ident \<rightharpoonup> NormalizedSettlement) \<Rightarrow> result_index \<Rightarrow> NormalizedBankTxn \<Rightarrow> ApplyState \<Rightarrow> ApplyState" where
  "pass1_step data settlementById byPayment txn st =
     (if b_txnId txn \<in> ap_used st then st
      else let eligible = getAvailableSettlements data byPayment (ap_results st)
           in if length eligible < 2 then st
              else case findSettlementGroupForBank eligible txn CONFIG of
                     None \<Rightarrow> st
                   | Some rel \<Rightarrow>
                       (push_relationship rel st)
                         \<lparr>ap_used := insert (b_txnId txn) (ap_used st),
                          ap_results := link_settlements settlementById byPayment
                            (set_bank_side [b_txnId txn] (b_amount txn) N_One ''CARDINALITY_N_TO_1''
                               (CreditAggregates (cm_details rel) (b_txnId txn) (length (cm_settlementIds rel))) rel)
                            (cm_settlementIds rel) (ap_results st)\<rparr>)"

definition pass2_step ::
  "(string \<Rightarrow> string \<Rightarrow> int) \<Rightarrow> BatchData \<Rightarrow> result_index \<Rightarrow> NormalizedSettlement \<Rightarrow> ApplyState \<Rightarrow> ApplyState" where
  "pass2_step localeCompare data byPayment s st =
     (case byPayment (s_paymentId s) of
        None \<Rightarrow> st
      | Some i \<Rightarrow>
          if hasBankRelationship (ap_results st ! i) then st
          else let eligible = filter (\<lambda>t. b_type t = ''CREDIT'' \<and> b_txnId t \<notin> ap_used st) (bankTransactions data)
               in case findBankGroupForSettlement localeCompare s eligible CONFIG of
                    None \<Rightarrow> st
                  | Some rel \<Rightarrow>
                      (push_relationship rel st)
                        \<lparr>ap_used := ap_used st \<union> set (cm_bankTxnIds rel),
                         ap_results := (ap_results st)[i :=
                           set_bank_side (cm_bankTxnIds rel) (cm_bankAmount rel) One_N ''CARDINALITY_1_TO_N''
                             (SettlementMaps (cm_details rel) (s_settlementId s) (length (cm_bankTxnIds rel))) rel
                             (ap_results st ! i)]\<rparr>)"

definition pass3 ::
  "BatchData \<Rightarrow> (ident \<rightharpoonup> NormalizedSettlement) \<Rightarrow> result_index \<Rightarrow> NormalizedBankTxn list \<Rightarrow> ApplyState \<Rightarrow> ApplyState" where
  "pass3 data settlementById byPayment bulkCredits st =
     (let unresolvedSettlements = getAvailableSettlements data byPayment (ap_results st);
          unresolvedBulkBanks = filter (\<lambda>t. b_txnId t \<notin> ap_used st) bulkCredits
      in if length unresolvedSettlements \<ge> 2 \<and> length unresolvedBulkBanks \<ge> 2
         then case findManyToManyMatch unresolvedSettlements unresolvedBulkBanks CONFIG of
                None \<Rightarrow> st
              | Some rel \<Rightarrow>
                  (push_relationship rel st)
                    \<lparr>ap_results := link_settlements settlementById byPayment
                       (set_bank_side (cm_bankTxnIds rel) (cm_bankAmount rel) N_M ''CARDINALITY_N_TO_M''
                          (GroupVerified (cm_details rel) (cm_differencePaise rel)) rel)
                       (cm_settlementIds rel) (ap_results st),
                     ap_used := ap_used st \<union> set (cm_bankTxnIds rel)\<rparr>
         else st)"

definition small_path ::
  "(string \<Rightarrow> string \<Rightarrow> int) \<Rightarrow> BatchData \<Rightarrow> (ident \<rightharpoonup> NormalizedSettlement) \<Rightarrow> result_index \<Rightarrow> ApplyState \<Rightarrow> ApplyState" where
  "small_path localeCompare data settlementById byPayment st =
     (let bulkCredits = filter isBulkBankCredit (bankTransactions data);
          st1 = fold (pass1_step data settlementById byPayment) bulkCredits st;
          st2 = fold (pass2_step localeCompare data byPayment) (settlements data) st1
      in pass3 data settlementById byPayment bulkCredits st2)"

section \<open>The entry point\<close>

record CardinalityMatchingOpts =
  opt_batchId :: "string option"
  opt_runId :: "string option"

definition initial_state :: "MatchResult list \<Rightarrow> ApplyState" where
  "initial_state results =
     \<lparr>ap_results = results, ap_used = set (concat (map bankTxnIds results)), ap_relationships = []\<rparr>"

text \<open>What the durable run needs from outside: collations, the hash, the clock, the id of the new run.\<close>

record Environment =
  env_localeCompare :: "string \<Rightarrow> string \<Rightarrow> int"
  env_idOrder :: "partition_id \<Rightarrow> partition_id \<Rightarrow> int"
  env_sha256Hex :: "string \<Rightarrow> string"
  env_clock :: "nat \<Rightarrow> millis"
  env_newId :: ident

definition apply_scaled ::
  "(ident \<rightharpoonup> NormalizedSettlement) \<Rightarrow> result_index \<Rightarrow> CardinalityMatch list \<Rightarrow> ApplyState \<Rightarrow> ApplyState" where
  "apply_scaled settlementById byPayment rels st =
     fold (\<lambda>rel st. push_relationship rel (applyRelationshipToResults settlementById byPayment rel st)) rels st"

definition applyCardinalityMatching ::
  "Environment \<Rightarrow> MatchResult list \<Rightarrow> BatchData \<Rightarrow> CardinalityMatchingOpts option \<Rightarrow> ScaleDb
     \<Rightarrow> (MatchResult list \<times> CardinalityMatch list) \<times> ScaleDb" where
  "applyCardinalityMatching env results data opts db =
     (let settlementById = set_all s_settlementId (settlements data) Map.empty;
          byPayment = resultByPaymentId results;
          st = initial_state results
      in if length (settlements data) + length (bankTransactions data) \<ge> SCALE_scalableMinRecords
            \<and> (case opts of None \<Rightarrow> False | Some given \<Rightarrow> truthy_str (opt_batchId given) \<and> truthy_str (opt_runId given))
         then let eligible = getAvailableSettlements data byPayment results;
                  unused = filter (\<lambda>t. b_txnId t \<notin> ap_used st) (filter isBulkBankCredit (bankTransactions data));
                  ((rels, rep), db') = runScalableCardinality (env_localeCompare env) (env_idOrder env) (env_sha256Hex env)
                     (env_clock env) (env_newId env) (the (opt_batchId (the opts))) (the (opt_runId (the opts)))
                     eligible unused db;
                  st' = apply_scaled settlementById byPayment rels st
              in ((ap_results st', ap_relationships st'), db')
         else let st' = small_path (env_localeCompare env) data settlementById byPayment st
              in ((ap_results st', ap_relationships st'), db))"

end
