(* ===== verification/Engine.thy ===== *)
theory Engine
  imports Run_Metadata Risk_Gate Ledger Apply_Cardinality
begin

text \<open>
  The orchestrator (\<open>src/lib/reconciliation/engine.ts\<close>) and the storage of cardinality links
  (\<open>cardinality-persistence.ts\<close>). A run is a sequence of database operations, each of which may
  throw: an operation maps the database to an error or a value, and the database it leaves behind.
  Texts of log entries are kept as the template with the values it interpolates; wall-clock
  measurements (phase timings, throughput, processing time) are left out.
\<close>

section \<open>Rows\<close>

record FinalMetrics =
  fm_totalRecords :: int
  fm_autoMatched :: int
  fm_exceptionsFound :: int
  fm_unresolvedCount :: int
  fm_accuracy :: "nat \<times> nat"
  fm_precision :: "nat \<times> nat"
  fm_recall :: "nat \<times> nat"
  fm_pass1Accuracy :: "nat \<times> nat"
  fm_amountAtRisk :: paise

record BatchRow =
  bt_status :: string
  bt_completedAt :: "millis option"
  bt_metrics :: "FinalMetrics option"

datatype LogReason =
    ReconciliationInitiated
  | FailedInvariants "InvariantReasonCode list"
  | GateRouted GateReason
  | CompletedWith "nat \<times> nat" int

datatype LogMetadata =
    NoMetadata
  | InvariantMetadata InvariantReport
  | GateMetadata RoutingOutcome RiskLevel int Aggregate
  | TotalsMetadata int int "nat \<times> nat"

record AuditLogRow =
  al_batchId :: ident
  al_actor :: string
  al_action :: string
  al_entityType :: string
  al_entityId :: ident
  al_reason :: LogReason
  al_metadata :: LogMetadata

record ReconciliationResultRow =
  rr_batchId :: ident
  rr_paymentId :: ident
  rr_orderId :: ident
  rr_settlementId :: "string option"
  rr_bankTxnId :: "string option"
  rr_refundIds :: "string option"
  rr_chargebackIds :: "string option"
  rr_orderAmount :: paise
  rr_paymentAmount :: paise
  rr_paymentFee :: paise
  rr_paymentTax :: paise
  rr_refundAmount :: paise
  rr_chargebackAmount :: paise
  rr_expectedNetAmount :: paise
  rr_actualSettledAmount :: "paise option"
  rr_bankCreditedAmount :: "paise option"
  rr_mismatchAmount :: "paise option"
  rr_status :: ExceptionType
  rr_confidenceScore :: int
  rr_matchMethod :: string
  rr_matchDetails :: MatchDetails
  rr_cardinalityType :: CardinalityType
  rr_cardinalityReason :: "string option"
  rr_relationshipScore :: "int option"
  rr_passNumber :: nat

record ExceptionRow =
  ex_batchId :: ident
  ex_exceptionType :: ExceptionType
  ex_paymentId :: "ident option"
  ex_orderId :: "ident option"
  ex_settlementId :: "ident option"
  ex_bankTxnId :: "ident option"
  ex_utr :: "string option"
  ex_amount :: paise
  ex_mismatchAmount :: "paise option"
  ex_confidenceScore :: int
  ex_riskLevel :: RiskLevel
  ex_status :: string
  ex_suggestedAction :: string

record CardinalityLinkRow =
  cl_batchId :: ident
  cl_runId :: "ident option"
  cl_relationshipType :: CardinalityType
  cl_sourceType :: string
  cl_sourceIds :: string
  cl_targetType :: string
  cl_targetIds :: string
  cl_amount :: paise
  cl_differencePaise :: paise
  cl_confidenceScore :: int
  cl_reasonCode :: string
  cl_matchMethod :: string

record EngineDb =
  e_batches :: "ident \<rightharpoonup> BatchRow"
  e_auditLog :: "AuditLogRow list"
  e_results :: "ReconciliationResultRow list"
  e_exceptions :: "ExceptionRow list"
  e_links :: "CardinalityLinkRow list"
  e_ledger :: "LedgerRow list"
  e_runs :: "RunMetadataRow list"
  e_chain :: "AuditEvent list"
  e_scale :: ScaleDb

section \<open>Operations that may throw\<close>

datatype EngineError = BatchNotFound | AuditAppendFailed | ControlFailure InvariantReport

type_synonym 'a engine = "EngineDb \<Rightarrow> (EngineError + 'a) \<times> EngineDb"

definition and_then :: "'a engine \<Rightarrow> ('a \<Rightarrow> 'b engine) \<Rightarrow> 'b engine" where
  "and_then m f db = (case m db of (Inl e, db') \<Rightarrow> (Inl e, db') | (Inr x, db') \<Rightarrow> f x db')"

definition give :: "'a \<Rightarrow> 'a engine" where
  "give x db = (Inr x, db)"

definition throw :: "EngineError \<Rightarrow> 'a engine" where
  "throw e db = (Inl e, db)"

definition modify :: "(EngineDb \<Rightarrow> EngineDb) \<Rightarrow> unit engine" where
  "modify f db = (Inr (), f db)"

text \<open>\<open>prisma.batch.update\<close> throws when there is no such batch.\<close>

definition update_batch :: "ident \<Rightarrow> (BatchRow \<Rightarrow> BatchRow) \<Rightarrow> unit engine" where
  "update_batch bid f db = (case e_batches db bid of
     None \<Rightarrow> (Inl BatchNotFound, db)
   | Some b \<Rightarrow> (Inr (), db\<lparr>e_batches := (e_batches db)(bid \<mapsto> f b)\<rparr>))"

definition write_log :: "ident \<Rightarrow> string \<Rightarrow> LogReason \<Rightarrow> LogMetadata \<Rightarrow> unit engine" where
  "write_log bid action reason meta = modify (\<lambda>db. db\<lparr>e_auditLog := e_auditLog db @
     [\<lparr>al_batchId = bid, al_actor = ''SYSTEM'', al_action = action, al_entityType = ''batch'', al_entityId = bid,
       al_reason = reason, al_metadata = meta\<rparr>]\<rparr>)"

text \<open>
  What a run needs from outside: the stored source rows, the printer, the id of the run, and for
  each event it appends the time and the writers that may come in between.
\<close>

record EngineEnv =
  ee_cardinality :: Environment
  ee_printer :: Printer
  ee_rows :: "ident \<Rightarrow> BatchData"
  ee_runId :: ident
  ee_metadataId :: ident
  ee_now :: millis
  ee_occurredAt :: "string \<Rightarrow> string"
  ee_others :: "string \<Rightarrow> nat \<Rightarrow> AuditEvent list \<Rightarrow> AuditEvent list"

abbreviation ee_sha :: "EngineEnv \<Rightarrow> string \<Rightarrow> string" where
  "ee_sha env \<equiv> env_sha256Hex (ee_cardinality env)"

definition append_event :: "EngineEnv \<Rightarrow> ident \<Rightarrow> string \<Rightarrow> (string \<times> json) list \<Rightarrow> unit engine" where
  "append_event env bid ty payload db =
     (case appendAuditEvent (ee_sha env) (ee_others env ty)
             \<lparr>in_batchId = bid, in_eventType = ty, in_actor = ''SYSTEM'', in_entityId = None, in_payload = payload,
              in_occurredAt = ee_occurredAt env ty\<rparr> (e_chain db) of
        (None, tbl) \<Rightarrow> (Inl AuditAppendFailed, db\<lparr>e_chain := tbl\<rparr>)
      | (Some e, tbl) \<Rightarrow> (Inr (), db\<lparr>e_chain := tbl\<rparr>))"

section \<open>The payloads of the lineage events\<close>

definition counts_json :: "(string \<times> nat) list \<Rightarrow> (string \<times> json) list" where
  "counts_json = map (\<lambda>(k, n). (k, JInt (int n)))"

definition batch_counts :: "BatchData \<Rightarrow> (string \<times> nat) list" where
  "batch_counts d = [(''orders'', length (orders d)), (''payments'', length (payments d)),
     (''settlements'', length (settlements d)), (''bankTransactions'', length (bankTransactions d)),
     (''refunds'', length (refunds d)), (''chargebacks'', length (chargebacks d))]"

definition policy_payload :: "(string \<times> json) list" where
  "policy_payload = [(''policyVersion'', JStr ''1.0''), (''modelVersion'', JStr ''rule-based-pipeline-v1''),
     (''decisionConfig'', JObj [(''MATERIAL_AMOUNT_PAISE'', JInt MATERIAL_AMOUNT_PAISE),
        (''LOW_CONFIDENCE_MAX'', JInt LOW_CONFIDENCE_MAX), (''AGGREGATE_EXPOSURE_PAISE'', JInt AGGREGATE_EXPOSURE_PAISE),
        (''PROVIDER_RISK_METHODS'', JArr (map JStr PROVIDER_RISK_METHODS))])]"

definition matching_payload :: "MatchResult list \<Rightarrow> (string \<times> json) list" where
  "matching_payload results =
     [(''resultCount'', JInt (int (length results))),
      (''byStatus'', JObj (counts_json (fold (\<lambda>r. bump (label (status r))) results []))),
      (''byMethod'', JObj (counts_json (fold (\<lambda>r. bump (if matchMethod r = [] then ''NONE'' else matchMethod r)) results [])))]"

definition cardinality_payload :: "CardinalityMatch list \<Rightarrow> (string \<times> json) list" where
  "cardinality_payload rels =
     [(''relationshipCount'', JInt (int (length rels))),
      (''byType'', JObj (counts_json (fold (\<lambda>rel. bump (cardinality_text (cm_type rel))) rels [])))]"

fun risk_text :: "RiskLevel \<Rightarrow> string" where
  "risk_text LOW = ''LOW''"
| "risk_text MEDIUM = ''MEDIUM''"
| "risk_text HIGH = ''HIGH''"
| "risk_text CRITICAL = ''CRITICAL''"

fun routing_text :: "RoutingOutcome \<Rightarrow> string" where
  "routing_text STRAIGHT_THROUGH = ''STRAIGHT_THROUGH''"
| "routing_text CONTROLLED_REVIEW = ''CONTROLLED_REVIEW''"
| "routing_text MAKER_CHECKER_REQUIRED = ''MAKER_CHECKER_REQUIRED''"
| "routing_text CRITICAL_BLOCKED = ''CRITICAL_BLOCKED''"

fun code_text :: "InvariantReasonCode \<Rightarrow> string" where
  "code_text INVARIANT_INPUT_COMPLETE = ''INVARIANT_INPUT_COMPLETE''"
| "code_text INVARIANT_MONEY_CONSERVATION = ''INVARIANT_MONEY_CONSERVATION''"
| "code_text INVARIANT_DEBIT_CREDIT_BALANCE = ''INVARIANT_DEBIT_CREDIT_BALANCE''"
| "code_text INVARIANT_CARDINALITY_CONSISTENCY = ''INVARIANT_CARDINALITY_CONSISTENCY''"
| "code_text INVARIANT_PARTITION_COMPLETE = ''INVARIANT_PARTITION_COMPLETE''"
| "code_text INVARIANT_LEDGER_CONSISTENCY = ''INVARIANT_LEDGER_CONSISTENCY''"

definition analysis_payload :: "Aggregate \<Rightarrow> (string \<times> json) list" where
  "analysis_payload a = [(''autoMatched'', JInt (int (ag_autoMatched a))),
     (''suggestedMatches'', JInt (int (ag_suggestedMatches a))), (''exceptions'', JInt (int (ag_exceptions a))),
     (''maxRisk'', JStr (risk_text (ag_maxRisk a))), (''amountAtRiskPaise'', JInt (ag_amountAtRisk a)),
     (''novelCount'', JInt (int (ag_novelCount a)))]"

definition ints_json :: "(string \<times> int) list \<Rightarrow> json" where
  "ints_json xs = JObj (merge_fields [] (map (\<lambda>(k, i). (k, JInt i)) xs))"

definition invariant_payload :: "InvariantReport \<Rightarrow> (string \<times> json) list" where
  "invariant_payload rep = [(''passed'', JBool (length (failures rep) = 0)),
     (''failureCodes'', JArr (map (JStr \<circ> code_text \<circ> f_code) (failures rep))),
     (''checkedCounts'', ints_json (checkedCounts rep)), (''checkedAmounts'', ints_json (checkedAmounts rep))]"

definition finalization_payload :: "Printer \<Rightarrow> GateVerdict \<Rightarrow> ReconciliationMetrics \<Rightarrow> (string \<times> json) list" where
  "finalization_payload pr v m = [(''status'', JStr ''COMPLETED''), (''routing'', JStr (routing_text (v_routing v))),
     (''riskLevel'', JStr (risk_text (v_riskLevel v))), (''accuracy'', percent_json pr (m_accuracy m)),
     (''exceptionsFound'', JInt (m_exceptionsFound m)), (''amountAtRiskPaise'', JInt (m_amountAtRisk m))]"

section \<open>Stored rows of a run\<close>

definition joined :: "ident list \<Rightarrow> string option" where
  "joined is = (let text = js_join '','' is in if text = [] then None else Some text)"

definition result_row :: "ident \<Rightarrow> MatchResult \<Rightarrow> ReconciliationResultRow" where
  "result_row bid r = \<lparr>rr_batchId = bid, rr_paymentId = paymentId r, rr_orderId = orderId r,
     rr_settlementId = joined (settlementIds r), rr_bankTxnId = joined (bankTxnIds r),
     rr_refundIds = joined (refundIds r), rr_chargebackIds = joined (chargebackIds r),
     rr_orderAmount = orderAmount r, rr_paymentAmount = paymentAmount r, rr_paymentFee = paymentFee r,
     rr_paymentTax = paymentTax r, rr_refundAmount = refundAmount r, rr_chargebackAmount = chargebackAmount r,
     rr_expectedNetAmount = expectedNetAmount r, rr_actualSettledAmount = actualSettledAmount r,
     rr_bankCreditedAmount = bankCreditedAmount r, rr_mismatchAmount = mismatchAmount r, rr_status = status r,
     rr_confidenceScore = confidenceScore r, rr_matchMethod = matchMethod r, rr_matchDetails = matchDetails r,
     rr_cardinalityType = cardinalityType r, rr_cardinalityReason = cardinalityReason r,
     rr_relationshipScore = relationshipScore r, rr_passNumber = 1\<rparr>"

text \<open>The dash of one message, in UTF-8.\<close>

definition em_dash :: string where "em_dash = [CHR 0xE2, CHR 0x80, CHR 0x94]"

fun generateSuggestedAction :: "ExceptionType \<Rightarrow> string" where
  "generateSuggestedAction PENDING_SETTLEMENT =
     ''Wait for T+2 settlement window to complete. No action needed.''"
| "generateSuggestedAction MISSING_BANK_CREDIT =
     ''Contact Razorpay support with settlement ID. Check bank statement for UTR.''"
| "generateSuggestedAction AMOUNT_MISMATCH =
     ''Verify fee and tax deduction against Razorpay settlement report. Check for hidden charges.''"
| "generateSuggestedAction DUPLICATE_SETTLEMENT =
     ''Contact Razorpay support immediately. Potential overpayment. Provide both settlement IDs.''"
| "generateSuggestedAction ORPHAN_BANK_CREDIT =
     ''Identify source of credit. Check if it belongs to a different merchant account or batch.''"
| "generateSuggestedAction REFUND_MISMATCH =
     ''Verify refund was processed. Check if settlement was generated before refund was applied.''"
| "generateSuggestedAction CHARGEBACK_ADJUSTMENT =
     ''Review chargeback reason. Prepare evidence for dispute if applicable.''"
| "generateSuggestedAction DELAYED_BANK_CREDIT =
     ''Monitor bank account. If delay exceeds 72h, contact bank and Razorpay.''"
| "generateSuggestedAction NEEDS_MANUAL_REVIEW =
     ''Manually verify records. Multiple candidates exist '' @ em_dash @ '' human judgment required.''"
| "generateSuggestedAction AUTO_MATCHED = ''Review exception details and take appropriate action.''"

definition first_or_null :: "ident list \<Rightarrow> ident option" where
  "first_or_null is = (case is of [] \<Rightarrow> None | i # _ \<Rightarrow> if i = [] then None else Some i)"

definition fallback_risk :: "int \<Rightarrow> RiskLevel" where
  "fallback_risk score = (if score < 30 then HIGH else if score < 60 then MEDIUM else LOW)"

definition exception_row :: "ident \<Rightarrow> (ident \<rightharpoonup> Decision) \<Rightarrow> MatchResult \<Rightarrow> ExceptionRow" where
  "exception_row bid decisionByPaymentId r =
     \<lparr>ex_batchId = bid, ex_exceptionType = status r,
      ex_paymentId = (if js_startsWith (paymentId r) ''orphan_'' then None else Some (paymentId r)),
      ex_orderId = (if orderId r = ''N/A'' then None else Some (orderId r)),
      ex_settlementId = first_or_null (settlementIds r), ex_bankTxnId = first_or_null (bankTxnIds r), ex_utr = None,
      ex_amount = (let a = or_zero (expectedNetAmount r) (bankCreditedAmount r) in if a \<noteq> 0 then a else paymentAmount r),
      ex_mismatchAmount = mismatchAmount r, ex_confidenceScore = confidenceScore r,
      ex_riskLevel = (case decisionByPaymentId (paymentId r) of
          Some d \<Rightarrow> d_riskLevel d | None \<Rightarrow> fallback_risk (confidenceScore r)),
      ex_status = ''OPEN'', ex_suggestedAction = generateSuggestedAction (status r)\<rparr>"

definition ids_json :: "ident list \<Rightarrow> string" where
  "ids_json is = canonicalize (JArr (map JStr is))"

definition link_row :: "ident \<Rightarrow> ident option \<Rightarrow> CardinalityMatch \<Rightarrow> CardinalityLinkRow" where
  "link_row bid runId rel = \<lparr>cl_batchId = bid, cl_runId = runId, cl_relationshipType = cm_type rel,
     cl_sourceType = ''SETTLEMENT'', cl_sourceIds = ids_json (cm_settlementIds rel),
     cl_targetType = ''BANK_TRANSACTION'', cl_targetIds = ids_json (cm_bankTxnIds rel),
     cl_amount = cm_settlementAmount rel, cl_differencePaise = cm_differencePaise rel,
     cl_confidenceScore = cm_confidenceScore rel, cl_reasonCode = cm_reasonCode rel,
     cl_matchMethod = ''CARDINALITY_'' @ cardinality_suffix (cm_type rel)\<rparr>"

text \<open>Inserting in chunks of \<open>n\<close> rows, \<open>n > 0\<close>.\<close>

function insert_chunks :: "nat \<Rightarrow> 'a list \<Rightarrow> 'a list \<Rightarrow> 'a list" where
  "insert_chunks n rows tbl =
     (if rows = [] \<or> n = 0 then tbl else insert_chunks n (drop n rows) (tbl @ take n rows))"
  by auto
termination by (relation "measure (\<lambda>(n, rows, tbl). length rows)") auto

declare insert_chunks.simps [simp del]

definition DB_CHUNK_SIZE :: nat where "DB_CHUNK_SIZE = 1000"
definition LINK_CHUNK :: nat where "LINK_CHUNK = 2000"

definition deleteCardinalityLinks :: "ident \<Rightarrow> unit engine" where
  "deleteCardinalityLinks bid = modify (\<lambda>db. db\<lparr>e_links := filter (\<lambda>l. cl_batchId l \<noteq> bid) (e_links db)\<rparr>)"

definition persistCardinalityLink :: "ident \<Rightarrow> ident option \<Rightarrow> CardinalityMatch \<Rightarrow> unit engine" where
  "persistCardinalityLink bid runId rel = modify (\<lambda>db. db\<lparr>e_links := e_links db @ [link_row bid runId rel]\<rparr>)"

definition persistCardinalityLinks :: "ident \<Rightarrow> CardinalityMatch list \<Rightarrow> ident option \<Rightarrow> unit engine" where
  "persistCardinalityLinks bid rels runId =
     (if rels = [] then give ()
      else modify (\<lambda>db. db\<lparr>e_links := insert_chunks LINK_CHUNK (map (link_row bid runId) rels) (e_links db)\<rparr>))"

section \<open>The stages of a run\<close>

definition begin_run :: "ident \<Rightarrow> unit engine" where
  "begin_run bid =
     and_then (update_batch bid (\<lambda>b. b\<lparr>bt_status := ''PROCESSING''\<rparr>)) (\<lambda>_.
     write_log bid ''RECONCILIATION_STARTED'' ReconciliationInitiated NoMetadata)"

definition record_ingestion :: "EngineEnv \<Rightarrow> ident \<Rightarrow> BatchData \<Rightarrow> unit engine" where
  "record_ingestion env bid data =
     and_then (append_event env bid ''INGESTION''
        (counts_json (batch_counts data @ [(''groundTruths'', length (groundTruths data))]))) (\<lambda>_.
     and_then (append_event env bid ''POLICY_MODEL_VERSION'' policy_payload) (\<lambda>_.
     append_event env bid ''NORMALIZATION'' (counts_json (batch_counts data))))"

definition match_batch :: "EngineEnv \<Rightarrow> ident \<Rightarrow> BatchData \<Rightarrow> (MatchResult list \<times> CardinalityMatch list) engine" where
  "match_batch env bid data db =
     (case applyCardinalityMatching (ee_cardinality env) (matchAllRecords data (buildIndexes data)) data
             (Some \<lparr>opt_batchId = Some bid, opt_runId = Some (ee_runId env)\<rparr>) (e_scale db) of
        (out, scale) \<Rightarrow> (Inr out, db\<lparr>e_scale := scale\<rparr>))"

definition record_matching ::
  "EngineEnv \<Rightarrow> ident \<Rightarrow> MatchResult list \<Rightarrow> CardinalityMatch list \<Rightarrow> DecisionReport \<Rightarrow> unit engine" where
  "record_matching env bid results rels rep =
     and_then (append_event env bid ''MATCHING'' (matching_payload results)) (\<lambda>_.
     and_then (append_event env bid ''CARDINALITY_RELATIONSHIP'' (cardinality_payload rels)) (\<lambda>_.
     append_event env bid ''AI_ANALYSIS'' (analysis_payload (aggregate rep))))"

definition store_results ::
  "EngineEnv \<Rightarrow> ident \<Rightarrow> MatchResult list \<Rightarrow> CardinalityMatch list \<Rightarrow> DecisionReport \<Rightarrow> unit engine" where
  "store_results env bid results rels rep =
     (let decisionByPaymentId = set_all d_paymentId (decisions rep) Map.empty;
          exceptionResults = filter (\<lambda>r. status r \<noteq> AUTO_MATCHED) results
      in and_then (modify (\<lambda>db. db\<lparr>e_results := filter (\<lambda>r. rr_batchId r \<noteq> bid) (e_results db)\<rparr>)) (\<lambda>_.
         and_then (modify (\<lambda>db. db\<lparr>e_exceptions := filter (\<lambda>x. ex_batchId x \<noteq> bid) (e_exceptions db)\<rparr>)) (\<lambda>_.
         and_then (deleteCardinalityLinks bid) (\<lambda>_.
         and_then (modify (\<lambda>db. db\<lparr>e_results := insert_chunks DB_CHUNK_SIZE (map (result_row bid) results) (e_results db)\<rparr>)) (\<lambda>_.
         and_then (persistCardinalityLinks bid rels (Some (ee_runId env))) (\<lambda>_.
         modify (\<lambda>db. db\<lparr>e_exceptions := insert_chunks DB_CHUNK_SIZE
             (map (exception_row bid decisionByPaymentId) exceptionResults) (e_exceptions db)\<rparr>)))))))"

definition store_metadata ::
  "EngineEnv \<Rightarrow> ident \<Rightarrow> BatchData \<Rightarrow> MatchResult list \<Rightarrow> ReconciliationMetrics \<Rightarrow> string \<Rightarrow> unit engine" where
  "store_metadata env bid data results m outcome = modify (\<lambda>db. db\<lparr>e_runs :=
     persistRunMetadata (ee_metadataId env) (ee_now env)
       \<lparr>pi_runId = ee_runId env, pi_batchId = bid,
        pi_inputFingerprint = buildInputFingerprint (ee_printer env) (ee_sha env) data,
        pi_outcomeFingerprint = Some (buildOutcomeFingerprint (ee_printer env) (ee_sha env) results m),
        pi_outcomeStatus = outcome, pi_versions = None\<rparr> (e_runs db)\<rparr>)"

text \<open>The branch of a failed invariant: everything it records, then the error.\<close>

definition fail_control ::
  "EngineEnv \<Rightarrow> ident \<Rightarrow> BatchData \<Rightarrow> MatchResult list \<Rightarrow> ReconciliationMetrics \<Rightarrow> InvariantReport \<Rightarrow> 'a engine" where
  "fail_control env bid data results m irep =
     and_then (store_metadata env bid data results m ''CONTROL_FAILURE'') (\<lambda>_.
     and_then (update_batch bid (\<lambda>b. b\<lparr>bt_status := ''CONTROL_FAILURE''\<rparr>)) (\<lambda>_.
     and_then (write_log bid ''CONTROL_FAILURE'' (FailedInvariants (map f_code (failures irep))) (InvariantMetadata irep)) (\<lambda>_.
     throw (ControlFailure irep))))"

definition approval_for :: "RoutingOutcome \<Rightarrow> LedgerApprovalState" where
  "approval_for routing = (if routing = STRAIGHT_THROUGH then APPROVED
     else if routing = CONTROLLED_REVIEW then PENDING_REVIEW else PENDING_APPROVAL)"

definition end_status :: "RoutingOutcome \<Rightarrow> string" where
  "end_status routing = (if routing = STRAIGHT_THROUGH then ''COMPLETED''
     else if routing = CONTROLLED_REVIEW then ''UNDER_REVIEW'' else ''AWAITING_APPROVAL'')"

definition final_metrics :: "ReconciliationMetrics \<Rightarrow> FinalMetrics" where
  "final_metrics m = \<lparr>fm_totalRecords = m_totalRecords m, fm_autoMatched = m_autoMatched m,
     fm_exceptionsFound = m_exceptionsFound m, fm_unresolvedCount = m_unresolvedCount m, fm_accuracy = m_accuracy m,
     fm_precision = m_precision m, fm_recall = m_recall m, fm_pass1Accuracy = m_accuracy m,
     fm_amountAtRisk = m_amountAtRisk m\<rparr>"

definition riskGateAudit :: "ident \<Rightarrow> GateVerdict \<Rightarrow> int \<Rightarrow> DecisionReport \<Rightarrow> unit engine" where
  "riskGateAudit bid v attempts rep = write_log bid ''RISK_GATE'' (GateRouted (v_reason v))
     (GateMetadata (v_routing v) (v_riskLevel v) attempts (aggregate rep))"

definition hold_batch ::
  "ident \<Rightarrow> GateVerdict \<Rightarrow> int \<Rightarrow> DecisionReport \<Rightarrow> ReconciliationMetrics \<Rightarrow> string \<Rightarrow> ReconciliationMetrics engine" where
  "hold_batch bid v attempts rep m st =
     and_then (update_batch bid (\<lambda>b. b\<lparr>bt_status := st\<rparr>)) (\<lambda>_.
     and_then (riskGateAudit bid v attempts rep) (\<lambda>_. give m))"

definition complete_batch ::
  "EngineEnv \<Rightarrow> ident \<Rightarrow> GateVerdict \<Rightarrow> int \<Rightarrow> DecisionReport \<Rightarrow> ReconciliationMetrics \<Rightarrow> ReconciliationMetrics engine" where
  "complete_batch env bid v attempts rep m =
     and_then (riskGateAudit bid v attempts rep) (\<lambda>_.
     and_then (update_batch bid (\<lambda>b. b\<lparr>bt_status := ''COMPLETED'', bt_completedAt := Some (ee_now env),
         bt_metrics := Some (final_metrics m)\<rparr>)) (\<lambda>_.
     and_then (write_log bid ''RECONCILIATION_COMPLETED'' (CompletedWith (m_accuracy m) (m_exceptionsFound m))
         (TotalsMetadata (m_totalRecords m) (m_autoMatched m) (m_accuracy m))) (\<lambda>_.
     and_then (append_event env bid ''FINALIZATION'' (finalization_payload (ee_printer env) v m)) (\<lambda>_. give m))))"

definition correction_attempts :: "ident \<Rightarrow> EngineDb \<Rightarrow> int" where
  "correction_attempts bid db =
     int (length (filter (\<lambda>l. al_batchId l = bid \<and> al_action l = ''CONTROL_FAILURE'') (e_auditLog db)))"

definition route_batch ::
  "EngineEnv \<Rightarrow> ident \<Rightarrow> BatchData \<Rightarrow> MatchResult list \<Rightarrow> DecisionReport \<Rightarrow> ReconciliationMetrics \<Rightarrow> InvariantReport
     \<Rightarrow> ReconciliationMetrics engine" where
  "route_batch env bid data results rep m irep db =
     (let attempts = correction_attempts bid db; v = evaluateGate rep irep attempts
      in and_then (modify (\<lambda>db. db\<lparr>e_ledger := fst (persistLedger bid
             (buildLedgerEntries results rep (approval_for (v_routing v)) (Some (ee_runId env))) (e_ledger db))\<rparr>)) (\<lambda>_.
         and_then (store_metadata env bid data results m (end_status (v_routing v))) (\<lambda>_.
         if v_routing v = MAKER_CHECKER_REQUIRED then hold_batch bid v attempts rep m ''AWAITING_APPROVAL''
         else if v_routing v = CONTROLLED_REVIEW then hold_batch bid v attempts rep m ''UNDER_REVIEW''
         else complete_batch env bid v attempts rep m)) db)"

definition gate_batch ::
  "EngineEnv \<Rightarrow> ident \<Rightarrow> BatchData \<Rightarrow> MatchResult list \<Rightarrow> CardinalityMatch list \<Rightarrow> DecisionReport
     \<Rightarrow> ReconciliationMetrics \<Rightarrow> ReconciliationMetrics engine" where
  "gate_batch env bid data results rels rep m =
     (let irep = evaluateInvariants data results m rels DEFAULT_TOLERANCE
      in and_then (append_event env bid ''INVARIANT_RESULT'' (invariant_payload irep)) (\<lambda>_.
         if length (failures irep) > 0 then fail_control env bid data results m irep
         else route_batch env bid data results rep m irep))"

definition runReconciliation :: "EngineEnv \<Rightarrow> ident \<Rightarrow> ReconciliationMetrics engine" where
  "runReconciliation env bid =
     and_then (begin_run bid) (\<lambda>_.
     let data = fetchBatchData (ee_rows env) bid
     in and_then (record_ingestion env bid data) (\<lambda>_.
        and_then (match_batch env bid data) (\<lambda>(results, rels).
        let rep = evaluateBatchDecisions results data rels; m = evaluateResults results data
        in and_then (record_matching env bid results rels rep) (\<lambda>_.
           and_then (store_results env bid results rels rep) (\<lambda>_.
           gate_batch env bid data results rels rep m)))))"

end
