(* ===== verification/Matcher_Correct.thy ===== *)
theory Matcher_Correct
  imports Matcher Samples
begin

text \<open>
  Facts about the matcher: what each step leaves unchanged, which credits the fuzzy search
  offers, what an automatic match guarantees, and how the set of taken credits relates to the
  results. The lemmas on lookups are proved once in the locale \<open>match_index\<close>.
\<close>

section \<open>What a step leaves unchanged\<close>

definition identity_part where
  "identity_part r = ((paymentId r, orderId r, settlementIds r, refundIds r, chargebackIds r),
     (orderAmount r, paymentAmount r, paymentFee r, paymentTax r, refundAmount r,
      chargebackAmount r, expectedNetAmount r),
     (cardinalityType r, cardinalityReason r, relationshipScore r))"

lemma identity_part_updates [frame_simps]:
  "identity_part (r\<lparr>status := st\<rparr>) = identity_part r"
  "identity_part (r\<lparr>confidenceScore := i\<rparr>) = identity_part r"
  "identity_part (r\<lparr>matchMethod := m\<rparr>) = identity_part r"
  "identity_part (r\<lparr>matchDetails := d\<rparr>) = identity_part r"
  "identity_part (r\<lparr>mismatchAmount := a\<rparr>) = identity_part r"
  "identity_part (r\<lparr>actualSettledAmount := a\<rparr>) = identity_part r"
  "identity_part (r\<lparr>bankCreditedAmount := a\<rparr>) = identity_part r"
  "identity_part (r\<lparr>bankTxnIds := ids\<rparr>) = identity_part r"
  by (simp_all add: identity_part_def)

lemma identity_part_eqD:
  assumes "identity_part r = identity_part r'"
  shows "paymentId r = paymentId r'" "orderId r = orderId r'" "settlementIds r = settlementIds r'"
    "refundIds r = refundIds r'" "chargebackIds r = chargebackIds r'"
    "orderAmount r = orderAmount r'" "paymentAmount r = paymentAmount r'"
    "paymentFee r = paymentFee r'" "paymentTax r = paymentTax r'"
    "refundAmount r = refundAmount r'" "chargebackAmount r = chargebackAmount r'"
    "expectedNetAmount r = expectedNetAmount r'" "cardinalityType r = cardinalityType r'"
    "cardinalityReason r = cardinalityReason r'" "relationshipScore r = relationshipScore r'"
  using assms by (simp_all add: identity_part_def)

lemma flag_delay_identity [frame_simps]: "identity_part (flag_delay msg s b r) = identity_part r"
  by (simp add: flag_delay_def frame_simps Let_def split: option.split)

lemma attach_credit_identity [frame_simps]: "identity_part (attach_credit m b r) = identity_part r"
  by (simp add: attach_credit_def frame_simps)

lemma exact_utr_match_identity [frame_simps]: "identity_part (exact_utr_match s b r) = identity_part r"
  by (simp add: exact_utr_match_def frame_simps Let_def)

lemma fuzzy_match_identity [frame_simps]: "identity_part (fuzzy_match s b r) = identity_part r"
  by (simp add: fuzzy_match_def frame_simps)

lemma ambiguous_match_identity [frame_simps]: "identity_part (ambiguous_match cs r) = identity_part r"
  by (simp add: ambiguous_match_def frame_simps)

lemma no_bank_match_identity [frame_simps]: "identity_part (no_bank_match idx s r) = identity_part r"
  by (simp add: no_bank_match_def frame_simps Let_def split: option.split)

lemma classify_amount_identity [frame_simps]: "identity_part (classify_amount p s r) = identity_part r"
  by (simp add: classify_amount_def frame_simps Let_def)

lemma find_credit_identity [frame_simps]:
  "identity_part (fst (snd (find_credit idx s r m))) = identity_part r"
  by (simp add: find_credit_def frame_simps split: option.split list.split)

lemma no_settlement_identity [frame_simps]: "identity_part (no_settlement_result idx p r) = identity_part r"
  by (simp add: no_settlement_result_def frame_simps Let_def split: option.split)

lemma duplicate_identity [frame_simps]: "identity_part (duplicate_result ss r) = identity_part r"
  by (simp add: duplicate_result_def frame_simps Let_def)

lemma single_settlement_identity [frame_simps]:
  "identity_part (fst (single_settlement_result idx p s r m)) = identity_part r"
  using find_credit_identity [of idx s "classify_amount p s (r\<lparr>actualSettledAmount := Some (s_amount s)\<rparr>)" m]
  by (cases "find_credit idx s (classify_amount p s (r\<lparr>actualSettledAmount := Some (s_amount s)\<rparr>)) m")
    (simp add: single_settlement_result_def frame_simps Let_def)

lemma processPayment_identity [frame_simps]:
  "identity_part (fst (processPayment idx p m)) = identity_part (initial_result idx p)"
  by (simp add: processPayment_def frame_simps Let_def split: list.split)

lemmas processPayment_fields = identity_part_eqD [OF processPayment_identity]

lemma initial_result_fields [simp]:
  "paymentId (initial_result idx p) = p_paymentId p"
  "orderId (initial_result idx p) = p_orderId p"
  "bankTxnIds (initial_result idx p) = []"
  "matchMethod (initial_result idx p) = ''NONE''"
  "status (initial_result idx p) = AUTO_MATCHED"
  "paymentAmount (initial_result idx p) = p_amount p"
  "paymentFee (initial_result idx p) = p_fee p"
  "paymentTax (initial_result idx p) = p_tax p"
  "settlementIds (initial_result idx p) = map s_settlementId (get_list (settlementsByPaymentId idx) (p_paymentId p))"
  "refundAmount (initial_result idx p) = sum_list (map r_amount (get_list (refundsByPaymentId idx) (p_paymentId p)))"
  "chargebackAmount (initial_result idx p) = sum_list (map c_amount (get_list (chargebacksByPaymentId idx) (p_paymentId p)))"
  "expectedNetAmount (initial_result idx p) =
     p_amount p - p_fee p - p_tax p
       - sum_list (map r_amount (get_list (refundsByPaymentId idx) (p_paymentId p)))
       - sum_list (map c_amount (get_list (chargebacksByPaymentId idx) (p_paymentId p)))"
  "cardinalityReason (initial_result idx p) = None"
  by (simp_all add: initial_result_def Let_def)

section \<open>The loop over payments\<close>

lemma processPayments_paymentIds:
  "map paymentId (fst (processPayments idx ps m)) = map p_paymentId ps"
  by (induction ps arbitrary: m) (auto simp: processPayment_fields)

lemma processPayments_in:
  "r \<in> set (fst (processPayments idx ps m)) \<Longrightarrow> \<exists>p \<in> set ps. \<exists>m'. r = fst (processPayment idx p m')"
  by (induction ps arbitrary: m) auto

lemma bank_ids_simps [simp]:
  "bankTxnIds (flag_delay msg s b r) = bankTxnIds r"
  "bankTxnIds (attach_credit method b r) = [b_txnId b]"
  "bankTxnIds (exact_utr_match s b r) = [b_txnId b]"
  "bankTxnIds (fuzzy_match s b r) = [b_txnId b]"
  "bankTxnIds (ambiguous_match cs r) = bankTxnIds r"
  "bankTxnIds (no_bank_match idx s r) = bankTxnIds r"
  "bankTxnIds (classify_amount p s r) = bankTxnIds r"
  "bankTxnIds (no_settlement_result idx p r) = bankTxnIds r"
  "bankTxnIds (duplicate_result ss r) = bankTxnIds r"
proof -
  show fd: "bankTxnIds (flag_delay msg s b r) = bankTxnIds r" for msg s b r
    by (simp add: flag_delay_def Let_def split: option.split)
  show ac: "bankTxnIds (attach_credit mth b r) = [b_txnId b]" for mth b r
    by (simp add: attach_credit_def)
  show "bankTxnIds (exact_utr_match s b r) = [b_txnId b]"
    by (simp add: exact_utr_match_def fd ac Let_def)
  show "bankTxnIds (fuzzy_match s b r) = [b_txnId b]"
    by (simp add: fuzzy_match_def fd ac)
  show "bankTxnIds (ambiguous_match cs r) = bankTxnIds r"
    by (simp add: ambiguous_match_def)
  show "bankTxnIds (no_bank_match idx s r) = bankTxnIds r"
    by (simp add: no_bank_match_def Let_def split: option.split)
  show "bankTxnIds (classify_amount p s r) = bankTxnIds r"
    by (simp add: classify_amount_def Let_def)
  show "bankTxnIds (no_settlement_result idx p r) = bankTxnIds r"
    by (simp add: no_settlement_result_def Let_def split: option.split)
  show "bankTxnIds (duplicate_result ss r) = bankTxnIds r"
    by (simp add: duplicate_result_def Let_def)
qed

text \<open>The taken credits are exactly the credits the results carry.\<close>

lemma processPayment_taken:
  "snd (processPayment idx p m) = m \<union> set (bankTxnIds (fst (processPayment idx p m)))"
  by (auto simp: processPayment_def single_settlement_result_def find_credit_def Let_def
      split: list.split option.split)

lemma processPayments_taken:
  "snd (processPayments idx ps m) = m \<union> \<Union> (set ` bankTxnIds ` set (fst (processPayments idx ps m)))"
  by (induction ps arbitrary: m) (auto simp: processPayment_taken)

section \<open>The fuzzy search is the linear scan\<close>

lemma matching_amounts_mset:
  assumes "sorted (sortedBankAmounts idx)" "lo \<le> hi"
  shows "mset (matching_amounts idx lo hi) = mset (filter (\<lambda>x. lo \<le> x \<and> x \<le> hi) (sortedBankAmounts idx))"
proof -
  let ?arr = "sortedBankAmounts idx"
  let ?s = "lowerBound ?arr lo" and ?e = "upperBound ?arr hi"
  have slice: "take (?e - ?s) (drop ?s ?arr) = filter (\<lambda>x. lo \<le> x \<and> x \<le> hi) ?arr"
    unfolding lowerBound_def upperBound_def by (rule bisect_slice) (rule assms)+
  show ?thesis
  proof (cases "?e - ?s = 1")
    case True
    then have "length (take (?e - ?s) (drop ?s ?arr)) \<le> 1" by simp
    show ?thesis
    proof (cases "?s < length ?arr")
      case in_range: True
      with True have "take (?e - ?s) (drop ?s ?arr) = [?arr ! ?s]"
        by (simp add: take_Suc hd_drop_conv_nth)
      with True slice show ?thesis by (simp add: matching_amounts_def Let_def)
    next
      case False
      then have "?s = length ?arr" using bisect_takeWhile_le [of "\<lambda>x. x < lo" ?arr] by (simp add: lowerBound_def)
      moreover have "?e \<le> length ?arr" using bisect_takeWhile_le by (simp add: upperBound_def)
      ultimately show ?thesis using True by simp
    qed
  next
    case False
    then show ?thesis unfolding slice [symmetric] by (auto simp: matching_amounts_def Let_def)
  qed
qed

definition fuzzy_eligible :: "NormalizedSettlement \<Rightarrow> ident set \<Rightarrow> NormalizedBankTxn \<Rightarrow> bool" where
  "fuzzy_eligible s matched b =
     (is_credit b \<and> \<bar>b_amount b - s_amount s\<bar> \<le> fuzzy_tolerance s
      \<and> b_txnId b \<notin> matched \<and> in_date_window s b)"

lemma fuzzy_tolerance_ge: "100 \<le> fuzzy_tolerance s"
  by (simp add: fuzzy_tolerance_def AMOUNT_TOLERANCE_PAISE_def)

context match_index
begin

lemma fuzzy_candidates_scan:
  "mset (findFuzzyBankCandidates s (build d) matched) = mset (filter (fuzzy_eligible s matched) (bankTransactions d))"
proof -
  let ?tol = "fuzzy_tolerance s"
  let ?Q = "\<lambda>b. b_txnId b \<notin> matched \<and> is_credit b \<and> in_date_window s b"
  let ?ks = "filter (\<lambda>x. s_amount s - ?tol \<le> x \<and> x \<le> s_amount s + ?tol) (sortedBankAmounts (build d))"
  let ?f = "\<lambda>a. filter ?Q (get_list (map_of (bankByAmount (build d))) a)"
  have "mset (matching_amounts (build d) (s_amount s - ?tol) (s_amount s + ?tol)) = mset ?ks"
    by (rule matching_amounts_mset) (use amounts_sorted fuzzy_tolerance_ge [of s] in auto)
  then have "mset (concat (map ?f (matching_amounts (build d) (s_amount s - ?tol) (s_amount s + ?tol))))
      = mset (concat (map ?f ?ks))"
    by (rule mset_concat_cong)
  also have "\<dots> = mset (concat (map (\<lambda>a. filter (\<lambda>b. ?Q b \<and> b_amount b = a) (bankTransactions d)) ?ks))"
    by (simp add: amount_group conj_commute conj_left_commute cong: filter_cong)
  also have "\<dots> = mset (filter (\<lambda>b. ?Q b \<and> b_amount b \<in> set ?ks) (bankTransactions d))"
    by (rule mset_concat_filter_keys) (simp add: amounts_distinct)
  also have "filter (\<lambda>b. ?Q b \<and> b_amount b \<in> set ?ks) (bankTransactions d)
      = filter (fuzzy_eligible s matched) (bankTransactions d)"
    by (rule filter_cong) (auto simp: fuzzy_eligible_def amounts_set abs_le_iff)
  finally show ?thesis by (simp add: findFuzzyBankCandidates_def Let_def)
qed

lemma fuzzy_candidate_eligible:
  assumes "b \<in> set (findFuzzyBankCandidates s (build d) matched)"
  shows "b \<in> set (bankTransactions d) \<and> fuzzy_eligible s matched b"
proof -
  have "set (findFuzzyBankCandidates s (build d) matched) = set (filter (fuzzy_eligible s matched) (bankTransactions d))"
    by (rule mset_eq_setD) (rule fuzzy_candidates_scan)
  with assms show ?thesis by simp
qed

end

section \<open>When a result stays automatically matched\<close>

lemma classify_amount_auto:
  "status r = AUTO_MATCHED \<Longrightarrow> status (classify_amount p s r) = AUTO_MATCHED \<longleftrightarrow> amount_delta s r \<le> 100"
  by (auto simp: classify_amount_def Let_def AMOUNT_TOLERANCE_PAISE_def)

lemma classify_amount_method [simp]: "matchMethod (classify_amount p s r) = matchMethod r"
  by (simp add: classify_amount_def Let_def)

lemma flag_delay_auto:
  "status (flag_delay msg s b r) = AUTO_MATCHED \<longleftrightarrow>
     status r = AUTO_MATCHED \<and> (\<forall>t. s_settledAt s = Some t \<longrightarrow> b_txnDate b - t \<le> 24 * ms_per_hour)"
  by (auto simp: flag_delay_def Let_def BANK_CREDIT_EXPECTED_HOURS_def split: option.split)

lemma attach_credit_status [simp]: "status (attach_credit m b r) = status r"
  by (simp add: attach_credit_def)

lemma exact_utr_match_auto:
  "status (exact_utr_match s b r) = AUTO_MATCHED \<Longrightarrow>
     status r = AUTO_MATCHED \<and> \<bar>b_amount b - s_amount s\<bar> \<le> 100
     \<and> (\<forall>t. s_settledAt s = Some t \<longrightarrow> b_txnDate b - t \<le> 24 * ms_per_hour)"
  by (auto simp: exact_utr_match_def Let_def flag_delay_auto AMOUNT_TOLERANCE_PAISE_def split: if_splits)

lemma fuzzy_match_auto:
  "status (fuzzy_match s b r) = AUTO_MATCHED \<Longrightarrow>
     status r = AUTO_MATCHED
     \<and> (\<forall>t. s_settledAt s = Some t \<longrightarrow> b_txnDate b - t \<le> 24 * ms_per_hour)"
  by (simp add: fuzzy_match_def flag_delay_auto)

lemma ambiguous_match_not_auto: "status (ambiguous_match cs r) \<noteq> AUTO_MATCHED"
  by (simp add: ambiguous_match_def)

lemma no_bank_match_low_score:
  assumes "matchMethod r = ''NONE''"
  shows "score_single s None (no_bank_match idx s r) \<le> 25"
proof -
  have "matchMethod (no_bank_match idx s r) = ''NO_BANK_MATCH''"
    using assms by (simp add: no_bank_match_def Let_def split: option.split)
  then show ?thesis
    unfolding score_single_def by (intro no_credit_low_confidence) simp_all
qed

text \<open>What the search for a credit establishes when the result stays an automatic match.\<close>

definition credit_supports :: "BatchData \<Rightarrow> ident set \<Rightarrow> NormalizedSettlement \<Rightarrow> NormalizedBankTxn \<Rightarrow> bool" where
  "credit_supports d matched s b \<longleftrightarrow>
     b \<in> set (bankTransactions d) \<and> is_credit b
     \<and> (b_utr b = s_utr s \<and> s_utr s \<noteq> None \<and> \<bar>b_amount b - s_amount s\<bar> \<le> 100
        \<or> fuzzy_eligible s matched b)
     \<and> (\<forall>t. s_settledAt s = Some t \<longrightarrow> b_txnDate b - t \<le> 24 * ms_per_hour)"

context match_index
begin

lemma find_credit_auto:
  assumes fc: "find_credit (build d) s r matched = (txn, r1, matched')"
    and none: "matchMethod r = ''NONE''"
    and auto: "status r1 = AUTO_MATCHED" and score: "50 \<le> score_single s txn r1"
  shows "status r = AUTO_MATCHED \<and> (\<exists>b. txn = Some b \<and> bankTxnIds r1 = [b_txnId b] \<and> credit_supports d matched s b)"
proof (cases "case s_utr s of None \<Rightarrow> None | Some u \<Rightarrow> if u = [] then None else bankByUtr (build d) u")
  case (Some b)
  then obtain u where u: "s_utr s = Some u" "bankByUtr (build d) u = Some b"
    by (auto split: option.splits if_splits)
  from fc Some have eqs: "txn = Some b" "r1 = exact_utr_match s b r"
    by (auto simp: find_credit_def)
  with auto have "status r = AUTO_MATCHED \<and> \<bar>b_amount b - s_amount s\<bar> \<le> 100
      \<and> (\<forall>t. s_settledAt s = Some t \<longrightarrow> b_txnDate b - t \<le> 24 * ms_per_hour)"
    by (blast dest: exact_utr_match_auto)
  with eqs u utr_lookup_sound [OF u(2)] show ?thesis by (auto simp: credit_supports_def)
next
  case None
  show ?thesis
  proof (cases "findFuzzyBankCandidates s (build d) matched")
    case Nil
    with fc None have eqs: "txn = None" "r1 = no_bank_match (build d) s r"
      by (auto simp: find_credit_def)
    with score no_bank_match_low_score [OF none, of s "build d"] show ?thesis by simp
  next
    case (Cons b rest)
    show ?thesis
    proof (cases rest)
      case Nil
      with fc None Cons have eqs: "txn = Some b" "r1 = fuzzy_match s b r"
        by (auto simp: find_credit_def)
      moreover have "b \<in> set (bankTransactions d) \<and> fuzzy_eligible s matched b"
        by (rule fuzzy_candidate_eligible) (simp add: Cons)
      ultimately show ?thesis
        using fuzzy_match_auto [of s b r] auto
        by (auto simp: credit_supports_def fuzzy_eligible_def)
    next
      case (Cons c rest')
      with fc None \<open>findFuzzyBankCandidates s (build d) matched = b # rest\<close>
      have "r1 = ambiguous_match (b # c # rest') r" by (auto simp: find_credit_def)
      with auto ambiguous_match_not_auto show ?thesis by blast
    qed
  qed
qed

lemma processPayment_auto:
  assumes auto: "status (fst (processPayment (build d) p matched)) = AUTO_MATCHED"
  shows "\<exists>s b. filter (\<lambda>s. s_paymentId s = p_paymentId p) (settlements d) = [s]
    \<and> bankTxnIds (fst (processPayment (build d) p matched)) = [b_txnId b]
    \<and> credit_supports d matched s b
    \<and> \<bar>expectedNetAmount (fst (processPayment (build d) p matched)) - s_amount s\<bar> \<le> 100
    \<and> 50 \<le> confidenceScore (fst (processPayment (build d) p matched))"
proof (cases "filter (\<lambda>s. s_paymentId s = p_paymentId p) (settlements d)")
  case Nil
  with auto show ?thesis
    by (auto simp: processPayment_def settlement_group no_settlement_result_def Let_def split: option.splits if_splits)
next
  case (Cons s rest)
  show ?thesis
  proof (cases rest)
    case (Cons s' ss)
    with \<open>filter _ _ = s # rest\<close> auto show ?thesis
      by (simp add: processPayment_def settlement_group duplicate_result_def Let_def)
  next
    case Nil
    let ?r0 = "initial_result (build d) p\<lparr>actualSettledAmount := Some (s_amount s)\<rparr>"
    let ?r1 = "classify_amount p s ?r0"
    obtain txn r2 matched' where fc: "find_credit (build d) s ?r1 matched = (txn, r2, matched')"
      by (metis prod_cases3)
    have fst_eq: "fst (processPayment (build d) p matched)
        = r2\<lparr>confidenceScore := score_single s txn r2, status := classifyByConfidence (score_single s txn r2) (status r2)\<rparr>"
      using Cons Nil fc
      by (simp add: processPayment_def settlement_group single_settlement_result_def Let_def)
    with auto have r2: "status r2 = AUTO_MATCHED" "50 \<le> score_single s txn r2"
      by (simp_all add: classifyByConfidence_auto)
    from find_credit_auto [OF fc _ r2] obtain b where b: "status ?r1 = AUTO_MATCHED"
      "bankTxnIds r2 = [b_txnId b]" "credit_supports d matched s b"
      by auto
    have "amount_delta s ?r0 \<le> 100"
      using b(1) by (subst (asm) classify_amount_auto) simp_all
    then have "\<bar>expectedNetAmount (fst (processPayment (build d) p matched)) - s_amount s\<bar> \<le> 100"
      by (simp add: processPayment_fields amount_delta_def)
    with Cons Nil fst_eq b r2(2) show ?thesis by auto
  qed
qed

end

section \<open>Properties\<close>

lemma orphanResult_fields [simp]:
  "status (orphanResult b) = ORPHAN_BANK_CREDIT" "bankTxnIds (orphanResult b) = [b_txnId b]"
  "expectedNetAmount (orphanResult b) = 0" "confidenceScore (orphanResult b) = 25"
  "bankCreditedAmount (orphanResult b) = Some (b_amount b)"
  by (simp_all add: orphanResult_def)

lemma status_not_orphan [simp]:
  "status (flag_delay msg s b r) = ORPHAN_BANK_CREDIT \<longleftrightarrow> status r = ORPHAN_BANK_CREDIT"
  "classifyByConfidence sc st = ORPHAN_BANK_CREDIT \<longleftrightarrow> st = ORPHAN_BANK_CREDIT"
  by (auto simp: flag_delay_def classifyByConfidence_def Let_def split: option.splits if_splits)

lemma classify_amount_not_orphan:
  "status r \<noteq> ORPHAN_BANK_CREDIT \<Longrightarrow> status (classify_amount p s r) \<noteq> ORPHAN_BANK_CREDIT"
  by (simp add: classify_amount_def Let_def)

lemma credit_steps_not_orphan:
  assumes "status r \<noteq> ORPHAN_BANK_CREDIT"
  shows "status (exact_utr_match s b r) \<noteq> ORPHAN_BANK_CREDIT"
    and "status (fuzzy_match s b r) \<noteq> ORPHAN_BANK_CREDIT"
    and "status (ambiguous_match cs r) \<noteq> ORPHAN_BANK_CREDIT"
    and "status (no_bank_match idx s r) \<noteq> ORPHAN_BANK_CREDIT"
  using assms
  by (simp_all add: exact_utr_match_def fuzzy_match_def ambiguous_match_def no_bank_match_def Let_def
      split: option.split)

lemma find_credit_not_orphan:
  assumes "status r \<noteq> ORPHAN_BANK_CREDIT"
  shows "status (fst (snd (find_credit idx s r m))) \<noteq> ORPHAN_BANK_CREDIT"
  using credit_steps_not_orphan [OF assms]
  by (simp add: find_credit_def split: option.split list.split)

lemma processPayment_not_orphan: "status (fst (processPayment idx p m)) \<noteq> ORPHAN_BANK_CREDIT"
proof -
  have "status (fst (single_settlement_result idx p s r m)) \<noteq> ORPHAN_BANK_CREDIT"
    if "status r = AUTO_MATCHED" for s r
  proof -
    have "status (classify_amount p s (r\<lparr>actualSettledAmount := Some (s_amount s)\<rparr>)) \<noteq> ORPHAN_BANK_CREDIT"
      by (rule classify_amount_not_orphan) (simp add: that)
    from find_credit_not_orphan [OF this, of idx s m] show ?thesis
      by (cases "find_credit idx s (classify_amount p s (r\<lparr>actualSettledAmount := Some (s_amount s)\<rparr>)) m")
        (simp add: single_settlement_result_def Let_def)
  qed
  moreover have "status (no_settlement_result idx p r) \<noteq> ORPHAN_BANK_CREDIT" for r
    by (simp add: no_settlement_result_def Let_def split: option.split)
  moreover have "status (duplicate_result ss r) \<noteq> ORPHAN_BANK_CREDIT" for ss r
    by (simp add: duplicate_result_def Let_def)
  ultimately show ?thesis
    by (simp add: processPayment_def Let_def split: list.split)
qed

lemma matchAllRecords_parts:
  "matchAllRecords d idx = fst (processPayments idx (capturedPayments d) {})
     @ map orphanResult (filter (is_orphan idx (snd (processPayments idx (capturedPayments d) {}))) (bankTransactions d))"
  by (simp add: matchAllRecords_def split: prod.split)




lemma credits_covered:
  "b \<in> set (bankTransactions d) \<Longrightarrow> is_credit b \<Longrightarrow>
     b_txnId b \<in> \<Union> (set ` bankTxnIds ` set (matchAllRecords d idx)) \<or> matched_to_settlement idx b"
  by (auto simp: matchAllRecords_parts is_orphan_def processPayments_taken)

text \<open>
  No bank credit is lost: every credit of the batch is carried by some result (a matched
  payment or an orphan row) or shares its UTR with a settlement, whose own result reports it.
\<close>

theorem credits_accounted:
  "{b \<in> set (bankTransactions d). is_credit b}
     \<subseteq> {b. b_txnId b \<in> \<Union> (set ` bankTxnIds ` set (matchAllRecords d idx)) \<or> matched_to_settlement idx b}"
  using credits_covered by blast

text \<open>
  The indexed fuzzy search (bisection over the distinct sorted amounts, then the credits
  stored under each) returns exactly the credits a linear scan of the statement would: the
  untaken credits within the amount tolerance and the date window, each once.
\<close>

theorem fuzzy_search_is_scan:
  "mset (findFuzzyBankCandidates s (buildIndexes d) matched)
     = mset (filter (\<lambda>b. is_credit b \<and> \<bar>b_amount b - s_amount s\<bar> \<le> max 100 (js_round_div (s_amount s) 100)
                \<and> b_txnId b \<notin> matched \<and> in_date_window s b) (bankTransactions d))"
  using batch.fuzzy_candidates_scan [of s d matched]
  by (simp add: fuzzy_eligible_def [abs_def] fuzzy_tolerance_def AMOUNT_TOLERANCE_PAISE_def)

end
