(* ===== verification/Invariants_Correct.thy ===== *)
theory Invariants_Correct
  imports Invariants Matcher_Correct
begin

text \<open>
  When the invariants gate passes: the checks against the evaluator's metrics, and the checks of
  completeness, conservation and attribution against the matcher's results, for any later stage
  that keeps the accounting of those results.
\<close>

section \<open>Stages that keep the accounting\<close>

definition keeps_accounting :: "MatchResult \<Rightarrow> MatchResult \<Rightarrow> bool" where
  "keeps_accounting r r' \<longleftrightarrow>
     paymentId r' = paymentId r \<and> orderId r' = orderId r \<and> status r' = status r
     \<and> expectedNetAmount r' = expectedNetAmount r
     \<and> paymentAmount r' = paymentAmount r \<and> paymentFee r' = paymentFee r \<and> paymentTax r' = paymentTax r
     \<and> refundAmount r' = refundAmount r \<and> chargebackAmount r' = chargebackAmount r
     \<and> confidenceScore r \<le> confidenceScore r'
     \<and> set (settlementIds r) \<subseteq> set (settlementIds r') \<and> set (bankTxnIds r) \<subseteq> set (bankTxnIds r')"

abbreviation keeps_all :: "MatchResult list \<Rightarrow> MatchResult list \<Rightarrow> bool" where
  "keeps_all \<equiv> list_all2 keeps_accounting"

lemma keeps_accounting_refl [simp]: "keeps_accounting r r"
  by (simp add: keeps_accounting_def)

lemma keeps_accounting_trans:
  "keeps_accounting a b \<Longrightarrow> keeps_accounting b c \<Longrightarrow> keeps_accounting a c"
  by (auto simp: keeps_accounting_def)

lemma keeps_all_refl [simp]: "keeps_all rs rs"
  by (simp add: list.rel_refl)

lemma keeps_all_trans: "keeps_all a b \<Longrightarrow> keeps_all b c \<Longrightarrow> keeps_all a c"
  using list_all2_trans [of keeps_accounting keeps_accounting keeps_accounting] keeps_accounting_trans
  by blast

lemma keeps_all_maps:
  assumes "keeps_all rs rs'"
  shows "map paymentId rs' = map paymentId rs" "map status rs' = map status rs"
    "map expectedNetAmount rs' = map expectedNetAmount rs"
  using assms by (induction rule: list_all2_induct) (auto simp: keeps_accounting_def)

lemma keeps_all_attributed: "keeps_all rs rs' \<Longrightarrow> attributedTxnIds rs \<subseteq> attributedTxnIds rs'"
  by (induction rule: list_all2_induct) (auto simp: keeps_accounting_def attributedTxnIds_def)

lemma keeps_all_settlements:
  "keeps_all rs rs' \<Longrightarrow> set (concat (map settlementIds rs)) \<subseteq> set (concat (map settlementIds rs'))"
  by (induction rule: list_all2_induct) (auto simp: keeps_accounting_def)

section \<open>Each check\<close>

lemma fail_when_Nil [simp]: "fail_when b f = [] \<longleftrightarrow> \<not> b"
  by (simp add: fail_when_def)

lemma ledger_check_passes: "fst (checkLedgerConsistency d rs (evaluateResults rs d)) = []"
  by (simp add: checkLedgerConsistency_def ledger_fields_def evaluateResults_def payment_exceptions_def
      is_orphan_id_def Let_def)

lemma sharesUtr_matched: "sharesUtrWithSettlement d b = matched_to_settlement (buildIndexes d) b"
  by (simp add: sharesUtrWithSettlement_def settlement_utrs_def matched_to_settlement_def buildIndexes_def Let_def
      split: option.split)

lemma matcher_no_unattributed:
  assumes "keeps_all (matchAllRecords d (buildIndexes d)) rs"
  shows "filter (unattributed d rs) (filter is_credit (bankTransactions d)) = []"
proof (rule filter_False, rule ballI)
  fix b
  assume "b \<in> set (filter is_credit (bankTransactions d))"
  with credits_covered [of b d "buildIndexes d"] keeps_all_attributed [OF assms]
  show "\<not> unattributed d rs b"
    by (auto simp: unattributed_def sharesUtr_matched attributedTxnIds_def)
qed

lemma aggTolerance_ge: "tol \<le> aggTolerance a tol"
  by (simp add: aggTolerance_def)

lemma sum_list_mset_cong:
  fixes f :: "'a \<Rightarrow> int"
  assumes "mset xs = mset ys"
  shows "sum_list (map f xs) = sum_list (map f ys)"
  using assms by (metis mset_map sum_mset_sum_list)

lemma sum_over_groups:
  fixes f :: "'a \<Rightarrow> int"
  assumes "distinct ks" "\<And>x. x \<in> set xs \<Longrightarrow> P x \<and> key x \<in> set ks"
  shows "sum_list (map (\<lambda>k. sum_list (map f (filter (\<lambda>x. P x \<and> key x = k) xs))) ks) = sum_list (map f xs)"
proof -
  have "sum_list (map (\<lambda>k. sum_list (map f (filter (\<lambda>x. P x \<and> key x = k) xs))) ks)
      = sum_list (map f (concat (map (\<lambda>k. filter (\<lambda>x. P x \<and> key x = k) xs) ks)))"
    by (induction ks) auto
  also have "\<dots> = sum_list (map f (filter (\<lambda>x. P x \<and> key x \<in> set ks) xs))"
    by (rule sum_list_mset_cong) (rule mset_concat_filter_keys [OF assms(1)])
  also have "filter (\<lambda>x. P x \<and> key x \<in> set ks) xs = xs"
    using assms(2) by (simp add: filter_id_conv)
  finally show ?thesis .
qed

text \<open>A batch in which every auxiliary row belongs to a captured payment and takes effect.\<close>

definition wf_batch :: "BatchData \<Rightarrow> bool" where
  "wf_batch d \<longleftrightarrow>
     (let ids = map p_paymentId (payments d)
      in list_all (\<lambda>p. p_status p = ''captured'') (payments d) \<and> distinct ids
         \<and> list_all (\<lambda>r. refund_processed r \<and> r_paymentId r \<in> set ids) (refunds d)
         \<and> list_all (\<lambda>c. chargeback_active c \<and> c_paymentId c \<in> set ids) (chargebacks d)
         \<and> list_all (\<lambda>s. s_paymentId s \<in> set ids) (settlements d))"

definition debits_explained :: "BatchData \<Rightarrow> bool" where
  "debits_explained d \<longleftrightarrow>
     (let debitTotal = sum_list (map b_amount (filter is_debit (bankTransactions d)))
      in \<bar>debitTotal - sum_list (map c_amount (chargebacks d))\<bar> \<le> aggTolerance debitTotal DEFAULT_TOLERANCE)"

lemma wf_batch_captured: "wf_batch d \<Longrightarrow> capturedPayments d = payments d"
  by (simp add: wf_batch_def Let_def capturedPayments_def list_all_iff filter_id_conv)

lemma matcher_net_total:
  assumes "wf_batch d"
  shows "sum_list (map expectedNetAmount (matchAllRecords d (buildIndexes d)))
    = sum_list (map p_amount (payments d)) - sum_list (map p_fee (payments d)) - sum_list (map p_tax (payments d))
      - sum_list (map r_amount (refunds d)) - sum_list (map c_amount (chargebacks d))"
proof -
  let ?ids = "map p_paymentId (payments d)"
  let ?R = "\<lambda>k. sum_list (map r_amount (filter (\<lambda>r. refund_processed r \<and> r_paymentId r = k) (refunds d)))"
  let ?C = "\<lambda>k. sum_list (map c_amount (filter (\<lambda>c. chargeback_active c \<and> c_paymentId c = k) (chargebacks d)))"
  have "map expectedNetAmount (fst (processPayments (buildIndexes d) ps m))
      = map (\<lambda>p. p_amount p - p_fee p - p_tax p - ?R (p_paymentId p) - ?C (p_paymentId p)) ps" for ps m
    by (induction ps arbitrary: m)
      (simp_all add: processPayment_fields batch.refund_group batch.chargeback_group)
  then have "sum_list (map expectedNetAmount (matchAllRecords d (buildIndexes d)))
      = sum_list (map (\<lambda>p. p_amount p - p_fee p - p_tax p - ?R (p_paymentId p) - ?C (p_paymentId p)) (payments d))"
    using assms by (simp add: matchAllRecords_parts wf_batch_captured comp_def)
  also have "\<dots> = sum_list (map p_amount (payments d)) - sum_list (map p_fee (payments d))
      - sum_list (map p_tax (payments d)) - sum_list (map ?R ?ids) - sum_list (map ?C ?ids)"
    by (induction "payments d") (simp_all add: comp_def sum_list_subtractf)
  also have "sum_list (map ?R ?ids) = sum_list (map r_amount (refunds d))"
    by (rule sum_over_groups) (use assms in \<open>auto simp: wf_batch_def Let_def list_all_iff\<close>)
  also have "sum_list (map ?C ?ids) = sum_list (map c_amount (chargebacks d))"
    by (rule sum_over_groups) (use assms in \<open>auto simp: wf_batch_def Let_def list_all_iff\<close>)
  finally show ?thesis .
qed

lemma conservation_check_passes:
  assumes "wf_batch d" "keeps_all (matchAllRecords d (buildIndexes d)) rs"
  shows "fst (checkMoneyConservation d rs DEFAULT_TOLERANCE) = []"
  using matcher_net_total [OF assms(1)] aggTolerance_ge [of DEFAULT_TOLERANCE]
  by (simp add: checkMoneyConservation_def Let_def keeps_all_maps [OF assms(2)] wf_batch_captured [OF assms(1)]
      DEFAULT_TOLERANCE_def AMOUNT_TOLERANCE_PAISE_def aggTolerance_def)

lemma input_check_passes:
  assumes "wf_batch d" "keeps_all (matchAllRecords d (buildIndexes d)) rs"
  shows "fst (checkInputComplete d rs) = []"
proof -
  have "set (map p_paymentId (payments d)) \<subseteq> set (map paymentId (matchAllRecords d (buildIndexes d)))"
    using processPayments_paymentIds [of "buildIndexes d" "payments d" "{}"]
    by (simp add: matchAllRecords_parts wf_batch_captured [OF assms(1)] del: set_map)
  then have "set (map p_paymentId (payments d)) \<subseteq> set (map paymentId rs)"
    by (simp only: keeps_all_maps [OF assms(2)])
  then show ?thesis by (auto simp: checkInputComplete_def Let_def filter_empty_conv)
qed

lemma settlements_referenced:
  assumes "wf_batch d" "s \<in> set (settlements d)"
  shows "s_settlementId s \<in> set (concat (map settlementIds (matchAllRecords d (buildIndexes d))))"
proof -
  from assms obtain p where p: "p \<in> set (capturedPayments d)" "p_paymentId p = s_paymentId s"
    by (auto simp: wf_batch_captured wf_batch_def Let_def list_all_iff)
  have "\<exists>r \<in> set (fst (processPayments (buildIndexes d) ps m)). s_settlementId s \<in> set (settlementIds r)"
    if "p \<in> set ps" for ps m
    using that assms(2) p(2)
    by (induction ps arbitrary: m) (auto simp: processPayment_fields batch.settlement_group)
  with p(1) show ?thesis by (auto simp: matchAllRecords_parts)
qed

lemma partition_check_passes:
  assumes "wf_batch d" "keeps_all (matchAllRecords d (buildIndexes d)) rs"
  shows "fst (checkPartitionComplete d rs) = []"
proof -
  have "filter (\<lambda>s. s_settlementId s \<notin> set (concat (map settlementIds rs))) (settlements d) = []"
    using settlements_referenced [OF assms(1)] keeps_all_settlements [OF assms(2)]
    by (intro filter_False) blast
  moreover have "filter (\<lambda>b. is_credit b \<and> unattributed d rs b) (bankTransactions d) = []"
    using matcher_no_unattributed [OF assms(2)] by (simp add: conj_commute)
  ultimately show ?thesis unfolding checkPartitionComplete_def Let_def by simp
qed

lemma balance_check_passes:
  assumes "debits_explained d" "keeps_all (matchAllRecords d (buildIndexes d)) rs"
  shows "fst (checkDebitCreditBalance d rs DEFAULT_TOLERANCE) = []"
  unfolding checkDebitCreditBalance_def Let_def matcher_no_unattributed [OF assms(2)]
  using assms(1) by (auto simp: debits_explained_def Let_def aggTolerance_def DEFAULT_TOLERANCE_def AMOUNT_TOLERANCE_PAISE_def)

lemma invariants_pass_if:
  assumes "wf_batch d" "debits_explained d" "keeps_all (matchAllRecords d (buildIndexes d)) rs"
    and "fst (checkCardinalityConsistency d rels DEFAULT_TOLERANCE) = []"
  shows "passed (evaluateInvariants d rs (evaluateResults rs d) rels DEFAULT_TOLERANCE)"
  using assms(4) input_check_passes [OF assms(1,3)] conservation_check_passes [OF assms(1,3)]
    balance_check_passes [OF assms(2,3)] partition_check_passes [OF assms(1,3)] ledger_check_passes
  by (simp add: evaluateInvariants_def Let_def)

section \<open>Properties\<close>

text \<open>
  The evaluator and the gate agree on the ledger: whatever the results, the metrics the
  evaluator computes never trip the drift check that recomputes them.
\<close>

theorem evaluator_never_drifts:
  "INVARIANT_LEDGER_CONSISTENCY
     \<notin> f_code ` set (failures (evaluateInvariants d rs (evaluateResults rs d) rels tol))"
proof -
  have cards: "f_code ` set (check_relationships d tol rels us ub) \<subseteq> {INVARIANT_CARDINALITY_CONSISTENCY}" for us ub
    by (rule check_relationships_codes)
  show ?thesis
    using ledger_check_passes [of d rs] cards [of "{}" "{}"]
    by (auto simp: evaluateInvariants_def Let_def checkInputComplete_def checkMoneyConservation_def
        checkDebitCreditBalance_def checkCardinalityConsistency_def checkPartitionComplete_def fail_when_def fail_def
        split: if_splits)
qed

text \<open>
  The gate blocks a batch that holds a payment the matcher does not process: if no captured
  payment has its id and no narration of a bank credit names it, the completeness check fails,
  whatever the metrics, the relationships and the tolerance.
\<close>

theorem uncaptured_payment_blocks:
  assumes "p \<in> set (payments d)"
    and "p_paymentId p \<notin> p_paymentId ` set (capturedPayments d)"
    and "p_paymentId p \<notin> paymentId ` orphanResult ` set (bankTransactions d)"
  shows "\<not> passed (evaluateInvariants d (matchAllRecords d (buildIndexes d)) m rels tol)"
proof -
  have "set (map paymentId (matchAllRecords d (buildIndexes d)))
      \<subseteq> p_paymentId ` set (capturedPayments d) \<union> paymentId ` orphanResult ` set (bankTransactions d)"
    unfolding matchAllRecords_parts map_append processPayments_paymentIds by auto
  with assms have "p_paymentId p \<notin> paymentId ` set (matchAllRecords d (buildIndexes d))"
    by auto
  with assms(1) have "filter (\<lambda>p. p_paymentId p \<notin> paymentId ` set (matchAllRecords d (buildIndexes d))) (payments d) \<noteq> []"
    by (auto simp: filter_empty_conv)
  then have "fst (checkInputComplete d (matchAllRecords d (buildIndexes d))) \<noteq> []"
    unfolding checkInputComplete_def Let_def by simp
  then show ?thesis by (simp add: evaluateInvariants_def Let_def)
qed

theorem uncaptured_payment_blocks_witness:
  "\<not> passed (evaluateInvariants failed_batch (matchAllRecords failed_batch (buildIndexes failed_batch))
      (evaluateResults (matchAllRecords failed_batch (buildIndexes failed_batch)) failed_batch) [] DEFAULT_TOLERANCE)"
proof (rule uncaptured_payment_blocks [of "hd (payments failed_batch)"])
  show "hd (payments failed_batch) \<in> set (payments failed_batch)" by (simp add: failed_batch_def)
  show "p_paymentId (hd (payments failed_batch)) \<notin> p_paymentId ` set (capturedPayments failed_batch)"
    by (simp add: failed_batch_def capturedPayments_def sample_payment_def)
  show "p_paymentId (hd (payments failed_batch)) \<notin> paymentId ` orphanResult ` set (bankTransactions failed_batch)"
    by (simp add: failed_batch_def empty_batch_def)
qed

end
