(* ===== verification/Apply_Correct.thy ===== *)
theory Apply_Correct
  imports Apply_Cardinality Invariants_Correct
begin

text \<open>
  The cardinality stage is advisory and exclusive: it keeps the accounting of the matcher's
  results, and no settlement and no bank credit takes part in two relationships, on the small and
  on the scalable path.
\<close>

section \<open>Results keep their accounting\<close>

lemma enumerate_bound: "(i, r) \<in> set (enumerate n rs) \<Longrightarrow> n \<le> i \<and> i < n + length rs \<and> rs ! (i - n) = r"
  by (simp add: in_set_enumerate_eq)

lemma resultByPaymentId_Some:
  assumes "resultByPaymentId rs pid = Some i"
  shows "i < length rs \<and> paymentId (rs ! i) = pid"
proof -
  have "fold (\<lambda>(i, r) m. if js_startsWith (paymentId r) ''orphan_'' then m else m(paymentId r \<mapsto> i)) irs m pid = Some i
      \<Longrightarrow> m pid = Some i \<or> (\<exists>r. (i, r) \<in> set irs \<and> paymentId r = pid)" for irs m
    by (induction irs rule: rev_induct) (auto split: if_splits)
  from this [of "enumerate 0 rs" Map.empty] assms enumerate_bound show ?thesis
    unfolding resultByPaymentId_def by fastforce
qed

lemma set_bank_side_keeps:
  assumes "keeps_accounting r0 r" "bankTxnIds r0 = []"
  shows "keeps_accounting r0 (set_bank_side txns amount type method details rel r)"
  using assms by (simp add: set_bank_side_def setCardinality_def keeps_accounting_def le_max_iff_disj)

lemma add_settlement_id_keeps: "keeps_accounting r0 r \<Longrightarrow> keeps_accounting r0 (add_settlement_id sid r)"
  by (auto simp: add_settlement_id_def keeps_accounting_def)

lemma keeps_all_update:
  assumes "keeps_all rs0 rs" "i < length rs \<Longrightarrow> keeps_accounting (rs0 ! i) r"
  shows "keeps_all rs0 (rs[i := r])"
proof (cases "i < length rs")
  case True
  with assms have "keeps_all (rs0[i := rs0 ! i]) (rs[i := r])" by (intro list_all2_update_cong) auto
  then show ?thesis by simp
qed (use assms in \<open>simp add: list_update_beyond\<close>)

lemma keeps_all_nth: "keeps_all rs0 rs \<Longrightarrow> i < length rs \<Longrightarrow> keeps_accounting (rs0 ! i) (rs ! i)"
  by (simp add: list_all2_conv_all_nth)

definition free_in :: "(ident \<rightharpoonup> NormalizedSettlement) \<Rightarrow> result_index \<Rightarrow> MatchResult list \<Rightarrow> ident \<Rightarrow> bool" where
  "free_in byId byPayment rs0 sid \<longleftrightarrow>
     (\<forall>s i. byId sid = Some s \<longrightarrow> byPayment (s_paymentId s) = Some i \<longrightarrow> i < length rs0 \<longrightarrow> bankTxnIds (rs0 ! i) = [])"

lemma link_settlements_keeps:
  assumes "keeps_all rs0 rs" "\<forall>sid \<in> set sids. free_in byId byPayment rs0 sid"
  shows "keeps_all rs0 (link_settlements byId byPayment (set_bank_side txns amount type method details rel) sids rs)"
  using assms
proof (induction sids arbitrary: rs)
  case Nil
  then show ?case by (simp add: link_settlements_def)
next
  case (Cons sid sids)
  let ?rs1 = "link_settlement byId byPayment (set_bank_side txns amount type method details rel) sid rs"
  have "keeps_all rs0 ?rs1"
    using Cons.prems
    by (auto simp: link_settlement_def free_in_def list_all2_lengthD split: option.split
        intro!: keeps_all_update set_bank_side_keeps add_settlement_id_keeps keeps_all_nth)
  with Cons show ?case by (simp add: link_settlements_def)
qed

section \<open>Relationships are exclusive\<close>

definition exclusive :: "BatchData \<Rightarrow> CardinalityMatch list \<Rightarrow> bool" where
  "exclusive d rels \<longleftrightarrow> distinct (concat (map cm_settlementIds rels)) \<and> distinct (concat (map cm_bankTxnIds rels))
     \<and> list_all (resolves 100 (settlements d) (bankTransactions d)) rels"

definition unique_ids :: "BatchData \<Rightarrow> bool" where
  "unique_ids d \<longleftrightarrow> distinct (map s_settlementId (settlements d)) \<and> distinct (map b_txnId (bankTransactions d))"

lemma use_ids_fresh:
  "distinct is \<Longrightarrow> set is \<inter> used = {} \<Longrightarrow> use_ids is used = ([], used \<union> set is)"
  by (induction "is" used rule: use_ids.induct) (auto simp: fail_when_def)

lemma amount_by_sum:
  assumes "distinct (map key xs)" "set ys \<subseteq> set xs"
  shows "sum_list (map (amount_by key amount xs) (sort (map key ys))) = sum_list (map amount ys)"
proof -
  have "sum_list (map (amount_by key amount xs) (sort (map key ys))) = sum_list (map (amount_by key amount xs) (map key ys))"
    by (rule sum_list_mset_cong) simp
  also have "map (amount_by key amount xs) (map key ys) = map amount ys"
    using assms set_all_distinct [OF assms(1)] by (auto simp: amount_by_def)
  finally show ?thesis .
qed

lemma resolves_recomputed:
  assumes "unique_ids d" "resolves tol (settlements d) (bankTransactions d) m"
  shows "\<bar>sum_list (map (amount_by s_settlementId s_amount (settlements d)) (cm_settlementIds m))
      - sum_list (map (amount_by b_txnId b_amount (bankTransactions d)) (cm_bankTxnIds m))\<bar> \<le> tol"
proof -
  from assms(2) obtain gs gb where g: "set gs \<subseteq> set (settlements d)" "set gb \<subseteq> set (bankTransactions d)"
    "cm_settlementIds m = sort (map s_settlementId gs)" "cm_bankTxnIds m = sort (map b_txnId gb)"
    "\<bar>sum_list (map s_amount gs) - sum_list (map b_amount gb)\<bar> \<le> tol"
    unfolding resolves_def by (auto dest: mset_sub_set)
  with assms(1) show ?thesis by (simp add: unique_ids_def amount_by_sum)
qed

lemma exclusive_consistent:
  assumes "unique_ids d" "exclusive d rels"
  shows "fst (checkCardinalityConsistency d rels DEFAULT_TOLERANCE) = []"
proof -
  have "check_relationships d DEFAULT_TOLERANCE rels us ub = []"
    if "distinct (concat (map cm_settlementIds rels))" "distinct (concat (map cm_bankTxnIds rels))"
      "list_all (resolves 100 (settlements d) (bankTransactions d)) rels"
      "us \<inter> set (concat (map cm_settlementIds rels)) = {}" "ub \<inter> set (concat (map cm_bankTxnIds rels)) = {}" for us ub
    using that
  proof (induction rels arbitrary: us ub)
    case (Cons rel rels)
    have s: "use_ids (cm_settlementIds rel) us = ([], us \<union> set (cm_settlementIds rel))"
      and b: "use_ids (cm_bankTxnIds rel) ub = ([], ub \<union> set (cm_bankTxnIds rel))"
      using Cons.prems by (auto intro!: use_ids_fresh)
    have "check_relationships d DEFAULT_TOLERANCE rels (us \<union> set (cm_settlementIds rel)) (ub \<union> set (cm_bankTxnIds rel)) = []"
      by (rule Cons.IH) (use Cons.prems in auto)
    moreover have "resolves DEFAULT_TOLERANCE (settlements d) (bankTransactions d) rel"
      using Cons.prems by (simp add: DEFAULT_TOLERANCE_def AMOUNT_TOLERANCE_PAISE_def)
    note within = order_trans [OF resolves_recomputed [OF assms(1) this] aggTolerance_ge]
    ultimately show ?case by (simp add: s b Let_def not_less within)
  qed simp
  with assms(2) show ?thesis by (simp add: checkCardinalityConsistency_def exclusive_def)
qed

section \<open>Availability\<close>

abbreviation available_ids :: "BatchData \<Rightarrow> result_index \<Rightarrow> MatchResult list \<Rightarrow> ident set" where
  "available_ids d byPayment rs \<equiv> s_settlementId ` set (getAvailableSettlements d byPayment rs)"

definition valid_index :: "result_index \<Rightarrow> nat \<Rightarrow> bool" where
  "valid_index byPayment n \<longleftrightarrow> (\<forall>pid i. byPayment pid = Some i \<longrightarrow> i < n)"

lemma valid_resultByPaymentId: "valid_index (resultByPaymentId rs) (length rs)"
  using resultByPaymentId_Some by (auto simp: valid_index_def)

lemma available_sub: "mset (getAvailableSettlements d byPayment rs) \<subseteq># mset (settlements d)"
  unfolding getAvailableSettlements_def by (rule mset_filter_sub)

lemma available_iff:
  "s \<in> set (getAvailableSettlements d byPayment rs) \<longleftrightarrow>
     s \<in> set (settlements d) \<and> (\<exists>i. byPayment (s_paymentId s) = Some i \<and> bankTxnIds (rs ! i) = [])"
  by (auto simp: getAvailableSettlements_def hasBankRelationship_def split: option.splits)

lemma available_update:
  assumes "valid_index byPayment (length rs)" "bankTxnIds r \<noteq> []" "byPayment (s_paymentId s) = Some i"
    and "unique_ids d" "s \<in> set (settlements d)"
  shows "available_ids d byPayment (rs[i := r]) \<subseteq> available_ids d byPayment rs - {s_settlementId s}"
proof -
  have i: "i < length rs" using assms(1,3) by (auto simp: valid_index_def)
  have "t \<in> set (getAvailableSettlements d byPayment rs) \<and> s_settlementId t \<noteq> s_settlementId s"
    if "t \<in> set (getAvailableSettlements d byPayment (rs[i := r]))" for t
  proof -
    from that obtain j where j: "t \<in> set (settlements d)" "byPayment (s_paymentId t) = Some j" "bankTxnIds (rs[i := r] ! j) = []"
      by (auto simp: available_iff)
    with i assms(2) have "j \<noteq> i" by auto
    have "s_settlementId t \<noteq> s_settlementId s"
    proof
      assume "s_settlementId t = s_settlementId s"
      with assms(4,5) j(1) have "t = s" by (simp add: unique_ids_def distinct_map inj_on_def)
      with j(2) assms(3) \<open>j \<noteq> i\<close> show False by simp
    qed
    moreover from j \<open>j \<noteq> i\<close> have "t \<in> set (getAvailableSettlements d byPayment rs)" by (simp add: available_iff)
    ultimately show ?thesis by blast
  qed
  note keep = this
  show ?thesis
  proof
    fix x
    assume "x \<in> available_ids d byPayment (rs[i := r])"
    then obtain t where "t \<in> set (getAvailableSettlements d byPayment (rs[i := r]))" "x = s_settlementId t" by (rule imageE)
    with keep [of t] show "x \<in> available_ids d byPayment rs - {s_settlementId s}" by simp
  qed
qed

abbreviation settlement_index :: "BatchData \<Rightarrow> ident \<rightharpoonup> NormalizedSettlement" where
  "settlement_index d \<equiv> set_all s_settlementId (settlements d) Map.empty"

lemma link_settlements_available:
  assumes "unique_ids d" "valid_index byPayment (length rs)" "txns \<noteq> []"
  shows "available_ids d byPayment (link_settlements (settlement_index d) byPayment
      (set_bank_side txns amount type method details rel) sids rs) \<subseteq> available_ids d byPayment rs - set sids"
  using assms(2)
proof (induction sids arbitrary: rs)
  case Nil
  then show ?case by (simp add: link_settlements_def)
next
  case (Cons sid sids)
  let ?upd = "set_bank_side txns amount type method details rel"
  let ?rs1 = "link_settlement (settlement_index d) byPayment ?upd sid rs"
  have len: "length ?rs1 = length rs" by (simp add: link_settlement_def split: option.split)
  have one: "available_ids d byPayment ?rs1 \<subseteq> available_ids d byPayment rs - {sid}"
  proof (cases "settlement_index d sid")
    case None
    then have "sid \<notin> s_settlementId ` set (settlements d)" by (simp add: set_all_None)
    with None show ?thesis by (auto simp: link_settlement_def available_iff)
  next
    case (Some s)
    then have s: "s \<in> set (settlements d)" "s_settlementId s = sid" by (auto dest: set_all_Some)
    have same: "t = s" if "t \<in> set (settlements d)" "s_settlementId t = sid" for t
      using assms(1) s that by (auto simp: unique_ids_def distinct_map dest: inj_onD)
    show ?thesis
    proof (cases "byPayment (s_paymentId s)")
      case None
      with Some same show ?thesis by (auto simp: link_settlement_def available_iff)
    next
      case i: (Some i)
      have "bankTxnIds (?upd (add_settlement_id sid (rs ! i))) \<noteq> []"
        using assms(3) by (simp add: set_bank_side_def setCardinality_def)
      from available_update [OF Cons.prems this i assms(1) s(1)] Some i s(2) show ?thesis
        by (simp add: link_settlement_def)
    qed
  qed
  have "available_ids d byPayment (link_settlements (settlement_index d) byPayment ?upd sids ?rs1)
      \<subseteq> available_ids d byPayment ?rs1 - set sids"
    by (rule Cons.IH) (simp only: len Cons.prems)
  also have "\<dots> \<subseteq> available_ids d byPayment rs - {sid} - set sids" by (rule Diff_mono [OF one order_refl])
  also have "\<dots> = available_ids d byPayment rs - set (sid # sids)" by (simp only: list.set Diff_insert2 [symmetric])
  finally show ?case by (simp add: link_settlements_def)
qed

lemma length_link_settlements [simp]: "length (link_settlements byId byPayment upd sids rs) = length rs"
  unfolding link_settlements_def
  by (induction sids arbitrary: rs) (auto simp: link_settlement_def split: option.split)

text \<open>What is available now was free in the results the stage started from.\<close>

lemma available_free:
  assumes "unique_ids d" "keeps_all rs0 rs" "sid \<in> available_ids d byPayment rs"
  shows "free_in (settlement_index d) byPayment rs0 sid"
proof -
  from assms(3) obtain t where t: "t \<in> set (settlements d)" "s_settlementId t = sid"
    "\<exists>i. byPayment (s_paymentId t) = Some i \<and> bankTxnIds (rs ! i) = []" by (auto simp: available_iff)
  have "settlement_index d sid = Some t"
    using assms(1) t set_all_distinct [of s_settlementId "settlements d" t] by (simp add: unique_ids_def)
  with t(3) show ?thesis
    using keeps_all_nth [OF assms(2)] list_all2_lengthD [OF assms(2)]
    by (fastforce simp: free_in_def keeps_accounting_def)
qed

section \<open>The small path\<close>

definition small_inv :: "BatchData \<Rightarrow> result_index \<Rightarrow> MatchResult list \<Rightarrow> ApplyState \<Rightarrow> bool" where
  "small_inv d byPayment rs0 st \<longleftrightarrow>
     keeps_all rs0 (ap_results st) \<and> exclusive d (ap_relationships st)
     \<and> set (concat (map cm_bankTxnIds (ap_relationships st))) \<subseteq> ap_used st
     \<and> set (concat (map cm_settlementIds (ap_relationships st))) \<inter> available_ids d byPayment (ap_results st) = {}"

lemma exclusive_snoc:
  assumes "unique_ids d" "exclusive d rels" "resolves 100 ss bs rel"
    and sub: "mset ss \<subseteq># mset (settlements d)" "mset bs \<subseteq># mset (bankTransactions d)"
    and "set (concat (map cm_settlementIds rels)) \<inter> s_settlementId ` set ss = {}"
    and "set (concat (map cm_bankTxnIds rels)) \<inter> b_txnId ` set bs = {}"
  shows "exclusive d (rels @ [rel])"
proof -
  note ids = resolves_ids [OF assms(3)]
  have "distinct (cm_settlementIds rel)" "distinct (cm_bankTxnIds rel)"
    using resolves_distinct [OF assms(3)] mset_sub_distinct [OF sub(1), of s_settlementId]
      mset_sub_distinct [OF sub(2), of b_txnId] assms(1)
    unfolding unique_ids_def by blast+
  moreover have "set (concat (map cm_settlementIds rels)) \<inter> set (cm_settlementIds rel) = {}" using ids(1) assms(6) by blast
  moreover have "set (concat (map cm_bankTxnIds rels)) \<inter> set (cm_bankTxnIds rel) = {}" using ids(2) assms(7) by blast
  moreover note resolves_mono [OF assms(3) sub]
  ultimately show ?thesis using assms(2) unfolding exclusive_def by simp
qed

lemma small_inv_add:
  assumes "unique_ids d" "small_inv d byPayment rs0 st"
    and rel: "resolves 100 ss bs rel"
    and ss: "mset ss \<subseteq># mset (settlements d)" "s_settlementId ` set ss \<subseteq> available_ids d byPayment (ap_results st)"
    and bs: "mset bs \<subseteq># mset (bankTransactions d)" "b_txnId ` set bs \<inter> ap_used st = {}"
    and st': "ap_relationships st' = ap_relationships st @ [rel]" "ap_used st \<union> set (cm_bankTxnIds rel) \<subseteq> ap_used st'"
      "keeps_all rs0 (ap_results st')"
      "available_ids d byPayment (ap_results st') \<subseteq> available_ids d byPayment (ap_results st) - set (cm_settlementIds rel)"
  shows "small_inv d byPayment rs0 st'"
proof -
  from assms(2) have inv: "exclusive d (ap_relationships st)"
    "set (concat (map cm_bankTxnIds (ap_relationships st))) \<subseteq> ap_used st"
    "set (concat (map cm_settlementIds (ap_relationships st))) \<inter> available_ids d byPayment (ap_results st) = {}"
    by (auto simp: small_inv_def)
  have "exclusive d (ap_relationships st')"
    unfolding st'(1)
  proof (rule exclusive_snoc [OF assms(1) inv(1) rel ss(1) bs(1)])
    show "set (concat (map cm_settlementIds (ap_relationships st))) \<inter> s_settlementId ` set ss = {}"
      using inv(3) ss(2) by blast
    show "set (concat (map cm_bankTxnIds (ap_relationships st))) \<inter> b_txnId ` set bs = {}"
      using inv(2) bs(2) by blast
  qed
  moreover have "set (concat (map cm_bankTxnIds (ap_relationships st'))) \<subseteq> ap_used st'"
    using inv(2) st'(2) unfolding st'(1) by auto
  moreover have "set (concat (map cm_settlementIds (ap_relationships st'))) \<inter> available_ids d byPayment (ap_results st') = {}"
  proof -
    have "set (concat (map cm_settlementIds (ap_relationships st')))
        = set (concat (map cm_settlementIds (ap_relationships st))) \<union> set (cm_settlementIds rel)" by (simp add: st'(1))
    with inv(3) st'(4) show ?thesis by blast
  qed
  ultimately show ?thesis using st'(3) by (simp add: small_inv_def)
qed

lemma CONFIG_tol [simp]: "tolerancePaise CONFIG = 100"
  by (simp add: CONFIG_def)

lemma linked_keeps:
  assumes "unique_ids d" "keeps_all rs0 rs" "set sids \<subseteq> available_ids d byPayment rs"
  shows "keeps_all rs0 (link_settlements (settlement_index d) byPayment (set_bank_side txns amount type method details rel) sids rs)"
  using assms by (intro link_settlements_keeps) (auto intro: available_free)

lemma small_inv_keeps: "small_inv d byPayment rs0 st \<Longrightarrow> keeps_all rs0 (ap_results st)"
  by (simp add: small_inv_def)

lemma small_inv_valid:
  assumes "small_inv d byPayment rs0 st" "valid_index byPayment (length rs0)"
  shows "valid_index byPayment (length (ap_results st))"
  using assms list_all2_lengthD by (fastforce simp: small_inv_def)

lemma pass1_step_inv:
  assumes "unique_ids d" "valid_index byPayment (length rs0)" "small_inv d byPayment rs0 st" "txn \<in> set (bankTransactions d)"
  shows "small_inv d byPayment rs0 (pass1_step d (settlement_index d) byPayment txn st)"
proof (cases "b_txnId txn \<in> ap_used st \<or> length (getAvailableSettlements d byPayment (ap_results st)) < 2
    \<or> findSettlementGroupForBank (getAvailableSettlements d byPayment (ap_results st)) txn CONFIG = None")
  case True
  then have "pass1_step d (settlement_index d) byPayment txn st = st" by (auto simp: pass1_step_def Let_def)
  with assms(3) show ?thesis by simp
next
  case False
  let ?avail = "getAvailableSettlements d byPayment (ap_results st)"
  from False obtain rel where find: "findSettlementGroupForBank ?avail txn CONFIG = Some rel" by blast
  define rs' where "rs' = link_settlements (settlement_index d) byPayment
      (set_bank_side [b_txnId txn] (b_amount txn) N_One ''CARDINALITY_N_TO_1''
         (CreditAggregates (cm_details rel) (b_txnId txn) (length (cm_settlementIds rel))) rel)
      (cm_settlementIds rel) (ap_results st)"
  note rel = findSettlementGroupForBank_resolves [OF find, unfolded CONFIG_tol]
  from find have txns: "cm_bankTxnIds rel = [b_txnId txn]"
    by (auto simp: findSettlementGroupForBank_def Let_def split: if_splits option.splits)
  have step: "pass1_step d (settlement_index d) byPayment txn st
      = (push_relationship rel st)\<lparr>ap_used := insert (b_txnId txn) (ap_used st), ap_results := rs'\<rparr>"
    using False find by (simp add: pass1_step_def Let_def rs'_def)
  show ?thesis unfolding step
  proof (rule small_inv_add [OF assms(1,3) rel available_sub order_refl])
    show "mset [txn] \<subseteq># mset (bankTransactions d)" using assms(4) by (rule mset_single_sub)
    show "b_txnId ` set [txn] \<inter> ap_used st = {}" using False by simp
    have "keeps_all rs0 rs'"
      unfolding rs'_def by (rule linked_keeps [OF assms(1) small_inv_keeps [OF assms(3)] resolves_ids(1) [OF rel]])
    then show "keeps_all rs0 (ap_results ((push_relationship rel st)\<lparr>ap_used := insert (b_txnId txn) (ap_used st), ap_results := rs'\<rparr>))"
      by simp
    have "available_ids d byPayment rs' \<subseteq> available_ids d byPayment (ap_results st) - set (cm_settlementIds rel)"
      unfolding rs'_def by (rule link_settlements_available [OF assms(1) small_inv_valid [OF assms(3,2)]]) simp
    then show "available_ids d byPayment (ap_results ((push_relationship rel st)\<lparr>ap_used := insert (b_txnId txn) (ap_used st), ap_results := rs'\<rparr>))
        \<subseteq> available_ids d byPayment (ap_results st) - set (cm_settlementIds rel)" by simp
  qed (simp_all add: push_relationship_def txns)
qed

lemma pass2_step_inv:
  assumes "unique_ids d" "valid_index byPayment (length rs0)" "small_inv d byPayment rs0 st" "s \<in> set (settlements d)"
  shows "small_inv d byPayment rs0 (pass2_step lc d byPayment s st)"
proof -
  let ?eligible = "filter (\<lambda>t. b_type t = ''CREDIT'' \<and> b_txnId t \<notin> ap_used st) (bankTransactions d)"
  show ?thesis
  proof (cases "\<exists>i rel. byPayment (s_paymentId s) = Some i \<and> bankTxnIds (ap_results st ! i) = []
      \<and> findBankGroupForSettlement lc s ?eligible CONFIG = Some rel")
    case False
    then have "pass2_step lc d byPayment s st = st"
      by (auto simp: pass2_step_def Let_def hasBankRelationship_def split: option.splits)
    with assms(3) show ?thesis by simp
  next
    case True
    then obtain i rel where i: "byPayment (s_paymentId s) = Some i" "bankTxnIds (ap_results st ! i) = []"
      and find: "findBankGroupForSettlement lc s ?eligible CONFIG = Some rel" by blast
    define r where "r = set_bank_side (cm_bankTxnIds rel) (cm_bankAmount rel) One_N ''CARDINALITY_1_TO_N''
        (SettlementMaps (cm_details rel) (s_settlementId s) (length (cm_bankTxnIds rel))) rel (ap_results st ! i)"
    note rel = findBankGroupForSettlement_resolves [OF find, unfolded CONFIG_tol]
    from find have ids: "cm_settlementIds rel = [s_settlementId s]"
      by (auto simp: findBankGroupForSettlement_def Let_def split: if_splits option.splits)
    have step: "pass2_step lc d byPayment s st
        = (push_relationship rel st)\<lparr>ap_used := ap_used st \<union> set (cm_bankTxnIds rel), ap_results := (ap_results st)[i := r]\<rparr>"
      using i find by (simp add: pass2_step_def Let_def hasBankRelationship_def r_def)
    have keeps: "keeps_all rs0 ((ap_results st)[i := r])"
    proof (rule keeps_all_update [OF small_inv_keeps [OF assms(3)]])
      assume "i < length (ap_results st)"
      note k = keeps_all_nth [OF small_inv_keeps [OF assms(3)] this]
      with i(2) have "bankTxnIds (rs0 ! i) = []" by (simp add: keeps_accounting_def)
      with k show "keeps_accounting (rs0 ! i) r" unfolding r_def by (rule set_bank_side_keeps)
    qed
    have "bankTxnIds r \<noteq> []"
      using resolves_ids(4) [OF rel] by (simp add: r_def set_bank_side_def setCardinality_def)
    note avail = available_update [OF small_inv_valid [OF assms(3,2)] this i(1) assms(1,4)]
    show ?thesis unfolding step
    proof (rule small_inv_add [OF assms(1,3) rel])
      show "mset [s] \<subseteq># mset (settlements d)" using assms(4) by (rule mset_single_sub)
      show "s_settlementId ` set [s] \<subseteq> available_ids d byPayment (ap_results st)"
        using assms(4) i by (auto simp: available_iff)
      show "mset ?eligible \<subseteq># mset (bankTransactions d)" by (rule mset_filter_sub)
    qed (use keeps avail ids in \<open>auto simp: push_relationship_def\<close>)
  qed
qed

lemma pass3_inv:
  assumes "unique_ids d" "valid_index byPayment (length rs0)" "small_inv d byPayment rs0 st"
  shows "small_inv d byPayment rs0 (pass3 d (settlement_index d) byPayment (filter isBulkBankCredit (bankTransactions d)) st)"
proof -
  let ?avail = "getAvailableSettlements d byPayment (ap_results st)"
  let ?bulk = "filter (\<lambda>t. b_txnId t \<notin> ap_used st) (filter isBulkBankCredit (bankTransactions d))"
  show ?thesis
  proof (cases "length ?avail \<ge> 2 \<and> length ?bulk \<ge> 2 \<and> findManyToManyMatch ?avail ?bulk CONFIG \<noteq> None")
    case False
    then have "pass3 d (settlement_index d) byPayment (filter isBulkBankCredit (bankTransactions d)) st = st"
      by (auto simp: pass3_def Let_def)
    with assms(3) show ?thesis by simp
  next
    case True
    then obtain rel where find: "findManyToManyMatch ?avail ?bulk CONFIG = Some rel" by blast
    note rel = enumerated.solve_sound [OF find, unfolded CONFIG_tol]
    define rs' where "rs' = link_settlements (settlement_index d) byPayment
        (set_bank_side (cm_bankTxnIds rel) (cm_bankAmount rel) N_M ''CARDINALITY_N_TO_M''
           (GroupVerified (cm_details rel) (cm_differencePaise rel)) rel)
        (cm_settlementIds rel) (ap_results st)"
    have step: "pass3 d (settlement_index d) byPayment (filter isBulkBankCredit (bankTransactions d)) st
        = (push_relationship rel st)\<lparr>ap_results := rs', ap_used := ap_used st \<union> set (cm_bankTxnIds rel)\<rparr>"
      using True find by (simp add: pass3_def Let_def rs'_def)
    have keeps: "keeps_all rs0 rs'"
      unfolding rs'_def by (rule linked_keeps [OF assms(1) small_inv_keeps [OF assms(3)] resolves_ids(1) [OF rel]])
    have avail: "available_ids d byPayment rs' \<subseteq> available_ids d byPayment (ap_results st) - set (cm_settlementIds rel)"
      unfolding rs'_def
      by (rule link_settlements_available [OF assms(1) small_inv_valid [OF assms(3,2)] resolves_ids(4) [OF rel]])
    show ?thesis unfolding step
    proof (rule small_inv_add [OF assms(1,3) rel available_sub order_refl])
      show "mset ?bulk \<subseteq># mset (bankTransactions d)"
        by (rule subset_mset.order_trans [OF mset_filter_sub mset_filter_sub])
    qed (use keeps avail in \<open>auto simp: push_relationship_def\<close>)
  qed
qed

lemma small_path_inv:
  assumes "unique_ids d" "valid_index byPayment (length rs0)" "small_inv d byPayment rs0 st"
  shows "small_inv d byPayment rs0 (small_path lc d (settlement_index d) byPayment st)"
proof -
  let ?bulk = "filter isBulkBankCredit (bankTransactions d)"
  let ?st1 = "fold (pass1_step d (settlement_index d) byPayment) ?bulk st"
  have "small_inv d byPayment rs0 ?st1"
    by (rule fold_invariant [where Q = "\<lambda>txn. txn \<in> set (bankTransactions d)"])
      (use assms pass1_step_inv in auto)
  then have "small_inv d byPayment rs0 (fold (pass2_step lc d byPayment) (settlements d) ?st1)"
    by (rule fold_invariant [where Q = "\<lambda>s. s \<in> set (settlements d)", rotated])
      (use assms pass2_step_inv in auto)
  from pass3_inv [OF assms(1,2) this] show ?thesis by (simp add: small_path_def Let_def)
qed

lemma small_inv_initial: "small_inv d byPayment rs (initial_state rs)"
  by (simp add: small_inv_def initial_state_def exclusive_def)

section \<open>The scalable path\<close>

lemma resolves_mset:
  assumes "resolves tol ss bs m"
  shows "mset (cm_settlementIds m) \<subseteq># mset (map s_settlementId ss)" "mset (cm_bankTxnIds m) \<subseteq># mset (map b_txnId bs)"
  using assms unfolding resolves_def by (auto simp: image_mset_subseteq_mono)

lemma mset_concat_single:
  assumes "\<And>p. p \<in> set ps \<Longrightarrow> length (R p) \<le> 1" "\<And>p m. p \<in> set ps \<Longrightarrow> m \<in> set (R p) \<Longrightarrow> mset (f m) \<subseteq># mset (g p)"
  shows "mset (concat (map f (concat (map R ps)))) \<subseteq># mset (concat (map g ps))"
  using assms
proof (induction ps)
  case (Cons p ps)
  have "mset (concat (map f (R p))) \<subseteq># mset (g p)"
    using Cons.prems(1) [of p] Cons.prems(2) [of p] by (cases "R p") auto
  moreover have "mset (concat (map f (concat (map R ps)))) \<subseteq># mset (concat (map g ps))"
    by (rule Cons.IH) (use Cons.prems in auto)
  ultimately show ?case by (simp add: subset_mset.add_mono)
qed simp

lemma part_sub:
  assumes "p \<in> set parts"
  shows "mset (f p) \<subseteq># mset (concat (map f parts))"
  using split_list [OF assms] by auto

lemma partitions_exclusive:
  assumes "unique_ids d" "mset ss \<subseteq># mset (settlements d)" "mset cs \<subseteq># mset (bankTransactions d)"
    and "mset rels = mset (concat (map (\<lambda>p. resolvePartition lc p buildStrategyConfig) (partitionCandidates ss cs w)))"
  shows "exclusive d rels" "\<And>rel. rel \<in> set rels \<Longrightarrow> resolves 100 ss cs rel"
proof -
  let ?parts = "partitionCandidates ss cs w"
  let ?R = "\<lambda>p. resolvePartition lc p buildStrategyConfig"
  note cover = partition_cover [of ss cs w]
  have tol: "st_tolerancePaise buildStrategyConfig = 100"
    by (simp add: buildStrategyConfig_def SCALE_tolerancePaise_def)
  have part: "resolves 100 (sp_settlements p) (sp_credits p) m" if "m \<in> set (?R p)" for p m
    using resolvePartition_resolves [OF that] by (simp add: tol)
  have sub: "mset (sp_settlements p) \<subseteq># mset ss" "mset (sp_credits p) \<subseteq># mset cs" if "p \<in> set ?parts" for p
    using part_sub [OF that, of sp_settlements] part_sub [OF that, of sp_credits] cover
      subset_mset.order_trans [OF _ mset_filter_sub [of "\<lambda>c. b_type c = ''CREDIT''" cs]] by simp_all
  have mem: "\<exists>p \<in> set ?parts. rel \<in> set (?R p)" if "rel \<in> set rels" for rel
    using that mset_eq_setD [OF assms(4)] by auto
  show res: "resolves 100 ss cs rel" if "rel \<in> set rels" for rel
    using mem [OF that] part sub resolves_mono by blast
  have ids: "distinct (concat (map f rels))"
    if f: "\<And>p m. m \<in> set (?R p) \<Longrightarrow> mset (f m) \<subseteq># mset (map key (g p))"
      and dist: "distinct (map key (concat (map g ?parts)))" for f :: "CardinalityMatch \<Rightarrow> ident list" and key :: "'z \<Rightarrow> ident" and g
  proof -
    have "mset (concat (map f (concat (map ?R ?parts)))) \<subseteq># mset (concat (map (\<lambda>p. map key (g p)) ?parts))"
      by (rule mset_concat_single, rule resolvePartition_at_most_one, rule f)
    moreover have "concat (map (\<lambda>p. map key (g p)) ?parts) = map key (concat (map g ?parts))"
      by (simp add: map_concat comp_def)
    ultimately have "mset (concat (map f (concat (map ?R ?parts)))) \<subseteq># mset (map key (concat (map g ?parts)))"
      by (simp only:)
    from mset_sub_distinct [OF this, of "\<lambda>x. x"] dist
    have flat: "distinct (concat (map f (concat (map ?R ?parts))))" by (simp only: map_ident)
    have "mset (concat (map f rels)) = mset (concat (map f (concat (map ?R ?parts))))"
      by (rule mset_concat_cong [OF assms(4)])
    from mset_eq_imp_distinct_iff [OF this] flat show ?thesis by (rule iffD2)
  qed
  have "mset (concat (map sp_settlements ?parts)) \<subseteq># mset (settlements d)" using cover(1) assms(2) by simp
  from mset_sub_distinct [OF this, of s_settlementId] assms(1)
  have "distinct (concat (map cm_settlementIds rels))"
    by (intro ids [where key = s_settlementId and g = sp_settlements] resolves_mset(1) [OF part]) (auto simp: unique_ids_def)
  moreover have "mset (concat (map sp_credits ?parts)) \<subseteq># mset (bankTransactions d)"
    unfolding cover(2) by (rule subset_mset.order_trans [OF mset_filter_sub assms(3)])
  from mset_sub_distinct [OF this, of b_txnId] assms(1)
  have "distinct (concat (map cm_bankTxnIds rels))"
    by (intro ids [where key = b_txnId and g = sp_credits] resolves_mset(2) [OF part]) (auto simp: unique_ids_def)
  moreover have "list_all (resolves 100 (settlements d) (bankTransactions d)) rels"
    using res assms(2,3) by (auto simp: list_all_iff intro: resolves_mono)
  ultimately show "exclusive d rels" by (simp add: exclusive_def)
qed

lemma apply_scaled_keeps:
  assumes "\<And>rel sid. rel \<in> set rels \<Longrightarrow> sid \<in> set (cm_settlementIds rel) \<Longrightarrow> free_in byId byPayment rs0 sid"
    and "keeps_all rs0 (ap_results st)"
  shows "keeps_all rs0 (ap_results (apply_scaled byId byPayment rels st))
    \<and> ap_relationships (apply_scaled byId byPayment rels st) = ap_relationships st @ rels"
  using assms
proof (induction rels arbitrary: st)
  case Nil
  then show ?case by (simp add: apply_scaled_def)
next
  case (Cons rel rels)
  let ?st1 = "push_relationship rel (applyRelationshipToResults byId byPayment rel st)"
  have "keeps_all rs0 (ap_results ?st1)"
    using Cons.prems by (auto simp: push_relationship_def applyRelationshipToResults_def intro!: link_settlements_keeps)
  moreover have "free_in byId byPayment rs0 sid" if "m \<in> set rels" "sid \<in> set (cm_settlementIds m)" for m sid
    using Cons.prems(1) [of m sid] that by simp
  ultimately have "keeps_all rs0 (ap_results (apply_scaled byId byPayment rels ?st1))
    \<and> ap_relationships (apply_scaled byId byPayment rels ?st1) = ap_relationships ?st1 @ rels"
    by (intro Cons.IH)
  moreover have "apply_scaled byId byPayment (rel # rels) st = apply_scaled byId byPayment rels ?st1"
    by (simp add: apply_scaled_def)
  moreover have "ap_relationships ?st1 = ap_relationships st @ [rel]"
    by (simp add: push_relationship_def applyRelationshipToResults_def)
  ultimately show ?case by simp
qed

section \<open>Both paths\<close>

lemma applyCardinalityMatching_ok:
  assumes "unique_ids d"
    and fresh: "\<forall>given. opts = Some given \<longrightarrow> fresh_run (env_sha256Hex env) (env_newId env) (the (opt_runId given)) db"
    and "applyCardinalityMatching env rs d opts db = ((rs', rels), db')"
  shows "keeps_all rs rs' \<and> exclusive d rels"
proof (cases "length (settlements d) + length (bankTransactions d) \<ge> SCALE_scalableMinRecords
    \<and> (case opts of None \<Rightarrow> False | Some given \<Rightarrow> truthy_str (opt_batchId given) \<and> truthy_str (opt_runId given))")
  case False
  let ?st = "small_path (env_localeCompare env) d (settlement_index d) (resultByPaymentId rs) (initial_state rs)"
  from False assms(3) have "rs' = ap_results ?st" "rels = ap_relationships ?st"
    by (auto simp: applyCardinalityMatching_def Let_def)
  with small_path_inv [OF assms(1) valid_resultByPaymentId small_inv_initial, where lc = "env_localeCompare env"]
  show ?thesis by (simp add: small_inv_def)
next
  case True
  let ?byP = "resultByPaymentId rs"
  let ?elig = "getAvailableSettlements d ?byP rs"
  let ?unused = "filter (\<lambda>t. b_txnId t \<notin> ap_used (initial_state rs)) (filter isBulkBankCredit (bankTransactions d))"
  let ?run = "runScalableCardinality (env_localeCompare env) (env_idOrder env) (env_sha256Hex env) (env_clock env)
      (env_newId env) (the (opt_batchId (the opts))) (the (opt_runId (the opts))) ?elig ?unused db"
  obtain rels0 rep0 db0 where run: "?run = ((rels0, rep0), db0)" by (metis prod.collapse)
  from assms(3) have out: "rs' = ap_results (apply_scaled (settlement_index d) ?byP rels0 (initial_state rs))"
    "rels = ap_relationships (apply_scaled (settlement_index d) ?byP rels0 (initial_state rs))"
    unfolding applyCardinalityMatching_def Let_def if_P [OF True] run case_prod_conv by simp_all
  have rels0: "mset rels0 = mset (concat (map (\<lambda>p. resolvePartition (env_localeCompare env) p buildStrategyConfig)
      (partitionCandidates ?elig ?unused SCALE_partitionWindowMs)))"
  proof -
    from True obtain given where "opts = Some given" by (auto split: option.splits)
    with fresh have "fresh_run (env_sha256Hex env) (env_newId env) (the (opt_runId (the opts))) db" by simp
    from runScalableCardinality_fresh [OF this run] show ?thesis by blast
  qed
  have unused: "mset ?unused \<subseteq># mset (bankTransactions d)"
    by (rule subset_mset.order_trans [OF mset_filter_sub mset_filter_sub])
  note ex = partitions_exclusive [OF assms(1) available_sub unused rels0]
  have "keeps_all rs rs' \<and> rels = rels0"
    unfolding out using apply_scaled_keeps [of rels0 "settlement_index d" ?byP rs "initial_state rs"]
      available_free [OF assms(1) keeps_all_refl] resolves_ids(1) [OF ex(2)]
    by (simp add: initial_state_def subset_iff)
  with ex(1) show ?thesis by simp
qed

section \<open>Properties\<close>

text \<open>
  C5. Cardinality matching is advisory and exclusive, on the small path and through a fresh durable
  run: when settlement ids and transaction ids are unique, every result keeps its payment, status,
  amounts and the ids it had, and its confidence only grows; no settlement and no bank credit
  takes part in two relationships; and the relationships pass the consistency check of the
  invariants gate.
\<close>

theorem cardinality_advisory_exclusive:
  assumes "unique_ids d"
    and "\<forall>given. opts = Some given \<longrightarrow> fresh_run (env_sha256Hex env) (env_newId env) (the (opt_runId given)) db"
    and "applyCardinalityMatching env rs d opts db = ((rs', rels), db')"
  shows "keeps_all rs rs' \<and> exclusive d rels \<and> fst (checkCardinalityConsistency d rels DEFAULT_TOLERANCE) = []"
  using applyCardinalityMatching_ok [OF assms] exclusive_consistent [OF assms(1)] by blast

definition bulk_batch :: BatchData where
  "bulk_batch = empty_batch\<lparr>settlements := bulk_settlements, bankTransactions := [bulk_credit ''b1'' 500000]\<rparr>"

definition bulk_results :: "MatchResult list" where
  "bulk_results = map (\<lambda>p. open_result\<lparr>paymentId := p, settlementIds := []\<rparr>) [''pay_1'', ''pay_2'', ''pay_3'']"

definition sample_env :: Environment where
  "sample_env = \<lparr>env_localeCompare = cmp_by (\<lambda>i. i), env_idOrder = (\<lambda>_ _. 0), env_sha256Hex = (\<lambda>t. t),
     env_clock = (\<lambda>_. 0), env_newId = ''row_1''\<rparr>"

theorem cardinality_advisory_exclusive_witness:
  "unique_ids bulk_batch
   \<and> map bankTxnIds (fst (fst (applyCardinalityMatching sample_env bulk_results bulk_batch None empty_db))) = [[''b1''], [''b1''], []]
   \<and> keeps_all bulk_results (fst (fst (applyCardinalityMatching sample_env bulk_results bulk_batch None empty_db)))"
proof -
  have ids: "unique_ids bulk_batch" by code_simp
  have txns: "map bankTxnIds (fst (fst (applyCardinalityMatching sample_env bulk_results bulk_batch None empty_db))) = [[''b1''], [''b1''], []]"
    by code_simp
  obtain rs' rels db' where out: "applyCardinalityMatching sample_env bulk_results bulk_batch None empty_db = ((rs', rels), db')"
    by (metis prod.collapse)
  have "\<forall>given. None = Some given \<longrightarrow> fresh_run (env_sha256Hex sample_env) (env_newId sample_env) (the (opt_runId given)) empty_db"
    by simp
  from cardinality_advisory_exclusive [OF ids this out] ids txns show ?thesis by (simp add: out)
qed

end
