(* ===== verification/Audit_Chain_Correct.thy ===== *)
theory Audit_Chain_Correct
  imports Audit_Chain
begin

text \<open>
  The audit chain: a verified chain is a linked sequence of gapless sequence numbers, appending
  keeps it verified whatever other writers do in between, and two verified chains of the same
  length that end in the same hash hold the same history, up to hash collisions.
\<close>

section \<open>Linked sequences\<close>

fun linked :: "(string \<Rightarrow> string) \<Rightarrow> nat \<Rightarrow> string \<Rightarrow> AuditEvent list \<Rightarrow> bool" where
  "linked sha i h [] \<longleftrightarrow> True"
| "linked sha i h (row # rows) \<longleftrightarrow>
     ae_seq row = i \<and> ae_previousHash row = h
     \<and> ae_currentHash row = hashChainLink sha (ae_previousHash row) (ae_canonicalPayload row)
     \<and> linked sha (i + 1) (ae_currentHash row) rows"

definition head_hash :: "string \<Rightarrow> AuditEvent list \<Rightarrow> string" where
  "head_hash h rows = (if rows = [] then h else ae_currentHash (last rows))"

lemma head_hash_simps [simp]:
  "head_hash h [] = h" "head_hash h (rows @ [e]) = ae_currentHash e"
  "head_hash h (row # rows) = head_hash (ae_currentHash row) rows"
  by (simp_all add: head_hash_def)

lemma linked_snoc:
  "linked sha i h (rows @ [e]) \<longleftrightarrow>
     linked sha i h rows \<and> ae_seq e = i + length rows \<and> ae_previousHash e = head_hash h rows
     \<and> ae_currentHash e = hashChainLink sha (ae_previousHash e) (ae_canonicalPayload e)"
  by (induction rows arbitrary: i h) auto

lemma linked_seqs: "linked sha i h rows \<Longrightarrow> map ae_seq rows = [i..<i + length rows]"
proof (induction rows arbitrary: i h)
  case (Cons row rows)
  from Cons.prems have "linked sha (i + 1) (ae_currentHash row) rows" "ae_seq row = i" unfolding linked.simps by blast+
  from Cons.IH [OF this(1)] this(2) have "map ae_seq (row # rows) = i # [i + 1..<i + 1 + length rows]"
    by (simp del: upt_Suc)
  also have "\<dots> = [i..<i + length (row # rows)]" by (simp add: upt_conv_Cons del: upt_Suc)
  finally show ?case .
qed simp

lemma check_links_linked: "cv_valid (check_links sha n i (Some h) rows) \<longleftrightarrow> linked sha i h rows"
  by (induction rows arbitrary: i h) (auto simp: broken_def)

definition by_seq :: "AuditEvent \<Rightarrow> AuditEvent \<Rightarrow> int" where
  "by_seq a b = int (ae_seq a) - int (ae_seq b)"

interpretation seq_order: js_comparator by_seq
  by unfold_locales (auto simp: by_seq_def sgn_if)

definition chain_of :: "AuditEvent list \<Rightarrow> AuditEvent list" where
  "chain_of rows = js_sort by_seq rows"

lemma verify_linked: "cv_valid (verifyChainFromRows sha rows) \<longleftrightarrow> linked sha 0 GENESIS_HASH (chain_of rows)"
proof -
  have sort: "js_sort (\<lambda>a b. int (ae_seq a) - int (ae_seq b)) rows = chain_of rows"
    by (simp add: chain_of_def by_seq_def [abs_def])
  show ?thesis
    by (cases "chain_of rows") (auto simp: verifyChainFromRows_def sort Let_def broken_def check_links_linked)
qed

lemma js_insort_before: "cmp x e \<le> 0 \<Longrightarrow> js_insort cmp x (ys @ [e]) = js_insort cmp x ys @ [e]"
  by (induction ys) auto

lemma js_sort_snoc: "\<forall>x \<in> set xs. cmp x e \<le> 0 \<Longrightarrow> js_sort cmp (xs @ [e]) = js_sort cmp xs @ [e]"
  unfolding js_sort_def by (induction xs) (auto simp: js_insort_before)

lemma length_chain_of [simp]: "length (chain_of rows) = length rows"
  by (simp add: chain_of_def)

lemma set_chain_of [simp]: "set (chain_of rows) = set rows"
  by (simp add: chain_of_def)

lemma chain_seqs:
  assumes "linked sha 0 h (chain_of rows)"
  shows "ae_seq ` set rows = {..<length rows}"
  using arg_cong [OF linked_seqs [OF assms], of set] by (simp add: lessThan_atLeast0)

section \<open>Appending\<close>

lemma last_event_spec:
  "last_event es = None \<longleftrightarrow> es = []"
  "last_event es = Some e \<Longrightarrow> e \<in> set es \<and> (\<forall>f \<in> set es. ae_seq f \<le> ae_seq e)"
  by (induction es arbitrary: e) (auto split: option.splits if_splits)

lemma last_event_chain:
  assumes "linked sha 0 h (chain_of es)" "last_event es = Some e"
  shows "es \<noteq> []" "e = last (chain_of es)" "ae_seq e = length es - 1"
proof -
  note spec = last_event_spec(2) [OF assms(2)]
  then show ne: "es \<noteq> []" by auto
  then obtain es' f where f: "chain_of es = es' @ [f]" by (metis length_0_conv length_chain_of rev_exhaust)
  with assms(1) have seq: "ae_seq f = length es'" "f \<in> set es" "length es = Suc (length es')"
    using set_chain_of [of es] length_chain_of [of es] by (auto simp: linked_snoc)
  have "distinct (map ae_seq (chain_of es))" using linked_seqs [OF assms(1)] by simp
  then have inj: "inj_on ae_seq (set es)" by (simp add: distinct_map)
  have "ae_seq e \<in> {..<length es}" using chain_seqs [OF assms(1)] spec by blast
  with spec seq have "ae_seq e = ae_seq f" by (auto intro: order_antisym)
  with inj spec seq(2) have "e = f" by (auto dest: inj_onD)
  with f seq show "e = last (chain_of es)" "ae_seq e = length es - 1" by simp_all
qed

abbreviation batch_chain :: "ident \<Rightarrow> AuditEvent list \<Rightarrow> AuditEvent list" where
  "batch_chain bid tbl \<equiv> chain_of (batch_events bid tbl)"

definition intact :: "(string \<Rightarrow> string) \<Rightarrow> ident \<Rightarrow> AuditEvent list \<Rightarrow> bool" where
  "intact sha bid tbl \<longleftrightarrow> linked sha 0 GENESIS_HASH (batch_chain bid tbl)"

lemma intact_verify: "cv_valid (verifyAuditChain sha bid tbl) \<longleftrightarrow> intact sha bid tbl"
  by (simp add: verifyAuditChain_def verify_linked intact_def)

lemma next_event_links:
  assumes "intact sha (in_batchId inp) tbl"
  shows "ae_batchId (next_event sha inp tbl) = in_batchId inp"
    "ae_seq (next_event sha inp tbl) = length (batch_events (in_batchId inp) tbl)"
    "linked sha 0 GENESIS_HASH (batch_chain (in_batchId inp) tbl @ [next_event sha inp tbl])"
proof -
  let ?es = "batch_events (in_batchId inp) tbl"
  note ok = assms [unfolded intact_def]
  show "ae_batchId (next_event sha inp tbl) = in_batchId inp" by (simp add: next_event_def Let_def)
  show seq: "ae_seq (next_event sha inp tbl) = length ?es"
  proof (cases "last_event ?es")
    case None
    then show ?thesis using last_event_spec(1) by (auto simp: next_event_def Let_def)
  next
    case (Some e)
    from last_event_chain [OF ok Some] Some show ?thesis by (cases ?es) (auto simp: next_event_def Let_def)
  qed
  have "ae_previousHash (next_event sha inp tbl) = head_hash GENESIS_HASH (chain_of ?es)"
  proof (cases "last_event ?es")
    case None
    then show ?thesis using last_event_spec(1) [of ?es] by (simp add: next_event_def Let_def chain_of_def js_sort_def)
  next
    case (Some e)
    then show ?thesis using last_event_chain [OF ok Some] length_chain_of [of ?es]
      by (auto simp: next_event_def Let_def head_hash_def simp del: length_chain_of)
  qed
  then show "linked sha 0 GENESIS_HASH (chain_of ?es @ [next_event sha inp tbl])"
    using ok seq by (simp add: linked_snoc) (simp add: next_event_def Let_def)
qed

lemma insert_next:
  assumes "intact sha (in_batchId inp) tbl" "intact sha (in_batchId inp) tbl1"
    and "continued_by (batch_chain (in_batchId inp) tbl) (batch_chain (in_batchId inp) tbl1)"
    and "insert_event (next_event sha inp tbl) tbl1 = Some tbl2"
  shows "batch_chain (in_batchId inp) tbl2 = batch_chain (in_batchId inp) tbl1 @ [next_event sha inp tbl]"
    and "batch_chain (in_batchId inp) tbl1 = batch_chain (in_batchId inp) tbl" and "intact sha (in_batchId inp) tbl2"
proof -
  let ?b = "in_batchId inp" and ?e = "next_event sha inp tbl"
  note e = next_event_links [OF assms(1)]
  from assms(4) have tbl2: "tbl2 = tbl1 @ [?e]" and free: "(?b, ae_seq ?e) \<notin> (\<lambda>f. (ae_batchId f, ae_seq f)) ` set tbl1"
    by (auto simp: insert_event_def e(1) split: if_splits)
  have "ae_seq ?e \<notin> ae_seq ` set (batch_events ?b tbl1)"
    using free by (force simp: batch_events_def)
  then have "length (batch_events ?b tbl1) \<le> length (batch_events ?b tbl)"
    using chain_seqs [OF assms(2) [unfolded intact_def]] e(2) by auto
  moreover obtain zs where zs: "batch_chain ?b tbl1 = batch_chain ?b tbl @ zs" using assms(3) by (rule continued_byE)
  moreover from zs have "length (batch_events ?b tbl1) = length (batch_events ?b tbl) + length zs"
    using length_chain_of [of "batch_events ?b tbl1"] by simp
  ultimately have "length zs = 0" by linarith
  then have "zs = []" by simp
  with zs show same: "batch_chain ?b tbl1 = batch_chain ?b tbl" by simp
  have "batch_events ?b tbl2 = batch_events ?b tbl1 @ [?e]" by (simp add: tbl2 batch_events_def e(1))
  moreover have "\<forall>x \<in> set (batch_events ?b tbl1). by_seq x ?e \<le> 0"
  proof
    fix x
    assume "x \<in> set (batch_events ?b tbl1)"
    then have "ae_seq x \<in> {..<length (batch_events ?b tbl1)}"
      unfolding chain_seqs [OF assms(2) [unfolded intact_def], symmetric] by (rule imageI)
    with e(2) arg_cong [OF same, of length] show "by_seq x ?e \<le> 0" by (simp add: by_seq_def)
  qed
  ultimately show chain: "batch_chain ?b tbl2 = batch_chain ?b tbl1 @ [?e]"
    unfolding chain_of_def by (simp add: js_sort_snoc)
  show "intact sha ?b tbl2" unfolding intact_def chain same by (rule e(3))
qed

text \<open>What other writers do: they extend the chain of the batch and keep it intact.\<close>

definition well_behaved :: "(string \<Rightarrow> string) \<Rightarrow> ident \<Rightarrow> (nat \<Rightarrow> AuditEvent list \<Rightarrow> AuditEvent list) \<Rightarrow> bool" where
  "well_behaved sha bid others \<longleftrightarrow>
     (\<forall>k tbl. intact sha bid tbl \<longrightarrow> intact sha bid (others k tbl) \<and> continued_by (batch_chain bid tbl) (batch_chain bid (others k tbl)))"

lemma append_attempts_intact:
  assumes "well_behaved sha (in_batchId inp) others" "intact sha (in_batchId inp) tbl"
    and "append_attempts k sha others inp tbl = (res, tbl')"
  shows "intact sha (in_batchId inp) tbl' \<and> continued_by (batch_chain (in_batchId inp) tbl) (batch_chain (in_batchId inp) tbl')
    \<and> (\<forall>e. res = Some e \<longrightarrow> ae_canonicalPayload e = event_payload inp \<and> batch_chain (in_batchId inp) tbl' \<noteq> []
          \<and> last (batch_chain (in_batchId inp) tbl') = e)"
  using assms(2,3)
proof (induction k arbitrary: tbl)
  case (Suc k)
  let ?b = "in_batchId inp" and ?e = "next_event sha inp tbl" and ?tbl1 = "others k tbl"
  have ok: "intact sha ?b ?tbl1" "continued_by (batch_chain ?b tbl) (batch_chain ?b ?tbl1)"
    using assms(1) Suc.prems(1) by (auto simp: well_behaved_def)
  show ?case
  proof (cases "insert_event ?e ?tbl1")
    case None
    with Suc.prems(2) have "append_attempts k sha others inp ?tbl1 = (res, tbl')" by (simp add: Let_def)
    from Suc.IH [OF ok(1) this] ok(2) show ?thesis by (meson continued_by_trans)
  next
    case (Some tbl2)
    with Suc.prems(2) have out: "res = Some ?e" "tbl' = tbl2" by (simp_all add: Let_def)
    have payload: "ae_canonicalPayload ?e = event_payload inp" by (simp add: next_event_def Let_def)
    from insert_next [OF Suc.prems(1) ok Some] payload show ?thesis unfolding out by simp
  qed
qed simp

section \<open>Tamper evidence\<close>

definition link_input :: "AuditEvent \<Rightarrow> string" where
  "link_input e = ae_previousHash e @ ae_canonicalPayload e"

definition link_view :: "AuditEvent \<Rightarrow> nat \<times> string \<times> string \<times> string" where
  "link_view e = (ae_seq e, ae_previousHash e, ae_canonicalPayload e, ae_currentHash e)"

lemma linked_head_length:
  assumes "linked sha i h rows" "length h = 64" "\<forall>e \<in> set rows. length (sha (link_input e)) = 64"
  shows "length (head_hash h rows) = 64"
  using assms
  by (induction rows rule: rev_induct) (auto simp: linked_snoc hashChainLink_def link_input_def)

lemma linked_unique:
  assumes "linked sha i h xs" "linked sha i h ys" "length xs = length ys" "head_hash h xs = head_hash h ys"
    and "length h = 64" "inj_on sha (link_input ` (set xs \<union> set ys))"
    and "\<forall>e \<in> set xs \<union> set ys. length (sha (link_input e)) = 64"
  shows "map link_view xs = map link_view ys"
  using assms
proof (induction xs arbitrary: ys rule: rev_induct)
  case (snoc x xs)
  from snoc.prems(3) obtain ys' y where ys: "ys = ys' @ [y]" by (cases ys rule: rev_cases) auto
  note px = snoc.prems(1) [unfolded linked_snoc] and py = snoc.prems(2) [unfolded ys linked_snoc]
  have "sha (link_input x) = sha (link_input y)"
    using snoc.prems(4) px py by (simp add: ys hashChainLink_def link_input_def)
  then have same: "link_input x = link_input y"
    by (rule inj_onD [OF snoc.prems(6)]) (simp_all add: ys)
  have "length (head_hash h xs) = 64" "length (head_hash h ys') = 64"
    using px py snoc.prems(5,7) by (auto intro!: linked_head_length simp: ys)
  then have "length (ae_previousHash x) = length (ae_previousHash y)" using px py by simp
  with same have eq: "ae_previousHash x = ae_previousHash y" "ae_canonicalPayload x = ae_canonicalPayload y"
    by (simp_all add: link_input_def)
  have len: "length xs = length ys'" using snoc.prems(3) by (simp add: ys)
  have "map link_view xs = map link_view ys'"
  proof (rule snoc.IH)
    show "inj_on sha (link_input ` (set xs \<union> set ys'))"
      using snoc.prems(6) by (rule inj_on_subset) (auto simp: ys)
    show "head_hash h xs = head_hash h ys'" using px py eq by simp
  qed (use px py len snoc.prems(5,7) in \<open>auto simp: ys\<close>)
  moreover have "link_view x = link_view y" using px py eq len by (simp add: link_view_def)
  ultimately show ?case by (simp add: ys)
qed simp

section \<open>Properties\<close>

text \<open>
  Appending keeps the audit chain verifiable under concurrency: as long as the other writers only
  extend the chain of the batch, an append leaves a chain that verifies, that extends the one it
  found, and, when it reports an event, ends in that event with the payload it was given. Losing
  the race for a sequence number never forks or corrupts the chain.
\<close>

theorem append_keeps_chain:
  assumes "well_behaved sha (in_batchId inp) others" "cv_valid (verifyAuditChain sha (in_batchId inp) tbl)"
    and "appendAuditEvent sha others inp tbl = (res, tbl')"
  shows "cv_valid (verifyAuditChain sha (in_batchId inp) tbl')
    \<and> continued_by (batch_chain (in_batchId inp) tbl) (batch_chain (in_batchId inp) tbl')
    \<and> (case res of None \<Rightarrow> True | Some e \<Rightarrow> ae_canonicalPayload e = event_payload inp
          \<and> batch_chain (in_batchId inp) tbl' \<noteq> [] \<and> last (batch_chain (in_batchId inp) tbl') = e)"
  using append_attempts_intact [OF assms(1), of tbl MAX_RETRIES res tbl'] assms(2,3)
  by (auto simp: intact_verify appendAuditEvent_def split: option.split)

definition sample_event :: "string \<Rightarrow> AppendAuditEventInput" where
  "sample_event ty = \<lparr>in_batchId = ''batch_1'', in_eventType = ty, in_actor = ''SYSTEM'', in_entityId = None,
     in_payload = [(''payments'', JInt 3)], in_occurredAt = ''2025-01-01T00:00:00.000Z''\<rparr>"

definition toy_hash :: "string \<Rightarrow> string" where
  "toy_hash t = take 64 (js_show_nat (length t) @ replicate 64 (CHR ''x''))"

text \<open>Another writer appends first on the first attempt; the append retries and succeeds.\<close>

definition rival :: "nat \<Rightarrow> AuditEvent list \<Rightarrow> AuditEvent list" where
  "rival k tbl = (if k = 4 then tbl @ [next_event toy_hash (sample_event ''INGESTION'') tbl] else tbl)"

lemma rival_well_behaved: "well_behaved toy_hash ''batch_1'' rival"
  unfolding well_behaved_def
proof (intro allI impI)
  fix k tbl
  assume ok: "intact toy_hash ''batch_1'' tbl"
  let ?inp = "sample_event ''INGESTION''" and ?e = "next_event toy_hash (sample_event ''INGESTION'') tbl"
  have b: "in_batchId ?inp = ''batch_1''" by (simp add: sample_event_def)
  note e = next_event_links [of toy_hash ?inp tbl, unfolded b, OF ok]
  have "(''batch_1'', ae_seq ?e) \<notin> (\<lambda>f. (ae_batchId f, ae_seq f)) ` set tbl"
  proof
    assume "(''batch_1'', ae_seq ?e) \<in> (\<lambda>f. (ae_batchId f, ae_seq f)) ` set tbl"
    then have "ae_seq ?e \<in> ae_seq ` set (batch_events ''batch_1'' tbl)" by (auto simp: batch_events_def)
    then show False unfolding chain_seqs [OF ok [unfolded intact_def]] using e(2) by simp
  qed
  then have "insert_event ?e tbl = Some (tbl @ [?e])" by (simp add: insert_event_def e(1))
  from insert_next [of toy_hash ?inp tbl tbl, unfolded b, OF ok ok _ this] ok
  show "intact toy_hash ''batch_1'' (rival k tbl) \<and> continued_by (batch_chain ''batch_1'' tbl) (batch_chain ''batch_1'' (rival k tbl))"
    by (simp add: rival_def)
qed

theorem append_keeps_chain_witness:
  "map_option ae_seq (fst (appendAuditEvent toy_hash rival (sample_event ''MATCHING'') [])) = Some 1
   \<and> cv_valid (verifyAuditChain toy_hash ''batch_1'' (snd (appendAuditEvent toy_hash rival (sample_event ''MATCHING'') [])))"
proof -
  have b: "in_batchId (sample_event ''MATCHING'') = ''batch_1''" by (simp add: sample_event_def)
  have start: "cv_valid (verifyAuditChain toy_hash ''batch_1'' [])"
    by (simp add: verifyAuditChain_def batch_events_def verifyChainFromRows_def js_sort_def Let_def)
  have seq: "map_option ae_seq (fst (appendAuditEvent toy_hash rival (sample_event ''MATCHING'') [])) = Some 1"
    by code_simp
  obtain res tbl' where out: "appendAuditEvent toy_hash rival (sample_event ''MATCHING'') [] = (res, tbl')" by fastforce
  from append_keeps_chain [OF rival_well_behaved [folded b] start [folded b] out, unfolded b] seq show ?thesis
    by (simp add: out)
qed

text \<open>
  C29. The audit chain is tamper-evident: two verified chains with the same number of events and the
  same last hash agree on every sequence number, hash and payload, unless the hash function has a
  collision among the links of the two chains. History cannot be rewritten under a known head.
\<close>

theorem chain_tamper_evident:
  assumes "cv_valid (verifyChainFromRows sha rows)" "cv_valid (verifyChainFromRows sha rows')"
    and "length rows = length rows'" "head_hash GENESIS_HASH (chain_of rows) = head_hash GENESIS_HASH (chain_of rows')"
    and "inj_on sha (link_input ` (set rows \<union> set rows'))"
    and "\<forall>e \<in> set rows \<union> set rows'. length (sha (link_input e)) = 64"
  shows "map link_view (chain_of rows) = map link_view (chain_of rows')"
  using assms by (intro linked_unique [of sha 0 GENESIS_HASH]) (simp_all add: verify_linked GENESIS_HASH_def)

theorem chain_tamper_evident_witness:
  "map link_view (chain_of (snd (appendAuditEvent toy_hash rival (sample_event ''MATCHING'') [])))
   = map link_view (chain_of (rev (snd (appendAuditEvent toy_hash rival (sample_event ''MATCHING'') []))))"
proof (rule chain_tamper_evident)
  let ?t = "snd (appendAuditEvent toy_hash rival (sample_event ''MATCHING'') [])"
  show "cv_valid (verifyChainFromRows toy_hash ?t)" by code_simp
  show "cv_valid (verifyChainFromRows toy_hash (rev ?t))" by code_simp
  show "length ?t = length (rev ?t)" by simp
  show "head_hash GENESIS_HASH (chain_of ?t) = head_hash GENESIS_HASH (chain_of (rev ?t))" by code_simp
  have "distinct (map (toy_hash \<circ> link_input) ?t)" by code_simp
  then show "inj_on toy_hash (link_input ` (set ?t \<union> set (rev ?t)))"
    by (auto simp: distinct_map inj_on_def)
  have "list_all (\<lambda>e. length (toy_hash (link_input e)) = 64) ?t" by code_simp
  then show "\<forall>e \<in> set ?t \<union> set (rev ?t). length (toy_hash (link_input e)) = 64" by (simp add: list_all_iff)
qed

end
