(* ===== verification/Engine_Correct.thy ===== *)
theory Engine_Correct
  imports Engine Invariants_Correct Apply_Correct Audit_Chain_Correct
begin

text \<open>
  Correctness of the orchestrator. The stages are described by triples: from a database that
  satisfies \<open>P\<close>, an operation that returns \<open>x\<close> leaves a database with \<open>Q x\<close>, and one that throws
  \<open>e\<close> leaves a database with \<open>E e\<close>. Since every operation is a total function, a triple also says
  how the operation ends.
\<close>

section \<open>Triples\<close>

definition triple :: "(EngineDb \<Rightarrow> bool) \<Rightarrow> 'a engine \<Rightarrow> ('a \<Rightarrow> EngineDb \<Rightarrow> bool) \<Rightarrow> (EngineError \<Rightarrow> EngineDb \<Rightarrow> bool) \<Rightarrow> bool" where
  "triple P m Q E \<longleftrightarrow> (\<forall>db. P db \<longrightarrow> (case m db of (Inr x, db') \<Rightarrow> Q x db' | (Inl e, db') \<Rightarrow> E e db'))"

lemma tripleI: "(\<And>db. P db \<Longrightarrow> case m db of (Inr x, db') \<Rightarrow> Q x db' | (Inl e, db') \<Rightarrow> E e db') \<Longrightarrow> triple P m Q E"
  by (simp add: triple_def)

lemma tripleD: "triple P m Q E \<Longrightarrow> P db \<Longrightarrow> case m db of (Inr x, db') \<Rightarrow> Q x db' | (Inl e, db') \<Rightarrow> E e db'"
  by (simp add: triple_def)

lemma triple_and_then:
  assumes "triple P m R E" "\<And>x. triple (R x) (f x) Q E"
  shows "triple P (and_then m f) Q E"
proof (rule tripleI)
  fix db assume "P db"
  obtain v db' where m: "m db = (v, db')" by fastforce
  show "case and_then m f db of (Inr x, db') \<Rightarrow> Q x db' | (Inl e, db') \<Rightarrow> E e db'"
  proof (cases v)
    case (Inl e)
    with tripleD [OF assms(1) \<open>P db\<close>] m show ?thesis by (simp add: and_then_def)
  next
    case (Inr x)
    with tripleD [OF assms(1) \<open>P db\<close>] m have "R x db'" by simp
    from tripleD [OF assms(2) this] Inr m show ?thesis by (simp add: and_then_def)
  qed
qed

lemma triple_seq:
  "triple P m (\<lambda>_. P) E \<Longrightarrow> (\<And>x. triple P (f x) Q E) \<Longrightarrow> triple P (and_then m f) Q E"
  by (rule triple_and_then)

lemma triple_known:
  assumes "triple P m (\<lambda>x db. x = a \<and> R db) E" "triple R (f a) Q E"
  shows "triple P (and_then m f) Q E"
proof (rule triple_and_then [OF assms(1)])
  fix x
  show "triple (\<lambda>db. x = a \<and> R db) (f x) Q E"
    using assms(2) by (cases "x = a") (simp_all add: triple_def)
qed

lemma triple_conseq:
  assumes "triple P' m Q' E'" "\<And>db. P db \<Longrightarrow> P' db" "\<And>x db. Q' x db \<Longrightarrow> Q x db" "\<And>e db. E' e db \<Longrightarrow> E e db"
  shows "triple P m Q E"
proof (rule tripleI)
  fix db assume "P db"
  from tripleD [OF assms(1) assms(2) [OF this]] show "case m db of (Inr x, db') \<Rightarrow> Q x db' | (Inl e, db') \<Rightarrow> E e db'"
    using assms(3,4) by (auto split: prod.splits sum.splits)
qed

lemma triple_give: "triple (Q x) (give x) Q E"
  by (simp add: triple_def give_def)

lemma triple_throw: "triple (E e) (throw e) Q E"
  by (simp add: triple_def throw_def)

lemma triple_modify: "triple (\<lambda>db. Q () (f db)) (modify f) Q E"
  by (simp add: triple_def modify_def)

lemma triple_update_batch:
  "triple (\<lambda>db. case e_batches db bid of None \<Rightarrow> E BatchNotFound db | Some b \<Rightarrow> Q () (db\<lparr>e_batches := (e_batches db)(bid \<mapsto> f b)\<rparr>))
     (update_batch bid f) Q E"
  by (simp add: triple_def update_batch_def split: option.splits)

text \<open>An append touches nothing but the chain.\<close>

lemma triple_append_event:
  "triple (\<lambda>db. \<forall>tbl. Q () (db\<lparr>e_chain := tbl\<rparr>) \<and> E AuditAppendFailed (db\<lparr>e_chain := tbl\<rparr>)) (append_event env bid ty pl) Q E"
  by (auto simp: triple_def append_event_def split: prod.splits option.splits)

section \<open>The database up to the audit chain\<close>

definition upto_chain :: "EngineDb \<Rightarrow> EngineDb \<Rightarrow> bool" where
  "upto_chain X db \<longleftrightarrow> (\<exists>tbl. db = X\<lparr>e_chain := tbl\<rparr>)"

lemma upto_chain_refl: "upto_chain X X"
  unfolding upto_chain_def by (rule exI [of _ "e_chain X"]) simp

lemma upto_chain_fields:
  assumes "upto_chain X db"
  shows "e_batches db = e_batches X" "e_auditLog db = e_auditLog X" "e_results db = e_results X"
    "e_exceptions db = e_exceptions X" "e_links db = e_links X" "e_ledger db = e_ledger X" "e_runs db = e_runs X"
    "e_scale db = e_scale X"
  using assms by (auto simp: upto_chain_def)

lemma upto_append:
  "triple (upto_chain X) (append_event env bid ty pl) (\<lambda>_. upto_chain X) (\<lambda>e db. e = AuditAppendFailed \<and> upto_chain X db)"
  by (rule triple_conseq [OF triple_append_event]) (auto simp: upto_chain_def)

text \<open>An update that neither reads nor writes the chain.\<close>

definition chain_free :: "(EngineDb \<Rightarrow> EngineDb) \<Rightarrow> bool" where
  "chain_free f \<longleftrightarrow> (\<forall>db tbl. f (db\<lparr>e_chain := tbl\<rparr>) = (f db)\<lparr>e_chain := tbl\<rparr>)"

lemma upto_modify: "chain_free f \<Longrightarrow> triple (upto_chain X) (modify f) (\<lambda>_. upto_chain (f X)) E"
  by (auto simp: triple_def modify_def upto_chain_def chain_free_def)

lemma chain_commute:
  "X\<lparr>e_chain := t, e_batches := y\<rparr> = X\<lparr>e_batches := y, e_chain := t\<rparr>"
  "X\<lparr>e_chain := t, e_scale := z\<rparr> = X\<lparr>e_scale := z, e_chain := t\<rparr>"
  by simp_all

lemma upto_update:
  "e_batches X bid = Some b \<Longrightarrow>
     triple (upto_chain X) (update_batch bid f) (\<lambda>_. upto_chain (X\<lparr>e_batches := (e_batches X)(bid \<mapsto> f b)\<rparr>)) E"
  by (rule triple_conseq [OF triple_update_batch]) (auto simp: upto_chain_def chain_commute)

lemma chain_free_comp: "chain_free f \<Longrightarrow> chain_free g \<Longrightarrow> chain_free (\<lambda>db. f (g db))"
  by (simp add: chain_free_def)

lemma chain_free_updates:
  "chain_free (\<lambda>db. db\<lparr>e_auditLog := g (e_auditLog db)\<rparr>)"
  "chain_free (\<lambda>db. db\<lparr>e_results := g2 (e_results db)\<rparr>)"
  "chain_free (\<lambda>db. db\<lparr>e_exceptions := g3 (e_exceptions db)\<rparr>)"
  "chain_free (\<lambda>db. db\<lparr>e_links := g4 (e_links db)\<rparr>)"
  "chain_free (\<lambda>db. db\<lparr>e_ledger := g5 (e_ledger db)\<rparr>)"
  "chain_free (\<lambda>db. db\<lparr>e_runs := g6 (e_runs db)\<rparr>)"
  by (simp_all add: chain_free_def)

section \<open>What the stages write\<close>

lemma insert_chunks_append: "0 < n \<Longrightarrow> insert_chunks n rows tbl = tbl @ rows"
  by (induction n rows tbl rule: insert_chunks.induct) (subst insert_chunks.simps, auto)

definition started :: "ident \<Rightarrow> BatchRow \<Rightarrow> EngineDb \<Rightarrow> EngineDb" where
  "started bid b db = db\<lparr>e_batches := (e_batches db)(bid \<mapsto> b\<lparr>bt_status := ''PROCESSING''\<rparr>),
     e_auditLog := e_auditLog db @ [\<lparr>al_batchId = bid, al_actor = ''SYSTEM'', al_action = ''RECONCILIATION_STARTED'',
       al_entityType = ''batch'', al_entityId = bid, al_reason = ReconciliationInitiated, al_metadata = NoMetadata\<rparr>]\<rparr>"

definition stored :: "EngineEnv \<Rightarrow> ident \<Rightarrow> MatchResult list \<Rightarrow> CardinalityMatch list \<Rightarrow> DecisionReport \<Rightarrow> EngineDb \<Rightarrow> EngineDb" where
  "stored env bid results rels rep db =
     db\<lparr>e_results := filter (\<lambda>r. rr_batchId r \<noteq> bid) (e_results db) @ map (result_row bid) results,
        e_links := filter (\<lambda>l. cl_batchId l \<noteq> bid) (e_links db) @ map (link_row bid (Some (ee_runId env))) rels,
        e_exceptions := filter (\<lambda>x. ex_batchId x \<noteq> bid) (e_exceptions db)
          @ map (exception_row bid (set_all d_paymentId (decisions rep) Map.empty)) (filter (\<lambda>r. status r \<noteq> AUTO_MATCHED) results)\<rparr>"

lemma store_results_stored: "store_results env bid results rels rep = modify (stored env bid results rels rep)"
proof
  fix db
  show "store_results env bid results rels rep db = modify (stored env bid results rels rep) db"
    by (auto simp: store_results_def stored_def and_then_def modify_def give_def deleteCardinalityLinks_def Let_def
        persistCardinalityLinks_def insert_chunks_append DB_CHUNK_SIZE_def LINK_CHUNK_def)
qed

lemma stored_chain_free: "chain_free (stored env bid results rels rep)"
  by (simp add: chain_free_def stored_def)

lemma upto_appends:
  "triple (upto_chain X) (record_ingestion env bid data) (\<lambda>_. upto_chain X) (\<lambda>e db. e = AuditAppendFailed \<and> upto_chain X db)"
  "triple (upto_chain X) (record_matching env bid results rels rep) (\<lambda>_. upto_chain X) (\<lambda>e db. e = AuditAppendFailed \<and> upto_chain X db)"
  unfolding record_ingestion_def record_matching_def by (intro triple_seq upto_append)+

lemma match_batch_triple:
  assumes "applyCardinalityMatching (ee_cardinality env) (matchAllRecords data (buildIndexes data)) data
      (Some \<lparr>opt_batchId = Some bid, opt_runId = Some (ee_runId env)\<rparr>) (e_scale X) = (out, scale)"
  shows "triple (upto_chain X) (match_batch env bid data) (\<lambda>x db. x = out \<and> upto_chain (X\<lparr>e_scale := scale\<rparr>) db) E"
proof (rule tripleI)
  fix db assume "upto_chain X db"
  then obtain tbl where db: "db = X\<lparr>e_chain := tbl\<rparr>" by (auto simp: upto_chain_def)
  have "upto_chain (X\<lparr>e_scale := scale\<rparr>) (db\<lparr>e_scale := scale\<rparr>)"
    unfolding upto_chain_def db chain_commute by (rule exI) (rule refl)
  then show "case match_batch env bid data db of
      (Inr x, db) \<Rightarrow> x = out \<and> upto_chain (X\<lparr>e_scale := scale\<rparr>) db | (Inl e, db) \<Rightarrow> E e db"
    using assms by (simp add: match_batch_def db)
qed

definition status_of :: "ident \<Rightarrow> EngineDb \<Rightarrow> string option" where
  "status_of bid db = map_option bt_status (e_batches db bid)"

text \<open>The tables a finished run leaves: its results, exceptions, links and active ledger rows.\<close>

definition gate_error :: "ident \<Rightarrow> EngineDb \<Rightarrow> InvariantReport \<Rightarrow> RoutingOutcome \<Rightarrow> EngineError \<Rightarrow> EngineDb \<Rightarrow> bool" where
  "gate_error bid X irep routing e db = (case e of
     BatchNotFound \<Rightarrow> False
   | AuditAppendFailed \<Rightarrow> status_of bid db = Some ''PROCESSING''
        \<or> (status_of bid db = Some ''COMPLETED'' \<and> failures irep = [] \<and> routing = STRAIGHT_THROUGH)
   | ControlFailure r \<Rightarrow> r = irep \<and> failures irep \<noteq> [] \<and> status_of bid db = Some ''CONTROL_FAILURE''
        \<and> e_ledger db = e_ledger X \<and> correction_attempts bid db = correction_attempts bid X + 1)"

lemma fail_control_triple:
  assumes "e_batches X bid = Some b" "failures irep \<noteq> []"
  shows "triple (upto_chain X) (fail_control env bid data results m irep) Q (gate_error bid X irep routing)"
proof (rule tripleI)
  fix db assume "upto_chain X db"
  note same = upto_chain_fields [OF this]
  show "case fail_control env bid data results m irep db of (Inr x, db') \<Rightarrow> Q x db' | (Inl e, db') \<Rightarrow> gate_error bid X irep routing e db'"
    using assms by (simp add: fail_control_def and_then_def store_metadata_def modify_def update_batch_def write_log_def
        throw_def same gate_error_def status_of_def correction_attempts_def)
qed

lemma complete_batch_triple:
  assumes "e_batches X bid = Some b" "failures irep = []"
  shows "triple (upto_chain X) (complete_batch env bid v n rep m)
    (\<lambda>m' db. m' = m \<and> status_of bid db = Some ''COMPLETED'' \<and> e_ledger db = e_ledger X \<and> e_results db = e_results X
       \<and> e_exceptions db = e_exceptions X \<and> e_links db = e_links X)
    (gate_error bid Y irep STRAIGHT_THROUGH)"
proof (rule tripleI)
  fix db assume "upto_chain X db"
  note same = upto_chain_fields [OF this]
  show "case complete_batch env bid v n rep m db of
      (Inr m', db) \<Rightarrow> m' = m \<and> status_of bid db = Some ''COMPLETED'' \<and> e_ledger db = e_ledger X \<and> e_results db = e_results X
         \<and> e_exceptions db = e_exceptions X \<and> e_links db = e_links X
    | (Inl e, db) \<Rightarrow> gate_error bid Y irep STRAIGHT_THROUGH e db"
    using assms by (auto simp: complete_batch_def and_then_def riskGateAudit_def modify_def update_batch_def write_log_def
        append_event_def give_def same gate_error_def status_of_def split: prod.splits option.splits)
qed

lemma hold_batch_triple:
  assumes "e_batches X bid = Some b"
  shows "triple (upto_chain X) (hold_batch bid v n rep m st)
    (\<lambda>m' db. m' = m \<and> status_of bid db = Some st \<and> e_ledger db = e_ledger X \<and> e_results db = e_results X
       \<and> e_exceptions db = e_exceptions X \<and> e_links db = e_links X) E"
proof (rule tripleI)
  fix db assume "upto_chain X db"
  note same = upto_chain_fields [OF this]
  show "case hold_batch bid v n rep m st db of
      (Inr m', db) \<Rightarrow> m' = m \<and> status_of bid db = Some st \<and> e_ledger db = e_ledger X \<and> e_results db = e_results X
         \<and> e_exceptions db = e_exceptions X \<and> e_links db = e_links X
    | (Inl e, db) \<Rightarrow> E e db"
    using assms by (simp add: hold_batch_def and_then_def riskGateAudit_def modify_def update_batch_def write_log_def
        give_def same status_of_def)
qed

definition ledgered ::
  "EngineEnv \<Rightarrow> ident \<Rightarrow> MatchResult list \<Rightarrow> DecisionReport \<Rightarrow> RoutingOutcome \<Rightarrow> EngineDb \<Rightarrow> LedgerRow list" where
  "ledgered env bid results rep routing X = fst (persistLedger bid
     (buildLedgerEntries results rep (approval_for routing) (Some (ee_runId env))) (e_ledger X))"

lemma store_metadata_triple:
  "triple (upto_chain X) (store_metadata env bid data results m st)
     (\<lambda>_. upto_chain (X\<lparr>e_runs := persistRunMetadata (ee_metadataId env) (ee_now env)
       \<lparr>pi_runId = ee_runId env, pi_batchId = bid,
        pi_inputFingerprint = buildInputFingerprint (ee_printer env) (ee_sha env) data,
        pi_outcomeFingerprint = Some (buildOutcomeFingerprint (ee_printer env) (ee_sha env) results m),
        pi_outcomeStatus = st, pi_versions = None\<rparr> (e_runs X)\<rparr>)) E"
  unfolding store_metadata_def by (rule upto_modify) (rule chain_free_updates)

lemma route_batch_triple:
  assumes b: "e_batches X bid = Some b" and ok: "failures irep = []"
    and v: "v = evaluateGate rep irep (correction_attempts bid X)"
  shows "triple (upto_chain X) (route_batch env bid data results rep m irep)
    (\<lambda>m' db. m' = m \<and> status_of bid db = Some (end_status (v_routing v))
       \<and> e_ledger db = ledgered env bid results rep (v_routing v) X
       \<and> e_results db = e_results X \<and> e_exceptions db = e_exceptions X \<and> e_links db = e_links X)
    (gate_error bid Y irep (v_routing v))"
    (is "triple _ _ ?Q ?E")
proof (rule tripleI)
  fix db assume up: "upto_chain X db"
  note same = upto_chain_fields [OF this]
  let ?n = "correction_attempts bid X"
  let ?store = "modify (\<lambda>db. db\<lparr>e_ledger := fst (persistLedger bid
     (buildLedgerEntries results rep (approval_for (v_routing v)) (Some (ee_runId env))) (e_ledger db))\<rparr>)"
  let ?rest = "if v_routing v = MAKER_CHECKER_REQUIRED then hold_batch bid v ?n rep m ''AWAITING_APPROVAL''
     else if v_routing v = CONTROLLED_REVIEW then hold_batch bid v ?n rep m ''UNDER_REVIEW''
     else complete_batch env bid v ?n rep m"
  have run: "route_batch env bid data results rep m irep db
      = and_then ?store (\<lambda>_. and_then (store_metadata env bid data results m (end_status (v_routing v))) (\<lambda>_. ?rest)) db"
    by (simp add: route_batch_def Let_def v correction_attempts_def same)
  have unblocked: "v_routing v \<noteq> CRITICAL_BLOCKED" using ok v by (simp add: evaluateGate_def)
  have rest: "triple (upto_chain Z) ?rest ?Q ?E"
    if "e_batches Z bid = Some b" "e_ledger Z = ledgered env bid results rep (v_routing v) X" "e_results Z = e_results X"
      "e_exceptions Z = e_exceptions X" "e_links Z = e_links X" for Z
  proof (cases "v_routing v")
    case STRAIGHT_THROUGH
    with triple_conseq [OF complete_batch_triple [OF that(1) ok]] that show ?thesis by (simp add: end_status_def)
  next
    case CONTROLLED_REVIEW
    with triple_conseq [OF hold_batch_triple [OF that(1)]] that show ?thesis by (simp add: end_status_def)
  next
    case MAKER_CHECKER_REQUIRED
    with triple_conseq [OF hold_batch_triple [OF that(1)]] that show ?thesis by (simp add: end_status_def)
  qed (simp add: unblocked)
  have "triple (upto_chain X) (and_then ?store (\<lambda>_. and_then (store_metadata env bid data results m (end_status (v_routing v))) (\<lambda>_. ?rest))) ?Q ?E"
    by (rule triple_and_then [OF upto_modify [OF chain_free_updates(5)]], rule triple_and_then [OF store_metadata_triple],
        rule rest) (simp_all add: b ledgered_def)
  from tripleD [OF this up] run show "case route_batch env bid data results rep m irep db of (Inr x, db') \<Rightarrow> ?Q x db' | (Inl e, db') \<Rightarrow> ?E e db'"
    by simp
qed

lemma gate_batch_triple:
  assumes b: "e_batches X bid = Some b" "bt_status b = ''PROCESSING''"
    and irep: "irep = evaluateInvariants data results m rels DEFAULT_TOLERANCE"
    and v: "v = evaluateGate rep irep (correction_attempts bid X)"
  shows "triple (upto_chain X) (gate_batch env bid data results rels rep m)
    (\<lambda>m' db. m' = m \<and> failures irep = [] \<and> status_of bid db = Some (end_status (v_routing v))
       \<and> e_ledger db = ledgered env bid results rep (v_routing v) X
       \<and> e_results db = e_results X \<and> e_exceptions db = e_exceptions X \<and> e_links db = e_links X)
    (gate_error bid X irep (v_routing v))"
proof -
  have "triple (upto_chain X) (append_event env bid ty pl) (\<lambda>_. upto_chain X) (gate_error bid X irep (v_routing v))" for ty pl
    by (rule triple_conseq [OF upto_append])
      (auto simp: gate_error_def status_of_def b dest: upto_chain_fields(1))
  then show ?thesis
    unfolding gate_batch_def Let_def irep [symmetric]
  proof (rule triple_seq)
    fix u
    show "triple (upto_chain X)
       (if 0 < length (failures irep) then fail_control env bid data results m irep else route_batch env bid data results rep m irep)
       (\<lambda>m' db. m' = m \<and> failures irep = [] \<and> status_of bid db = Some (end_status (v_routing v))
         \<and> e_ledger db = ledgered env bid results rep (v_routing v) X
         \<and> e_results db = e_results X \<and> e_exceptions db = e_exceptions X \<and> e_links db = e_links X)
       (gate_error bid X irep (v_routing v))"
    proof (cases "failures irep = []")
      case True
      from triple_conseq [OF route_batch_triple [OF b(1) True v]] True show ?thesis by simp
    next
      case False
      from fail_control_triple [OF b(1) False] False show ?thesis by simp
    qed
  qed
qed

section \<open>The whole run\<close>

definition match_outcome :: "EngineEnv \<Rightarrow> ident \<Rightarrow> EngineDb \<Rightarrow> MatchResult list \<times> CardinalityMatch list" where
  "match_outcome env bid db =
     (let data = fetchBatchData (ee_rows env) bid
      in fst (applyCardinalityMatching (ee_cardinality env) (matchAllRecords data (buildIndexes data)) data
           (Some \<lparr>opt_batchId = Some bid, opt_runId = Some (ee_runId env)\<rparr>) (e_scale db)))"

lemma begin_run_started:
  "begin_run bid db = (case e_batches db bid of None \<Rightarrow> (Inl BatchNotFound, db) | Some b \<Rightarrow> (Inr (), started bid b db))"
  by (simp add: begin_run_def and_then_def update_batch_def write_log_def modify_def started_def split: option.split)

lemma run_triple:
  assumes b: "e_batches db0 bid = Some b"
    and out: "match_outcome env bid db0 = (results, rels)"
    and data: "data = fetchBatchData (ee_rows env) bid"
    and rep: "rep = evaluateBatchDecisions results data rels" and m: "m = evaluateResults results data"
    and irep: "irep = evaluateInvariants data results m rels DEFAULT_TOLERANCE"
    and v: "v = evaluateGate rep irep (correction_attempts bid db0)"
  shows "case runReconciliation env bid db0 of
      (Inr m', db) \<Rightarrow> m' = m \<and> failures irep = [] \<and> status_of bid db = Some (end_status (v_routing v))
       \<and> e_ledger db = ledgered env bid results rep (v_routing v) db0
       \<and> e_results db = e_results (stored env bid results rels rep db0)
       \<and> e_exceptions db = e_exceptions (stored env bid results rels rep db0)
       \<and> e_links db = e_links (stored env bid results rels rep db0)
    | (Inl e, db) \<Rightarrow> gate_error bid db0 irep (v_routing v) e db"
    (is "case _ of (Inr m', db) \<Rightarrow> ?Q m' db | (Inl e, db) \<Rightarrow> ?E e db")
proof -
  let ?X1 = "started bid b db0"
  obtain scale where app: "applyCardinalityMatching (ee_cardinality env) (matchAllRecords data (buildIndexes data)) data
      (Some \<lparr>opt_batchId = Some bid, opt_runId = Some (ee_runId env)\<rparr>) (e_scale ?X1) = ((results, rels), scale)"
    using out by (cases "applyCardinalityMatching (ee_cardinality env) (matchAllRecords data (buildIndexes data)) data
      (Some \<lparr>opt_batchId = Some bid, opt_runId = Some (ee_runId env)\<rparr>) (e_scale db0)")
      (simp add: match_outcome_def data started_def Let_def)
  let ?X2 = "?X1\<lparr>e_scale := scale\<rparr>" let ?X3 = "stored env bid results rels rep ?X2"
  have x1: "e_batches ?X1 bid = Some (b\<lparr>bt_status := ''PROCESSING''\<rparr>)" by (simp add: started_def)
  have x3: "e_batches ?X3 bid = Some (b\<lparr>bt_status := ''PROCESSING''\<rparr>)" by (simp add: stored_def started_def)
  have attempts: "correction_attempts bid ?X3 = correction_attempts bid db0"
    by (simp add: stored_def started_def correction_attempts_def)
  have x3_tables: "e_ledger ?X3 = e_ledger db0" "e_results ?X3 = e_results (stored env bid results rels rep db0)"
    "e_exceptions ?X3 = e_exceptions (stored env bid results rels rep db0)" "e_links ?X3 = e_links (stored env bid results rels rep db0)"
    by (simp_all add: stored_def started_def)
  have err: "\<And>e db X. e = AuditAppendFailed \<and> upto_chain X db \<Longrightarrow> e_batches X = e_batches ?X1 \<Longrightarrow> ?E e db"
    by (auto simp: gate_error_def status_of_def x1 dest: upto_chain_fields(1))
  have gate: "triple (upto_chain ?X3) (gate_batch env bid data results rels rep m) ?Q ?E"
    by (rule triple_conseq [OF gate_batch_triple [OF x3 _ irep v [folded attempts]]])
      (auto simp: gate_error_def attempts x3_tables ledgered_def split: EngineError.splits)
  have late: "triple (upto_chain ?X2) (and_then (record_matching env bid results rels rep) (\<lambda>_.
      and_then (store_results env bid results rels rep) (\<lambda>_. gate_batch env bid data results rels rep m))) ?Q ?E"
    unfolding store_results_stored
    by (rule triple_seq [OF triple_conseq [OF upto_appends(2)]],
        simp, simp, erule err, simp, rule triple_and_then [OF upto_modify [OF stored_chain_free] gate])
  have "triple (upto_chain ?X1) (and_then (record_ingestion env bid data) (\<lambda>_.
      and_then (match_batch env bid data) (\<lambda>(results, rels).
        let rep = evaluateBatchDecisions results data rels; m = evaluateResults results data
        in and_then (record_matching env bid results rels rep) (\<lambda>_.
           and_then (store_results env bid results rels rep) (\<lambda>_.
           gate_batch env bid data results rels rep m))))) ?Q ?E"
  proof (rule triple_seq [OF triple_conseq [OF upto_appends(1)]])
    fix u
    show "triple (upto_chain ?X1) (and_then (match_batch env bid data) (\<lambda>(results, rels).
        let rep = evaluateBatchDecisions results data rels; m = evaluateResults results data
        in and_then (record_matching env bid results rels rep) (\<lambda>_.
           and_then (store_results env bid results rels rep) (\<lambda>_.
           gate_batch env bid data results rels rep m)))) ?Q ?E"
      by (rule triple_known [OF match_batch_triple [OF app]]) (use late in \<open>simp add: rep m Let_def\<close>)
  qed (use err in auto)
  from tripleD [OF this upto_chain_refl] show ?thesis
    by (simp add: runReconciliation_def and_then_def [of "begin_run bid"] begin_run_started b data Let_def)
qed

section \<open>Which errors a run can end in\<close>

text \<open>\<open>keeps I S m\<close>: \<open>m\<close> keeps \<open>I\<close>, also when it throws, and only throws errors of \<open>S\<close>.\<close>

definition keeps :: "(EngineDb \<Rightarrow> bool) \<Rightarrow> EngineError set \<Rightarrow> 'a engine \<Rightarrow> bool" where
  "keeps I S m \<longleftrightarrow> triple I m (\<lambda>_. I) (\<lambda>e db. e \<in> S \<and> I db)"

lemma keeps_and_then: "keeps I S m \<Longrightarrow> (\<And>x. keeps I S (f x)) \<Longrightarrow> keeps I S (and_then m f)"
  unfolding keeps_def by (rule triple_seq)

lemma keeps_give: "keeps I S (give x)"
  by (simp add: keeps_def triple_def give_def)

lemma keeps_throw: "e \<in> S \<Longrightarrow> keeps I S (throw e)"
  by (simp add: keeps_def triple_def throw_def)

lemma keeps_modify: "(\<And>db. I db \<Longrightarrow> I (f db)) \<Longrightarrow> keeps I S (modify f)"
  by (simp add: keeps_def triple_def modify_def)

lemma keeps_if: "keeps I S m \<Longrightarrow> keeps I S m' \<Longrightarrow> keeps I S (if b then m else m')"
  by simp

lemma keeps_reading: "(\<And>x. keeps I S (f x)) \<Longrightarrow> keeps I S (\<lambda>db. f (g db) db)"
  by (simp add: keeps_def triple_def)

text \<open>
  A property of the chain alone survives every stage as soon as it survives the appends; besides
  the errors of the appends a run throws \<open>BatchNotFound\<close> or \<open>ControlFailure\<close>.
\<close>

definition of_chain :: "(AuditEvent list \<Rightarrow> bool) \<Rightarrow> EngineDb \<Rightarrow> bool" where
  "of_chain J db = J (e_chain db)"

lemma keeps_update_batch: "BatchNotFound \<in> S \<Longrightarrow> keeps (of_chain J) S (update_batch bid f)"
  by (auto simp: keeps_def triple_def update_batch_def of_chain_def split: option.splits)

lemma keeps_match_batch: "keeps (of_chain J) S (match_batch env bid data)"
  by (auto simp: keeps_def triple_def match_batch_def of_chain_def split: prod.splits)

lemma keeps_modify_chain: "(\<And>db. e_chain (f db) = e_chain db) \<Longrightarrow> keeps (of_chain J) S (modify f)"
  by (rule keeps_modify) (simp add: of_chain_def)

lemma keeps_run:
  assumes append: "\<And>ty pl. keeps (of_chain J) S (append_event env bid ty pl)"
    and S: "BatchNotFound \<in> S" "range ControlFailure \<subseteq> S"
  shows "keeps (of_chain J) S (runReconciliation env bid)"
proof -
  note step = keeps_and_then append keeps_give keeps_update_batch [OF S(1)]
  have log: "keeps (of_chain J) S (write_log bid a r md)" for a r md
    unfolding write_log_def by (rule keeps_modify_chain) simp
  have meta: "keeps (of_chain J) S (store_metadata env bid data results m st)" for data results m st
    unfolding store_metadata_def by (rule keeps_modify_chain) simp
  have fail: "keeps (of_chain J) S (fail_control env bid data results m irep)" for data results m irep
    unfolding fail_control_def using S(2) by (intro step meta log keeps_throw) auto
  have complete: "keeps (of_chain J) S (complete_batch env bid v n rep m)" for v n rep m
    unfolding complete_batch_def riskGateAudit_def by (intro step log)
  have hold: "keeps (of_chain J) S (hold_batch bid v n rep m st)" for v n rep m st
    unfolding hold_batch_def riskGateAudit_def by (intro step log)
  have route: "keeps (of_chain J) S (route_batch env bid data results rep m irep)" for data results rep m irep
  proof -
    define body where "body n = (let v = evaluateGate rep irep n
      in and_then (modify (\<lambda>db. db\<lparr>e_ledger := fst (persistLedger bid
             (buildLedgerEntries results rep (approval_for (v_routing v)) (Some (ee_runId env))) (e_ledger db))\<rparr>)) (\<lambda>_.
         and_then (store_metadata env bid data results m (end_status (v_routing v))) (\<lambda>_.
         if v_routing v = MAKER_CHECKER_REQUIRED then hold_batch bid v n rep m ''AWAITING_APPROVAL''
         else if v_routing v = CONTROLLED_REVIEW then hold_batch bid v n rep m ''UNDER_REVIEW''
         else complete_batch env bid v n rep m)))" for n
    have "keeps (of_chain J) S (body n)" for n
      unfolding body_def Let_def by (intro keeps_and_then keeps_modify_chain meta keeps_if hold complete) simp
    moreover have "route_batch env bid data results rep m irep = (\<lambda>db. body (correction_attempts bid db) db)"
      by (simp add: fun_eq_iff route_batch_def body_def Let_def)
    ultimately show ?thesis by (simp only: keeps_reading)
  qed
  have gate: "keeps (of_chain J) S (gate_batch env bid data results rels rep m)" for data results rels rep m
    unfolding gate_batch_def Let_def by (intro step keeps_if fail route)
  have store: "keeps (of_chain J) S (store_results env bid results rels rep)" for results rels rep
    unfolding store_results_stored by (rule keeps_modify_chain) (simp add: stored_def)
  show ?thesis
    unfolding runReconciliation_def begin_run_def record_ingestion_def record_matching_def Let_def
    by (intro step log keeps_match_batch store gate) (auto intro!: step store gate split: prod.split)
qed

lemma keeps_append_chain:
  assumes "well_behaved (ee_sha env) bid (ee_others env ty)" "AuditAppendFailed \<in> S"
  shows "keeps (of_chain (\<lambda>tbl. intact (ee_sha env) bid tbl \<and> continued_by old (batch_chain bid tbl))) S (append_event env bid ty pl)"
proof -
  let ?inp = "\<lparr>in_batchId = bid, in_eventType = ty, in_actor = ''SYSTEM'', in_entityId = None, in_payload = pl,
      in_occurredAt = ee_occurredAt env ty\<rparr>"
  have "intact (ee_sha env) bid tbl' \<and> continued_by old (batch_chain bid tbl')"
    if "intact (ee_sha env) bid tbl" "continued_by old (batch_chain bid tbl)"
      "appendAuditEvent (ee_sha env) (ee_others env ty) ?inp tbl = (res, tbl')" for tbl res tbl'
    using append_attempts_intact [of "ee_sha env" ?inp "ee_others env ty" tbl MAX_RETRIES res tbl'] that assms(1)
    by (auto simp: appendAuditEvent_def intro: continued_by_trans)
  then show ?thesis
    using assms(2) by (auto simp: keeps_def triple_def append_event_def of_chain_def split: prod.splits option.splits)
qed

text \<open>Without other writers an append succeeds at the first attempt.\<close>

lemma next_event_free: "insert_event (next_event sha inp tbl) tbl \<noteq> None"
proof -
  let ?es = "batch_events (in_batchId inp) tbl"
  have "ae_seq (next_event sha inp tbl) \<notin> ae_seq ` set ?es"
  proof (cases "last_event ?es")
    case None
    with last_event_spec(1) [of ?es] show ?thesis by simp
  next
    case (Some e)
    then have "ae_seq (next_event sha inp tbl) = ae_seq e + 1" by (simp add: next_event_def Let_def)
    with last_event_spec(2) [OF Some] show ?thesis by auto
  qed
  then have "(in_batchId inp, ae_seq (next_event sha inp tbl)) \<notin> (\<lambda>f. (ae_batchId f, ae_seq f)) ` set tbl"
    by (auto simp: batch_events_def)
  then show ?thesis by (simp add: insert_event_def next_event_def Let_def)
qed

lemma keeps_append_quiet:
  assumes "ee_others env ty = (\<lambda>k tbl. tbl)"
  shows "keeps (of_chain (\<lambda>_. True)) S (append_event env bid ty pl)"
proof -
  have "fst (append_attempts (Suc k) sha (\<lambda>k tbl. tbl) inp tbl) \<noteq> None" for k sha inp tbl
    using next_event_free [of sha inp tbl] by (auto simp: Let_def split: option.splits)
  from this [of 4] have "fst (appendAuditEvent sha (\<lambda>k tbl. tbl) inp tbl) \<noteq> None" for sha inp tbl
    by (simp add: appendAuditEvent_def MAX_RETRIES_def eval_nat_numeral)
  then have ok: "appendAuditEvent sha (\<lambda>k tbl. tbl) inp tbl \<noteq> (None, tbl')" for sha inp tbl tbl'
    by (metis fst_conv)
  show ?thesis
    unfolding keeps_def triple_def append_event_def of_chain_def assms
    using ok by (auto split: prod.splits option.splits)
qed

section \<open>Properties\<close>

text \<open>
  C1. How a run of a batch can end. If it returns, no invariant failed; the batch is COMPLETED
  exactly when every decision is LOW, otherwise held for review or approval; the active ledger rows
  are the entries of this run with the approval state that goes with the status; and the stored
  results and relationships of the batch are those of this run while other batches keep theirs. If
  an invariant failed the run throws, the batch is in CONTROL_FAILURE, its ledger is untouched and
  the attempt is counted. A missing batch changes nothing; an audit append that fails leaves the
  batch PROCESSING, or COMPLETED when it was the last append of a straight-through run.
\<close>

theorem run_end_states:
  "let data = fetchBatchData (ee_rows env) bid; rs = fst (match_outcome env bid db); rels = snd (match_outcome env bid db);
       rep = evaluateBatchDecisions rs data rels; levels = d_riskLevel ` set (decisions rep);
       irep = evaluateInvariants data rs (evaluateResults rs data) rels DEFAULT_TOLERANCE
   in case runReconciliation env bid db of
        (Inr m, db') \<Rightarrow> m = evaluateResults rs data \<and> failures irep = []
          \<and> status_of bid db' = Some (if HIGH \<in> levels then ''AWAITING_APPROVAL''
                else if MEDIUM \<in> levels then ''UNDER_REVIEW'' else ''COMPLETED'')
          \<and> map row_entry (active_rows bid (e_ledger db')) = buildLedgerEntries rs rep
                (if HIGH \<in> levels then PENDING_APPROVAL else if MEDIUM \<in> levels then PENDING_REVIEW else APPROVED)
                (Some (ee_runId env))
          \<and> e_results db' = filter (\<lambda>r. rr_batchId r \<noteq> bid) (e_results db) @ map (result_row bid) rs
          \<and> e_links db' = filter (\<lambda>l. cl_batchId l \<noteq> bid) (e_links db) @ map (link_row bid (Some (ee_runId env))) rels
      | (Inl (ControlFailure r), db') \<Rightarrow> r = irep \<and> failures irep \<noteq> []
          \<and> status_of bid db' = Some ''CONTROL_FAILURE'' \<and> e_ledger db' = e_ledger db
          \<and> correction_attempts bid db' = correction_attempts bid db + 1
      | (Inl BatchNotFound, db') \<Rightarrow> e_batches db bid = None \<and> db' = db
      | (Inl AuditAppendFailed, db') \<Rightarrow> status_of bid db' = Some ''PROCESSING''
          \<or> (status_of bid db' = Some ''COMPLETED'' \<and> failures irep = [] \<and> levels \<inter> {MEDIUM, HIGH} = {})"
proof (cases "e_batches db bid")
  case None
  then show ?thesis by (simp add: runReconciliation_def and_then_def begin_run_started Let_def)
next
  case (Some b)
  define data where "data = fetchBatchData (ee_rows env) bid"
  define rs where "rs = fst (match_outcome env bid db)"
  define rels where "rels = snd (match_outcome env bid db)"
  define rep where "rep = evaluateBatchDecisions rs data rels"
  define irep where "irep = evaluateInvariants data rs (evaluateResults rs data) rels DEFAULT_TOLERANCE"
  define v where "v = evaluateGate rep irep (correction_attempts bid db)"
  have out: "match_outcome env bid db = (rs, rels)" by (simp add: rs_def rels_def)
  note run = run_triple [OF Some out data_def rep_def refl irep_def v_def]
  note routing = gate_routing_levels [of rs data rels irep "correction_attempts bid db", unfolded Let_def,
      folded rep_def, folded v_def]
  show ?thesis
    unfolding Let_def data_def [symmetric] rs_def [symmetric] rels_def [symmetric] rep_def [symmetric] irep_def [symmetric]
    using run routing
    by (auto simp: gate_error_def ledgered_def persistLedger_active stored_def end_status_def approval_for_def
        split: prod.splits sum.splits EngineError.splits if_splits)
qed

text \<open>
  C2. A well-formed batch always gets through: when every payment is captured and the other records
  refer to payments, the debits are explained by the chargebacks, the identifiers are unique and the
  run id is new, a run without competing audit writers returns and leaves the batch COMPLETED, under
  review or awaiting approval, never in CONTROL_FAILURE.
\<close>

theorem well_formed_batch_finishes:
  assumes "e_batches db bid \<noteq> None"
    and "wf_batch (fetchBatchData (ee_rows env) bid)" "debits_explained (fetchBatchData (ee_rows env) bid)"
    and "unique_ids (fetchBatchData (ee_rows env) bid)"
    and "fresh_run (ee_sha env) (env_newId (ee_cardinality env)) (ee_runId env) (e_scale db)"
    and "ee_others env = (\<lambda>ty k tbl. tbl)"
  shows "\<exists>m db'. runReconciliation env bid db = (Inr m, db')
    \<and> status_of bid db' \<in> {Some ''COMPLETED'', Some ''UNDER_REVIEW'', Some ''AWAITING_APPROVAL''}"
proof -
  from assms(1) obtain b where b: "e_batches db bid = Some b" by auto
  let ?data = "fetchBatchData (ee_rows env) bid"
  obtain rs rels where out: "match_outcome env bid db = (rs, rels)" by fastforce
  then obtain scale where app: "applyCardinalityMatching (ee_cardinality env) (matchAllRecords ?data (buildIndexes ?data)) ?data
      (Some \<lparr>opt_batchId = Some bid, opt_runId = Some (ee_runId env)\<rparr>) (e_scale db) = ((rs, rels), scale)"
    unfolding match_outcome_def Let_def by (metis prod.collapse)
  have "keeps_all (matchAllRecords ?data (buildIndexes ?data)) rs \<and> exclusive ?data rels"
    by (rule applyCardinalityMatching_ok [OF assms(4) _ app]) (use assms(5) in simp)
  with exclusive_consistent [OF assms(4)] invariants_pass_if [OF assms(2,3)]
  have "passed (evaluateInvariants ?data rs (evaluateResults rs ?data) rels DEFAULT_TOLERANCE)" by blast
  then have ok: "failures (evaluateInvariants ?data rs (evaluateResults rs ?data) rels DEFAULT_TOLERANCE) = []"
    by (simp add: evaluateInvariants_def Let_def)
  have "keeps (of_chain (\<lambda>_. True)) ({BatchNotFound} \<union> range ControlFailure) (runReconciliation env bid)"
    by (rule keeps_run [OF keeps_append_quiet]) (auto simp: assms(6))
  then have "case runReconciliation env bid db of (Inr x, db') \<Rightarrow> True | (Inl e, db') \<Rightarrow> e \<noteq> AuditAppendFailed"
    unfolding keeps_def using tripleD [of "of_chain (\<lambda>_. True)"] by (fastforce simp: of_chain_def split: prod.splits sum.splits)
  with run_triple [OF b out refl refl refl refl refl] ok show ?thesis
    by (auto simp: gate_error_def end_status_def split: prod.splits sum.splits EngineError.splits if_splits)
qed

definition sample_engine_env :: EngineEnv where
  "sample_engine_env = \<lparr>ee_cardinality = sample_env\<lparr>env_sha256Hex := toy_hash\<rparr>,
     ee_printer = \<lparr>toISOString = js_show_int, float_text = (\<lambda>_. ''0.5'')\<rparr>, ee_rows = (\<lambda>_. sample_batch),
     ee_runId = ''run_1'', ee_metadataId = ''meta_1'', ee_now = 0, ee_occurredAt = (\<lambda>_. ''2025-01-01T00:00:00.000Z''),
     ee_others = (\<lambda>_ _ tbl. tbl)\<rparr>"

definition sample_engine_db :: EngineDb where
  "sample_engine_db = \<lparr>e_batches = [''batch_1'' \<mapsto> \<lparr>bt_status = ''PENDING'', bt_completedAt = None, bt_metrics = None\<rparr>],
     e_auditLog = [], e_results = [], e_exceptions = [], e_links = [], e_ledger = [], e_runs = [], e_chain = [],
     e_scale = empty_db\<rparr>"

theorem well_formed_batch_finishes_witness:
  "\<exists>m db'. runReconciliation sample_engine_env ''batch_1'' sample_engine_db = (Inr m, db')
    \<and> status_of ''batch_1'' db' \<in> {Some ''COMPLETED'', Some ''UNDER_REVIEW'', Some ''AWAITING_APPROVAL''}"
proof (rule well_formed_batch_finishes)
  show "e_batches sample_engine_db ''batch_1'' \<noteq> None" by (simp add: sample_engine_db_def)
  show "wf_batch (fetchBatchData (ee_rows sample_engine_env) ''batch_1'')" by code_simp
  show "debits_explained (fetchBatchData (ee_rows sample_engine_env) ''batch_1'')" by code_simp
  show "unique_ids (fetchBatchData (ee_rows sample_engine_env) ''batch_1'')" by code_simp
  show "fresh_run (ee_sha sample_engine_env) (env_newId (ee_cardinality sample_engine_env)) (ee_runId sample_engine_env)
      (e_scale sample_engine_db)"
    by (simp add: fresh_run_def sample_engine_db_def empty_db_def)
  show "ee_others sample_engine_env = (\<lambda>ty k tbl. tbl)" by (simp add: sample_engine_env_def)
qed

text \<open>
  C13. Every run, whatever its outcome, leaves the audit chain of its batch verifiable and only
  extends it, also under other writers that append well-formed events in between.
\<close>

theorem run_keeps_audit_chain:
  assumes "\<forall>ty. well_behaved (ee_sha env) bid (ee_others env ty)" "cv_valid (verifyAuditChain (ee_sha env) bid (e_chain db))"
  shows "cv_valid (verifyAuditChain (ee_sha env) bid (e_chain (snd (runReconciliation env bid db))))
    \<and> continued_by (batch_chain bid (e_chain db)) (batch_chain bid (e_chain (snd (runReconciliation env bid db))))"
proof -
  let ?J = "\<lambda>tbl. intact (ee_sha env) bid tbl \<and> continued_by (batch_chain bid (e_chain db)) (batch_chain bid tbl)"
  have "keeps (of_chain ?J) UNIV (runReconciliation env bid)"
    by (rule keeps_run [OF keeps_append_chain]) (use assms(1) in auto)
  moreover have "of_chain ?J db" using assms(2) by (simp add: of_chain_def intact_verify continued_by_refl)
  ultimately have "of_chain ?J (snd (runReconciliation env bid db))"
    unfolding keeps_def by (auto dest: tripleD split: prod.splits sum.splits)
  then show ?thesis by (simp add: of_chain_def intact_verify)
qed

theorem run_keeps_audit_chain_witness:
  "cv_valid (verifyAuditChain toy_hash ''batch_1'' (e_chain (snd (runReconciliation sample_engine_env ''batch_1'' sample_engine_db))))"
proof -
  have "\<forall>ty. well_behaved (ee_sha sample_engine_env) ''batch_1'' (ee_others sample_engine_env ty)"
    by (simp add: well_behaved_def sample_engine_env_def continued_by_refl)
  moreover have "cv_valid (verifyAuditChain (ee_sha sample_engine_env) ''batch_1'' (e_chain sample_engine_db))" by code_simp
  ultimately have "cv_valid (verifyAuditChain (ee_sha sample_engine_env) ''batch_1''
      (e_chain (snd (runReconciliation sample_engine_env ''batch_1'' sample_engine_db))))"
    by (rule run_keeps_audit_chain [THEN conjunct1])
  then show ?thesis by (simp add: sample_engine_env_def)
qed

end
