(* ===== verification/Control_Error.thy ===== *)
theory Control_Error
  imports Invariants
begin

text \<open>
  The response a caller gets for a failed invariant gate
  (\<open>src/lib/reconciliation/control-error.ts\<close>): which record types are missing, read off the counts
  of the report, or off its failure codes when the counts do not tell.
\<close>

datatype RecordType = Payments | Settlements | BankCredits | BankDebits

record IncompleteInputErrorResponse =
  ie_code :: string
  ie_message :: string
  ie_missing :: "RecordType list"

fun record_type_text :: "RecordType \<Rightarrow> string" where
  "record_type_text Payments = ''payments''"
| "record_type_text Settlements = ''settlements''"
| "record_type_text BankCredits = ''bankCredits''"
| "record_type_text BankDebits = ''bankDebits''"

text \<open>A property of the counts object, where a later entry has replaced an earlier one.\<close>

definition field :: "(string \<times> int) list \<Rightarrow> string \<Rightarrow> int option" where
  "field xs k = map_of (rev xs) k"

definition default_zero :: "int option \<Rightarrow> int" where
  "default_zero x = (case x of None \<Rightarrow> 0 | Some n \<Rightarrow> n)"

definition buildIncompleteRecordsError :: "RecordType list \<Rightarrow> IncompleteInputErrorResponse" where
  "buildIncompleteRecordsError missing =
     \<lparr>ie_code = ''INCOMPLETE_INPUT'',
      ie_message = ''The uploaded file does not contain all required record types. Please include payments, settlements, and bank credits/debits.''
        @ (if length missing > 0 then '' Missing: '' @ js_join '', '' (map record_type_text missing) @ ''.'' else []),
      ie_missing = missing\<rparr>"

definition missing_by_counts :: "(string \<times> int) list \<Rightarrow> (string \<times> int) list \<Rightarrow> RecordType list" where
  "missing_by_counts counts amounts =
     (let payments = default_zero (case field counts ''capturedPayments'' of None \<Rightarrow> field counts ''payments'' | Some n \<Rightarrow> Some n);
          settlements = default_zero (field counts ''settlements'');
          credits = default_zero (field counts ''bankCredits''); debits = default_zero (field counts ''bankDebits'');
          chargebacks = default_zero (field counts ''chargebacks'')
      in (if payments = 0 then [Payments] else [])
         @ (if settlements = 0 \<and> field counts ''settlements'' \<noteq> None then [Settlements] else [])
         @ (if credits = 0 then [BankCredits] else [])
         @ (if debits = 0 \<and> (chargebacks > 0 \<or> default_zero (field amounts ''unexplainedDebit'') > 0) then [BankDebits] else []))"

definition missing_by_codes :: "(string \<times> int) list \<Rightarrow> InvariantReasonCode list \<Rightarrow> RecordType list" where
  "missing_by_codes counts codes =
     (let credits = default_zero (field counts ''bankCredits''); debits = default_zero (field counts ''bankDebits'')
      in (if INVARIANT_INPUT_COMPLETE \<in> set codes then [Payments] else [])
         @ (if INVARIANT_DEBIT_CREDIT_BALANCE \<in> set codes
            then (if credits = 0 then [BankCredits] else []) @ (if debits = 0 then [BankDebits] else []) else [])
         @ (if INVARIANT_PARTITION_COMPLETE \<in> set codes then [Settlements] else []))"

definition buildControlFailureResponse :: "InvariantReport option \<Rightarrow> IncompleteInputErrorResponse" where
  "buildControlFailureResponse report =
     (let counts = (case report of None \<Rightarrow> [] | Some r \<Rightarrow> checkedCounts r);
          amounts = (case report of None \<Rightarrow> [] | Some r \<Rightarrow> checkedAmounts r);
          codes = (case report of None \<Rightarrow> [] | Some r \<Rightarrow> map f_code (failures r));
          first = missing_by_counts counts amounts;
          second = (if length first = 0 then missing_by_codes counts codes else first);
          missing = (if length second = 0 then [BankCredits, BankDebits] else second)
      in buildIncompleteRecordsError missing)"

text \<open>The response always names something to supply, and no record type twice.\<close>

lemma missing_distinct: "distinct (missing_by_counts counts amounts)" "distinct (missing_by_codes counts codes)"
  by (auto simp: missing_by_counts_def missing_by_codes_def Let_def)

lemma response_names_missing:
  "ie_missing (buildControlFailureResponse report) \<noteq> [] \<and> distinct (ie_missing (buildControlFailureResponse report))"
  using missing_distinct by (simp add: buildControlFailureResponse_def buildIncompleteRecordsError_def Let_def)

end
