(* ===== verification/Currency.thy ===== *)
theory Currency
  imports Prelude
begin

text \<open>
  Currency conversion in exact integers (\<open>src/lib/currency/fx-rates.ts\<close>): a fixed table of rates
  to the paisa, and conversions that round down. Amounts are integers of the minor unit, so the
  source's rounding of its argument is the identity. The display fields of a currency (name, symbol,
  source of the rate) and the locale-dependent formatter are left out; the readable rate is kept in
  hundredths.
\<close>

record FxCurrencyDef =
  fx_code :: string
  fx_decimals :: nat
  fx_rateNumerator :: int
  fx_rateDenominator :: int
  fx_rateToINR :: int
  fx_effectiveDate :: string

definition BASE_CURRENCY :: string where "BASE_CURRENCY = ''INR''"

definition fx_def :: "string \<Rightarrow> nat \<Rightarrow> int \<Rightarrow> int \<Rightarrow> int \<Rightarrow> string \<times> FxCurrencyDef" where
  "fx_def code decimals num den rate = (code, \<lparr>fx_code = code, fx_decimals = decimals, fx_rateNumerator = num,
     fx_rateDenominator = den, fx_rateToINR = rate, fx_effectiveDate = ''2026-08-25''\<rparr>)"

definition fx_table :: "(string \<times> FxCurrencyDef) list" where
  "fx_table =
     [fx_def ''INR'' 2 1 1 100, fx_def ''USD'' 2 8325 100 8325, fx_def ''EUR'' 2 9010 100 9010,
      fx_def ''GBP'' 2 10550 100 10550, fx_def ''SGD'' 2 6180 100 6180, fx_def ''AED'' 2 2265 100 2265,
      fx_def ''JPY'' 0 55 1 55, fx_def ''CAD'' 2 6120 100 6120, fx_def ''AUD'' 2 5450 100 5450]"

definition STATIC_FX_RATES :: "string \<rightharpoonup> FxCurrencyDef" where
  "STATIC_FX_RATES = map_of fx_table"

definition SUPPORTED_CURRENCIES :: "string list" where
  "SUPPORTED_CURRENCIES = map fst fx_table"

text \<open>\<open>currency?.toUpperCase()?.trim() || BASE_CURRENCY\<close>\<close>

definition norm_currency :: "string option \<Rightarrow> string" where
  "norm_currency c = (case c of None \<Rightarrow> BASE_CURRENCY
     | Some s \<Rightarrow> let t = js_trim (js_toUpperCase s) in if t = [] then BASE_CURRENCY else t)"

record ConversionResult =
  cv_originalAmountMinor :: int
  cv_fromCurrency :: string
  cv_toCurrency :: string
  cv_convertedMinor :: int
  cv_fxRateApplied :: "int \<times> int"
  cv_rateNumerator :: int
  cv_rateDenominator :: int
  cv_effectiveDate :: string

datatype CurrencyError = UnsupportedSource "string option" | UnsupportedTarget "string option"

text \<open>\<open>BigInt\<close> division of a non-negative numerator rounds down.\<close>

definition to_paise :: "FxCurrencyDef \<Rightarrow> int \<Rightarrow> int" where
  "to_paise f minor = (max 0 minor * fx_rateNumerator f) div fx_rateDenominator f"

definition from_paise :: "FxCurrencyDef \<Rightarrow> int \<Rightarrow> int" where
  "from_paise t p = (max 0 p * fx_rateDenominator t) div fx_rateNumerator t"

definition convertToBaseMinor ::
  "int \<Rightarrow> string option \<Rightarrow> string option \<Rightarrow> (string \<rightharpoonup> FxCurrencyDef) \<Rightarrow> CurrencyError + ConversionResult" where
  "convertToBaseMinor amountMinor fromCurrency toCurrency rates =
     (let f = norm_currency fromCurrency; t = norm_currency toCurrency
      in if f = t then
           (let cur = (case rates f of Some c \<Rightarrow> c | None \<Rightarrow> the (STATIC_FX_RATES ''INR''))
            in Inr \<lparr>cv_originalAmountMinor = amountMinor, cv_fromCurrency = f, cv_toCurrency = t,
                 cv_convertedMinor = amountMinor, cv_fxRateApplied = (1, 1), cv_rateNumerator = 1, cv_rateDenominator = 1,
                 cv_effectiveDate = fx_effectiveDate cur\<rparr>)
         else case rates f of
             None \<Rightarrow> Inl (UnsupportedSource fromCurrency)
           | Some fd \<Rightarrow>
               (case rates t of
                  None \<Rightarrow> Inl (UnsupportedTarget toCurrency)
                | Some td \<Rightarrow>
                    (let p = to_paise fd amountMinor
                     in Inr \<lparr>cv_originalAmountMinor = amountMinor, cv_fromCurrency = f, cv_toCurrency = t,
                          cv_convertedMinor = (if t \<noteq> BASE_CURRENCY then from_paise td p else p),
                          cv_fxRateApplied = (fx_rateToINR fd, fx_rateToINR td),
                          cv_rateNumerator = fx_rateNumerator fd, cv_rateDenominator = fx_rateDenominator fd,
                          cv_effectiveDate = fx_effectiveDate fd\<rparr>)))"

definition convertFromBaseMinor ::
  "int \<Rightarrow> string option \<Rightarrow> (string \<rightharpoonup> FxCurrencyDef) \<Rightarrow> CurrencyError + int" where
  "convertFromBaseMinor amountPaise targetCurrency rates =
     (let t = norm_currency targetCurrency
      in if t = BASE_CURRENCY then Inr amountPaise
         else case rates t of
             None \<Rightarrow> Inl (UnsupportedTarget targetCurrency)
           | Some td \<Rightarrow> Inr (from_paise td amountPaise))"

section \<open>Facts\<close>

lemma table_rates:
  assumes "STATIC_FX_RATES c = Some f"
  shows "0 < fx_rateDenominator f" "fx_rateDenominator f \<le> fx_rateNumerator f"
    "fx_rateNumerator f \<le> 106 * fx_rateDenominator f"
proof -
  have "(c, f) \<in> set fx_table" using assms by (simp add: STATIC_FX_RATES_def map_of_SomeD)
  then have "f \<in> snd ` set fx_table" by force
  then show "0 < fx_rateDenominator f" "fx_rateDenominator f \<le> fx_rateNumerator f"
    "fx_rateNumerator f \<le> 106 * fx_rateDenominator f"
    by (auto simp: fx_table_def fx_def_def)
qed

text \<open>Two roundings down lose less than one unit on the way there and back.\<close>

lemma div_roundtrip:
  assumes "0 < d" "d \<le> n"
  shows "(a * n div d) * d div n \<le> (a :: int)" "a - 1 \<le> (a * n div d) * d div n"
proof -
  have n: "0 < n" using assms by simp
  have split: "a * n = (a * n div d) * d + a * n mod d" by simp
  have rest: "0 \<le> a * n mod d" "a * n mod d < d" using assms(1) by simp_all
  from split rest have "(a * n div d) * d \<le> a * n" by linarith
  then have "(a * n div d) * d div n \<le> a * n div n" using n by (intro zdiv_mono1)
  with n show "(a * n div d) * d div n \<le> a" by simp
  from split rest assms(2) have "a * n - n \<le> (a * n div d) * d" by linarith
  then have "(a - 1) * n \<le> (a * n div d) * d" by (simp add: left_diff_distrib)
  then have "(a - 1) * n div n \<le> (a * n div d) * d div n" using n by (intro zdiv_mono1)
  with n show "a - 1 \<le> (a * n div d) * d div n" by simp
qed

lemma div_mult_bound: "0 < (d :: int) \<Longrightarrow> (x div d) * d \<le> x"
  by (metis minus_mod_eq_div_mult diff_ge_0_iff_ge minus_div_mult_eq_mod pos_mod_sign)

lemma norm_supported:
  assumes "STATIC_FX_RATES c = Some f"
  shows "norm_currency (Some c) = c"
proof -
  have "(c, f) \<in> set fx_table" using assms by (simp add: STATIC_FX_RATES_def map_of_SomeD)
  then have "c \<in> set SUPPORTED_CURRENCIES" by (force simp: SUPPORTED_CURRENCIES_def)
  moreover have "list_all (\<lambda>c. norm_currency (Some c) = c) SUPPORTED_CURRENCIES" by code_simp
  ultimately show ?thesis by (simp add: list_all_iff)
qed

section \<open>Properties\<close>

text \<open>
  An amount of a supported currency converted to paise and back loses at most one minor unit
  and never gains: rounding down cannot create money.
\<close>

theorem currency_roundtrip:
  assumes "STATIC_FX_RATES c = Some f" "0 \<le> a"
  shows "\<exists>r back. convertToBaseMinor a (Some c) (Some BASE_CURRENCY) STATIC_FX_RATES = Inr r
    \<and> convertFromBaseMinor (cv_convertedMinor r) (Some c) STATIC_FX_RATES = Inr back
    \<and> a - 1 \<le> back \<and> back \<le> a"
proof -
  note n = norm_supported [OF assms(1)] and rates = table_rates [OF assms(1)]
  have base: "norm_currency (Some BASE_CURRENCY) = BASE_CURRENCY" by code_simp
  have inr: "\<exists>g. STATIC_FX_RATES BASE_CURRENCY = Some g"
    by (simp add: STATIC_FX_RATES_def fx_table_def fx_def_def BASE_CURRENCY_def)
  have pos: "0 \<le> a * fx_rateNumerator f div fx_rateDenominator f"
    using assms(2) rates by (intro pos_imp_zdiv_nonneg_iff [THEN iffD2]) (auto intro: mult_nonneg_nonneg)
  from div_roundtrip [OF rates(1,2), of a] show ?thesis
    using inr assms pos
    by (cases "c = BASE_CURRENCY")
      (auto simp: convertToBaseMinor_def convertFromBaseMinor_def Let_def n base to_paise_def from_paise_def)
qed

theorem currency_roundtrip_witness:
  "\<exists>r back. convertToBaseMinor 333 (Some ''USD'') (Some BASE_CURRENCY) STATIC_FX_RATES = Inr r
    \<and> cv_convertedMinor r = 27722 \<and> convertFromBaseMinor (cv_convertedMinor r) (Some ''USD'') STATIC_FX_RATES = Inr back
    \<and> 332 \<le> back \<and> back \<le> 333"
proof -
  have usd: "STATIC_FX_RATES ''USD'' = Some (snd (fx_def ''USD'' 2 8325 100 8325))"
    by (simp add: STATIC_FX_RATES_def fx_table_def fx_def_def)
  have "map_sum id cv_convertedMinor (convertToBaseMinor 333 (Some ''USD'') (Some BASE_CURRENCY) STATIC_FX_RATES) = Inr 27722"
    by code_simp
  with currency_roundtrip [OF usd, of 333] show ?thesis by auto
qed

text \<open>
  A conversion between any two supported currencies never over-credits: the value of the result
  at the table's rates is at most the value of the source amount. A supported pair never fails.
\<close>

theorem conversion_never_overcredits:
  assumes "STATIC_FX_RATES c = Some f" "STATIC_FX_RATES d = Some g" "0 \<le> a"
  shows "\<exists>r. convertToBaseMinor a (Some c) (Some d) STATIC_FX_RATES = Inr r \<and> 0 \<le> cv_convertedMinor r
    \<and> cv_convertedMinor r * fx_rateNumerator g * fx_rateDenominator f \<le> a * fx_rateNumerator f * fx_rateDenominator g"
proof -
  note n = norm_supported [OF assms(1)] norm_supported [OF assms(2)]
  note rf = table_rates [OF assms(1)] and rg = table_rates [OF assms(2)]
  let ?p = "to_paise f a"
  have p: "0 \<le> ?p" "?p * fx_rateDenominator f \<le> a * fx_rateNumerator f"
    using assms(3) rf div_mult_bound [OF rf(1), of "a * fx_rateNumerator f"]
    by (auto simp: to_paise_def pos_imp_zdiv_nonneg_iff)
  have q: "0 \<le> from_paise g ?p" "from_paise g ?p * fx_rateNumerator g \<le> ?p * fx_rateDenominator g"
    using p rg div_mult_bound [of "fx_rateNumerator g" "?p * fx_rateDenominator g"]
    by (auto simp: from_paise_def pos_imp_zdiv_nonneg_iff)
  have "from_paise g ?p * fx_rateNumerator g * fx_rateDenominator f \<le> ?p * fx_rateDenominator g * fx_rateDenominator f"
    by (rule mult_right_mono [OF q(2)]) (use rf in simp)
  also have "\<dots> = ?p * fx_rateDenominator f * fx_rateDenominator g" by (simp add: mult_ac)
  also have "\<dots> \<le> a * fx_rateNumerator f * fx_rateDenominator g"
    by (rule mult_right_mono [OF p(2)]) (use rg in simp)
  finally have q': "from_paise g ?p * fx_rateNumerator g * fx_rateDenominator f \<le> a * fx_rateNumerator f * fx_rateDenominator g" .
  have base: "g = snd (fx_def ''INR'' 2 1 1 100)" if "d = BASE_CURRENCY"
    using assms(2) that by (simp add: STATIC_FX_RATES_def fx_table_def fx_def_def BASE_CURRENCY_def)
  show ?thesis
    using assms p q(1) q' base
    by (auto simp: convertToBaseMinor_def Let_def n fx_def_def mult.commute mult.left_commute)
qed

theorem conversion_never_overcredits_witness:
  "\<exists>r. convertToBaseMinor 1000 (Some ''JPY'') (Some ''USD'') STATIC_FX_RATES = Inr r \<and> cv_convertedMinor r = 660
    \<and> cv_convertedMinor r * 8325 * 1 \<le> 1000 * 55 * 100"
proof -
  have rates: "STATIC_FX_RATES ''JPY'' = Some (snd (fx_def ''JPY'' 0 55 1 55))"
    "STATIC_FX_RATES ''USD'' = Some (snd (fx_def ''USD'' 2 8325 100 8325))"
    by (simp_all add: STATIC_FX_RATES_def fx_table_def fx_def_def)
  have "map_sum id cv_convertedMinor (convertToBaseMinor 1000 (Some ''JPY'') (Some ''USD'') STATIC_FX_RATES) = Inr 660"
    by code_simp
  with conversion_never_overcredits [OF rates, of 1000] show ?thesis by (auto simp: fx_def_def)
qed

end
