(* ===== verification/Solver.thy ===== *)
theory Solver
  imports Audit_Chain Currency
begin

text \<open>
  Combinatorial invoice matching (\<open>src/lib/solver/\<close>): the request and response schemas
  (\<open>types.ts\<close>), the branch-and-bound engine (\<open>cpsat-engine.ts\<close>), the independent verifier
  (\<open>verifier.ts\<close>), the replay check (\<open>replay.ts\<close>) and the consumption manager
  (\<open>consumption-manager.ts\<close>). The collation of invoice ids, SHA-256 and the clock are parameters:
  \<open>expired k\<close> says whether the deadline has passed at the \<open>k\<close>-th look at the clock. The measured
  duration is left out, as are the dates and the customer reference of an invoice, which nothing
  reads; a reason is the template with the values it interpolates.
\<close>

section \<open>Schemas\<close>

datatype SolverMatchResultType =
    EXACT_MATCH | SPLIT_MATCH | SPLIT_MATCH_WITH_TOLERANCE | PARTIAL_PAYMENT
  | NO_FEASIBLE_MATCH | SOLVER_TIMEOUT | INVALID_SOLVER_RESULT | BLOCKED

datatype SolverStatus = OPTIMAL | FEASIBLE | INFEASIBLE | TIMEOUT | MODEL_INVALID

datatype InvoiceStatus = ELIGIBLE | CONSUMED | LOCKED | DISPUTED

definition MAX_AMOUNT_MINOR :: int where "MAX_AMOUNT_MINOR = 100000000000000"

record CandidateInvoice =
  inv_invoiceId :: ident
  inv_tenantId :: ident
  inv_amountMinor :: int
  inv_currency :: string
  inv_status :: InvoiceStatus

record InvoiceMatchRequest =
  rq_paymentId :: ident
  rq_tenantId :: ident
  rq_paymentAmountMinor :: int
  rq_currency :: string
  rq_toleranceMinor :: int
  rq_allowPartialPayment :: bool
  rq_maxInvoicesPerSplit :: nat
  rq_timeoutMs :: int
  rq_invoices :: "CandidateInvoice list"
  rq_policyVersion :: string

definition text_ok :: "string \<Rightarrow> bool" where
  "text_ok s = (1 \<le> length s \<and> length s \<le> 100)"

definition currency_ok :: "string \<Rightarrow> bool" where
  "currency_ok c = (c \<noteq> [] \<and> js_trim (js_toUpperCase c) \<in> set SUPPORTED_CURRENCIES)"

definition invoice_ok :: "CandidateInvoice \<Rightarrow> bool" where
  "invoice_ok i = (text_ok (inv_invoiceId i) \<and> text_ok (inv_tenantId i) \<and> 0 < inv_amountMinor i
     \<and> inv_amountMinor i \<le> MAX_AMOUNT_MINOR \<and> currency_ok (inv_currency i))"

definition request_ok :: "InvoiceMatchRequest \<Rightarrow> bool" where
  "request_ok r = (text_ok (rq_paymentId r) \<and> text_ok (rq_tenantId r)
     \<and> 0 < rq_paymentAmountMinor r \<and> rq_paymentAmountMinor r \<le> MAX_AMOUNT_MINOR \<and> currency_ok (rq_currency r)
     \<and> 0 \<le> rq_toleranceMinor r \<and> rq_toleranceMinor r \<le> MAX_AMOUNT_MINOR
     \<and> 1 \<le> rq_maxInvoicesPerSplit r \<and> rq_maxInvoicesPerSplit r \<le> 20
     \<and> 100 \<le> rq_timeoutMs r \<and> rq_timeoutMs r \<le> 10000
     \<and> 1 \<le> length (rq_invoices r) \<and> length (rq_invoices r) \<le> 500 \<and> list_all invoice_ok (rq_invoices r)
     \<and> rq_policyVersion r \<noteq> [])"

datatype SolveReason =
    ExactOneToOne ident
  | BestSubset bool nat int nat nat
  | AppliedPartially int ident int int
  | NoFeasibleSubset int nat nat
  | ExceededTimeout int
  | DuplicateInvoice ident
  | TenantMismatch ident ident ident
  | MixedCurrency ident string string

record InvoiceMatchResponse =
  rp_solveId :: string
  rp_tenantId :: ident
  rp_paymentId :: ident
  rp_status :: SolverMatchResultType
  rp_solverStatus :: SolverStatus
  rp_selectedInvoiceIds :: "ident list"
  rp_selectedTotalMinor :: int
  rp_paymentAmountMinor :: int
  rp_differenceMinor :: int
  rp_toleranceMinor :: int
  rp_currency :: string
  rp_objectiveValue :: int
  rp_candidatesConsideredCount :: nat
  rp_isVerifiedDeterministically :: bool
  rp_verificationReason :: SolveReason
  rp_proofSignature :: string
  rp_policyVersion :: string
  rp_createdAt :: string

definition response_ok :: "InvoiceMatchResponse \<Rightarrow> bool" where
  "response_ok p = (rp_solveId p \<noteq> [] \<and> rp_tenantId p \<noteq> [] \<and> rp_paymentId p \<noteq> [] \<and> 0 \<le> rp_selectedTotalMinor p
     \<and> 0 \<le> rp_paymentAmountMinor p \<and> 0 \<le> rp_differenceMinor p \<and> 0 \<le> rp_toleranceMinor p \<and> rp_currency p \<noteq> []
     \<and> 0 \<le> rp_objectiveValue p \<and> length (rp_proofSignature p) = 64 \<and> rp_policyVersion p \<noteq> [])"

record SolverPolicyConfig =
  sp_version :: string
  sp_defaultToleranceMinor :: int
  sp_maxCandidatesCap :: nat
  sp_maxInvoicesPerSplit :: nat
  sp_defaultTimeoutMs :: int
  sp_allowPartialByDefault :: bool

definition DEFAULT_SOLVER_POLICY :: SolverPolicyConfig where
  "DEFAULT_SOLVER_POLICY = \<lparr>sp_version = ''invoice-match-v1'', sp_defaultToleranceMinor = 0, sp_maxCandidatesCap = 50,
     sp_maxInvoicesPerSplit = 8, sp_defaultTimeoutMs = 2000, sp_allowPartialByDefault = False\<rparr>"

datatype SolverError = RequestSchemaError | ResponseSchemaError | SolverTenantIsolationError ident ident
  | SolverReplayDivergenceError

section \<open>The branch-and-bound search\<close>

record BestSolution =
  bs_selectedIds :: "ident list"
  bs_totalMinor :: int
  bs_differenceMinor :: int
  bs_objectiveValue :: int

record SearchState =
  st_bestSol :: "BestSolution option"
  st_timedOut :: bool
  st_looks :: nat

definition objective :: "int \<Rightarrow> int \<Rightarrow> nat \<Rightarrow> int" where
  "objective payment tot n = \<bar>tot - payment\<bar> * 1000 + int n"

definition solution :: "int \<Rightarrow> int \<Rightarrow> CandidateInvoice list \<Rightarrow> BestSolution" where
  "solution payment tot selected = \<lparr>bs_selectedIds = map inv_invoiceId selected, bs_totalMinor = tot,
     bs_differenceMinor = \<bar>tot - payment\<bar>, bs_objectiveValue = objective payment tot (length selected)\<rparr>"

definition consider_selection :: "int \<Rightarrow> int \<Rightarrow> int \<Rightarrow> CandidateInvoice list \<Rightarrow> BestSolution option \<Rightarrow> BestSolution option" where
  "consider_selection payment tol tot selected best =
     (if length selected > 0 \<and> \<bar>tot - payment\<bar> \<le> tol
         \<and> (case best of None \<Rightarrow> True | Some b \<Rightarrow> objective payment tot (length selected) < bs_objectiveValue b)
      then Some (solution payment tot selected) else best)"

function (sequential) search ::
  "(nat \<Rightarrow> bool) \<Rightarrow> int \<Rightarrow> int \<Rightarrow> nat \<Rightarrow> CandidateInvoice list \<Rightarrow> int \<Rightarrow> CandidateInvoice list \<Rightarrow> SearchState \<Rightarrow> SearchState"
and search_loop ::
  "(nat \<Rightarrow> bool) \<Rightarrow> int \<Rightarrow> int \<Rightarrow> nat \<Rightarrow> CandidateInvoice list \<Rightarrow> int \<Rightarrow> CandidateInvoice list \<Rightarrow> SearchState \<Rightarrow> SearchState"
where
  "search expired payment tol maxK rest tot selected st =
     (let st0 = st\<lparr>st_looks := st_looks st + 1\<rparr>
      in if expired (st_looks st) then st0\<lparr>st_timedOut := True\<rparr>
         else let st1 = st0\<lparr>st_bestSol := consider_selection payment tol tot selected (st_bestSol st)\<rparr>
              in if length selected \<ge> maxK \<or> tot > payment + tol then st1
                 else search_loop expired payment tol maxK rest tot selected st1)"
| "search_loop expired payment tol maxK [] tot selected st = st"
| "search_loop expired payment tol maxK (i # rest) tot selected st =
     (if st_timedOut st then st
      else if tot + inv_amountMinor i > payment + tol then st
      else search_loop expired payment tol maxK rest tot selected
             (search expired payment tol maxK rest (tot + inv_amountMinor i) (selected @ [i]) st))"
  by pat_completeness auto
termination
  by (relation "measure (\<lambda>arg. case arg of
        Inl (_, _, _, _, rest, _) \<Rightarrow> 2 * length rest + 1
      | Inr (_, _, _, _, rest, _) \<Rightarrow> 2 * length rest)") auto

declare search.simps [simp del]

section \<open>The engine\<close>

fun status_text :: "SolverMatchResultType \<Rightarrow> string" where
  "status_text EXACT_MATCH = ''EXACT_MATCH''"
| "status_text SPLIT_MATCH = ''SPLIT_MATCH''"
| "status_text SPLIT_MATCH_WITH_TOLERANCE = ''SPLIT_MATCH_WITH_TOLERANCE''"
| "status_text PARTIAL_PAYMENT = ''PARTIAL_PAYMENT''"
| "status_text NO_FEASIBLE_MATCH = ''NO_FEASIBLE_MATCH''"
| "status_text SOLVER_TIMEOUT = ''SOLVER_TIMEOUT''"
| "status_text INVALID_SOLVER_RESULT = ''INVALID_SOLVER_RESULT''"
| "status_text BLOCKED = ''BLOCKED''"

text \<open>What a call of \<open>solve\<close> takes from outside.\<close>

record SolverEnv =
  se_localeCompare :: "string \<Rightarrow> string \<Rightarrow> int"
  se_sha256Hex :: "string \<Rightarrow> string"
  se_expired :: "nat \<Rightarrow> bool"
  se_createdAt :: string

definition parse_response :: "InvoiceMatchResponse \<Rightarrow> SolverError + InvoiceMatchResponse" where
  "parse_response p = (if response_ok p then Inr p else Inl ResponseSchemaError)"

definition solve_id :: "SolverEnv \<Rightarrow> InvoiceMatchRequest \<Rightarrow> SolverPolicyConfig \<Rightarrow> string" where
  "solve_id env r policy = ''solv_'' @ take 12 (se_sha256Hex env (rq_tenantId r @ '':'' @ rq_paymentId r @ '':''
     @ js_show_int (rq_paymentAmountMinor r) @ '':'' @ sp_version policy))"

definition buildSuccessResponse ::
  "SolverEnv \<Rightarrow> InvoiceMatchRequest \<Rightarrow> SolverPolicyConfig \<Rightarrow> SolverMatchResultType \<Rightarrow> SolverStatus \<Rightarrow> ident list \<Rightarrow> int \<Rightarrow> int
     \<Rightarrow> int \<Rightarrow> nat \<Rightarrow> SolveReason \<Rightarrow> SolverError + InvoiceMatchResponse" where
  "buildSuccessResponse env r policy stat sstat ids tot diff obj cnt reason = parse_response
     \<lparr>rp_solveId = solve_id env r policy, rp_tenantId = rq_tenantId r, rp_paymentId = rq_paymentId r, rp_status = stat,
      rp_solverStatus = sstat, rp_selectedInvoiceIds = ids, rp_selectedTotalMinor = tot,
      rp_paymentAmountMinor = rq_paymentAmountMinor r, rp_differenceMinor = diff, rp_toleranceMinor = rq_toleranceMinor r,
      rp_currency = rq_currency r, rp_objectiveValue = obj, rp_candidatesConsideredCount = cnt,
      rp_isVerifiedDeterministically = True, rp_verificationReason = reason,
      rp_proofSignature = se_sha256Hex env (json_stringify (JObj [(''solveId'', JStr (solve_id env r policy)),
         (''tenantId'', JStr (rq_tenantId r)), (''paymentId'', JStr (rq_paymentId r)), (''status'', JStr (status_text stat)),
         (''selectedInvoiceIds'', JArr (map JStr ids)), (''selectedTotalMinor'', JInt tot),
         (''paymentAmountMinor'', JInt (rq_paymentAmountMinor r)), (''differenceMinor'', JInt diff)])),
      rp_policyVersion = sp_version policy, rp_createdAt = se_createdAt env\<rparr>"

text \<open>The three responses without a selection differ in status, count, reason and what is signed.\<close>

definition buildEmptyResponse ::
  "SolverEnv \<Rightarrow> InvoiceMatchRequest \<Rightarrow> SolverPolicyConfig \<Rightarrow> SolverMatchResultType \<Rightarrow> SolverStatus \<Rightarrow> nat \<Rightarrow> bool
     \<Rightarrow> SolveReason \<Rightarrow> string \<Rightarrow> SolverError + InvoiceMatchResponse" where
  "buildEmptyResponse env r policy stat sstat cnt verified reason signed = parse_response
     \<lparr>rp_solveId = solve_id env r policy, rp_tenantId = rq_tenantId r, rp_paymentId = rq_paymentId r, rp_status = stat,
      rp_solverStatus = sstat, rp_selectedInvoiceIds = [], rp_selectedTotalMinor = 0,
      rp_paymentAmountMinor = rq_paymentAmountMinor r, rp_differenceMinor = rq_paymentAmountMinor r,
      rp_toleranceMinor = rq_toleranceMinor r, rp_currency = rq_currency r, rp_objectiveValue = 0,
      rp_candidatesConsideredCount = cnt, rp_isVerifiedDeterministically = verified, rp_verificationReason = reason,
      rp_proofSignature = se_sha256Hex env signed, rp_policyVersion = sp_version policy, rp_createdAt = se_createdAt env\<rparr>"

definition buildNoMatchResponse ::
  "SolverEnv \<Rightarrow> InvoiceMatchRequest \<Rightarrow> SolverPolicyConfig \<Rightarrow> nat \<Rightarrow> nat \<Rightarrow> SolverError + InvoiceMatchResponse" where
  "buildNoMatchResponse env r policy cnt dropped =
     buildEmptyResponse env r policy NO_FEASIBLE_MATCH INFEASIBLE cnt True
       (NoFeasibleSubset (rq_toleranceMinor r) (sp_maxCandidatesCap policy) dropped)
       (''NO_MATCH:'' @ solve_id env r policy @ '':'' @ rq_paymentId r)"

definition buildTimeoutResponse ::
  "SolverEnv \<Rightarrow> InvoiceMatchRequest \<Rightarrow> SolverPolicyConfig \<Rightarrow> nat \<Rightarrow> SolverError + InvoiceMatchResponse" where
  "buildTimeoutResponse env r policy cnt =
     buildEmptyResponse env r policy SOLVER_TIMEOUT TIMEOUT cnt False (ExceededTimeout (rq_timeoutMs r))
       (''TIMEOUT:'' @ solve_id env r policy @ '':'' @ rq_paymentId r)"

text \<open>The text of a rejection, which its signature covers.\<close>

definition quoted :: "string \<Rightarrow> string" where
  "quoted s = [CHR 0x27] @ s @ [CHR 0x27]"

definition rejection_text :: "SolveReason \<Rightarrow> string" where
  "rejection_text reason = (case reason of
     DuplicateInvoice i \<Rightarrow> ''Duplicate invoice ID '' @ quoted i @ '' provided in request''
   | TenantMismatch i t e \<Rightarrow> ''Tenant mismatch: invoice '' @ quoted i @ '' belongs to '' @ quoted t @ '', expected '' @ quoted e
   | MixedCurrency i c e \<Rightarrow> ''Mixed currency rejected: invoice '' @ quoted i @ '' has currency '' @ quoted c @ '', expected '' @ quoted e
   | _ \<Rightarrow> [])"

definition buildInvalidResponse ::
  "SolverEnv \<Rightarrow> InvoiceMatchRequest \<Rightarrow> SolverPolicyConfig \<Rightarrow> SolveReason \<Rightarrow> SolverError + InvoiceMatchResponse" where
  "buildInvalidResponse env r policy reason =
     buildEmptyResponse env r policy BLOCKED MODEL_INVALID (length (rq_invoices r)) False reason
       (''INVALID:'' @ solve_id env r policy @ '':'' @ rejection_text reason)"

text \<open>The checks of the invoices in order: the first problem, or the eligible ones.\<close>

fun screen :: "InvoiceMatchRequest \<Rightarrow> ident set \<Rightarrow> CandidateInvoice list \<Rightarrow> SolveReason + CandidateInvoice list" where
  "screen r seen [] = Inr []"
| "screen r seen (i # is) =
     (if inv_invoiceId i \<in> seen then Inl (DuplicateInvoice (inv_invoiceId i))
      else if inv_tenantId i \<noteq> rq_tenantId r
      then Inl (TenantMismatch (inv_invoiceId i) (inv_tenantId i) (rq_tenantId r))
      else if js_trim (js_toUpperCase (inv_currency i)) \<noteq> js_trim (js_toUpperCase (rq_currency r))
      then Inl (MixedCurrency (inv_invoiceId i) (inv_currency i) (js_trim (js_toUpperCase (rq_currency r))))
      else case screen r (insert (inv_invoiceId i) seen) is of
             Inl e \<Rightarrow> Inl e
           | Inr es \<Rightarrow> Inr (if inv_status i = ELIGIBLE then i # es else es))"

definition by_amount_then_id :: "(string \<Rightarrow> string \<Rightarrow> int) \<Rightarrow> CandidateInvoice \<Rightarrow> CandidateInvoice \<Rightarrow> int" where
  "by_amount_then_id lc a b =
     (if inv_amountMinor a - inv_amountMinor b \<noteq> 0 then inv_amountMinor a - inv_amountMinor b
      else lc (inv_invoiceId a) (inv_invoiceId b))"

definition match_status :: "BestSolution \<Rightarrow> SolverMatchResultType" where
  "match_status sol = (if bs_differenceMinor sol = 0
     then (if length (bs_selectedIds sol) > 1 then SPLIT_MATCH else EXACT_MATCH) else SPLIT_MATCH_WITH_TOLERANCE)"

definition initial_search :: SearchState where
  "initial_search = \<lparr>st_bestSol = None, st_timedOut = False, st_looks = 0\<rparr>"

text \<open>The steps after the search: a cut-off search, a best selection, a partial payment, or no match.\<close>

definition conclude ::
  "SolverEnv \<Rightarrow> InvoiceMatchRequest \<Rightarrow> SolverPolicyConfig \<Rightarrow> CandidateInvoice list \<Rightarrow> nat \<Rightarrow> SearchState
     \<Rightarrow> SolverError + InvoiceMatchResponse" where
  "conclude env r policy cands dropped st =
     (let cnt = length cands; payment = rq_paymentAmountMinor r
      in if st_timedOut st then buildTimeoutResponse env r policy cnt
         else case st_bestSol st of
           Some sol \<Rightarrow> buildSuccessResponse env r policy (match_status sol) (if dropped > 0 then FEASIBLE else OPTIMAL)
               (bs_selectedIds sol) (bs_totalMinor sol) (bs_differenceMinor sol) (bs_objectiveValue sol) cnt
               (BestSubset (dropped > 0) (length (bs_selectedIds sol)) (bs_differenceMinor sol)
                  (sp_maxCandidatesCap policy) dropped)
         | None \<Rightarrow>
             (case (if rq_allowPartialPayment r then filter (\<lambda>i. inv_amountMinor i > payment) cands else []) of
                i # _ \<Rightarrow> buildSuccessResponse env r policy PARTIAL_PAYMENT FEASIBLE [inv_invoiceId i]
                    (inv_amountMinor i) (inv_amountMinor i - payment) (inv_amountMinor i - payment) cnt
                    (AppliedPartially payment (inv_invoiceId i) (inv_amountMinor i) (inv_amountMinor i - payment))
              | [] \<Rightarrow> buildNoMatchResponse env r policy cnt dropped))"

definition solve :: "SolverEnv \<Rightarrow> InvoiceMatchRequest \<Rightarrow> SolverPolicyConfig \<Rightarrow> SolverError + InvoiceMatchResponse" where
  "solve env r policy =
     (if \<not> request_ok r then Inl RequestSchemaError
      else case screen r {} (rq_invoices r) of
        Inl reason \<Rightarrow> buildInvalidResponse env r policy reason
      | Inr eligible \<Rightarrow>
          (let sorted = js_sort (by_amount_then_id (se_localeCompare env)) eligible;
               dropped = length sorted - sp_maxCandidatesCap policy;
               cands = take (sp_maxCandidatesCap policy) sorted;
               payment = rq_paymentAmountMinor r
           in case find (\<lambda>i. inv_amountMinor i = payment) cands of
                Some i \<Rightarrow> buildSuccessResponse env r policy EXACT_MATCH OPTIMAL [inv_invoiceId i] (inv_amountMinor i) 0 1
                    (length cands) (ExactOneToOne (inv_invoiceId i))
              | None \<Rightarrow>
                  conclude env r policy cands dropped
                    (search (se_expired env) payment (rq_toleranceMinor r)
                       (min (rq_maxInvoicesPerSplit r) (sp_maxInvoicesPerSplit policy)) cands 0 [] initial_search)))"

section \<open>The verifier\<close>

datatype VerifierFailure =
    NonEmptySelection
  | DuplicateSelected ident
  | NotACandidate ident
  | CrossTenant ident ident
  | NotEligible ident InvoiceStatus
  | TooManyInvoices nat nat
  | EmptySelection SolverMatchResultType
  | UnacceptableStatus SolverStatus
  | TotalMismatch int int
  | PartialNotSingle nat
  | PartialNotSmaller int int
  | BeyondTolerance int int
  | DifferenceMismatch int int
  | ObjectiveMismatch int int

record SolverVerificationReport =
  vr_passed :: bool
  vr_failureReasons :: "VerifierFailure list"
  vr_recomputedTotalMinor :: int
  vr_recomputedDifferenceMinor :: int
  vr_selectedCount :: nat
  vr_isFailClosed :: bool

fun verify_selection ::
  "(ident \<rightharpoonup> CandidateInvoice) \<Rightarrow> ident \<Rightarrow> ident set \<Rightarrow> ident list \<Rightarrow> VerifierFailure list \<times> int" where
  "verify_selection cand tenant seen [] = ([], 0)"
| "verify_selection cand tenant seen (i # is) =
     (let dup = (if i \<in> seen then [DuplicateSelected i] else []);
          (fs, tot) = verify_selection cand tenant (insert i seen) is
      in case cand i of
           None \<Rightarrow> (dup @ [NotACandidate i] @ fs, tot)
         | Some c \<Rightarrow>
             (dup @ (if inv_tenantId c \<noteq> tenant then [CrossTenant i (inv_tenantId c)] else [])
                  @ (if inv_status c \<noteq> ELIGIBLE then [NotEligible i (inv_status c)] else []) @ fs,
              inv_amountMinor c + tot))"

definition verify :: "InvoiceMatchRequest \<Rightarrow> InvoiceMatchResponse \<Rightarrow> SolverError + SolverVerificationReport" where
  "verify r p =
     (if \<not> request_ok r then Inl RequestSchemaError
      else if rp_status p \<in> {NO_FEASIBLE_MATCH, SOLVER_TIMEOUT, BLOCKED} then
        Inr \<lparr>vr_passed = (length (rp_selectedInvoiceIds p) = 0),
             vr_failureReasons = (if length (rp_selectedInvoiceIds p) > 0 then [NonEmptySelection] else []),
             vr_recomputedTotalMinor = 0, vr_recomputedDifferenceMinor = rq_paymentAmountMinor r, vr_selectedCount = 0,
             vr_isFailClosed = False\<rparr>
      else
        let ids = rp_selectedInvoiceIds p; n = length ids; partial = (rp_status p = PARTIAL_PAYMENT);
            cand = set_all inv_invoiceId (rq_invoices r) Map.empty;
            (fs, tot) = verify_selection cand (rq_tenantId r) {} ids;
            diff = (if partial then tot - rq_paymentAmountMinor r else \<bar>tot - rq_paymentAmountMinor r\<bar>);
            expected = (if partial then diff else diff * 1000 + int n);
            reasons = fs
              @ (if \<not> partial \<and> n > rq_maxInvoicesPerSplit r then [TooManyInvoices n (rq_maxInvoicesPerSplit r)] else [])
              @ (if n = 0 then [EmptySelection (rp_status p)] else [])
              @ (if rp_solverStatus p \<noteq> OPTIMAL \<and> rp_solverStatus p \<noteq> FEASIBLE then [UnacceptableStatus (rp_solverStatus p)] else [])
              @ (if tot \<noteq> rp_selectedTotalMinor p then [TotalMismatch (rp_selectedTotalMinor p) tot] else [])
              @ (if partial
                 then (if n \<noteq> 1 then [PartialNotSingle n] else [])
                      @ (if rq_paymentAmountMinor r \<ge> tot then [PartialNotSmaller (rq_paymentAmountMinor r) tot] else [])
                 else (if diff > rq_toleranceMinor r then [BeyondTolerance diff (rq_toleranceMinor r)] else []))
              @ (if diff \<noteq> rp_differenceMinor p then [DifferenceMismatch (rp_differenceMinor p) diff] else [])
              @ (if rp_objectiveValue p \<noteq> expected then [ObjectiveMismatch (rp_objectiveValue p) expected] else [])
        in Inr \<lparr>vr_passed = (length reasons = 0), vr_failureReasons = reasons, vr_recomputedTotalMinor = tot,
             vr_recomputedDifferenceMinor = diff, vr_selectedCount = n, vr_isFailClosed = (length reasons \<noteq> 0)\<rparr>)"

section \<open>Replay\<close>

record SolverReplayVerificationResult =
  rv_isDeterministic :: bool
  rv_solveId :: string
  rv_tenantId :: ident
  rv_originalStatus :: SolverMatchResultType
  rv_replayedStatus :: SolverMatchResultType
  rv_replayedResponse :: InvoiceMatchResponse

definition replayInvoiceMatch ::
  "SolverEnv \<Rightarrow> InvoiceMatchRequest \<Rightarrow> InvoiceMatchResponse \<Rightarrow> ident \<Rightarrow> SolverError + SolverReplayVerificationResult" where
  "replayInvoiceMatch env r stored tenant =
     (if tenant = [] \<or> js_trim tenant \<noteq> js_trim (rq_tenantId r) then Inl (SolverTenantIsolationError tenant (rq_tenantId r))
      else case solve env r DEFAULT_SOLVER_POLICY of
        Inl e \<Rightarrow> Inl e
      | Inr replayed \<Rightarrow>
          (case verify r replayed of
             Inl e \<Rightarrow> Inl e
           | Inr rep \<Rightarrow>
               if \<not> vr_passed rep then Inl SolverReplayDivergenceError
               else if rp_status replayed \<noteq> rp_status stored
                 \<or> rp_selectedTotalMinor replayed \<noteq> rp_selectedTotalMinor stored
                 \<or> rp_differenceMinor replayed \<noteq> rp_differenceMinor stored
                 \<or> js_join '','' (sort (rp_selectedInvoiceIds stored)) \<noteq> js_join '','' (sort (rp_selectedInvoiceIds replayed))
               then Inl SolverReplayDivergenceError
               else Inr \<lparr>rv_isDeterministic = True, rv_solveId = rp_solveId stored, rv_tenantId = rq_tenantId r,
                      rv_originalStatus = rp_status stored, rv_replayedStatus = rp_status replayed,
                      rv_replayedResponse = replayed\<rparr>))"

section \<open>Consumption of invoices\<close>

record InvoiceAllocationRecord =
  ia_invoiceId :: ident
  ia_tenantId :: ident
  ia_consumedByPaymentId :: ident
  ia_status :: InvoiceStatus
  ia_allocatedAt :: string

type_synonym allocations = "string \<rightharpoonup> InvoiceAllocationRecord"

definition alloc_key :: "ident \<Rightarrow> ident \<Rightarrow> string" where
  "alloc_key tenant invId = tenant @ '':'' @ invId"

record ClaimResult =
  cr_success :: bool
  cr_consumedIds :: "ident list"
  cr_conflictInvoiceId :: "ident option"

definition conflicting :: "allocations \<Rightarrow> ident \<Rightarrow> ident \<Rightarrow> ident \<Rightarrow> bool" where
  "conflicting m tenant pay invId = (case m (alloc_key tenant invId) of
     None \<Rightarrow> False | Some a \<Rightarrow> ia_status a = CONSUMED \<and> ia_consumedByPaymentId a \<noteq> pay)"

definition claimInvoices :: "string \<Rightarrow> ident \<Rightarrow> ident \<Rightarrow> ident list \<Rightarrow> allocations \<Rightarrow> ClaimResult \<times> allocations" where
  "claimInvoices now tenant pay invs m =
     (if tenant = [] \<or> pay = [] \<or> length invs = 0
      then (\<lparr>cr_success = True, cr_consumedIds = [], cr_conflictInvoiceId = None\<rparr>, m)
      else case find (conflicting m tenant pay) invs of
        Some i \<Rightarrow> (\<lparr>cr_success = False, cr_consumedIds = [], cr_conflictInvoiceId = Some i\<rparr>, m)
      | None \<Rightarrow> (\<lparr>cr_success = True, cr_consumedIds = invs, cr_conflictInvoiceId = None\<rparr>,
                 fold (\<lambda>i m. m(alloc_key tenant i \<mapsto> \<lparr>ia_invoiceId = i, ia_tenantId = tenant, ia_consumedByPaymentId = pay,
                        ia_status = CONSUMED, ia_allocatedAt = now\<rparr>)) invs m))"

definition releaseInvoices :: "ident \<Rightarrow> ident \<Rightarrow> ident list \<Rightarrow> allocations \<Rightarrow> allocations" where
  "releaseInvoices tenant pay invs m =
     fold (\<lambda>i m. case m (alloc_key tenant i) of
             None \<Rightarrow> m
           | Some a \<Rightarrow> if ia_consumedByPaymentId a = pay then m(alloc_key tenant i := None) else m) invs m"

definition getInvoiceStatus :: "ident \<Rightarrow> ident \<Rightarrow> allocations \<Rightarrow> InvoiceStatus" where
  "getInvoiceStatus tenant invId m = (case m (alloc_key tenant invId) of None \<Rightarrow> ELIGIBLE | Some a \<Rightarrow> ia_status a)"

definition clear_allocations :: "allocations \<Rightarrow> allocations" where
  "clear_allocations m = Map.empty"

end
