(* ===== verification/Solver_Correct.thy ===== *)
theory Solver_Correct
  imports Solver Cardinality_Correct
begin

text \<open>
  The branch-and-bound engine is exact: whatever the clock does, a search that is not cut off finds
  a selection of least objective among all admissible ones. Its responses always pass the
  independent verifier and replay to themselves, and the consumption manager gives an invoice to
  one payment at a time.
\<close>

section \<open>The search\<close>

definition amount_sum :: "CandidateInvoice list \<Rightarrow> int" where
  "amount_sum xs = sum_list (map inv_amountMinor xs)"

lemma amount_sum_simps [simp]:
  "amount_sum [] = 0" "amount_sum (x # xs) = inv_amountMinor x + amount_sum xs" "amount_sum (xs @ ys) = amount_sum xs + amount_sum ys"
  by (simp_all add: amount_sum_def)

definition admissible :: "int \<Rightarrow> int \<Rightarrow> nat \<Rightarrow> CandidateInvoice list \<Rightarrow> bool" where
  "admissible payment tol maxK xs \<longleftrightarrow> xs \<noteq> [] \<and> length xs \<le> maxK \<and> \<bar>amount_sum xs - payment\<bar> \<le> tol"

definition selection_objective :: "int \<Rightarrow> CandidateInvoice list \<Rightarrow> int" where
  "selection_objective payment xs = objective payment (amount_sum xs) (length xs)"

definition positive :: "CandidateInvoice list \<Rightarrow> bool" where
  "positive xs \<longleftrightarrow> (\<forall>x \<in> set xs. 0 < inv_amountMinor x)"

definition ascending :: "CandidateInvoice list \<Rightarrow> bool" where
  "ascending xs \<longleftrightarrow> sorted (map inv_amountMinor xs)"

lemma subseqs_amounts:
  assumes "positive rest" "ys \<in> set (subseqs rest)"
  shows "0 \<le> amount_sum ys"
  using assms subseqs_set_subset [OF assms(2)] unfolding amount_sum_def positive_def
  by (intro sum_list_nonneg) (auto intro: less_imp_le)

text \<open>Nothing admissible lies beyond the upper end of the tolerance band.\<close>

lemma beyond_band:
  assumes "positive rest" "payment + tol < amount_sum sel"
  shows "proper_extensions (admissible payment tol maxK) rest sel = {}"
  using subseqs_amounts [OF assms(1)] assms(2) by (fastforce simp: proper_extensions_def admissible_def)

lemma break_sound:
  assumes "positive (x # rest)" "ascending (x # rest)" "payment + tol < amount_sum sel + inv_amountMinor x"
  shows "proper_extensions (admissible payment tol maxK) (x # rest) sel = {}"
proof -
  have "\<not> admissible payment tol maxK (sel @ ys)" if ys: "ys \<in> set (subseqs (x # rest))" "ys \<noteq> []" for ys
  proof -
    from ys(2) obtain y ys' where y: "ys = y # ys'" by (cases ys) auto
    have sub: "set ys \<subseteq> set (x # rest)" by (rule subseqs_set_subset [OF ys(1)])
    with y assms(2) have "inv_amountMinor x \<le> inv_amountMinor y" by (auto simp: ascending_def)
    moreover have "0 \<le> amount_sum ys'"
      using sub y assms(1) unfolding amount_sum_def positive_def by (intro sum_list_nonneg) (auto intro: less_imp_le)
    ultimately show ?thesis using assms(3) y by (auto simp: admissible_def)
  qed
  then show ?thesis by (auto simp: proper_extensions_def)
qed

lemma timed_out_stays:
  "st_timedOut st \<Longrightarrow> st_timedOut (search e payment tol maxK rest tot sel st)"
  "st_timedOut st \<Longrightarrow> st_timedOut (search_loop e payment tol maxK rest tot sel st)"
proof (induction e payment tol maxK rest tot sel st and e payment tol maxK rest tot sel st rule: search_search_loop.induct)
  case (1 e payment tol maxK rest tot sel st)
  then show ?case by (subst search.simps) (simp add: Let_def)
qed auto

text \<open>Either the search was cut off, or the state holds a best selection of those seen.\<close>

definition holds_best :: "int \<Rightarrow> CandidateInvoice list set \<Rightarrow> SearchState \<Rightarrow> bool" where
  "holds_best payment S st \<longleftrightarrow> st_timedOut st \<or>
     (\<exists>best. is_best (selection_objective payment) S best
        \<and> st_bestSol st = map_option (\<lambda>xs. solution payment (amount_sum xs) xs) best)"

lemma consider_best:
  assumes "is_best (selection_objective payment) S best" and len: "length sel \<le> maxK"
  shows "\<exists>best'. is_best (selection_objective payment) (S \<union> (if admissible payment tol maxK sel then {sel} else {})) best'
    \<and> consider_selection payment tol (amount_sum sel) sel (map_option (\<lambda>xs. solution payment (amount_sum xs) xs) best)
        = map_option (\<lambda>xs. solution payment (amount_sum xs) xs) best'"
proof (cases "admissible payment tol maxK sel")
  case True
  then have "consider_selection payment tol (amount_sum sel) sel (map_option (\<lambda>xs. solution payment (amount_sum xs) xs) best)
      = map_option (\<lambda>xs. solution payment (amount_sum xs) xs) (keep_best (selection_objective payment) sel best)"
    by (auto simp: consider_selection_def keep_best_def admissible_def selection_objective_def solution_def split: option.splits)
  with is_best_keep [OF assms(1), of sel] True show ?thesis by auto
next
  case False
  with len have "\<not> (length sel > 0 \<and> \<bar>amount_sum sel - payment\<bar> \<le> tol)" by (auto simp: admissible_def)
  with assms(1) False show ?thesis by (auto simp: consider_selection_def)
qed

lemma search_best:
  "positive rest \<Longrightarrow> ascending rest \<Longrightarrow> tot = amount_sum sel \<Longrightarrow> length sel \<le> maxK \<Longrightarrow> holds_best payment S st \<Longrightarrow>
     holds_best payment (S \<union> extensions (admissible payment tol maxK) rest sel) (search e payment tol maxK rest tot sel st)"
  "positive rest \<Longrightarrow> ascending rest \<Longrightarrow> tot = amount_sum sel \<Longrightarrow> length sel < maxK \<Longrightarrow> holds_best payment S st \<Longrightarrow>
     holds_best payment (S \<union> proper_extensions (admissible payment tol maxK) rest sel) (search_loop e payment tol maxK rest tot sel st)"
proof (induction e payment tol maxK rest tot sel st and e payment tol maxK rest tot sel st
    arbitrary: S and S rule: search_search_loop.induct)
  case (1 e payment tol maxK rest tot sel st)
  let ?F = "admissible payment tol maxK"
  let ?st1 = "st\<lparr>st_looks := st_looks st + 1, st_bestSol := consider_selection payment tol tot sel (st_bestSol st)\<rparr>"
  let ?S1 = "S \<union> (if ?F sel then {sel} else {})"
  have st1: "holds_best payment ?S1 ?st1"
    using "1.prems"(3-5) consider_best [of payment S _ sel maxK tol] by (auto simp: holds_best_def)
  show ?case
  proof (cases "e (st_looks st)")
    case True
    then show ?thesis by (subst search.simps) (simp add: Let_def holds_best_def)
  next
    case live: False
    show ?thesis
    proof (cases "length sel \<ge> maxK \<or> tot > payment + tol")
      case True
      then have "proper_extensions ?F rest sel = {}"
      proof
        assume "maxK \<le> length sel"
        then show ?thesis by (force simp: proper_extensions_def admissible_def neq_Nil_conv)
      next
        assume "payment + tol < tot"
        then show ?thesis using "1.prems"(1,3) by (intro beyond_band) auto
      qed
      moreover have "search e payment tol maxK rest tot sel st = ?st1"
        using live True by (subst search.simps) (auto simp: Let_def)
      ultimately show ?thesis using st1 by (simp only: extensions_split Un_empty_right)
    next
      case False
      have "search e payment tol maxK rest tot sel st = search_loop e payment tol maxK rest tot sel ?st1"
        using live False by (subst search.simps) (auto simp: Let_def)
      moreover have "holds_best payment (?S1 \<union> proper_extensions ?F rest sel) (search_loop e payment tol maxK rest tot sel ?st1)"
        using "1.IH" [OF refl live refl] False "1.prems"(1-3) st1 by simp
      ultimately show ?thesis by (simp only: extensions_split Un_assoc)
    qed
  qed
next
  case (2 e payment tol maxK tot sel st)
  then show ?case by simp
next
  case (3 e payment tol maxK i rest tot sel st)
  let ?F = "admissible payment tol maxK"
  show ?case
  proof (cases "st_timedOut st")
    case True
    then show ?thesis by (simp add: holds_best_def)
  next
    case live: False
    show ?thesis
    proof (cases "tot + inv_amountMinor i > payment + tol")
      case True
      with break_sound [OF "3.prems"(1,2), of payment tol sel maxK] "3.prems"(3,5) live show ?thesis by simp
    next
      case False
      let ?st' = "search e payment tol maxK rest (tot + inv_amountMinor i) (sel @ [i]) st"
      have rest: "positive rest" "ascending rest" using "3.prems"(1,2) by (auto simp: positive_def ascending_def)
      have "holds_best payment (S \<union> extensions ?F rest (sel @ [i])) ?st'"
        using "3.IH"(1) [OF live False rest _ _ "3.prems"(5)] "3.prems"(3,4) by simp
      from "3.IH"(2) [OF live False rest "3.prems"(3,4) this] live False show ?thesis
        by (simp add: proper_extensions_Cons Un_assoc)
    qed
  qed
qed

lemma search_optimal:
  assumes "positive cands" "ascending cands" "\<not> st_timedOut (search e payment tol maxK cands 0 [] initial_search)"
  shows "\<exists>best. is_best (selection_objective payment) {xs \<in> set (subseqs cands). admissible payment tol maxK xs} best
    \<and> st_bestSol (search e payment tol maxK cands 0 [] initial_search) = map_option (\<lambda>xs. solution payment (amount_sum xs) xs) best"
proof -
  have "holds_best payment {} initial_search" by (auto simp: holds_best_def initial_search_def intro!: exI [of _ None])
  from search_best(1) [OF assms(1,2) _ _ this, of 0 "[]" maxK tol e] assms(3) show ?thesis
    by (simp add: holds_best_def extensions_def)
qed

section \<open>The engine\<close>

lemma screen_Inr:
  "screen r seen is = Inr es \<Longrightarrow>
     es = filter (\<lambda>i. inv_status i = ELIGIBLE) is \<and> distinct (map inv_invoiceId is) \<and> inv_invoiceId ` set is \<inter> seen = {}
     \<and> inv_tenantId ` set is \<subseteq> {rq_tenantId r}"
  by (induction r seen "is" arbitrary: es rule: screen.induct) (auto split: if_splits sum.splits)

text \<open>The candidates are ascending by amount for every collation of the ids.\<close>

lemma insort_key_sorted:
  assumes "\<And>x y. cmp x y \<le> 0 \<Longrightarrow> f x \<le> (f y :: int)" "\<And>x y. \<not> cmp x y \<le> 0 \<Longrightarrow> f y \<le> f x" "sorted (map f xs)"
  shows "sorted (map f (js_insort cmp x xs))"
  using assms(3)
proof (induction xs)
  case (Cons y ys)
  have ins: "set (js_insort cmp x ys) = insert x (set ys)"
    by (rule mset_eq_setD [of _ "x # ys", simplified]) simp
  show ?case
  proof (cases "cmp x y \<le> 0")
    case True
    with Cons.prems assms(1) [OF True] show ?thesis by auto
  next
    case False
    with Cons assms(2) [OF False] ins show ?thesis by auto
  qed
qed simp

lemma sort_ascending: "ascending (js_sort (by_amount_then_id lc) xs)"
  unfolding ascending_def js_sort_def
  by (induction xs) (auto intro!: insort_key_sorted simp: by_amount_then_id_def split: if_splits)

definition candidates :: "SolverEnv \<Rightarrow> SolverPolicyConfig \<Rightarrow> CandidateInvoice list \<Rightarrow> CandidateInvoice list" where
  "candidates env policy eligible = take (sp_maxCandidatesCap policy) (js_sort (by_amount_then_id (se_localeCompare env)) eligible)"

definition max_split :: "InvoiceMatchRequest \<Rightarrow> SolverPolicyConfig \<Rightarrow> nat" where
  "max_split r policy = min (rq_maxInvoicesPerSplit r) (sp_maxInvoicesPerSplit policy)"

definition selections :: "SolverEnv \<Rightarrow> SolverPolicyConfig \<Rightarrow> InvoiceMatchRequest \<Rightarrow> CandidateInvoice list \<Rightarrow> CandidateInvoice list set" where
  "selections env policy r eligible = {xs \<in> set (subseqs (candidates env policy eligible)).
     admissible (rq_paymentAmountMinor r) (rq_toleranceMinor r) (max_split r policy) xs}"

lemma candidates_ascending: "ascending (candidates env policy es)"
  using sort_ascending [of "se_localeCompare env" es]
  by (simp add: candidates_def ascending_def take_map [symmetric] sorted_wrt_take)

lemma candidates_eligible: "set (candidates env policy es) \<subseteq> set es"
  using set_take_subset by (fastforce simp: candidates_def)

lemma candidates_positive:
  assumes "request_ok r" "screen r {} (rq_invoices r) = Inr es"
  shows "positive (candidates env policy es)"
  using assms(1) screen_Inr [OF assms(2)] candidates_eligible [of env policy es]
  by (fastforce simp: positive_def request_ok_def list_all_iff invoice_ok_def)

text \<open>What a response says: cut off, a best selection, one larger invoice paid in part, or none.\<close>

definition describes :: "int \<Rightarrow> CandidateInvoice list \<Rightarrow> InvoiceMatchResponse \<Rightarrow> bool" where
  "describes payment xs p \<longleftrightarrow> rp_status p \<in> {EXACT_MATCH, SPLIT_MATCH, SPLIT_MATCH_WITH_TOLERANCE}
     \<and> rp_selectedInvoiceIds p = map inv_invoiceId xs \<and> rp_selectedTotalMinor p = amount_sum xs
     \<and> rp_differenceMinor p = \<bar>amount_sum xs - payment\<bar> \<and> rp_objectiveValue p = selection_objective payment xs"

definition partial_of :: "int \<Rightarrow> CandidateInvoice \<Rightarrow> InvoiceMatchResponse \<Rightarrow> bool" where
  "partial_of payment i p \<longleftrightarrow> rp_status p = PARTIAL_PAYMENT \<and> rp_solverStatus p = FEASIBLE \<and> payment < inv_amountMinor i
     \<and> rp_selectedInvoiceIds p = [inv_invoiceId i] \<and> rp_selectedTotalMinor p = inv_amountMinor i
     \<and> rp_differenceMinor p = inv_amountMinor i - payment \<and> rp_objectiveValue p = inv_amountMinor i - payment"

definition outcome ::
  "SolverEnv \<Rightarrow> SolverPolicyConfig \<Rightarrow> InvoiceMatchRequest \<Rightarrow> CandidateInvoice list \<Rightarrow> InvoiceMatchResponse \<Rightarrow> CandidateInvoice list option \<Rightarrow> bool" where
  "outcome env policy r eligible p best \<longleftrightarrow> (case best of
     Some xs \<Rightarrow> describes (rq_paymentAmountMinor r) xs p \<and> rp_solverStatus p \<in> {OPTIMAL, FEASIBLE}
       \<and> (rp_solverStatus p = OPTIMAL \<or> sp_maxCandidatesCap policy < length eligible)
   | None \<Rightarrow> (rp_status p = NO_FEASIBLE_MATCH \<and> rp_selectedInvoiceIds p = [])
       \<or> (\<exists>i \<in> set (candidates env policy eligible). partial_of (rq_paymentAmountMinor r) i p))"

lemma objective_pos: "xs \<noteq> [] \<Longrightarrow> 1 \<le> selection_objective payment xs"
  by (cases xs) (auto simp: selection_objective_def objective_def)

lemma singleton_subseqs: "x \<in> set xs \<Longrightarrow> [x] \<in> set (subseqs xs)"
  by (induction xs) (auto simp: Let_def Nil_in_subseqs)

lemma exact_is_best:
  assumes "find (\<lambda>i. inv_amountMinor i = rq_paymentAmountMinor r) (candidates env policy es) = Some i"
    and "request_ok r" "1 \<le> sp_maxInvoicesPerSplit policy"
  shows "is_best (selection_objective (rq_paymentAmountMinor r)) (selections env policy r es) (Some [i])"
proof -
  from assms(1) have i: "i \<in> set (candidates env policy es)" "inv_amountMinor i = rq_paymentAmountMinor r"
    by (auto simp: find_Some_iff)
  from singleton_subseqs [OF i(1)] have "[i] \<in> set (subseqs (candidates env policy es))" .
  with i assms(2,3) have "[i] \<in> selections env policy r es"
    by (simp add: selections_def admissible_def max_split_def request_ok_def)
  moreover have "selection_objective (rq_paymentAmountMinor r) [i] = 1"
    using i by (simp add: selection_objective_def objective_def)
  ultimately show ?thesis
    using objective_pos by (auto simp: is_best_def selections_def admissible_def)
qed

lemma solve_outcome:
  assumes ok: "solve env r policy = Inr p" and scr: "screen r {} (rq_invoices r) = Inr es"
    and K: "1 \<le> sp_maxInvoicesPerSplit policy"
  shows "rp_status p = SOLVER_TIMEOUT \<and> rp_selectedInvoiceIds p = []
    \<or> (\<exists>best. is_best (selection_objective (rq_paymentAmountMinor r)) (selections env policy r es) best \<and> outcome env policy r es p best)"
proof -
  let ?pay = "rq_paymentAmountMinor r" and ?cands = "candidates env policy es"
  let ?st = "search (se_expired env) ?pay (rq_toleranceMinor r) (max_split r policy) ?cands 0 [] initial_search"
  from ok have rok: "request_ok r" by (auto simp: solve_def split: if_splits)
  have cap: "length es - sp_maxCandidatesCap policy > 0 \<longleftrightarrow> sp_maxCandidatesCap policy < length es" by auto
  note run = ok [unfolded solve_def conclude_def Let_def scr, simplified rok, folded candidates_def max_split_def, simplified]
  show ?thesis
  proof (cases "find (\<lambda>i. inv_amountMinor i = ?pay) ?cands")
    case (Some i)
    then have "inv_amountMinor i = ?pay" by (auto simp: find_Some_iff)
    with run Some have "outcome env policy r es p (Some [i])"
      by (auto simp: outcome_def describes_def buildSuccessResponse_def parse_response_def selection_objective_def objective_def
          split: if_splits)
    with exact_is_best [OF Some rok K] show ?thesis by blast
  next
    case None
    show ?thesis
    proof (cases "st_timedOut ?st")
      case True
      with run None show ?thesis
        by (auto simp: buildTimeoutResponse_def buildEmptyResponse_def parse_response_def split: if_splits)
    next
      case False
      from search_optimal [OF candidates_positive [OF rok scr] candidates_ascending False]
      obtain best where best: "is_best (selection_objective ?pay) (selections env policy r es) best"
        "st_bestSol ?st = map_option (\<lambda>xs. solution ?pay (amount_sum xs) xs) best"
        by (auto simp: selections_def)
      have "outcome env policy r es p best"
      proof (cases best)
        case (Some xs)
        with run None False best(2) show ?thesis
          by (auto simp: outcome_def describes_def buildSuccessResponse_def parse_response_def selection_objective_def
              match_status_def solution_def split: if_splits)
      next
        case bestNone: None
        show ?thesis
        proof (cases "if rq_allowPartialPayment r then filter (\<lambda>i. inv_amountMinor i > ?pay) ?cands else []")
          case Nil
          with run None False best(2) bestNone show ?thesis
            by (auto simp: outcome_def buildNoMatchResponse_def buildEmptyResponse_def parse_response_def split: if_splits)
        next
          case (Cons i more)
          then have "i \<in> set ?cands" "?pay < inv_amountMinor i" by (auto simp: filter_eq_Cons_iff split: if_splits)
          with run None False best(2) bestNone Cons show ?thesis
            by (auto simp: outcome_def partial_of_def buildSuccessResponse_def parse_response_def split: if_splits)
        qed
      qed
      with best(1) show ?thesis by blast
    qed
  qed
qed

section \<open>The verifier\<close>

lemma verify_selection_ok:
  assumes "distinct (map inv_invoiceId xs)" "inv_invoiceId ` set xs \<inter> seen = {}"
    and "\<forall>x \<in> set xs. cand (inv_invoiceId x) = Some x \<and> inv_tenantId x = tenant \<and> inv_status x = ELIGIBLE"
  shows "verify_selection cand tenant seen (map inv_invoiceId xs) = ([], amount_sum xs)"
  using assms by (induction xs arbitrary: seen) auto

lemma verify_selection_sound:
  "verify_selection cand tenant seen ids = ([], tot) \<Longrightarrow>
     \<exists>xs. map cand ids = map Some xs \<and> distinct ids \<and> set ids \<inter> seen = {}
       \<and> (\<forall>x \<in> set xs. inv_tenantId x = tenant \<and> inv_status x = ELIGIBLE) \<and> tot = amount_sum xs"
proof (induction cand tenant seen ids arbitrary: tot rule: verify_selection.induct)
  case (2 cand tenant seen i ids)
  obtain fs tot' where rec: "verify_selection cand tenant (insert i seen) ids = (fs, tot')" by fastforce
  with "2.prems" obtain c where c: "cand i = Some c" "i \<notin> seen" "inv_tenantId c = tenant" "inv_status c = ELIGIBLE"
    "fs = []" "tot = inv_amountMinor c + tot'"
    by (auto simp: Let_def split: option.splits if_splits)
  from "2.IH" [OF refl] rec c(5) obtain xs where "map cand ids = map Some xs" "distinct ids" "set ids \<inter> insert i seen = {}"
    "\<forall>x \<in> set xs. inv_tenantId x = tenant \<and> inv_status x = ELIGIBLE" "tot' = amount_sum xs" by auto
  with c show ?case by (intro exI [of _ "c # xs"]) auto
qed simp

lemma selection_verified:
  assumes "screen r {} (rq_invoices r) = Inr es" "xs \<in> set (subseqs (candidates env policy es))"
  shows "verify_selection (set_all inv_invoiceId (rq_invoices r) Map.empty) (rq_tenantId r) {} (map inv_invoiceId xs) = ([], amount_sum xs)"
proof (rule verify_selection_ok)
  note scr = screen_Inr [OF assms(1)]
  have "mset (candidates env policy es) \<subseteq># mset (rq_invoices r)"
    using mset_take_sort_sub [of "sp_maxCandidatesCap policy" "by_amount_then_id (se_localeCompare env)" es] scr
      mset_filter_sub [of _ "rq_invoices r"] unfolding candidates_def by (metis subset_mset.order_trans)
  with subseqs_mset_subset [OF assms(2)] have "mset xs \<subseteq># mset (rq_invoices r)" by (rule subset_mset.order_trans)
  then show "distinct (map inv_invoiceId xs)" by (rule mset_sub_distinct) (use scr in blast)
  have "set xs \<subseteq> set es" using subseqs_set_subset [OF assms(2)] candidates_eligible by blast
  then show "\<forall>x \<in> set xs. set_all inv_invoiceId (rq_invoices r) Map.empty (inv_invoiceId x) = Some x
      \<and> inv_tenantId x = rq_tenantId r \<and> inv_status x = ELIGIBLE"
    using scr set_all_distinct [of inv_invoiceId "rq_invoices r"] by auto
qed simp

lemma solve_verified:
  assumes "solve env r policy = Inr p" "1 \<le> sp_maxInvoicesPerSplit policy"
  shows "\<exists>rep. verify r p = Inr rep \<and> vr_passed rep"
proof -
  from assms(1) have rok: "request_ok r" by (auto simp: solve_def split: if_splits)
  show ?thesis
  proof (cases "screen r {} (rq_invoices r)")
    case (Inl reason)
    with assms(1) rok show ?thesis
      by (auto simp: solve_def verify_def buildInvalidResponse_def buildEmptyResponse_def parse_response_def split: if_splits)
  next
    case (Inr es)
    from solve_outcome [OF assms(1) Inr assms(2)] show ?thesis
    proof (elim disjE exE conjE)
      assume "rp_status p = SOLVER_TIMEOUT" "rp_selectedInvoiceIds p = []"
      with rok show ?thesis by (simp add: verify_def)
    next
      fix best
      assume best: "is_best (selection_objective (rq_paymentAmountMinor r)) (selections env policy r es) best"
        and o: "outcome env policy r es p best"
      show ?thesis
      proof (cases best)
        case (Some xs)
        with best have xs: "xs \<in> selections env policy r es" by (simp add: is_best_def)
        then have adm: "admissible (rq_paymentAmountMinor r) (rq_toleranceMinor r) (max_split r policy) xs"
          and sel: "verify_selection (set_all inv_invoiceId (rq_invoices r) Map.empty) (rq_tenantId r) {} (map inv_invoiceId xs)
            = ([], amount_sum xs)"
          by (auto simp: selections_def intro: selection_verified [OF Inr])
        from o Some have d: "describes (rq_paymentAmountMinor r) xs p" "rp_solverStatus p \<in> {OPTIMAL, FEASIBLE}"
          by (simp_all add: outcome_def)
        then have "rp_status p \<notin> {NO_FEASIBLE_MATCH, SOLVER_TIMEOUT, BLOCKED, PARTIAL_PAYMENT}" by (auto simp: describes_def)
        with d sel adm rok show ?thesis
          by (auto simp: verify_def describes_def Let_def admissible_def max_split_def selection_objective_def objective_def)
      next
        case None
        from o None consider (none) "rp_status p = NO_FEASIBLE_MATCH" "rp_selectedInvoiceIds p = []"
          | (partial) i where "i \<in> set (candidates env policy es)" "partial_of (rq_paymentAmountMinor r) i p"
          by (auto simp: outcome_def)
        then show ?thesis
        proof cases
          case none
          with rok show ?thesis by (simp add: verify_def)
        next
          case partial
          from selection_verified [OF Inr singleton_subseqs [OF partial(1)]] partial(2) rok show ?thesis
            by (auto simp: verify_def partial_of_def Let_def)
        qed
      qed
    qed
  qed
qed

lemma search_clock:
  "\<not> st_timedOut (search e payment tol maxK rest tot sel st) \<Longrightarrow>
     search e payment tol maxK rest tot sel st = search (\<lambda>_. False) payment tol maxK rest tot sel st"
  "\<not> st_timedOut (search_loop e payment tol maxK rest tot sel st) \<Longrightarrow>
     search_loop e payment tol maxK rest tot sel st = search_loop (\<lambda>_. False) payment tol maxK rest tot sel st"
proof (induction e payment tol maxK rest tot sel st and e payment tol maxK rest tot sel st rule: search_search_loop.induct)
  case (1 e payment tol maxK rest tot sel st)
  from "1.prems" have live: "\<not> e (st_looks st)" by (subst (asm) search.simps) (auto simp: Let_def)
  let ?st1 = "st\<lparr>st_looks := st_looks st + 1, st_bestSol := consider_selection payment tol tot sel (st_bestSol st)\<rparr>"
  have run: "search e' payment tol maxK rest tot sel st = (if length sel \<ge> maxK \<or> tot > payment + tol then ?st1
      else search_loop e' payment tol maxK rest tot sel ?st1)" if "\<not> e' (st_looks st)" for e'
    using that by (subst search.simps) (auto simp: Let_def)
  show ?case
    using "1.IH" [OF refl live refl] "1.prems" unfolding run [of e, OF live] run [of "\<lambda>_. False", simplified] by (auto split: if_splits)
next
  case (3 e payment tol maxK i rest tot sel st)
  show ?case
  proof (cases "st_timedOut st \<or> tot + inv_amountMinor i > payment + tol")
    case True
    then show ?thesis by auto
  next
    case False
    let ?st' = "search e payment tol maxK rest (tot + inv_amountMinor i) (sel @ [i]) st"
    from "3.prems" False have fin: "\<not> st_timedOut (search_loop e payment tol maxK rest tot sel ?st')" by simp
    with timed_out_stays(2) have mid: "\<not> st_timedOut ?st'" by blast
    from "3.IH"(1) [OF _ _ mid] "3.IH"(2) [OF _ _ fin] False show ?thesis by simp
  qed
qed simp

text \<open>Two solves of a request that are not cut off select the same, whenever they run.\<close>

definition same_choice :: "InvoiceMatchResponse \<Rightarrow> InvoiceMatchResponse \<Rightarrow> bool" where
  "same_choice p q \<longleftrightarrow> rp_status p = rp_status q \<and> rp_selectedInvoiceIds p = rp_selectedInvoiceIds q
     \<and> rp_selectedTotalMinor p = rp_selectedTotalMinor q \<and> rp_differenceMinor p = rp_differenceMinor q"

lemma solve_clock:
  assumes "solve env r policy = Inr p" "solve (env\<lparr>se_expired := e, se_createdAt := c\<rparr>) r policy = Inr q"
    and "rp_status p \<noteq> SOLVER_TIMEOUT" "rp_status q \<noteq> SOLVER_TIMEOUT"
  shows "same_choice p q"
proof (cases "screen r {} (rq_invoices r)")
  case (Inl reason)
  with assms(1,2) show ?thesis
    by (auto simp: solve_def same_choice_def buildInvalidResponse_def buildEmptyResponse_def parse_response_def split: if_splits)
next
  case (Inr es)
  let ?cands = "candidates env policy es"
  let ?run = "\<lambda>e. search e (rq_paymentAmountMinor r) (rq_toleranceMinor r) (max_split r policy) ?cands 0 [] initial_search"
  show ?thesis
  proof (cases "find (\<lambda>i. inv_amountMinor i = rq_paymentAmountMinor r) ?cands")
    case (Some i)
    with assms(1,2) Inr show ?thesis
      by (auto simp: solve_def conclude_def same_choice_def Let_def candidates_def buildSuccessResponse_def parse_response_def split: if_splits)
  next
    case None
    have live: "\<not> st_timedOut (?run (se_expired env))" "\<not> st_timedOut (?run e)"
      using assms None Inr
      by (auto simp: solve_def conclude_def Let_def candidates_def max_split_def buildTimeoutResponse_def buildEmptyResponse_def
          parse_response_def split: if_splits)
    have "st_bestSol (?run (se_expired env)) = st_bestSol (?run e)"
      unfolding search_clock(1) [OF live(1)] search_clock(1) [OF live(2)] ..
    with live assms(1,2) None Inr show ?thesis
      by (auto simp: solve_def conclude_def same_choice_def Let_def candidates_def max_split_def buildSuccessResponse_def
          buildNoMatchResponse_def buildEmptyResponse_def parse_response_def split: if_splits option.splits list.splits)
  qed
qed

section \<open>Consumption\<close>

datatype ConsumptionOp = Claim string ident ident "ident list" | Release ident ident "ident list"

fun apply_op :: "ConsumptionOp \<Rightarrow> allocations \<Rightarrow> allocations" where
  "apply_op (Claim now tenant pay invs) m = snd (claimInvoices now tenant pay invs m)"
| "apply_op (Release tenant pay invs) m = releaseInvoices tenant pay invs m"

fun releases_for :: "ident \<Rightarrow> ConsumptionOp \<Rightarrow> bool" where
  "releases_for pay (Release _ pay' _) = (pay = pay')"
| "releases_for pay (Claim _ _ _ _) = False"

definition held_by :: "ident \<Rightarrow> string \<Rightarrow> allocations \<Rightarrow> bool" where
  "held_by pay k m \<longleftrightarrow> (case m k of None \<Rightarrow> False | Some a \<Rightarrow> ia_status a = CONSUMED \<and> ia_consumedByPaymentId a = pay)"

lemma held_by_updates:
  assumes "\<And>i m. held_by pay k m \<Longrightarrow> i \<in> set invs \<Longrightarrow> held_by pay k (f i m)"
  shows "held_by pay k m \<Longrightarrow> held_by pay k (fold f invs m)"
  using assms by (induction invs arbitrary: m) auto

lemma claim_holds:
  assumes "cr_success (fst (claimInvoices now tenant pay invs m))" "tenant \<noteq> []" "pay \<noteq> []" "i \<in> set invs"
  shows "held_by pay (alloc_key tenant i) (snd (claimInvoices now tenant pay invs m))"
proof -
  let ?f = "\<lambda>i m. m(alloc_key tenant i \<mapsto> \<lparr>ia_invoiceId = i, ia_tenantId = tenant, ia_consumedByPaymentId = pay,
      ia_status = CONSUMED, ia_allocatedAt = now\<rparr>)"
  have "held_by pay (alloc_key tenant i) (fold ?f invs m)"
    using assms(4)
  proof (induction invs rule: rev_induct)
    case (snoc j invs)
    then show ?case by (cases "i = j") (auto simp: held_by_def)
  qed simp
  moreover have "snd (claimInvoices now tenant pay invs m) = fold ?f invs m"
    using assms by (auto simp: claimInvoices_def split: option.splits if_splits)
  ultimately show ?thesis by simp
qed

lemma held_by_conflict:
  assumes "held_by pay (alloc_key tenant i) m" "pay' \<noteq> pay" "i \<in> set invs" "tenant \<noteq> []" "pay' \<noteq> []"
  shows "\<not> cr_success (fst (claimInvoices now tenant pay' invs m)) \<and> snd (claimInvoices now tenant pay' invs m) = m"
proof -
  have "conflicting m tenant pay' i" using assms(1,2) by (auto simp: held_by_def conflicting_def split: option.splits)
  with assms(3) have "find (conflicting m tenant pay') invs \<noteq> None" by (auto simp: find_None_iff)
  with assms(3-5) show ?thesis by (auto simp: claimInvoices_def)
qed

lemma held_by_apply:
  assumes "held_by pay k m" "\<not> releases_for pay op"
  shows "held_by pay k (apply_op op m)"
proof (cases op)
  case (Claim now tenant pay' invs)
  show ?thesis
  proof (cases "tenant = [] \<or> pay' = [] \<or> find (conflicting m tenant pay') invs \<noteq> None")
    case True
    with assms(1) Claim show ?thesis by (auto simp: claimInvoices_def split: option.splits)
  next
    case False
    then have free: "\<not> conflicting m tenant pay' i" if "i \<in> set invs" for i using that by (auto simp: find_None_iff)
    have same: "pay' = pay" if "i \<in> set invs" "alloc_key tenant i = k" for i
      using free [OF that(1)] assms(1) that(2) by (auto simp: conflicting_def held_by_def split: option.splits)
    have "held_by pay k (fold (\<lambda>i m. m(alloc_key tenant i \<mapsto> \<lparr>ia_invoiceId = i, ia_tenantId = tenant,
        ia_consumedByPaymentId = pay', ia_status = CONSUMED, ia_allocatedAt = now\<rparr>)) invs m)"
      by (rule held_by_updates [OF _ assms(1)]) (auto simp: held_by_def dest: same)
    with False Claim assms(1) show ?thesis by (auto simp: claimInvoices_def)
  qed
next
  case (Release tenant pay' invs)
  with assms(2) have ne: "pay' \<noteq> pay" by simp
  have "held_by pay k (releaseInvoices tenant pay' invs m)"
    unfolding releaseInvoices_def
    by (rule held_by_updates [OF _ assms(1)]) (use ne in \<open>auto simp: held_by_def split: option.splits if_splits\<close>)
  with Release show ?thesis by simp
qed

lemma held_by_ops: "held_by pay k m \<Longrightarrow> \<forall>op \<in> set ops. \<not> releases_for pay op \<Longrightarrow> held_by pay k (fold apply_op ops m)"
  by (induction ops arbitrary: m) (auto intro: held_by_apply)

section \<open>Properties\<close>


definition sample_invoice :: "ident \<Rightarrow> int \<Rightarrow> CandidateInvoice" where
  "sample_invoice i a = \<lparr>inv_invoiceId = i, inv_tenantId = ''acme'', inv_amountMinor = a, inv_currency = ''INR'', inv_status = ELIGIBLE\<rparr>"

definition sample_request :: InvoiceMatchRequest where
  "sample_request = \<lparr>rq_paymentId = ''pay_1'', rq_tenantId = ''acme'', rq_paymentAmountMinor = 1000, rq_currency = ''INR'',
     rq_toleranceMinor = 10, rq_allowPartialPayment = False, rq_maxInvoicesPerSplit = 3, rq_timeoutMs = 2000,
     rq_invoices = [sample_invoice ''i1'' 700, sample_invoice ''i2'' 295, sample_invoice ''i3'' 300, sample_invoice ''i4'' 2000],
     rq_policyVersion = ''invoice-match-v1''\<rparr>"

definition sample_solver_env :: SolverEnv where
  "sample_solver_env = \<lparr>se_localeCompare = cmp_by (\<lambda>i. i), se_sha256Hex = (\<lambda>t. replicate 64 (CHR ''0'')),
     se_expired = (\<lambda>_. False), se_createdAt = ''2025-01-01T00:00:00.000Z''\<rparr>"

definition sample_response :: InvoiceMatchResponse where
  "sample_response = (case solve sample_solver_env sample_request DEFAULT_SOLVER_POLICY of Inr p \<Rightarrow> p)"

lemma sample_solve: "solve sample_solver_env sample_request DEFAULT_SOLVER_POLICY = Inr sample_response"
proof -
  have "isl (solve sample_solver_env sample_request DEFAULT_SOLVER_POLICY) = False" by code_simp
  then show ?thesis by (cases "solve sample_solver_env sample_request DEFAULT_SOLVER_POLICY") (simp_all add: sample_response_def)
qed




lemma nil_if: "((if b then [x] else []) = []) \<longleftrightarrow> \<not> b"
  by simp

lemma passed_facts:
  assumes "verify r p = Inr rep" "vr_passed rep" "rp_status p \<notin> {NO_FEASIBLE_MATCH, SOLVER_TIMEOUT, BLOCKED}"
    and sel: "verify_selection (set_all inv_invoiceId (rq_invoices r) Map.empty) (rq_tenantId r) {} (rp_selectedInvoiceIds p) = (fs, tot)"
  shows "fs = [] \<and> rp_selectedInvoiceIds p \<noteq> [] \<and> tot = rp_selectedTotalMinor p
    \<and> (if rp_status p = PARTIAL_PAYMENT
       then length (rp_selectedInvoiceIds p) = 1 \<and> rq_paymentAmountMinor r < tot \<and> rp_differenceMinor p = tot - rq_paymentAmountMinor r
       else length (rp_selectedInvoiceIds p) \<le> rq_maxInvoicesPerSplit r \<and> \<bar>tot - rq_paymentAmountMinor r\<bar> \<le> rq_toleranceMinor r
         \<and> rp_differenceMinor p = \<bar>tot - rq_paymentAmountMinor r\<bar>
         \<and> rp_objectiveValue p = \<bar>tot - rq_paymentAmountMinor r\<bar> * 1000 + int (length (rp_selectedInvoiceIds p)))"
proof -
  have "request_ok r" using assms(1) by (cases "request_ok r") (simp_all add: verify_def)
  with assms show ?thesis
    by (cases "rp_status p = PARTIAL_PAYMENT")
      (auto simp: verify_def Let_def nil_if simp del: if_split split del: if_split)
qed

text \<open>
  The verifier is sound: a passing report for a matched status means that the selected ids are
  distinct candidates of the request, all eligible and of its tenant, that the claimed total,
  difference and objective are theirs, and that the difference is within the tolerance and the size
  within the limit, or that it is one larger invoice paid in part.
\<close>

theorem verifier_sound:
  assumes "verify r p = Inr rep" "vr_passed rep" "rp_status p \<notin> {NO_FEASIBLE_MATCH, SOLVER_TIMEOUT, BLOCKED}"
  shows "\<exists>xs. set xs \<subseteq> set (rq_invoices r) \<and> map inv_invoiceId xs = rp_selectedInvoiceIds p \<and> distinct (rp_selectedInvoiceIds p)
    \<and> inv_status ` set xs = {ELIGIBLE} \<and> inv_tenantId ` set xs = {rq_tenantId r} \<and> rp_selectedTotalMinor p = amount_sum xs
    \<and> (if rp_status p = PARTIAL_PAYMENT
       then length xs = 1 \<and> rq_paymentAmountMinor r < amount_sum xs \<and> rp_differenceMinor p = amount_sum xs - rq_paymentAmountMinor r
       else admissible (rq_paymentAmountMinor r) (rq_toleranceMinor r) (rq_maxInvoicesPerSplit r) xs
         \<and> rp_differenceMinor p = \<bar>amount_sum xs - rq_paymentAmountMinor r\<bar>
         \<and> rp_objectiveValue p = selection_objective (rq_paymentAmountMinor r) xs)"
proof -
  let ?cand = "set_all inv_invoiceId (rq_invoices r) Map.empty"
  obtain fs tot where sel: "verify_selection ?cand (rq_tenantId r) {} (rp_selectedInvoiceIds p) = (fs, tot)" by fastforce
  note facts = passed_facts [OF assms sel]
  with sel verify_selection_sound obtain xs where xs: "map ?cand (rp_selectedInvoiceIds p) = map Some xs"
    "distinct (rp_selectedInvoiceIds p)" "\<forall>x \<in> set xs. inv_tenantId x = rq_tenantId r \<and> inv_status x = ELIGIBLE" "tot = amount_sum xs"
    by blast
  have len: "length xs = length (rp_selectedInvoiceIds p)" using arg_cong [OF xs(1), of length] by simp
  from facts have ne: "xs \<noteq> []" using len by auto
  have look: "?cand (rp_selectedInvoiceIds p ! k) = Some (xs ! k)" if "k < length xs" for k
    using arg_cong [OF xs(1), of "\<lambda>l. l ! k"] that len by simp
  have "set xs \<subseteq> set (rq_invoices r)" "map inv_invoiceId xs = rp_selectedInvoiceIds p"
    using set_all_Some [OF look] len by (auto simp: in_set_conv_nth intro!: nth_equalityI)
  moreover have "inv_status ` set xs = {ELIGIBLE}" "inv_tenantId ` set xs = {rq_tenantId r}" using xs(3) ne by (auto simp: neq_Nil_conv)
  ultimately show ?thesis
    using facts xs(2,4) len ne
    by (intro exI [of _ xs]) (cases "rp_status p = PARTIAL_PAYMENT", auto simp: admissible_def selection_objective_def objective_def)
qed

theorem verifier_sound_witness:
  "\<exists>xs. set xs \<subseteq> set (rq_invoices sample_request) \<and> map inv_invoiceId xs = [''i3'', ''i1''] \<and> amount_sum xs = 1000"
proof -
  have "case verify sample_request sample_response of Inl _ \<Rightarrow> False | Inr rep \<Rightarrow> vr_passed rep" by code_simp
  then obtain rep where rep: "verify sample_request sample_response = Inr rep" "vr_passed rep" by (auto split: sum.splits)
  have chosen: "rp_status sample_response \<notin> {NO_FEASIBLE_MATCH, SOLVER_TIMEOUT, BLOCKED}"
    "rp_selectedInvoiceIds sample_response = [''i3'', ''i1'']" "rp_selectedTotalMinor sample_response = 1000"
    by code_simp+
  from verifier_sound [OF rep chosen(1)] chosen(2,3) show ?thesis by auto
qed

text \<open>
  An invoice is consumed by one payment at a time: once a payment has claimed it, no sequence of
  claims and releases by anyone else lets another payment claim it; such a claim fails and changes
  nothing, until the payment itself releases.
\<close>

theorem consumption_exclusive:
  assumes "cr_success (fst (claimInvoices now tenant pay invs m))" "tenant \<noteq> []" "pay \<noteq> []" "i \<in> set invs"
    and "\<forall>op \<in> set ops. \<not> releases_for pay op" "pay' \<noteq> pay" "pay' \<noteq> []" "i \<in> set invs'"
  shows "let m' = fold apply_op ops (snd (claimInvoices now tenant pay invs m))
    in \<not> cr_success (fst (claimInvoices now' tenant pay' invs' m')) \<and> snd (claimInvoices now' tenant pay' invs' m') = m'
       \<and> getInvoiceStatus tenant i m' = CONSUMED"
proof -
  let ?m' = "fold apply_op ops (snd (claimInvoices now tenant pay invs m))"
  have held: "held_by pay (alloc_key tenant i) ?m'" by (rule held_by_ops [OF claim_holds [OF assms(1-4)] assms(5)])
  then have "getInvoiceStatus tenant i ?m' = CONSUMED" by (auto simp: held_by_def getInvoiceStatus_def split: option.splits)
  with held_by_conflict [OF held assms(6,8,2,7)] show ?thesis by (simp add: Let_def)
qed

theorem consumption_exclusive_witness:
  "\<not> cr_success (fst (claimInvoices ''t3'' ''acme'' ''pay_2'' [''i2'', ''i1'']
      (apply_op (Release ''acme'' ''pay_3'' [''i1'']) (snd (claimInvoices ''t1'' ''acme'' ''pay_1'' [''i1''] Map.empty)))))"
proof -
  have "cr_success (fst (claimInvoices ''t1'' ''acme'' ''pay_1'' [''i1''] Map.empty))" by code_simp
  from consumption_exclusive [OF this, of "''i1''" "[Release ''acme'' ''pay_3'' [''i1'']]" "''pay_2''" "[''i2'', ''i1'']" "''t3''"]
  show ?thesis by (simp add: Let_def)
qed

text \<open>
  The key of an allocation joins tenant and invoice by a colon and is not injective: a claim of
  one tenant blocks another tenant whose id continues the first one's, on an invoice it never saw.
\<close>

theorem consumption_key_collision:
  "cr_conflictInvoiceId (fst (claimInvoices now ''acme:eu'' ''pay_2'' [''7'']
      (snd (claimInvoices now ''acme'' ''pay_1'' [''eu:7''] Map.empty)))) = Some ''7''"
  by (simp add: claimInvoices_def conflicting_def alloc_key_def)

end
