(* ===== verification/Lease_Queue.thy ===== *)
theory Lease_Queue
  imports Scale
begin

text \<open>
  The lease queue of the distributed reconciliation (\<open>InMemoryDistributedQueue\<close> of
  \<open>src/lib/reconciliation/distributed/queue.ts\<close>): messages with a status, leases with a
  visibility timeout, retries and dead letters. The two maps of the class hold the same message
  objects; here \<open>q_messages\<close> holds them and \<open>q_activeLeases\<close> only the keys, both in insertion
  order, which is the order in which the code iterates. A payload is a partition of the scalable path.
\<close>

section \<open>Messages, leases and the queue\<close>

type_synonym PartitionPayload = ScalePartition

record PartitionMessage =
  pm_messageId :: string
  pm_runId :: string
  pm_batchId :: string
  pm_partitionId :: string
  pm_bucketKey :: bucket_key
  pm_settlementCount :: nat
  pm_creditCount :: nat
  pm_payloadKey :: "string option"
  pm_payloadInline :: "PartitionPayload option"
  pm_enqueuedAt :: millis
  pm_attempt :: nat

record PartitionLease =
  pl_leaseId :: string
  pl_message :: PartitionMessage
  pl_workerId :: string
  pl_acquiredAt :: millis
  pl_expiresAt :: millis
  pl_token :: string

datatype MessageStatus = MPending | MRunning | MCompleted | MDeadLetter

record StoredMessage =
  sm_message :: PartitionMessage
  sm_status :: MessageStatus
  sm_leaseId :: "string option"
  sm_workerId :: "string option"
  sm_leaseExpiresAt :: "millis option"
  sm_retryCount :: nat
  sm_nextAvailableAt :: millis
  sm_lastError :: "string option"

record Queue =
  q_messages :: "(string \<times> StoredMessage) list"
  q_pendingQueue :: "string list"
  q_pendingReadIndex :: nat
  q_activeLeases :: "string list"
  q_leaseSequence :: nat
  q_maxRetries :: nat
  q_deadLetterCounter :: nat
  q_retryCounter :: nat
  q_completedCounter :: nat

definition new_queue :: "nat option \<Rightarrow> Queue" where
  "new_queue maxRetries = \<lparr>q_messages = [], q_pendingQueue = [], q_pendingReadIndex = 0, q_activeLeases = [],
     q_leaseSequence = 0, q_maxRetries = (case maxRetries of None \<Rightarrow> 3 | Some n \<Rightarrow> n),
     q_deadLetterCounter = 0, q_retryCounter = 0, q_completedCounter = 0\<rparr>"

definition item_of :: "Queue \<Rightarrow> string \<Rightarrow> StoredMessage option" where
  "item_of q mid = map_of (q_messages q) mid"

definition put_item :: "string \<Rightarrow> StoredMessage \<Rightarrow> Queue \<Rightarrow> Queue" where
  "put_item mid item q = q\<lparr>q_messages := AList.update mid item (q_messages q)\<rparr>"

section \<open>Enqueueing\<close>

definition enqueue_one :: "PartitionMessage \<Rightarrow> Queue \<times> nat \<Rightarrow> Queue \<times> nat" where
  "enqueue_one msg st =
     (let (q, added) = st
      in if item_of q (pm_messageId msg) = None
         then ((put_item (pm_messageId msg) \<lparr>sm_message = msg, sm_status = MPending, sm_leaseId = None, sm_workerId = None,
                   sm_leaseExpiresAt = None, sm_retryCount = pm_attempt msg, sm_nextAvailableAt = pm_enqueuedAt msg,
                   sm_lastError = None\<rparr> q)\<lparr>q_pendingQueue := q_pendingQueue q @ [pm_messageId msg]\<rparr>, added + 1)
         else (q, added))"

definition enqueueBatch :: "PartitionMessage list \<Rightarrow> Queue \<Rightarrow> Queue \<times> nat" where
  "enqueueBatch msgs q = fold enqueue_one msgs (q, 0)"

section \<open>Claiming\<close>

definition lease_id :: "nat \<Rightarrow> string \<Rightarrow> string" where
  "lease_id n workerId = ''lease_'' @ js_show_nat n @ ''_'' @ workerId"

definition make_lease :: "string \<Rightarrow> millis \<Rightarrow> millis \<Rightarrow> nat \<Rightarrow> PartitionMessage \<Rightarrow> nat \<Rightarrow> PartitionLease" where
  "make_lease workerId duration now n msg attempt =
     \<lparr>pl_leaseId = lease_id n workerId, pl_message = msg\<lparr>pm_attempt := attempt\<rparr>, pl_workerId = workerId,
      pl_acquiredAt = now, pl_expiresAt = now + duration, pl_token = lease_id n workerId @ '':'' @ workerId\<rparr>"

definition lease_item :: "string \<Rightarrow> millis \<Rightarrow> nat \<Rightarrow> StoredMessage \<Rightarrow> StoredMessage" where
  "lease_item workerId expiresAt n item =
     item\<lparr>sm_status := MRunning, sm_leaseId := Some (lease_id n workerId), sm_workerId := Some workerId,
          sm_leaseExpiresAt := Some expiresAt\<rparr>"

definition add_active :: "string \<Rightarrow> string list \<Rightarrow> string list" where
  "add_active mid ids = (if mid \<in> set ids then ids else ids @ [mid])"

text \<open>The index-based pop: the argument is the unread rest of \<open>pendingQueue\<close>.\<close>

fun claim_pending :: "string \<Rightarrow> nat \<Rightarrow> millis \<Rightarrow> millis \<Rightarrow> string list \<Rightarrow> Queue \<times> PartitionLease list \<Rightarrow> Queue \<times> PartitionLease list" where
  "claim_pending w maxLeases duration now [] (q, claimed) = (q, claimed)"
| "claim_pending w maxLeases duration now (mid # rest) (q, claimed) =
     (if length claimed < maxLeases
      then let q1 = q\<lparr>q_pendingReadIndex := q_pendingReadIndex q + 1\<rparr>
           in if mid = [] then (q1, claimed)
              else case item_of q1 mid of
                None \<Rightarrow> claim_pending w maxLeases duration now rest (q1, claimed)
              | Some item \<Rightarrow>
                  if sm_status item \<noteq> MPending \<or> sm_nextAvailableAt item > now
                  then claim_pending w maxLeases duration now rest (q1, claimed)
                  else let n = q_leaseSequence q1 + 1
                       in claim_pending w maxLeases duration now rest
                            ((put_item mid (lease_item w (now + duration) n item) q1)
                               \<lparr>q_leaseSequence := n, q_activeLeases := add_active mid (q_activeLeases q1)\<rparr>,
                             claimed @ [make_lease w duration now n (sm_message item) (sm_retryCount item)])
      else (q, claimed))"

definition compact :: "Queue \<Rightarrow> Queue" where
  "compact q =
     (if q_pendingReadIndex q > 20000 \<and> 2 * q_pendingReadIndex q \<ge> length (q_pendingQueue q)
      then q\<lparr>q_pendingQueue := drop (q_pendingReadIndex q) (q_pendingQueue q), q_pendingReadIndex := 0\<rparr>
      else q)"

definition lease_expired :: "millis \<Rightarrow> StoredMessage \<Rightarrow> bool" where
  "lease_expired now item = (sm_status item = MRunning \<and> (case sm_leaseExpiresAt item of None \<Rightarrow> 0 | Some t \<Rightarrow> t) \<le> now)"

fun claim_expired :: "string \<Rightarrow> nat \<Rightarrow> millis \<Rightarrow> millis \<Rightarrow> string list \<Rightarrow> Queue \<times> PartitionLease list \<Rightarrow> Queue \<times> PartitionLease list" where
  "claim_expired w maxLeases duration now [] (q, claimed) = (q, claimed)"
| "claim_expired w maxLeases duration now (mid # rest) (q, claimed) =
     (if length claimed \<ge> maxLeases then (q, claimed)
      else case item_of q mid of
        None \<Rightarrow> claim_expired w maxLeases duration now rest (q, claimed)
      | Some item \<Rightarrow>
          if lease_expired now item
          then let attempt = sm_retryCount item + 1
               in if attempt > q_maxRetries q
                  then claim_expired w maxLeases duration now rest
                         ((put_item mid (item\<lparr>sm_status := MDeadLetter\<rparr>) q)
                            \<lparr>q_deadLetterCounter := q_deadLetterCounter q + 1, q_activeLeases := removeAll mid (q_activeLeases q)\<rparr>,
                          claimed)
                  else let n = q_leaseSequence q + 1
                       in claim_expired w maxLeases duration now rest
                            ((put_item mid ((lease_item w (now + duration) n item)\<lparr>sm_retryCount := attempt\<rparr>) q)
                               \<lparr>q_leaseSequence := n, q_retryCounter := q_retryCounter q + 1\<rparr>,
                             claimed @ [make_lease w duration now n (sm_message item) attempt])
          else claim_expired w maxLeases duration now rest (q, claimed))"

definition claimLeases :: "string \<Rightarrow> nat \<Rightarrow> millis \<Rightarrow> millis \<Rightarrow> Queue \<Rightarrow> Queue \<times> PartitionLease list" where
  "claimLeases w maxLeases duration now q =
     (let (q1, claimed) = claim_pending w maxLeases duration now (drop (q_pendingReadIndex q) (q_pendingQueue q)) (q, []);
          q2 = compact q1
      in if length claimed < maxLeases \<and> length (q_activeLeases q2) > 0
         then claim_expired w maxLeases duration now (q_activeLeases q2) (q2, claimed)
         else (q2, claimed))"

section \<open>Renewing and answering leases\<close>

definition lease_message_id :: "PartitionLease \<Rightarrow> string" where
  "lease_message_id l = pm_messageId (pl_message l)"

text \<open>The renewed lease is the caller's object, written in place by the code.\<close>

definition renewLease :: "PartitionLease \<Rightarrow> millis \<Rightarrow> millis \<Rightarrow> Queue \<Rightarrow> bool \<times> PartitionLease \<times> Queue" where
  "renewLease lease extension now q =
     (case item_of q (lease_message_id lease) of
        None \<Rightarrow> (False, lease, q)
      | Some item \<Rightarrow>
          if sm_status item \<noteq> MRunning \<or> sm_leaseId item \<noteq> Some (pl_leaseId lease) then (False, lease, q)
          else (True, lease\<lparr>pl_expiresAt := now + extension\<rparr>,
                put_item (lease_message_id lease) (item\<lparr>sm_leaseExpiresAt := Some (now + extension)\<rparr>) q))"

definition drop_lease :: "StoredMessage \<Rightarrow> StoredMessage" where
  "drop_lease item = item\<lparr>sm_leaseId := None, sm_workerId := None, sm_leaseExpiresAt := None\<rparr>"

definition ackLease :: "PartitionLease \<Rightarrow> Queue \<Rightarrow> bool \<times> Queue" where
  "ackLease lease q =
     (case item_of q (lease_message_id lease) of
        None \<Rightarrow> (False, q)
      | Some item \<Rightarrow>
          if sm_status item = MCompleted then (True, q)
          else if sm_leaseId item \<noteq> Some (pl_leaseId lease) \<and> sm_status item = MRunning then (False, q)
          else (True, (put_item (lease_message_id lease)
                         ((drop_lease item)\<lparr>sm_status := MCompleted, sm_message := (sm_message item)\<lparr>pm_payloadInline := None\<rparr>\<rparr>) q)
                        \<lparr>q_activeLeases := removeAll (lease_message_id lease) (q_activeLeases q),
                         q_completedCounter := q_completedCounter q + 1\<rparr>))"

definition nackLease :: "PartitionLease \<Rightarrow> string \<Rightarrow> millis \<Rightarrow> millis \<Rightarrow> Queue \<Rightarrow> bool \<times> Queue" where
  "nackLease lease error backoff now q =
     (let mid = lease_message_id lease
      in case item_of q mid of
        None \<Rightarrow> (False, q)
      | Some item \<Rightarrow>
          if sm_status item = MCompleted then (True, q)
          else
            let item1 = (drop_lease item)\<lparr>sm_retryCount := sm_retryCount item + 1, sm_lastError := Some error\<rparr>;
                q1 = q\<lparr>q_retryCounter := q_retryCounter q + 1, q_activeLeases := removeAll mid (q_activeLeases q)\<rparr>
            in (True,
                if sm_retryCount item1 \<ge> q_maxRetries q
                then (put_item mid (item1\<lparr>sm_status := MDeadLetter\<rparr>) q1)\<lparr>q_deadLetterCounter := q_deadLetterCounter q + 1\<rparr>
                else (put_item mid (item1\<lparr>sm_status := MPending, sm_nextAvailableAt := now + backoff\<rparr>) q1)
                       \<lparr>q_pendingQueue := q_pendingQueue q @ [mid]\<rparr>))"

section \<open>Metrics and reset\<close>

record QueueMetrics =
  qm_pendingCount :: nat
  qm_runningLeases :: nat
  qm_completedCount :: nat
  qm_deadLetterCount :: nat
  qm_retryCount :: nat

definition count_status :: "MessageStatus \<Rightarrow> Queue \<Rightarrow> nat" where
  "count_status s q = length (filter (\<lambda>(mid, item). sm_status item = s) (q_messages q))"

definition getMetrics :: "Queue \<Rightarrow> QueueMetrics" where
  "getMetrics q = \<lparr>qm_pendingCount = count_status MPending q, qm_runningLeases = count_status MRunning q,
     qm_completedCount = count_status MCompleted q, qm_deadLetterCount = count_status MDeadLetter q,
     qm_retryCount = q_retryCounter q\<rparr>"

definition clear_queue :: "Queue \<Rightarrow> Queue" where
  "clear_queue q = q\<lparr>q_messages := [], q_pendingQueue := [], q_pendingReadIndex := 0, q_activeLeases := [],
     q_deadLetterCounter := 0, q_retryCounter := 0, q_completedCounter := 0\<rparr>"

end
