(* ===== verification/Lease_Queue_Correct.thy ===== *)
theory Lease_Queue_Correct
  imports Lease_Queue
begin

text \<open>
  Every reachable state of the lease queue, by rule induction over its operations: which leases are
  current, that a superseded lease is refused, and what becomes of a message whose backoff is polled too early.
\<close>

section \<open>Items of the queue\<close>

lemma item_of_put [simp]: "item_of (put_item mid item q) x = (if x = mid then Some item else item_of q x)"
  by (simp add: item_of_def put_item_def update_conv)

lemma item_of_fields [simp]:
  "item_of (q\<lparr>q_pendingQueue := a\<rparr>) = item_of q" "item_of (q\<lparr>q_pendingReadIndex := b\<rparr>) = item_of q"
  "item_of (q\<lparr>q_activeLeases := ids\<rparr>) = item_of q" "item_of (q\<lparr>q_leaseSequence := n\<rparr>) = item_of q"
  "item_of (q\<lparr>q_deadLetterCounter := n\<rparr>) = item_of q" "item_of (q\<lparr>q_retryCounter := n\<rparr>) = item_of q"
  "item_of (q\<lparr>q_completedCounter := n\<rparr>) = item_of q"
  by (auto simp: item_of_def)

lemma put_item_fields [simp]:
  "q_pendingQueue (put_item mid item q) = q_pendingQueue q" "q_pendingReadIndex (put_item mid item q) = q_pendingReadIndex q"
  "q_activeLeases (put_item mid item q) = q_activeLeases q" "q_leaseSequence (put_item mid item q) = q_leaseSequence q"
  "q_maxRetries (put_item mid item q) = q_maxRetries q"
  "q_messages (put_item mid item q) = AList.update mid item (q_messages q)"
  by (simp_all add: put_item_def)

lemma lease_fields [simp]:
  "sm_status (lease_item w e n item) = MRunning" "sm_leaseId (lease_item w e n item) = Some (lease_id n w)"
  "sm_message (lease_item w e n item) = sm_message item" "sm_leaseExpiresAt (lease_item w e n item) = Some e"
  "sm_status (drop_lease item) = sm_status item" "sm_message (drop_lease item) = sm_message item"
  "sm_leaseId (drop_lease item) = None" "sm_nextAvailableAt (drop_lease item) = sm_nextAvailableAt item"
  "pl_leaseId (make_lease w d now n msg attempt) = lease_id n w"
  "lease_message_id (make_lease w d now n msg attempt) = pm_messageId msg"
  by (simp_all add: lease_item_def drop_lease_def make_lease_def lease_message_id_def)

lemma set_add_active [simp]: "set (add_active mid ids) = insert mid (set ids)" "distinct (add_active mid ids) = distinct ids"
  by (auto simp: add_active_def)

lemma compact_fields [simp]:
  "item_of (compact q) = item_of q" "q_activeLeases (compact q) = q_activeLeases q"
  "q_leaseSequence (compact q) = q_leaseSequence q" "q_messages (compact q) = q_messages q"
  "q_maxRetries (compact q) = q_maxRetries q"
  "drop (q_pendingReadIndex (compact q)) (q_pendingQueue (compact q)) = drop (q_pendingReadIndex q) (q_pendingQueue q)"
  by (simp_all add: compact_def)

lemma lease_id_inject: "lease_id m v = lease_id n w \<Longrightarrow> m = n"
  using js_show_nat_split [of m "CHR ''_''" v n w] by (simp add: lease_id_def)

section \<open>Runs of the queue\<close>

datatype QueueOp =
    OpEnqueue "PartitionMessage list"
  | OpClaim string nat millis millis
  | OpRenew PartitionLease millis millis
  | OpAck PartitionLease
  | OpNack PartitionLease string millis millis
  | OpClear

text \<open>The state of a run is the queue and the leases handed out so far, in order.\<close>

fun apply_op :: "QueueOp \<Rightarrow> Queue \<times> PartitionLease list \<Rightarrow> Queue \<times> PartitionLease list" where
  "apply_op (OpEnqueue msgs) (q, issued) = (fst (enqueueBatch msgs q), issued)"
| "apply_op (OpClaim w k duration now) (q, issued) = (let (q1, ls) = claimLeases w k duration now q in (q1, issued @ ls))"
| "apply_op (OpRenew l extension now) (q, issued) = (snd (snd (renewLease l extension now q)), issued)"
| "apply_op (OpAck l) (q, issued) = (snd (ackLease l q), issued)"
| "apply_op (OpNack l err backoff now) (q, issued) = (snd (nackLease l err backoff now q), issued)"
| "apply_op OpClear (q, issued) = (clear_queue q, issued)"

inductive queue_run :: "nat option \<Rightarrow> Queue \<times> PartitionLease list \<Rightarrow> bool" for maxRetries where
  queue_start: "queue_run maxRetries (new_queue maxRetries, [])"
| queue_step: "queue_run maxRetries st \<Longrightarrow> queue_run maxRetries (apply_op op st)"

definition last_lease :: "PartitionLease list \<Rightarrow> string \<Rightarrow> PartitionLease option" where
  "last_lease issued mid = find (\<lambda>l. lease_message_id l = mid) (rev issued)"

lemma last_lease_snoc [simp]:
  "last_lease (issued @ [l]) mid = (if lease_message_id l = mid then Some l else last_lease issued mid)"
  by (simp add: last_lease_def)

lemma last_lease_issued: "last_lease issued mid = Some l \<Longrightarrow> l \<in> set issued \<and> lease_message_id l = mid"
  unfolding last_lease_def by (metis (mono_tags, lifting) find_Some_iff nth_mem set_rev)

section \<open>The invariant\<close>

definition running :: "Queue \<Rightarrow> string \<Rightarrow> bool" where
  "running q mid = (case item_of q mid of None \<Rightarrow> False | Some item \<Rightarrow> sm_status item = MRunning)"

definition leases_current :: "Queue \<Rightarrow> PartitionLease list \<Rightarrow> bool" where
  "leases_current q issued =
     ((\<forall>l \<in> set issued. \<exists>n w. pl_leaseId l = lease_id n w \<and> n \<le> q_leaseSequence q)
      \<and> distinct (map pl_leaseId issued)
      \<and> (\<forall>mid item. item_of q mid = Some item \<longrightarrow> pm_messageId (sm_message item) = mid
           \<and> (sm_status item = MRunning \<longrightarrow>
                (\<exists>l. last_lease issued mid = Some l \<and> sm_leaseId item = Some (pl_leaseId l)))))"

definition active_ok :: "Queue \<Rightarrow> bool" where
  "active_ok q = (distinct (q_activeLeases q) \<and> set (q_activeLeases q) = {mid. running q mid} \<and> distinct (map fst (q_messages q)))"

lemma running_put [simp]: "running (put_item mid item q) x = (if x = mid then sm_status item = MRunning else running q x)"
  by (simp add: running_def)

lemma running_fields [simp]:
  "running (q\<lparr>q_pendingQueue := a\<rparr>) = running q" "running (q\<lparr>q_pendingReadIndex := b\<rparr>) = running q"
  "running (q\<lparr>q_activeLeases := ids\<rparr>) = running q" "running (q\<lparr>q_leaseSequence := n\<rparr>) = running q"
  "running (q\<lparr>q_deadLetterCounter := n\<rparr>) = running q" "running (q\<lparr>q_retryCounter := n\<rparr>) = running q"
  "running (q\<lparr>q_completedCounter := n\<rparr>) = running q" "running (compact q) = running q"
  by (simp_all add: running_def fun_eq_iff)

lemma fresh_lease_id:
  assumes "leases_current q issued"
  shows "lease_id (Suc (q_leaseSequence q)) w \<notin> pl_leaseId ` set issued"
proof
  assume "lease_id (Suc (q_leaseSequence q)) w \<in> pl_leaseId ` set issued"
  then obtain l where l: "l \<in> set issued" "lease_id (Suc (q_leaseSequence q)) w = pl_leaseId l" by auto
  with assms obtain n v where "pl_leaseId l = lease_id n v" "n \<le> q_leaseSequence q" by (auto simp: leases_current_def)
  with l(2) show False using lease_id_inject [of "Suc (q_leaseSequence q)" w n v] by simp
qed

text \<open>Handing out one lease: the item and the sequence number change together.\<close>

lemma lease_one:
  assumes "leases_current q issued" "item_of q mid = Some item"
    and "item' = lease_item w e n item \<or> item' = (lease_item w e n item)\<lparr>sm_retryCount := attempt\<rparr>"
    and "n = q_leaseSequence q + 1" "q_leaseSequence q' = n" "item_of q' = (item_of q)(mid \<mapsto> item')"
  shows "leases_current q' (issued @ [make_lease w d now n (sm_message item) attempt'])"
proof -
  have "lease_id n w \<notin> pl_leaseId ` set issued" using fresh_lease_id [OF assms(1)] assms(4) by simp
  moreover have "pm_messageId (sm_message item) = mid" using assms(1,2) by (auto simp: leases_current_def)
  moreover have "sm_message item' = sm_message item" "sm_leaseId item' = Some (lease_id n w)" using assms(3) by auto
  moreover have "\<forall>l \<in> set issued. \<exists>n w. pl_leaseId l = lease_id n w \<and> n \<le> Suc (q_leaseSequence q)"
    using assms(1) unfolding leases_current_def by (meson le_SucI)
  ultimately show ?thesis using assms(1,4,5,6) unfolding leases_current_def by auto
qed

text \<open>Changing an item without handing out a lease.\<close>

lemma leases_current_cong:
  assumes "leases_current q issued" "item_of q' = item_of q" "q_leaseSequence q' = q_leaseSequence q"
  shows "leases_current q' issued"
  using assms by (simp add: leases_current_def)

lemma keep_leases:
  assumes "leases_current q issued" "item_of q' = (item_of q)(mid \<mapsto> item')" "q_leaseSequence q' = q_leaseSequence q"
    and "pm_messageId (sm_message item') = mid"
    and "sm_status item' = MRunning \<Longrightarrow> item_of q mid = Some item \<and> sm_status item = MRunning \<and> sm_leaseId item' = sm_leaseId item"
  shows "leases_current q' issued"
  using assms unfolding leases_current_def by (auto split: if_splits)

lemma claim_pending_current:
  "leases_current q (issued @ claimed) \<Longrightarrow> claim_pending w k d now ids (q, claimed) = (q', claimed')
     \<Longrightarrow> leases_current q' (issued @ claimed')"
proof (induction ids arbitrary: q claimed)
  case (Cons mid ids)
  let ?q1 = "q\<lparr>q_pendingReadIndex := q_pendingReadIndex q + 1\<rparr>"
  have q1: "leases_current ?q1 (issued @ claimed)" by (rule leases_current_cong [OF Cons.prems(1)]) simp_all
  show ?case
  proof (cases "length claimed < k \<and> mid \<noteq> [] \<and> (\<exists>item. item_of q mid = Some item \<and> sm_status item = MPending \<and> sm_nextAvailableAt item \<le> now)")
    case True
    then obtain item where item: "item_of q mid = Some item" "sm_status item = MPending" "sm_nextAvailableAt item \<le> now" by auto
    show ?thesis
    proof (rule Cons.IH)
      show "leases_current ((put_item mid (lease_item w (now + d) (q_leaseSequence q + 1) item) ?q1)
          \<lparr>q_leaseSequence := q_leaseSequence q + 1, q_activeLeases := add_active mid (q_activeLeases q)\<rparr>)
          (issued @ claimed @ [make_lease w d now (q_leaseSequence q + 1) (sm_message item) (sm_retryCount item)])"
        unfolding append_assoc [symmetric] by (rule lease_one [OF q1]) (use item in \<open>auto simp: fun_eq_iff\<close>)
    qed (use Cons.prems(2) True item in \<open>simp add: Let_def\<close>)
  next
    case False
    with Cons.prems q1 Cons.IH [OF q1] show ?thesis by (auto simp: Let_def not_less split: if_splits option.splits)
  qed
qed simp

lemma claim_expired_current:
  "leases_current q (issued @ claimed) \<Longrightarrow> claim_expired w k d now ids (q, claimed) = (q', claimed')
     \<Longrightarrow> leases_current q' (issued @ claimed')"
proof (induction ids arbitrary: q claimed)
  case (Cons mid ids)
  show ?case
  proof (cases "length claimed < k \<and> (\<exists>item. item_of q mid = Some item \<and> lease_expired now item)")
    case True
    then obtain item where item: "item_of q mid = Some item" "lease_expired now item" by auto
    show ?thesis
    proof (cases "sm_retryCount item + 1 > q_maxRetries q")
      case dead: True
      show ?thesis
      proof (rule Cons.IH)
        show "leases_current ((put_item mid (item\<lparr>sm_status := MDeadLetter\<rparr>) q)
            \<lparr>q_deadLetterCounter := q_deadLetterCounter q + 1, q_activeLeases := removeAll mid (q_activeLeases q)\<rparr>) (issued @ claimed)"
          by (rule keep_leases [OF Cons.prems(1), where mid = mid and item' = "item\<lparr>sm_status := MDeadLetter\<rparr>"])
            (use item Cons.prems(1) in \<open>auto simp: fun_eq_iff leases_current_def\<close>)
      qed (use Cons.prems(2) True item dead in simp)
    next
      case again: False
      show ?thesis
      proof (rule Cons.IH)
        show "leases_current ((put_item mid ((lease_item w (now + d) (q_leaseSequence q + 1) item)\<lparr>sm_retryCount := sm_retryCount item + 1\<rparr>) q)
            \<lparr>q_leaseSequence := q_leaseSequence q + 1, q_retryCounter := q_retryCounter q + 1\<rparr>)
            (issued @ claimed @ [make_lease w d now (q_leaseSequence q + 1) (sm_message item) (sm_retryCount item + 1)])"
          unfolding append_assoc [symmetric]
          by (rule lease_one [OF Cons.prems(1) item(1), where e = "now + d" and attempt = "sm_retryCount item + 1"
                and item' = "(lease_item w (now + d) (q_leaseSequence q + 1) item)\<lparr>sm_retryCount := sm_retryCount item + 1\<rparr>"])
            (auto simp: fun_eq_iff)
      qed (use Cons.prems(2) True item again in \<open>simp add: Let_def\<close>)
    qed
  next
    case False
    with Cons.prems Cons.IH [OF Cons.prems(1)] show ?thesis by (auto simp: not_less split: if_splits option.splits)
  qed
qed simp

lemma claimLeases_current:
  assumes "leases_current q issued" "claimLeases w k d now q = (q', ls)"
  shows "leases_current q' (issued @ ls)"
proof -
  obtain q1 claimed where c: "claim_pending w k d now (drop (q_pendingReadIndex q) (q_pendingQueue q)) (q, []) = (q1, claimed)" by fastforce
  have "leases_current q1 (issued @ claimed)" by (rule claim_pending_current [OF _ c]) (use assms(1) in simp)
  then have "leases_current (compact q1) (issued @ claimed)" by (rule leases_current_cong) simp_all
  with assms(2) c show ?thesis
    by (auto simp: claimLeases_def Let_def split: if_splits prod.splits dest: claim_expired_current [of _ issued claimed])
qed

lemma enqueue_current:
  "leases_current q issued \<Longrightarrow> leases_current (fst (fold enqueue_one msgs (q, n))) issued"
proof (induction msgs arbitrary: q n)
  case (Cons msg msgs)
  obtain q1 n1 where e: "enqueue_one msg (q, n) = (q1, n1)" by fastforce
  have "leases_current q1 issued"
  proof (cases "item_of q (pm_messageId msg)")
    case None
    let ?item = "\<lparr>sm_message = msg, sm_status = MPending, sm_leaseId = None, sm_workerId = None,
                   sm_leaseExpiresAt = None, sm_retryCount = pm_attempt msg, sm_nextAvailableAt = pm_enqueuedAt msg,
                   sm_lastError = None\<rparr>"
    show ?thesis
      by (rule keep_leases [OF Cons.prems, where mid = "pm_messageId msg" and item' = ?item])
        (use e None in \<open>auto simp: enqueue_one_def fun_eq_iff\<close>)
  qed (use e Cons.prems in \<open>simp add: enqueue_one_def\<close>)
  from Cons.IH [OF this] show ?case by (simp add: e)
qed simp

lemma renew_current: "leases_current q issued \<Longrightarrow> leases_current (snd (snd (renewLease l ext now q))) issued"
proof (cases "fst (renewLease l ext now q)")
  case True
  then obtain item where item: "item_of q (lease_message_id l) = Some item" "sm_status item = MRunning"
    by (auto simp: renewLease_def split: option.splits if_splits)
  assume a: "leases_current q issued"
  show ?thesis
    by (rule keep_leases [OF a, where mid = "lease_message_id l" and item = item
          and item' = "item\<lparr>sm_leaseExpiresAt := Some (now + ext)\<rparr>"])
      (use item a True in \<open>auto simp: renewLease_def leases_current_def fun_eq_iff split: if_splits\<close>)
qed (auto simp: renewLease_def split: option.splits if_splits)

lemma ack_current: "leases_current q issued \<Longrightarrow> leases_current (snd (ackLease l q)) issued"
  by (cases "item_of q (lease_message_id l)") (auto simp: ackLease_def leases_current_def)

lemma nack_current: "leases_current q issued \<Longrightarrow> leases_current (snd (nackLease l err backoff now q)) issued"
  by (cases "item_of q (lease_message_id l)") (auto simp: nackLease_def Let_def leases_current_def)

lemma clear_current: "leases_current q issued \<Longrightarrow> leases_current (clear_queue q) issued"
  by (simp add: clear_queue_def leases_current_def item_of_def)

lemma reachable_current: "queue_run maxRetries st \<Longrightarrow> leases_current (fst st) (snd st)"
proof (induction rule: queue_run.induct)
  case queue_start
  show ?case by (simp add: leases_current_def new_queue_def item_of_def)
next
  case (queue_step st op)
  then show ?case
    by (cases st; cases op)
      (auto simp: enqueueBatch_def enqueue_current renew_current ack_current nack_current clear_current
        intro: claimLeases_current split: prod.splits)
qed

section \<open>Active leases\<close>

lemma active_cong:
  assumes "active_ok q" "q_messages q' = q_messages q" "q_activeLeases q' = q_activeLeases q"
  shows "active_ok q'"
  using assms by (simp add: active_ok_def running_def item_of_def)

text \<open>An operation on one message keeps the active leases in step when it enters or leaves them as it starts or stops running.\<close>

lemma active_put:
  assumes "active_ok q" "q_messages q' = AList.update mid item (q_messages q)"
    and "q_activeLeases q' = (if sm_status item = MRunning then add_active mid (q_activeLeases q) else removeAll mid (q_activeLeases q))"
  shows "active_ok q'"
proof -
  have "item_of q' = (item_of q)(mid \<mapsto> item)" by (simp add: item_of_def assms(2) update_conv fun_eq_iff)
  then have "running q' = (running q)(mid := sm_status item = MRunning)" by (auto simp: running_def fun_eq_iff)
  with assms show ?thesis by (auto simp: active_ok_def distinct_update distinct_removeAll split: if_splits)
qed

lemma claim_pending_active:
  "active_ok q \<Longrightarrow> active_ok (fst (claim_pending w k d now ids (q, claimed)))"
proof (induction ids arbitrary: q claimed)
  case (Cons mid ids)
  let ?q1 = "q\<lparr>q_pendingReadIndex := q_pendingReadIndex q + 1\<rparr>"
  have q1: "active_ok ?q1" by (rule active_cong [OF Cons.prems]) simp_all
  show ?case
  proof (cases "item_of q mid")
    case (Some item)
    let ?it = "lease_item w (now + d) (Suc (q_leaseSequence q)) item"
    have "active_ok ((put_item mid ?it ?q1)\<lparr>q_leaseSequence := Suc (q_leaseSequence q), q_activeLeases := add_active mid (q_activeLeases q)\<rparr>)"
      by (rule active_put [OF q1, where mid = mid and item = ?it]) simp_all
    from Cons.IH [OF this] Cons.IH [OF q1] q1 Cons.prems Some show ?thesis by (simp add: Let_def)
  qed (use Cons.IH [OF q1] q1 Cons.prems in \<open>simp add: Let_def\<close>)
qed simp

lemma claim_expired_active:
  "active_ok q \<Longrightarrow> active_ok (fst (claim_expired w k d now ids (q, claimed)))"
proof (induction ids arbitrary: q claimed)
  case (Cons mid ids)
  show ?case
  proof (cases "item_of q mid")
    case (Some item)
    let ?dead = "item\<lparr>sm_status := MDeadLetter\<rparr>"
    let ?it = "(lease_item w (now + d) (Suc (q_leaseSequence q)) item)\<lparr>sm_retryCount := Suc (sm_retryCount item)\<rparr>"
    have "active_ok ((put_item mid ?dead q)\<lparr>q_deadLetterCounter := Suc (q_deadLetterCounter q), q_activeLeases := removeAll mid (q_activeLeases q)\<rparr>)"
      by (rule active_put [OF Cons.prems, where mid = mid and item = ?dead]) simp_all
    note dead = Cons.IH [OF this]
    have "lease_expired now item \<Longrightarrow> mid \<in> set (q_activeLeases q)"
      using Cons.prems Some by (simp add: active_ok_def running_def lease_expired_def)
    then have "lease_expired now item \<Longrightarrow>
        active_ok ((put_item mid ?it q)\<lparr>q_leaseSequence := Suc (q_leaseSequence q), q_retryCounter := Suc (q_retryCounter q)\<rparr>)"
      by (intro active_put [OF Cons.prems, where mid = mid and item = ?it]) (simp_all add: add_active_def)
    note again = Cons.IH [OF this]
    from dead again Cons.IH [OF Cons.prems] Cons.prems Some show ?thesis by (simp add: Let_def)
  qed (use Cons.IH [OF Cons.prems] Cons.prems in simp)
qed simp

lemma claimLeases_active:
  assumes "active_ok q" shows "active_ok (fst (claimLeases w k d now q))"
proof -
  obtain q1 claimed where c: "claim_pending w k d now (drop (q_pendingReadIndex q) (q_pendingQueue q)) (q, []) = (q1, claimed)" by fastforce
  have "active_ok (compact q1)"
    using claim_pending_active [OF assms, of w k d now "drop (q_pendingReadIndex q) (q_pendingQueue q)" "[]"] c
    by (intro active_cong [of q1 "compact q1"]) simp_all
  with c claim_expired_active [OF this] show ?thesis by (simp add: claimLeases_def Let_def)
qed

lemma enqueue_active:
  "active_ok q \<Longrightarrow> active_ok (fst (fold enqueue_one msgs (q, n)))"
proof (induction msgs arbitrary: q n)
  case (Cons msg msgs)
  have "active_ok (fst (enqueue_one msg (q, n)))"
  proof (cases "item_of q (pm_messageId msg)")
    case None
    then have "removeAll (pm_messageId msg) (q_activeLeases q) = q_activeLeases q"
      using Cons.prems by (intro removeAll_id) (simp add: active_ok_def running_def)
    with None show ?thesis
      by (simp add: enqueue_one_def)
        (rule active_put [OF Cons.prems, where mid = "pm_messageId msg"
            and item = "\<lparr>sm_message = msg, sm_status = MPending, sm_leaseId = None, sm_workerId = None,
                   sm_leaseExpiresAt = None, sm_retryCount = pm_attempt msg, sm_nextAvailableAt = pm_enqueuedAt msg,
                   sm_lastError = None\<rparr>"], simp_all)
  qed (use Cons.prems in \<open>simp add: enqueue_one_def\<close>)
  from Cons.IH [OF this, of "snd (enqueue_one msg (q, n))"] show ?case by simp
qed simp

lemma renew_active:
  assumes "active_ok q" shows "active_ok (snd (snd (renewLease l ext now q)))"
proof (cases "fst (renewLease l ext now q)")
  case True
  then obtain item where item: "item_of q (lease_message_id l) = Some item" "sm_status item = MRunning"
    by (auto simp: renewLease_def split: option.splits if_splits)
  then have "lease_message_id l \<in> set (q_activeLeases q)" using assms by (simp add: active_ok_def running_def)
  with item True show ?thesis
    by (intro active_put [OF assms, where mid = "lease_message_id l" and item = "item\<lparr>sm_leaseExpiresAt := Some (now + ext)\<rparr>"])
      (auto simp: renewLease_def add_active_def split: if_splits)
qed (use assms in \<open>auto simp: renewLease_def split: option.splits if_splits\<close>)

lemma ack_active:
  assumes "active_ok q" shows "active_ok (snd (ackLease l q))"
proof (cases "item_of q (lease_message_id l)")
  case (Some item)
  let ?it = "(drop_lease item)\<lparr>sm_status := MCompleted, sm_message := (sm_message item)\<lparr>pm_payloadInline := None\<rparr>\<rparr>"
  have "active_ok ((put_item (lease_message_id l) ?it q)\<lparr>q_activeLeases := removeAll (lease_message_id l) (q_activeLeases q),
      q_completedCounter := n\<rparr>)" for n
    by (rule active_put [OF assms, where mid = "lease_message_id l" and item = ?it]) simp_all
  with Some assms show ?thesis by (auto simp: ackLease_def)
qed (use assms in \<open>simp add: ackLease_def\<close>)

lemma nack_active:
  assumes "active_ok q" shows "active_ok (snd (nackLease l err backoff now q))"
proof -
  have put: "active_ok q'" if "q_messages q' = AList.update (lease_message_id l) item (q_messages q)" "sm_status item \<noteq> MRunning"
    "q_activeLeases q' = removeAll (lease_message_id l) (q_activeLeases q)" for q' item
    by (rule active_put [OF assms that(1)]) (use that in auto)
  show ?thesis
    by (cases "item_of q (lease_message_id l)") (auto simp: nackLease_def Let_def assms intro!: put)
qed

lemma clear_active: "active_ok (clear_queue q)"
  by (simp add: active_ok_def clear_queue_def running_def item_of_def)

lemma reachable_active: "queue_run maxRetries st \<Longrightarrow> active_ok (fst st)"
proof (induction rule: queue_run.induct)
  case queue_start
  show ?case by (simp add: active_ok_def new_queue_def running_def item_of_def)
next
  case (queue_step st op)
  then have "active_ok (fst st)" by simp
  then show ?case
    by (cases st; cases op)
      (simp_all add: enqueueBatch_def enqueue_active renew_active ack_active nack_active clear_active
        claimLeases_active case_prod_beta Let_def)
qed

lemma active_length:
  assumes "active_ok q" shows "length (q_activeLeases q) = count_status MRunning q"
proof -
  from assms have d: "distinct (map fst (q_messages q))" by (simp add: active_ok_def)
  let ?r = "filter (\<lambda>(mid, item). sm_status item = MRunning) (q_messages q)"
  have "set (q_activeLeases q) = set (map fst ?r)"
  proof (rule set_eqI)
    fix mid
    have "mid \<in> set (map fst ?r) \<longleftrightarrow> (\<exists>item. item_of q mid = Some item \<and> sm_status item = MRunning)"
      using d by (force simp: item_of_def)
    also have "\<dots> \<longleftrightarrow> mid \<in> set (q_activeLeases q)"
      using assms by (auto simp: active_ok_def running_def split: option.splits)
    finally show "mid \<in> set (q_activeLeases q) \<longleftrightarrow> mid \<in> set (map fst ?r)" ..
  qed
  moreover have "distinct (map fst ?r)" using d by (simp add: distinct_map_filter)
  ultimately show ?thesis
    using assms by (metis active_ok_def count_status_def distinct_card length_map)
qed

lemma statuses_partition:
  "count_status MPending q + count_status MRunning q + count_status MCompleted q + count_status MDeadLetter q = length (q_messages q)"
proof -
  have "length (filter (\<lambda>(mid, item). sm_status item = MPending) xs) + length (filter (\<lambda>(mid, item). sm_status item = MRunning) xs)
     + length (filter (\<lambda>(mid, item). sm_status item = MCompleted) xs) + length (filter (\<lambda>(mid, item). sm_status item = MDeadLetter) xs)
     = length xs" for xs :: "(string \<times> StoredMessage) list"
  proof (induction xs)
    case (Cons x xs)
    then show ?case by (cases "sm_status (snd x)") (auto simp: case_prod_beta)
  qed simp
  then show ?thesis by (simp add: count_status_def)
qed

section \<open>Messages the queue forgets\<close>

text \<open>A message that is pending but no longer ahead of the read index: the pop has passed it.\<close>

definition forgotten :: "Queue \<Rightarrow> string \<Rightarrow> bool" where
  "forgotten q mid =
     ((case item_of q mid of None \<Rightarrow> False | Some item \<Rightarrow> sm_status item = MPending)
      \<and> mid \<notin> set (drop (q_pendingReadIndex q) (q_pendingQueue q)))"

definition answers :: "string \<Rightarrow> QueueOp \<Rightarrow> bool" where
  "answers mid op = (case op of OpAck l \<Rightarrow> lease_message_id l = mid | OpNack l _ _ _ \<Rightarrow> lease_message_id l = mid
     | OpClear \<Rightarrow> True | _ \<Rightarrow> False)"

lemma claim_pending_queue:
  "q_pendingQueue (fst (claim_pending w k d now ids (q, claimed))) = q_pendingQueue q
     \<and> q_pendingReadIndex q \<le> q_pendingReadIndex (fst (claim_pending w k d now ids (q, claimed)))"
proof (induction ids arbitrary: q claimed)
  case (Cons mid ids)
  note IH = Cons.IH [THEN conjunct1] Cons.IH [THEN conjunct2, THEN order_trans [rotated]]
  show ?case by (auto simp: Let_def IH(1) split: option.splits intro!: IH(2))
qed simp

lemma claim_pending_other:
  "mid \<notin> set ids \<or> (\<exists>item. item_of q mid = Some item \<and> now < sm_nextAvailableAt item)
     \<Longrightarrow> (\<forall>x item. item_of q x = Some item \<longrightarrow> pm_messageId (sm_message item) = x)
     \<Longrightarrow> claim_pending w k d now ids (q, claimed) = (q', claimed')
     \<Longrightarrow> item_of q' mid = item_of q mid \<and> (\<exists>ls. claimed' = claimed @ ls \<and> mid \<notin> lease_message_id ` set ls)"
proof (induction ids arbitrary: q claimed)
  case (Cons x ids)
  show ?case
  proof (cases "length claimed < k \<and> x \<noteq> [] \<and> (\<exists>item. item_of q x = Some item \<and> sm_status item = MPending \<and> sm_nextAvailableAt item \<le> now)")
    case True
    then obtain item where item: "item_of q x = Some item" "sm_status item = MPending" "sm_nextAvailableAt item \<le> now" by auto
    then have x: "x \<noteq> mid" using Cons.prems(1) by auto
    let ?q = "(put_item x (lease_item w (now + d) (q_leaseSequence q + 1) item) (q\<lparr>q_pendingReadIndex := q_pendingReadIndex q + 1\<rparr>))
        \<lparr>q_leaseSequence := q_leaseSequence q + 1, q_activeLeases := add_active x (q_activeLeases q)\<rparr>"
    let ?l = "make_lease w d now (q_leaseSequence q + 1) (sm_message item) (sm_retryCount item)"
    have l: "lease_message_id ?l = x" using Cons.prems(2) item by simp
    have "item_of q' mid = item_of ?q mid \<and> (\<exists>ls. claimed' = (claimed @ [?l]) @ ls \<and> mid \<notin> lease_message_id ` set ls)"
      by (rule Cons.IH) (use Cons.prems x True item in \<open>auto simp: Let_def\<close>)
    then obtain ls where "item_of q' mid = item_of q mid" "claimed' = claimed @ (?l # ls)" "mid \<notin> lease_message_id ` set (?l # ls)"
      using x l by auto
    then show ?thesis by blast
  next
    case False
    let ?q = "q\<lparr>q_pendingReadIndex := q_pendingReadIndex q + 1\<rparr>"
    have "claim_pending w k d now ids (?q, claimed) = (q', claimed')
        \<Longrightarrow> item_of q' mid = item_of q mid \<and> (\<exists>ls. claimed' = claimed @ ls \<and> mid \<notin> lease_message_id ` set ls)"
      using Cons.IH [of ?q claimed] Cons.prems(1,2) by auto
    with False Cons.prems(3) show ?thesis by (auto simp: Let_def not_less split: if_splits option.splits)
  qed
qed simp

lemma claim_expired_other:
  "\<not> running q mid \<Longrightarrow> (\<forall>x item. item_of q x = Some item \<longrightarrow> pm_messageId (sm_message item) = x)
     \<Longrightarrow> claim_expired w k d now ids (q, claimed) = (q', claimed')
     \<Longrightarrow> item_of q' mid = item_of q mid \<and> q_pendingQueue q' = q_pendingQueue q \<and> q_pendingReadIndex q' = q_pendingReadIndex q
       \<and> (\<exists>ls. claimed' = claimed @ ls \<and> mid \<notin> lease_message_id ` set ls)"
proof (induction ids arbitrary: q claimed)
  case (Cons x ids)
  show ?case
  proof (cases "length claimed < k \<and> (\<exists>item. item_of q x = Some item \<and> lease_expired now item)")
    case True
    then obtain item where item: "item_of q x = Some item" "lease_expired now item" by auto
    then have x: "x \<noteq> mid" using Cons.prems(1) by (auto simp: running_def lease_expired_def)
    show ?thesis
    proof (cases "sm_retryCount item + 1 > q_maxRetries q")
      case dead: True
      let ?q = "(put_item x (item\<lparr>sm_status := MDeadLetter\<rparr>) q)
          \<lparr>q_deadLetterCounter := q_deadLetterCounter q + 1, q_activeLeases := removeAll x (q_activeLeases q)\<rparr>"
      have "item_of q' mid = item_of ?q mid \<and> q_pendingQueue q' = q_pendingQueue ?q \<and> q_pendingReadIndex q' = q_pendingReadIndex ?q
          \<and> (\<exists>ls. claimed' = claimed @ ls \<and> mid \<notin> lease_message_id ` set ls)"
        by (rule Cons.IH) (use Cons.prems x True item dead in \<open>auto simp: Let_def\<close>)
      then show ?thesis using x by simp
    next
      case again: False
      let ?q = "(put_item x ((lease_item w (now + d) (q_leaseSequence q + 1) item)\<lparr>sm_retryCount := sm_retryCount item + 1\<rparr>) q)
          \<lparr>q_leaseSequence := q_leaseSequence q + 1, q_retryCounter := q_retryCounter q + 1\<rparr>"
      let ?l = "make_lease w d now (q_leaseSequence q + 1) (sm_message item) (sm_retryCount item + 1)"
      have l: "lease_message_id ?l = x" using Cons.prems(2) item by simp
      have "item_of q' mid = item_of ?q mid \<and> q_pendingQueue q' = q_pendingQueue ?q \<and> q_pendingReadIndex q' = q_pendingReadIndex ?q
          \<and> (\<exists>ls. claimed' = (claimed @ [?l]) @ ls \<and> mid \<notin> lease_message_id ` set ls)"
        by (rule Cons.IH) (use Cons.prems x True item again in \<open>auto simp: Let_def\<close>)
      then obtain ls where "item_of q' mid = item_of q mid" "q_pendingQueue q' = q_pendingQueue q"
        "q_pendingReadIndex q' = q_pendingReadIndex q" "claimed' = claimed @ (?l # ls)" "mid \<notin> lease_message_id ` set (?l # ls)"
        using x l by auto
      then show ?thesis by blast
    qed
  next
    case False
    then have "length claimed \<ge> k \<or> claim_expired w k d now ids (q, claimed) = (q', claimed')"
      using Cons.prems(3) by (auto split: if_splits option.splits)
    with Cons.IH [OF Cons.prems(1,2)] Cons.prems(3) show ?thesis by (auto split: if_splits)
  qed
qed simp

lemma keys_consistent: "leases_current q issued \<Longrightarrow> \<forall>x item. item_of q x = Some item \<longrightarrow> pm_messageId (sm_message item) = x"
  by (simp add: leases_current_def)

text \<open>A claim neither leases nor changes a message that its pop does not see as available.\<close>

lemma claimLeases_other:
  assumes keys: "leases_current q issued" and c: "claimLeases w k d now q = (q', ls)"
    and item: "item_of q mid = Some item" "sm_status item = MPending"
    and passed: "mid \<notin> set (drop (q_pendingReadIndex q) (q_pendingQueue q)) \<or> now < sm_nextAvailableAt item"
  shows "item_of q' mid = Some item \<and> mid \<notin> lease_message_id ` set ls
    \<and> set (drop (q_pendingReadIndex q') (q_pendingQueue q')) \<subseteq> set (drop (q_pendingReadIndex q) (q_pendingQueue q))"
proof -
  let ?ids = "drop (q_pendingReadIndex q) (q_pendingQueue q)"
  obtain q1 cl where p: "claim_pending w k d now ?ids (q, []) = (q1, cl)" by fastforce
  have one: "item_of q1 mid = Some item" "mid \<notin> lease_message_id ` set cl"
    using claim_pending_other [OF _ keys_consistent [OF keys] p, of mid] item passed by auto
  have sub: "set (drop (q_pendingReadIndex (compact q1)) (q_pendingQueue (compact q1))) \<subseteq> set ?ids"
    using claim_pending_queue [of w k d now ?ids q "[]"] p by (simp add: set_drop_subset_set_drop)
  have cur: "leases_current (compact q1) (issued @ cl)"
    using leases_current_cong [OF claim_pending_current [OF _ p, of issued]] keys by simp
  have r: "\<not> running (compact q1) mid" using one item by (simp add: running_def)
  show ?thesis
  proof (cases "length cl < k \<and> length (q_activeLeases (compact q1)) > 0")
    case True
    with c p have e: "claim_expired w k d now (q_activeLeases (compact q1)) (compact q1, cl) = (q', ls)"
      by (simp add: claimLeases_def Let_def)
    from claim_expired_other [OF r keys_consistent [OF cur] e] one sub show ?thesis by auto
  next
    case False
    with c p have "q' = compact q1 \<and> ls = cl" by (auto simp: claimLeases_def Let_def)
    then show ?thesis using one sub by (metis compact_fields(1))
  qed
qed

lemma claim_pending_reads_all:
  "length claimed + length ids \<le> k \<Longrightarrow> [] \<notin> set ids
     \<Longrightarrow> q_pendingReadIndex (fst (claim_pending w k d now ids (q, claimed))) = q_pendingReadIndex q + length ids"
  by (induction ids arbitrary: q claimed) (auto simp: Let_def split: option.splits)

lemma claimLeases_reads_all:
  assumes "length (drop (q_pendingReadIndex q) (q_pendingQueue q)) \<le> k" "[] \<notin> set (q_pendingQueue q)"
    and c: "claimLeases w k d now q = (q', ls)"
    and keys: "leases_current q issued" and item: "item_of q mid = Some item" "sm_status item = MPending" "now < sm_nextAvailableAt item"
  shows "forgotten q' mid"
proof -
  let ?ids = "drop (q_pendingReadIndex q) (q_pendingQueue q)"
  obtain q1 cl where p: "claim_pending w k d now ?ids (q, []) = (q1, cl)" by fastforce
  have "[] \<notin> set ?ids" using assms(2) by (meson in_set_dropD)
  then have "q_pendingReadIndex q1 = q_pendingReadIndex q + length ?ids"
    using claim_pending_reads_all [of "[]" ?ids k w d now q] assms(1) p by simp
  moreover have "q_pendingQueue q1 = q_pendingQueue q" using claim_pending_queue [of w k d now ?ids q "[]"] p by simp
  ultimately have d: "drop (q_pendingReadIndex (compact q1)) (q_pendingQueue (compact q1)) = []" by simp
  have one: "item_of q1 mid = Some item" using claim_pending_other [OF _ keys_consistent [OF keys] p, of mid] item by auto
  have cur: "leases_current (compact q1) (issued @ cl)"
    using leases_current_cong [OF claim_pending_current [OF _ p, of issued]] keys by simp
  have r: "\<not> running (compact q1) mid" using one item by (simp add: running_def)
  have "item_of q' mid = Some item \<and> drop (q_pendingReadIndex q') (q_pendingQueue q') = []"
  proof (cases "length cl < k \<and> length (q_activeLeases (compact q1)) > 0")
    case True
    with c p have e: "claim_expired w k d now (q_activeLeases (compact q1)) (compact q1, cl) = (q', ls)"
      by (simp add: claimLeases_def Let_def)
    from claim_expired_other [OF r keys_consistent [OF cur] e] one d show ?thesis by simp
  next
    case False
    with c p have "q' = compact q1" by (auto simp: claimLeases_def Let_def)
    then show ?thesis using one d by (metis compact_fields(1))
  qed
  with item show ?thesis by (simp add: forgotten_def)
qed

lemma enqueue_keeps:
  "item_of q mid = Some item \<Longrightarrow> mid \<notin> set (drop (q_pendingReadIndex q) (q_pendingQueue q))
     \<Longrightarrow> item_of (fst (fold enqueue_one msgs (q, n))) mid = Some item
       \<and> mid \<notin> set (drop (q_pendingReadIndex (fst (fold enqueue_one msgs (q, n)))) (q_pendingQueue (fst (fold enqueue_one msgs (q, n)))))"
proof (induction msgs arbitrary: q n)
  case (Cons msg msgs)
  obtain q1 n1 where e: "enqueue_one msg (q, n) = (q1, n1)" by fastforce
  have "item_of q1 mid = Some item" "mid \<notin> set (drop (q_pendingReadIndex q1) (q_pendingQueue q1))"
    using e Cons.prems by (auto simp: enqueue_one_def drop_Cons' split: if_splits)
  from Cons.IH [OF this, of n1] show ?case by (simp add: e)
qed simp

lemma forgotten_step:
  assumes "leases_current (fst st) (snd st)" "forgotten (fst st) mid" "\<not> answers mid op"
  shows "forgotten (fst (apply_op op st)) mid
    \<and> (\<exists>ls. snd (apply_op op st) = snd st @ ls \<and> mid \<notin> lease_message_id ` set ls)"
proof -
  obtain q issued where st: "st = (q, issued)" by fastforce
  from assms(2) obtain item where item: "item_of q mid = Some item" "sm_status item = MPending"
    and gone: "mid \<notin> set (drop (q_pendingReadIndex q) (q_pendingQueue q))"
    by (auto simp: forgotten_def st split: option.splits)
  show ?thesis
  proof (cases op)
    case (OpEnqueue msgs)
    then show ?thesis using enqueue_keeps [OF item(1) gone, of msgs 0] item by (simp add: st enqueueBatch_def forgotten_def)
  next
    case (OpClaim w k d now)
    obtain q' ls where c: "claimLeases w k d now q = (q', ls)" by fastforce
    have "leases_current q issued" using assms(1) by (simp add: st)
    from claimLeases_other [OF this c item disjI1 [OF gone]] gone item show ?thesis
      by (auto simp: st OpClaim c forgotten_def)
  next
    case (OpRenew l ext now)
    then show ?thesis using item gone
      by (cases "item_of q (lease_message_id l)") (auto simp: st renewLease_def forgotten_def)
  next
    case (OpAck l)
    then show ?thesis using item gone assms(3)
      by (cases "item_of q (lease_message_id l)") (auto simp: st ackLease_def forgotten_def answers_def)
  next
    case (OpNack l err backoff now)
    then have "lease_message_id l \<noteq> mid" using assms(3) by (simp add: answers_def)
    then show ?thesis using item gone OpNack
      by (cases "item_of q (lease_message_id l)") (auto simp: st nackLease_def Let_def forgotten_def dest: in_set_dropD)
  qed (use assms(3) in \<open>simp add: answers_def\<close>)
qed

lemma forgotten_forever:
  "queue_run m st \<Longrightarrow> forgotten (fst st) mid \<Longrightarrow> \<forall>op \<in> set ops. \<not> answers mid op
     \<Longrightarrow> forgotten (fst (fold apply_op ops st)) mid
       \<and> (\<exists>ls. snd (fold apply_op ops st) = snd st @ ls \<and> mid \<notin> lease_message_id ` set ls)"
proof (induction ops arbitrary: st)
  case (Cons op ops)
  have "\<not> answers mid op" using Cons.prems(3) by simp
  from forgotten_step [OF reachable_current [OF Cons.prems(1)] Cons.prems(2) this]
  obtain ls where f: "forgotten (fst (apply_op op st)) mid" "snd (apply_op op st) = snd st @ ls" "mid \<notin> lease_message_id ` set ls" by auto
  from Cons.IH [OF queue_step [OF Cons.prems(1)] f(1)] Cons.prems(3) obtain ls'
    where "forgotten (fst (fold apply_op ops (apply_op op st))) mid"
      "snd (fold apply_op ops (apply_op op st)) = snd (apply_op op st) @ ls'" "mid \<notin> lease_message_id ` set ls'" by auto
  with f have "forgotten (fst (fold apply_op (op # ops) st)) mid" "snd (fold apply_op (op # ops) st) = snd st @ (ls @ ls')"
    "mid \<notin> lease_message_id ` set (ls @ ls')" by auto
  then show ?case by blast
qed simp

text \<open>The queue of a run does not depend on the leases recorded beside it.\<close>

lemma fold_apply_queue: "fst (fold apply_op ops (q, a)) = fst (fold apply_op ops (q, b))"
proof (induction ops arbitrary: q a b)
  case (Cons op ops)
  have "fst (apply_op op (q, a)) = fst (apply_op op (q, b))" by (cases op) (simp_all add: case_prod_beta Let_def)
  with Cons.IH show ?case by (metis fold_simps(2) prod.collapse)
qed simp

section \<open>Properties\<close>

lemmas queue_reachable = reachable_current reachable_active

text \<open>
  C10. Fencing: whatever the queue's history, once a message has been leased again, every earlier lease on it is
  refused. It cannot be renewed, and while the message is running it cannot acknowledge it: the
  call returns false and changes nothing. Leases never share an identifier.
\<close>

theorem superseded_lease_refused:
  assumes "queue_run maxRetries (q, issued)" "l \<in> set issued" "last_lease issued (lease_message_id l) \<noteq> Some l"
  shows "renewLease l extension now q = (False, l, q)
    \<and> (if running q (lease_message_id l) then ackLease l q = (False, q) else True)
    \<and> distinct (map pl_leaseId issued)"
proof -
  from reachable_current [OF assms(1)] have cur: "leases_current q issued" by simp
  then have d: "distinct (map pl_leaseId issued)" by (simp add: leases_current_def)
  have stale: "sm_leaseId item \<noteq> Some (pl_leaseId l)" if i: "item_of q (lease_message_id l) = Some item" "sm_status item = MRunning" for item
  proof -
    from cur i obtain l' where l': "last_lease issued (lease_message_id l) = Some l'" "sm_leaseId item = Some (pl_leaseId l')"
      unfolding leases_current_def by metis
    with assms(3) have "l' \<noteq> l" by auto
    with d assms(2) last_lease_issued [OF l'(1)] have "pl_leaseId l' \<noteq> pl_leaseId l" by (auto simp: distinct_map dest: inj_onD)
    with l'(2) show ?thesis by simp
  qed
  show ?thesis using stale d
    by (cases "item_of q (lease_message_id l)") (auto simp: renewLease_def ackLease_def running_def)
qed

definition sample_message :: "string \<Rightarrow> PartitionMessage" where
  "sample_message mid = \<lparr>pm_messageId = mid, pm_runId = ''run'', pm_batchId = ''batch'', pm_partitionId = mid, pm_bucketKey = None,
     pm_settlementCount = 0, pm_creditCount = 0, pm_payloadKey = None,
     pm_payloadInline = Some \<lparr>sp_id = (None, 0), sp_bucketKey = None, sp_settlements = [], sp_credits = []\<rparr>,
     pm_enqueuedAt = 0, pm_attempt = 0\<rparr>"

definition ops_run :: "QueueOp list \<Rightarrow> Queue \<times> PartitionLease list" where
  "ops_run ops = fold apply_op ops (new_queue None, [])"

lemma ops_run_reachable: "queue_run None (ops_run ops)"
  unfolding ops_run_def by (induction ops rule: rev_induct) (auto intro: queue_run.intros)

lemmas queue_eval = ops_run_def new_queue_def enqueueBatch_def enqueue_one_def claimLeases_def compact_def lease_expired_def
  ackLease_def nackLease_def renewLease_def drop_lease_def put_item_def item_of_def lease_item_def make_lease_def
  lease_message_id_def add_active_def sample_message_def

text \<open>Worker one lets its lease expire and worker two takes the message over.\<close>

definition takeover :: "Queue \<times> PartitionLease list" where
  "takeover = ops_run [OpEnqueue [sample_message ''m''], OpClaim ''one'' 5 100 10, OpClaim ''two'' 5 100 200]"

lemma takeover_facts:
  "running (fst takeover) ''m''" "lease_message_id (hd (snd takeover)) = ''m''" "length (snd takeover) = 2"
  "pl_leaseId (hd (snd takeover)) = lease_id 1 ''one''"
  "map_option pl_leaseId (last_lease (snd takeover) ''m'') = Some (lease_id 2 ''two'')"
  by (simp_all add: takeover_def queue_eval running_def last_lease_def numeral_2_eq_2 del: put_item_fields lease_fields item_of_put)

theorem superseded_lease_refused_witness:
  "let (q, issued) = takeover
   in running q ''m'' \<and> ackLease (hd issued) q = (False, q)"
proof -
  let ?r = "takeover"
  obtain q issued where r: "?r = (q, issued)" by (rule prod.exhaust)
  have run: "queue_run None (q, issued)" using ops_run_reachable r unfolding takeover_def by metis
  note facts = takeover_facts
  have first: "hd issued \<in> set issued" "last_lease issued (lease_message_id (hd issued)) \<noteq> Some (hd issued)"
    using facts lease_id_inject [of 1 "''one''" 2 "''two''"] unfolding r by (cases issued; force)+
  from superseded_lease_refused [OF run first, of 0 0] facts show ?thesis unfolding r by simp
qed

text \<open>
  The accounting of the queue: in every reachable state each message has exactly one of the four statuses
  that the metrics count, and the leases the queue tracks are exactly the running messages.
\<close>

theorem queue_accounting:
  assumes "queue_run maxRetries (q, issued)"
  shows "qm_pendingCount (getMetrics q) + qm_runningLeases (getMetrics q) + qm_completedCount (getMetrics q)
      + qm_deadLetterCount (getMetrics q) = length (q_messages q)
    \<and> qm_runningLeases (getMetrics q) = length (q_activeLeases q)
    \<and> set (q_activeLeases q) = {mid. running q mid} \<and> distinct (map fst (q_messages q))"
  using reachable_active [OF assms] active_length [of q] statuses_partition [of q] by (simp add: getMetrics_def active_ok_def)

theorem queue_accounting_witness:
  "let q = fst (ops_run [OpEnqueue [sample_message ''m'', sample_message ''n''], OpClaim ''one'' 1 100 10])
   in qm_pendingCount (getMetrics q) = 1 \<and> qm_runningLeases (getMetrics q) = length (q_activeLeases q) \<and> length (q_activeLeases q) = 1"
proof -
  let ?r = "ops_run [OpEnqueue [sample_message ''m'', sample_message ''n''], OpClaim ''one'' 1 100 10]"
  have "queue_run None (fst ?r, snd ?r)" using ops_run_reachable by simp
  from queue_accounting [OF this] have "qm_runningLeases (getMetrics (fst ?r)) = length (q_activeLeases (fst ?r))" by simp
  moreover have "qm_pendingCount (getMetrics (fst ?r)) = 1" "length (q_activeLeases (fst ?r)) = 1" by code_simp+
  ultimately show ?thesis by (simp add: Let_def)
qed

text \<open>
  A message in backoff that is polled too early is lost: a claim that reads the pending queue to its end
  pops it without leasing it and nothing puts it back, so it stays pending and is
  never leased again, whatever claims, enqueues and answers to other messages follow.
\<close>

theorem backoff_message_lost:
  assumes "queue_run maxRetries (q, issued)" "item_of q mid = Some item" "sm_status item = MPending" "now < sm_nextAvailableAt item"
    and "length (drop (q_pendingReadIndex q) (q_pendingQueue q)) \<le> k" "[] \<notin> set (q_pendingQueue q)"
    and "\<forall>op \<in> set ops. \<not> answers mid op"
  shows "forgotten (fst (fold apply_op (OpClaim w k duration now # ops) (q, issued))) mid
    \<and> mid \<notin> lease_message_id ` set (drop (length issued) (snd (fold apply_op (OpClaim w k duration now # ops) (q, issued))))"
proof -
  obtain q' ls where c: "claimLeases w k duration now q = (q', ls)" by fastforce
  from reachable_current [OF assms(1)] have cur: "leases_current q issued" by simp
  have f: "forgotten q' mid" by (rule claimLeases_reads_all [OF assms(5,6) c cur assms(2-4)])
  from claimLeases_other [OF cur c assms(2,3) disjI2 [OF assms(4)]] have ls: "mid \<notin> lease_message_id ` set ls" by simp
  have run: "queue_run maxRetries (q', issued @ ls)" using queue_step [OF assms(1), of "OpClaim w k duration now"] by (simp add: c)
  from forgotten_forever [OF run, of mid ops] assms(7) f ls show ?thesis by (auto simp: c)
qed

text \<open>A failed partition is answered with a backoff of 500 ms and the worker polls again 1 ms later.\<close>

definition backoff_run :: "Queue \<times> PartitionLease list" where
  "backoff_run = ops_run [OpEnqueue [sample_message ''m''], OpClaim ''one'' 50 30000 10,
        OpNack (make_lease ''one'' 30000 10 1 (sample_message ''m'') 0) ''failed'' 500 20]"

lemma backoff_run_facts:
  "map_option sm_status (item_of (fst backoff_run) ''m'') = Some MPending"
  "map_option sm_nextAvailableAt (item_of (fst backoff_run) ''m'') = Some 520"
  "q_pendingReadIndex (fst backoff_run) = 1" "q_pendingQueue (fst backoff_run) = [''m'', ''m'']"
  by (simp_all add: backoff_run_def queue_eval Let_def del: put_item_fields lease_fields item_of_put)

theorem backoff_message_lost_witness:
  "let q = fst (backoff_run);
       end_state = fst (fold apply_op [OpClaim ''one'' 50 30000 21, OpClaim ''one'' 50 30000 1000, OpClaim ''two'' 50 30000 9999] (q, []))
   in forgotten end_state ''m''"
proof -
  let ?r = "backoff_run"
  let ?item = "the (item_of (fst ?r) ''m'')"
  let ?later = "[OpClaim ''one'' 50 30000 1000, OpClaim ''two'' 50 30000 9999]"
  have run: "queue_run None (fst ?r, snd ?r)" using ops_run_reachable by (simp add: backoff_run_def)
  note facts = backoff_run_facts
  from facts have some: "item_of (fst ?r) ''m'' = Some ?item" and item: "sm_status ?item = MPending" "21 < sm_nextAvailableAt ?item"
    and room: "length (drop (q_pendingReadIndex (fst ?r)) (q_pendingQueue (fst ?r))) \<le> 50" "[] \<notin> set (q_pendingQueue (fst ?r))"
    by auto
  have "list_all (\<lambda>op. \<not> answers ''m'' op) ?later" by (simp add: answers_def)
  then have later: "\<forall>op \<in> set ?later. \<not> answers ''m'' op" by (simp only: list_all_iff)
  have "forgotten (fst (fold apply_op (OpClaim ''one'' 50 30000 21 # ?later) (fst ?r, snd ?r))) ''m''"
    using backoff_message_lost [OF run some item room later] by (rule conjunct1)
  then show ?thesis unfolding Let_def by (subst fold_apply_queue [of _ _ "[]" "snd ?r"])
qed

end
