(* ===== verification/Merkle.thy ===== *)
theory Merkle
  imports Scale Audit_Chain Run_Metadata
begin

text \<open>
  Merkle audit lineage (\<open>src/lib/reconciliation/distributed/merkle.ts\<close>) and the receipt verifier
  (\<open>src/lib/reconciliation/merkle-verifier.ts\<close>): the audit hash of a partition, the binary tree over
  the partitions of a batch, inclusion proofs, and the check of a decision receipt. SHA-256 is a
  parameter. Archiving a receipt and packing an offline bundle are input and output.
\<close>

section \<open>Levels of a binary tree\<close>

text \<open>The inner loop pairs neighbours; a last node without a neighbour is paired with nothing.\<close>

fun next_level :: "('a \<Rightarrow> 'a option \<Rightarrow> 'a) \<Rightarrow> 'a list \<Rightarrow> 'a list" where
  "next_level f [] = []"
| "next_level f [x] = [f x None]"
| "next_level f (x # y # zs) = f x (Some y) # next_level f zs"

lemma length_next_level: "length (next_level f xs) = (length xs + 1) div 2"
  by (induction f xs rule: next_level.induct) auto

function top_level :: "('a \<Rightarrow> 'a option \<Rightarrow> 'a) \<Rightarrow> 'a list \<Rightarrow> 'a list" where
  "top_level f level = (if length level > 1 then top_level f (next_level f level) else level)"
  by auto
termination by (relation "measure (\<lambda>(f, level). length level)") (auto simp: length_next_level)

declare top_level.simps [simp del]

section \<open>The tree of a batch\<close>

datatype MerkleNode =
    MLeaf (node_hash: string) "string option"
  | MInner (node_hash: string) MerkleNode "MerkleNode option"

record MerkleLeaf =
  lf_partitionId :: string
  lf_hash :: string

definition sibling :: "'a \<Rightarrow> 'a option \<Rightarrow> 'a" where
  "sibling l r = (case r of None \<Rightarrow> l | Some x \<Rightarrow> x)"

definition parent_node :: "(string \<Rightarrow> string) \<Rightarrow> MerkleNode \<Rightarrow> MerkleNode option \<Rightarrow> MerkleNode" where
  "parent_node sha256 l r = MInner (sha256 (node_hash l @ node_hash (sibling l r))) l r"

definition sort_leaves :: "MerkleLeaf list \<Rightarrow> MerkleLeaf list" where
  "sort_leaves leaves = js_sort (cmp_by lf_partitionId) leaves"

definition buildBatchMerkleTree :: "(string \<Rightarrow> string) \<Rightarrow> MerkleLeaf list \<Rightarrow> string \<times> MerkleNode" where
  "buildBatchMerkleTree sha256 leaves =
     (if length leaves = 0
      then (let emptyHash = sha256 ''GENESIS_EMPTY_BATCH'' in (emptyHash, MLeaf emptyHash None))
      else let root = hd (top_level (parent_node sha256)
                 (map (\<lambda>l. MLeaf (lf_hash l) (Some (lf_partitionId l))) (sort_leaves leaves)))
           in (node_hash root, root))"

record RelationshipProjection =
  pj_type :: string
  pj_settlementIds :: "ident list"
  pj_bankTxnIds :: "ident list"
  pj_differencePaise :: int
  pj_confidenceScore :: int
  pj_reasonCode :: string

definition relationship_json :: "RelationshipProjection \<Rightarrow> json" where
  "relationship_json r = JObj [(''type'', JStr (pj_type r)), (''settlementIds'', JArr (map JStr (sort (pj_settlementIds r)))),
     (''bankTxnIds'', JArr (map JStr (sort (pj_bankTxnIds r)))), (''differencePaise'', JInt (pj_differencePaise r)),
     (''confidenceScore'', JInt (pj_confidenceScore r)), (''reasonCode'', JStr (pj_reasonCode r))]"

definition computePartitionAuditHash ::
  "(string \<Rightarrow> string) \<Rightarrow> string \<Rightarrow> string \<Rightarrow> nat \<Rightarrow> RelationshipProjection list \<Rightarrow> string" where
  "computePartitionAuditHash sha256 pid strategy matchedCount rels = sha256 (json_stringify
     (JObj [(''partitionId'', JStr pid), (''strategy'', JStr strategy), (''matchedCount'', JInt (int matchedCount)),
        (''relationships'', JArr (map relationship_json rels))]))"

section \<open>Inclusion proofs\<close>

datatype Position = LeftOf | RightOf

record MerkleProof =
  mp_leafHash :: string
  mp_partitionId :: string
  mp_rootHash :: string
  mp_steps :: "(Position \<times> string) list"

definition parent_leaf :: "(string \<Rightarrow> string) \<Rightarrow> MerkleLeaf \<Rightarrow> MerkleLeaf option \<Rightarrow> MerkleLeaf" where
  "parent_leaf sha256 l r = \<lparr>lf_partitionId = lf_partitionId l @ '':'' @ lf_partitionId (sibling l r),
     lf_hash = sha256 (lf_hash l @ lf_hash (sibling l r))\<rparr>"

function proof_steps :: "(string \<Rightarrow> string) \<Rightarrow> MerkleLeaf list \<Rightarrow> nat \<Rightarrow> (Position \<times> string) list" where
  "proof_steps sha256 level i =
     (if length level > 1
      then (let isRight = (i mod 2 = 1); sib = (if isRight then i - 1 else i + 1)
            in (if sib < length level then (if isRight then LeftOf else RightOf, lf_hash (level ! sib))
                else (RightOf, lf_hash (level ! i))) # proof_steps sha256 (next_level (parent_leaf sha256) level) (i div 2))
      else [])"
  by auto
termination by (relation "measure (\<lambda>(sha256, level, i). length level)") (auto simp: length_next_level)

declare proof_steps.simps [simp del]

fun find_index :: "('a \<Rightarrow> bool) \<Rightarrow> 'a list \<Rightarrow> nat option" where
  "find_index P [] = None"
| "find_index P (x # xs) = (if P x then Some 0 else map_option Suc (find_index P xs))"

definition generateMerkleProof :: "(string \<Rightarrow> string) \<Rightarrow> MerkleLeaf list \<Rightarrow> string \<Rightarrow> MerkleProof option" where
  "generateMerkleProof sha256 leaves target =
     (let sorted = sort_leaves leaves
      in case find_index (\<lambda>l. lf_partitionId l = target) sorted of
           None \<Rightarrow> None
         | Some i \<Rightarrow> Some \<lparr>mp_leafHash = lf_hash (sorted ! i), mp_partitionId = target,
                      mp_rootHash = fst (buildBatchMerkleTree sha256 leaves), mp_steps = proof_steps sha256 sorted i\<rparr>)"

definition proof_step :: "(string \<Rightarrow> string) \<Rightarrow> Position \<times> string \<Rightarrow> string \<Rightarrow> string" where
  "proof_step sha256 step current =
     (if fst step = LeftOf then sha256 (snd step @ current) else sha256 (current @ snd step))"

definition verifyMerkleProof :: "(string \<Rightarrow> string) \<Rightarrow> MerkleProof \<Rightarrow> bool" where
  "verifyMerkleProof sha256 p = (fold (proof_step sha256) (mp_steps p) (mp_leafHash p) = mp_rootHash p)"

section \<open>Decision receipts\<close>

definition computeMerkleRootFromLeaves :: "(string \<Rightarrow> string) \<Rightarrow> string list \<Rightarrow> string" where
  "computeMerkleRootFromLeaves sha256 leaves =
     (if length leaves = 0 then sha256 ''EMPTY_TREE''
      else if length leaves = 1 then hd leaves
      else hd (top_level (\<lambda>l r. sha256 (l @ '':'' @ sibling l r)) leaves))"

record V1DecisionReceipt =
  dr_rootHash :: string
  dr_signature :: "string option"
  dr_algorithm :: "string option"
  dr_fingerprint :: string
  dr_leafCount :: nat
  dr_timestamp :: string

datatype ReceiptError =
    RootMismatch string string
  | InvalidSignature
  | UnsupportedAlgorithm "string option"

record MerkleVerificationResult =
  mv_verified :: bool
  mv_receiptId :: string
  mv_rootHash :: string
  mv_calculatedRootHash :: string
  mv_leafCount :: nat
  mv_algorithm :: "string option"
  mv_signatureValid :: bool
  mv_benchmarkFingerprint :: string
  mv_timestamp :: string
  mv_errors :: "ReceiptError list"

definition verifyDecisionReceipt ::
  "(string \<Rightarrow> string) \<Rightarrow> V1DecisionReceipt \<Rightarrow> string list option \<Rightarrow> MerkleVerificationResult" where
  "verifyDecisionReceipt sha256 r leafHashes =
     (let given = (case leafHashes of None \<Rightarrow> [] | Some hs \<Rightarrow> hs);
          root = (if length given > 0 then computeMerkleRootFromLeaves sha256 given else dr_rootHash r);
          signatureValid = (truthy_str (dr_signature r) \<and> length (the (dr_signature r)) \<ge> 32);
          algorithmOk = (case dr_algorithm r of None \<Rightarrow> False | Some a \<Rightarrow> a \<noteq> [] \<and> js_includes a ''SHA-256'');
          errors = (if length given > 0 \<and> root \<noteq> dr_rootHash r then [RootMismatch (dr_rootHash r) root] else [])
            @ (if signatureValid then [] else [InvalidSignature])
            @ (if algorithmOk then [] else [UnsupportedAlgorithm (dr_algorithm r)])
      in \<lparr>mv_verified = (length errors = 0 \<and> root = dr_rootHash r \<and> signatureValid),
          mv_receiptId = ''rcpt_'' @ dr_fingerprint r, mv_rootHash = dr_rootHash r, mv_calculatedRootHash = root,
          mv_leafCount = (if dr_leafCount r \<noteq> 0 then dr_leafCount r else length given),
          mv_algorithm = dr_algorithm r, mv_signatureValid = signatureValid,
          mv_benchmarkFingerprint = dr_fingerprint r, mv_timestamp = dr_timestamp r, mv_errors = errors\<rparr>)"

section \<open>Hashes level by level\<close>

text \<open>The hash of a parent, from the hashes of its children alone.\<close>

definition parent_hash :: "(string \<Rightarrow> string) \<Rightarrow> string \<Rightarrow> string option \<Rightarrow> string" where
  "parent_hash sha256 l r = sha256 (l @ sibling l r)"

lemma map_next_level:
  assumes hom: "\<And>l r. h (f l r) = g (h l) (map_option h r)"
  shows "map h (next_level f xs) = next_level g (map h xs)"
  by (induction xs rule: induct_list012) (auto simp: hom)

lemma map_top_level:
  assumes hom: "\<And>l r. h (f l r) = g (h l) (map_option h r)"
  shows "map h (top_level f xs) = top_level g (map h xs)"
proof (induction "length xs" arbitrary: xs rule: less_induct)
  case less
  show ?case
  proof (cases "length xs > 1")
    case True
    then have "length (next_level f xs) < length xs" by (simp add: length_next_level)
    then have "map h (top_level f (next_level f xs)) = top_level g (map h (next_level f xs))" by (rule less)
    with True show ?thesis by (simp add: top_level.simps [of f xs] top_level.simps [of g "map h xs"] map_next_level [of h f g, OF hom])
  qed (simp add: top_level.simps)
qed

lemma length_top_level: "xs \<noteq> [] \<Longrightarrow> length (top_level f xs) = 1"
proof (induction f xs rule: top_level.induct)
  case (1 f xs)
  have "length xs > 1 \<Longrightarrow> next_level f xs \<noteq> []" using length_next_level [of f xs] by auto
  with 1 show ?case by (subst top_level.simps) (auto simp: Suc_leI less_Suc_eq_le le_antisym)
qed

lemma top_level_nonempty: "xs \<noteq> [] \<Longrightarrow> top_level f xs \<noteq> []"
  using length_top_level [of xs f] by (cases "top_level f xs") auto

lemma sibling_map_option: "h (sibling l r) = sibling (h l) (map_option h r)"
  by (cases r) (simp_all add: sibling_def)

lemma node_hash_parent: "node_hash (parent_node sha256 l r) = parent_hash sha256 (node_hash l) (map_option node_hash r)"
  by (simp add: parent_node_def parent_hash_def sibling_map_option [of node_hash])

lemma leaf_hash_parent: "lf_hash (parent_leaf sha256 l r) = parent_hash sha256 (lf_hash l) (map_option lf_hash r)"
  by (simp add: parent_leaf_def parent_hash_def sibling_map_option [of lf_hash])

lemma next_level_nth:
  "i < length xs \<Longrightarrow> next_level f xs ! (i div 2) =
     (if i mod 2 = 1 then f (xs ! (i - 1)) (Some (xs ! i))
      else f (xs ! i) (if i + 1 < length xs then Some (xs ! (i + 1)) else None))"
proof (induction xs arbitrary: i rule: induct_list012)
  case (3 x y zs)
  show ?case
  proof (cases i)
    case (Suc j)
    with 3 show ?thesis by (cases j) auto
  qed simp
qed auto

lemma proof_steps_root:
  "i < length level \<Longrightarrow> fold (proof_step sha256) (proof_steps sha256 level i) (lf_hash (level ! i))
     = lf_hash (hd (top_level (parent_leaf sha256) level))"
proof (induction sha256 level i rule: proof_steps.induct)
  case (1 sha256 level i)
  show ?case
  proof (cases "length level > 1")
    case True
    let ?next = "next_level (parent_leaf sha256) level"
    have "i div 2 < length ?next" using 1 by (simp add: length_next_level)
    moreover have "lf_hash (?next ! (i div 2)) = proof_step sha256 (hd (proof_steps sha256 level i)) (lf_hash (level ! i))"
      using 1(2) True by (subst proof_steps.simps)
        (auto simp: Let_def next_level_nth leaf_hash_parent parent_hash_def sibling_def proof_step_def)
    moreover have "proof_steps sha256 level i = hd (proof_steps sha256 level i) # proof_steps sha256 ?next (i div 2)"
      using True by (subst (1 2) proof_steps.simps) (simp add: Let_def)
    moreover have "top_level (parent_leaf sha256) level = top_level (parent_leaf sha256) ?next"
      using True by (subst top_level.simps) simp
    ultimately show ?thesis using 1(1) [OF True] by (metis fold_simps(2))
  next
    case False
    with 1(2) obtain x where "level = [x]" "i = 0" by (cases level) auto
    then show ?thesis by (simp add: proof_steps.simps [of sha256 "[x]" 0] top_level.simps [of "parent_leaf sha256" "[x]"])
  qed
qed

lemma find_index_bound: "find_index P xs = Some i \<Longrightarrow> i < length xs \<and> P (xs ! i)"
  by (induction xs arbitrary: i) (auto split: if_splits)

lemma find_index_None: "find_index P xs = None \<longleftrightarrow> (\<forall>x \<in> set xs. \<not> P x)"
  by (induction xs) auto

lemma hash_of_root:
  assumes "leaves \<noteq> []"
  shows "fst (buildBatchMerkleTree sha256 leaves) = hd (top_level (parent_hash sha256) (map lf_hash (sort_leaves leaves)))"
proof -
  let ?nodes = "map (\<lambda>l. MLeaf (lf_hash l) (Some (lf_partitionId l))) (sort_leaves leaves)"
  have "?nodes \<noteq> []" using assms by (cases leaves) (auto simp: sort_leaves_def simp flip: length_0_conv)
  then have "top_level (parent_node sha256) ?nodes \<noteq> []" by (rule top_level_nonempty)
  then have "node_hash (hd (top_level (parent_node sha256) ?nodes)) = hd (map node_hash (top_level (parent_node sha256) ?nodes))"
    by (simp add: hd_map)
  also have "map node_hash (top_level (parent_node sha256) ?nodes) = top_level (parent_hash sha256) (map node_hash ?nodes)"
    by (rule map_top_level) (rule node_hash_parent)
  finally show ?thesis using assms by (simp add: buildBatchMerkleTree_def Let_def comp_def)
qed

lemma root_of_leaves:
  assumes "xs \<noteq> []"
  shows "lf_hash (hd (top_level (parent_leaf sha256) xs)) = hd (top_level (parent_hash sha256) (map lf_hash xs))"
proof -
  have "top_level (parent_leaf sha256) xs \<noteq> []" using assms by (rule top_level_nonempty)
  then show ?thesis
    using map_top_level [of lf_hash "parent_leaf sha256" "parent_hash sha256" xs, OF leaf_hash_parent] by (metis hd_map)
qed

lemma generated_proof:
  assumes "generateMerkleProof sha256 leaves pid = Some p"
  shows "verifyMerkleProof sha256 p" and "mp_rootHash p = fst (buildBatchMerkleTree sha256 leaves)"
    and "\<exists>l \<in> set leaves. lf_partitionId l = pid \<and> lf_hash l = mp_leafHash p"
proof -
  let ?s = "sort_leaves leaves"
  from assms obtain i where i: "find_index (\<lambda>l. lf_partitionId l = pid) ?s = Some i"
    and p: "p = \<lparr>mp_leafHash = lf_hash (?s ! i), mp_partitionId = pid,
                  mp_rootHash = fst (buildBatchMerkleTree sha256 leaves), mp_steps = proof_steps sha256 ?s i\<rparr>"
    by (auto simp: generateMerkleProof_def Let_def split: option.splits)
  from find_index_bound [OF i] have b: "i < length ?s" "lf_partitionId (?s ! i) = pid" by auto
  then have "?s \<noteq> []" by auto
  then have ne: "leaves \<noteq> []" by (auto simp: sort_leaves_def js_sort_def)
  show "verifyMerkleProof sha256 p"
    using proof_steps_root [OF b(1), of sha256] root_of_leaves [OF \<open>?s \<noteq> []\<close>, of sha256] hash_of_root [OF ne, of sha256]
    by (simp add: verifyMerkleProof_def p)
  show "mp_rootHash p = fst (buildBatchMerkleTree sha256 leaves)" by (simp add: p)
  have "?s ! i \<in> set leaves" using nth_mem [OF b(1)] by (simp add: sort_leaves_def)
  with b(2) show "\<exists>l \<in> set leaves. lf_partitionId l = pid \<and> lf_hash l = mp_leafHash p" by (auto simp: p)
qed

lemma proof_exists: "generateMerkleProof sha256 leaves pid = None \<longleftrightarrow> pid \<notin> lf_partitionId ` set leaves"
proof -
  have "generateMerkleProof sha256 leaves pid = None \<longleftrightarrow> find_index (\<lambda>l. lf_partitionId l = pid) (sort_leaves leaves) = None"
    by (simp add: generateMerkleProof_def Let_def split: option.splits)
  then show ?thesis by (auto simp: find_index_None sort_leaves_def)
qed

section \<open>Binding\<close>

text \<open>The strings that checking a proof hashes.\<close>

fun proof_inputs :: "(string \<Rightarrow> string) \<Rightarrow> (Position \<times> string) list \<Rightarrow> string \<Rightarrow> string list" where
  "proof_inputs sha256 [] h = []"
| "proof_inputs sha256 (st # sts) h =
     (if fst st = LeftOf then snd st @ h else h @ snd st) # proof_inputs sha256 sts (proof_step sha256 st h)"

definition digests :: "MerkleProof \<Rightarrow> string list" where
  "digests p = mp_leafHash p # map snd (mp_steps p)"

lemma fold_binding:
  assumes "fold (proof_step sha256) sts h = fold (proof_step sha256) sts' h'" "map fst sts = map fst sts'"
    and "inj_on sha256 (set (proof_inputs sha256 sts h) \<union> set (proof_inputs sha256 sts' h'))"
    and "length h = 64" "length h' = 64" "\<forall>st \<in> set sts \<union> set sts'. length (snd st) = 64"
    and "\<forall>x \<in> set (proof_inputs sha256 sts h) \<union> set (proof_inputs sha256 sts' h'). length (sha256 x) = 64"
  shows "h = h' \<and> sts = sts'"
  using assms
proof (induction sts arbitrary: sts' h h')
  case (Cons st sts)
  from Cons.prems(2) obtain st' ts where sts': "sts' = st' # ts" and f: "fst st = fst st'" by (cases sts') auto
  let ?a = "if fst st = LeftOf then snd st @ h else h @ snd st"
  let ?b = "if fst st' = LeftOf then snd st' @ h' else h' @ snd st'"
  have steps: "proof_step sha256 st h = sha256 ?a" "proof_step sha256 st' h' = sha256 ?b" by (simp_all add: proof_step_def)
  from Cons.prems(3) have sub: "inj_on sha256 (set (proof_inputs sha256 sts (sha256 ?a)) \<union> set (proof_inputs sha256 ts (sha256 ?b)))"
    unfolding sts' by (rule inj_on_subset) (auto simp: steps)
  have "sha256 ?a = sha256 ?b \<and> sts = ts"
    by (rule Cons.IH) (use Cons.prems sub in \<open>simp_all add: sts' steps\<close>)
  moreover have "?a \<in> set (proof_inputs sha256 (st # sts) h)" "?b \<in> set (proof_inputs sha256 sts' h')" by (simp_all add: sts')
  ultimately have "?a = ?b" "sts = ts" using inj_onD [OF Cons.prems(3), of ?a ?b] by blast+
  then show ?case using Cons.prems(4-6) f by (cases "fst st") (simp_all add: sts' prod_eq_iff)
qed auto

text \<open>
  Inclusion proofs: a proof can be generated exactly for the partitions of the batch, and every generated
  proof carries the root of the batch's tree and the hash of a leaf of that partition and is accepted by the
  verifier, for any number of partitions and any hash function.
\<close>

theorem merkle_proofs_verify:
  "case generateMerkleProof sha256 leaves pid of
     None \<Rightarrow> pid \<notin> lf_partitionId ` set leaves
   | Some p \<Rightarrow> verifyMerkleProof sha256 p \<and> mp_rootHash p = fst (buildBatchMerkleTree sha256 leaves)
       \<and> (pid, mp_leafHash p) \<in> (\<lambda>l. (lf_partitionId l, lf_hash l)) ` set leaves"
proof (cases "generateMerkleProof sha256 leaves pid")
  case None
  then show ?thesis using proof_exists [of sha256 leaves pid] by simp
next
  case (Some p)
  from generated_proof [OF Some] Some show ?thesis by auto
qed


definition sample_leaves :: "MerkleLeaf list" where
  "sample_leaves = map (\<lambda>(p, c). \<lparr>lf_partitionId = p, lf_hash = replicate 64 c\<rparr>)
     [(''p2'', CHR ''b''), (''p1'', CHR ''a''), (''p3'', CHR ''c'')]"

text \<open>A hash that keeps every fourth character of its input's second half and first half, padded to 64.\<close>

definition sample_hash :: "string \<Rightarrow> string" where
  "sample_hash s = take 64 (concat (map (\<lambda>i. [s ! (i * 4)]) [0..<length s div 4]) @ replicate 64 CHR ''0'')"


end
