(* ===== verification/Distributed.thy ===== *)
theory Distributed
  imports Lease_Queue_Correct Merkle Scale_Durable
begin

text \<open>
  Distributed reconciliation (\<open>worker.ts\<close>, \<open>storage.ts\<close> and \<open>orchestrator.ts\<close> of
  \<open>src/lib/reconciliation/distributed\<close>): partitions become messages of the lease queue, a pool of workers
  drains it, every worker stages its outputs, and the audit hashes of the outputs form the batch's Merkle
  tree. The workers are asynchronous loops; between two \<open>await\<close>s a worker runs alone, so a run of the pool
  is an interleaving of worker turns, given as a schedule of worker indices and clock readings. Durations,
  heap figures and the rates computed from them are left out.
\<close>

section \<open>Staging storage\<close>

record PartitionExecutionOutput =
  po_partitionId :: string
  po_runId :: string
  po_workerId :: string
  po_matchedCount :: nat
  po_relationships :: "CardinalityMatch list"
  po_strategy :: ScaleStrategy
  po_auditHash :: string
  po_executedAt :: millis

record Storage =
  sg_payloads :: "(string \<times> PartitionPayload) list"
  sg_results :: "(string \<times> PartitionExecutionOutput list) list"

definition new_storage :: Storage where
  "new_storage = \<lparr>sg_payloads = [], sg_results = []\<rparr>"

definition stagePayload :: "string \<Rightarrow> PartitionPayload \<Rightarrow> Storage \<Rightarrow> Storage" where
  "stagePayload key payload sg = sg\<lparr>sg_payloads := AList.update key payload (sg_payloads sg)\<rparr>"

definition readPayload :: "string \<Rightarrow> Storage \<Rightarrow> string + PartitionPayload" where
  "readPayload key sg = (case map_of (sg_payloads sg) key of
     None \<Rightarrow> Inl (''Payload not found in storage: '' @ key) | Some payload \<Rightarrow> Inr payload)"

definition readResults :: "string \<Rightarrow> Storage \<Rightarrow> PartitionExecutionOutput list" where
  "readResults key sg = (case map_of (sg_results sg) key of None \<Rightarrow> [] | Some rs \<Rightarrow> rs)"

definition stageResults :: "string \<Rightarrow> PartitionExecutionOutput list \<Rightarrow> Storage \<Rightarrow> Storage" where
  "stageResults key results sg = sg\<lparr>sg_results := AList.update key (readResults key sg @ results) (sg_results sg)\<rparr>"

definition clear_storage :: "Storage \<Rightarrow> Storage" where
  "clear_storage sg = sg\<lparr>sg_payloads := [], sg_results := []\<rparr>"

section \<open>Workers\<close>

text \<open>
  A worker is between two batches, having seen some number of idle polls, or inside a batch with the leases
  left to process and the outputs of those already processed, or has ended its loop.
\<close>

datatype WorkerPhase =
    Polling nat
  | Working nat millis string "PartitionLease list" "PartitionExecutionOutput list"
  | Finished

record PartitionWorker =
  wk_workerId :: string
  wk_leaseDurationMs :: millis
  wk_batchSize :: nat
  wk_phase :: WorkerPhase
  wk_recordsProcessed :: nat
  wk_partitionsProcessed :: nat
  wk_failedPartitions :: nat

definition new_worker :: "string \<Rightarrow> millis option \<Rightarrow> nat option \<Rightarrow> PartitionWorker" where
  "new_worker workerId leaseDurationMs batchSize =
     \<lparr>wk_workerId = workerId, wk_leaseDurationMs = (case leaseDurationMs of None \<Rightarrow> 30000 | Some d \<Rightarrow> d),
      wk_batchSize = (case batchSize of None \<Rightarrow> 50 | Some n \<Rightarrow> n), wk_phase = Polling 0,
      wk_recordsProcessed = 0, wk_partitionsProcessed = 0, wk_failedPartitions = 0\<rparr>"

fun strategy_text :: "ScaleStrategy \<Rightarrow> string" where
  "strategy_text INDEXED = ''INDEXED''"
| "strategy_text BOUNDED = ''BOUNDED''"
| "strategy_text AMBIGUOUS = ''AMBIGUOUS''"

definition resolvePayload :: "Storage \<Rightarrow> PartitionLease \<Rightarrow> string + PartitionPayload" where
  "resolvePayload sg lease =
     (case pm_payloadInline (pl_message lease) of
        Some payload \<Rightarrow> Inr payload
      | None \<Rightarrow> if truthy_str (pm_payloadKey (pl_message lease)) then readPayload (the (pm_payloadKey (pl_message lease))) sg
               else Inl (''Lease '' @ pl_leaseId lease @ '' has neither inline nor keyed payload''))"

definition project_relationship :: "CardinalityMatch \<Rightarrow> RelationshipProjection" where
  "project_relationship r = \<lparr>pj_type = cardinality_text (cm_type r), pj_settlementIds = cm_settlementIds r,
     pj_bankTxnIds = cm_bankTxnIds r, pj_differencePaise = cm_differencePaise r,
     pj_confidenceScore = cm_confidenceScore r, pj_reasonCode = cm_reasonCode r\<rparr>"

record WorkerEnv =
  we_localeCompare :: "string \<Rightarrow> string \<Rightarrow> int"
  we_sha256 :: "string \<Rightarrow> string"

definition partition_output :: "WorkerEnv \<Rightarrow> string \<Rightarrow> millis \<Rightarrow> string \<Rightarrow> PartitionPayload \<Rightarrow> PartitionExecutionOutput" where
  "partition_output env workerId executedAt runId payload =
     (let (rels, matchedCount) = executePartition (we_localeCompare env) payload buildStrategyConfig;
          strategy = selectStrategy payload buildStrategyConfig;
          pid = partition_text (sp_id payload)
      in \<lparr>po_partitionId = pid, po_runId = runId, po_workerId = workerId, po_matchedCount = matchedCount,
          po_relationships = rels, po_strategy = strategy,
          po_auditHash = computePartitionAuditHash (we_sha256 env) pid (strategy_text strategy) matchedCount
            (map project_relationship rels),
          po_executedAt = executedAt\<rparr>)"

text \<open>The state the workers share is the queue and the storage.\<close>

type_synonym Shared = "Queue \<times> Storage"

definition after_batch :: "nat \<Rightarrow> nat \<Rightarrow> nat \<Rightarrow> WorkerPhase" where
  "after_batch maxIdleLoops idle processed =
     (if processed = 0 then (if idle + 1 \<ge> maxIdleLoops then Finished else Polling (idle + 1)) else Polling 0)"

definition poll_queue :: "nat \<Rightarrow> nat \<Rightarrow> millis \<Rightarrow> PartitionWorker \<Rightarrow> Shared \<Rightarrow> PartitionWorker \<times> Shared" where
  "poll_queue maxIdleLoops idle now w sh =
     (let (q, sg) = sh;
          (q1, leases) = claimLeases (wk_workerId w) (wk_batchSize w) (wk_leaseDurationMs w) now q
      in case leases of
           [] \<Rightarrow> (w\<lparr>wk_phase := after_batch maxIdleLoops idle 0\<rparr>, (q1, sg))
         | l # ls \<Rightarrow> (w\<lparr>wk_phase := Working idle now (pm_runId (pl_message l)) leases []\<rparr>, (q1, sg)))"

definition process_lease ::
  "WorkerEnv \<Rightarrow> nat \<Rightarrow> millis \<Rightarrow> string \<Rightarrow> PartitionLease \<Rightarrow> PartitionLease list \<Rightarrow> PartitionExecutionOutput list \<Rightarrow> millis
     \<Rightarrow> PartitionWorker \<Rightarrow> Shared \<Rightarrow> PartitionWorker \<times> Shared" where
  "process_lease env idle tBatch0 runId l ls results now w sh =
     (let (q, sg) = sh
      in case resolvePayload sg l of
           Inr payload \<Rightarrow>
             (w\<lparr>wk_phase := Working idle tBatch0 runId ls
                  (results @ [partition_output env (wk_workerId w) tBatch0 (pm_runId (pl_message l)) payload]),
                wk_recordsProcessed := wk_recordsProcessed w + length (sp_settlements payload) + length (sp_credits payload)\<rparr>,
              (snd (ackLease l q), sg))
         | Inl message \<Rightarrow>
             (w\<lparr>wk_phase := Working idle tBatch0 runId ls results, wk_failedPartitions := wk_failedPartitions w + 1\<rparr>,
              (snd (nackLease l message 500 now q), sg)))"

definition stage_batch ::
  "nat \<Rightarrow> nat \<Rightarrow> string \<Rightarrow> PartitionExecutionOutput list \<Rightarrow> PartitionWorker \<Rightarrow> Shared \<Rightarrow> PartitionWorker \<times> Shared" where
  "stage_batch maxIdleLoops idle runId results w sh =
     (let (q, sg) = sh;
          sg1 = (if length results > 0 then stageResults (''results-'' @ runId) results sg else sg)
      in (w\<lparr>wk_phase := after_batch maxIdleLoops idle (length results),
           wk_partitionsProcessed := wk_partitionsProcessed w + length results\<rparr>, (q, sg1)))"

text \<open>One turn of a worker in its loop \<open>runUntilDrained\<close>.\<close>

definition worker_turn :: "WorkerEnv \<Rightarrow> nat \<Rightarrow> millis \<Rightarrow> PartitionWorker \<Rightarrow> Shared \<Rightarrow> PartitionWorker \<times> Shared" where
  "worker_turn env maxIdleLoops now w sh =
     (case wk_phase w of
        Polling idle \<Rightarrow> poll_queue maxIdleLoops idle now w sh
      | Working idle tBatch0 runId (l # ls) results \<Rightarrow> process_lease env idle tBatch0 runId l ls results now w sh
      | Working idle tBatch0 runId [] results \<Rightarrow> stage_batch maxIdleLoops idle runId results w sh
      | Finished \<Rightarrow> (w, sh))"

section \<open>The pool\<close>

record Pool =
  pool_workers :: "PartitionWorker list"
  pool_shared :: Shared

definition pool_turn :: "WorkerEnv \<Rightarrow> nat \<times> millis \<Rightarrow> Pool \<Rightarrow> Pool" where
  "pool_turn env turn pool =
     (if fst turn < length (pool_workers pool)
      then let (w, sh) = worker_turn env 3 (snd turn) (pool_workers pool ! fst turn) (pool_shared pool)
           in \<lparr>pool_workers = (pool_workers pool)[fst turn := w], pool_shared = sh\<rparr>
      else pool)"

definition pool_run :: "WorkerEnv \<Rightarrow> (nat \<times> millis) list \<Rightarrow> Pool \<Rightarrow> Pool" where
  "pool_run env schedule pool = fold (pool_turn env) schedule pool"

definition pool_finished :: "Pool \<Rightarrow> bool" where
  "pool_finished pool = list_all (\<lambda>w. wk_phase w = Finished) (pool_workers pool)"

section \<open>The orchestrator\<close>

record OrchestratorOptions =
  oo_batchId :: string
  oo_runId :: string
  oo_workerCount :: int
  oo_offload :: bool
  oo_windowMs :: millis

definition partition_message :: "OrchestratorOptions \<Rightarrow> millis \<Rightarrow> ScalePartition \<Rightarrow> PartitionMessage" where
  "partition_message opts now p =
     (let pid = partition_text (sp_id p)
      in \<lparr>pm_messageId = ''msg-'' @ oo_runId opts @ ''-'' @ pid, pm_runId = oo_runId opts, pm_batchId = oo_batchId opts,
          pm_partitionId = pid, pm_bucketKey = sp_bucketKey p, pm_settlementCount = length (sp_settlements p),
          pm_creditCount = length (sp_credits p),
          pm_payloadKey = (if oo_offload opts then Some (''payload-'' @ oo_runId opts @ ''-'' @ pid) else None),
          pm_payloadInline = (if oo_offload opts then None else Some p), pm_enqueuedAt = now, pm_attempt = 0\<rparr>)"

definition stage_partition :: "OrchestratorOptions \<Rightarrow> ScalePartition \<Rightarrow> Storage \<Rightarrow> Storage" where
  "stage_partition opts p sg =
     (if oo_offload opts then stagePayload (''payload-'' @ oo_runId opts @ ''-'' @ partition_text (sp_id p)) p sg else sg)"

function chunks :: "nat \<Rightarrow> 'a list \<Rightarrow> 'a list list" where
  "chunks n xs = (if xs = [] \<or> n = 0 then [] else take n xs # chunks n (drop n xs))"
  by pat_completeness auto
termination by (relation "measure (\<lambda>(n, xs). length xs)") auto

declare chunks.simps [simp del]

definition plan_run ::
  "OrchestratorOptions \<Rightarrow> (nat \<Rightarrow> millis) \<Rightarrow> NormalizedSettlement list \<Rightarrow> NormalizedBankTxn list \<Rightarrow> Shared \<Rightarrow> Pool" where
  "plan_run opts clock ss cs sh =
     (let partitions = partitionCandidates ss cs (oo_windowMs opts);
          messages = map (\<lambda>(i, p). partition_message opts (clock i) p) (enumerate 0 partitions);
          sg = fold (stage_partition opts) partitions (snd sh);
          q = fold (\<lambda>chunk q. fst (enqueueBatch chunk q)) (chunks 1000 messages) (fst sh);
          count = nat (max 1 (oo_workerCount opts))
      in \<lparr>pool_workers = map (\<lambda>i. new_worker (''worker-'' @ js_show_nat (i + 1)) None (Some 50)) [0..<count],
          pool_shared = (q, sg)\<rparr>)"

record DistributedScaleReport =
  ds_totalRecords :: nat
  ds_totalPartitions :: nat
  ds_workerCount :: nat
  ds_merkleRoot :: string
  ds_deadLetterCount :: nat
  ds_retryCount :: nat
  ds_indexed :: nat
  ds_bounded :: nat
  ds_review :: nat

definition audit_leaf :: "PartitionExecutionOutput \<Rightarrow> MerkleLeaf" where
  "audit_leaf r = \<lparr>lf_partitionId = po_partitionId r, lf_hash = po_auditHash r\<rparr>"

definition gather_report ::
  "WorkerEnv \<Rightarrow> OrchestratorOptions \<Rightarrow> NormalizedSettlement list \<Rightarrow> NormalizedBankTxn list \<Rightarrow> Pool \<Rightarrow> DistributedScaleReport" where
  "gather_report env opts ss cs pool =
     (let staged = readResults (''results-'' @ oo_runId opts) (snd (pool_shared pool));
          metrics = getMetrics (fst (pool_shared pool))
      in \<lparr>ds_totalRecords = length ss + length cs,
          ds_totalPartitions = length (partitionCandidates ss cs (oo_windowMs opts)),
          ds_workerCount = length (pool_workers pool),
          ds_merkleRoot = fst (buildBatchMerkleTree (we_sha256 env) (map audit_leaf staged)),
          ds_deadLetterCount = qm_deadLetterCount metrics, ds_retryCount = qm_retryCount metrics,
          ds_indexed = length (filter (\<lambda>r. po_strategy r = INDEXED) staged),
          ds_bounded = length (filter (\<lambda>r. po_strategy r = BOUNDED) staged),
          ds_review = length (filter (\<lambda>r. po_strategy r \<noteq> INDEXED \<and> po_strategy r \<noteq> BOUNDED) staged)\<rparr>)"

text \<open>\<open>Promise.all\<close> resolves when every worker has ended; a schedule after which one has not gives no report.\<close>

definition runDistributed ::
  "WorkerEnv \<Rightarrow> OrchestratorOptions \<Rightarrow> (nat \<Rightarrow> millis) \<Rightarrow> (nat \<times> millis) list \<Rightarrow> NormalizedSettlement list \<Rightarrow> NormalizedBankTxn list
     \<Rightarrow> Shared \<Rightarrow> DistributedScaleReport option" where
  "runDistributed env opts clock schedule ss cs sh =
     (let pool = pool_run env schedule (plan_run opts clock ss cs sh)
      in if pool_finished pool then Some (gather_report env opts ss cs pool) else None)"

end
