(* ===== verification/Distributed_Correct.thy ===== *)
theory Distributed_Correct
  imports Distributed Scale_Correct
begin

text \<open>
  The worker pool under every interleaving: while no lease expires and every payload can be read, each message
  is in one place (unread, in the hands of one worker, or completed), each output is staged once, the pool stops,
  and the Merkle root of the run does not depend on the interleaving.
\<close>

section \<open>A claim on available messages\<close>

definition unread :: "Queue \<Rightarrow> string list" where
  "unread q = drop (q_pendingReadIndex q) (q_pendingQueue q)"

definition available :: "millis \<Rightarrow> StoredMessage \<Rightarrow> bool" where
  "available now item = (sm_status item = MPending \<and> sm_nextAvailableAt item \<le> now)"

definition held :: "Queue \<Rightarrow> millis \<Rightarrow> PartitionLease \<Rightarrow> bool" where
  "held q until l = (\<exists>item. item_of q (lease_message_id l) = Some item \<and> sm_status item = MRunning
     \<and> sm_leaseId item = Some (pl_leaseId l) \<and> (\<exists>t \<ge> until. sm_leaseExpiresAt item = Some t))"

lemma held_cong: "item_of q' (lease_message_id l) = item_of q (lease_message_id l) \<Longrightarrow> held q' u l = held q u l"
  by (simp add: held_def)

lemma retry_put [simp]: "q_retryCounter (put_item mid item q) = q_retryCounter q"
  by (simp add: put_item_def)

definition claimed_from :: "Queue \<Rightarrow> Queue \<Rightarrow> millis \<Rightarrow> PartitionLease list \<Rightarrow> bool" where
  "claimed_from q q' until ls =
     (q_pendingQueue q' = q_pendingQueue q \<and> q_pendingReadIndex q' = q_pendingReadIndex q + length ls
      \<and> q_retryCounter q' = q_retryCounter q
      \<and> (\<forall>mid. mid \<notin> lease_message_id ` set ls \<longrightarrow> item_of q' mid = item_of q mid)
      \<and> (\<forall>l \<in> set ls. held q' until l
          \<and> (\<exists>item. item_of q (lease_message_id l) = Some item \<and> pl_message l = (sm_message item)\<lparr>pm_attempt := sm_retryCount item\<rparr>)))"

lemma claim_available:
  assumes "distinct ids" "[] \<notin> set ids" "length cl \<le> k"
    and "\<forall>mid \<in> set ids. \<exists>item. item_of q mid = Some item \<and> available now item \<and> pm_messageId (sm_message item) = mid"
  shows "\<exists>q' ls. claim_pending w k d now ids (q, cl) = (q', cl @ ls) \<and> map lease_message_id ls = take (k - length cl) ids
    \<and> claimed_from q q' (now + d) ls"
  using assms
proof (induction ids arbitrary: q cl)
  case Nil
  then show ?case by (auto simp: claimed_from_def)
next
  case (Cons mid ids)
  show ?case
  proof (cases "length cl < k")
    case False
    with Cons.prems(3) have "k = length cl" by simp
    then show ?thesis by (auto simp: claimed_from_def intro!: exI [of _ "[]"])
  next
    case True
    from Cons.prems(4) obtain item where item: "item_of q mid = Some item" "available now item" "pm_messageId (sm_message item) = mid"
      by auto
    let ?n = "q_leaseSequence q + 1"
    let ?it = "lease_item w (now + d) ?n item"
    let ?l = "make_lease w d now ?n (sm_message item) (sm_retryCount item)"
    let ?q = "(put_item mid ?it (q\<lparr>q_pendingReadIndex := q_pendingReadIndex q + 1\<rparr>))
        \<lparr>q_leaseSequence := ?n, q_activeLeases := add_active mid (q_activeLeases q)\<rparr>"
    have "\<exists>q' ls. claim_pending w k d now ids (?q, cl @ [?l]) = (q', (cl @ [?l]) @ ls)
        \<and> map lease_message_id ls = take (k - length (cl @ [?l])) ids \<and> claimed_from ?q q' (now + d) ls"
      by (rule Cons.IH) (use Cons.prems True in auto)
    then obtain q' ls where r: "claim_pending w k d now ids (?q, cl @ [?l]) = (q', (cl @ [?l]) @ ls)"
      "map lease_message_id ls = take (k - length (cl @ [?l])) ids" "claimed_from ?q q' (now + d) ls" by blast
    have notin: "mid \<notin> lease_message_id ` set ls"
      using r(2) Cons.prems(1) by (metis distinct.simps(2) in_set_takeD list.set_map)
    have lid: "lease_message_id ?l = mid" using item(3) by simp
    have "item_of q' mid = Some ?it" using r(3) notin by (simp add: claimed_from_def)
    then have h: "held q' (now + d) ?l" unfolding held_def lid by simp
    have "mid \<noteq> []" using Cons.prems(2) by auto
    then have step: "claim_pending w k d now (mid # ids) (q, cl) = (q', cl @ (?l # ls))"
      using True item r(1) by (simp add: available_def Let_def)
    have "take (k - length cl) (mid # ids) = mid # take (k - Suc (length cl)) ids"
      using True by (simp add: take_Cons')
    then have "map lease_message_id (?l # ls) = take (k - length cl) (mid # ids)" using r(2) lid by simp
    moreover have "claimed_from q q' (now + d) (?l # ls)"
      unfolding claimed_from_def
    proof (intro conjI ballI allI impI)
      fix l assume l: "l \<in> set (?l # ls)"
      show "held q' (now + d) l" using l h r(3) by (auto simp: claimed_from_def)
      show "\<exists>item. item_of q (lease_message_id l) = Some item \<and> pl_message l = (sm_message item)\<lparr>pm_attempt := sm_retryCount item\<rparr>"
      proof (cases "l = ?l")
        case True
        then show ?thesis using item by (simp add: make_lease_def lease_message_id_def)
      next
        case False
        with l have "l \<in> set ls" by simp
        then have "lease_message_id l \<noteq> mid" using notin by auto
        with \<open>l \<in> set ls\<close> r(3) show ?thesis by (auto simp: claimed_from_def)
      qed
    qed (use r(3) lid in \<open>auto simp: claimed_from_def\<close>)
    ultimately show ?thesis using step by blast
  qed
qed

lemma claim_none_expired:
  "\<forall>mid item. item_of q mid = Some item \<longrightarrow> \<not> lease_expired now item \<Longrightarrow> claim_expired w k d now ids (q, cl) = (q, cl)"
  by (induction ids) (auto split: option.splits)

lemma compact_retry [simp]: "q_retryCounter (compact q) = q_retryCounter q"
  by (simp add: compact_def)

lemma unread_compact [simp]: "unread (compact q) = unread q"
  by (simp add: unread_def)

lemma claimLeases_available:
  assumes "distinct (unread q)" "[] \<notin> set (unread q)"
    and "\<forall>mid \<in> set (unread q). \<exists>item. item_of q mid = Some item \<and> available now item \<and> pm_messageId (sm_message item) = mid"
    and "\<forall>mid item. item_of q mid = Some item \<longrightarrow> \<not> lease_expired now item" "0 < d"
  obtains q' ls where "claimLeases w k d now q = (q', ls)" "map lease_message_id ls = take k (unread q)"
    "unread q' = drop (length ls) (unread q)" "q_retryCounter q' = q_retryCounter q"
    "\<forall>mid. mid \<notin> lease_message_id ` set ls \<longrightarrow> item_of q' mid = item_of q mid"
    "\<forall>l \<in> set ls. held q' (now + d) l
          \<and> (\<exists>item. item_of q (lease_message_id l) = Some item \<and> pl_message l = (sm_message item)\<lparr>pm_attempt := sm_retryCount item\<rparr>)"
proof -
  from claim_available [OF assms(1,2) _ assms(3), of "[]" k w d] obtain q1 ls
    where c: "claim_pending w k d now (unread q) (q, []) = (q1, ls)" and ids: "map lease_message_id ls = take k (unread q)"
      and cf: "claimed_from q q1 (now + d) ls" by auto
  have "\<not> lease_expired now item" if "item_of (compact q1) mid = Some item" for mid item
  proof (cases "mid \<in> lease_message_id ` set ls")
    case True
    then obtain l where "l \<in> set ls" "lease_message_id l = mid" by auto
    with cf have "held q1 (now + d) l" by (simp add: claimed_from_def)
    with that \<open>lease_message_id l = mid\<close> assms(5) show ?thesis by (auto simp: held_def lease_expired_def)
  next
    case False
    with that cf assms(4) show ?thesis by (auto simp: claimed_from_def)
  qed
  then have "claim_expired w k d now ids' (compact q1, ls) = (compact q1, ls)" for ids' by (intro claim_none_expired) blast
  with c have r: "claimLeases w k d now q = (compact q1, ls)" by (simp add: claimLeases_def Let_def unread_def)
  show ?thesis
  proof (rule that [OF r ids])
    show "unread (compact q1) = drop (length ls) (unread q)" using cf by (simp add: claimed_from_def unread_def add.commute)
    show "\<forall>mid. mid \<notin> lease_message_id ` set ls \<longrightarrow> item_of (compact q1) mid = item_of q mid"
      using cf by (simp add: claimed_from_def)
    show "\<forall>l \<in> set ls. held (compact q1) (now + d) l
          \<and> (\<exists>item. item_of q (lease_message_id l) = Some item \<and> pl_message l = (sm_message item)\<lparr>pm_attempt := sm_retryCount item\<rparr>)"
      using cf by (simp add: claimed_from_def held_def)
  qed (use cf in \<open>simp add: claimed_from_def\<close>)
qed

section \<open>The invariant of the pool\<close>

definition hand :: "PartitionWorker \<Rightarrow> PartitionLease list" where
  "hand w = (case wk_phase w of Working _ _ _ ls _ \<Rightarrow> ls | _ \<Rightarrow> [])"

definition outputs :: "PartitionWorker \<Rightarrow> PartitionExecutionOutput list" where
  "outputs w = (case wk_phase w of Working _ _ _ _ rs \<Rightarrow> rs | _ \<Rightarrow> [])"

definition hands :: "PartitionWorker list \<Rightarrow> PartitionLease multiset" where
  "hands ws = mset (concat (map hand ws))"

text \<open>What an output says of its partition, without the worker that computed it and the time.\<close>

definition core :: "PartitionExecutionOutput \<Rightarrow> PartitionExecutionOutput" where
  "core r = r\<lparr>po_workerId := [], po_executedAt := 0\<rparr>"

definition expected_output :: "WorkerEnv \<Rightarrow> string \<Rightarrow> PartitionPayload \<Rightarrow> PartitionExecutionOutput" where
  "expected_output env runId payload = partition_output env [] 0 runId payload"

lemma core_output [simp]: "core (partition_output env w t runId payload) = expected_output env runId payload"
  by (simp add: core_def expected_output_def partition_output_def Let_def case_prod_beta)

definition worker_ok :: "string \<Rightarrow> millis \<Rightarrow> millis \<Rightarrow> bool \<Rightarrow> PartitionWorker \<Rightarrow> bool" where
  "worker_ok runId lo hi drained w =
     (0 < wk_batchSize w \<and> 0 < wk_leaseDurationMs w \<and> hi \<le> lo + wk_leaseDurationMs w
      \<and> (case wk_phase w of
           Polling idle \<Rightarrow> idle > 0 \<longrightarrow> drained
         | Working idle t r ls rs \<Rightarrow> r = runId \<and> (ls \<noteq> [] \<or> rs \<noteq> [])
         | Finished \<Rightarrow> drained))"

definition messages_ok :: "string \<Rightarrow> PartitionMessage list \<Rightarrow> bool" where
  "messages_ok runId msgs = (distinct (map pm_messageId msgs) \<and> [] \<notin> pm_messageId ` set msgs \<and> (\<forall>m \<in> set msgs. pm_runId m = runId))"

definition places_ok :: "PartitionMessage list \<Rightarrow> millis \<Rightarrow> millis \<Rightarrow> Queue \<Rightarrow> PartitionLease multiset \<Rightarrow> bool" where
  "places_ok msgs lo hi q hs =
     ((\<forall>mid. count (mset (unread q) + image_mset lease_message_id hs) mid \<le> 1)
      \<and> (\<forall>mid \<in> set (unread q). \<exists>item. item_of q mid = Some item \<and> available lo item \<and> sm_message item \<in> set msgs
           \<and> pm_messageId (sm_message item) = mid \<and> sm_retryCount item = pm_attempt (sm_message item))
      \<and> (\<forall>l \<in># hs. pl_message l \<in> set msgs \<and> held q hi l)
      \<and> (\<forall>mid item. item_of q mid = Some item \<longrightarrow> mid \<in> set (unread q) \<or> mid \<in># image_mset lease_message_id hs
           \<or> sm_status item = MCompleted)
      \<and> {mid. item_of q mid \<noteq> None} = pm_messageId ` set msgs \<and> q_retryCounter q = 0)"

definition conserved :: "WorkerEnv \<Rightarrow> string \<Rightarrow> PartitionMessage list \<Rightarrow> (string \<Rightarrow> PartitionPayload) \<Rightarrow> Pool \<Rightarrow> bool" where
  "conserved env runId msgs pay pool =
     (let expect = (\<lambda>mid. expected_output env runId (pay mid)); ws = pool_workers pool; (q, sg) = pool_shared pool
      in image_mset expect (mset (unread q)) + image_mset (expect \<circ> lease_message_id) (hands ws)
          + image_mset core (mset (concat (map outputs ws))) + image_mset core (mset (readResults (''results-'' @ runId) sg))
         = image_mset expect (mset (map pm_messageId msgs)))"

definition payloads_ok :: "PartitionMessage list \<Rightarrow> (string \<Rightarrow> PartitionPayload) \<Rightarrow> Storage \<Rightarrow> bool" where
  "payloads_ok msgs pay sg = (\<forall>l. pl_message l \<in> set msgs \<longrightarrow> resolvePayload sg l = Inr (pay (lease_message_id l)))"

definition pool_inv ::
  "WorkerEnv \<Rightarrow> string \<Rightarrow> PartitionMessage list \<Rightarrow> (string \<Rightarrow> PartitionPayload) \<Rightarrow> millis \<Rightarrow> millis \<Rightarrow> Pool \<Rightarrow> bool" where
  "pool_inv env runId msgs pay lo hi pool =
     (messages_ok runId msgs \<and> places_ok msgs lo hi (fst (pool_shared pool)) (hands (pool_workers pool))
      \<and> payloads_ok msgs pay (snd (pool_shared pool)) \<and> conserved env runId msgs pay pool
      \<and> (\<forall>w \<in> set (pool_workers pool). worker_ok runId lo hi (unread (fst (pool_shared pool)) = []) w))"

lemma mset_concat_update:
  "i < length ws \<Longrightarrow> mset (concat (map f (ws[i := w]))) + mset (f (ws ! i)) = mset (concat (map f ws)) + mset (f w)"
  by (induction ws arbitrary: i) (auto split: nat.splits)

lemma hands_update: "i < length ws \<Longrightarrow> hands (ws[i := w]) + mset (hand (ws ! i)) = hands ws + mset (hand w)"
  by (simp add: hands_def mset_concat_update)

lemma worker_ok_drained: "worker_ok runId lo hi d w \<Longrightarrow> (d \<Longrightarrow> d') \<Longrightarrow> worker_ok runId lo hi d' w"
  by (auto simp: worker_ok_def split: WorkerPhase.splits)

lemma rebalance:
  fixes u a b r X :: "'a multiset"
  assumes "u + a + b + r = X" "a' + ha = a + ha'" "b' + ob = b + ob'" "u' + ha' + ob' + r' = u + ha + ob + r"
  shows "u' + a' + b' + r' = X"
proof -
  have "(u' + a' + b' + r') + (ha + ob) = (u' + r') + ((a' + ha) + (b' + ob))" by (simp add: ac_simps)
  also have "\<dots> = (u' + ha' + ob' + r') + (a + b)" unfolding assms(2,3) by (simp add: ac_simps)
  also have "\<dots> = X + (ha + ob)" unfolding assms(4) assms(1) [symmetric] by (simp add: ac_simps)
  finally show ?thesis by simp
qed

text \<open>A worker's turn keeps the invariant when it moves messages between the places consistently.\<close>

lemma pool_invI:
  assumes inv: "pool_inv env runId msgs pay lo hi pool" and i: "i < length (pool_workers pool)"
    and w: "pool_workers pool ! i = w" and sh: "pool_shared pool = (q, sg)"
    and places: "places_ok msgs lo hi q' (hands ((pool_workers pool)[i := w']))"
    and payloads: "\<And>l. resolvePayload sg' l = resolvePayload sg l"
    and ok: "worker_ok runId lo hi (unread q' = []) w'" and drained: "unread q = [] \<Longrightarrow> unread q' = []"
    and moved: "image_mset (\<lambda>mid. expected_output env runId (pay mid)) (mset (unread q') + image_mset lease_message_id (mset (hand w')))
        + image_mset core (mset (outputs w') + mset (readResults (''results-'' @ runId) sg'))
      = image_mset (\<lambda>mid. expected_output env runId (pay mid)) (mset (unread q) + image_mset lease_message_id (mset (hand w)))
        + image_mset core (mset (outputs w) + mset (readResults (''results-'' @ runId) sg))"
  shows "pool_inv env runId msgs pay lo hi \<lparr>pool_workers = (pool_workers pool)[i := w'], pool_shared = (q', sg')\<rparr>"
proof -
  let ?ws = "pool_workers pool"
  let ?E = "\<lambda>mid. expected_output env runId (pay mid)"
  let ?key = "''results-'' @ runId"
  have h: "hands (?ws[i := w']) + mset (hand w) = hands ?ws + mset (hand w')" using hands_update [OF i] w by simp
  have o1: "mset (concat (map outputs (?ws[i := w']))) + mset (outputs w) = mset (concat (map outputs ?ws)) + mset (outputs w')"
    using mset_concat_update [OF i, of outputs w'] w by simp
  have h': "image_mset (?E \<circ> lease_message_id) (hands (?ws[i := w'])) + image_mset (?E \<circ> lease_message_id) (mset (hand w))
      = image_mset (?E \<circ> lease_message_id) (hands ?ws) + image_mset (?E \<circ> lease_message_id) (mset (hand w'))"
    using arg_cong [OF h, of "image_mset (?E \<circ> lease_message_id)"] by (simp only: image_mset_union)
  have o': "image_mset core (mset (concat (map outputs (?ws[i := w'])))) + image_mset core (mset (outputs w))
      = image_mset core (mset (concat (map outputs ?ws))) + image_mset core (mset (outputs w'))"
    using arg_cong [OF o1, of "image_mset core"] by (simp only: image_mset_union)
  have m: "image_mset ?E (mset (unread q')) + image_mset (?E \<circ> lease_message_id) (mset (hand w'))
        + image_mset core (mset (outputs w')) + image_mset core (mset (readResults ?key sg'))
      = image_mset ?E (mset (unread q)) + image_mset (?E \<circ> lease_message_id) (mset (hand w))
        + image_mset core (mset (outputs w)) + image_mset core (mset (readResults ?key sg))"
    using moved by (simp only: image_mset_union image_mset.compositionality add.assoc)
  have "conserved env runId msgs pay \<lparr>pool_workers = ?ws[i := w'], pool_shared = (q', sg')\<rparr>"
    using inv rebalance [OF _ h' o' m] unfolding pool_inv_def conserved_def sh Let_def by simp
  moreover have "\<forall>v \<in> set (?ws[i := w']). worker_ok runId lo hi (unread q' = []) v"
    using inv ok drained set_update_subset_insert [of ?ws i w'] sh unfolding pool_inv_def by (auto intro: worker_ok_drained)
  ultimately show ?thesis
    using inv places payloads sh by (simp add: pool_inv_def payloads_ok_def)
qed

section \<open>Every turn keeps the invariant\<close>

lemma count_le_one: "(\<forall>x. count (M + N) x \<le> 1) \<Longrightarrow> x \<in># M \<Longrightarrow> x \<notin># N"
proof
  assume a: "\<forall>x. count (M + N) x \<le> 1" and "x \<in># M" "x \<in># N"
  then have "count M x \<ge> 1" "count N x \<ge> 1" by (simp_all add: Suc_leI)
  with a [rule_format, of x] show False by simp
qed

lemma distinct_count_le: "\<forall>x. count (mset xs) x \<le> 1 \<Longrightarrow> distinct xs"
proof (induction xs)
  case (Cons a xs)
  have "count (mset xs) x \<le> 1" for x
    by (rule order_trans [OF _ Cons.prems [rule_format, of x]]) simp
  moreover have "a \<notin> set xs" using Cons.prems [rule_format, of a] by (simp add: count_eq_zero_iff)
  ultimately show ?case using Cons.IH by simp
qed simp

lemma places_ready:
  assumes "places_ok msgs lo hi q hs" "messages_ok runId msgs" "lo \<le> now" "now < hi"
  shows "distinct (unread q)" "[] \<notin> set (unread q)"
    and "\<forall>mid \<in> set (unread q). \<exists>item. item_of q mid = Some item \<and> available now item \<and> pm_messageId (sm_message item) = mid"
    and "\<forall>mid item. item_of q mid = Some item \<longrightarrow> \<not> lease_expired now item"
proof -
  have c: "\<forall>mid. count (mset (unread q) + image_mset lease_message_id hs) mid \<le> 1" using assms(1) unfolding places_ok_def by blast
  then have "\<forall>mid. count (mset (unread q)) mid \<le> 1" by (metis add_leD1 count_union)
  then show "distinct (unread q)" by (rule distinct_count_le)
  have unr: "\<forall>mid \<in> set (unread q). \<exists>item. item_of q mid = Some item \<and> available lo item \<and> sm_message item \<in> set msgs
           \<and> pm_messageId (sm_message item) = mid \<and> sm_retryCount item = pm_attempt (sm_message item)"
    using assms(1) unfolding places_ok_def by blast
  then show "[] \<notin> set (unread q)" using assms(2) unfolding messages_ok_def by (metis imageI)
  show av: "\<forall>mid \<in> set (unread q). \<exists>item. item_of q mid = Some item \<and> available now item \<and> pm_messageId (sm_message item) = mid"
  proof
    fix mid assume "mid \<in> set (unread q)"
    with unr obtain item where "item_of q mid = Some item" "available lo item" "pm_messageId (sm_message item) = mid" by blast
    then show "\<exists>item. item_of q mid = Some item \<and> available now item \<and> pm_messageId (sm_message item) = mid"
      using assms(3) by (auto simp: available_def)
  qed
  show "\<forall>mid item. item_of q mid = Some item \<longrightarrow> \<not> lease_expired now item"
  proof (intro allI impI)
    fix mid item assume item: "item_of q mid = Some item"
    with assms(1) consider "mid \<in> set (unread q)" | "mid \<in># image_mset lease_message_id hs" | "sm_status item = MCompleted"
      unfolding places_ok_def by blast
    then show "\<not> lease_expired now item"
    proof cases
      case 1
      with unr item show ?thesis by (auto simp: available_def lease_expired_def)
    next
      case 2
      then obtain l where "l \<in># hs" "lease_message_id l = mid" by auto
      with assms(1) have "held q hi l" unfolding places_ok_def by blast
      with item \<open>lease_message_id l = mid\<close> assms(4) show ?thesis by (auto simp: held_def lease_expired_def)
    qed (simp add: lease_expired_def)
  qed
qed

lemma places_claim:
  assumes places: "places_ok msgs lo hi q hs" and "lo \<le> now" "hi \<le> lo + d"
    and ids: "map lease_message_id ls = take k (unread q)" and rest: "unread q' = drop (length ls) (unread q)"
    and retry: "q_retryCounter q' = q_retryCounter q"
    and same: "\<forall>mid. mid \<notin> lease_message_id ` set ls \<longrightarrow> item_of q' mid = item_of q mid"
    and new: "\<forall>l \<in> set ls. held q' (now + d) l
          \<and> (\<exists>item. item_of q (lease_message_id l) = Some item \<and> pl_message l = (sm_message item)\<lparr>pm_attempt := sm_retryCount item\<rparr>)"
  shows "places_ok msgs lo hi q' (hs + mset ls)" and "mset (unread q') + image_mset lease_message_id (mset ls) = mset (unread q)"
proof -
  have len: "length ls = min k (length (unread q))" using arg_cong [OF ids, of length] by (simp add: min.commute)
  then have "unread q = map lease_message_id ls @ unread q'" unfolding ids rest by (simp add: min_def)
  then have split: "mset (unread q) = mset (unread q') + image_mset lease_message_id (mset ls)" by simp
  then show "mset (unread q') + image_mset lease_message_id (mset ls) = mset (unread q)" by simp
  have one: "\<forall>mid. count (mset (unread q) + image_mset lease_message_id hs) mid \<le> 1" using places unfolding places_ok_def by blast
  then have one': "\<forall>mid. count (mset (unread q') + image_mset lease_message_id (hs + mset ls)) mid \<le> 1"
    unfolding split by (simp add: ac_simps)
  have apart: "mid \<notin> lease_message_id ` set ls" if "mid \<in> set (unread q') \<or> mid \<in># image_mset lease_message_id hs" for mid
    using count_le_one [of "mset (unread q') + image_mset lease_message_id hs" "image_mset lease_message_id (mset ls)" mid] one' that
    by (auto simp: ac_simps)
  have unr: "\<forall>mid \<in> set (unread q). \<exists>item. item_of q mid = Some item \<and> available lo item \<and> sm_message item \<in> set msgs
           \<and> pm_messageId (sm_message item) = mid \<and> sm_retryCount item = pm_attempt (sm_message item)"
    using places unfolding places_ok_def by blast
  have sub: "set (unread q') \<subseteq> set (unread q)" "lease_message_id ` set ls \<subseteq> set (unread q)"
    using split by (metis Un_upper1 set_mset_union set_mset_mset, metis Un_upper2 set_mset_union set_image_mset set_mset_mset)
  show "places_ok msgs lo hi q' (hs + mset ls)"
    unfolding places_ok_def
  proof (intro conjI)
    show "\<forall>mid \<in> set (unread q'). \<exists>item. item_of q' mid = Some item \<and> available lo item \<and> sm_message item \<in> set msgs
           \<and> pm_messageId (sm_message item) = mid \<and> sm_retryCount item = pm_attempt (sm_message item)"
    proof
      fix mid assume m: "mid \<in> set (unread q')"
      then have "item_of q' mid = item_of q mid" using apart same by simp
      with unr sub m show "\<exists>item. item_of q' mid = Some item \<and> available lo item \<and> sm_message item \<in> set msgs
           \<and> pm_messageId (sm_message item) = mid \<and> sm_retryCount item = pm_attempt (sm_message item)" by (metis subsetD)
    qed
    show "\<forall>l \<in># hs + mset ls. pl_message l \<in> set msgs \<and> held q' hi l"
    proof
      fix l assume "l \<in># hs + mset ls"
      then consider "l \<in># hs" | "l \<in> set ls" by auto
      then show "pl_message l \<in> set msgs \<and> held q' hi l"
      proof cases
        case 1
        then have "item_of q' (lease_message_id l) = item_of q (lease_message_id l)" using apart [of "lease_message_id l"] same by auto
        from held_cong [OF this] 1 places show ?thesis unfolding places_ok_def by blast
      next
        case 2
        with new obtain item where item: "held q' (now + d) l" "item_of q (lease_message_id l) = Some item"
          "pl_message l = (sm_message item)\<lparr>pm_attempt := sm_retryCount item\<rparr>" by blast
        from 2 sub have "lease_message_id l \<in> set (unread q)" by auto
        with unr item(2) have "sm_message item \<in> set msgs" "sm_retryCount item = pm_attempt (sm_message item)" by auto
        moreover have "held q' hi l" using item(1) assms(2,3) unfolding held_def by fastforce
        ultimately show ?thesis using item(3) by simp
      qed
    qed
    show "\<forall>mid item. item_of q' mid = Some item \<longrightarrow> mid \<in> set (unread q') \<or> mid \<in># image_mset lease_message_id (hs + mset ls)
           \<or> sm_status item = MCompleted"
    proof (intro allI impI)
      fix mid item assume i: "item_of q' mid = Some item"
      show "mid \<in> set (unread q') \<or> mid \<in># image_mset lease_message_id (hs + mset ls) \<or> sm_status item = MCompleted"
      proof (cases "mid \<in> lease_message_id ` set ls")
        case False
        with same i have "item_of q mid = Some item" by simp
        then have "mid \<in> set (unread q) \<or> mid \<in># image_mset lease_message_id hs \<or> sm_status item = MCompleted"
          using places unfolding places_ok_def by blast
        then show ?thesis using False split by (metis Un_iff set_image_mset set_mset_mset set_mset_union image_Un)
      qed auto
    qed
    show "{mid. item_of q' mid \<noteq> None} = pm_messageId ` set msgs"
    proof -
      have "item_of q' mid \<noteq> None \<longleftrightarrow> item_of q mid \<noteq> None" for mid
        using same new by (cases "mid \<in> lease_message_id ` set ls") (auto simp: held_def)
      then show ?thesis using places unfolding places_ok_def by simp
    qed
  qed (use one' retry places in \<open>simp_all add: places_ok_def\<close>)
qed

lemma places_ack:
  assumes places: "places_ok msgs lo hi q hs'" and hs': "hs' = add_mset l hs"
  shows "places_ok msgs lo hi (snd (ackLease l q)) hs" and "unread (snd (ackLease l q)) = unread q"
proof -
  have "held q hi l" using places unfolding places_ok_def hs' by simp
  then obtain item where item: "item_of q (lease_message_id l) = Some item" "sm_status item = MRunning"
    "sm_leaseId item = Some (pl_leaseId l)" by (auto simp: held_def)
  then have r: "\<exists>item'. sm_status item' = MCompleted \<and> item_of (snd (ackLease l q)) = (item_of q)(lease_message_id l \<mapsto> item')"
    by (intro exI [of _ "(drop_lease item)\<lparr>sm_status := MCompleted,
         sm_message := (sm_message item)\<lparr>pm_payloadInline := None\<rparr>\<rparr>"]) (simp add: ackLease_def fun_eq_iff)
  then obtain item' where item': "sm_status item' = MCompleted" "item_of (snd (ackLease l q)) = (item_of q)(lease_message_id l \<mapsto> item')" by blast
  show unr: "unread (snd (ackLease l q)) = unread q" using item by (simp add: ackLease_def unread_def)
  have retry: "q_retryCounter (snd (ackLease l q)) = q_retryCounter q" using item by (simp add: ackLease_def)
  have one: "\<forall>mid. count (mset (unread q) + image_mset lease_message_id hs') mid \<le> 1" using places unfolding places_ok_def by blast
  then have "\<forall>mid. count ((mset (unread q) + image_mset lease_message_id hs) + {#lease_message_id l#}) mid \<le> 1" by (simp add: hs')
  then have apart: "mid \<noteq> lease_message_id l" if "mid \<in> set (unread q) \<or> mid \<in># image_mset lease_message_id hs" for mid
    using count_le_one [of "mset (unread q) + image_mset lease_message_id hs" "{#lease_message_id l#}" mid] that by auto
  have one': "\<forall>mid. count (mset (unread q) + image_mset lease_message_id hs) mid \<le> 1"
  proof
    fix mid show "count (mset (unread q) + image_mset lease_message_id hs) mid \<le> 1"
      by (rule order_trans [OF _ one [rule_format, of mid]]) (simp add: hs')
  qed
  show "places_ok msgs lo hi (snd (ackLease l q)) hs"
    unfolding places_ok_def unr item'(2)
  proof (intro conjI one')
    show "\<forall>mid \<in> set (unread q). \<exists>item. ((item_of q)(lease_message_id l \<mapsto> item')) mid = Some item \<and> available lo item
        \<and> sm_message item \<in> set msgs \<and> pm_messageId (sm_message item) = mid \<and> sm_retryCount item = pm_attempt (sm_message item)"
      using places apart unfolding places_ok_def by (metis fun_upd_other)
    show "\<forall>l' \<in># hs. pl_message l' \<in> set msgs \<and> held (snd (ackLease l q)) hi l'"
    proof
      fix l' assume "l' \<in># hs"
      then have "lease_message_id l' \<noteq> lease_message_id l" using apart by (metis image_eqI set_image_mset)
      then have "item_of (snd (ackLease l q)) (lease_message_id l') = item_of q (lease_message_id l')" by (simp add: item'(2))
      from held_cong [OF this] \<open>l' \<in># hs\<close> places show "pl_message l' \<in> set msgs \<and> held (snd (ackLease l q)) hi l'"
        unfolding places_ok_def hs' by simp
    qed
    show "\<forall>mid item. ((item_of q)(lease_message_id l \<mapsto> item')) mid = Some item \<longrightarrow>
        mid \<in> set (unread q) \<or> mid \<in># image_mset lease_message_id hs \<or> sm_status item = MCompleted"
    proof (intro allI impI)
      fix mid it assume i: "((item_of q)(lease_message_id l \<mapsto> item')) mid = Some it"
      show "mid \<in> set (unread q) \<or> mid \<in># image_mset lease_message_id hs \<or> sm_status it = MCompleted"
      proof (cases "mid = lease_message_id l")
        case False
        with i have "item_of q mid = Some it" by simp
        then have "mid \<in> set (unread q) \<or> mid \<in># image_mset lease_message_id hs' \<or> sm_status it = MCompleted"
          using places unfolding places_ok_def by blast
        with False show ?thesis by (simp add: hs')
      qed (use i item' in simp)
    qed
    show "{mid. ((item_of q)(lease_message_id l \<mapsto> item')) mid \<noteq> None} = pm_messageId ` set msgs"
    proof -
      have "((item_of q)(lease_message_id l \<mapsto> item')) mid \<noteq> None \<longleftrightarrow> item_of q mid \<noteq> None" for mid using item(1) by simp
      then show ?thesis using places unfolding places_ok_def by presburger
    qed
    show "q_retryCounter (snd (ackLease l q)) = 0" using places retry unfolding places_ok_def by simp
  qed
qed

lemma read_stage [simp]: "readResults key (stageResults key rs sg) = readResults key sg @ rs"
  by (simp add: readResults_def stageResults_def update_conv)

lemma resolve_stage [simp]: "resolvePayload (stageResults key rs sg) l = resolvePayload sg l"
  by (simp add: resolvePayload_def readPayload_def stageResults_def split: option.splits)

lemma poll_inv:
  assumes inv: "pool_inv env runId msgs pay lo hi pool" and i: "i < length (pool_workers pool)"
    and w: "pool_workers pool ! i = w" "wk_phase w = Polling idle" and sh: "pool_shared pool = (q, sg)"
    and t: "lo \<le> now" "now < hi"
    and turn: "poll_queue maxIdle idle now w (q, sg) = (w', sh')"
  shows "pool_inv env runId msgs pay lo hi \<lparr>pool_workers = (pool_workers pool)[i := w'], pool_shared = sh'\<rparr>"
proof -
  let ?ws = "pool_workers pool" and ?d = "wk_leaseDurationMs w" and ?k = "wk_batchSize w"
  have places: "places_ok msgs lo hi q (hands ?ws)" and m: "messages_ok runId msgs" using inv sh by (simp_all add: pool_inv_def)
  have ok: "worker_ok runId lo hi (unread q = []) w" using inv i w(1) sh by (metis pool_inv_def fst_conv nth_mem)
  then have d: "0 < ?d" "hi \<le> lo + ?d" "0 < ?k" by (simp_all add: worker_ok_def)
  from claimLeases_available [OF places_ready [OF places m t] d(1), of "wk_workerId w" ?k] obtain q' ls
    where c: "claimLeases (wk_workerId w) ?k ?d now q = (q', ls)" and ids: "map lease_message_id ls = take ?k (unread q)"
      and rest: "unread q' = drop (length ls) (unread q)" "q_retryCounter q' = q_retryCounter q"
        "\<forall>mid. mid \<notin> lease_message_id ` set ls \<longrightarrow> item_of q' mid = item_of q mid"
        "\<forall>l \<in> set ls. held q' (now + ?d) l
          \<and> (\<exists>item. item_of q (lease_message_id l) = Some item \<and> pl_message l = (sm_message item)\<lparr>pm_attempt := sm_retryCount item\<rparr>)"
    by blast
  note claim = places_claim [OF places t(1) d(2) ids rest]
  have hw: "hand w = []" "outputs w = []" using w(2) by (simp_all add: hand_def outputs_def)
  have sh': "sh' = (q', sg)" and hw': "hand w' = ls" "outputs w' = []"
    using turn c by (auto simp: poll_queue_def hand_def outputs_def after_batch_def split: list.splits)
  have hs: "hands (?ws[i := w']) = hands ?ws + mset ls" using hands_update [OF i, of w'] hw hw' w(1) by simp
  have run: "pm_runId (pl_message l) = runId" if "l \<in> set ls" for l
    using claim(1) m that unfolding places_ok_def messages_ok_def by simp
  have ok': "worker_ok runId lo hi (unread q' = []) w'"
  proof (cases ls)
    case Nil
    then have "unread q = []" using ids d(3) by (metis gr_implies_not0 list.map_disc_iff take_eq_Nil)
    then have "unread q' = []" using rest(1) by simp
    with Nil turn c d show ?thesis by (auto simp: poll_queue_def after_batch_def worker_ok_def)
  next
    case (Cons l ls')
    with turn c d run [of l] show ?thesis by (auto simp: poll_queue_def worker_ok_def)
  qed
  show ?thesis unfolding sh'
  proof (rule pool_invI [OF inv i w(1) sh])
    show "places_ok msgs lo hi q' (hands (?ws[i := w']))" using claim(1) by (simp add: hs)
    show "unread q = [] \<Longrightarrow> unread q' = []" using rest(1) by simp
  qed (use ok' claim(2) hw hw' in simp_all)
qed

lemma process_inv:
  assumes inv: "pool_inv env runId msgs pay lo hi pool" and i: "i < length (pool_workers pool)"
    and w: "pool_workers pool ! i = w" "wk_phase w = Working idle tb r (l # ls) rs" and sh: "pool_shared pool = (q, sg)"
    and turn: "process_lease env idle tb r l ls rs now w (q, sg) = (w', sh')"
  shows "pool_inv env runId msgs pay lo hi \<lparr>pool_workers = (pool_workers pool)[i := w'], pool_shared = sh'\<rparr>"
proof -
  let ?ws = "pool_workers pool"
  have places: "places_ok msgs lo hi q (hands ?ws)" and m: "messages_ok runId msgs" and pay: "payloads_ok msgs pay sg"
    using inv sh by (simp_all add: pool_inv_def)
  have ok: "worker_ok runId lo hi (unread q = []) w" using inv i w(1) sh by (metis pool_inv_def fst_conv nth_mem)
  have hw: "hand w = l # ls" "outputs w = rs" using w(2) by (simp_all add: hand_def outputs_def)
  have "l \<in># hands ?ws" using w(1) hw(1) nth_mem [OF i] by (auto simp: hands_def intro!: bexI [of _ "?ws ! i"])
  then have l: "pl_message l \<in> set msgs" using places unfolding places_ok_def by blast
  then have res: "resolvePayload sg l = Inr (pay (lease_message_id l))" and run: "pm_runId (pl_message l) = runId"
    using pay m by (auto simp: payloads_ok_def messages_ok_def)
  have sh': "sh' = (snd (ackLease l q), sg)" and hw': "hand w' = ls"
      "outputs w' = rs @ [partition_output env (wk_workerId w) tb runId (pay (lease_message_id l))]"
    using turn res run by (auto simp: process_lease_def hand_def outputs_def)
  have "hands (?ws[i := w']) + mset (l # ls) = hands ?ws + mset ls" using hands_update [OF i, of w'] hw hw' w(1) by simp
  then have hs: "hands ?ws = add_mset l (hands (?ws[i := w']))" by simp
  note ack = places_ack [OF places hs]
  have ok': "worker_ok runId lo hi (unread (snd (ackLease l q)) = []) w'"
    using ok turn res w(2) by (auto simp: process_lease_def worker_ok_def)
  show ?thesis unfolding sh'
    by (rule pool_invI [OF inv i w(1) sh ack(1) _ ok']) (use ack(2) hw hw' in simp_all)
qed

lemma stage_inv:
  assumes inv: "pool_inv env runId msgs pay lo hi pool" and i: "i < length (pool_workers pool)"
    and w: "pool_workers pool ! i = w" "wk_phase w = Working idle tb r [] rs" and sh: "pool_shared pool = (q, sg)"
    and turn: "stage_batch maxIdle idle r rs w (q, sg) = (w', sh')"
  shows "pool_inv env runId msgs pay lo hi \<lparr>pool_workers = (pool_workers pool)[i := w'], pool_shared = sh'\<rparr>"
proof -
  let ?ws = "pool_workers pool"
  have places: "places_ok msgs lo hi q (hands ?ws)" using inv sh by (simp_all add: pool_inv_def)
  have ok: "worker_ok runId lo hi (unread q = []) w" using inv i w(1) sh by (metis pool_inv_def fst_conv nth_mem)
  then have r: "r = runId" "rs \<noteq> []" using w(2) by (auto simp: worker_ok_def)
  have hw: "hand w = []" "outputs w = rs" using w(2) by (simp_all add: hand_def outputs_def)
  have sh': "sh' = (q, stageResults (''results-'' @ runId) rs sg)" and hw': "hand w' = []" "outputs w' = []"
    using turn r by (auto simp: stage_batch_def hand_def outputs_def after_batch_def)
  have hs: "hands (?ws[i := w']) = hands ?ws" using hands_update [OF i, of w'] hw hw' w(1) by simp
  have ok': "worker_ok runId lo hi (unread q = []) w'"
    using ok turn r(2) by (auto simp: stage_batch_def worker_ok_def after_batch_def)
  show ?thesis unfolding sh'
    by (rule pool_invI [OF inv i w(1) sh]) (use places hs ok' hw hw' in simp_all)
qed

theorem pool_turn_inv:
  assumes "pool_inv env runId msgs pay lo hi pool" "lo \<le> snd turn" "snd turn < hi"
  shows "pool_inv env runId msgs pay lo hi (pool_turn env turn pool)"
proof (cases "fst turn < length (pool_workers pool)")
  case True
  obtain q sg where sh: "pool_shared pool = (q, sg)" by fastforce
  let ?w = "pool_workers pool ! fst turn"
  obtain w' sh' where t: "worker_turn env 3 (snd turn) ?w (q, sg) = (w', sh')" by (metis surj_pair)
  have next_pool: "pool_turn env turn pool = \<lparr>pool_workers = (pool_workers pool)[fst turn := w'], pool_shared = sh'\<rparr>"
    using True t sh by (simp add: pool_turn_def)
  show ?thesis
  proof (cases "wk_phase ?w")
    case (Polling idle)
    with t show ?thesis unfolding next_pool
      by (intro poll_inv [OF assms(1) True refl Polling sh assms(2,3)]) (simp add: worker_turn_def)
  next
    case (Working idle tb r ls rs)
    show ?thesis
    proof (cases ls)
      case Nil
      with Working t show ?thesis unfolding next_pool
        by (intro stage_inv [OF assms(1) True refl _ sh]) (simp_all add: worker_turn_def)
    next
      case (Cons l ls')
      with Working t show ?thesis unfolding next_pool
        by (intro process_inv [OF assms(1) True refl _ sh]) (simp_all add: worker_turn_def)
    qed
  next
    case Finished
    with t have "w' = ?w" "sh' = (q, sg)" by (simp_all add: worker_turn_def)
    then have "pool_turn env turn pool = pool" using next_pool sh by simp
    with assms(1) show ?thesis by simp
  qed
qed (use assms(1) in \<open>simp add: pool_turn_def\<close>)

end
