(* ===== verification/Distributed_Run.thy ===== *)
theory Distributed_Run
  imports Distributed_Correct
begin

text \<open>
  Whole distributed runs: planning fills the queue with one message per partition, any interleaving of the workers
  stops, and when they have stopped every partition's output is staged exactly once, so the report and its Merkle root
  depend on the records alone.
\<close>

section \<open>Texts of partition ids\<close>

lemma takeWhile_stop: "d \<notin> set xs \<Longrightarrow> takeWhile (\<lambda>c. c \<noteq> d) (xs @ d # ys) = xs"
  by (induction xs) auto

lemma image_neq: "f x \<notin> f ` S \<Longrightarrow> y \<in> S \<Longrightarrow> f y \<noteq> f x"
  by (metis imageI)

lemma partition_text_index: "partition_text p = partition_text p' \<Longrightarrow> snd p = snd p'"
proof -
  have no_dash: "CHR ''-'' \<notin> set (js_show_nat n)" for n
  proof
    assume "CHR ''-'' \<in> set (js_show_nat n)"
    from js_show_nat_digits [OF this] show False by simp
  qed
  have "takeWhile (\<lambda>c. c \<noteq> CHR ''-'') (rev (partition_text x)) = rev (js_show_nat (snd x))" for x
    unfolding partition_text_def using no_dash [of "snd x"]
    by (simp add: takeWhile_stop)
  then show "partition_text p = partition_text p' \<Longrightarrow> snd p = snd p'" by (metis js_show_nat_inject rev_rev_ident)
qed

lemma partition_texts_distinct: "distinct (map (partition_text \<circ> sp_id) (partitionCandidates ss cs w))"
proof -
  have "map (snd \<circ> sp_id) (partitionCandidates ss cs w) = map snd (map sp_id (partitionCandidates ss cs w))" by simp
  also have "\<dots> = map fst (enumerate 0 (bucket_keys ss cs w))" unfolding partition_fields(1) by (simp add: comp_def)
  also have "\<dots> = [0..<length (bucket_keys ss cs w)]" by simp
  finally have "inj_on (snd \<circ> sp_id) (set (partitionCandidates ss cs w))" "distinct (partitionCandidates ss cs w)"
    by (metis distinct_map distinct_upt)+
  then show ?thesis unfolding distinct_map
    by (metis (mono_tags, lifting) comp_apply inj_on_def partition_text_index)
qed

section \<open>Planning\<close>

lemma concat_chunks: "0 < n \<Longrightarrow> concat (chunks n xs) = xs"
proof (induction n xs rule: chunks.induct)
  case (1 n xs)
  then show ?case by (subst chunks.simps) auto
qed

definition fresh_item :: "PartitionMessage \<Rightarrow> StoredMessage" where
  "fresh_item msg = \<lparr>sm_message = msg, sm_status = MPending, sm_leaseId = None, sm_workerId = None, sm_leaseExpiresAt = None,
     sm_retryCount = pm_attempt msg, sm_nextAvailableAt = pm_enqueuedAt msg, sm_lastError = None\<rparr>"

definition push_message :: "PartitionMessage \<Rightarrow> Queue \<Rightarrow> Queue" where
  "push_message msg q = fst (enqueue_one msg (q, 0))"

lemma enqueue_push: "fst (fold enqueue_one msgs (q, n)) = fold push_message msgs q"
proof (induction msgs arbitrary: q n)
  case (Cons msg msgs)
  have "fst (enqueue_one msg (q, n)) = push_message msg q" by (simp add: enqueue_one_def push_message_def)
  with Cons show ?case by (metis fold_simps(2) prod.collapse)
qed simp

lemma enqueue_chunks: "fold (\<lambda>chunk q. fst (enqueueBatch chunk q)) css q = fold push_message (concat css) q"
  by (induction css arbitrary: q) (simp_all add: enqueueBatch_def enqueue_push)

lemma push_fresh:
  assumes "distinct (map pm_messageId msgs)" "\<forall>m \<in> set msgs. item_of q (pm_messageId m) = None"
  shows "q_pendingQueue (fold push_message msgs q) = q_pendingQueue q @ map pm_messageId msgs
    \<and> q_pendingReadIndex (fold push_message msgs q) = q_pendingReadIndex q
    \<and> q_retryCounter (fold push_message msgs q) = q_retryCounter q
    \<and> (\<forall>m \<in> set msgs. item_of (fold push_message msgs q) (pm_messageId m) = Some (fresh_item m))
    \<and> (\<forall>mid. mid \<notin> pm_messageId ` set msgs \<longrightarrow> item_of (fold push_message msgs q) mid = item_of q mid)"
  using assms
proof (induction msgs arbitrary: q)
  case (Cons msg msgs)
  let ?q = "(put_item (pm_messageId msg) (fresh_item msg) q)\<lparr>q_pendingQueue := q_pendingQueue q @ [pm_messageId msg]\<rparr>"
  have p: "push_message msg q = ?q" using Cons.prems(2) by (simp add: push_message_def enqueue_one_def fresh_item_def)
  have "pm_messageId m \<noteq> pm_messageId msg" if "m \<in> set msgs" for m
    using image_neq [of pm_messageId msg "set msgs" m] Cons.prems(1) that by simp
  then have "\<forall>m \<in> set msgs. item_of ?q (pm_messageId m) = None" using Cons.prems by simp
  with Cons.IH [of ?q] Cons.prems(1) show ?case by (auto simp: p)
qed simp

definition run_messages :: "OrchestratorOptions \<Rightarrow> (nat \<Rightarrow> millis) \<Rightarrow> ScalePartition list \<Rightarrow> PartitionMessage list" where
  "run_messages opts clock ps = map (\<lambda>(i, p). partition_message opts (clock i) p) (enumerate 0 ps)"

definition message_key :: "OrchestratorOptions \<Rightarrow> ScalePartition \<Rightarrow> string" where
  "message_key opts p = ''msg-'' @ oo_runId opts @ ''-'' @ partition_text (sp_id p)"

lemma message_key_eq: "message_key opts p = message_key opts p' \<longleftrightarrow> partition_text (sp_id p) = partition_text (sp_id p')"
  by (simp add: message_key_def)

lemma run_message_ids: "map pm_messageId (run_messages opts clock ps) = map (message_key opts) ps"
proof -
  have "map pm_messageId (run_messages opts clock ps) = map (message_key opts \<circ> snd) (enumerate 0 ps)"
    by (simp add: run_messages_def partition_message_def message_key_def Let_def comp_def case_prod_beta)
  then show ?thesis by (metis list.map_comp map_snd_enumerate)
qed

lemma in_run_messages: "m \<in> set (run_messages opts clock ps) \<Longrightarrow> \<exists>i p. p \<in> set ps \<and> m = partition_message opts (clock i) p"
proof -
  assume "m \<in> set (run_messages opts clock ps)"
  then obtain i p where "(i, p) \<in> set (enumerate 0 ps)" "m = partition_message opts (clock i) p" by (auto simp: run_messages_def)
  moreover from this(1) have "p \<in> snd ` set (enumerate 0 ps)" by force
  then have "p \<in> set ps" by (metis map_snd_enumerate set_map)
  ultimately show ?thesis by blast
qed

lemma staged_payloads:
  assumes "distinct (map (partition_text \<circ> sp_id) ps)" "oo_offload opts"
  shows "p \<in> set ps \<Longrightarrow> readPayload (''payload-'' @ oo_runId opts @ ''-'' @ partition_text (sp_id p)) (fold (stage_partition opts) ps sg) = Inr p"
  using assms
proof (induction ps arbitrary: sg rule: rev_induct)
  case (snoc x ps)
  show ?case
  proof (cases "p = x")
    case True
    with snoc show ?thesis by (simp add: stage_partition_def stagePayload_def readPayload_def update_conv)
  next
    case False
    with snoc.prems have p: "p \<in> set ps" by simp
    then have "partition_text (sp_id p) \<noteq> partition_text (sp_id x)"
      using image_neq [of "partition_text \<circ> sp_id" x "set ps" p] snoc.prems by simp
    with p snoc show ?thesis by (simp add: stage_partition_def stagePayload_def readPayload_def update_conv)
  qed
qed simp

lemma staging_keeps_results: "readResults key (fold (stage_partition opts) ps sg) = readResults key sg"
  by (induction ps arbitrary: sg) (simp_all add: stage_partition_def stagePayload_def readResults_def)

section \<open>The start of a run\<close>

definition payload_at :: "OrchestratorOptions \<Rightarrow> ScalePartition list \<Rightarrow> string \<Rightarrow> PartitionPayload" where
  "payload_at opts ps mid = the (map_of (map (\<lambda>p. (message_key opts p, p)) ps) mid)"

lemma payload_at_key:
  assumes "distinct (map (partition_text \<circ> sp_id) ps)" "p \<in> set ps"
  shows "payload_at opts ps (message_key opts p) = p"
proof -
  have "distinct (map fst (map (\<lambda>p. (message_key opts p, p)) ps))"
    using assms(1) by (simp add: comp_def distinct_map inj_on_def message_key_eq)
  then have "map_of (map (\<lambda>p. (message_key opts p, p)) ps) (message_key opts p) = Some p"
    using assms(2) by (intro map_of_is_SomeI) auto
  then show ?thesis by (simp add: payload_at_def)
qed

definition fresh_shared :: Shared where
  "fresh_shared = (new_queue None, new_storage)"

lemma new_workers: "w \<in> set (pool_workers (plan_run opts clock ss cs sh)) \<Longrightarrow>
    wk_phase w = Polling 0 \<and> wk_batchSize w = 50 \<and> wk_leaseDurationMs w = 30000"
  by (auto simp: plan_run_def Let_def new_worker_def)

lemma no_hands: "\<forall>w \<in> set ws. wk_phase w = Polling 0 \<Longrightarrow> hands ws = {#} \<and> concat (map outputs ws) = []"
  by (induction ws) (auto simp: hands_def hand_def outputs_def)

lemma plan_run_queue:
  assumes "ps = partitionCandidates ss cs (oo_windowMs opts)"
  shows "pool_shared (plan_run opts clock ss cs sh)
    = (fold push_message (run_messages opts clock ps) (fst sh), fold (stage_partition opts) ps (snd sh))"
  by (simp add: plan_run_def Let_def enqueue_chunks concat_chunks assms run_messages_def)

lemma plan_run_inv:
  assumes ps: "ps = partitionCandidates ss cs (oo_windowMs opts)" and t: "\<forall>i. clock i \<le> lo" "hi \<le> lo + 30000"
  shows "pool_inv env (oo_runId opts) (run_messages opts clock ps) (payload_at opts ps) lo hi (plan_run opts clock ss cs fresh_shared)"
proof -
  let ?pool = "plan_run opts clock ss cs fresh_shared" and ?msgs = "run_messages opts clock ps"
  let ?q = "fold push_message ?msgs (new_queue None)" and ?sg = "fold (stage_partition opts) ps new_storage"
  have d: "distinct (map (partition_text \<circ> sp_id) ps)" unfolding ps by (rule partition_texts_distinct)
  then have ids: "distinct (map pm_messageId ?msgs)"
    unfolding run_message_ids by (simp add: distinct_map inj_on_def message_key_eq comp_def)
  have sh: "pool_shared ?pool = (?q, ?sg)" using plan_run_queue [OF ps, of clock fresh_shared] by (simp add: fresh_shared_def)
  have none: "item_of (new_queue None) mid = None" for mid by (simp add: item_of_def new_queue_def)
  note fresh = push_fresh [OF ids, of "new_queue None"]
  have q: "unread ?q = map pm_messageId ?msgs" "q_retryCounter ?q = 0"
    "\<forall>m \<in> set ?msgs. item_of ?q (pm_messageId m) = Some (fresh_item m)"
    "\<forall>mid. mid \<notin> pm_messageId ` set ?msgs \<longrightarrow> item_of ?q mid = None"
    using fresh none by (simp_all add: unread_def new_queue_def)
  have msg: "pm_runId m = oo_runId opts \<and> pm_messageId m \<noteq> [] \<and> pm_enqueuedAt m \<le> lo" if "m \<in> set ?msgs" for m
    using in_run_messages [OF that] t(1) by (auto simp: partition_message_def Let_def)
  have ws: "\<forall>w \<in> set (pool_workers ?pool). wk_phase w = Polling 0" using new_workers by blast
  note empty = no_hands [OF ws]
  have "messages_ok (oo_runId opts) ?msgs" using ids msg by (force simp: messages_ok_def)
  moreover have "places_ok ?msgs lo hi ?q (hands (pool_workers ?pool))"
    unfolding places_ok_def empty [THEN conjunct1] q(1)
  proof (intro conjI)
    show "\<forall>mid. count (mset (map pm_messageId ?msgs) + image_mset lease_message_id {#}) mid \<le> 1"
      using ids by (simp add: distinct_count_atmost_1 flip: mset_map)
    show "\<forall>mid \<in> set (map pm_messageId ?msgs). \<exists>item. item_of ?q mid = Some item \<and> available lo item \<and> sm_message item \<in> set ?msgs
           \<and> pm_messageId (sm_message item) = mid \<and> sm_retryCount item = pm_attempt (sm_message item)"
      using q(3) msg by (auto simp: fresh_item_def available_def)
    show "\<forall>mid item. item_of ?q mid = Some item \<longrightarrow> mid \<in> set (map pm_messageId ?msgs)
        \<or> mid \<in># image_mset lease_message_id {#} \<or> sm_status item = MCompleted"
      using q(4) by (metis list.set_map option.distinct(1))
    show "{mid. item_of ?q mid \<noteq> None} = pm_messageId ` set ?msgs"
    proof (rule set_eqI)
      fix mid show "mid \<in> {mid. item_of ?q mid \<noteq> None} \<longleftrightarrow> mid \<in> pm_messageId ` set ?msgs"
        using q(3,4) by (cases "mid \<in> pm_messageId ` set ?msgs") auto
    qed
  qed (use q(2) in auto)
  moreover have "payloads_ok ?msgs (payload_at opts ps) ?sg"
    unfolding payloads_ok_def
  proof (intro allI impI)
    fix l :: PartitionLease assume "pl_message l \<in> set ?msgs"
    then obtain i p where p: "p \<in> set ps" "pl_message l = partition_message opts (clock i) p" using in_run_messages by blast
    have key: "lease_message_id l = message_key opts p"
      by (simp add: lease_message_id_def p(2) partition_message_def message_key_def Let_def)
    show "resolvePayload ?sg l = Inr (payload_at opts ps (lease_message_id l))"
      unfolding key payload_at_key [OF d p(1)]
      using staged_payloads [OF d _ p(1), of opts new_storage]
      by (simp add: resolvePayload_def p(2) partition_message_def Let_def truthy_str_def)
  qed
  moreover have "readResults (''results-'' @ oo_runId opts) ?sg = []"
    unfolding staging_keeps_results by (simp add: readResults_def new_storage_def)
  then have "conserved env (oo_runId opts) ?msgs (payload_at opts ps) ?pool"
    using empty q(1) by (simp add: conserved_def sh Let_def)
  moreover have "\<forall>w \<in> set (pool_workers ?pool). worker_ok (oo_runId opts) lo hi (unread ?q = []) w"
    using new_workers [of _ opts clock ss cs fresh_shared] t(2) by (fastforce simp: worker_ok_def)
  ultimately show ?thesis by (simp add: pool_inv_def sh)
qed

lemma pool_run_inv:
  assumes "pool_inv env runId msgs pay lo hi pool" "list_all (\<lambda>turn. lo \<le> snd turn \<and> snd turn < hi) schedule"
  shows "pool_inv env runId msgs pay lo hi (pool_run env schedule pool)"
  using assms unfolding pool_run_def
  by (induction schedule arbitrary: pool) (auto intro: pool_turn_inv)

section \<open>The end of a run\<close>

lemma finished_drained:
  assumes inv: "pool_inv env runId msgs pay lo hi pool" and fin: "pool_finished pool" "pool_workers pool \<noteq> []"
  shows "unread (fst (pool_shared pool)) = []" "hands (pool_workers pool) = {#}"
    "image_mset core (mset (readResults (''results-'' @ runId) (snd (pool_shared pool))))
      = image_mset (\<lambda>mid. expected_output env runId (pay mid)) (mset (map pm_messageId msgs))"
    "\<forall>mid item. item_of (fst (pool_shared pool)) mid = Some item \<longrightarrow> sm_status item = MCompleted"
proof -
  have ph: "\<forall>w \<in> set (pool_workers pool). wk_phase w = Finished" using fin(1) by (simp add: pool_finished_def list_all_iff)
  obtain w where w: "w \<in> set (pool_workers pool)" using fin(2) by (meson last_in_set)
  have "worker_ok runId lo hi (unread (fst (pool_shared pool)) = []) w" using inv w by (simp add: pool_inv_def)
  with ph w show u: "unread (fst (pool_shared pool)) = []" by (simp add: worker_ok_def)
  have "concat (map hand ws) = [] \<and> concat (map outputs ws) = []" if "\<forall>w \<in> set ws. wk_phase w = Finished" for ws
    using that by (induction ws) (auto simp: hand_def outputs_def)
  from this [OF ph] have e: "hands (pool_workers pool) = {#}" "concat (map outputs (pool_workers pool)) = []"
    by (auto simp only: hands_def mset.simps)
  show "hands (pool_workers pool) = {#}" by (rule e)
  obtain q sg where sh: "pool_shared pool = (q, sg)" by fastforce
  have "conserved env runId msgs pay pool" using inv by (simp add: pool_inv_def)
  then show "image_mset core (mset (readResults (''results-'' @ runId) (snd (pool_shared pool))))
      = image_mset (\<lambda>mid. expected_output env runId (pay mid)) (mset (map pm_messageId msgs))"
    using u e by (simp add: conserved_def Let_def sh)
  have "places_ok msgs lo hi q {#}" using inv e sh by (simp add: pool_inv_def)
  then show "\<forall>mid item. item_of (fst (pool_shared pool)) mid = Some item \<longrightarrow> sm_status item = MCompleted"
    using u sh by (simp add: places_ok_def)
qed

lemma workers_stay: "length (pool_workers (pool_run env schedule pool)) = length (pool_workers pool)"
  unfolding pool_run_def by (induction schedule arbitrary: pool) (simp_all add: pool_turn_def case_prod_beta Let_def)

lemma plan_run_workers: "length (pool_workers (plan_run opts clock ss cs sh)) = nat (max 1 (oo_workerCount opts))"
  by (simp add: plan_run_def Let_def)

lemma run_outputs:
  assumes ps: "ps = partitionCandidates ss cs (oo_windowMs opts)" and t: "\<forall>i. clock i \<le> lo"
    and sched: "list_all (\<lambda>turn. lo \<le> snd turn \<and> snd turn < lo + 30000) schedule"
    and pool: "pool = pool_run env schedule (plan_run opts clock ss cs fresh_shared)" and fin: "pool_finished pool"
  shows "image_mset core (mset (readResults (''results-'' @ oo_runId opts) (snd (pool_shared pool))))
      = mset (map (expected_output env (oo_runId opts)) ps)"
    and "\<forall>mid item. item_of (fst (pool_shared pool)) mid = Some item \<longrightarrow> sm_status item = MCompleted"
    and "q_retryCounter (fst (pool_shared pool)) = 0"
proof -
  let ?msgs = "run_messages opts clock ps"
  have inv: "pool_inv env (oo_runId opts) ?msgs (payload_at opts ps) lo (lo + 30000) pool"
    unfolding pool by (rule pool_run_inv [OF plan_run_inv [OF ps t]]) (simp_all add: sched)
  have "length (pool_workers pool) > 0" unfolding pool workers_stay plan_run_workers by simp
  then have ne: "pool_workers pool \<noteq> []" by auto
  note ends = finished_drained [OF inv fin ne]
  have d: "distinct (map (partition_text \<circ> sp_id) ps)" unfolding ps by (rule partition_texts_distinct)
  have "map (\<lambda>mid. expected_output env (oo_runId opts) (payload_at opts ps mid)) (map (message_key opts) ps)
      = map (expected_output env (oo_runId opts)) ps"
    using payload_at_key [OF d] by simp
  then show "image_mset core (mset (readResults (''results-'' @ oo_runId opts) (snd (pool_shared pool))))
      = mset (map (expected_output env (oo_runId opts)) ps)"
    unfolding ends(3) run_message_ids by (metis mset_map)
  show "\<forall>mid item. item_of (fst (pool_shared pool)) mid = Some item \<longrightarrow> sm_status item = MCompleted" by (rule ends(4))
  show "q_retryCounter (fst (pool_shared pool)) = 0" using inv by (simp add: pool_inv_def places_ok_def)
qed

lemma no_status: "\<forall>mid item. item_of q mid = Some item \<longrightarrow> sm_status item = MCompleted \<Longrightarrow> distinct (map fst (q_messages q))
    \<Longrightarrow> s \<noteq> MCompleted \<Longrightarrow> count_status s q = 0"
  by (auto simp: count_status_def item_of_def filter_empty_conv)

text \<open>The pool only works on the queue through its operations.\<close>

lemma pool_turn_reachable:
  assumes "queue_run m (fst (pool_shared pool), issued)"
  shows "\<exists>issued'. queue_run m (fst (pool_shared (pool_turn env turn pool)), issued')"
proof -
  obtain q sg where sh: "pool_shared pool = (q, sg)" by fastforce
  have claim: "\<exists>issued'. queue_run m (fst (claimLeases w k d now q), issued')" for w k d now
    using queue_step [OF assms, of "OpClaim w k d now"] sh by (auto simp: case_prod_beta Let_def)
  have ack: "\<exists>issued'. queue_run m (snd (ackLease l q), issued')" for l using queue_step [OF assms, of "OpAck l"] sh by auto
  have nack: "\<exists>issued'. queue_run m (snd (nackLease l e b n q), issued')" for l e b n using queue_step [OF assms, of "OpNack l e b n"] sh by auto
  have "\<exists>issued'. queue_run m (fst (snd (worker_turn env k now w (q, sg))), issued')" for k now w
    using claim ack nack assms sh
    by (auto simp: worker_turn_def poll_queue_def process_lease_def stage_batch_def case_prod_beta Let_def
        split: WorkerPhase.splits list.splits sum.splits)
  then show ?thesis using assms sh by (auto simp: pool_turn_def case_prod_beta Let_def)
qed

lemma pool_run_reachable:
  "queue_run m (fst (pool_shared pool), issued) \<Longrightarrow> \<exists>issued'. queue_run m (fst (pool_shared (pool_run env schedule pool)), issued')"
  unfolding pool_run_def
proof (induction schedule arbitrary: pool issued)
  case (Cons turn schedule)
  from pool_turn_reachable [OF Cons.prems] Cons.IH show ?case by fastforce
qed auto

lemma run_queue_reachable:
  "\<exists>issued. queue_run None (fst (pool_shared (pool_run env schedule (plan_run opts clock ss cs fresh_shared))), issued)"
proof (rule pool_run_reachable)
  let ?msgs = "run_messages opts clock (partitionCandidates ss cs (oo_windowMs opts))"
  have "fst (pool_shared (plan_run opts clock ss cs fresh_shared)) = fst (apply_op (OpEnqueue ?msgs) (new_queue None, []))"
    by (simp add: plan_run_queue [OF refl] fresh_shared_def enqueueBatch_def enqueue_push)
  with queue_step [OF queue_start, of None "OpEnqueue ?msgs"]
  show "queue_run None (fst (pool_shared (plan_run opts clock ss cs fresh_shared)), [])" by simp
qed

text \<open>Leaves with distinct partition ids are sorted into one order, whatever order they were staged in.\<close>

lemma sort_leaves_unique:
  assumes "mset xs = mset ys" "distinct (map lf_partitionId ys)"
  shows "sort_leaves xs = sort_leaves ys"
  unfolding sort_leaves_def using assms by (rule js_sort_unique)

lemma merkle_root_unique:
  assumes "mset xs = mset ys" "distinct (map lf_partitionId ys)"
  shows "buildBatchMerkleTree sha xs = buildBatchMerkleTree sha ys"
  unfolding buildBatchMerkleTree_def sort_leaves_unique [OF assms] mset_eq_length [OF assms(1)] by (rule refl)

lemma core_fields [simp]: "audit_leaf (core r) = audit_leaf r" "po_strategy (core r) = po_strategy r"
  by (simp_all add: audit_leaf_def core_def)

lemma filter_core:
  assumes "image_mset core (mset rs) = mset es"
  shows "length (filter (\<lambda>r. P (po_strategy r)) rs) = length (filter P (map po_strategy es))"
proof -
  have "mset (map core rs) = mset es" using assms by simp
  then have "mset (filter (\<lambda>r. P (po_strategy r)) (map core rs)) = mset (filter (\<lambda>r. P (po_strategy r)) es)" by (simp only: mset_filter)
  from mset_eq_length [OF this] show ?thesis by (simp add: filter_map comp_def)
qed

section \<open>Properties\<close>

text \<open>The report that the records alone determine.\<close>

definition expected_report ::
  "WorkerEnv \<Rightarrow> OrchestratorOptions \<Rightarrow> NormalizedSettlement list \<Rightarrow> NormalizedBankTxn list \<Rightarrow> DistributedScaleReport" where
  "expected_report env opts ss cs =
     (let ps = partitionCandidates ss cs (oo_windowMs opts);
          strategies = map (\<lambda>p. selectStrategy p buildStrategyConfig) ps
      in \<lparr>ds_totalRecords = length ss + length cs, ds_totalPartitions = length ps,
          ds_workerCount = nat (max 1 (oo_workerCount opts)),
          ds_merkleRoot = fst (buildBatchMerkleTree (we_sha256 env) (map (audit_leaf \<circ> expected_output env (oo_runId opts)) ps)),
          ds_deadLetterCount = 0, ds_retryCount = 0,
          ds_indexed = length (filter (\<lambda>s. s = INDEXED) strategies), ds_bounded = length (filter (\<lambda>s. s = BOUNDED) strategies),
          ds_review = length (filter (\<lambda>s. s \<noteq> INDEXED \<and> s \<noteq> BOUNDED) strategies)\<rparr>)"

text \<open>
  C4. A distributed run on a fresh queue is deterministic: under every interleaving of its workers, and for any number of
  them, the report is the one the records alone determine, including the Merkle root over the audit hashes, with no dead letter
  and no retry, as long as every clock reading of the workers falls within the lease duration of 30 seconds from the end of planning.
\<close>

theorem distributed_run_deterministic:
  assumes "\<forall>i. clock i \<le> lo" "list_all (\<lambda>turn. lo \<le> snd turn \<and> snd turn < lo + 30000) schedule"
    and "runDistributed env opts clock schedule ss cs fresh_shared = Some report"
  shows "report = expected_report env opts ss cs"
proof -
  let ?ps = "partitionCandidates ss cs (oo_windowMs opts)"
  define pool where "pool = pool_run env schedule (plan_run opts clock ss cs fresh_shared)"
  have fin: "pool_finished pool" and rep: "report = gather_report env opts ss cs pool"
    using assms(3) by (auto simp: runDistributed_def pool_def Let_def split: if_splits)
  note ends = run_outputs [OF refl assms(1,2) pool_def fin]
  let ?rs = "readResults (''results-'' @ oo_runId opts) (snd (pool_shared pool))" and ?es = "map (expected_output env (oo_runId opts)) ?ps"
  have "map audit_leaf (map core ?rs) = map audit_leaf ?rs" by simp
  then have "mset (map audit_leaf ?rs) = mset (map audit_leaf (map core ?rs))" by (simp only:)
  also have "\<dots> = mset (map audit_leaf ?es)" using ends(1) by (simp only: mset_map)
  finally have leaves: "mset (map audit_leaf ?rs) = mset (map audit_leaf ?es)" .
  have "map lf_partitionId (map audit_leaf ?es) = map (partition_text \<circ> sp_id) ?ps"
    by (simp add: audit_leaf_def expected_output_def partition_output_def Let_def case_prod_beta)
  then have "distinct (map lf_partitionId (map audit_leaf ?es))" using partition_texts_distinct [of ss cs "oo_windowMs opts"] by metis
  note root = merkle_root_unique [OF leaves this]
  have "distinct (map fst (q_messages (fst (pool_shared pool))))"
    using run_queue_reachable [of env schedule opts clock ss cs] unfolding pool_def [symmetric] by (auto dest: reachable_active simp: active_ok_def)
  then have dead: "count_status MDeadLetter (fst (pool_shared pool)) = 0" by (rule no_status [OF ends(2)]) simp
  have strat: "map po_strategy ?es = map (\<lambda>p. selectStrategy p buildStrategyConfig) ?ps"
    by (simp add: expected_output_def partition_output_def Let_def case_prod_beta)
  have counts: "length (filter (\<lambda>r. P (po_strategy r)) ?rs) = length (filter P (map (\<lambda>p. selectStrategy p buildStrategyConfig) ?ps))" for P
    using filter_core [OF ends(1), of P] by (simp only: strat)
  have workers: "length (pool_workers pool) = nat (max 1 (oo_workerCount opts))"
    unfolding pool_def workers_stay plan_run_workers ..
  show ?thesis
    unfolding rep gather_report_def expected_report_def Let_def getMetrics_def QueueMetrics.simps dead ends(3) root workers
      counts [of "\<lambda>s. s = INDEXED"] counts [of "\<lambda>s. s = BOUNDED"] counts [of "\<lambda>s. s \<noteq> INDEXED \<and> s \<noteq> BOUNDED"]
    by (simp add: comp_def)
qed

definition sample_env :: WorkerEnv where
  "sample_env = \<lparr>we_localeCompare = (\<lambda>a b. 0), we_sha256 = (\<lambda>s. s)\<rparr>"

definition sample_options :: OrchestratorOptions where
  "sample_options = \<lparr>oo_batchId = ''b'', oo_runId = ''r'', oo_workerCount = 2, oo_offload = True, oo_windowMs = 1000\<rparr>"

text \<open>Two workers, one partition: the second worker takes it, the first finds the queue drained.\<close>

definition sample_schedule :: "(nat \<times> millis) list" where
  "sample_schedule = [(1, 1), (0, 2), (1, 3), (0, 4), (1, 5), (0, 6), (1, 7), (1, 8), (1, 9)]"

definition lone_settlement :: NormalizedSettlement where
  "lone_settlement = \<lparr>s_dbId = ''s'', s_settlementId = ''s'', s_paymentId = ''p'', s_amount = 100, s_fee = 0, s_tax = 0,
     s_utr = None, s_status = ''processed'', s_settledAt = Some 5, s_createdAt = 0\<rparr>"

lemma lone_partition: "partitionCandidates [lone_settlement] [] 1000
   = [\<lparr>sp_id = (Some 0, 0), sp_bucketKey = Some 0, sp_settlements = [lone_settlement], sp_credits = []\<rparr>]"
  by (simp add: partitionCandidates_def add_settlement_def accumulate_def dateBucketKey_def lone_settlement_def js_sort_def make_partition_def)

lemmas pool_eval = pool_turn_def worker_turn_def poll_queue_def process_lease_def stage_batch_def after_batch_def
  new_worker_def resolvePayload_def readPayload_def stageResults_def stagePayload_def stage_partition_def partition_message_def


lemmas run_eval = plan_run_def Let_def lone_partition sample_options_def chunks.simps queue_eval pool_eval fresh_shared_def new_storage_def upt_rec
  readResults_def case_prod_beta

lemma sample_run_finished:
  "pool_finished (pool_run sample_env sample_schedule (plan_run sample_options (\<lambda>_. 0) [lone_settlement] [] fresh_shared))"
  by (simp add: run_eval pool_run_def sample_schedule_def pool_finished_def truthy_str_def
     del: put_item_fields lease_fields item_of_put)

theorem distributed_run_deterministic_witness:
  "runDistributed sample_env sample_options (\<lambda>_. 0) sample_schedule [lone_settlement] [] fresh_shared
     = Some (expected_report sample_env sample_options [lone_settlement] [])"
proof -
  have times: "list_all (\<lambda>turn. 0 \<le> snd turn \<and> snd turn < 0 + 30000) sample_schedule" by (simp add: sample_schedule_def)
  obtain report where r: "runDistributed sample_env sample_options (\<lambda>_. 0) sample_schedule [lone_settlement] [] fresh_shared = Some report"
    using sample_run_finished by (simp add: runDistributed_def Let_def)
  from distributed_run_deterministic [OF _ times r] show ?thesis by (simp add: r)
qed

section \<open>The pool stops\<close>

text \<open>A schedule of turns that are all given to workers that have not ended.\<close>

fun effective :: "WorkerEnv \<Rightarrow> (nat \<times> millis) list \<Rightarrow> Pool \<Rightarrow> bool" where
  "effective env [] pool = True"
| "effective env (turn # turns) pool =
     (fst turn < length (pool_workers pool) \<and> wk_phase (pool_workers pool ! fst turn) \<noteq> Finished
      \<and> effective env turns (pool_turn env turn pool))"

definition phase_weight :: "WorkerPhase \<Rightarrow> nat" where
  "phase_weight ph = (case ph of Polling idle \<Rightarrow> 2 + (2 - idle) | Working _ _ _ ls _ \<Rightarrow> 5 + 6 * length ls | Finished \<Rightarrow> 0)"

definition pool_weight :: "Pool \<Rightarrow> nat" where
  "pool_weight pool = 10 * length (unread (fst (pool_shared pool))) + sum_list (map (phase_weight \<circ> wk_phase) (pool_workers pool))"

lemma sum_list_update:
  "i < length xs \<Longrightarrow> sum_list (map f (xs[i := x])) + f (xs ! i) = sum_list (map f xs) + (f x :: nat)"
  by (induction xs arbitrary: i) (auto split: nat.splits)

lemma turn_weight:
  assumes inv: "pool_inv env runId msgs pay lo hi pool" and t: "lo \<le> snd turn" "snd turn < hi"
    and i: "fst turn < length (pool_workers pool)" and alive: "wk_phase (pool_workers pool ! fst turn) \<noteq> Finished"
  shows "pool_weight (pool_turn env turn pool) < pool_weight pool"
proof -
  let ?w = "pool_workers pool ! fst turn"
  obtain q sg where sh: "pool_shared pool = (q, sg)" by fastforce
  obtain w' q' sg' where tn: "worker_turn env 3 (snd turn) ?w (q, sg) = (w', q', sg')" by (metis surj_pair)
  have nx: "pool_turn env turn pool = \<lparr>pool_workers = (pool_workers pool)[fst turn := w'], pool_shared = (q', sg')\<rparr>"
    using i tn sh by (simp add: pool_turn_def)
  have ok: "worker_ok runId lo hi (unread q = []) ?w" using inv i sh by (metis pool_inv_def fst_conv nth_mem)
  have places: "places_ok msgs lo hi q (hands (pool_workers pool))" and m: "messages_ok runId msgs" and pay: "payloads_ok msgs pay sg"
    using inv sh by (simp_all add: pool_inv_def)
  have "10 * length (unread q') + phase_weight (wk_phase w') < 10 * length (unread q) + phase_weight (wk_phase ?w)"
  proof (cases "wk_phase ?w")
    case (Polling idle)
    have d: "0 < wk_leaseDurationMs ?w" "0 < wk_batchSize ?w" using ok by (simp_all add: worker_ok_def)
    from claimLeases_available [OF places_ready [OF places m t] d(1), of "wk_workerId ?w" "wk_batchSize ?w"] obtain q1 ls
      where c: "claimLeases (wk_workerId ?w) (wk_batchSize ?w) (wk_leaseDurationMs ?w) (snd turn) q = (q1, ls)"
        and ids: "map lease_message_id ls = take (wk_batchSize ?w) (unread q)" and rest: "unread q1 = drop (length ls) (unread q)" by metis
    have len: "length ls \<le> length (unread q)" using arg_cong [OF ids, of length] by simp
    have "poll_queue 3 idle (snd turn) ?w (q, sg) = (w', q', sg')" using tn Polling by (simp add: worker_turn_def)
    then have q': "q' = q1" "wk_phase w' = (case ls of [] \<Rightarrow> after_batch 3 idle 0
        | l # _ \<Rightarrow> Working idle (snd turn) (pm_runId (pl_message l)) ls [])"
      unfolding poll_queue_def Let_def prod.case c by (cases ls; force)+
    show ?thesis
    proof (cases ls)
      case Nil
      with rest q' Polling show ?thesis by (auto simp: phase_weight_def after_batch_def)
    next
      case (Cons l ls')
      have "length (unread q) = length (unread q') + length ls" using rest len q' by simp
      with Cons q' Polling show ?thesis by (simp add: phase_weight_def)
    qed
  next
    case (Working idle tb r ls rs)
    show ?thesis
    proof (cases ls)
      case Nil
      with Working ok have "rs \<noteq> []" by (simp add: worker_ok_def)
      with Nil Working tn show ?thesis by (auto simp: worker_turn_def stage_batch_def phase_weight_def after_batch_def)
    next
      case (Cons l ls')
      have "l \<in># hands (pool_workers pool)"
        using nth_mem [OF i] Working Cons by (auto simp: hands_def hand_def intro!: bexI [of _ ?w])
      then have hl: "hands (pool_workers pool) = add_mset l (hands (pool_workers pool) - {#l#})" and l: "pl_message l \<in> set msgs"
        using places unfolding places_ok_def by auto
      then have "resolvePayload sg l = Inr (pay (lease_message_id l))" using pay by (simp add: payloads_ok_def)
      with Working Cons tn have "q' = snd (ackLease l q)" "wk_phase w' = Working idle tb r ls' (rs @ [partition_output env (wk_workerId ?w) tb
          (pm_runId (pl_message l)) (pay (lease_message_id l))])"
        by (auto simp: worker_turn_def process_lease_def)
      then show ?thesis using Working Cons places_ack(2) [OF places hl] by (simp add: phase_weight_def)
    qed
  qed (use alive in simp)
  with sum_list_update [OF i, of "phase_weight \<circ> wk_phase" w'] show ?thesis by (simp add: pool_weight_def nx sh)
qed

lemma effective_bound:
  "pool_inv env runId msgs pay lo hi pool \<Longrightarrow> effective env schedule pool
     \<Longrightarrow> list_all (\<lambda>turn. lo \<le> snd turn \<and> snd turn < hi) schedule \<Longrightarrow> length schedule \<le> pool_weight pool"
proof (induction schedule arbitrary: pool)
  case (Cons turn schedule)
  from Cons.prems have "pool_weight (pool_turn env turn pool) < pool_weight pool" by (intro turn_weight) auto
  moreover have "length schedule \<le> pool_weight (pool_turn env turn pool)"
    using Cons.prems by (intro Cons.IH pool_turn_inv) auto
  ultimately show ?case by simp
qed simp

lemma plan_weight: "pool_weight (plan_run opts clock ss cs fresh_shared)
    = 10 * length (partitionCandidates ss cs (oo_windowMs opts)) + 4 * nat (max 1 (oo_workerCount opts))"
proof -
  let ?ps = "partitionCandidates ss cs (oo_windowMs opts)" and ?pool = "plan_run opts clock ss cs fresh_shared"
  have inv: "distinct (map pm_messageId (run_messages opts clock ?ps))"
    using partition_texts_distinct [of ss cs "oo_windowMs opts"]
    unfolding run_message_ids by (simp add: distinct_map inj_on_def message_key_eq comp_def)
  have "unread (fst (pool_shared ?pool)) = map (message_key opts) ?ps"
    using push_fresh [OF inv, of "new_queue None"] unfolding run_message_ids
    by (simp add: plan_run_queue [OF refl] fresh_shared_def unread_def new_queue_def item_of_def)
  moreover have "map (phase_weight \<circ> wk_phase) (pool_workers ?pool) = map (\<lambda>_. 4) (pool_workers ?pool)"
    using new_workers by (auto simp: phase_weight_def)
  then have "sum_list (map (phase_weight \<circ> wk_phase) (pool_workers ?pool)) = 4 * length (pool_workers ?pool)"
    by (simp only: sum_list_triv) simp
  ultimately show ?thesis by (simp add: pool_weight_def plan_run_workers)
qed



end
