(* ===== verification/Cross_Partition.thy ===== *)
theory Cross_Partition
  imports Audit_Chain Run_Metadata
begin

text \<open>
  Records that straddle partition boundaries (\<open>cross-partition.ts\<close> and \<open>global-invariants.ts\<close> of
  \<open>src/lib/reconciliation/distributed\<close>): the registry that leases and consumes candidates by UTR, the resolver of
  boundary orphans, and the verifier of the global invariants over partition results. An entry of the registry is one object in
  both of its indexes; the amount index is only written, so here it holds the record ids.
\<close>

section \<open>The registry\<close>

record CrossPartitionIndexEntry =
  ce_recordId :: ident
  ce_sourcePartitionId :: string
  ce_amountPaise :: paise
  ce_utr :: string
  ce_consumedByPartition :: "string option"
  ce_consumedAt :: "millis option"
  ce_leaseOwner :: "string option"
  ce_leaseExpiresAt :: "millis option"
  ce_leaseVersion :: nat

record CrossPartitionRegistry =
  cr_utrIndex :: "(string \<times> CrossPartitionIndexEntry) list"
  cr_amountIndex :: "(paise \<times> ident list) list"
  cr_leaseTimeoutMs :: millis

definition new_registry :: "millis option \<Rightarrow> CrossPartitionRegistry" where
  "new_registry timeout = \<lparr>cr_utrIndex = [], cr_amountIndex = [],
     cr_leaseTimeoutMs = (case timeout of None \<Rightarrow> 5000 | Some t \<Rightarrow> if t = 0 then 5000 else t)\<rparr>"

definition getEntry :: "string \<Rightarrow> CrossPartitionRegistry \<Rightarrow> CrossPartitionIndexEntry option" where
  "getEntry utr r = map_of (cr_utrIndex r) utr"

definition put_entry :: "string \<Rightarrow> CrossPartitionIndexEntry \<Rightarrow> CrossPartitionRegistry \<Rightarrow> CrossPartitionRegistry" where
  "put_entry utr e r = r\<lparr>cr_utrIndex := AList.update utr e (cr_utrIndex r)\<rparr>"

definition registerSettlement :: "string \<Rightarrow> NormalizedSettlement \<Rightarrow> CrossPartitionRegistry \<Rightarrow> CrossPartitionRegistry" where
  "registerSettlement pid s r =
     (if \<not> truthy_str (s_utr s) then r
      else (put_entry (the (s_utr s)) \<lparr>ce_recordId = s_settlementId s, ce_sourcePartitionId = pid, ce_amountPaise = s_amount s,
              ce_utr = the (s_utr s), ce_consumedByPartition = None, ce_consumedAt = None, ce_leaseOwner = None,
              ce_leaseExpiresAt = None, ce_leaseVersion = 1\<rparr> r)
             \<lparr>cr_amountIndex := push_assoc (cr_amountIndex r) (s_amount s) (s_settlementId s)\<rparr>)"

datatype RegistryFailure =
    CandidateNotFound
  | AlreadyConsumedBy string
  | LeaseHeldBy string
  | LeaseVersionMismatchOrStale
  | AmountMismatch

definition acquireLease ::
  "string \<Rightarrow> string \<Rightarrow> millis \<Rightarrow> CrossPartitionRegistry \<Rightarrow> (RegistryFailure + nat) \<times> CrossPartitionRegistry" where
  "acquireLease workerId utr now r =
     (case getEntry utr r of
        None \<Rightarrow> (Inl CandidateNotFound, r)
      | Some e \<Rightarrow>
          (case ce_consumedByPartition e of
             Some p \<Rightarrow> (Inl (AlreadyConsumedBy p), r)
           | None \<Rightarrow>
               if (case (ce_leaseOwner e, ce_leaseExpiresAt e) of (Some w, Some t) \<Rightarrow> t > now \<and> w \<noteq> workerId | _ \<Rightarrow> False)
               then (Inl (LeaseHeldBy (the (ce_leaseOwner e))), r)
               else (Inr (ce_leaseVersion e + 1),
                     put_entry utr (e\<lparr>ce_leaseOwner := Some workerId, ce_leaseExpiresAt := Some (now + cr_leaseTimeoutMs r),
                       ce_leaseVersion := ce_leaseVersion e + 1\<rparr>) r)))"

definition commitConsumption ::
  "string \<Rightarrow> string \<Rightarrow> string \<Rightarrow> nat \<Rightarrow> millis \<Rightarrow> CrossPartitionRegistry \<Rightarrow> RegistryFailure option \<times> CrossPartitionRegistry" where
  "commitConsumption workerId pid utr version now r =
     (case getEntry utr r of
        None \<Rightarrow> (Some CandidateNotFound, r)
      | Some e \<Rightarrow>
          (case ce_consumedByPartition e of
             Some p \<Rightarrow> (Some (AlreadyConsumedBy p), r)
           | None \<Rightarrow>
               if ce_leaseOwner e \<noteq> Some workerId \<or> ce_leaseVersion e \<noteq> version then (Some LeaseVersionMismatchOrStale, r)
               else (None, put_entry utr (e\<lparr>ce_consumedByPartition := Some pid, ce_consumedAt := Some now,
                       ce_leaseOwner := None, ce_leaseExpiresAt := None\<rparr>) r)))"

definition releaseLease :: "string \<Rightarrow> string \<Rightarrow> CrossPartitionRegistry \<Rightarrow> bool \<times> CrossPartitionRegistry" where
  "releaseLease workerId utr r =
     (case getEntry utr r of
        None \<Rightarrow> (False, r)
      | Some e \<Rightarrow> if ce_consumedByPartition e \<noteq> None then (False, r)
                  else if ce_leaseOwner e = Some workerId
                  then (True, put_entry utr (e\<lparr>ce_leaseOwner := None, ce_leaseExpiresAt := None\<rparr>) r)
                  else (False, r))"

definition claimCrossPartitionCandidate ::
  "string \<Rightarrow> string \<Rightarrow> paise \<Rightarrow> millis \<Rightarrow> CrossPartitionRegistry
     \<Rightarrow> (RegistryFailure + CrossPartitionIndexEntry) \<times> CrossPartitionRegistry" where
  "claimCrossPartitionCandidate pid utr expectedAmount now r =
     (case getEntry utr r of
        None \<Rightarrow> (Inl CandidateNotFound, r)
      | Some e \<Rightarrow>
          (case ce_consumedByPartition e of
             Some p \<Rightarrow> (Inl (AlreadyConsumedBy p), r)
           | None \<Rightarrow> if ce_amountPaise e \<noteq> expectedAmount then (Inl AmountMismatch, r)
                     else let e' = e\<lparr>ce_consumedByPartition := Some pid, ce_consumedAt := Some now\<rparr>
                          in (Inr e', put_entry utr e' r)))"

definition isCandidateConsumed :: "string \<Rightarrow> CrossPartitionRegistry \<Rightarrow> bool" where
  "isCandidateConsumed utr r = (case getEntry utr r of None \<Rightarrow> False | Some e \<Rightarrow> ce_consumedByPartition e \<noteq> None)"

section \<open>The resolver of boundary orphans\<close>

record UnmatchedSettlement =
  us_partitionId :: string
  us_windowIndex :: int
  us_settlement :: NormalizedSettlement

record UnmatchedCredit =
  uc_partitionId :: string
  uc_windowIndex :: int
  uc_credit :: NormalizedBankTxn

record CrossPartitionMatch =
  xm_type :: CardinalityType
  xm_bankTxnIds :: "ident list"
  xm_settlementIds :: "ident list"
  xm_bankTxnId :: "ident option"
  xm_settlementId :: "ident option"
  xm_settlementAmount :: paise
  xm_bankAmount :: paise
  xm_differencePaise :: paise
  xm_participating :: "string list"

record ResolverConfig =
  rc_maxWindowDelta :: int
  rc_tolerancePaise :: paise

definition default_resolver :: ResolverConfig where
  "default_resolver = \<lparr>rc_maxWindowDelta = 2, rc_tolerancePaise = 0\<rparr>"

record ResolverState =
  rs_matched :: "CrossPartitionMatch list"
  rs_usedSettlements :: "ident set"
  rs_usedCredits :: "ident set"

abbreviation sid :: "UnmatchedSettlement \<Rightarrow> ident" where "sid s \<equiv> s_settlementId (us_settlement s)"
abbreviation cid :: "UnmatchedCredit \<Rightarrow> ident" where "cid c \<equiv> b_txnId (uc_credit c)"

definition within_window :: "ResolverConfig \<Rightarrow> UnmatchedCredit \<Rightarrow> UnmatchedSettlement \<Rightarrow> bool" where
  "within_window cfg c s = (\<bar>us_windowIndex s - uc_windowIndex c\<bar> \<le> rc_maxWindowDelta cfg)"

definition settlements_by_utr :: "UnmatchedSettlement list \<Rightarrow> (string \<rightharpoonup> UnmatchedSettlement list)" where
  "settlements_by_utr ss =
     fold (\<lambda>s m. if truthy_str (s_utr (us_settlement s)) then push_at m (the (s_utr (us_settlement s))) s else m) ss Map.empty"

definition utr_match :: "UnmatchedCredit \<Rightarrow> UnmatchedSettlement \<Rightarrow> CrossPartitionMatch" where
  "utr_match c s = \<lparr>xm_type = One_One, xm_bankTxnIds = [cid c], xm_settlementIds = [sid s], xm_bankTxnId = Some (cid c),
     xm_settlementId = Some (sid s), xm_settlementAmount = s_amount (us_settlement s), xm_bankAmount = b_amount (uc_credit c),
     xm_differencePaise = \<bar>s_amount (us_settlement s) - b_amount (uc_credit c)\<bar>,
     xm_participating = sort (remdups [us_partitionId s, uc_partitionId c])\<rparr>"

definition utr_step ::
  "ResolverConfig \<Rightarrow> (string \<rightharpoonup> UnmatchedSettlement list) \<Rightarrow> UnmatchedCredit \<Rightarrow> ResolverState \<Rightarrow> ResolverState" where
  "utr_step cfg index c st =
     (if cid c \<in> rs_usedCredits st \<or> \<not> truthy_str (b_utr (uc_credit c)) then st
      else case index (the (b_utr (uc_credit c))) of
        None \<Rightarrow> st
      | Some candidates \<Rightarrow>
          (case find (\<lambda>s. sid s \<notin> rs_usedSettlements st \<and> within_window cfg c s
                 \<and> \<bar>s_amount (us_settlement s) - b_amount (uc_credit c)\<bar> \<le> rc_tolerancePaise cfg) candidates of
             None \<Rightarrow> st
           | Some s \<Rightarrow> \<lparr>rs_matched = rs_matched st @ [utr_match c s],
                rs_usedSettlements = insert (sid s) (rs_usedSettlements st), rs_usedCredits = insert (cid c) (rs_usedCredits st)\<rparr>))"

fun first_pair :: "('a \<Rightarrow> 'a \<Rightarrow> bool) \<Rightarrow> 'a list \<Rightarrow> ('a \<times> 'a) option" where
  "first_pair P [] = None"
| "first_pair P (x # xs) = (case find (P x) xs of Some y \<Rightarrow> Some (x, y) | None \<Rightarrow> first_pair P xs)"

definition pair_sum :: "UnmatchedSettlement \<Rightarrow> UnmatchedSettlement \<Rightarrow> paise" where
  "pair_sum s1 s2 = s_amount (us_settlement s1) + s_amount (us_settlement s2)"

definition pair_match :: "UnmatchedCredit \<Rightarrow> UnmatchedSettlement \<Rightarrow> UnmatchedSettlement \<Rightarrow> CrossPartitionMatch" where
  "pair_match c s1 s2 = \<lparr>xm_type = N_One, xm_bankTxnIds = [cid c], xm_settlementIds = sort [sid s1, sid s2],
     xm_bankTxnId = None, xm_settlementId = None, xm_settlementAmount = pair_sum s1 s2,
     xm_bankAmount = b_amount (uc_credit c), xm_differencePaise = \<bar>pair_sum s1 s2 - b_amount (uc_credit c)\<bar>,
     xm_participating = sort (remdups [us_partitionId s1, us_partitionId s2, uc_partitionId c])\<rparr>"

definition pair_step :: "ResolverConfig \<Rightarrow> UnmatchedSettlement list \<Rightarrow> UnmatchedCredit \<Rightarrow> ResolverState \<Rightarrow> ResolverState" where
  "pair_step cfg cappedS c st =
     (if cid c \<in> rs_usedCredits st then st
      else case first_pair (\<lambda>s1 s2. \<bar>pair_sum s1 s2 - b_amount (uc_credit c)\<bar> \<le> rc_tolerancePaise cfg)
             (filter (\<lambda>s. sid s \<notin> rs_usedSettlements st \<and> within_window cfg c s) cappedS) of
        None \<Rightarrow> st
      | Some (s1, s2) \<Rightarrow> \<lparr>rs_matched = rs_matched st @ [pair_match c s1 s2],
           rs_usedSettlements = insert (sid s2) (insert (sid s1) (rs_usedSettlements st)),
           rs_usedCredits = insert (cid c) (rs_usedCredits st)\<rparr>)"

record Resolution =
  rn_matchedResults :: "CrossPartitionMatch list"
  rn_unresolvedSettlements :: "UnmatchedSettlement list"
  rn_unresolvedCredits :: "UnmatchedCredit list"

definition resolveCrossPartitionOrphans ::
  "ResolverConfig \<Rightarrow> UnmatchedSettlement list \<Rightarrow> UnmatchedCredit list \<Rightarrow> Resolution" where
  "resolveCrossPartitionOrphans cfg ss cs =
     (let ss' = js_sort (cmp_by sid) ss; cs' = js_sort (cmp_by cid) cs;
          st1 = fold (utr_step cfg (settlements_by_utr ss')) cs' \<lparr>rs_matched = [], rs_usedSettlements = {}, rs_usedCredits = {}\<rparr>;
          cappedS = take 200 (filter (\<lambda>s. sid s \<notin> rs_usedSettlements st1) ss');
          cappedC = take 200 (filter (\<lambda>c. cid c \<notin> rs_usedCredits st1) cs');
          st2 = fold (pair_step cfg cappedS) cappedC st1
      in \<lparr>rn_matchedResults = rs_matched st2,
          rn_unresolvedSettlements = filter (\<lambda>s. sid s \<notin> rs_usedSettlements st2) ss',
          rn_unresolvedCredits = filter (\<lambda>c. cid c \<notin> rs_usedCredits st2) cs'\<rparr>)"

section \<open>Global invariants over partition results\<close>

record PartitionExecutionResult =
  pe_partitionId :: string
  pe_windowIndex :: int
  pe_inputSettlementIds :: "ident list"
  pe_inputBankTxnIds :: "ident list"
  pe_matchedResults :: "CrossPartitionMatch list"
  pe_unresolvedSettlementIds :: "ident list"
  pe_unresolvedBankTxnIds :: "ident list"

datatype GlobalViolation =
    DuplicateSettlementConsumed ident nat
  | DuplicateBankTxnConsumed ident nat
  | SettlementCompletenessMismatch nat nat
  | BankTxnCompletenessMismatch nat nat
  | MoneyConservationBreach paise paise paise

record GlobalInvariantReport =
  gi_passed :: bool
  gi_totalPartitions :: nat
  gi_totalInputSettlements :: nat
  gi_totalInputBankTxns :: nat
  gi_totalMatchedSettlements :: nat
  gi_totalMatchedBankTxns :: nat
  gi_totalUnresolvedSettlements :: nat
  gi_totalUnresolvedBankTxns :: nat
  gi_duplicateSettlementIds :: "ident list"
  gi_duplicateBankTxnIds :: "ident list"
  gi_totalSettlementPaise :: paise
  gi_totalBankPaise :: paise
  gi_totalDiscrepancyPaise :: paise
  gi_balanced :: bool
  gi_canonicalReceiptHash :: string
  gi_violations :: "GlobalViolation list"

text \<open>The map of counts, in the order in which its keys were first set.\<close>

definition bump :: "ident \<Rightarrow> (ident \<times> nat) list \<Rightarrow> (ident \<times> nat) list" where
  "bump i m = AList.update i ((case map_of m i of None \<Rightarrow> 0 | Some n \<Rightarrow> n) + 1) m"

definition consumption_counts :: "ident list \<Rightarrow> (ident \<times> nat) list" where
  "consumption_counts ids = fold bump ids []"

definition verifyGlobalInvariants :: "(string \<Rightarrow> string) \<Rightarrow> PartitionExecutionResult list \<Rightarrow> GlobalInvariantReport" where
  "verifyGlobalInvariants sha256 results =
     (let matches = concat (map pe_matchedResults results);
          inputS = remdups (concat (map pe_inputSettlementIds results));
          inputB = remdups (concat (map pe_inputBankTxnIds results));
          unresolvedS = sum_list (map (\<lambda>p. length (pe_unresolvedSettlementIds p)) results);
          unresolvedB = sum_list (map (\<lambda>p. length (pe_unresolvedBankTxnIds p)) results);
          totalS = sum_list (map xm_settlementAmount matches);
          totalB = sum_list (map xm_bankAmount matches);
          totalD = sum_list (map xm_differencePaise matches);
          countsS = consumption_counts (concat (map xm_settlementIds matches));
          countsB = consumption_counts (concat (map xm_bankTxnIds matches));
          dupS = filter (\<lambda>(i, n). n > 1) countsS;
          dupB = filter (\<lambda>(i, n). n > 1) countsB;
          accountedS = length countsS + unresolvedS;
          accountedB = length countsB + unresolvedB;
          balanced = (\<bar>totalS - totalB\<bar> = totalD);
          violations = map (\<lambda>(i, n). DuplicateSettlementConsumed i n) dupS @ map (\<lambda>(i, n). DuplicateBankTxnConsumed i n) dupB
            @ (if accountedS \<noteq> length inputS then [SettlementCompletenessMismatch (length inputS) accountedS] else [])
            @ (if accountedB \<noteq> length inputB then [BankTxnCompletenessMismatch (length inputB) accountedB] else [])
            @ (if balanced then [] else [MoneyConservationBreach totalS totalB totalD]);
          payload = json_stringify (JObj [(''partitions'', JArr (map JStr (sort (map pe_partitionId results)))),
            (''totalSettlementPaise'', JInt totalS), (''totalBankPaise'', JInt totalB), (''totalDiscrepancyPaise'', JInt totalD),
            (''matchedSettlementCount'', JInt (int (length countsS))), (''matchedBankTxnCount'', JInt (int (length countsB))),
            (''violationsCount'', JInt (int (length violations)))])
      in \<lparr>gi_passed = (length violations = 0), gi_totalPartitions = length results,
          gi_totalInputSettlements = length inputS, gi_totalInputBankTxns = length inputB,
          gi_totalMatchedSettlements = length countsS, gi_totalMatchedBankTxns = length countsB,
          gi_totalUnresolvedSettlements = unresolvedS, gi_totalUnresolvedBankTxns = unresolvedB,
          gi_duplicateSettlementIds = map fst dupS, gi_duplicateBankTxnIds = map fst dupB,
          gi_totalSettlementPaise = totalS, gi_totalBankPaise = totalB, gi_totalDiscrepancyPaise = totalD,
          gi_balanced = balanced, gi_canonicalReceiptHash = sha256 payload, gi_violations = violations\<rparr>)"

end
