(* ===== verification/Cross_Partition_Correct.thy ===== *)
theory Cross_Partition_Correct
  imports Cross_Partition
begin

text \<open>
  The registry refines an abstract ownership machine with three states per candidate; the resolver of boundary orphans does
  not depend on the order of its inputs and its results pass the global invariants.
\<close>

section \<open>Ownership of a candidate\<close>

datatype Ownership = Free nat | Leased string millis nat | Consumed string

type_synonym OwnershipMap = "string \<rightharpoonup> paise \<times> Ownership"

fun own_acquire :: "millis \<Rightarrow> string \<Rightarrow> millis \<Rightarrow> Ownership \<Rightarrow> (RegistryFailure + nat) \<times> Ownership" where
  "own_acquire timeout w now (Consumed p) = (Inl (AlreadyConsumedBy p), Consumed p)"
| "own_acquire timeout w now (Free v) = (Inr (v + 1), Leased w (now + timeout) (v + 1))"
| "own_acquire timeout w now (Leased w' t v) =
     (if t > now \<and> w' \<noteq> w then (Inl (LeaseHeldBy w'), Leased w' t v) else (Inr (v + 1), Leased w (now + timeout) (v + 1)))"

fun own_commit :: "string \<Rightarrow> string \<Rightarrow> nat \<Rightarrow> Ownership \<Rightarrow> RegistryFailure option \<times> Ownership" where
  "own_commit w pid version (Consumed p) = (Some (AlreadyConsumedBy p), Consumed p)"
| "own_commit w pid version (Free v) = (Some LeaseVersionMismatchOrStale, Free v)"
| "own_commit w pid version (Leased w' t v) =
     (if w' = w \<and> v = version then (None, Consumed pid) else (Some LeaseVersionMismatchOrStale, Leased w' t v))"

fun own_release :: "string \<Rightarrow> Ownership \<Rightarrow> bool \<times> Ownership" where
  "own_release w (Leased w' t v) = (if w' = w then (True, Free v) else (False, Leased w' t v))"
| "own_release w own = (False, own)"

fun own_claim :: "string \<Rightarrow> bool \<Rightarrow> Ownership \<Rightarrow> RegistryFailure option \<times> Ownership" where
  "own_claim pid amount_ok (Consumed p) = (Some (AlreadyConsumedBy p), Consumed p)"
| "own_claim pid amount_ok own = (if amount_ok then (None, Consumed pid) else (Some AmountMismatch, own))"

section \<open>Runs of the registry and of the ownership machine\<close>

datatype RegistryOp =
    Register string NormalizedSettlement
  | Acquire string string millis
  | Commit string string string nat millis
  | Release string string
  | Claim string string paise millis

datatype RegistryAnswer =
    Registered
  | Acquired "RegistryFailure + nat"
  | Committed "RegistryFailure option"
  | Released bool
  | Claimed "RegistryFailure option"

fun registry_op :: "RegistryOp \<Rightarrow> CrossPartitionRegistry \<Rightarrow> RegistryAnswer \<times> CrossPartitionRegistry" where
  "registry_op (Register pid s) r = (Registered, registerSettlement pid s r)"
| "registry_op (Acquire w utr now) r = (case acquireLease w utr now r of (a, r1) \<Rightarrow> (Acquired a, r1))"
| "registry_op (Commit w pid utr version now) r = (case commitConsumption w pid utr version now r of (a, r1) \<Rightarrow> (Committed a, r1))"
| "registry_op (Release w utr) r = (case releaseLease w utr r of (a, r1) \<Rightarrow> (Released a, r1))"
| "registry_op (Claim pid utr amount now) r =
     (case claimCrossPartitionCandidate pid utr amount now r of
        (Inl f, r1) \<Rightarrow> (Claimed (Some f), r1) | (Inr e, r1) \<Rightarrow> (Claimed None, r1))"

text \<open>One operation of the specification on the candidate it names.\<close>

definition on_candidate ::
  "string \<Rightarrow> RegistryAnswer \<Rightarrow> (paise \<Rightarrow> Ownership \<Rightarrow> RegistryAnswer \<times> Ownership) \<Rightarrow> OwnershipMap \<Rightarrow> RegistryAnswer \<times> OwnershipMap" where
  "on_candidate utr absent f m =
     (case m utr of None \<Rightarrow> (absent, m) | Some (amount, own) \<Rightarrow> (case f amount own of (a, own') \<Rightarrow> (a, m(utr \<mapsto> (amount, own')))))"

fun ownership_op :: "millis \<Rightarrow> RegistryOp \<Rightarrow> OwnershipMap \<Rightarrow> RegistryAnswer \<times> OwnershipMap" where
  "ownership_op timeout (Register pid s) m =
     (Registered, if truthy_str (s_utr s) then m(the (s_utr s) \<mapsto> (s_amount s, Free 1)) else m)"
| "ownership_op timeout (Acquire w utr now) m =
     on_candidate utr (Acquired (Inl CandidateNotFound)) (\<lambda>_ own. map_prod Acquired id (own_acquire timeout w now own)) m"
| "ownership_op timeout (Commit w pid utr version now) m =
     on_candidate utr (Committed (Some CandidateNotFound)) (\<lambda>_ own. map_prod Committed id (own_commit w pid version own)) m"
| "ownership_op timeout (Release w utr) m =
     on_candidate utr (Released False) (\<lambda>_ own. map_prod Released id (own_release w own)) m"
| "ownership_op timeout (Claim pid utr amount now) m =
     on_candidate utr (Claimed (Some CandidateNotFound)) (\<lambda>a own. map_prod Claimed id (own_claim pid (a = amount) own)) m"

fun run_all :: "('op \<Rightarrow> 's \<Rightarrow> 'a \<times> 's) \<Rightarrow> 'op list \<Rightarrow> 's \<Rightarrow> 'a list \<times> 's" where
  "run_all step [] s = ([], s)"
| "run_all step (op # ops) s = (case step op s of (a, s1) \<Rightarrow> case run_all step ops s1 of (as, s2) \<Rightarrow> (a # as, s2))"

section \<open>The abstraction\<close>

definition owner_of :: "CrossPartitionIndexEntry \<Rightarrow> Ownership" where
  "owner_of e = (case ce_consumedByPartition e of Some p \<Rightarrow> Consumed p
     | None \<Rightarrow> (case ce_leaseOwner e of None \<Rightarrow> Free (ce_leaseVersion e)
         | Some w \<Rightarrow> Leased w (the (ce_leaseExpiresAt e)) (ce_leaseVersion e)))"

definition ownership :: "CrossPartitionRegistry \<Rightarrow> OwnershipMap" where
  "ownership r utr = map_option (\<lambda>e. (ce_amountPaise e, owner_of e)) (getEntry utr r)"

text \<open>The representation invariant: a lease has an owner exactly when it has an expiry.\<close>

definition registry_ok :: "CrossPartitionRegistry \<Rightarrow> bool" where
  "registry_ok r = (\<forall>utr e. getEntry utr r = Some e \<longrightarrow> (ce_leaseOwner e = None \<longleftrightarrow> ce_leaseExpiresAt e = None))"

lemma getEntry_put [simp]: "getEntry x (put_entry utr e r) = (if x = utr then Some e else getEntry x r)"
  by (simp add: getEntry_def put_entry_def update_conv)

lemma getEntry_amount [simp]: "getEntry x (r\<lparr>cr_amountIndex := a\<rparr>) = getEntry x r"
  by (simp add: getEntry_def)

lemma timeout_put [simp]: "cr_leaseTimeoutMs (put_entry utr e r) = cr_leaseTimeoutMs r"
  by (simp add: put_entry_def)

lemma ownership_put: "ownership (put_entry utr e r) = (ownership r)(utr \<mapsto> (ce_amountPaise e, owner_of e))"
  by (auto simp: ownership_def fun_eq_iff)

lemma ownership_same: "ownership r utr = Some (amount, own) \<Longrightarrow> (ownership r)(utr \<mapsto> (amount, own)) = ownership r"
  by (simp add: fun_upd_idem)

lemmas registry_defs = acquireLease_def commitConsumption_def releaseLease_def claimCrossPartitionCandidate_def registerSettlement_def

lemma registry_op_ok:
  assumes "registry_ok r"
  shows "registry_ok (snd (registry_op op r)) \<and> cr_leaseTimeoutMs (snd (registry_op op r)) = cr_leaseTimeoutMs r"
  using assms
  by (cases op) (auto simp: registry_defs registry_ok_def Let_def split: option.splits)

lemma registry_op_refines:
  assumes ok: "registry_ok r"
  shows "map_prod id ownership (registry_op op r) = ownership_op (cr_leaseTimeoutMs r) op (ownership r)"
proof (cases op)
  case (Register pid s)
  then show ?thesis
    by (auto simp: registerSettlement_def ownership_def fun_eq_iff owner_of_def)
next
  case (Acquire w utr now)
  show ?thesis
  proof (cases "getEntry utr r")
    case (Some e)
    then have o1: "ownership r utr = Some (ce_amountPaise e, owner_of e)" by (simp add: ownership_def)
    have ex: "ce_leaseOwner e = None \<longleftrightarrow> ce_leaseExpiresAt e = None" using ok Some by (auto simp: registry_ok_def)
    show ?thesis
      by (cases "ce_consumedByPartition e"; cases "ce_leaseOwner e"; cases "ce_leaseExpiresAt e")
        (use Some ex o1 ownership_same [OF o1] in
          \<open>auto simp: Acquire acquireLease_def on_candidate_def ownership_put owner_of_def\<close>)
  qed (simp add: Acquire acquireLease_def on_candidate_def ownership_def)
next
  case (Commit w pid utr version now)
  show ?thesis
  proof (cases "getEntry utr r")
    case (Some e)
    then have o1: "ownership r utr = Some (ce_amountPaise e, owner_of e)" by (simp add: ownership_def)
    show ?thesis
      by (cases "ce_consumedByPartition e"; cases "ce_leaseOwner e")
        (use Some o1 ownership_same [OF o1] in
          \<open>auto simp: Commit commitConsumption_def on_candidate_def ownership_put owner_of_def\<close>)
  qed (simp add: Commit commitConsumption_def on_candidate_def ownership_def)
next
  case (Release w utr)
  show ?thesis
  proof (cases "getEntry utr r")
    case (Some e)
    then have o1: "ownership r utr = Some (ce_amountPaise e, owner_of e)" by (simp add: ownership_def)
    show ?thesis
      by (cases "ce_consumedByPartition e"; cases "ce_leaseOwner e")
        (use Some o1 ownership_same [OF o1] in
          \<open>auto simp: Release releaseLease_def on_candidate_def ownership_put owner_of_def\<close>)
  qed (simp add: Release releaseLease_def on_candidate_def ownership_def)
next
  case (Claim pid utr amount now)
  show ?thesis
  proof (cases "getEntry utr r")
    case (Some e)
    then have o1: "ownership r utr = Some (ce_amountPaise e, owner_of e)" by (simp add: ownership_def)
    show ?thesis
      by (cases "ce_consumedByPartition e"; cases "ce_leaseOwner e")
        (use Some o1 ownership_same [OF o1] in
          \<open>auto simp: Claim claimCrossPartitionCandidate_def on_candidate_def ownership_put owner_of_def Let_def\<close>)
  qed (simp add: Claim claimCrossPartitionCandidate_def on_candidate_def ownership_def)
qed

lemma registry_run_refines:
  "registry_ok r \<Longrightarrow> map_prod id ownership (run_all registry_op ops r) = run_all (ownership_op (cr_leaseTimeoutMs r)) ops (ownership r)"
proof (induction ops arbitrary: r)
  case (Cons op ops)
  obtain a r1 where r1: "registry_op op r = (a, r1)" by fastforce
  then have step: "ownership_op (cr_leaseTimeoutMs r) op (ownership r) = (a, ownership r1)"
    using registry_op_refines [OF Cons.prems, of op] by simp
  have "registry_ok r1" "cr_leaseTimeoutMs r1 = cr_leaseTimeoutMs r" using registry_op_ok [OF Cons.prems, of op] r1 by simp_all
  with Cons.IH [of r1] r1 step show ?case by (auto simp: case_prod_beta prod_eq_iff map_prod_def)
qed simp

text \<open>In the specification a consumed candidate stays with its partition until it is registered anew.\<close>

definition registers :: "string \<Rightarrow> RegistryOp \<Rightarrow> bool" where
  "registers utr op = (case op of Register pid s \<Rightarrow> s_utr s = Some utr | _ \<Rightarrow> False)"

definition consumes :: "string \<Rightarrow> RegistryOp \<times> RegistryAnswer \<Rightarrow> bool" where
  "consumes utr oa = (case oa of (Commit _ _ u _ _, Committed None) \<Rightarrow> u = utr | (Claim _ u _ _, Claimed None) \<Rightarrow> u = utr | _ \<Rightarrow> False)"

definition consumed_in :: "string \<Rightarrow> OwnershipMap \<Rightarrow> bool" where
  "consumed_in utr m = (\<exists>amount p. m utr = Some (amount, Consumed p))"

lemma ownership_step_consumed:
  assumes "\<not> registers utr op" "ownership_op timeout op m = (a, m')"
  shows "(consumes utr (op, a) \<longrightarrow> \<not> consumed_in utr m \<and> consumed_in utr m') \<and> (consumed_in utr m \<longrightarrow> consumed_in utr m')"
proof (cases op)
  case (Acquire w u now)
  with assms(2) show ?thesis
    by (cases "m u"; cases "snd (the (m u))") (auto simp: on_candidate_def consumes_def consumed_in_def split: if_splits)
next
  case (Commit w pid u version now)
  with assms(2) show ?thesis
    by (cases "m u"; cases "snd (the (m u))") (auto simp: on_candidate_def consumes_def consumed_in_def split: if_splits)
next
  case (Release w u)
  with assms(2) show ?thesis
    by (cases "m u"; cases "snd (the (m u))") (auto simp: on_candidate_def consumes_def consumed_in_def split: if_splits)
next
  case (Claim pid u amount now)
  with assms(2) show ?thesis
    by (cases "m u"; cases "snd (the (m u))") (auto simp: on_candidate_def consumes_def consumed_in_def split: if_splits)
next
  case (Register pid s)
  with assms show ?thesis by (cases "s_utr s") (auto simp: registers_def consumes_def consumed_in_def truthy_str_def split: if_splits)
qed

lemma ownership_run_consumed:
  "list_all (\<lambda>op. \<not> registers utr op) ops \<Longrightarrow> run_all (ownership_op timeout) ops m = (as, m')
     \<Longrightarrow> length (filter (consumes utr) (zip ops as)) \<le> (if consumed_in utr m then 0 else 1)"
proof (induction ops arbitrary: m as)
  case (Cons op ops)
  obtain a m1 where s: "ownership_op timeout op m = (a, m1)" by fastforce
  obtain as1 where r: "run_all (ownership_op timeout) ops m1 = (as1, m')" "as = a # as1"
    using Cons.prems(2) s by (auto split: prod.splits)
  have "\<not> registers utr op" using Cons.prems(1) by simp
  from ownership_step_consumed [OF this s] Cons.IH [OF _ r(1)] Cons.prems(1) show ?case
    by (auto simp: r(2) split: if_splits)
qed simp

text \<open>
  C14. The cross-partition registry refines an abstract machine in which a candidate is free, leased with a version, or consumed:
  every sequence of its operations gives the same answers as the machine, and its final state abstracts to the machine's.
\<close>

theorem registry_refines_ownership:
  "map_prod id ownership (run_all registry_op ops (new_registry timeout))
     = run_all (ownership_op (cr_leaseTimeoutMs (new_registry timeout))) ops Map.empty"
proof -
  have "registry_ok (new_registry timeout)" "ownership (new_registry timeout) = Map.empty"
    by (simp_all add: registry_ok_def new_registry_def getEntry_def ownership_def fun_eq_iff)
  then show ?thesis using registry_run_refines [of "new_registry timeout" ops] by simp
qed

text \<open>
  C15. A candidate is consumed at most once: in any sequence of acquisitions, commits, releases and claims by any workers, after the
  candidate's registration, at most one commit or claim of its UTR succeeds.
\<close>

theorem candidate_consumed_once:
  assumes "run_all registry_op ops r = (as, r')" "registry_ok r" "list_all (\<lambda>op. \<not> registers utr op) ops"
  shows "length (filter (consumes utr) (zip ops as)) \<le> 1"
proof -
  have "run_all (ownership_op (cr_leaseTimeoutMs r)) ops (ownership r) = (as, ownership r')"
    using registry_run_refines [OF assms(2), of ops] assms(1) by simp
  from ownership_run_consumed [OF assms(3) this] show ?thesis by (auto split: if_splits)
qed

definition sample_registry :: CrossPartitionRegistry where
  "sample_registry = \<lparr>cr_utrIndex = [(''u'', \<lparr>ce_recordId = ''s'', ce_sourcePartitionId = ''p1'', ce_amountPaise = 100, ce_utr = ''u'',
     ce_consumedByPartition = None, ce_consumedAt = None, ce_leaseOwner = None, ce_leaseExpiresAt = None, ce_leaseVersion = 1\<rparr>)],
     cr_amountIndex = [(100, [''s''])], cr_leaseTimeoutMs = 5000\<rparr>"

definition sample_race :: "RegistryOp list" where
  "sample_race = [Acquire ''one'' ''u'' 0, Acquire ''two'' ''u'' 9000, Commit ''one'' ''p1'' ''u'' 2 9001,
     Commit ''two'' ''p2'' ''u'' 3 9002, Claim ''p3'' ''u'' 100 9003]"

text \<open>The second worker takes over an expired lease; the first one's commit is stale and the late claim finds the candidate consumed.\<close>

theorem candidate_consumed_once_witness:
  "length (filter (consumes ''u'') (zip sample_race (fst (run_all registry_op sample_race sample_registry)))) = 1"
proof -
  obtain as r' where r: "run_all registry_op sample_race sample_registry = (as, r')" by (rule prod.exhaust)
  have "registry_ok sample_registry" by (simp add: registry_ok_def sample_registry_def getEntry_def)
  moreover have "list_all (\<lambda>op. \<not> registers ''u'' op) sample_race" by (simp add: sample_race_def registers_def)
  ultimately have "length (filter (consumes ''u'') (zip sample_race as)) \<le> 1" by (rule candidate_consumed_once [OF r])
  moreover have "filter (consumes ''u'') (zip sample_race (fst (run_all registry_op sample_race sample_registry))) \<noteq> []"
    by (simp add: sample_race_def sample_registry_def registry_defs getEntry_def put_entry_def consumes_def)
  ultimately show ?thesis using r by (cases "filter (consumes ''u'') (zip sample_race as)") auto
qed

section \<open>The resolver\<close>

lemma first_pair_Some: "first_pair P xs = Some (x, y) \<Longrightarrow> x \<in> set xs \<and> y \<in> set xs \<and> P x y \<and> (distinct (map f xs) \<longrightarrow> f x \<noteq> f y)"
proof (induction xs)
  case (Cons z zs)
  show ?case
  proof (cases "find (P z) zs")
    case (Some v)
    with Cons.prems have "z = x" "v = y" by auto
    with Some have "y \<in> set zs" "P x y" by (auto simp: find_Some_iff)
    with \<open>z = x\<close> show ?thesis by auto
  qed (use Cons in auto)
qed simp

definition resolver_inv :: "ResolverConfig \<Rightarrow> ident set \<Rightarrow> ident set \<Rightarrow> ResolverState \<Rightarrow> bool" where
  "resolver_inv cfg S C st =
     (distinct (concat (map xm_settlementIds (rs_matched st))) \<and> set (concat (map xm_settlementIds (rs_matched st))) = rs_usedSettlements st
      \<and> distinct (concat (map xm_bankTxnIds (rs_matched st))) \<and> set (concat (map xm_bankTxnIds (rs_matched st))) = rs_usedCredits st
      \<and> rs_usedSettlements st \<subseteq> S \<and> rs_usedCredits st \<subseteq> C
      \<and> (\<forall>m \<in> set (rs_matched st). xm_differencePaise m = \<bar>xm_settlementAmount m - xm_bankAmount m\<bar> \<and> xm_differencePaise m \<le> rc_tolerancePaise cfg))"

lemma settlements_by_utr_spec: "settlements_by_utr ss u = Some xs \<Longrightarrow> set xs \<subseteq> set ss"
proof -
  assume "settlements_by_utr ss u = Some xs"
  then have "xs = get_list (settlements_by_utr ss) u" by (simp add: get_list_def)
  also have "\<dots> = filter (\<lambda>s. truthy_str (s_utr (us_settlement s)) \<and> the (s_utr (us_settlement s)) = u) ss"
    unfolding settlements_by_utr_def get_list_fold_push by simp
  finally show ?thesis by auto
qed

lemma utr_step_inv:
  assumes inv: "resolver_inv cfg S C st" and S: "sid ` set ss \<subseteq> S" and C: "cid c \<in> C"
  shows "resolver_inv cfg S C (utr_step cfg (settlements_by_utr ss) c st)"
proof (cases "utr_step cfg (settlements_by_utr ss) c st = st")
  case False
  then have free: "cid c \<notin> rs_usedCredits st" by (auto simp: utr_step_def split: if_splits)
  from False obtain xs s where xs: "settlements_by_utr ss (the (b_utr (uc_credit c))) = Some xs"
    and s: "find (\<lambda>s. sid s \<notin> rs_usedSettlements st \<and> within_window cfg c s
                 \<and> \<bar>s_amount (us_settlement s) - b_amount (uc_credit c)\<bar> \<le> rc_tolerancePaise cfg) xs = Some s"
    and st': "utr_step cfg (settlements_by_utr ss) c st = \<lparr>rs_matched = rs_matched st @ [utr_match c s],
                rs_usedSettlements = insert (sid s) (rs_usedSettlements st), rs_usedCredits = insert (cid c) (rs_usedCredits st)\<rparr>"
    by (auto simp: utr_step_def split: if_splits option.splits)
  from s have "s \<in> set xs" "sid s \<notin> rs_usedSettlements st" "\<bar>s_amount (us_settlement s) - b_amount (uc_credit c)\<bar> \<le> rc_tolerancePaise cfg"
    by (auto simp: find_Some_iff)
  moreover have "sid s \<in> S" using settlements_by_utr_spec [OF xs] \<open>s \<in> set xs\<close> S by auto
  ultimately show ?thesis unfolding st' using inv free C by (auto simp: resolver_inv_def utr_match_def)
qed (use inv in simp)

lemma pair_step_inv:
  assumes inv: "resolver_inv cfg S C st" and S: "sid ` set ss \<subseteq> S" and C: "cid c \<in> C" and d: "distinct (map sid ss)"
  shows "resolver_inv cfg S C (pair_step cfg ss c st)"
proof (cases "pair_step cfg ss c st = st")
  case False
  then have free: "cid c \<notin> rs_usedCredits st" by (auto simp: pair_step_def split: if_splits)
  let ?av = "filter (\<lambda>s. sid s \<notin> rs_usedSettlements st \<and> within_window cfg c s) ss"
  from False obtain s1 s2 where s: "first_pair (\<lambda>s1 s2. \<bar>pair_sum s1 s2 - b_amount (uc_credit c)\<bar> \<le> rc_tolerancePaise cfg) ?av = Some (s1, s2)"
    and st': "pair_step cfg ss c st = \<lparr>rs_matched = rs_matched st @ [pair_match c s1 s2],
           rs_usedSettlements = insert (sid s2) (insert (sid s1) (rs_usedSettlements st)),
           rs_usedCredits = insert (cid c) (rs_usedCredits st)\<rparr>"
    by (auto simp: pair_step_def split: if_splits option.splits)
  have "distinct (map sid ?av)" using d by (rule distinct_map_filter)
  with first_pair_Some [OF s, of sid] have ne: "sid s1 \<noteq> sid s2" "s1 \<in> set ?av" "s2 \<in> set ?av"
    and tol: "\<bar>pair_sum s1 s2 - b_amount (uc_credit c)\<bar> \<le> rc_tolerancePaise cfg" by auto
  then have "sid s1 \<in> S" "sid s2 \<in> S" "sid s1 \<notin> rs_usedSettlements st" "sid s2 \<notin> rs_usedSettlements st" using S by auto
  then show ?thesis unfolding st' using inv free C ne(1) tol by (auto simp: resolver_inv_def pair_match_def)
qed (use inv in simp)

lemma resolver_result:
  assumes d: "distinct (map sid ss)" "distinct (map cid cs)"
  shows "\<exists>st. resolver_inv cfg (sid ` set ss) (cid ` set cs) st
     \<and> rn_matchedResults (resolveCrossPartitionOrphans cfg ss cs) = rs_matched st
     \<and> rn_unresolvedSettlements (resolveCrossPartitionOrphans cfg ss cs) = filter (\<lambda>s. sid s \<notin> rs_usedSettlements st) (js_sort (cmp_by sid) ss)
     \<and> rn_unresolvedCredits (resolveCrossPartitionOrphans cfg ss cs) = filter (\<lambda>c. cid c \<notin> rs_usedCredits st) (js_sort (cmp_by cid) cs)"
proof -
  let ?ss = "js_sort (cmp_by sid) ss" and ?cs = "js_sort (cmp_by cid) cs"
  let ?S = "sid ` set ss" and ?C = "cid ` set cs"
  let ?st0 = "\<lparr>rs_matched = [], rs_usedSettlements = {}, rs_usedCredits = {}\<rparr>"
  let ?st1 = "fold (utr_step cfg (settlements_by_utr ?ss)) ?cs ?st0"
  let ?cappedS = "take 200 (filter (\<lambda>s. sid s \<notin> rs_usedSettlements ?st1) ?ss)"
  let ?cappedC = "take 200 (filter (\<lambda>c. cid c \<notin> rs_usedCredits ?st1) ?cs)"
  have "resolver_inv cfg ?S ?C ?st0" by (simp add: resolver_inv_def)
  then have one: "resolver_inv cfg ?S ?C ?st1"
    by (rule fold_invariant [where Q = "\<lambda>c. cid c \<in> ?C", rotated]) (auto intro!: utr_step_inv)
  have dc: "distinct (map sid ?cappedS)"
  proof -
    have "distinct (map sid ?ss)" using d(1) by (simp add: distinct_map)
    from distinct_map_filter [OF this] show ?thesis by (simp only: take_map [symmetric] distinct_take)
  qed
  have sub: "sid ` set ?cappedS \<subseteq> ?S" "\<And>c. c \<in> set ?cappedC \<Longrightarrow> cid c \<in> ?C" by (auto dest: in_set_takeD)
  have "resolver_inv cfg ?S ?C (fold (pair_step cfg ?cappedS) ?cappedC ?st1)"
    by (rule fold_invariant [where Q = "\<lambda>c. cid c \<in> ?C" and P = "resolver_inv cfg ?S ?C"])
      (use one sub dc in \<open>auto intro!: pair_step_inv\<close>)
  then show ?thesis unfolding resolveCrossPartitionOrphans_def Let_def by auto
qed

text \<open>The result of a partition that holds exactly the boundary orphans.\<close>

definition orphan_result ::
  "string \<Rightarrow> int \<Rightarrow> UnmatchedSettlement list \<Rightarrow> UnmatchedCredit list \<Rightarrow> Resolution \<Rightarrow> PartitionExecutionResult" where
  "orphan_result pid window ss cs rn = \<lparr>pe_partitionId = pid, pe_windowIndex = window, pe_inputSettlementIds = map sid ss,
     pe_inputBankTxnIds = map cid cs, pe_matchedResults = rn_matchedResults rn,
     pe_unresolvedSettlementIds = map sid (rn_unresolvedSettlements rn), pe_unresolvedBankTxnIds = map cid (rn_unresolvedCredits rn)\<rparr>"

lemma fold_bump_distinct:
  "distinct (map fst m @ ids) \<Longrightarrow> fold bump ids m = m @ map (\<lambda>i. (i, 1)) ids"
proof (induction ids arbitrary: m)
  case (Cons i ids)
  then have i: "i \<notin> fst ` set m" by auto
  then have "map_of m i = None" by (simp add: map_of_eq_None_iff)
  moreover from i have "AList.update i n m = m @ [(i, n)]" for n :: nat by (induction m) auto
  ultimately have "bump i m = m @ [(i, 1)]" by (simp add: bump_def)
  with Cons show ?case by simp
qed simp

lemma counts_distinct: "distinct ids \<Longrightarrow> consumption_counts ids = map (\<lambda>i. (i, 1)) ids"
  by (simp add: consumption_counts_def fold_bump_distinct)

lemma split_by_use:
  assumes "distinct (map f xs)" "used \<subseteq> f ` set xs" "distinct ids" "set ids = used"
  shows "length ids + length (filter (\<lambda>x. f x \<notin> used) (js_sort c xs)) = length xs"
proof -
  have "distinct (map f (filter (\<lambda>x. f x \<in> used) (js_sort c xs)))"
    using assms(1) by (intro distinct_map_filter) (simp add: distinct_map)
  moreover have "set (map f (filter (\<lambda>x. f x \<in> used) (js_sort c xs))) = used" using assms(2) by auto
  ultimately have "length (filter (\<lambda>x. f x \<in> used) (js_sort c xs)) = length ids"
    using assms(3,4) by (metis distinct_card length_map)
  then show ?thesis using sum_length_filter_compl [of "\<lambda>x. f x \<in> used" "js_sort c xs"] by simp
qed

lemma zero_differences:
  assumes "\<forall>m \<in> set ms. xm_differencePaise m = \<bar>xm_settlementAmount m - xm_bankAmount m\<bar> \<and> xm_differencePaise m \<le> 0"
  shows "map xm_settlementAmount ms = map xm_bankAmount ms" "map xm_differencePaise ms = map (\<lambda>_. 0) ms"
  using assms by auto

text \<open>
  The resolver satisfies the global invariants: with the default tolerance of zero paise, for any boundary orphans with distinct
  ids, its results account for every settlement and credit exactly once, consume nothing twice and conserve the money, so the
  verifier reports no violation.
\<close>

theorem resolution_passes_invariants:
  assumes "distinct (map sid ss)" "distinct (map cid cs)" "rc_tolerancePaise cfg = 0"
  shows "gi_violations (verifyGlobalInvariants sha256 [orphan_result pid window ss cs (resolveCrossPartitionOrphans cfg ss cs)]) = []"
proof -
  let ?rn = "resolveCrossPartitionOrphans cfg ss cs"
  from resolver_result [OF assms(1,2), of cfg] obtain st
    where inv: "resolver_inv cfg (sid ` set ss) (cid ` set cs) st" and m: "rn_matchedResults ?rn = rs_matched st"
      and u: "rn_unresolvedSettlements ?rn = filter (\<lambda>s. sid s \<notin> rs_usedSettlements st) (js_sort (cmp_by sid) ss)"
        "rn_unresolvedCredits ?rn = filter (\<lambda>c. cid c \<notin> rs_usedCredits st) (js_sort (cmp_by cid) cs)" by blast
  let ?S = "concat (map xm_settlementIds (rs_matched st))" and ?B = "concat (map xm_bankTxnIds (rs_matched st))"
  have d: "distinct ?S" "distinct ?B" using inv by (simp_all add: resolver_inv_def)
  have s: "length ?S + length (rn_unresolvedSettlements ?rn) = length ss" unfolding u
    by (rule split_by_use) (use inv assms(1) d in \<open>simp_all add: resolver_inv_def\<close>)
  have b: "length ?B + length (rn_unresolvedCredits ?rn) = length cs" unfolding u
    by (rule split_by_use) (use inv assms(2) d in \<open>simp_all add: resolver_inv_def\<close>)
  have "\<forall>m \<in> set (rs_matched st). xm_differencePaise m = \<bar>xm_settlementAmount m - xm_bankAmount m\<bar> \<and> xm_differencePaise m \<le> 0"
    using inv assms(3) unfolding resolver_inv_def by metis
  from zero_differences [OF this]
  have z: "sum_list (map xm_settlementAmount (rs_matched st)) = sum_list (map xm_bankAmount (rs_matched st))"
    "sum_list (map xm_differencePaise (rs_matched st)) = 0" by (simp_all only: sum_list_0)
  have n: "length (remdups (map sid ss)) = length ss" "length (remdups (map cid cs)) = length cs"
    using assms(1,2) by (simp_all add: distinct_remdups_id)
  show ?thesis
    using s b z n by (simp add: verifyGlobalInvariants_def orphan_result_def Let_def m counts_distinct [OF d(1)] counts_distinct [OF d(2)])
qed

text \<open>
  The resolver is independent of the order of its inputs: any permutation of the settlements and of the credits, with distinct ids,
  gives the same matches and the same unresolved records in the same order.
\<close>

theorem resolver_order_independent:
  assumes "mset ss = mset ss'" "mset cs = mset cs'" "distinct (map sid ss')" "distinct (map cid cs')"
  shows "resolveCrossPartitionOrphans cfg ss cs = resolveCrossPartitionOrphans cfg ss' cs'"
  unfolding resolveCrossPartitionOrphans_def js_sort_unique [OF assms(1,3)] js_sort_unique [OF assms(2,4)] by (rule refl)

definition orphan_settlement :: "ident \<Rightarrow> paise \<Rightarrow> int \<Rightarrow> UnmatchedSettlement" where
  "orphan_settlement i amount window = \<lparr>us_partitionId = ''p1'', us_windowIndex = window, us_settlement =
     \<lparr>s_dbId = i, s_settlementId = i, s_paymentId = i, s_amount = amount, s_fee = 0, s_tax = 0, s_utr = None, s_status = ''processed'',
      s_settledAt = None, s_createdAt = 0\<rparr>\<rparr>"

text \<open>Two settlements of one window and a third out of reach.\<close>

definition sample_orphans :: "UnmatchedSettlement list" where
  "sample_orphans = [orphan_settlement ''b'' 60 1, orphan_settlement ''a'' 40 0, orphan_settlement ''c'' 7 9]"

theorem resolution_passes_invariants_witness:
  "gi_violations (verifyGlobalInvariants (\<lambda>s. s)
     [orphan_result ''p'' 0 sample_orphans [] (resolveCrossPartitionOrphans default_resolver sample_orphans [])]) = []"
  by (rule resolution_passes_invariants) (simp_all add: sample_orphans_def orphan_settlement_def default_resolver_def)

theorem resolver_order_independent_witness:
  "resolveCrossPartitionOrphans default_resolver sample_orphans [] = resolveCrossPartitionOrphans default_resolver (rev sample_orphans) []"
  by (rule resolver_order_independent) (simp_all add: sample_orphans_def orphan_settlement_def)

end
