(* ===== verification/Exception_Workflow.thy ===== *)
theory Exception_Workflow
  imports Audit_Chain
begin

text \<open>
  The workflow of an exception: the state machine (\<open>src/lib/exceptions/state-machine.ts\<close>), the
  service that moves a stored exception along it (\<open>src/lib/exceptions/service.ts\<close>), and the
  endpoint users reach it through (\<open>src/app/api/exceptions/[id]/status/route.ts\<close>).

  The status column is a string, as in the database. A request reads the row, decides, and later
  commits in a transaction whose update only matches the status it read; between the two, other
  requests may commit. The model keeps the two halves apart (\<open>plan_transition\<close> and
  \<open>commit_transition\<close>) so that their interleavings can be stated. Time, and the other writers
  of the audit chain, come in through an environment.
\<close>

section \<open>The state machine\<close>

datatype WorkflowState =
    OPEN | INVESTIGATING | PENDING_APPROVAL | APPROVED | REJECTED | CORRECTING | RE_CALCULATING
  | RE_VERIFICATION | FINALIZABLE | RESOLVED | ESCALATED | UNRESOLVABLE | REOPENED

fun state_name :: "WorkflowState \<Rightarrow> string" where
  "state_name OPEN = ''OPEN''"
| "state_name INVESTIGATING = ''INVESTIGATING''"
| "state_name PENDING_APPROVAL = ''PENDING_APPROVAL''"
| "state_name APPROVED = ''APPROVED''"
| "state_name REJECTED = ''REJECTED''"
| "state_name CORRECTING = ''CORRECTING''"
| "state_name RE_CALCULATING = ''RE_CALCULATING''"
| "state_name RE_VERIFICATION = ''RE_VERIFICATION''"
| "state_name FINALIZABLE = ''FINALIZABLE''"
| "state_name RESOLVED = ''RESOLVED''"
| "state_name ESCALATED = ''ESCALATED''"
| "state_name UNRESOLVABLE = ''UNRESOLVABLE''"
| "state_name REOPENED = ''REOPENED''"

definition WORKFLOW_STATES :: "WorkflowState list" where
  "WORKFLOW_STATES = [OPEN, INVESTIGATING, PENDING_APPROVAL, APPROVED, REJECTED, CORRECTING, RE_CALCULATING,
     RE_VERIFICATION, FINALIZABLE, RESOLVED, ESCALATED, UNRESOLVABLE, REOPENED]"

fun WORKFLOW_TRANSITIONS :: "WorkflowState \<Rightarrow> WorkflowState list" where
  "WORKFLOW_TRANSITIONS OPEN = [INVESTIGATING, ESCALATED]"
| "WORKFLOW_TRANSITIONS INVESTIGATING = [PENDING_APPROVAL, CORRECTING, ESCALATED]"
| "WORKFLOW_TRANSITIONS PENDING_APPROVAL = [APPROVED, REJECTED, ESCALATED]"
| "WORKFLOW_TRANSITIONS REJECTED = [INVESTIGATING, CORRECTING, ESCALATED]"
| "WORKFLOW_TRANSITIONS APPROVED = [CORRECTING, RE_CALCULATING]"
| "WORKFLOW_TRANSITIONS CORRECTING = [RE_CALCULATING, ESCALATED]"
| "WORKFLOW_TRANSITIONS RE_CALCULATING = [RE_VERIFICATION, ESCALATED]"
| "WORKFLOW_TRANSITIONS RE_VERIFICATION = [FINALIZABLE, CORRECTING, ESCALATED, UNRESOLVABLE]"
| "WORKFLOW_TRANSITIONS FINALIZABLE = [RESOLVED, ESCALATED]"
| "WORKFLOW_TRANSITIONS ESCALATED = [INVESTIGATING, UNRESOLVABLE]"
| "WORKFLOW_TRANSITIONS UNRESOLVABLE = [INVESTIGATING]"
| "WORKFLOW_TRANSITIONS RESOLVED = [REOPENED]"
| "WORKFLOW_TRANSITIONS REOPENED = [INVESTIGATING]"

definition parse_state :: "string \<Rightarrow> WorkflowState option" where
  "parse_state value = find (\<lambda>s. state_name s = value) WORKFLOW_STATES"

definition isWorkflowState :: "string \<Rightarrow> bool" where
  "isWorkflowState value = (value \<in> set (map state_name WORKFLOW_STATES))"

definition getAllowedTransitions :: "WorkflowState \<Rightarrow> WorkflowState list" where
  "getAllowedTransitions s = WORKFLOW_TRANSITIONS s"

text \<open>
  The source indexes the table with whatever the status column holds; a status outside the table
  has no list, and the test is false.
\<close>

definition canTransition :: "string \<Rightarrow> string \<Rightarrow> bool" where
  "canTransition a b = (case parse_state a of None \<Rightarrow> False
     | Some s \<Rightarrow> b \<in> set (map state_name (WORKFLOW_TRANSITIONS s)))"

datatype WorkflowError =
    InvalidWorkflowState string
  | ExceptionNotFound ident
  | InvalidTransition string string
  | WorkflowConflict
  | AppendFailed

definition assertValidTransition :: "string \<Rightarrow> string \<Rightarrow> WorkflowError + unit" where
  "assertValidTransition a b = (if \<not> canTransition a b then Inl (InvalidTransition a b) else Inr ())"

section \<open>The service\<close>

record ExceptionRow =
  er_batchId :: ident
  er_confidenceScore :: int
  er_status :: string
  er_resolution :: "string option"
  er_resolvedBy :: "string option"
  er_resolvedAt :: "millis option"

record AuditLogRow =
  al_batchId :: ident
  al_actor :: string
  al_action :: string
  al_entityType :: string
  al_entityId :: ident
  al_beforeState :: string
  al_afterState :: string
  al_reason :: string

record FeedbackEntry =
  fe_batchId :: ident
  fe_exceptionId :: ident
  fe_originalStatus :: string
  fe_newStatus :: string
  fe_confidenceBefore :: int
  fe_confidenceAfter :: int

record WorkflowDb =
  w_exceptions :: "ident \<rightharpoonup> ExceptionRow"
  w_auditLog :: "AuditLogRow list"
  w_chain :: "AuditEvent list"
  w_feedback :: "FeedbackEntry list"

record TransitionExceptionInput =
  ti_exceptionId :: ident
  ti_toState :: string
  ti_actor :: string
  ti_reason :: "string option"
  ti_resolution :: "string option"

record TransitionResult =
  tr_idempotent :: bool
  tr_fromState :: string
  tr_toState :: string
  tr_exception :: "ExceptionRow option"

record WorkflowEnv =
  we_sha :: "string \<Rightarrow> string"
  we_others :: "nat \<Rightarrow> AuditEvent list \<Rightarrow> AuditEvent list"
  we_now :: millis
  we_occurredAt :: string

definition status_json :: "string \<Rightarrow> string" where
  "status_json s = json_stringify (JObj [(''status'', JStr s)])"

text \<open>What a request has decided when it enters its transaction.\<close>

record TransitionPlan =
  tp_input :: TransitionExceptionInput
  tp_actor :: string
  tp_from :: string
  tp_to :: string
  tp_batchId :: ident
  tp_confidence :: int

definition plan_transition ::
  "TransitionExceptionInput \<Rightarrow> WorkflowDb \<Rightarrow> WorkflowError + (TransitionResult + TransitionPlan)" where
  "plan_transition inp db =
     (let to = js_trim (ti_toState inp)
      in if \<not> isWorkflowState to then Inl (InvalidWorkflowState (ti_toState inp))
         else let actor = (if ti_actor inp = '''' then ''USER'' else ti_actor inp)
              in case w_exceptions db (ti_exceptionId inp) of
                   None \<Rightarrow> Inl (ExceptionNotFound (ti_exceptionId inp))
                 | Some current \<Rightarrow>
                     if er_status current = to
                     then Inr (Inl \<lparr>tr_idempotent = True, tr_fromState = er_status current, tr_toState = to, tr_exception = None\<rparr>)
                     else (case assertValidTransition (er_status current) to of
                         Inl e \<Rightarrow> Inl e
                       | Inr _ \<Rightarrow>
                           if js_toUpperCase actor = ''AI'' \<and> to = ''RESOLVED''
                           then Inl (InvalidTransition (er_status current) to)
                           else Inr (Inr \<lparr>tp_input = inp, tp_actor = actor, tp_from = er_status current, tp_to = to,
                                          tp_batchId = er_batchId current, tp_confidence = er_confidenceScore current\<rparr>)))"

definition moved_row :: "WorkflowEnv \<Rightarrow> TransitionPlan \<Rightarrow> ExceptionRow \<Rightarrow> ExceptionRow" where
  "moved_row env p row =
     (let row1 = row\<lparr>er_status := tp_to p\<rparr>
      in if tp_to p = ''RESOLVED''
         then row1\<lparr>er_resolution := ti_resolution (tp_input p), er_resolvedBy := Some (tp_actor p),
                   er_resolvedAt := Some (we_now env)\<rparr>
         else if tp_from p = ''RESOLVED'' \<and> tp_to p = ''REOPENED''
         then row1\<lparr>er_resolution := None, er_resolvedBy := None, er_resolvedAt := None\<rparr>
         else row1)"

definition transition_log :: "TransitionPlan \<Rightarrow> AuditLogRow" where
  "transition_log p = \<lparr>al_batchId = tp_batchId p, al_actor = tp_actor p, al_action = ''WORKFLOW_TRANSITION'',
     al_entityType = ''exception'', al_entityId = ti_exceptionId (tp_input p),
     al_beforeState = status_json (tp_from p), al_afterState = status_json (tp_to p),
     al_reason = (case ti_reason (tp_input p) of
         Some r \<Rightarrow> if r = '''' then ''Workflow transitioned '' @ tp_from p @ '' -> '' @ tp_to p else r
       | None \<Rightarrow> ''Workflow transitioned '' @ tp_from p @ '' -> '' @ tp_to p)\<rparr>"

definition human_action :: "WorkflowEnv \<Rightarrow> TransitionPlan \<Rightarrow> AppendAuditEventInput" where
  "human_action env p = \<lparr>in_batchId = tp_batchId p, in_eventType = ''HUMAN_ACTION'', in_actor = tp_actor p,
     in_entityId = Some (ti_exceptionId (tp_input p)),
     in_payload = [(''fromState'', JStr (tp_from p)), (''toState'', JStr (tp_to p))],
     in_occurredAt = we_occurredAt env\<rparr>"

definition closing_feedback :: "TransitionPlan \<Rightarrow> FeedbackEntry list" where
  "closing_feedback p =
     (if tp_to p = ''RESOLVED''
      then [\<lparr>fe_batchId = tp_batchId p, fe_exceptionId = ti_exceptionId (tp_input p), fe_originalStatus = tp_from p,
             fe_newStatus = tp_to p, fe_confidenceBefore = tp_confidence p, fe_confidenceAfter = 100\<rparr>]
      else [])"

text \<open>
  The transaction: a conflicting status or a failed append aborts it, and nothing it wrote stays;
  what the other writers appended to the chain meanwhile stays.
\<close>

definition commit_transition :: "WorkflowEnv \<Rightarrow> TransitionPlan \<Rightarrow> WorkflowDb \<Rightarrow> (WorkflowError + TransitionResult) \<times> WorkflowDb" where
  "commit_transition env p db =
     (let i = ti_exceptionId (tp_input p)
      in case w_exceptions db i of
           None \<Rightarrow> (Inl WorkflowConflict, db)
         | Some row \<Rightarrow>
             if er_status row \<noteq> tp_from p then (Inl WorkflowConflict, db)
             else let db1 = db\<lparr>w_exceptions := (w_exceptions db)(i \<mapsto> moved_row env p row),
                               w_auditLog := w_auditLog db @ [transition_log p]\<rparr>;
                      result = Inr \<lparr>tr_idempotent = False, tr_fromState = tp_from p, tr_toState = tp_to p,
                                    tr_exception = Some (moved_row env p row)\<rparr>
                  in if js_toUpperCase (tp_actor p) \<noteq> ''AI''
                     then (case appendAuditEvent (we_sha env) (we_others env) (human_action env p) (w_chain db1) of
                         (None, tbl) \<Rightarrow> (Inl AppendFailed, db\<lparr>w_chain := tbl\<rparr>)
                       | (Some e, tbl) \<Rightarrow> (result, db1\<lparr>w_chain := tbl, w_feedback := w_feedback db1 @ closing_feedback p\<rparr>))
                     else (result, db1\<lparr>w_feedback := w_feedback db1 @ closing_feedback p\<rparr>))"

text \<open>The service as one call, \<open>meanwhile\<close> what other requests commit between its read and its transaction.\<close>

definition transitionException ::
  "WorkflowEnv \<Rightarrow> (WorkflowDb \<Rightarrow> WorkflowDb) \<Rightarrow> TransitionExceptionInput \<Rightarrow> WorkflowDb
     \<Rightarrow> (WorkflowError + TransitionResult) \<times> WorkflowDb" where
  "transitionException env meanwhile inp db =
     (case plan_transition inp db of
        Inl e \<Rightarrow> (Inl e, db)
      | Inr (Inl r) \<Rightarrow> (Inr r, db)
      | Inr (Inr p) \<Rightarrow> commit_transition env p (meanwhile db))"

section \<open>The endpoint\<close>

record Session =
  s_name :: string
  s_role :: string

record StatusBody =
  sb_status :: "string option"
  sb_reason :: "string option"
  sb_resolution :: "string option"

datatype Reply = Reply (code: nat) (outcome: "TransitionResult option")

definition approvalTargets :: "string list" where
  "approvalTargets = [''RESOLVED'', ''REJECTED'']"

text \<open>The guards of the endpoint: what it hands to the service, or the status code it answers with.\<close>

definition accept_status :: "ident \<Rightarrow> Session option \<Rightarrow> StatusBody \<Rightarrow> nat + TransitionExceptionInput" where
  "accept_status i session body =
     (case sb_status body of
        None \<Rightarrow> Inl 400
      | Some status \<Rightarrow>
          if js_trim status = '''' then Inl 400
          else case session of
                 None \<Rightarrow> Inl 401
               | Some s \<Rightarrow>
                   if js_trim status \<in> set approvalTargets \<and> s_role s \<noteq> ''ADMIN'' then Inl 403
                   else Inr \<lparr>ti_exceptionId = i, ti_toState = status, ti_actor = s_name s @ '' ('' @ s_role s @ '')'',
                             ti_reason = sb_reason body, ti_resolution = sb_resolution body\<rparr>)"

fun error_code :: "WorkflowError \<Rightarrow> nat" where
  "error_code (InvalidWorkflowState s) = 400"
| "error_code (ExceptionNotFound i) = 404"
| "error_code (InvalidTransition a b) = 409"
| "error_code WorkflowConflict = 409"
| "error_code AppendFailed = 500"

definition post_status ::
  "WorkflowEnv \<Rightarrow> (WorkflowDb \<Rightarrow> WorkflowDb) \<Rightarrow> ident \<Rightarrow> Session option \<Rightarrow> StatusBody \<Rightarrow> WorkflowDb \<Rightarrow> Reply \<times> WorkflowDb" where
  "post_status env meanwhile i session body db =
     (case accept_status i session body of
        Inl c \<Rightarrow> (Reply c None, db)
      | Inr inp \<Rightarrow> (case transitionException env meanwhile inp db of
            (Inl e, db1) \<Rightarrow> (Reply (error_code e) None, db1)
          | (Inr r, db1) \<Rightarrow> (Reply 200 (Some r), db1)))"

text \<open>
  Requests in flight: a user's request reads and plans, and commits at any later time. The endpoint
  is the only caller of the service.
\<close>

record WorkflowSystem =
  ws_db :: WorkflowDb
  ws_pending :: "TransitionPlan list"

inductive workflow_step :: "WorkflowSystem \<Rightarrow> WorkflowSystem \<Rightarrow> bool" where
  request: "accept_status i (Some session) body = Inr inp \<Longrightarrow> plan_transition inp (ws_db s) = Inr (Inr p)
     \<Longrightarrow> workflow_step s (s\<lparr>ws_pending := p # ws_pending s\<rparr>)"
| commit: "p \<in> set (ws_pending s) \<Longrightarrow> commit_transition env p (ws_db s) = (r, db)
     \<Longrightarrow> workflow_step s (s\<lparr>ws_db := db, ws_pending := remove1 p (ws_pending s)\<rparr>)"

inductive workflow_reachable :: "WorkflowDb \<Rightarrow> WorkflowSystem \<Rightarrow> bool" for db0 where
  start: "workflow_reachable db0 \<lparr>ws_db = db0, ws_pending = []\<rparr>"
| step: "workflow_reachable db0 s \<Longrightarrow> workflow_step s t \<Longrightarrow> workflow_reachable db0 t"

text \<open>As the reconciliation engine creates them: every exception OPEN, with no resolution.\<close>

definition fresh_exceptions :: "WorkflowDb \<Rightarrow> bool" where
  "fresh_exceptions db \<longleftrightarrow> w_auditLog db = [] \<and>
     (\<forall>row \<in> ran (w_exceptions db). er_status row = ''OPEN'' \<and> er_resolution row = None \<and> er_resolvedBy row = None \<and> er_resolvedAt row = None)"

end
