(* ===== verification/Exception_Workflow_Correct.thy ===== *)
theory Exception_Workflow_Correct
  imports Exception_Workflow Audit_Chain_Correct
begin

text \<open>
  The workflow over every interleaving of requests: the stored status is always the end of a path of
  the state machine that the audit log spells out, resolution metadata is present exactly on resolved
  exceptions, and only administrators close cases. It ends with what the endpoint does not enforce.
\<close>

section \<open>The state machine\<close>

lemma parse_state_name [simp]: "parse_state (state_name s) = Some s"
  by (cases s) (simp_all add: parse_state_def WORKFLOW_STATES_def)

lemma parse_state_Some: "parse_state v = Some s \<longleftrightarrow> v = state_name s"
proof
  assume "parse_state v = Some s"
  then show "v = state_name s" by (auto simp: parse_state_def find_Some_iff)
qed simp

lemma state_name_inject [simp]: "state_name a = state_name b \<longleftrightarrow> a = b"
  using parse_state_name by (metis option.inject)

lemma isWorkflowState_iff: "isWorkflowState v \<longleftrightarrow> (\<exists>s. v = state_name s)"
proof
  assume "\<exists>s. v = state_name s"
  then obtain s where "v = state_name s" by blast
  then show "isWorkflowState v" by (cases s) (simp_all add: isWorkflowState_def WORKFLOW_STATES_def)
qed (auto simp: isWorkflowState_def)

lemma canTransition_iff:
  "canTransition a b \<longleftrightarrow> (\<exists>s t. a = state_name s \<and> b = state_name t \<and> t \<in> set (WORKFLOW_TRANSITIONS s))"
proof (cases "parse_state a")
  case None
  then have "a \<noteq> state_name s" for s by (metis parse_state_name option.distinct(1))
  then show ?thesis by (simp add: canTransition_def None)
next
  case (Some s)
  then have "a = state_name s" by (simp add: parse_state_Some)
  then show ?thesis by (auto simp: canTransition_def)
qed

lemma into_RESOLVED: "RESOLVED \<in> set (WORKFLOW_TRANSITIONS s) \<longleftrightarrow> s = FINALIZABLE"
  by (cases s) simp_all

lemma into_FINALIZABLE: "FINALIZABLE \<in> set (WORKFLOW_TRANSITIONS s) \<longleftrightarrow> s = RE_VERIFICATION"
  by (cases s) simp_all

lemma into_RE_VERIFICATION: "RE_VERIFICATION \<in> set (WORKFLOW_TRANSITIONS s) \<longleftrightarrow> s = RE_CALCULATING"
  by (cases s) simp_all

lemma out_of_RESOLVED: "s \<in> set (WORKFLOW_TRANSITIONS RESOLVED) \<longleftrightarrow> s = REOPENED"
  by simp

lemma status_json_inject: "status_json (state_name a) = status_json (state_name b) \<longleftrightarrow> a = b"
  by (cases a; cases b) (simp_all add: status_json_def json_string_def json_escape_def)

section \<open>Histories\<close>

definition edge :: "WorkflowState \<Rightarrow> WorkflowState \<Rightarrow> bool" where
  "edge a b \<longleftrightarrow> b \<in> set (WORKFLOW_TRANSITIONS a)"

definition logged :: "WorkflowState \<times> WorkflowState \<Rightarrow> string \<times> string" where
  "logged ab = (status_json (state_name (fst ab)), status_json (state_name (snd ab)))"

definition history :: "ident \<Rightarrow> WorkflowDb \<Rightarrow> (string \<times> string) list" where
  "history i db = map (\<lambda>r. (al_beforeState r, al_afterState r)) (filter (\<lambda>r. al_entityId r = i) (w_auditLog db))"

text \<open>A path as the list of its states; its edges are the neighbouring pairs.\<close>

definition edges :: "WorkflowState list \<Rightarrow> (WorkflowState \<times> WorkflowState) list" where
  "edges ss = zip ss (tl ss)"

definition path :: "WorkflowState list \<Rightarrow> bool" where
  "path ss \<longleftrightarrow> ss \<noteq> [] \<and> hd ss = OPEN \<and> successively edge ss"

lemma edges_snoc: "ss \<noteq> [] \<Longrightarrow> edges (ss @ [t]) = edges ss @ [(last ss, t)]"
proof (induction ss)
  case (Cons a ss)
  then show ?case by (cases ss) (simp_all add: edges_def)
qed simp

lemma path_snoc: "path ss \<Longrightarrow> edge (last ss) t \<Longrightarrow> path (ss @ [t])"
  by (simp add: path_def successively_append_iff)

lemma path_into:
  assumes "path (xs @ [t])" "t \<noteq> OPEN"
  shows "\<exists>us s. xs = us @ [s] \<and> path (us @ [s]) \<and> edge s t"
proof (cases xs rule: rev_cases)
  case Nil
  with assms show ?thesis by (simp add: path_def)
next
  case (snoc us s)
  with assms(1) have "path (us @ [s])" "edge s t" by (auto simp: path_def successively_append_iff hd_append)
  with snoc show ?thesis by blast
qed

definition metadata_ok :: "ExceptionRow \<Rightarrow> bool" where
  "metadata_ok row \<longleftrightarrow>
     (if er_status row = ''RESOLVED'' then er_resolvedBy row \<noteq> None \<and> er_resolvedAt row \<noteq> None
      else er_resolution row = None \<and> er_resolvedBy row = None \<and> er_resolvedAt row = None)"

definition row_ok :: "WorkflowDb \<Rightarrow> ident \<Rightarrow> ExceptionRow \<Rightarrow> bool" where
  "row_ok db i row \<longleftrightarrow> metadata_ok row \<and>
     (\<exists>ss. path ss \<and> er_status row = state_name (last ss) \<and> history i db = map logged (edges ss))"

definition admin_actor :: "string \<Rightarrow> bool" where
  "admin_actor a \<longleftrightarrow> (\<exists>n. a = n @ '' (ADMIN)'')"

definition closing :: "string \<Rightarrow> bool" where
  "closing s \<longleftrightarrow> s = status_json ''RESOLVED'' \<or> s = status_json ''REJECTED''"

definition plan_ok :: "TransitionPlan \<Rightarrow> bool" where
  "plan_ok p \<longleftrightarrow> canTransition (tp_from p) (tp_to p) \<and> (tp_to p \<in> set approvalTargets \<longrightarrow> admin_actor (tp_actor p))"

definition db_ok :: "WorkflowDb \<Rightarrow> bool" where
  "db_ok db \<longleftrightarrow> (\<forall>i row. w_exceptions db i = Some row \<longrightarrow> row_ok db i row) \<and>
     (\<forall>r \<in> set (w_auditLog db). closing (al_afterState r) \<longrightarrow> admin_actor (al_actor r))"

section \<open>Every step keeps them\<close>

lemma accept_admin:
  assumes "accept_status i (Some session) body = Inr inp" "js_trim (ti_toState inp) \<in> set approvalTargets"
  shows "admin_actor (ti_actor inp)" "ti_actor inp \<noteq> ''''"
  using assms by (auto simp: accept_status_def admin_actor_def split: option.splits if_splits)

lemma plan_transition_ok:
  assumes "accept_status i (Some session) body = Inr inp" "plan_transition inp db = Inr (Inr p)"
  shows "plan_ok p"
proof -
  have "js_trim (ti_toState inp) \<in> set approvalTargets \<Longrightarrow> admin_actor (ti_actor inp) \<and> ti_actor inp \<noteq> ''''"
    using accept_admin [OF assms(1)] by blast
  with assms(2) show ?thesis
    by (auto simp: plan_transition_def plan_ok_def assertValidTransition_def Let_def split: option.splits if_splits sum.splits)
qed

lemma commit_cases:
  assumes "commit_transition env p db = (r, db1)"
  obtains (unchanged) tbl where "db1 = db\<lparr>w_chain := tbl\<rparr>"
  | (moved) row tbl fb where "w_exceptions db (ti_exceptionId (tp_input p)) = Some row" "er_status row = tp_from p"
      "db1 = db\<lparr>w_exceptions := (w_exceptions db)(ti_exceptionId (tp_input p) \<mapsto> moved_row env p row),
               w_auditLog := w_auditLog db @ [transition_log p], w_chain := tbl, w_feedback := fb\<rparr>"
proof -
  let ?i = "ti_exceptionId (tp_input p)"
  show thesis
  proof (cases "w_exceptions db ?i")
    case None
    with assms have "db1 = db\<lparr>w_chain := w_chain db\<rparr>" by (simp add: commit_transition_def)
    then show thesis by (rule unchanged)
  next
    case (Some row)
    show thesis
    proof (cases "er_status row = tp_from p")
      case False
      with Some assms have "db1 = db\<lparr>w_chain := w_chain db\<rparr>" by (simp add: commit_transition_def)
      then show thesis by (rule unchanged)
    next
      case True
      let ?a = "appendAuditEvent (we_sha env) (we_others env) (human_action env p) (w_chain db)"
      show thesis
      proof (cases "js_toUpperCase (tp_actor p) \<noteq> ''AI'' \<and> fst ?a = None")
        case c: True
        with Some True assms have "db1 = db\<lparr>w_chain := snd ?a\<rparr>"
          by (cases ?a) (auto simp: commit_transition_def Let_def)
        then show thesis by (rule unchanged)
      next
        case c: False
        let ?tbl = "if js_toUpperCase (tp_actor p) \<noteq> ''AI'' then snd ?a else w_chain db"
        have "db1 = db\<lparr>w_exceptions := (w_exceptions db)(?i \<mapsto> moved_row env p row),
               w_auditLog := w_auditLog db @ [transition_log p], w_chain := ?tbl,
               w_feedback := w_feedback db @ closing_feedback p\<rparr>"
          using Some True assms c by (cases ?a) (auto simp: commit_transition_def Let_def)
        with Some True show thesis by (rule moved)
      qed
    qed
  qed
qed

lemma moved_metadata:
  assumes "plan_ok p" "metadata_ok row" "er_status row = tp_from p"
  shows "metadata_ok (moved_row env p row)"
proof -
  from assms(1) obtain s t where st: "tp_from p = state_name s" "tp_to p = state_name t" and e: "t \<in> set (WORKFLOW_TRANSITIONS s)"
    by (auto simp: plan_ok_def canTransition_iff)
  have "tp_from p = ''RESOLVED'' \<Longrightarrow> tp_to p = ''REOPENED''"
    using st e by (cases s) simp_all
  moreover have "''REOPENED'' \<noteq> ''RESOLVED''" by simp
  ultimately show ?thesis using assms(2,3) by (auto simp: metadata_ok_def moved_row_def Let_def)
qed

lemma moved_row_ok:
  assumes p: "plan_ok p" and ok: "row_ok db i row" and s: "er_status row = tp_from p" and i: "i = ti_exceptionId (tp_input p)"
    and log: "w_auditLog db1 = w_auditLog db @ [transition_log p]"
  shows "row_ok db1 i (moved_row env p row)"
proof -
  from ok obtain ss where ss: "path ss" "er_status row = state_name (last ss)" "history i db = map logged (edges ss)"
    by (auto simp: row_ok_def)
  from p obtain t where t: "tp_to p = state_name t" "t \<in> set (WORKFLOW_TRANSITIONS (last ss))"
    using ss(2) s by (auto simp: plan_ok_def canTransition_iff)
  have "path (ss @ [t])" using ss(1) t(2) by (simp add: path_snoc edge_def)
  moreover have "er_status (moved_row env p row) = state_name (last (ss @ [t]))"
    using t(1) by (simp add: moved_row_def Let_def)
  moreover have "history i db1 = map logged (edges (ss @ [t]))"
    using ss t(1) s log i by (auto simp: history_def transition_log_def logged_def path_def edges_snoc)
  moreover have "metadata_ok (moved_row env p row)" using p ok s by (simp add: row_ok_def moved_metadata)
  ultimately show ?thesis unfolding row_ok_def by blast
qed

lemma other_row_ok:
  assumes "row_ok db i row" "i \<noteq> ti_exceptionId (tp_input p)" "w_auditLog db1 = w_auditLog db @ [transition_log p]"
  shows "row_ok db1 i row"
proof -
  have "history i db1 = history i db" using assms(2,3) by (simp add: history_def transition_log_def)
  with assms(1) show ?thesis by (simp add: row_ok_def)
qed

lemma same_log_row_ok: "row_ok db i row \<Longrightarrow> w_auditLog db1 = w_auditLog db \<Longrightarrow> row_ok db1 i row"
  by (simp add: row_ok_def history_def)

lemma transition_log_closing:
  assumes "plan_ok p" "closing (al_afterState (transition_log p))"
  shows "admin_actor (al_actor (transition_log p))"
proof -
  from assms(1) obtain t where t: "tp_to p = state_name t" by (auto simp: plan_ok_def canTransition_iff)
  have "status_json (state_name t) = status_json (state_name RESOLVED) \<or> status_json (state_name t) = status_json (state_name REJECTED)"
    using assms(2) t by (simp add: closing_def transition_log_def)
  then have "tp_to p \<in> set approvalTargets" using t by (auto simp only: status_json_inject) (simp_all add: approvalTargets_def)
  with assms(1) show ?thesis by (simp add: plan_ok_def transition_log_def)
qed

lemma commit_db_ok:
  assumes "plan_ok p" "db_ok db" "commit_transition env p db = (r, db1)"
  shows "db_ok db1"
  using assms(3)
proof (cases rule: commit_cases)
  case (unchanged tbl)
  have "row_ok db1 i row" if "w_exceptions db1 i = Some row" for i row
  proof -
    have "row_ok db i row" using that unchanged assms(2) by (simp add: db_ok_def)
    then show ?thesis by (rule same_log_row_ok) (simp add: unchanged)
  qed
  with assms(2) unchanged show ?thesis by (simp add: db_ok_def)
next
  case (moved row tbl fb)
  let ?i = "ti_exceptionId (tp_input p)"
  have log: "w_auditLog db1 = w_auditLog db @ [transition_log p]" using moved(3) by simp
  have "row_ok db1 j row'" if j: "w_exceptions db1 j = Some row'" for j row'
  proof (cases "j = ?i")
    case True
    with j moved(3) have "row' = moved_row env p row" by simp
    have "row_ok db ?i row" using assms(2) moved(1) by (simp add: db_ok_def)
    with assms(1) moved(2) log have "row_ok db1 ?i (moved_row env p row)" by (intro moved_row_ok [where db = db]) simp_all
    with True \<open>row' = moved_row env p row\<close> show ?thesis by simp
  next
    case False
    with j moved(3) have "w_exceptions db j = Some row'" by simp
    with assms(2) have "row_ok db j row'" by (simp add: db_ok_def)
    with False log show ?thesis by (blast intro: other_row_ok)
  qed
  moreover have "closing (al_afterState r') \<longrightarrow> admin_actor (al_actor r')" if "r' \<in> set (w_auditLog db1)" for r'
    using that log assms(1,2) transition_log_closing by (auto simp: db_ok_def)
  ultimately show ?thesis unfolding db_ok_def by blast
qed

lemma fresh_db_ok: "fresh_exceptions db \<Longrightarrow> db_ok db"
proof -
  assume f: "fresh_exceptions db"
  have "row_ok db i row" if "w_exceptions db i = Some row" for i row
  proof -
    have "row \<in> ran (w_exceptions db)" using that by (rule ranI)
    with f have s: "er_status row = state_name (last [OPEN])" "metadata_ok row"
      by (auto simp: fresh_exceptions_def metadata_ok_def)
    have "path [OPEN]" by (simp add: path_def)
    moreover have "history i db = map logged (edges [OPEN])" using f by (simp add: fresh_exceptions_def history_def edges_def)
    ultimately show ?thesis using s unfolding row_ok_def by blast
  qed
  with f show ?thesis by (simp add: db_ok_def fresh_exceptions_def)
qed

lemma workflow_invariant:
  assumes "workflow_reachable db0 s" "fresh_exceptions db0"
  shows "db_ok (ws_db s) \<and> (\<forall>p \<in> set (ws_pending s). plan_ok p)"
  using assms(1)
proof (induction rule: workflow_reachable.induct)
  case start
  then show ?case using fresh_db_ok [OF assms(2)] by simp
next
  case (step s t)
  from step.hyps(2) show ?case
  proof (cases rule: workflow_step.cases)
    case (request i session body inp p)
    with step.IH plan_transition_ok show ?thesis by auto
  next
    case (commit p env r db)
    with step.IH have "db_ok db" using commit_db_ok by blast
    moreover have "\<forall>q \<in> set (ws_pending t). plan_ok q"
      using step.IH commit(1) notin_set_remove1 by (metis WorkflowSystem.select_convs(2) WorkflowSystem.surjective WorkflowSystem.update_convs(1,2))
    ultimately show ?thesis using commit(1) by simp
  qed
qed

section \<open>Driving the workflow through the endpoint\<close>

text \<open>With no other writer on the chain, an append takes effect at its first attempt.\<close>

lemma append_alone: "\<exists>e tbl'. appendAuditEvent sha (\<lambda>_ tbl. tbl) inp tbl = (Some e, tbl')"
proof -
  let ?e = "next_event sha inp tbl"
  have bid: "ae_batchId ?e = in_batchId inp" by (simp add: next_event_def Let_def)
  have "(ae_batchId ?e, ae_seq ?e) \<noteq> (ae_batchId f, ae_seq f)" if "f \<in> set tbl" for f
  proof
    assume eq: "(ae_batchId ?e, ae_seq ?e) = (ae_batchId f, ae_seq f)"
    with that bid have f: "f \<in> set (batch_events (in_batchId inp) tbl)" by (simp add: batch_events_def)
    then obtain l where l: "last_event (batch_events (in_batchId inp) tbl) = Some l"
      by (metis last_event_spec(1) length_pos_if_in_set list.size(3) not_None_eq not_less_zero)
    with f have "ae_seq f \<le> ae_seq l" using last_event_spec(2) by blast
    moreover have "ae_seq ?e = ae_seq l + 1" using l by (simp add: next_event_def Let_def)
    ultimately show False using eq by simp
  qed
  then have "insert_event ?e tbl = Some (tbl @ [?e])" by (auto simp: insert_event_def)
  then show ?thesis by (simp add: appendAuditEvent_def MAX_RETRIES_def eval_nat_numeral Let_def)
qed

definition move :: "WorkflowState \<Rightarrow> StatusBody" where
  "move t = \<lparr>sb_status = Some (state_name t), sb_reason = None, sb_resolution = None\<rparr>"

text \<open>One user posting one status after the other; the answers are collected.\<close>

fun post_all :: "WorkflowEnv \<Rightarrow> ident \<Rightarrow> Session \<Rightarrow> WorkflowState list \<Rightarrow> WorkflowDb \<Rightarrow> nat list \<times> WorkflowDb" where
  "post_all env i session [] db = ([], db)"
| "post_all env i session (t # ts) db =
     (let (r, db1) = post_status env id i (Some session) (move t) db;
          (cs, db2) = post_all env i session ts db1
      in (code r # cs, db2))"

lemma state_name_trim [simp]: "js_trim (state_name t) = state_name t" "state_name t \<noteq> ''''"
  by (cases t; simp add: js_trim_def js_whitespace_def)+

definition session_actor :: "Session \<Rightarrow> string" where
  "session_actor s = s_name s @ '' ('' @ s_role s @ '')''"

lemma session_actor_human: "session_actor s \<noteq> ''''" "js_toUpperCase (session_actor s) \<noteq> ''AI''"
proof -
  have "last (js_toUpperCase (session_actor s)) = CHR '')''"
    by (simp add: session_actor_def js_toUpperCase_def js_upper_def last_map)
  then show "js_toUpperCase (session_actor s) \<noteq> ''AI''" by auto
qed (simp add: session_actor_def)

definition permitted :: "Session \<Rightarrow> WorkflowState \<Rightarrow> bool" where
  "permitted session t \<longleftrightarrow> (t \<in> {RESOLVED, REJECTED} \<longrightarrow> s_role session = ''ADMIN'')"

lemma accept_move:
  assumes "permitted session t"
  shows "accept_status i (Some session) (move t) =
    Inr \<lparr>ti_exceptionId = i, ti_toState = state_name t, ti_actor = session_actor session, ti_reason = None, ti_resolution = None\<rparr>"
proof -
  have "state_name t \<in> set approvalTargets \<Longrightarrow> t \<in> {RESOLVED, REJECTED}"
    by (cases t) (simp_all add: approvalTargets_def)
  with assms show ?thesis by (auto simp: accept_status_def move_def permitted_def session_actor_def)
qed

lemma post_moves:
  assumes row: "w_exceptions db i = Some row" "er_status row = state_name a"
    and e: "edge a t" and s: "permitted session t" and env: "we_others env = (\<lambda>_ tbl. tbl)"
  obtains r db1 row1 where "post_status env id i (Some session) (move t) db = (Reply 200 (Some r), db1)"
    "w_exceptions db1 i = Some row1" "er_status row1 = state_name t" "history i db1 = history i db @ [logged (a, t)]"
proof -
  let ?inp = "\<lparr>ti_exceptionId = i, ti_toState = state_name t, ti_actor = session_actor session, ti_reason = None, ti_resolution = None\<rparr>"
  let ?p = "\<lparr>tp_input = ?inp, tp_actor = session_actor session, tp_from = state_name a, tp_to = state_name t,
             tp_batchId = er_batchId row, tp_confidence = er_confidenceScore row\<rparr>"
  have "a \<noteq> t" using e by (cases a) (auto simp: edge_def)
  moreover have "canTransition (state_name a) (state_name t)" using e by (auto simp: canTransition_iff edge_def)
  moreover have "isWorkflowState (state_name t)" by (auto simp: isWorkflowState_iff)
  ultimately have plan: "plan_transition ?inp db = Inr (Inr ?p)"
    using row session_actor_human by (simp add: plan_transition_def assertValidTransition_def Let_def)
  obtain ev tbl where app: "appendAuditEvent (we_sha env) (we_others env) (human_action env ?p) (w_chain db) = (Some ev, tbl)"
    using append_alone env by metis
  let ?db1 = "db\<lparr>w_exceptions := (w_exceptions db)(i \<mapsto> moved_row env ?p row), w_auditLog := w_auditLog db @ [transition_log ?p],
                w_chain := tbl, w_feedback := w_feedback db @ closing_feedback ?p\<rparr>"
  let ?r = "\<lparr>tr_idempotent = False, tr_fromState = state_name a, tr_toState = state_name t, tr_exception = Some (moved_row env ?p row)\<rparr>"
  have "commit_transition env ?p db = (Inr ?r, ?db1)"
    using row app session_actor_human by (simp add: commit_transition_def Let_def)
  then have "post_status env id i (Some session) (move t) db = (Reply 200 (Some ?r), ?db1)"
    by (simp add: post_status_def accept_move [OF s] transitionException_def plan)
  moreover have "w_exceptions ?db1 i = Some (moved_row env ?p row)" by simp
  moreover have "er_status (moved_row env ?p row) = state_name t" by (simp add: moved_row_def Let_def)
  moreover have "history i ?db1 = history i db @ [logged (a, t)]" by (simp add: history_def transition_log_def logged_def)
  ultimately show thesis by (rule that)
qed

lemma post_all_path:
  assumes "w_exceptions db i = Some row" "er_status row = state_name a" "successively edge (a # ts)"
    "\<forall>t \<in> set ts. permitted session t" "we_others env = (\<lambda>_ tbl. tbl)"
  shows "\<exists>db1 row1. post_all env i session ts db = (replicate (length ts) 200, db1) \<and> w_exceptions db1 i = Some row1
      \<and> er_status row1 = state_name (last (a # ts)) \<and> history i db1 = history i db @ map logged (edges (a # ts))"
  using assms(1-4)
proof (induction ts arbitrary: a db row)
  case Nil
  then show ?case by (simp add: edges_def)
next
  case (Cons t ts)
  have "edge a t" "permitted session t" using Cons.prems by auto
  then obtain r db1 row1 where 1: "post_status env id i (Some session) (move t) db = (Reply 200 (Some r), db1)"
      "w_exceptions db1 i = Some row1" "er_status row1 = state_name t" "history i db1 = history i db @ [logged (a, t)]"
    using post_moves [OF Cons.prems(1,2) _ _ assms(5)] by blast
  have "successively edge (t # ts)" "\<forall>t \<in> set ts. permitted session t" using Cons.prems by auto
  from Cons.IH [OF 1(2,3) this] obtain db2 row2 where
    2: "post_all env i session ts db1 = (replicate (length ts) 200, db2)" "w_exceptions db2 i = Some row2"
       "er_status row2 = state_name (last (t # ts))" "history i db2 = history i db1 @ map logged (edges (t # ts))" by blast
  have "edges (a # t # ts) = (a, t) # edges (t # ts)" by (simp add: edges_def)
  with 1 2 show ?case by simp
qed

lemma post_reachable:
  assumes "workflow_reachable db0 s" "post_status env id i (Some session) body (ws_db s) = (Reply 200 (Some r), db1)"
  shows "workflow_reachable db0 (s\<lparr>ws_db := db1\<rparr>)"
proof -
  from assms(2) obtain inp where inp: "accept_status i (Some session) body = Inr inp"
      "transitionException env id inp (ws_db s) = (Inr r, db1)"
    by (auto simp: post_status_def split: sum.splits prod.splits)
  show ?thesis
  proof (cases "plan_transition inp (ws_db s)")
    case (Inl e)
    with inp(2) show ?thesis by (simp add: transitionException_def)
  next
    case plan: (Inr rp)
    show ?thesis
    proof (cases rp)
      case (Inl r')
      with plan inp(2) have "db1 = ws_db s" by (simp add: transitionException_def)
      with assms(1) show ?thesis by simp
    next
      case (Inr p)
      let ?s1 = "s\<lparr>ws_pending := p # ws_pending s\<rparr>"
      have "workflow_reachable db0 ?s1" using assms(1) inp(1) plan Inr
        by (auto intro: workflow_reachable.step workflow_step.request)
      moreover have "commit_transition env p (ws_db ?s1) = (Inr r, db1)"
        using plan Inr inp(2) by (simp add: transitionException_def)
      then have "workflow_step ?s1 (?s1\<lparr>ws_db := db1, ws_pending := remove1 p (ws_pending ?s1)\<rparr>)"
        by (intro workflow_step.commit) simp_all
      ultimately show ?thesis by (auto dest: workflow_reachable.step)
    qed
  qed
qed

lemma post_all_reachable:
  assumes "workflow_reachable db0 \<lparr>ws_db = db, ws_pending = []\<rparr>" "w_exceptions db i = Some row" "er_status row = state_name a"
    "successively edge (a # ts)" "\<forall>t \<in> set ts. permitted session t" "we_others env = (\<lambda>_ tbl. tbl)"
  shows "workflow_reachable db0 \<lparr>ws_db = snd (post_all env i session ts db), ws_pending = []\<rparr>"
  using assms(1-5)
proof (induction ts arbitrary: a db row)
  case (Cons t ts)
  have "edge a t" "permitted session t" using Cons.prems by auto
  then obtain r db1 row1 where 1: "post_status env id i (Some session) (move t) db = (Reply 200 (Some r), db1)"
      "w_exceptions db1 i = Some row1" "er_status row1 = state_name t"
    using post_moves [OF Cons.prems(2,3) _ _ assms(6)] by metis
  have "workflow_reachable db0 \<lparr>ws_db = db1, ws_pending = []\<rparr>"
    using post_reachable [OF Cons.prems(1), of env i session "move t" r db1] 1(1) by simp
  moreover have "successively edge (t # ts)" "\<forall>t \<in> set ts. permitted session t" using Cons.prems by auto
  ultimately show ?case using Cons.IH [OF _ 1(2,3)] 1(1) by (simp add: split_beta)
qed simp

section \<open>Properties\<close>

text \<open>
  C18. In every state any interleaving of requests reaches, a stored status is a workflow state, the
  log of the exception is the list of edges of a path of the state machine from OPEN to that status,
  and the resolution fields are set exactly while the exception is resolved.
\<close>

theorem workflow_rows_typed:
  assumes "workflow_reachable db0 s" "fresh_exceptions db0" "w_exceptions (ws_db s) i = Some row"
  shows "isWorkflowState (er_status row) \<and> metadata_ok row \<and>
         (\<exists>ss. path ss \<and> er_status row = state_name (last ss) \<and> history i (ws_db s) = map logged (edges ss))"
proof -
  have "row_ok (ws_db s) i row" using workflow_invariant [OF assms(1,2)] assms(3) by (simp add: db_ok_def)
  then show ?thesis unfolding row_ok_def isWorkflowState_iff by blast
qed

lemma path_to_RESOLVED:
  assumes "path ss" "last ss = RESOLVED"
  obtains us where "ss = us @ [RE_CALCULATING, RE_VERIFICATION, FINALIZABLE, RESOLVED]"
proof -
  from assms obtain us where 0: "ss = us @ [RESOLVED]" by (metis append_butlast_last_id path_def)
  from assms(1) have "path (us @ [RESOLVED])" by (simp add: 0)
  then obtain us1 s1 where 1: "us = us1 @ [s1]" "path (us1 @ [s1])" "edge s1 RESOLVED"
    using path_into [of us RESOLVED] by blast
  then have s1: "s1 = FINALIZABLE" by (simp add: edge_def into_RESOLVED)
  from 1(2) obtain us2 s2 where 2: "us1 = us2 @ [s2]" "path (us2 @ [s2])" "edge s2 s1"
    using path_into [of us1 s1] s1 by blast
  then have s2: "s2 = RE_VERIFICATION" by (simp add: s1 edge_def into_FINALIZABLE)
  from 2(2) obtain us3 s3 where 3: "us2 = us3 @ [s3]" "edge s3 s2"
    using path_into [of us2 s2] s2 by blast
  then have "s3 = RE_CALCULATING" by (simp add: s2 edge_def into_RE_VERIFICATION)
  with 0 1(1) 2(1) 3(1) s1 s2 have "ss = us3 @ [RE_CALCULATING, RE_VERIFICATION, FINALIZABLE, RESOLVED]" by simp
  then show thesis by (rule that)
qed

text \<open>
  C19. No interleaving reaches RESOLVED by a shortcut: the last three audit rows of a resolved
  exception are its recalculation's move to re-verification, its being found finalizable, and its
  resolution, in this order with nothing between.
\<close>

theorem resolved_was_reverified:
  assumes "workflow_reachable db0 s" "fresh_exceptions db0" "w_exceptions (ws_db s) i = Some row" "er_status row = ''RESOLVED''"
  shows "\<exists>earlier. history i (ws_db s) = earlier @
           map logged [(RE_CALCULATING, RE_VERIFICATION), (RE_VERIFICATION, FINALIZABLE), (FINALIZABLE, RESOLVED)]"
proof -
  have "row_ok (ws_db s) i row" using workflow_invariant [OF assms(1,2)] assms(3) by (simp add: db_ok_def)
  then obtain ss where ss: "path ss" "er_status row = state_name (last ss)" "history i (ws_db s) = map logged (edges ss)"
    by (auto simp: row_ok_def)
  have "state_name (last ss) = state_name RESOLVED" using ss(2) assms(4) by simp
  then have "last ss = RESOLVED" by (simp only: state_name_inject)
  with ss(1) obtain us where us: "ss = us @ [RE_CALCULATING, RE_VERIFICATION, FINALIZABLE, RESOLVED]" by (rule path_to_RESOLVED)
  have "edges ss = edges (us @ [RE_CALCULATING]) @ [(RE_CALCULATING, RE_VERIFICATION), (RE_VERIFICATION, FINALIZABLE), (FINALIZABLE, RESOLVED)]"
    using edges_snoc [of "us @ [RE_CALCULATING]"] edges_snoc [of "us @ [RE_CALCULATING, RE_VERIFICATION]"]
      edges_snoc [of "us @ [RE_CALCULATING, RE_VERIFICATION, FINALIZABLE]"] us by simp
  with ss(3) show ?thesis by auto
qed

text \<open>
  Whoever else takes part, only an administrator's request resolves or rejects an exception:
  every audit row of such a move names an actor the endpoint derived from an ADMIN session.
\<close>

theorem closing_needs_admin:
  assumes "workflow_reachable db0 s" "fresh_exceptions db0" "r \<in> set (w_auditLog (ws_db s))"
    "al_afterState r \<in> {status_json ''RESOLVED'', status_json ''REJECTED''}"
  shows "admin_actor (al_actor r)"
  using workflow_invariant [OF assms(1,2)] assms(3,4) by (auto simp: db_ok_def closing_def)

text \<open>
  Every path of the state machine can be driven through the endpoint by a single user, each post
  answered with 200 and logged, when the user is an administrator or the path neither resolves nor
  rejects.
\<close>

theorem workflow_paths_open:
  assumes "w_exceptions db i = Some row" "er_status row = state_name a" "successively edge (a # ts)"
    "RESOLVED \<in> set ts \<or> REJECTED \<in> set ts \<longrightarrow> s_role session = ''ADMIN''" "we_others env = (\<lambda>_ tbl. tbl)"
  shows "\<exists>db1 row1. post_all env i session ts db = (replicate (length ts) 200, db1) \<and> w_exceptions db1 i = Some row1
      \<and> er_status row1 = state_name (last (a # ts)) \<and> history i db1 = history i db @ map logged (edges (a # ts))"
proof -
  have "\<forall>t \<in> set ts. permitted session t" using assms(4) by (auto simp: permitted_def)
  from post_all_path [OF assms(1-3) this assms(5)] show ?thesis .
qed

text \<open>
  Neither approval gate binds: a user of any role brings an open exception to APPROVED alone, and
  an administrator resolves one alone along a path with no PENDING_APPROVAL and no APPROVED on it, by
  posting six statuses.
\<close>

theorem approval_not_enforced:
  assumes "w_exceptions db i = Some row" "er_status row = ''OPEN''" "we_others env = (\<lambda>_ tbl. tbl)"
  shows "(\<exists>db1 row1. post_all env i session [INVESTIGATING, PENDING_APPROVAL, APPROVED] db = ([200, 200, 200], db1)
            \<and> w_exceptions db1 i = Some row1 \<and> er_status row1 = ''APPROVED'')
       \<and> (s_role session = ''ADMIN'' \<longrightarrow>
          (\<exists>db1 row1. post_all env i session [INVESTIGATING, CORRECTING, RE_CALCULATING, RE_VERIFICATION, FINALIZABLE, RESOLVED] db
               = ([200, 200, 200, 200, 200, 200], db1) \<and> w_exceptions db1 i = Some row1 \<and> er_status row1 = ''RESOLVED''))"
proof -
  have s: "er_status row = state_name OPEN" using assms(2) by simp
  have A: "\<exists>db1 row1. post_all env i session [INVESTIGATING, PENDING_APPROVAL, APPROVED] db = ([200, 200, 200], db1)
            \<and> w_exceptions db1 i = Some row1 \<and> er_status row1 = ''APPROVED''"
    using post_all_path [OF assms(1) s, of "[INVESTIGATING, PENDING_APPROVAL, APPROVED]" session env] assms(3)
    by (auto simp: edge_def permitted_def eval_nat_numeral simp del: post_all.simps)
  have B: "\<exists>db1 row1. post_all env i session [INVESTIGATING, CORRECTING, RE_CALCULATING, RE_VERIFICATION, FINALIZABLE, RESOLVED] db
               = ([200, 200, 200, 200, 200, 200], db1) \<and> w_exceptions db1 i = Some row1 \<and> er_status row1 = ''RESOLVED''"
    if "s_role session = ''ADMIN''"
    using post_all_path [OF assms(1) s, of "[INVESTIGATING, CORRECTING, RE_CALCULATING, RE_VERIFICATION, FINALIZABLE, RESOLVED]" session env]
      assms(3) that by (auto simp: edge_def permitted_def eval_nat_numeral simp del: post_all.simps)
  from A B show ?thesis by blast
qed

section \<open>A case, from opening to resolution\<close>

definition sample_exception :: ExceptionRow where
  "sample_exception = \<lparr>er_batchId = ''batch_1'', er_confidenceScore = 62, er_status = ''OPEN'', er_resolution = None,
     er_resolvedBy = None, er_resolvedAt = None\<rparr>"

definition sample_workflow :: WorkflowDb where
  "sample_workflow = \<lparr>w_exceptions = [''exc_1'' \<mapsto> sample_exception], w_auditLog = [], w_chain = [], w_feedback = []\<rparr>"

definition sample_env :: WorkflowEnv where
  "sample_env = \<lparr>we_sha = (\<lambda>s. s), we_others = (\<lambda>_ tbl. tbl), we_now = 1700000000000, we_occurredAt = ''2026-03-01T00:00:00.000Z''\<rparr>"

definition admin_session :: Session where
  "admin_session = \<lparr>s_name = ''Asha'', s_role = ''ADMIN''\<rparr>"

definition closing_path :: "WorkflowState list" where
  "closing_path = [INVESTIGATING, PENDING_APPROVAL, APPROVED, RE_CALCULATING, RE_VERIFICATION, FINALIZABLE, RESOLVED]"

definition closed_case :: WorkflowDb where
  "closed_case = snd (post_all sample_env ''exc_1'' admin_session closing_path sample_workflow)"

lemma sample_fresh: "fresh_exceptions sample_workflow"
  by (simp add: fresh_exceptions_def sample_workflow_def sample_exception_def)

lemma sample_path:
  "successively edge (OPEN # closing_path)" "\<forall>t \<in> set closing_path. permitted admin_session t"
  "w_exceptions sample_workflow ''exc_1'' = Some sample_exception" "er_status sample_exception = state_name OPEN"
  "we_others sample_env = (\<lambda>_ tbl. tbl)"
  by (simp_all add: closing_path_def edge_def permitted_def admin_session_def sample_workflow_def sample_exception_def sample_env_def)

lemma closed_reachable: "workflow_reachable sample_workflow \<lparr>ws_db = closed_case, ws_pending = []\<rparr>"
  unfolding closed_case_def by (rule post_all_reachable [OF start sample_path(3,4,1,2,5)])

lemma closed_row: "\<exists>row. w_exceptions closed_case ''exc_1'' = Some row \<and> er_status row = ''RESOLVED''
    \<and> (\<exists>r \<in> set (w_auditLog closed_case). al_afterState r = status_json ''RESOLVED'')"
proof -
  from post_all_path [OF sample_path(3,4,1,2,5)] obtain db1 row where
    1: "post_all sample_env ''exc_1'' admin_session closing_path sample_workflow = (replicate (length closing_path) 200, db1)"
      "w_exceptions db1 ''exc_1'' = Some row" "er_status row = state_name (last (OPEN # closing_path))"
      "history ''exc_1'' db1 = history ''exc_1'' sample_workflow @ map logged (edges (OPEN # closing_path))" by blast
  then have db1: "closed_case = db1" by (simp add: closed_case_def)
  have "logged (FINALIZABLE, RESOLVED) \<in> set (history ''exc_1'' db1)" using 1(4) by (simp add: closing_path_def edges_def)
  then have "\<exists>r \<in> set (w_auditLog db1). al_afterState r = status_json ''RESOLVED''"
    by (auto simp: history_def logged_def)
  with 1(2,3) db1 show ?thesis by (simp add: closing_path_def)
qed

theorem workflow_rows_typed_witness:
  "\<exists>row. w_exceptions closed_case ''exc_1'' = Some row \<and> isWorkflowState (er_status row) \<and> metadata_ok row"
proof -
  obtain row where "w_exceptions closed_case ''exc_1'' = Some row" using closed_row by blast
  with workflow_rows_typed [OF closed_reachable sample_fresh, of "''exc_1''" row] show ?thesis by simp
qed

theorem resolved_was_reverified_witness:
  "\<exists>earlier. history ''exc_1'' closed_case = earlier @
     map logged [(RE_CALCULATING, RE_VERIFICATION), (RE_VERIFICATION, FINALIZABLE), (FINALIZABLE, RESOLVED)]"
proof -
  obtain row where "w_exceptions closed_case ''exc_1'' = Some row" "er_status row = ''RESOLVED''" using closed_row by blast
  with resolved_was_reverified [OF closed_reachable sample_fresh, of "''exc_1''" row] show ?thesis by simp
qed

theorem closing_needs_admin_witness:
  "\<exists>r \<in> set (w_auditLog closed_case). al_afterState r = status_json ''RESOLVED'' \<and> admin_actor (al_actor r)"
proof -
  obtain r where r: "r \<in> set (w_auditLog closed_case)" "al_afterState r = status_json ''RESOLVED''" using closed_row by blast
  with closing_needs_admin [OF closed_reachable sample_fresh, of r] show ?thesis by auto
qed

theorem workflow_paths_open_witness:
  "\<exists>db1 row1. post_all sample_env ''exc_1'' admin_session closing_path sample_workflow = (replicate 7 200, db1)
     \<and> w_exceptions db1 ''exc_1'' = Some row1 \<and> er_status row1 = ''RESOLVED''"
proof -
  have "RESOLVED \<in> set closing_path \<or> REJECTED \<in> set closing_path \<longrightarrow> s_role admin_session = ''ADMIN''"
    by (simp add: admin_session_def)
  from workflow_paths_open [OF sample_path(3,4,1) this sample_path(5)] show ?thesis
    by (auto simp: closing_path_def eval_nat_numeral simp del: post_all.simps)
qed

theorem approval_not_enforced_witness:
  "\<exists>db1 row1. post_all sample_env ''exc_1'' \<lparr>s_name = ''Ravi'', s_role = ''REVIEWER''\<rparr> [INVESTIGATING, PENDING_APPROVAL, APPROVED]
       sample_workflow = ([200, 200, 200], db1) \<and> w_exceptions db1 ''exc_1'' = Some row1 \<and> er_status row1 = ''APPROVED''"
proof -
  have "er_status sample_exception = ''OPEN''" by (simp add: sample_exception_def)
  from approval_not_enforced [OF sample_path(3) this sample_path(5), of "\<lparr>s_name = ''Ravi'', s_role = ''REVIEWER''\<rparr>"]
  show ?thesis by (rule conjunct1)
qed

end
