(* ===== verification/Correction_Manager.thy ===== *)
theory Correction_Manager
  imports Exception_Workflow
begin

text \<open>
  Correction proposals of an exception (\<open>src/lib/exceptions/correction.ts\<close>): a maker proposes, a
  checker reviews, the amounts are recomputed and verified, and the result is finalised to the
  ledger. The manager's two maps are the state; a proposal object is shared by reference, so an
  operation that changes it changes the stored one. The random part of a correction id, the time and
  SHA-256 are arguments.
\<close>

record FinancialImpactPreview =
  im_gross :: paise
  im_fee :: paise
  im_tax :: paise
  im_refund :: paise
  im_chargeback :: paise
  im_expectedNet :: paise
  im_actualSettled :: paise
  im_variance :: paise
  im_amountAtRisk :: paise

record InvariantVerificationResult =
  iv_passed :: bool
  iv_status :: string
  iv_completeness :: bool
  iv_moneyConservation :: bool
  iv_debitCreditBalance :: bool
  iv_cardinalityConsistency :: bool
  iv_partitionConsistency :: bool
  iv_ledgerConsistency :: bool
  iv_failureReasons :: "string list"

datatype ProposalStatus = DRAFT | PENDING_CHECKER | PROPOSAL_APPROVED | PROPOSAL_REJECTED | SUPERSEDED

datatype CorrectionAction = ATTACH_REFUND | ADJUST_FEE | FORCE_MATCH | WRITE_OFF | DISMISS

record RecalculationResult =
  rc_newDecision :: string
  rc_confidenceScore :: int
  rc_riskLevel :: string
  rc_invariantResult :: InvariantVerificationResult

record CorrectionProposal =
  cp_correctionId :: ident
  cp_exceptionId :: ident
  cp_batchId :: "ident option"
  cp_makerId :: string
  cp_checkerId :: "string option"
  cp_createdAt :: millis
  cp_reviewedAt :: "millis option"
  cp_status :: ProposalStatus
  cp_actionType :: CorrectionAction
  cp_reason :: string
  cp_evidenceIds :: "ident list"
  cp_policyVersion :: string
  cp_engineVersion :: string
  cp_adjustment :: paise
  cp_refundId :: "ident option"
  cp_chargebackId :: "ident option"
  cp_settlementId :: "ident option"
  cp_impact :: FinancialImpactPreview
  cp_attemptsCount :: nat
  cp_recalculation :: "RecalculationResult option"

record ProposeParams =
  pp_exceptionId :: ident
  pp_batchId :: "ident option"
  pp_makerId :: string
  pp_actionType :: CorrectionAction
  pp_reason :: string
  pp_evidenceIds :: "ident list"
  pp_adjustment :: paise
  pp_refundId :: "ident option"
  pp_chargebackId :: "ident option"
  pp_settlementId :: "ident option"
  pp_gross :: paise
  pp_fee :: paise
  pp_tax :: paise
  pp_refund :: "paise option"
  pp_chargeback :: "paise option"
  pp_actualSettled :: paise
  pp_policyVersion :: "string option"

record CorrectionManager =
  cm_proposals :: "ident \<rightharpoonup> CorrectionProposal"
  cm_exceptionProposals :: "ident \<rightharpoonup> ident list"

datatype CorrectionError =
    ProposalNotFound
  | NotPendingChecker ProposalStatus
  | SeparationOfDuties
  | NotFinalizable string
  | ReverificationFailed

definition empty_manager :: CorrectionManager where
  "empty_manager = \<lparr>cm_proposals = Map.empty, cm_exceptionProposals = Map.empty\<rparr>"

section \<open>Proposing\<close>

definition impact_of :: "ProposeParams \<Rightarrow> FinancialImpactPreview" where
  "impact_of q =
     (let refund = or_zero 0 (pp_refund q); chargeback = or_zero 0 (pp_chargeback q);
          expectedNet = pp_gross q - pp_fee q - pp_tax q - refund - chargeback;
          variance = \<bar>expectedNet - pp_actualSettled q\<bar>
      in \<lparr>im_gross = pp_gross q, im_fee = pp_fee q, im_tax = pp_tax q, im_refund = refund, im_chargeback = chargeback,
          im_expectedNet = expectedNet, im_actualSettled = pp_actualSettled q, im_variance = variance,
          im_amountAtRisk = (if variance > 100 then variance else 0)\<rparr>)"

definition proposeCorrection :: "string \<Rightarrow> millis \<Rightarrow> ProposeParams \<Rightarrow> CorrectionManager \<Rightarrow> CorrectionProposal \<times> CorrectionManager" where
  "proposeCorrection random at q m =
     (let i = ''corr_'' @ random;
          proposal = \<lparr>cp_correctionId = i, cp_exceptionId = pp_exceptionId q, cp_batchId = pp_batchId q,
            cp_makerId = pp_makerId q, cp_checkerId = None, cp_createdAt = at, cp_reviewedAt = None, cp_status = PENDING_CHECKER,
            cp_actionType = pp_actionType q, cp_reason = pp_reason q, cp_evidenceIds = pp_evidenceIds q,
            cp_policyVersion = (if truthy_str (pp_policyVersion q) then the (pp_policyVersion q) else ''1.0.0''),
            cp_engineVersion = ''v1.0.0-hyperscale'', cp_adjustment = pp_adjustment q, cp_refundId = pp_refundId q,
            cp_chargebackId = pp_chargebackId q, cp_settlementId = pp_settlementId q, cp_impact = impact_of q,
            cp_attemptsCount = 1, cp_recalculation = None\<rparr>
      in (proposal, \<lparr>cm_proposals = (cm_proposals m)(i \<mapsto> proposal),
                     cm_exceptionProposals = push_at (cm_exceptionProposals m) (pp_exceptionId q) i\<rparr>))"

section \<open>Reviewing\<close>

definition reviewCorrection :: "millis \<Rightarrow> ident \<Rightarrow> string \<Rightarrow> bool \<Rightarrow> CorrectionManager
     \<Rightarrow> (CorrectionError + CorrectionProposal) \<times> CorrectionManager" where
  "reviewCorrection at i checker approve m =
     (case cm_proposals m i of
        None \<Rightarrow> (Inl ProposalNotFound, m)
      | Some p \<Rightarrow>
          if cp_status p \<noteq> PENDING_CHECKER then (Inl (NotPendingChecker (cp_status p)), m)
          else if cp_makerId p = checker then (Inl SeparationOfDuties, m)
          else let p1 = p\<lparr>cp_checkerId := Some checker, cp_reviewedAt := Some at,
                          cp_status := (if approve then PROPOSAL_APPROVED else PROPOSAL_REJECTED)\<rparr>
               in (Inr p1, m\<lparr>cm_proposals := (cm_proposals m)(i \<mapsto> p1)\<rparr>))"

section \<open>Recalculation and verification\<close>

definition verify_invariants :: "CorrectionProposal \<Rightarrow> InvariantVerificationResult" where
  "verify_invariants p =
     (let impact = cp_impact p;
          completeness = (length (cp_evidenceIds p) > 0 \<and> length (js_trim (cp_reason p)) > 0);
          effectiveNet = im_gross impact - im_fee impact - im_tax impact - im_refund impact - im_chargeback impact;
          moneyConservation = (\<bar>effectiveNet - im_actualSettled impact\<bar> \<le> 100);
          debitCreditBalance = (im_gross impact > 0 \<and> im_actualSettled impact \<ge> 0);
          failureReasons =
            (if \<not> completeness then [''Incomplete evidence or rationale attached to proposal''] else [])
            @ (if \<not> moneyConservation
               then [''Money conservation breach: Calculated net ('' @ js_show_int effectiveNet @ '') != settled (''
                     @ js_show_int (im_actualSettled impact) @ '')''] else [])
            @ (if \<not> debitCreditBalance then [''Debit/credit arithmetic balance violation''] else []);
          allPassed = (completeness \<and> moneyConservation \<and> debitCreditBalance)
      in \<lparr>iv_passed = allPassed, iv_status = (if allPassed then ''PASSED'' else ''CONTROL_FAILURE''),
          iv_completeness = completeness, iv_moneyConservation = moneyConservation, iv_debitCreditBalance = debitCreditBalance,
          iv_cardinalityConsistency = True, iv_partitionConsistency = True, iv_ledgerConsistency = True,
          iv_failureReasons = failureReasons\<rparr>)"

definition recalculation_of :: "InvariantVerificationResult \<Rightarrow> RecalculationResult" where
  "recalculation_of v =
     \<lparr>rc_newDecision = (if iv_passed v then ''MATCHED_WITH_CORRECTION'' else ''EXCEPTION''),
      rc_confidenceScore = (if iv_passed v then 98 else 30), rc_riskLevel = (if iv_passed v then ''LOW'' else ''HIGH''),
      rc_invariantResult = v\<rparr>"

definition recalculateAndVerify :: "ident \<Rightarrow> CorrectionManager
     \<Rightarrow> (CorrectionError + CorrectionProposal \<times> WorkflowState \<times> InvariantVerificationResult) \<times> CorrectionManager" where
  "recalculateAndVerify i m =
     (case cm_proposals m i of
        None \<Rightarrow> (Inl ProposalNotFound, m)
      | Some p \<Rightarrow>
          (let v = verify_invariants p;
               p1 = p\<lparr>cp_recalculation := Some (recalculation_of v)\<rparr>;
               p2 = (if iv_passed v then p1 else p1\<lparr>cp_attemptsCount := cp_attemptsCount p1 + 1\<rparr>);
               nextState = (if iv_passed v then FINALIZABLE else if cp_attemptsCount p2 > 3 then UNRESOLVABLE else CORRECTING)
           in (Inr (p2, nextState, v), m\<lparr>cm_proposals := (cm_proposals m)(i \<mapsto> p2)\<rparr>)))"

section \<open>Finalising\<close>

record FinalizeResult =
  fz_ledgerEntryId :: ident
  fz_idempotencyKey :: string
  fz_finalState :: WorkflowState

definition finalizeToLedger :: "(string \<Rightarrow> string) \<Rightarrow> ident \<Rightarrow> ident \<Rightarrow> string \<Rightarrow> CorrectionManager
     \<Rightarrow> CorrectionError + FinalizeResult" where
  "finalizeToLedger sha256Hex exceptionId i currentState m =
     (case cm_proposals m i of
        None \<Rightarrow> Inl ProposalNotFound
      | Some p \<Rightarrow>
          if currentState \<noteq> ''FINALIZABLE'' then Inl (NotFinalizable currentState)
          else if (case cp_recalculation p of None \<Rightarrow> True | Some r \<Rightarrow> iv_status (rc_invariantResult r) \<noteq> ''PASSED'')
          then Inl ReverificationFailed
          else let key = ''fin_idempotent_'' @ exceptionId
               in Inr \<lparr>fz_ledgerEntryId = ''ldg_corr_'' @ take 16 (sha256Hex key), fz_idempotencyKey = key, fz_finalState = RESOLVED\<rparr>)"

definition getProposal :: "ident \<Rightarrow> CorrectionManager \<Rightarrow> CorrectionProposal option" where
  "getProposal i m = cm_proposals m i"

definition getProposalsForException :: "ident \<Rightarrow> CorrectionManager \<Rightarrow> CorrectionProposal list" where
  "getProposalsForException e m = List.map_filter (cm_proposals m) (get_list (cm_exceptionProposals m) e)"

section \<open>The endpoint\<close>

text \<open>
  The actions of \<open>src/app/api/exceptions/[id]/correction/route.ts\<close>: the state handed to the ledger is
  the one the request body names, and FINALIZABLE when it names none.
\<close>

definition session_or :: "string \<Rightarrow> Session option \<Rightarrow> string" where
  "session_or fallback session = (case session of
       None \<Rightarrow> fallback
     | Some s \<Rightarrow> if s_name s = '''' then fallback else s_name s @ '' ('' @ s_role s @ '')'')"

definition post_review :: "millis \<Rightarrow> Session option \<Rightarrow> ident \<Rightarrow> string \<Rightarrow> CorrectionManager
     \<Rightarrow> nat \<times> CorrectionManager" where
  "post_review at session i reviewAction m =
     (if i = '''' \<or> reviewAction = '''' then (400, m)
      else (case reviewCorrection at i (session_or ''CHECKER_SUPERVISOR'' session) (reviewAction = ''APPROVE'') m of
          (Inl e, m1) \<Rightarrow> (400, m1)
        | (Inr p, m1) \<Rightarrow> (200, m1)))"

definition post_recalculate :: "ident \<Rightarrow> CorrectionManager \<Rightarrow> nat \<times> CorrectionManager" where
  "post_recalculate i m =
     (if i = '''' then (400, m)
      else (case recalculateAndVerify i m of (Inl e, m1) \<Rightarrow> (400, m1) | (Inr r, m1) \<Rightarrow> (200, m1)))"

definition post_finalize :: "(string \<Rightarrow> string) \<Rightarrow> ident \<Rightarrow> ident \<Rightarrow> string option \<Rightarrow> CorrectionManager
     \<Rightarrow> nat \<times> FinalizeResult option" where
  "post_finalize sha256Hex exceptionId i currentState m =
     (if i = '''' then (400, None)
      else (case finalizeToLedger sha256Hex exceptionId i (if truthy_str currentState then the currentState else ''FINALIZABLE'') m of
          Inl e \<Rightarrow> (400, None)
        | Inr r \<Rightarrow> (200, Some r)))"

section \<open>Reachable managers\<close>

inductive manager_reachable :: "CorrectionManager \<Rightarrow> bool" where
  empty: "manager_reachable empty_manager"
| propose: "manager_reachable m \<Longrightarrow> manager_reachable (snd (proposeCorrection random at q m))"
| review: "manager_reachable m \<Longrightarrow> manager_reachable (snd (reviewCorrection at i checker approve m))"
| recalculate: "manager_reachable m \<Longrightarrow> manager_reachable (snd (recalculateAndVerify i m))"

text \<open>
  A proposal awaits its checker or was decided by someone other than its maker; what a recalculation
  recorded is what the invariants say; and the attempts grow only while they fail.
\<close>

definition proposal_ok :: "CorrectionProposal \<Rightarrow> bool" where
  "proposal_ok p \<longleftrightarrow>
     (case cp_checkerId p of None \<Rightarrow> cp_status p = PENDING_CHECKER
      | Some c \<Rightarrow> c \<noteq> cp_makerId p \<and> cp_status p \<in> {PROPOSAL_APPROVED, PROPOSAL_REJECTED})
     \<and> (case cp_recalculation p of None \<Rightarrow> cp_attemptsCount p = 1
        | Some r \<Rightarrow> r = recalculation_of (verify_invariants p)
            \<and> (if iv_passed (verify_invariants p) then cp_attemptsCount p = 1 else cp_attemptsCount p > 1))"

lemma verify_frame [simp]:
  "verify_invariants (p\<lparr>cp_recalculation := r\<rparr>) = verify_invariants p"
  "verify_invariants (p\<lparr>cp_attemptsCount := n\<rparr>) = verify_invariants p"
  "verify_invariants (p\<lparr>cp_checkerId := c, cp_reviewedAt := a, cp_status := s\<rparr>) = verify_invariants p"
  by (simp_all add: verify_invariants_def)

lemma verify_status: "iv_status (verify_invariants p) = ''PASSED'' \<longleftrightarrow> iv_passed (verify_invariants p)"
  by (simp add: verify_invariants_def Let_def)

text \<open>What a recalculation leaves, with \<open>after_recalculation\<close> the proposal it stores.\<close>

definition after_recalculation :: "CorrectionProposal \<Rightarrow> CorrectionProposal" where
  "after_recalculation p =
     (let p1 = p\<lparr>cp_recalculation := Some (recalculation_of (verify_invariants p))\<rparr>
      in if iv_passed (verify_invariants p) then p1 else p1\<lparr>cp_attemptsCount := cp_attemptsCount p + 1\<rparr>)"

lemma recalculate_Some:
  assumes "cm_proposals m i = Some p"
  shows "recalculateAndVerify i m =
    (Inr (after_recalculation p,
          if iv_passed (verify_invariants p) then FINALIZABLE
          else if cp_attemptsCount p \<ge> 3 then UNRESOLVABLE else CORRECTING, verify_invariants p),
     m\<lparr>cm_proposals := (cm_proposals m)(i \<mapsto> after_recalculation p)\<rparr>)"
  using assms by (auto simp: recalculateAndVerify_def after_recalculation_def Let_def)

lemma verify_after [simp]: "verify_invariants (after_recalculation p) = verify_invariants p"
  by (simp add: after_recalculation_def Let_def)

lemma ran_update: "x \<in> ran (f(i \<mapsto> v)) \<Longrightarrow> x = v \<or> x \<in> ran f"
  by (auto simp: ran_def split: if_splits)

lemma manager_invariant: "manager_reachable m \<Longrightarrow> \<forall>p \<in> ran (cm_proposals m). proposal_ok p"
proof (induction rule: manager_reachable.induct)
  case empty
  then show ?case by (simp add: empty_manager_def)
next
  case (propose m random at q)
  have "proposal_ok (fst (proposeCorrection random at q m))" by (simp add: proposeCorrection_def Let_def proposal_ok_def)
  moreover have "cm_proposals (snd (proposeCorrection random at q m))
      = (cm_proposals m)(''corr_'' @ random \<mapsto> fst (proposeCorrection random at q m))"
    by (simp add: proposeCorrection_def Let_def)
  ultimately show ?case using propose.IH by (metis ran_update)
next
  case (review m at i checker approve)
  show ?case
  proof (cases "cm_proposals m i")
    case None
    with review show ?thesis by (simp add: reviewCorrection_def)
  next
    case (Some p)
    then have p: "proposal_ok p" using review.IH by (auto intro: ranI)
    show ?thesis
    proof (cases "cp_status p = PENDING_CHECKER \<and> cp_makerId p \<noteq> checker")
      case True
      let ?p1 = "p\<lparr>cp_checkerId := Some checker, cp_reviewedAt := Some at,
                   cp_status := (if approve then PROPOSAL_APPROVED else PROPOSAL_REJECTED)\<rparr>"
      have "proposal_ok ?p1" using p True by (auto simp: proposal_ok_def split: option.splits)
      moreover have "cm_proposals (snd (reviewCorrection at i checker approve m)) = (cm_proposals m)(i \<mapsto> ?p1)"
        using True Some by (simp add: reviewCorrection_def Let_def)
      ultimately show ?thesis using review.IH by (metis ran_update)
    next
      case False
      with Some have "snd (reviewCorrection at i checker approve m) = m" by (auto simp: reviewCorrection_def)
      with review.IH show ?thesis by simp
    qed
  qed
next
  case (recalculate m i)
  show ?case
  proof (cases "cm_proposals m i")
    case None
    with recalculate show ?thesis by (simp add: recalculateAndVerify_def)
  next
    case (Some p)
    then have "proposal_ok p" using recalculate.IH by (auto intro: ranI)
    then have "proposal_ok (after_recalculation p)"
      by (auto simp: proposal_ok_def after_recalculation_def Let_def split: option.splits if_splits)
    moreover have "cm_proposals (snd (recalculateAndVerify i m)) = (cm_proposals m)(i \<mapsto> after_recalculation p)"
      by (simp add: recalculate_Some [OF Some])
    ultimately show ?thesis using recalculate.IH by (metis ran_update)
  qed
qed

section \<open>Properties\<close>

text \<open>
  Separation of duties in review: whatever was proposed, reviewed and recalculated, every decided
  proposal has a checker who is not its maker, a decision stands (a second review is refused and
  changes nothing), and a maker's review of an undecided proposal of theirs is refused.
\<close>

theorem reviews_separate_duties:
  assumes "manager_reachable m" "cm_proposals m i = Some p"
  shows "(if cp_status p = PENDING_CHECKER
          then reviewCorrection at i (cp_makerId p) approve m = (Inl SeparationOfDuties, m)
          else (\<exists>c. cp_checkerId p = Some c \<and> c \<noteq> cp_makerId p)
               \<and> reviewCorrection at i checker approve m = (Inl (NotPendingChecker (cp_status p)), m))"
proof -
  have "proposal_ok p" using manager_invariant [OF assms(1)] assms(2) by (auto intro: ranI)
  with assms(2) show ?thesis by (auto simp: reviewCorrection_def proposal_ok_def split: option.splits)
qed

text \<open>
  C39. Review is not required: a proposal whose own numbers agree, in whatever status its review left
  it, undecided and rejected included, is recalculated and then finalised as RESOLVED by a request
  that names no state, and for any exception, not only the one it was proposed for.
\<close>

theorem unreviewed_correction_finalizes:
  assumes "cm_proposals m i = Some p" "i \<noteq> ''''" "iv_passed (verify_invariants p)"
  shows "\<exists>m1 r. post_recalculate i m = (200, m1) \<and> map_option cp_status (cm_proposals m1 i) = Some (cp_status p)
           \<and> post_finalize sha256Hex anyException i None m1 = (200, Some r) \<and> fz_finalState r = RESOLVED"
proof -
  let ?m1 = "m\<lparr>cm_proposals := (cm_proposals m)(i \<mapsto> after_recalculation p)\<rparr>"
  have "post_recalculate i m = (200, ?m1)"
    using assms(2) by (simp add: post_recalculate_def recalculate_Some [OF assms(1)])
  moreover have "cp_status (after_recalculation p) = cp_status p" by (simp add: after_recalculation_def Let_def)
  moreover have "\<exists>r. post_finalize sha256Hex anyException i None ?m1 = (200, Some r) \<and> fz_finalState r = RESOLVED"
    using assms(2,3) verify_status
    by (simp add: post_finalize_def finalizeToLedger_def truthy_str_def after_recalculation_def recalculation_of_def Let_def)
  ultimately show ?thesis by auto
qed

text \<open>The same correction recalculated \<open>n\<close> times: the states it answers.\<close>

fun recalculations :: "ident \<Rightarrow> nat \<Rightarrow> CorrectionManager \<Rightarrow> WorkflowState list \<times> CorrectionManager" where
  "recalculations i 0 m = ([], m)"
| "recalculations i (Suc n) m =
     (case recalculateAndVerify i m of
        (Inl e, m1) \<Rightarrow> ([], m1)
      | (Inr (p, s, v), m1) \<Rightarrow> (let (ss, m2) = recalculations i n m1 in (s # ss, m2)))"

lemma recalculations_from:
  assumes "cm_proposals m i = Some p"
  shows "fst (recalculations i n m) =
           (if iv_passed (verify_invariants p) then replicate n FINALIZABLE
            else map (\<lambda>k. if cp_attemptsCount p + k \<ge> 3 then UNRESOLVABLE else CORRECTING) [0..<n])"
  using assms
proof (induction n arbitrary: m p)
  case (Suc n)
  let ?m1 = "m\<lparr>cm_proposals := (cm_proposals m)(i \<mapsto> after_recalculation p)\<rparr>"
  have "cm_proposals ?m1 i = Some (after_recalculation p)" by simp
  note IH = Suc.IH [OF this]
  have up: "map f [0..<Suc n] = f 0 # map (\<lambda>k. f (Suc k)) [0..<n]" for f :: "nat \<Rightarrow> WorkflowState"
    by (simp add: map_upt_Suc del: upt_Suc)
  have "cp_attemptsCount (after_recalculation p) = cp_attemptsCount p + (if iv_passed (verify_invariants p) then 0 else 1)"
    by (simp add: after_recalculation_def Let_def)
  with IH show ?case unfolding up
    by (simp add: recalculate_Some [OF Suc.prems] split_beta Let_def)
qed simp

text \<open>
  The retry bound: recalculating a fresh proposal again and again says FINALIZABLE every time when
  its numbers agree, and otherwise CORRECTING at the first two attempts and UNRESOLVABLE from the
  third on.
\<close>

theorem recalculation_attempts:
  assumes "cm_proposals m i = Some (fst (proposeCorrection random at q m0))"
  shows "fst (recalculations i n m) =
           (if iv_passed (verify_invariants (fst (proposeCorrection random at q m0))) then replicate n FINALIZABLE
            else take n [CORRECTING, CORRECTING] @ replicate (n - 2) UNRESOLVABLE)"
proof -
  let ?p = "fst (proposeCorrection random at q m0)"
  have "cp_attemptsCount ?p = 1" by (simp add: proposeCorrection_def Let_def)
  moreover have "map (\<lambda>k. if 1 + k \<ge> (3 :: nat) then UNRESOLVABLE else CORRECTING) [0..<n]
      = take n [CORRECTING, CORRECTING] @ replicate (n - 2) UNRESOLVABLE"
    by (rule nth_equalityI) (auto simp: nth_append nth_Cons' min_def)
  ultimately show ?thesis using recalculations_from [OF assms, of n] by simp
qed

section \<open>A proposal\<close>

definition sample_proposal :: ProposeParams where
  "sample_proposal = \<lparr>pp_exceptionId = ''exc_1'', pp_batchId = None, pp_makerId = ''Ravi (REVIEWER)'', pp_actionType = WRITE_OFF,
     pp_reason = ''fee'', pp_evidenceIds = [''ev_1''], pp_adjustment = 152800, pp_refundId = None, pp_chargebackId = None,
     pp_settlementId = None, pp_gross = 2000000, pp_fee = 40000, pp_tax = 7200, pp_refund = Some 152800, pp_chargeback = None,
     pp_actualSettled = 1800000, pp_policyVersion = None\<rparr>"

definition proposed :: CorrectionManager where
  "proposed = snd (proposeCorrection ''a1'' 0 sample_proposal empty_manager)"

definition rejected_proposal :: CorrectionManager where
  "rejected_proposal = snd (reviewCorrection 1 ''corr_a1'' ''Asha (ADMIN)'' False proposed)"

lemma proposed_lookup: "cm_proposals proposed ''corr_a1'' = Some (fst (proposeCorrection ''a1'' 0 sample_proposal empty_manager))"
  by (simp add: proposed_def proposeCorrection_def Let_def)

lemma rejected_lookup: "cm_proposals rejected_proposal ''corr_a1'' =
   Some ((fst (proposeCorrection ''a1'' 0 sample_proposal empty_manager))
     \<lparr>cp_checkerId := Some ''Asha (ADMIN)'', cp_reviewedAt := Some 1, cp_status := PROPOSAL_REJECTED\<rparr>)"
  by (simp add: rejected_proposal_def reviewCorrection_def proposed_lookup)
     (simp add: proposeCorrection_def Let_def sample_proposal_def)

lemma sample_passes: "iv_passed (verify_invariants (fst (proposeCorrection ''a1'' 0 sample_proposal empty_manager)))"
  by (simp add: verify_invariants_def proposeCorrection_def sample_proposal_def impact_of_def or_zero_def Let_def
      js_trim_def js_whitespace_def)

theorem reviews_separate_duties_witness:
  "reviewCorrection 2 ''corr_a1'' ''Asha (ADMIN)'' True rejected_proposal = (Inl (NotPendingChecker PROPOSAL_REJECTED), rejected_proposal)"
proof -
  have "manager_reachable rejected_proposal"
    unfolding rejected_proposal_def proposed_def by (intro manager_reachable.intros)
  from reviews_separate_duties [OF this rejected_lookup, of 2 True "''Asha (ADMIN)''"] show ?thesis by simp
qed

theorem unreviewed_correction_finalizes_witness:
  "\<exists>m1 r. post_recalculate ''corr_a1'' rejected_proposal = (200, m1)
     \<and> post_finalize id ''exc_2'' ''corr_a1'' None m1 = (200, Some r) \<and> fz_finalState r = RESOLVED"
proof -
  have "''corr_a1'' \<noteq> ''''" by simp
  from unreviewed_correction_finalizes [OF rejected_lookup this, of id "''exc_2''"] sample_passes show ?thesis by auto
qed

theorem recalculation_attempts_witness:
  "fst (recalculations ''corr_a1'' 4 proposed) = [FINALIZABLE, FINALIZABLE, FINALIZABLE, FINALIZABLE]"
  using recalculation_attempts [OF proposed_lookup, of 4] sample_passes by (simp add: eval_nat_numeral)

end
