(* ===== verification/Smt_Prover.thy ===== *)
theory Smt_Prover
  imports Prelude
begin

text \<open>
  The invariant proof service (\<open>src/lib/ai/z3-prover.ts\<close>): it evaluates the financial invariants on
  integers and emits the SMT-LIB script an external solver can repeat the check with. The script is
  kept as its assertions and printed by \<open>generateSmtLibScript\<close> line by line; \<open>satisfiable\<close> gives
  the assertions their meaning, so that the correspondence the source promises between the two can be
  stated. Amounts are integers and the safe-integer test is written out; the sums of safe integers are
  computed exactly, where the source rounds them beyond that range. The proof id, the signature and
  the timing, which hash or read the clock, and the echo of the inputs are left out of the result.
\<close>

section \<open>Terms of the script\<close>

datatype smt_var =
    V_gross | V_fee | V_tax | V_refund | V_chargeback | V_settled | V_variance | V_debits | V_credits
  | V_creditTotal | V_allocated

fun var_name :: "smt_var \<Rightarrow> string" where
  "var_name V_gross = ''gross''"
| "var_name V_fee = ''fee''"
| "var_name V_tax = ''tax''"
| "var_name V_refund = ''refund''"
| "var_name V_chargeback = ''chargeback''"
| "var_name V_settled = ''settled''"
| "var_name V_variance = ''variance''"
| "var_name V_debits = ''debits''"
| "var_name V_credits = ''credits''"
| "var_name V_creditTotal = ''creditTotal''"
| "var_name V_allocated = ''allocated''"

definition all_vars :: "smt_var list" where
  "all_vars = [V_gross, V_fee, V_tax, V_refund, V_chargeback, V_settled, V_variance, V_debits, V_credits, V_creditTotal, V_allocated]"

text \<open>One assertion of the script; the tolerance form binds two names, as the text does.\<close>

datatype smt_assert =
    Assign smt_var int
  | NonNegative
  | DoubleEntry
  | CreditBound
  | ExactConservation
  | TolerantConservation int

fun holds :: "(smt_var \<Rightarrow> int) \<Rightarrow> smt_assert \<Rightarrow> bool" where
  "holds \<nu> (Assign x n) = (\<nu> x = n)"
| "holds \<nu> NonNegative = (\<nu> V_gross \<ge> 0 \<and> \<nu> V_fee \<ge> 0 \<and> \<nu> V_tax \<ge> 0 \<and> \<nu> V_refund \<ge> 0 \<and> \<nu> V_chargeback \<ge> 0 \<and> \<nu> V_settled \<ge> 0)"
| "holds \<nu> DoubleEntry = (\<nu> V_debits = \<nu> V_credits)"
| "holds \<nu> CreditBound = (\<nu> V_allocated \<le> \<nu> V_creditTotal)"
| "holds \<nu> ExactConservation =
     (\<nu> V_gross - \<nu> V_fee - \<nu> V_tax - \<nu> V_refund - \<nu> V_chargeback = \<nu> V_settled + \<nu> V_variance)"
| "holds \<nu> (TolerantConservation t) =
     (let computedNet = \<nu> V_gross - \<nu> V_fee - \<nu> V_tax - \<nu> V_refund - \<nu> V_chargeback;
          delta = computedNet - (\<nu> V_settled + \<nu> V_variance)
      in delta \<le> t \<and> delta \<ge> 0 - t)"

definition satisfiable :: "smt_assert list \<Rightarrow> bool" where
  "satisfiable as \<longleftrightarrow> (\<exists>\<nu>. \<forall>a \<in> set as. holds \<nu> a)"

section \<open>The inputs\<close>

record SmtVariableAssignment =
  sa_gross :: paise
  sa_fee :: paise
  sa_tax :: paise
  sa_refund :: paise
  sa_chargeback :: paise
  sa_settled :: paise
  sa_variance :: paise
  sa_debits :: "paise option"
  sa_credits :: "paise option"
  sa_creditTotal :: "paise option"
  sa_allocated :: "paise option"

record Z3ProofParams =
  zp_theoremName :: "string option"
  zp_contextId :: string
  zp_assignments :: SmtVariableAssignment
  zp_tolerance :: "paise option"

definition isSafeInteger :: "int \<Rightarrow> bool" where
  "isSafeInteger n = (\<bar>n\<bar> \<le> 9007199254740991)"

definition smtInt :: "int \<Rightarrow> string" where
  "smtInt n = (if n < 0 then ''(- '' @ js_show_int (- n) @ '')'' else js_show_int n)"

definition or_else :: "'a option \<Rightarrow> 'a \<Rightarrow> 'a" where
  "or_else x y = (case x of None \<Rightarrow> y | Some v \<Rightarrow> v)"

definition assignment_fields :: "SmtVariableAssignment \<Rightarrow> (string \<times> int option) list" where
  "assignment_fields a =
     [(''grossPaise'', Some (sa_gross a)), (''feePaise'', Some (sa_fee a)), (''taxPaise'', Some (sa_tax a)),
      (''refundPaise'', Some (sa_refund a)), (''chargebackPaise'', Some (sa_chargeback a)), (''settledPaise'', Some (sa_settled a)),
      (''variancePaise'', Some (sa_variance a)), (''debitsPaise'', sa_debits a), (''creditsPaise'', sa_credits a),
      (''creditTotalPaise'', sa_creditTotal a), (''allocatedPaise'', sa_allocated a)]"

definition invalidSmtInputs :: "Z3ProofParams \<Rightarrow> string list" where
  "invalidSmtInputs q =
     (let tol = or_else (zp_tolerance q) 0
      in map fst (filter (\<lambda>(f, v). case v of None \<Rightarrow> False | Some n \<Rightarrow> \<not> isSafeInteger n) (assignment_fields (zp_assignments q)))
         @ (if \<not> isSafeInteger tol \<or> tol < 0 then [''tolerancePaise''] else []))"

section \<open>The script\<close>

definition assigned :: "SmtVariableAssignment \<Rightarrow> smt_var \<Rightarrow> int" where
  "assigned a x = (case x of
       V_gross \<Rightarrow> sa_gross a | V_fee \<Rightarrow> sa_fee a | V_tax \<Rightarrow> sa_tax a | V_refund \<Rightarrow> sa_refund a
     | V_chargeback \<Rightarrow> sa_chargeback a | V_settled \<Rightarrow> sa_settled a | V_variance \<Rightarrow> sa_variance a
     | V_debits \<Rightarrow> or_else (sa_debits a) (sa_gross a) | V_credits \<Rightarrow> or_else (sa_credits a) (sa_gross a)
     | V_creditTotal \<Rightarrow> or_else (sa_creditTotal a) (sa_settled a) | V_allocated \<Rightarrow> or_else (sa_allocated a) (sa_settled a))"

definition model_assertions :: "Z3ProofParams \<Rightarrow> smt_assert list" where
  "model_assertions q = map (\<lambda>x. Assign x (assigned (zp_assignments q) x)) all_vars"

definition conservation_assertion :: "Z3ProofParams \<Rightarrow> smt_assert" where
  "conservation_assertion q =
     (let tol = or_else (zp_tolerance q) 0 in if tol > 0 then TolerantConservation tol else ExactConservation)"

definition script_assertions :: "Z3ProofParams \<Rightarrow> smt_assert list" where
  "script_assertions q = model_assertions q @ [NonNegative, DoubleEntry, CreditBound, conservation_assertion q]"

fun assert_lines :: "smt_assert \<Rightarrow> string list" where
  "assert_lines (Assign x n) = [''(assert (= '' @ var_name x @ '' '' @ smtInt n @ ''))'']"
| "assert_lines NonNegative =
     [''(assert (and (>= gross 0) (>= fee 0) (>= tax 0) (>= refund 0) (>= chargeback 0) (>= settled 0)))'']"
| "assert_lines DoubleEntry = [''(assert (= debits credits))'']"
| "assert_lines CreditBound = [''(assert (<= allocated creditTotal))'']"
| "assert_lines ExactConservation =
     [''(assert (= (- (- (- (- gross fee) tax) refund) chargeback) (+ settled variance)))'']"
| "assert_lines (TolerantConservation t) =
     [''(assert (let ((computedNet (- (- (- (- gross fee) tax) refund) chargeback)))'',
      ''  (let ((delta (- computedNet (+ settled variance))))'',
      ''    (and (<= delta '' @ smtInt t @ '') (>= delta (- 0 '' @ smtInt t @ ''))))))'']"

text \<open>
  The first line of the script and the tolerance text hold an em dash and a plus-minus sign, which are
  not characters of the model: \<open>dash\<close> and \<open>plus_minus\<close> stand for them.
\<close>

record SmtGlyphs =
  dash :: string
  plus_minus :: string

definition generateSmtLibScript :: "SmtGlyphs \<Rightarrow> Z3ProofParams \<Rightarrow> string" where
  "generateSmtLibScript g q =
     (let theoremName = or_else (zp_theoremName q) ''THEOREM_FINANCIAL_CONSERVATION'';
          tol = or_else (zp_tolerance q) 0; invalid = invalidSmtInputs q;
          title = ''; SettleMate AI '' @ dash g @ '' SMT-LIB v2 Formal Invariant Proof'';
          nl = [CHR 0x0A]
      in if invalid \<noteq> []
         then js_join nl [title, ''; Theorem: '' @ theoremName,
                ''; Not generated: non-integer or unsafe inputs ('' @ js_join '', '' invalid @ '')'']
         else js_join nl
           ([title, ''; Theorem: '' @ theoremName, ''; Context ID: '' @ zp_contextId q,
             ''; Logic: QF_LIA (Quantifier-Free Linear Integer Arithmetic)'', ''(set-logic QF_LIA)'',
             ''(set-info :source '' @ [CHR 0x22] @ ''SettleMate AI Invariant Engine'' @ [CHR 0x22] @ '')'', '''',
             ''; 1. Variable Declarations (Integer Minor Units / Paise)'']
            @ map (\<lambda>x. ''(declare-const '' @ var_name x @ '' Int)'') all_vars
            @ ['''', ''; 2. Model Assignments from Execution State'']
            @ concat (map assert_lines (model_assertions q))
            @ ['''', ''; 3. Axiom 1: Non-Negative Invariant''] @ assert_lines NonNegative
            @ ['''', ''; 4. Axiom 2: Double-Entry Balance''] @ assert_lines DoubleEntry
            @ ['''', ''; 5. Axiom 3: Credit Single Consumption Bound''] @ assert_lines CreditBound
            @ ['''', ''; 6. Theorem: Exact Money Conservation ('' @
                 (if tol > 0 then ''Tolerance: '' @ plus_minus g @ js_show_int tol @ '' paise'' else ''Exact'') @ '')'']
            @ assert_lines (conservation_assertion q)
            @ ['''', ''(check-sat)'', ''(get-model)'']))"

section \<open>The evaluation\<close>

datatype ProofStatus = PROOF_VALID | COUNTEREXAMPLE_FOUND | SMT_ERROR

datatype ViolatedTheorem =
    CONSERVATION_EQUATION_MISMATCH | DOUBLE_ENTRY_IMBALANCE | CREDIT_OVER_ALLOCATION | NEGATIVE_DOMAIN_VIOLATION
  | NON_INTEGER_OR_UNSAFE_INPUT

record Counterexample =
  ce_violated :: ViolatedTheorem
  ce_fields :: string
  ce_calculatedNet :: int
  ce_targetExpected :: int
  ce_divergenceDelta :: int
  ce_toleranceAllowed :: int

record Z3ProofResult =
  zr_status :: ProofStatus
  zr_theoremName :: string
  zr_smtLibScript :: string
  zr_counterexample :: "Counterexample option"
  zr_conservationPassed :: bool
  zr_doubleEntryBalanced :: bool
  zr_creditBoundSatisfied :: bool

definition prove :: "SmtGlyphs \<Rightarrow> Z3ProofParams \<Rightarrow> Z3ProofResult" where
  "prove g q =
     (let script = generateSmtLibScript g q; invalid = invalidSmtInputs q;
          name = (if truthy_str (zp_theoremName q) then the (zp_theoremName q) else ''THEOREMS_FINANCIAL_CONSERVATION'')
      in if invalid \<noteq> []
         then \<lparr>zr_status = SMT_ERROR, zr_theoremName = name, zr_smtLibScript = script,
               zr_counterexample = Some \<lparr>ce_violated = NON_INTEGER_OR_UNSAFE_INPUT, ce_fields = js_join '','' invalid,
                  ce_calculatedNet = 0, ce_targetExpected = 0, ce_divergenceDelta = 0, ce_toleranceAllowed = 0\<rparr>,
               zr_conservationPassed = False, zr_doubleEntryBalanced = False, zr_creditBoundSatisfied = False\<rparr>
         else
           let a = zp_assignments q; tol = max 0 (or_else (zp_tolerance q) 0);
               nonNegativePassed = (sa_gross a \<ge> 0 \<and> sa_fee a \<ge> 0 \<and> sa_tax a \<ge> 0 \<and> sa_refund a \<ge> 0 \<and> sa_chargeback a \<ge> 0 \<and> sa_settled a \<ge> 0);
               debits = or_else (sa_debits a) (sa_gross a); credits = or_else (sa_credits a) (sa_gross a);
               doubleEntryBalanced = (debits = credits);
               creditTotal = or_else (sa_creditTotal a) (sa_settled a); allocated = or_else (sa_allocated a) (sa_settled a);
               creditBoundSatisfied = (allocated \<le> creditTotal);
               calculatedNet = sa_gross a - sa_fee a - sa_tax a - sa_refund a - sa_chargeback a;
               targetExpected = sa_settled a + sa_variance a;
               delta = \<bar>calculatedNet - targetExpected\<bar>;
               conservationPassed = (delta \<le> tol);
               allPassed = (nonNegativePassed \<and> doubleEntryBalanced \<and> creditBoundSatisfied \<and> conservationPassed)
           in \<lparr>zr_status = (if allPassed then PROOF_VALID else COUNTEREXAMPLE_FOUND), zr_theoremName = name, zr_smtLibScript = script,
               zr_counterexample = (if allPassed then None else Some
                  \<lparr>ce_violated = (if \<not> conservationPassed then CONSERVATION_EQUATION_MISMATCH
                                 else if \<not> doubleEntryBalanced then DOUBLE_ENTRY_IMBALANCE
                                 else if \<not> creditBoundSatisfied then CREDIT_OVER_ALLOCATION
                                 else NEGATIVE_DOMAIN_VIOLATION),
                   ce_fields = '''', ce_calculatedNet = calculatedNet, ce_targetExpected = targetExpected,
                   ce_divergenceDelta = delta, ce_toleranceAllowed = tol\<rparr>),
               zr_conservationPassed = conservationPassed, zr_doubleEntryBalanced = doubleEntryBalanced,
               zr_creditBoundSatisfied = creditBoundSatisfied\<rparr>)"

section \<open>The script and the evaluation agree\<close>

text \<open>The assignments fix every variable, so only one valuation can satisfy the script.\<close>

lemma all_vars_set [simp]: "set all_vars = UNIV"
proof -
  have "x \<in> set all_vars" for x by (cases x) (simp_all add: all_vars_def)
  then show ?thesis by blast
qed

lemma model_fixed: "(\<forall>a \<in> set (model_assertions q). holds \<nu> a) \<longleftrightarrow> \<nu> = assigned (zp_assignments q)"
  by (auto simp: model_assertions_def fun_eq_iff)

lemma satisfiable_script:
  "satisfiable (script_assertions q) \<longleftrightarrow>
     (\<forall>a \<in> {NonNegative, DoubleEntry, CreditBound, conservation_assertion q}. holds (assigned (zp_assignments q)) a)"
proof -
  have "(\<forall>a \<in> set (script_assertions q). holds \<nu> a) \<longleftrightarrow>
      \<nu> = assigned (zp_assignments q) \<and> (\<forall>a \<in> {NonNegative, DoubleEntry, CreditBound, conservation_assertion q}. holds \<nu> a)" for \<nu>
    unfolding model_fixed [symmetric] by (auto simp: script_assertions_def)
  then show ?thesis unfolding satisfiable_def by metis
qed

lemma valid_tolerance: "invalidSmtInputs q = [] \<Longrightarrow> 0 \<le> or_else (zp_tolerance q) 0"
  by (auto simp: invalidSmtInputs_def Let_def split: if_splits)

lemma conservation_holds:
  assumes "0 \<le> or_else (zp_tolerance q) 0"
  shows "holds \<nu> (conservation_assertion q) \<longleftrightarrow>
    \<bar>\<nu> V_gross - \<nu> V_fee - \<nu> V_tax - \<nu> V_refund - \<nu> V_chargeback - (\<nu> V_settled + \<nu> V_variance)\<bar> \<le> max 0 (or_else (zp_tolerance q) 0)"
  using assms by (auto simp: conservation_assertion_def Let_def)

text \<open>
  The correspondence the service promises: on inputs it accepts, the evaluation answers
  PROOF_VALID exactly when the assertions of the script it emits are satisfiable together, and
  otherwise gives a counterexample; inputs outside the safe integers are refused by both.
\<close>

theorem proof_valid_iff_script_satisfiable:
  "zr_status (prove g q) =
     (if invalidSmtInputs q \<noteq> [] then SMT_ERROR
      else if satisfiable (script_assertions q) then PROOF_VALID else COUNTEREXAMPLE_FOUND)
   \<and> (zr_counterexample (prove g q) = None \<longleftrightarrow> zr_status (prove g q) = PROOF_VALID)"
proof (cases "invalidSmtInputs q = []")
  case True
  have "zr_status (prove g q) = (if satisfiable (script_assertions q) then PROOF_VALID else COUNTEREXAMPLE_FOUND)"
    using True unfolding satisfiable_script
    by (simp add: prove_def Let_def conservation_holds [OF valid_tolerance [OF True]] assigned_def conj_ac)
  moreover have "zr_counterexample (prove g q) = None \<longleftrightarrow> zr_status (prove g q) = PROOF_VALID"
    using True by (simp add: prove_def Let_def)
  ultimately show ?thesis using True by simp
qed (simp add: prove_def Let_def)

end
