(* ===== verification/Corrections.thy ===== *)
theory Corrections
  imports Smt_Prover "HOL-Library.AList"
begin

text \<open>
  Minimal correcting journal entries: the schemas (\<open>src/lib/corrections/types.ts\<close>), the account
  policy (\<open>account-policy.ts\<close>), the calculator (\<open>calculator.ts\<close>), the restoration proof
  (\<open>prover.ts\<close>), its replay (\<open>replay.ts\<close>), the repository with its approvals
  (\<open>repository.ts\<close>), and the endpoint that proposes (\<open>src/app/api/corrections/route.ts\<close>).

  A value the source leaves undefined is \<open>None\<close>. The clock, the number format of the locale and
  SHA-256 come in through an environment. Approving and rejecting read the record before they wait
  for it and write it afterwards, so each is kept as its two halves.
\<close>

section \<open>Types\<close>

datatype CorrectionType =
    MISSING_DEBIT | MISSING_CREDIT | DUPLICATE_POSTING_REVERSAL | FEE_ADJUSTMENT | SETTLEMENT_VARIANCE | UNSUPPORTED_CORRECTION

fun correction_type_text :: "CorrectionType \<Rightarrow> string" where
  "correction_type_text MISSING_DEBIT = ''MISSING_DEBIT''"
| "correction_type_text MISSING_CREDIT = ''MISSING_CREDIT''"
| "correction_type_text DUPLICATE_POSTING_REVERSAL = ''DUPLICATE_POSTING_REVERSAL''"
| "correction_type_text FEE_ADJUSTMENT = ''FEE_ADJUSTMENT''"
| "correction_type_text SETTLEMENT_VARIANCE = ''SETTLEMENT_VARIANCE''"
| "correction_type_text UNSUPPORTED_CORRECTION = ''UNSUPPORTED_CORRECTION''"

datatype CorrectionStatus = PROPOSED | AWAITING_REVIEW | APPROVED | REJECTED | STALE | FAILED

datatype JournalEntryType = DEBIT | CREDIT

record JournalLine =
  jl_lineId :: string
  jl_accountId :: "string option"
  jl_accountName :: "string option"
  jl_entryType :: JournalEntryType
  jl_amountMinor :: int
  jl_currency :: string
  jl_description :: string

record CorrectionInput =
  ci_tenantId :: ident
  ci_transactionId :: ident
  ci_currency :: string
  ci_debitAccount :: "string option"
  ci_creditAccount :: "string option"
  ci_observedDebit :: int
  ci_observedCredit :: int
  ci_expectedDebit :: int
  ci_expectedCredit :: int
  ci_detectedDifference :: int
  ci_correctionType :: CorrectionType
  ci_evidenceIds :: "ident list"
  ci_policyVersion :: string
  ci_recordVersion :: int

definition line_valid :: "JournalLine \<Rightarrow> bool" where
  "line_valid l \<longleftrightarrow> length (jl_lineId l) \<ge> 1 \<and> truthy_str (jl_accountId l) \<and> truthy_str (jl_accountName l)
     \<and> isSafeInteger (jl_amountMinor l) \<and> jl_amountMinor l > 0 \<and> length (jl_currency l) = 3 \<and> length (jl_description l) \<ge> 1"

definition natural :: "int \<Rightarrow> bool" where
  "natural n \<longleftrightarrow> isSafeInteger n \<and> n \<ge> 0"

definition input_valid :: "CorrectionInput \<Rightarrow> bool" where
  "input_valid inp \<longleftrightarrow> length (ci_tenantId inp) \<ge> 1 \<and> length (ci_transactionId inp) \<ge> 1 \<and> length (ci_currency inp) = 3
     \<and> natural (ci_observedDebit inp) \<and> natural (ci_observedCredit inp) \<and> natural (ci_expectedDebit inp)
     \<and> natural (ci_expectedCredit inp) \<and> natural (ci_detectedDifference inp)
     \<and> isSafeInteger (ci_recordVersion inp) \<and> ci_recordVersion inp \<ge> 1"

datatype ProofResult = VERIFIED | PROOF_FAILED

record BalanceState =
  bs_debit :: int
  bs_credit :: int
  bs_difference :: int
  bs_isBalanced :: bool

record InvariantRestorationProof =
  rp_proofId :: string
  rp_before :: BalanceState
  rp_debitLinesTotal :: int
  rp_creditLinesTotal :: int
  rp_netCorrection :: int
  rp_after :: BalanceState
  rp_proofResult :: ProofResult
  rp_smtScript :: string
  rp_counterexample :: "string option"
  rp_proofHash :: string
  rp_verifiedAt :: string

record ProposedCorrectionRecord =
  pc_correctionId :: ident
  pc_tenantId :: ident
  pc_transactionId :: ident
  pc_status :: CorrectionStatus
  pc_correctionType :: CorrectionType
  pc_currency :: string
  pc_journalLines :: "JournalLine list"
  pc_totalDebit :: int
  pc_totalCredit :: int
  pc_detectedDifference :: int
  pc_proof :: InvariantRestorationProof
  pc_explanation :: string
  pc_recordVersion :: int
  pc_reviewedBy :: "string option"
  pc_reviewedAt :: "string option"
  pc_rejectionReason :: "string option"
  pc_policyVersion :: string
  pc_createdAt :: string
  pc_updatedAt :: string

definition balance_valid :: "BalanceState \<Rightarrow> bool" where
  "balance_valid b \<longleftrightarrow> natural (bs_debit b) \<and> natural (bs_credit b) \<and> natural (bs_difference b)"

definition record_valid :: "ProposedCorrectionRecord \<Rightarrow> bool" where
  "record_valid r \<longleftrightarrow> length (pc_correctionId r) \<ge> 1 \<and> length (pc_tenantId r) \<ge> 1 \<and> length (pc_transactionId r) \<ge> 1
     \<and> length (pc_currency r) = 3 \<and> list_all line_valid (pc_journalLines r)
     \<and> natural (pc_totalDebit r) \<and> natural (pc_totalCredit r) \<and> natural (pc_detectedDifference r)
     \<and> length (rp_proofId (pc_proof r)) \<ge> 1 \<and> balance_valid (rp_before (pc_proof r)) \<and> balance_valid (rp_after (pc_proof r))
     \<and> natural (rp_debitLinesTotal (pc_proof r)) \<and> natural (rp_creditLinesTotal (pc_proof r)) \<and> natural (rp_netCorrection (pc_proof r))
     \<and> length (rp_proofHash (pc_proof r)) \<ge> 1 \<and> length (pc_explanation r) \<ge> 1
     \<and> isSafeInteger (pc_recordVersion r) \<and> pc_recordVersion r \<ge> 1"

record MinimalCorrection =
  mc_applicable :: bool
  mc_status :: CorrectionStatus
  mc_correctionType :: CorrectionType
  mc_journalLines :: "JournalLine list"
  mc_totalDebit :: int
  mc_totalCredit :: int
  mc_detectedDifference :: int
  mc_explanation :: string
  mc_reason :: "string option"

section \<open>The account policy\<close>

record AccountDefinition =
  ad_accountId :: "string option"
  ad_accountName :: "string option"
  ad_category :: "string option"
  ad_description :: "string option"

definition account :: "string \<Rightarrow> string \<Rightarrow> string \<Rightarrow> string \<Rightarrow> AccountDefinition" where
  "account i n c d = \<lparr>ad_accountId = Some i, ad_accountName = Some n, ad_category = Some c, ad_description = Some d\<rparr>"

definition no_fields :: AccountDefinition where
  "no_fields = \<lparr>ad_accountId = None, ad_accountName = None, ad_category = None, ad_description = None\<rparr>"

definition STANDARD_ACCOUNT_CATALOG :: "(string \<times> AccountDefinition) list" where
  "STANDARD_ACCOUNT_CATALOG =
     [(''SETTLEMENT_VARIANCE_CLEARING'', account ''SETTLEMENT_VARIANCE_CLEARING'' ''Settlement Variance Clearing'' ''CLEARING''
         ''Clearing account for unallocated reconciliation variances and discrepancies''),
      (''SETTLEMENT_RECEIVABLE'', account ''SETTLEMENT_RECEIVABLE'' ''Settlement Receivable'' ''ASSET''
         ''Receivables due from payment processors and acquiring banks''),
      (''ACCOUNTS_RECEIVABLE'', account ''ACCOUNTS_RECEIVABLE'' ''Accounts Receivable'' ''ASSET''
         ''Trade accounts receivable for unsettled merchant orders''),
      (''SUSPENSE_CLEARING'', account ''SUSPENSE_CLEARING'' ''Suspense Clearing'' ''CLEARING''
         ''Temporary holding account for unidentified or unclassified financial transactions''),
      (''PAYMENT_PROCESSING_FEES'', account ''PAYMENT_PROCESSING_FEES'' ''Payment Processing Fees'' ''EXPENSE''
         ''MDR, gateway charges, interchange, and transaction processing fees''),
      (''BANK_CLEARING'', account ''BANK_CLEARING'' ''Bank Clearing Account'' ''ASSET''
         ''Clearing account for direct bank remittances and nodal settlements''),
      (''ACCOUNTS_PAYABLE'', account ''ACCOUNTS_PAYABLE'' ''Accounts Payable'' ''LIABILITY''
         ''Liabilities due to suppliers, vendors, or refund payees'')]"

text \<open>
  The catalogue is an object literal, so a lookup also finds what it inherits from the language's base
  object: a value that is not undefined and has none of the fields.
\<close>

definition inherited_members :: "string list" where
  "inherited_members = [''constructor'', ''__defineGetter__'', ''__defineSetter__'', ''hasOwnProperty'', ''__lookupGetter__'',
     ''__lookupSetter__'', ''isPrototypeOf'', ''propertyIsEnumerable'', ''toString'', ''valueOf'', ''__proto__'', ''toLocaleString'']"

definition catalog_get :: "string \<Rightarrow> AccountDefinition option" where
  "catalog_get k = (case map_of STANDARD_ACCOUNT_CATALOG k of
       Some a \<Rightarrow> Some a
     | None \<Rightarrow> if k \<in> set inherited_members then Some no_fields else None)"

definition the_account :: "string \<Rightarrow> AccountDefinition" where
  "the_account k = (case catalog_get k of None \<Rightarrow> no_fields | Some a \<Rightarrow> a)"

record AccountMappingPair =
  am_debitAccount :: AccountDefinition
  am_creditAccount :: AccountDefinition
  am_policyRule :: string

datatype Direction = DEBIT_IMBALANCE | CREDIT_IMBALANCE | STANDARD

definition unknown_account :: "string option \<Rightarrow> bool" where
  "unknown_account k = (truthy_str k \<and> catalog_get (the k) = None)"

definition resolveMapping :: "CorrectionType \<Rightarrow> Direction \<Rightarrow> string option \<Rightarrow> string option \<Rightarrow> AccountMappingPair option" where
  "resolveMapping ty direction customDebit customCredit =
     (if unknown_account customDebit then None
      else if unknown_account customCredit then None
      else case ty of
        SETTLEMENT_VARIANCE \<Rightarrow>
          if direction = DEBIT_IMBALANCE
          then Some \<lparr>am_debitAccount = the_account ''SETTLEMENT_VARIANCE_CLEARING'', am_creditAccount = the_account ''SETTLEMENT_RECEIVABLE'',
                     am_policyRule = ''RULE_VARIANCE_DEBIT_CLEARING_CREDIT_RECEIVABLE''\<rparr>
          else Some \<lparr>am_debitAccount = the_account ''SETTLEMENT_RECEIVABLE'', am_creditAccount = the_account ''SETTLEMENT_VARIANCE_CLEARING'',
                     am_policyRule = ''RULE_VARIANCE_DEBIT_RECEIVABLE_CREDIT_CLEARING''\<rparr>
      | MISSING_DEBIT \<Rightarrow>
          Some \<lparr>am_debitAccount = the_account (if truthy_str customDebit then the customDebit else ''ACCOUNTS_RECEIVABLE''),
                am_creditAccount = the_account ''SUSPENSE_CLEARING'', am_policyRule = ''RULE_MISSING_DEBIT_RESTORE_TO_SUSPENSE''\<rparr>
      | MISSING_CREDIT \<Rightarrow>
          Some \<lparr>am_debitAccount = the_account ''SUSPENSE_CLEARING'',
                am_creditAccount = the_account (if truthy_str customCredit then the customCredit else ''SETTLEMENT_RECEIVABLE''),
                am_policyRule = ''RULE_MISSING_CREDIT_CLEAR_FROM_SUSPENSE''\<rparr>
      | DUPLICATE_POSTING_REVERSAL \<Rightarrow>
          Some \<lparr>am_debitAccount = the_account ''SUSPENSE_CLEARING'', am_creditAccount = the_account ''BANK_CLEARING'',
                am_policyRule = ''RULE_REVERSE_DUPLICATE_BANK_POSTING''\<rparr>
      | FEE_ADJUSTMENT \<Rightarrow>
          Some \<lparr>am_debitAccount = the_account ''PAYMENT_PROCESSING_FEES'', am_creditAccount = the_account ''SETTLEMENT_RECEIVABLE'',
                am_policyRule = ''RULE_RECOGNIZE_UNRECONCILED_PROCESSOR_FEE''\<rparr>
      | UNSUPPORTED_CORRECTION \<Rightarrow> None)"

section \<open>The calculator\<close>

record CorrectionEnv =
  ce_sha :: "string \<Rightarrow> string"
  ce_stamp :: string
  ce_nowIso :: string
  ce_amountText :: "int \<Rightarrow> string"
  ce_validationText :: "CorrectionInput \<Rightarrow> string"
  ce_glyphs :: SmtGlyphs

definition last8 :: "string \<Rightarrow> string" where
  "last8 s = drop (length s - 8) s"

definition name_text :: "AccountDefinition \<Rightarrow> string" where
  "name_text a = (case ad_accountName a of None \<Rightarrow> ''undefined'' | Some n \<Rightarrow> n)"

definition no_correction :: "CorrectionStatus \<Rightarrow> CorrectionType \<Rightarrow> int \<Rightarrow> string \<Rightarrow> string \<Rightarrow> MinimalCorrection" where
  "no_correction status ty difference explanation reason =
     \<lparr>mc_applicable = False, mc_status = status, mc_correctionType = ty, mc_journalLines = [], mc_totalDebit = 0, mc_totalCredit = 0,
      mc_detectedDifference = difference, mc_explanation = explanation, mc_reason = Some reason\<rparr>"

definition imbalance :: "CorrectionInput \<Rightarrow> Direction" where
  "imbalance inp =
     (if ci_observedDebit inp < ci_observedCredit inp then DEBIT_IMBALANCE
      else if ci_observedCredit inp < ci_observedDebit inp then CREDIT_IMBALANCE else STANDARD)"

definition journal_pair :: "CorrectionEnv \<Rightarrow> CorrectionInput \<Rightarrow> AccountMappingPair \<Rightarrow> JournalLine list" where
  "journal_pair env inp mapping =
     [\<lparr>jl_lineId = ''line_dr_'' @ last8 (ci_transactionId inp) @ ''_'' @ ce_stamp env,
       jl_accountId = ad_accountId (am_debitAccount mapping), jl_accountName = ad_accountName (am_debitAccount mapping),
       jl_entryType = DEBIT, jl_amountMinor = ci_detectedDifference inp, jl_currency = ci_currency inp,
       jl_description = ''Correction for '' @ correction_type_text (ci_correctionType inp) @ '': Debit ''
          @ name_text (am_debitAccount mapping) @ '' ('' @ am_policyRule mapping @ '')''\<rparr>,
      \<lparr>jl_lineId = ''line_cr_'' @ last8 (ci_transactionId inp) @ ''_'' @ ce_stamp env,
       jl_accountId = ad_accountId (am_creditAccount mapping), jl_accountName = ad_accountName (am_creditAccount mapping),
       jl_entryType = CREDIT, jl_amountMinor = ci_detectedDifference inp, jl_currency = ci_currency inp,
       jl_description = ''Correction for '' @ correction_type_text (ci_correctionType inp) @ '': Credit ''
          @ name_text (am_creditAccount mapping) @ '' ('' @ am_policyRule mapping @ '')''\<rparr>]"

definition calculateMinimalCorrection :: "CorrectionEnv \<Rightarrow> CorrectionInput \<Rightarrow> MinimalCorrection" where
  "calculateMinimalCorrection env inp =
     (if \<not> input_valid inp
      then no_correction FAILED (ci_correctionType inp) 0 ''Invalid correction input schema'' (''Validation error: '' @ ce_validationText env inp)
      else if ci_detectedDifference inp = 0 \<or> ci_observedDebit inp = ci_observedCredit inp
      then no_correction PROPOSED (ci_correctionType inp) 0
             ''No correction required: debit and credit balances are already equal'' ''Zero imbalance detected''
      else if ci_correctionType inp = UNSUPPORTED_CORRECTION
      then no_correction FAILED UNSUPPORTED_CORRECTION (ci_detectedDifference inp)
             ''Automated journal proposal unavailable for unclassified discrepancy''
             ''Manual correction required: discrepancy cannot be deterministically classified''
      else case resolveMapping (ci_correctionType inp) (imbalance inp) (ci_debitAccount inp) (ci_creditAccount inp) of
          None \<Rightarrow> no_correction FAILED (ci_correctionType inp) (ci_detectedDifference inp)
                    ''No valid account mapping policy found for correction type''
                    (''Missing account policy for '' @ correction_type_text (ci_correctionType inp))
        | Some mapping \<Rightarrow>
            let amount = ci_detectedDifference inp
            in \<lparr>mc_applicable = True, mc_status = AWAITING_REVIEW, mc_correctionType = ci_correctionType inp,
                mc_journalLines = journal_pair env inp mapping, mc_totalDebit = amount, mc_totalCredit = amount, mc_detectedDifference = amount,
                mc_explanation = ''One balancing journal pair (Debit '' @ name_text (am_debitAccount mapping) @ '' / Credit ''
                  @ name_text (am_creditAccount mapping) @ '') of '' @ ci_currency inp @ '' '' @ ce_amountText env amount
                  @ '' is minimal and sufficient to restore the double-entry invariant; no additional lines are necessary.'',
                mc_reason = None\<rparr>)"

section \<open>The restoration proof\<close>

fun line_total :: "JournalEntryType \<Rightarrow> JournalLine list \<Rightarrow> int" where
  "line_total ty [] = 0"
| "line_total ty (l # ls) = (if jl_entryType l = ty then jl_amountMinor l else 0) + line_total ty ls"

definition proof_context :: "CorrectionInput \<Rightarrow> string" where
  "proof_context inp = ''proof_ctx_'' @ ci_tenantId inp @ ''_'' @ ci_transactionId inp"

definition proof_id :: "CorrectionEnv \<Rightarrow> CorrectionInput \<Rightarrow> JournalLine list \<Rightarrow> string" where
  "proof_id env inp ls = ''prf_'' @ take 12 (ce_sha env (proof_context inp @ '':'' @ js_show_int (ci_detectedDifference inp)
     @ '':'' @ js_show_int (int (length ls))))"

definition policy_of :: "string \<Rightarrow> string" where
  "policy_of v = (if v = '''' then ''correction-policy-v1'' else v)"

fun proof_result_text :: "ProofResult \<Rightarrow> string" where
  "proof_result_text VERIFIED = ''VERIFIED''"
| "proof_result_text PROOF_FAILED = ''FAILED''"

definition proveRestoration :: "CorrectionEnv \<Rightarrow> CorrectionInput \<Rightarrow> JournalLine list \<Rightarrow> InvariantRestorationProof" where
  "proveRestoration env inp ls =
     (let beforeDebit = ci_observedDebit inp; beforeCredit = ci_observedCredit inp;
          beforeDiff = \<bar>beforeDebit - beforeCredit\<bar>;
          debitCorrection = line_total DEBIT ls; creditCorrection = line_total CREDIT ls;
          (afterDebit, afterCredit) =
            (if beforeDebit < beforeCredit then (beforeDebit + debitCorrection, beforeCredit)
             else if beforeCredit < beforeDebit then (beforeDebit, beforeCredit + creditCorrection)
             else (beforeDebit + debitCorrection, beforeCredit + creditCorrection));
          afterDiff = \<bar>afterDebit - afterCredit\<bar>;
          afterBalanced = (afterDiff = 0 \<and> length ls > 0 \<and> debitCorrection = creditCorrection);
          smt = prove (ce_glyphs env)
            \<lparr>zp_theoremName = Some ''THEOREM_DOUBLE_ENTRY_PARITY'', zp_contextId = proof_context inp @ ''_after'',
             zp_assignments = \<lparr>sa_gross = max afterDebit afterCredit, sa_fee = 0, sa_tax = 0, sa_refund = 0, sa_chargeback = 0,
                sa_settled = max afterDebit afterCredit, sa_variance = 0, sa_debits = Some afterDebit, sa_credits = Some afterCredit,
                sa_creditTotal = None, sa_allocated = None\<rparr>,
             zp_tolerance = Some 0\<rparr>;
          successful = (afterBalanced \<and> (zr_status smt = PROOF_VALID \<or> zr_doubleEntryBalanced smt));
          result = (if successful then VERIFIED else PROOF_FAILED);
          canonical = js_join '':'' [ci_tenantId inp, ci_transactionId inp, ci_currency inp, js_show_int beforeDebit, js_show_int beforeCredit,
            js_show_int beforeDiff, js_show_int debitCorrection, js_show_int creditCorrection, js_show_int afterDebit,
            js_show_int afterCredit, js_show_int afterDiff, proof_result_text result, policy_of (ci_policyVersion inp)]
      in \<lparr>rp_proofId = proof_id env inp ls,
          rp_before = \<lparr>bs_debit = beforeDebit, bs_credit = beforeCredit, bs_difference = beforeDiff, bs_isBalanced = (beforeDiff = 0)\<rparr>,
          rp_debitLinesTotal = debitCorrection, rp_creditLinesTotal = creditCorrection,
          rp_netCorrection = \<bar>debitCorrection - creditCorrection\<bar>,
          rp_after = \<lparr>bs_debit = afterDebit, bs_credit = afterCredit, bs_difference = afterDiff, bs_isBalanced = afterBalanced\<rparr>,
          rp_proofResult = result, rp_smtScript = zr_smtLibScript smt,
          rp_counterexample = (if successful then None else Some ''Simulated after-state failed double-entry parity check''),
          rp_proofHash = ce_sha env canonical, rp_verifiedAt = ce_nowIso env\<rparr>)"

section \<open>Replay\<close>

datatype ReplayError =
    ReplayTenantIsolation
  | DivergedLineCount
  | DivergedDebitTotal
  | DivergedCreditTotal
  | DivergedResult
  | DivergedHash

record ReplayResult =
  rr_correctionId :: ident
  rr_originalHash :: string
  rr_replayedHash :: string
  rr_linesCount :: nat
  rr_replayedProof :: InvariantRestorationProof

definition replay_input :: "ProposedCorrectionRecord \<Rightarrow> CorrectionInput" where
  "replay_input r =
     \<lparr>ci_tenantId = pc_tenantId r, ci_transactionId = pc_transactionId r, ci_currency = pc_currency r,
      ci_debitAccount = None, ci_creditAccount = None,
      ci_observedDebit = bs_debit (rp_before (pc_proof r)), ci_observedCredit = bs_credit (rp_before (pc_proof r)),
      ci_expectedDebit = bs_debit (rp_after (pc_proof r)), ci_expectedCredit = bs_credit (rp_after (pc_proof r)),
      ci_detectedDifference = pc_detectedDifference r, ci_correctionType = pc_correctionType r, ci_evidenceIds = [],
      ci_policyVersion = policy_of (pc_policyVersion r), ci_recordVersion = pc_recordVersion r\<rparr>"

definition replayCorrectionProof :: "CorrectionEnv \<Rightarrow> ProposedCorrectionRecord \<Rightarrow> ident \<Rightarrow> ReplayError + ReplayResult" where
  "replayCorrectionProof env r requestingTenantId =
     (if pc_tenantId r \<noteq> requestingTenantId then Inl ReplayTenantIsolation
      else
        let recomputed = calculateMinimalCorrection env (replay_input r);
            replayed = proveRestoration env (replay_input r) (mc_journalLines recomputed)
        in if length (mc_journalLines recomputed) \<noteq> length (pc_journalLines r) then Inl DivergedLineCount
           else if mc_totalDebit recomputed \<noteq> pc_totalDebit r then Inl DivergedDebitTotal
           else if mc_totalCredit recomputed \<noteq> pc_totalCredit r then Inl DivergedCreditTotal
           else if rp_proofResult replayed \<noteq> rp_proofResult (pc_proof r) then Inl DivergedResult
           else if rp_proofHash replayed \<noteq> rp_proofHash (pc_proof r) then Inl DivergedHash
           else Inr \<lparr>rr_correctionId = pc_correctionId r, rr_originalHash = rp_proofHash (pc_proof r),
                     rr_replayedHash = rp_proofHash replayed, rr_linesCount = length (mc_journalLines recomputed),
                     rr_replayedProof = replayed\<rparr>)"

section \<open>The repository\<close>

record LedgerAuditRow =
  la_tenantId :: ident
  la_entityId :: ident
  la_actor :: string
  la_action :: string

record CorrectionRepo =
  cr_store :: "(string \<times> ProposedCorrectionRecord) list"
  cr_locks :: "string list"
  cr_audit :: "LedgerAuditRow list"

datatype RepositoryError =
    CorrectionNotFound
  | CorrectionTenantIsolation
  | StaleCorrection int int
  | ConcurrentApprovalConflict
  | InvalidStateTransition CorrectionStatus CorrectionStatus
  | InvariantProofFailed

definition makeKey :: "ident \<Rightarrow> ident \<Rightarrow> string" where
  "makeKey tenant i = tenant @ '':'' @ i"

definition lock_key :: "ident \<Rightarrow> ident \<Rightarrow> string" where
  "lock_key tenant i = ''lock:'' @ makeKey tenant i"

definition put :: "ident \<Rightarrow> ident \<Rightarrow> ProposedCorrectionRecord \<Rightarrow> CorrectionRepo \<Rightarrow> CorrectionRepo" where
  "put tenant i r st = st\<lparr>cr_store := AList.update (makeKey tenant i) r (cr_store st)\<rparr>"

text \<open>\<open>None\<close> is the exception of the schema.\<close>

definition saveCorrection :: "ProposedCorrectionRecord \<Rightarrow> CorrectionRepo \<Rightarrow> CorrectionRepo option" where
  "saveCorrection r st = (if record_valid r then Some (put (pc_tenantId r) (pc_correctionId r) r st) else None)"

definition getCorrection :: "ident \<Rightarrow> ident \<Rightarrow> CorrectionRepo \<Rightarrow> RepositoryError + ProposedCorrectionRecord option" where
  "getCorrection i tenant st =
     (if list_ex (\<lambda>(k, r). pc_correctionId r = i \<and> pc_tenantId r \<noteq> tenant) (cr_store st) then Inl CorrectionTenantIsolation
      else Inr (map_of (cr_store st) (makeKey tenant i)))"

text \<open>\<open>slice(0, limit)\<close>: a negative limit counts from the end.\<close>

definition slice_to :: "int \<Rightarrow> 'a list \<Rightarrow> 'a list" where
  "slice_to limit xs = take (nat (if limit < 0 then int (length xs) + limit else limit)) xs"

definition listCorrections :: "(string \<Rightarrow> millis) \<Rightarrow> ident \<Rightarrow> int \<Rightarrow> CorrectionRepo \<Rightarrow> ProposedCorrectionRecord list" where
  "listCorrections time tenant limit st =
     slice_to limit (js_sort (\<lambda>a b. time (pc_createdAt b) - time (pc_createdAt a))
       (filter (\<lambda>r. pc_tenantId r = tenant) (map snd (cr_store st))))"

record ApproveParams =
  ap_correctionId :: ident
  ap_tenantId :: ident
  ap_reviewerId :: string
  ap_expectedVersion :: "int option"
  ap_currentVersion :: "int option"

type_synonym fetched = "RepositoryError + ProposedCorrectionRecord option"

text \<open>Up to the wait for the record, and from there on; the lock is released in every case.\<close>

definition begin_approve :: "ApproveParams \<Rightarrow> CorrectionRepo \<Rightarrow> RepositoryError + fetched \<times> CorrectionRepo" where
  "begin_approve q st =
     (let lk = lock_key (ap_tenantId q) (ap_correctionId q)
      in if lk \<in> set (cr_locks st) then Inl ConcurrentApprovalConflict
         else Inr (getCorrection (ap_correctionId q) (ap_tenantId q) st, st\<lparr>cr_locks := lk # cr_locks st\<rparr>))"

definition mark :: "CorrectionEnv \<Rightarrow> CorrectionStatus \<Rightarrow> ProposedCorrectionRecord \<Rightarrow> ProposedCorrectionRecord" where
  "mark env status r = r\<lparr>pc_status := status, pc_updatedAt := ce_nowIso env\<rparr>"

definition finish_approve ::
  "CorrectionEnv \<Rightarrow> ApproveParams \<Rightarrow> fetched \<Rightarrow> CorrectionRepo
     \<Rightarrow> (RepositoryError + ProposedCorrectionRecord \<times> bool) \<times> CorrectionRepo" where
  "finish_approve env q got st0 =
     (let tenant = ap_tenantId q; i = ap_correctionId q;
          st = st0\<lparr>cr_locks := removeAll (lock_key tenant i) (cr_locks st0)\<rparr>
      in case got of
           Inl e \<Rightarrow> (Inl e, st)
         | Inr None \<Rightarrow> (Inl CorrectionNotFound, st)
         | Inr (Some r) \<Rightarrow>
             if pc_status r = APPROVED then (Inr (r, True), st)
             else if pc_status r = REJECTED then (Inl (InvalidStateTransition (pc_status r) APPROVED), st)
             else if (case ap_currentVersion q of None \<Rightarrow> False | Some v \<Rightarrow> pc_recordVersion r \<noteq> v)
             then (Inl (StaleCorrection (pc_recordVersion r) (the (ap_currentVersion q))), put tenant i (mark env STALE r) st)
             else if (case ap_expectedVersion q of None \<Rightarrow> False | Some v \<Rightarrow> pc_recordVersion r \<noteq> v)
             then (Inl (StaleCorrection (pc_recordVersion r) (the (ap_expectedVersion q))), put tenant i (mark env STALE r) st)
             else if rp_proofResult (pc_proof r) \<noteq> VERIFIED
             then (Inl InvariantProofFailed, put tenant i (mark env FAILED r) st)
             else let r1 = (mark env APPROVED r)\<lparr>pc_reviewedBy := Some (ap_reviewerId q), pc_reviewedAt := Some (ce_nowIso env)\<rparr>;
                      st1 = put tenant i r1 st
                  in (Inr (r1, False), st1\<lparr>cr_audit := cr_audit st1 @
                        [\<lparr>la_tenantId = tenant, la_entityId = pc_correctionId r, la_actor = ap_reviewerId q,
                          la_action = ''CORRECTION_APPROVED''\<rparr>]\<rparr>))"

record RejectParams =
  rj_correctionId :: ident
  rj_tenantId :: ident
  rj_reviewerId :: string
  rj_reason :: string

definition begin_reject :: "RejectParams \<Rightarrow> CorrectionRepo \<Rightarrow> fetched" where
  "begin_reject q st = getCorrection (rj_correctionId q) (rj_tenantId q) st"

definition finish_reject ::
  "CorrectionEnv \<Rightarrow> RejectParams \<Rightarrow> fetched \<Rightarrow> CorrectionRepo
     \<Rightarrow> (RepositoryError + ProposedCorrectionRecord \<times> bool) \<times> CorrectionRepo" where
  "finish_reject env q got st =
     (case got of
        Inl e \<Rightarrow> (Inl e, st)
      | Inr None \<Rightarrow> (Inl CorrectionNotFound, st)
      | Inr (Some r) \<Rightarrow>
          if pc_status r = REJECTED then (Inr (r, True), st)
          else if pc_status r = APPROVED then (Inl (InvalidStateTransition (pc_status r) REJECTED), st)
          else let r1 = (mark env REJECTED r)\<lparr>pc_reviewedBy := Some (rj_reviewerId q), pc_reviewedAt := Some (ce_nowIso env),
                          pc_rejectionReason := Some (rj_reason q)\<rparr>;
                   st1 = put (rj_tenantId q) (rj_correctionId q) r1 st
               in (Inr (r1, False), st1\<lparr>cr_audit := cr_audit st1 @
                     [\<lparr>la_tenantId = rj_tenantId q, la_entityId = pc_correctionId r, la_actor = rj_reviewerId q,
                       la_action = ''CORRECTION_REJECTED''\<rparr>]\<rparr>))"

text \<open>An approval with nothing else in between.\<close>

definition approveCorrection ::
  "CorrectionEnv \<Rightarrow> ApproveParams \<Rightarrow> CorrectionRepo \<Rightarrow> (RepositoryError + ProposedCorrectionRecord \<times> bool) \<times> CorrectionRepo" where
  "approveCorrection env q st =
     (case begin_approve q st of Inl e \<Rightarrow> (Inl e, st) | Inr (got, st1) \<Rightarrow> finish_approve env q got st1)"

definition rejectCorrection ::
  "CorrectionEnv \<Rightarrow> RejectParams \<Rightarrow> CorrectionRepo \<Rightarrow> (RepositoryError + ProposedCorrectionRecord \<times> bool) \<times> CorrectionRepo" where
  "rejectCorrection env q st = finish_reject env q (begin_reject q st) st"

section \<open>Proposing\<close>

datatype ProposalReply = Invalid | NotApplicable MinimalCorrection | Stored ProposedCorrectionRecord

definition proposed_record :: "CorrectionEnv \<Rightarrow> CorrectionInput \<Rightarrow> ProposedCorrectionRecord" where
  "proposed_record env inp =
     (let calc = calculateMinimalCorrection env inp; proof = proveRestoration env inp (mc_journalLines calc)
      in \<lparr>pc_correctionId = ''cor_'' @ drop 4 (rp_proofId proof), pc_tenantId = ci_tenantId inp,
          pc_transactionId = ci_transactionId inp, pc_status = mc_status calc, pc_correctionType = mc_correctionType calc,
          pc_currency = ci_currency inp, pc_journalLines = mc_journalLines calc, pc_totalDebit = mc_totalDebit calc,
          pc_totalCredit = mc_totalCredit calc, pc_detectedDifference = mc_detectedDifference calc, pc_proof = proof,
          pc_explanation = mc_explanation calc, pc_recordVersion = ci_recordVersion inp, pc_reviewedBy = None,
          pc_reviewedAt = None, pc_rejectionReason = None, pc_policyVersion = policy_of (ci_policyVersion inp),
          pc_createdAt = ce_nowIso env, pc_updatedAt = ce_nowIso env\<rparr>)"

definition post_correction :: "CorrectionEnv \<Rightarrow> CorrectionInput \<Rightarrow> CorrectionRepo \<Rightarrow> ProposalReply \<times> CorrectionRepo" where
  "post_correction env inp st =
     (if \<not> input_valid inp then (Invalid, st)
      else let calc = calculateMinimalCorrection env inp
           in if \<not> mc_applicable calc then (NotApplicable calc, st)
              else (case saveCorrection (proposed_record env inp) st of
                  None \<Rightarrow> (Invalid, st)
                | Some st1 \<Rightarrow> (Stored (proposed_record env inp), st1)))"

section \<open>Decisions in flight\<close>

record RepoSystem =
  sy_repo :: CorrectionRepo
  sy_approving :: "(ApproveParams \<times> fetched) list"
  sy_rejecting :: "(RejectParams \<times> fetched) list"
  sy_approved :: "string list"

text \<open>\<open>sy_approved\<close> records the key of every approval that was answered with success for the first time.\<close>

definition first_approval :: "ApproveParams \<Rightarrow> RepositoryError + ProposedCorrectionRecord \<times> bool \<Rightarrow> string list" where
  "first_approval q reply = (case reply of
       Inl e \<Rightarrow> [] | Inr (r, idempotent) \<Rightarrow> if idempotent then [] else [makeKey (ap_tenantId q) (ap_correctionId q)])"

inductive decision_step :: "RepoSystem \<Rightarrow> RepoSystem \<Rightarrow> bool" where
  approve_begins: "begin_approve q (sy_repo s) = Inr (got, st)
     \<Longrightarrow> decision_step s (s\<lparr>sy_repo := st, sy_approving := (q, got) # sy_approving s\<rparr>)"
| approve_finishes: "(q, got) \<in> set (sy_approving s) \<Longrightarrow> finish_approve env q got (sy_repo s) = (reply, st)
     \<Longrightarrow> decision_step s (s\<lparr>sy_repo := st, sy_approving := remove1 (q, got) (sy_approving s),
            sy_approved := first_approval q reply @ sy_approved s\<rparr>)"
| reject_begins: "decision_step s (s\<lparr>sy_rejecting := (q, begin_reject q (sy_repo s)) # sy_rejecting s\<rparr>)"
| reject_finishes: "(q, got) \<in> set (sy_rejecting s) \<Longrightarrow> finish_reject env q got (sy_repo s) = (reply, st)
     \<Longrightarrow> decision_step s (s\<lparr>sy_repo := st, sy_rejecting := remove1 (q, got) (sy_rejecting s)\<rparr>)"

definition idle :: "CorrectionRepo \<Rightarrow> RepoSystem" where
  "idle st = \<lparr>sy_repo = st, sy_approving = [], sy_rejecting = [], sy_approved = []\<rparr>"

inductive decided :: "CorrectionRepo \<Rightarrow> RepoSystem \<Rightarrow> bool" for st0 where
  undecided: "decided st0 (idle st0)"
| decision: "decided st0 s \<Longrightarrow> decision_step s t \<Longrightarrow> decided st0 t"

end
