(* ===== verification/Corrections_Correct.thy ===== *)
theory Corrections_Correct
  imports Corrections
begin

text \<open>
  What the restoration proof of a correction establishes and what it does not, that stored
  corrections replay, and what the repository guarantees when approvals and rejections overlap.
\<close>

section \<open>The proof of a calculated correction\<close>

lemma line_total_pair [simp]:
  "line_total DEBIT (journal_pair env inp m) = ci_detectedDifference inp"
  "line_total CREDIT (journal_pair env inp m) = ci_detectedDifference inp"
  "length (journal_pair env inp m) = 2"
  by (simp_all add: journal_pair_def)

lemma applicable_cases:
  assumes "mc_applicable (calculateMinimalCorrection env inp)"
  obtains m where "input_valid inp" "ci_detectedDifference inp \<noteq> 0" "ci_observedDebit inp \<noteq> ci_observedCredit inp"
    "ci_correctionType inp \<noteq> UNSUPPORTED_CORRECTION"
    "resolveMapping (ci_correctionType inp) (imbalance inp) (ci_debitAccount inp) (ci_creditAccount inp) = Some m"
    "mc_journalLines (calculateMinimalCorrection env inp) = journal_pair env inp m"
    "mc_totalDebit (calculateMinimalCorrection env inp) = ci_detectedDifference inp"
    "mc_totalCredit (calculateMinimalCorrection env inp) = ci_detectedDifference inp"
    "mc_detectedDifference (calculateMinimalCorrection env inp) = ci_detectedDifference inp"
    "mc_status (calculateMinimalCorrection env inp) = AWAITING_REVIEW"
    "mc_correctionType (calculateMinimalCorrection env inp) = ci_correctionType inp"
  using assms that
  by (auto simp: calculateMinimalCorrection_def no_correction_def Let_def split: if_splits option.splits)

lemma equal_sides_balanced:
  assumes "isSafeInteger n"
  shows "zr_doubleEntryBalanced (prove g
      \<lparr>zp_theoremName = Some name, zp_contextId = c,
       zp_assignments = \<lparr>sa_gross = n, sa_fee = 0, sa_tax = 0, sa_refund = 0, sa_chargeback = 0, sa_settled = n, sa_variance = 0,
          sa_debits = Some n, sa_credits = Some n, sa_creditTotal = None, sa_allocated = None\<rparr>, zp_tolerance = Some 0\<rparr>)"
proof -
  have z: "isSafeInteger 0" by (simp add: isSafeInteger_def)
  show ?thesis using assms z by (simp add: prove_def Let_def invalidSmtInputs_def assignment_fields_def or_else_def)
qed

lemma restoration_result:
  assumes "input_valid inp" "ci_observedDebit inp \<noteq> ci_observedCredit inp"
  shows "rp_proofResult (proveRestoration env inp (journal_pair env' inp m)) = VERIFIED
     \<longleftrightarrow> ci_detectedDifference inp = \<bar>ci_observedDebit inp - ci_observedCredit inp\<bar>"
proof -
  let ?d = "ci_observedDebit inp" and ?c = "ci_observedCredit inp" and ?x = "ci_detectedDifference inp"
  have safe: "isSafeInteger ?d" "isSafeInteger ?c" using assms(1) by (simp_all add: input_valid_def natural_def)
  show ?thesis
  proof (cases "?d < ?c")
    case True
    show ?thesis
    proof (cases "?d + ?x = ?c")
      case eq: True
      with True safe equal_sides_balanced [OF safe(2)] show ?thesis by (simp add: proveRestoration_def Let_def)
    next
      case False
      with True show ?thesis by (auto simp: proveRestoration_def Let_def)
    qed
  next
    case False
    with assms(2) have less: "?c < ?d" by simp
    show ?thesis
    proof (cases "?c + ?x = ?d")
      case eq: True
      with less safe equal_sides_balanced [OF safe(1)] show ?thesis by (simp add: proveRestoration_def Let_def)
    next
      case False
      with less show ?thesis by (auto simp: proveRestoration_def Let_def)
    qed
  qed
qed

text \<open>
  The restoration proof of a calculated correction is VERIFIED exactly when the detected
  difference is the difference of the observed balances, and the correction is then the least one: a
  pair of lines, one debit and one credit, of exactly that amount.
\<close>

theorem correction_verified_iff:
  assumes "mc_applicable (calculateMinimalCorrection env inp)"
  shows "(rp_proofResult (proveRestoration env inp (mc_journalLines (calculateMinimalCorrection env inp))) = VERIFIED
          \<longleftrightarrow> ci_detectedDifference inp = \<bar>ci_observedDebit inp - ci_observedCredit inp\<bar>)
       \<and> map (\<lambda>l. (jl_entryType l, jl_amountMinor l)) (mc_journalLines (calculateMinimalCorrection env inp))
          = [(DEBIT, ci_detectedDifference inp), (CREDIT, ci_detectedDifference inp)]"
  using assms
proof (rule applicable_cases)
  fix m
  assume "input_valid inp" "ci_observedDebit inp \<noteq> ci_observedCredit inp"
    and lines: "mc_journalLines (calculateMinimalCorrection env inp) = journal_pair env inp m"
  then show ?thesis unfolding lines by (simp add: restoration_result) (simp add: journal_pair_def)
qed

text \<open>
  The proof applies the debit line or the credit line, not both. Posting the whole journal entry
  of any calculated correction, a verified one included, leaves the two sides exactly as far apart as
  they were, and they were apart.
\<close>

theorem posted_correction_keeps_imbalance:
  assumes "mc_applicable (calculateMinimalCorrection env inp)"
  shows "(ci_observedDebit inp + line_total DEBIT (mc_journalLines (calculateMinimalCorrection env inp)))
       - (ci_observedCredit inp + line_total CREDIT (mc_journalLines (calculateMinimalCorrection env inp)))
       = ci_observedDebit inp - ci_observedCredit inp \<and> ci_observedDebit inp - ci_observedCredit inp \<noteq> 0"
  using assms by (rule applicable_cases) simp

section \<open>Replay\<close>

lemma no_accounts_mapping: "ty \<noteq> UNSUPPORTED_CORRECTION \<Longrightarrow> \<exists>m. resolveMapping ty d None None = Some m"
  by (cases ty) (auto simp: resolveMapping_def unknown_account_def truthy_str_def)

lemma stored_cases:
  assumes "post_correction env inp st = (Stored r, st1)"
  shows "mc_applicable (calculateMinimalCorrection env inp)" "r = proposed_record env inp" "record_valid r"
    "st1 = put (pc_tenantId r) (pc_correctionId r) r st"
  using assms by (auto simp: post_correction_def saveCorrection_def Let_def split: if_splits)

lemma proof_fields:
  "bs_debit (rp_before (proveRestoration env inp ls)) = ci_observedDebit inp"
  "bs_credit (rp_before (proveRestoration env inp ls)) = ci_observedCredit inp"
  by (simp_all add: proveRestoration_def Let_def split_beta)

text \<open>The proof depends on the input through the balances, the names and the totals of the lines.\<close>

lemma proof_depends:
  assumes "ci_tenantId inp' = ci_tenantId inp" "ci_transactionId inp' = ci_transactionId inp" "ci_currency inp' = ci_currency inp"
    "ci_observedDebit inp' = ci_observedDebit inp" "ci_observedCredit inp' = ci_observedCredit inp"
    "policy_of (ci_policyVersion inp') = policy_of (ci_policyVersion inp)"
    "line_total DEBIT ls' = line_total DEBIT ls" "line_total CREDIT ls' = line_total CREDIT ls" "length ls' = length ls"
    "ce_sha env' = ce_sha env" "ce_glyphs env' = ce_glyphs env"
  shows "rp_proofResult (proveRestoration env' inp' ls') = rp_proofResult (proveRestoration env inp ls)"
    "rp_proofHash (proveRestoration env' inp' ls') = rp_proofHash (proveRestoration env inp ls)"
  unfolding proveRestoration_def Let_def proof_context_def assms by simp_all

text \<open>
  C31. Round trip: a correction the endpoint stored replays for its own tenant at any later time, with
  the same result and the same hash, whatever accounts its proposal named; any other tenant is
  refused.
\<close>

theorem stored_correction_replays:
  assumes "post_correction env inp st = (Stored r, st1)" "ce_sha env' = ce_sha env" "ce_glyphs env' = ce_glyphs env"
  shows "replayCorrectionProof env' r tenant =
     (if tenant \<noteq> ci_tenantId inp then Inl ReplayTenantIsolation
      else Inr \<lparr>rr_correctionId = pc_correctionId r, rr_originalHash = rp_proofHash (pc_proof r),
                rr_replayedHash = rp_proofHash (pc_proof r), rr_linesCount = 2,
                rr_replayedProof = proveRestoration env' (replay_input r) (mc_journalLines (calculateMinimalCorrection env' (replay_input r)))\<rparr>)"
proof -
  note s = stored_cases [OF assms(1)]
  from s(1) show ?thesis
  proof (rule applicable_cases)
    fix m
    assume inp: "input_valid inp" "ci_detectedDifference inp \<noteq> 0" "ci_observedDebit inp \<noteq> ci_observedCredit inp"
        "ci_correctionType inp \<noteq> UNSUPPORTED_CORRECTION"
      and calc: "mc_journalLines (calculateMinimalCorrection env inp) = journal_pair env inp m"
        "mc_totalDebit (calculateMinimalCorrection env inp) = ci_detectedDifference inp"
        "mc_totalCredit (calculateMinimalCorrection env inp) = ci_detectedDifference inp"
        "mc_detectedDifference (calculateMinimalCorrection env inp) = ci_detectedDifference inp"
        "mc_correctionType (calculateMinimalCorrection env inp) = ci_correctionType inp"
    let ?proof = "proveRestoration env inp (journal_pair env inp m)" and ?again = "replay_input r"
    have r: "pc_tenantId r = ci_tenantId inp" "pc_transactionId r = ci_transactionId inp" "pc_currency r = ci_currency inp"
        "pc_detectedDifference r = ci_detectedDifference inp" "pc_correctionType r = ci_correctionType inp"
        "pc_recordVersion r = ci_recordVersion inp" "pc_policyVersion r = policy_of (ci_policyVersion inp)" "pc_proof r = ?proof"
        "pc_totalDebit r = ci_detectedDifference inp" "pc_totalCredit r = ci_detectedDifference inp" "length (pc_journalLines r) = 2"
      by (simp_all add: s(2) proposed_record_def Let_def calc)
    have again: "ci_tenantId ?again = ci_tenantId inp" "ci_transactionId ?again = ci_transactionId inp" "ci_currency ?again = ci_currency inp"
        "ci_observedDebit ?again = ci_observedDebit inp" "ci_observedCredit ?again = ci_observedCredit inp"
        "ci_detectedDifference ?again = ci_detectedDifference inp" "ci_correctionType ?again = ci_correctionType inp"
        "ci_debitAccount ?again = None" "ci_creditAccount ?again = None" "ci_recordVersion ?again = ci_recordVersion inp"
        "ci_expectedDebit ?again = bs_debit (rp_after (pc_proof r))" "ci_expectedCredit ?again = bs_credit (rp_after (pc_proof r))"
        "policy_of (ci_policyVersion ?again) = policy_of (ci_policyVersion inp)"
      by (simp_all add: replay_input_def r proof_fields policy_of_def)
    have "balance_valid (rp_after (pc_proof r))" using s(3) by (simp add: record_valid_def)
    then have valid: "input_valid ?again" using inp(1) by (simp add: input_valid_def again balance_valid_def)
    obtain m' where m': "resolveMapping (ci_correctionType inp) (imbalance ?again) None None = Some m'"
      using no_accounts_mapping [OF inp(4)] by blast
    have calc': "mc_journalLines (calculateMinimalCorrection env' ?again) = journal_pair env' ?again m'"
        "mc_totalDebit (calculateMinimalCorrection env' ?again) = ci_detectedDifference inp"
        "mc_totalCredit (calculateMinimalCorrection env' ?again) = ci_detectedDifference inp"
      using valid inp m' by (simp_all add: calculateMinimalCorrection_def again Let_def)
    have "rp_proofResult (proveRestoration env' ?again (journal_pair env' ?again m')) = rp_proofResult ?proof"
        "rp_proofHash (proveRestoration env' ?again (journal_pair env' ?again m')) = rp_proofHash ?proof"
      by (rule proof_depends; simp add: again assms(2,3))+
    then show ?thesis using r calc' by (simp add: replayCorrectionProof_def Let_def)
  qed
qed

section \<open>Overlapping decisions\<close>

lemma put_lookup [simp]:
  "map_of (cr_store (put tenant i r st)) = (map_of (cr_store st))(makeKey tenant i \<mapsto> r)"
  "cr_locks (put tenant i r st) = cr_locks st" "cr_audit (put tenant i r st) = cr_audit st"
  by (simp_all add: put_def update_conv')

definition closed_status :: "ProposedCorrectionRecord \<Rightarrow> bool" where
  "closed_status r \<longleftrightarrow> pc_status r \<in> {APPROVED, REJECTED}"

abbreviation approve_key :: "ApproveParams \<times> fetched \<Rightarrow> string" where
  "approve_key a \<equiv> makeKey (ap_tenantId (fst a)) (ap_correctionId (fst a))"

definition fetched_closed :: "fetched \<Rightarrow> bool" where
  "fetched_closed got \<longleftrightarrow> (case got of Inr (Some r) \<Rightarrow> closed_status r | _ \<Rightarrow> True)"

text \<open>
  At most one approval of a key is in flight, and it holds the lock; once a key is approved, its record
  and every copy an approval works on are decided.
\<close>

definition repo_ok :: "RepoSystem \<Rightarrow> bool" where
  "repo_ok s \<longleftrightarrow> distinct (map approve_key (sy_approving s))
     \<and> (\<forall>a \<in> set (sy_approving s). ''lock:'' @ approve_key a \<in> set (cr_locks (sy_repo s)))
     \<and> distinct (sy_approved s)
     \<and> (\<forall>k \<in> set (sy_approved s). (\<exists>r. map_of (cr_store (sy_repo s)) k = Some r \<and> closed_status r)
          \<and> (\<forall>a \<in> set (sy_approving s). approve_key a = k \<longrightarrow> fetched_closed (snd a)))"

lemma get_closed:
  "map_of (cr_store st) (makeKey tenant i) = Some r \<Longrightarrow> closed_status r \<Longrightarrow> fetched_closed (getCorrection i tenant st)"
  by (simp add: getCorrection_def fetched_closed_def)

text \<open>What a finished approval does to the repository.\<close>

lemma finish_approve_cases:
  assumes "finish_approve env q got st0 = (reply, st)"
  obtains (kept) "map_of (cr_store st) = map_of (cr_store st0)" "cr_locks st = removeAll (lock_key (ap_tenantId q) (ap_correctionId q)) (cr_locks st0)"
      "first_approval q reply = []"
  | (written) r where "map_of (cr_store st) = (map_of (cr_store st0))(makeKey (ap_tenantId q) (ap_correctionId q) \<mapsto> r)"
      "cr_locks st = removeAll (lock_key (ap_tenantId q) (ap_correctionId q)) (cr_locks st0)"
      "\<not> fetched_closed got" "first_approval q reply = [] \<or> closed_status r"
      "set (first_approval q reply) \<subseteq> {makeKey (ap_tenantId q) (ap_correctionId q)}" "distinct (first_approval q reply)"
proof (cases got)
  case (Inl e)
  with assms show thesis by (intro kept) (auto simp: finish_approve_def first_approval_def Let_def)
next
  case (Inr found)
  show thesis
  proof (cases found)
    case None
    with Inr assms show thesis by (intro kept) (auto simp: finish_approve_def first_approval_def Let_def)
  next
    case (Some r)
    show thesis
    proof (cases "closed_status r")
      case True
      with Inr Some assms show thesis
        by (intro kept) (auto simp: finish_approve_def first_approval_def Let_def closed_status_def split: if_splits)
    next
      case False
      then have open_copy: "\<not> fetched_closed got" using Inr Some by (simp add: fetched_closed_def)
      from False have ns: "pc_status r \<noteq> APPROVED" "pc_status r \<noteq> REJECTED" by (auto simp: closed_status_def)
      let ?stale = "(case ap_currentVersion q of None \<Rightarrow> False | Some v \<Rightarrow> pc_recordVersion r \<noteq> v)
          \<or> (case ap_expectedVersion q of None \<Rightarrow> False | Some v \<Rightarrow> pc_recordVersion r \<noteq> v)"
      let ?status = "if ?stale then STALE else if rp_proofResult (pc_proof r) \<noteq> VERIFIED then FAILED else APPROVED"
      show thesis
      proof (cases "?status = APPROVED")
        case True
        then have "\<not> ?stale" "rp_proofResult (pc_proof r) = VERIFIED" by (auto split: if_splits)
        with Inr Some ns assms show thesis
          by (intro written [OF _ _ open_copy, of "(mark env APPROVED r)\<lparr>pc_reviewedBy := Some (ap_reviewerId q), pc_reviewedAt := Some (ce_nowIso env)\<rparr>"])
             (auto simp: finish_approve_def first_approval_def Let_def closed_status_def mark_def)
      next
        case False
        with Inr Some ns assms show thesis
          by (intro written [OF _ _ open_copy, of "mark env ?status r"])
             (auto simp: finish_approve_def first_approval_def Let_def split: if_splits)
      qed
    qed
  qed
qed

lemma finish_reject_cases:
  assumes "finish_reject env q got st0 = (reply, st)"
  obtains (kept) "map_of (cr_store st) = map_of (cr_store st0)" "cr_locks st = cr_locks st0"
  | (written) r where "map_of (cr_store st) = (map_of (cr_store st0))(makeKey (rj_tenantId q) (rj_correctionId q) \<mapsto> r)"
      "cr_locks st = cr_locks st0" "closed_status r"
proof (cases got)
  case (Inl e)
  with assms show thesis by (intro kept) (auto simp: finish_reject_def)
next
  case (Inr found)
  show thesis
  proof (cases found)
    case None
    with Inr assms show thesis by (intro kept) (auto simp: finish_reject_def)
  next
    case (Some r)
    show thesis
    proof (cases "closed_status r")
      case True
      with Inr Some assms show thesis by (intro kept) (auto simp: finish_reject_def closed_status_def split: if_splits)
    next
      case False
      then have "pc_status r \<noteq> APPROVED" "pc_status r \<noteq> REJECTED" by (auto simp: closed_status_def)
      with Inr Some assms show thesis
        by (intro written [of "(mark env REJECTED r)\<lparr>pc_reviewedBy := Some (rj_reviewerId q), pc_reviewedAt := Some (ce_nowIso env),
              pc_rejectionReason := Some (rj_reason q)\<rparr>"])
           (auto simp: finish_reject_def Let_def closed_status_def mark_def)
    qed
  qed
qed

lemma repo_okD:
  assumes "repo_ok s" "k \<in> set (sy_approved s)"
  shows "\<exists>r. map_of (cr_store (sy_repo s)) k = Some r \<and> closed_status r"
    "\<And>a. a \<in> set (sy_approving s) \<Longrightarrow> approve_key a = k \<Longrightarrow> fetched_closed (snd a)"
  using assms unfolding repo_ok_def by blast+

lemma approve_begins_ok:
  assumes "repo_ok s" "begin_approve q (sy_repo s) = Inr (got, st)"
  shows "repo_ok (s\<lparr>sy_repo := st, sy_approving := (q, got) # sy_approving s\<rparr>)"
proof -
  let ?k = "makeKey (ap_tenantId q) (ap_correctionId q)"
  from assms(2) have free: "''lock:'' @ ?k \<notin> set (cr_locks (sy_repo s))"
    and st: "st = (sy_repo s)\<lparr>cr_locks := (''lock:'' @ ?k) # cr_locks (sy_repo s)\<rparr>"
    and got: "got = getCorrection (ap_correctionId q) (ap_tenantId q) (sy_repo s)"
    by (auto simp: begin_approve_def lock_key_def Let_def split: if_splits)
  have "?k \<notin> approve_key ` set (sy_approving s)" using assms(1) free by (auto simp: repo_ok_def)
  moreover have "fetched_closed got" if "?k \<in> set (sy_approved s)"
    using assms(1) that get_closed unfolding got by (auto simp: repo_ok_def)
  ultimately show ?thesis using assms(1) by (auto simp: repo_ok_def st)
qed

lemma approve_finishes_ok:
  assumes ok: "repo_ok s" and a: "(q, got) \<in> set (sy_approving s)" and f: "finish_approve env q got (sy_repo s) = (reply, st)"
  shows "repo_ok (s\<lparr>sy_repo := st, sy_approving := remove1 (q, got) (sy_approving s), sy_approved := first_approval q reply @ sy_approved s\<rparr>)"
    (is "repo_ok ?t")
proof -
  let ?k = "approve_key (q, got)" and ?rest = "remove1 (q, got) (sy_approving s)"
  have d: "distinct (map approve_key (sy_approving s))" using ok by (simp add: repo_ok_def)
  have rest_sub: "set ?rest \<subseteq> set (sy_approving s)" by (rule set_remove1_subset)
  have d': "distinct (map approve_key ?rest)" using d a
    by (auto simp: distinct_map intro: inj_on_subset)
  have other: "approve_key b \<noteq> ?k" if "b \<in> set ?rest" for b
  proof
    assume "approve_key b = ?k"
    moreover have "b \<in> set (sy_approving s)" using that rest_sub by blast
    ultimately have "b = (q, got)" using d a inj_onD [of approve_key "set (sy_approving s)" b "(q, got)"]
      by (simp add: distinct_map)
    with that d show False by (simp add: distinct_map)
  qed
  have locks: "''lock:'' @ approve_key b \<in> set (removeAll (''lock:'' @ ?k) (cr_locks (sy_repo s)))" if "b \<in> set ?rest" for b
    using ok that rest_sub other [OF that] by (auto simp: repo_ok_def)
  show ?thesis using f
  proof (cases rule: finish_approve_cases)
    case kept
    have "(\<exists>r'. map_of (cr_store st) k = Some r' \<and> closed_status r')
          \<and> (\<forall>b \<in> set ?rest. approve_key b = k \<longrightarrow> fetched_closed (snd b))" if "k \<in> set (sy_approved s)" for k
      using repo_okD [OF ok that] rest_sub unfolding kept(1) by blast
    moreover have "distinct (sy_approved s)" using ok by (simp add: repo_ok_def)
    ultimately show ?thesis using d' locks kept(2,3) by (simp add: repo_ok_def lock_key_def)
  next
    case (written r)
    have nk: "?k \<notin> set (sy_approved s)"
      using repo_okD(2) [OF ok _ a, of ?k] written(3) by (metis snd_conv)
    have "distinct (first_approval q reply @ sy_approved s)" using ok nk written(5,6) by (auto simp: repo_ok_def)
    moreover have "(\<exists>r'. map_of (cr_store st) k = Some r' \<and> closed_status r')
          \<and> (\<forall>b \<in> set ?rest. approve_key b = k \<longrightarrow> fetched_closed (snd b))"
      if "k \<in> set (first_approval q reply @ sy_approved s)" for k
    proof (cases "k = ?k")
      case True
      with that nk have "first_approval q reply \<noteq> []" by auto
      with True written(1,4) other show ?thesis by auto
    next
      case False
      with that written(5) have "k \<in> set (sy_approved s)" by auto
      note D = repo_okD [OF ok this]
      have "map_of (cr_store st) k = map_of (cr_store (sy_repo s)) k" using False by (simp add: written(1))
      moreover have "fetched_closed (snd b)" if "b \<in> set ?rest" "approve_key b = k" for b
        by (rule D(2) [OF subsetD [OF rest_sub that(1)] that(2)])
      ultimately show ?thesis using D(1) by simp
    qed
    ultimately show ?thesis using d' locks written(2) by (simp add: repo_ok_def lock_key_def)
  qed
qed

lemma reject_finishes_ok:
  assumes ok: "repo_ok s" and f: "finish_reject env q got (sy_repo s) = (reply, st)"
  shows "repo_ok (s\<lparr>sy_repo := st, sy_rejecting := rs\<rparr>)"
  using f
proof (cases rule: finish_reject_cases)
  case kept
  with ok show ?thesis by (simp add: repo_ok_def)
next
  case (written r)
  with ok show ?thesis by (auto simp: repo_ok_def)
qed

lemma decided_ok: "decided st0 s \<Longrightarrow> repo_ok s"
proof (induction rule: decided.induct)
  case undecided
  show ?case by (simp add: repo_ok_def idle_def)
next
  case (decision s t)
  from decision.hyps(2) show ?case
  proof (cases rule: decision_step.cases)
    case (approve_begins q got st)
    with decision.IH show ?thesis by (simp add: approve_begins_ok)
  next
    case (approve_finishes q got env reply st)
    with decision.IH show ?thesis by (simp add: approve_finishes_ok)
  next
    case (reject_begins q)
    with decision.IH show ?thesis by (simp add: repo_ok_def)
  next
    case (reject_finishes q got env reply st)
    with decision.IH show ?thesis by (simp add: reject_finishes_ok)
  qed
qed

text \<open>
  C22. However approvals and rejections of a store overlap, no correction is approved twice: of all
  callers, at most one is told that its approval took effect, and the record of an approved
  correction stays decided.
\<close>

theorem approval_exclusive:
  assumes "decided st0 s"
  shows "distinct (sy_approved s) \<and>
    (\<forall>k \<in> set (sy_approved s). \<exists>r. map_of (cr_store (sy_repo s)) k = Some r \<and> pc_status r \<in> {APPROVED, REJECTED})"
  using decided_ok [OF assms] by (auto simp: repo_ok_def closed_status_def)

text \<open>
  The rejection path takes no lock: a rejection that read the record before an approval wrote it
  overturns the approval. Both callers are told that theirs took effect, the audit ledger records both,
  and the correction ends REJECTED.
\<close>

theorem rejection_overturns_approval:
  assumes "getCorrection i tenant st = Inr (Some r)" "pc_status r \<notin> {APPROVED, REJECTED}" "rp_proofResult (pc_proof r) = VERIFIED"
    "lock_key tenant i \<notin> set (cr_locks st)" "ap_tenantId a = tenant" "ap_correctionId a = i" "ap_currentVersion a = None"
    "ap_expectedVersion a = None" "rj_tenantId q = tenant" "rj_correctionId q = i"
  shows "\<exists>got st1 r2 st2 r3 st3. begin_approve a st = Inr (got, st1) \<and> finish_approve env a got st1 = (Inr (r2, False), st2)
     \<and> pc_status r2 = APPROVED \<and> finish_reject env q (begin_reject q st1) st2 = (Inr (r3, False), st3) \<and> pc_status r3 = REJECTED
     \<and> map_option pc_status (map_of (cr_store st3) (makeKey tenant i)) = Some REJECTED
     \<and> map la_action (cr_audit st3) = map la_action (cr_audit st) @ [''CORRECTION_APPROVED'', ''CORRECTION_REJECTED'']"
proof -
  have "getCorrection i tenant (st\<lparr>cr_locks := ls\<rparr>) = getCorrection i tenant st" for ls by (simp add: getCorrection_def)
  with assms show ?thesis
    by (auto simp: begin_approve_def finish_approve_def begin_reject_def finish_reject_def Let_def mark_def)
qed

section \<open>Proposing again\<close>

lemma stored_id:
  assumes "post_correction env inp st = (Stored r, st1)"
  shows "pc_tenantId r = ci_tenantId inp" "pc_status r = AWAITING_REVIEW"
    "pc_correctionId r = ''cor_'' @ take 12 (ce_sha env (proof_context inp @ '':'' @ js_show_int (ci_detectedDifference inp) @ '':2''))"
proof -
  have two: "js_show_int (int 2) = ''2''" by code_simp
  from stored_cases(1) [OF assms] show "pc_tenantId r = ci_tenantId inp" "pc_status r = AWAITING_REVIEW"
    "pc_correctionId r = ''cor_'' @ take 12 (ce_sha env (proof_context inp @ '':'' @ js_show_int (ci_detectedDifference inp) @ '':2''))"
    using two stored_cases(2) [OF assms]
    by (auto elim!: applicable_cases simp: proposed_record_def proveRestoration_def proof_id_def Let_def split_beta)
qed

text \<open>
  A decision does not bind: proposing the same correction again, whatever was decided on it, writes
  over the stored record. A rejected correction awaits review once more, with the rejection and its
  reason gone from the store.
\<close>

theorem reproposal_erases_decision:
  assumes "post_correction env inp st = (Stored r, st1)" "post_correction env' inp st2 = (Stored r', st3)" "ce_sha env' = ce_sha env"
    "map_of (cr_store st2) (makeKey (pc_tenantId r) (pc_correctionId r)) = Some decided_record" "pc_status decided_record = REJECTED"
  shows "\<exists>again. map_of (cr_store st3) (makeKey (pc_tenantId r) (pc_correctionId r)) = Some again
      \<and> pc_status again = AWAITING_REVIEW \<and> pc_reviewedBy again = None \<and> pc_rejectionReason again = None"
proof -
  have "pc_tenantId r' = pc_tenantId r" "pc_correctionId r' = pc_correctionId r"
    using stored_id [OF assms(1)] stored_id [OF assms(2)] assms(3) by simp_all
  moreover have "map_of (cr_store st3) (makeKey (pc_tenantId r') (pc_correctionId r')) = Some r'"
    by (simp add: stored_cases(4) [OF assms(2)])
  moreover have "pc_reviewedBy r' = None \<and> pc_rejectionReason r' = None"
    using stored_cases(2) [OF assms(2)] by (simp add: proposed_record_def Let_def)
  ultimately show ?thesis using stored_id(2) [OF assms(2)] by metis
qed

text \<open>
  The correction id hashes the tenant and the transaction joined by an underscore, so two tenants
  whose joined names agree get the same id for equal differences, and then neither of them can read or
  decide its own correction.
\<close>

theorem correction_id_collision:
  assumes "post_correction env inp st = (Stored r, st1)" "post_correction env inp' st1 = (Stored r', st2)"
    "ci_tenantId inp \<noteq> ci_tenantId inp'"
    "ci_tenantId inp @ ''_'' @ ci_transactionId inp = ci_tenantId inp' @ ''_'' @ ci_transactionId inp'"
    "ci_detectedDifference inp = ci_detectedDifference inp'"
  shows "pc_correctionId r = pc_correctionId r'
    \<and> getCorrection (pc_correctionId r) (ci_tenantId inp) st2 = Inl CorrectionTenantIsolation
    \<and> getCorrection (pc_correctionId r) (ci_tenantId inp') st2 = Inl CorrectionTenantIsolation"
proof -
  have context_eq: "proof_context inp = proof_context inp'" using assms(4) by (simp only: proof_context_def)
  have same: "pc_correctionId r = pc_correctionId r'"
    unfolding stored_id(3) [OF assms(1)] stored_id(3) [OF assms(2)] context_eq assms(5) by (rule refl)
  have t: "pc_tenantId r = ci_tenantId inp" "pc_tenantId r' = ci_tenantId inp'"
    using stored_id(1) assms(1,2) by blast+
  have "map_of (cr_store st2) (makeKey (pc_tenantId r') (pc_correctionId r')) = Some r'"
    by (simp add: stored_cases(4) [OF assms(2)])
  then have 2: "\<exists>k. (k, r') \<in> set (cr_store st2)" by (meson map_of_SomeD)
  have "makeKey (pc_tenantId r) (pc_correctionId r) \<noteq> makeKey (pc_tenantId r') (pc_correctionId r')"
    using same t assms(3) by (simp add: makeKey_def)
  then have "map_of (cr_store st2) (makeKey (pc_tenantId r) (pc_correctionId r)) = Some r"
    by (simp add: stored_cases(4) [OF assms(2)] stored_cases(4) [OF assms(1)])
  then have 1: "\<exists>k. (k, r) \<in> set (cr_store st2)" by (meson map_of_SomeD)
  from 1 2 same t assms(3) show ?thesis by (force simp: getCorrection_def list_ex_iff)
qed

section \<open>A fee found missing\<close>

definition sample_correction_env :: CorrectionEnv where
  "sample_correction_env = \<lparr>ce_sha = (\<lambda>s. ''h'' @ s), ce_stamp = ''m1'', ce_nowIso = ''2026-03-01T00:00:00.000Z'',
     ce_amountText = js_show_int, ce_validationText = (\<lambda>_. ''invalid''), ce_glyphs = \<lparr>dash = ''-'', plus_minus = ''+-''\<rparr>\<rparr>"

definition sample_fee :: CorrectionInput where
  "sample_fee = \<lparr>ci_tenantId = ''t'', ci_transactionId = ''x'', ci_currency = ''INR'', ci_debitAccount = None, ci_creditAccount = None,
     ci_observedDebit = 9, ci_observedCredit = 12, ci_expectedDebit = 12, ci_expectedCredit = 12, ci_detectedDifference = 3,
     ci_correctionType = FEE_ADJUSTMENT, ci_evidenceIds = [], ci_policyVersion = ''v1'', ci_recordVersion = 1\<rparr>"

lemmas correction_eval = post_correction_def calculateMinimalCorrection_def saveCorrection_def proposed_record_def proveRestoration_def
  resolveMapping_def unknown_account_def imbalance_def journal_pair_def the_account_def catalog_get_def account_def no_fields_def
  STANDARD_ACCOUNT_CATALOG_def inherited_members_def record_valid_def line_valid_def input_valid_def natural_def balance_valid_def
  isSafeInteger_def proof_id_def proof_context_def prove_def invalidSmtInputs_def assignment_fields_def or_else_def
  name_text_def truthy_str_def policy_of_def last8_def

lemma sample_applicable: "mc_applicable (calculateMinimalCorrection sample_correction_env sample_fee)"
  by (simp add: sample_fee_def sample_correction_env_def correction_eval Let_def)

definition empty_repo :: CorrectionRepo where
  "empty_repo = \<lparr>cr_store = [], cr_locks = [], cr_audit = []\<rparr>"

definition sample_record :: ProposedCorrectionRecord where
  "sample_record = proposed_record sample_correction_env sample_fee"

definition sample_repo :: CorrectionRepo where
  "sample_repo = put (pc_tenantId sample_record) (pc_correctionId sample_record) sample_record empty_repo"

lemma record_valid_proposed:
  assumes "mc_applicable (calculateMinimalCorrection env inp)" "ci_debitAccount inp = None" "ci_creditAccount inp = None"
    "isSafeInteger (ci_observedDebit inp + ci_detectedDifference inp)" "isSafeInteger (ci_observedCredit inp + ci_detectedDifference inp)"
    "\<And>s. ce_sha env s \<noteq> ''''"
  shows "record_valid (proposed_record env inp)"
  using assms(1)
proof (rule applicable_cases)
  fix m
  assume inp: "input_valid inp" "ci_detectedDifference inp \<noteq> 0" "ci_correctionType inp \<noteq> UNSUPPORTED_CORRECTION"
    and m: "resolveMapping (ci_correctionType inp) (imbalance inp) (ci_debitAccount inp) (ci_creditAccount inp) = Some m"
    and calc: "mc_journalLines (calculateMinimalCorrection env inp) = journal_pair env inp m"
      "mc_totalDebit (calculateMinimalCorrection env inp) = ci_detectedDifference inp"
      "mc_totalCredit (calculateMinimalCorrection env inp) = ci_detectedDifference inp"
      "mc_detectedDifference (calculateMinimalCorrection env inp) = ci_detectedDifference inp"
  have accounts: "truthy_str (ad_accountId (am_debitAccount m)) \<and> truthy_str (ad_accountName (am_debitAccount m))
      \<and> truthy_str (ad_accountId (am_creditAccount m)) \<and> truthy_str (ad_accountName (am_creditAccount m))"
    using m assms(2,3) inp(3)
    by (cases "ci_correctionType inp")
       (auto simp: resolveMapping_def unknown_account_def truthy_str_def the_account_def catalog_get_def account_def no_fields_def
          STANDARD_ACCOUNT_CATALOG_def split: if_splits)
  have explained: "mc_explanation (calculateMinimalCorrection env inp) \<noteq> ''''"
    using inp(1) assms(1) by (auto simp: calculateMinimalCorrection_def no_correction_def Let_def split: if_splits option.splits)
  let ?p = "proveRestoration env inp (journal_pair env inp m)"
  have nonneg: "natural (ci_detectedDifference inp)" "natural (ci_observedDebit inp)" "natural (ci_observedCredit inp)"
    using inp(1) by (simp_all add: input_valid_def)
  have proof_valid: "length (rp_proofId ?p) \<ge> 1" "balance_valid (rp_before ?p)" "balance_valid (rp_after ?p)"
      "natural (rp_debitLinesTotal ?p)" "natural (rp_creditLinesTotal ?p)" "natural (rp_netCorrection ?p)" "length (rp_proofHash ?p) \<ge> 1"
    using nonneg assms(4,5,6)
    by (auto simp: proveRestoration_def proof_id_def Let_def balance_valid_def natural_def isSafeInteger_def Suc_le_eq)
  have lines: "list_all line_valid (journal_pair env inp m)"
    using nonneg accounts inp(1,2) by (auto simp: journal_pair_def line_valid_def natural_def input_valid_def)
  show ?thesis unfolding record_valid_def
    using proof_valid lines explained inp(1) nonneg
    by (simp add: proposed_record_def Let_def calc input_valid_def Suc_le_eq)
qed

theorem correction_verified_iff_witness:
  "rp_proofResult (proveRestoration sample_correction_env sample_fee
      (mc_journalLines (calculateMinimalCorrection sample_correction_env sample_fee))) = VERIFIED"
  using correction_verified_iff [OF sample_applicable] by (simp add: sample_fee_def)

theorem posted_correction_keeps_imbalance_witness:
  "(9 + line_total DEBIT (mc_journalLines (calculateMinimalCorrection sample_correction_env sample_fee)))
   - (12 + line_total CREDIT (mc_journalLines (calculateMinimalCorrection sample_correction_env sample_fee))) = - 3"
  using posted_correction_keeps_imbalance [OF sample_applicable] by (simp add: sample_fee_def)

lemma sample_safe:
  "isSafeInteger (ci_observedDebit sample_fee + ci_detectedDifference sample_fee)"
  "isSafeInteger (ci_observedCredit sample_fee + ci_detectedDifference sample_fee)"
  "ci_debitAccount sample_fee = None" "ci_creditAccount sample_fee = None" "input_valid sample_fee"
  "ce_sha sample_correction_env s \<noteq> ''''"
  by (simp_all add: sample_fee_def sample_correction_env_def isSafeInteger_def input_valid_def natural_def)

lemma sample_stored:
  "post_correction sample_correction_env sample_fee st
     = (Stored sample_record, put (pc_tenantId sample_record) (pc_correctionId sample_record) sample_record st)"
proof -
  have "record_valid sample_record" unfolding sample_record_def
    by (rule record_valid_proposed [OF sample_applicable sample_safe(3,4,1,2,6)])
  then show ?thesis
    by (simp add: post_correction_def sample_safe sample_applicable saveCorrection_def sample_record_def Let_def)
qed

lemma sample_lookup:
  "getCorrection (pc_correctionId sample_record) (pc_tenantId sample_record) sample_repo = Inr (Some sample_record)"
  by (simp add: getCorrection_def sample_repo_def empty_repo_def put_def)

lemma sample_status: "pc_status sample_record = AWAITING_REVIEW" "rp_proofResult (pc_proof sample_record) = VERIFIED"
    "pc_tenantId sample_record = ''t''"
proof -
  show "pc_status sample_record = AWAITING_REVIEW" using stored_id(2) [OF sample_stored] .
  show "pc_tenantId sample_record = ''t''" using stored_id(1) [OF sample_stored] by (simp add: sample_fee_def)
  from sample_applicable obtain m where "mc_journalLines (calculateMinimalCorrection sample_correction_env sample_fee)
      = journal_pair sample_correction_env sample_fee m" by (rule applicable_cases)
  then have "rp_proofResult (pc_proof sample_record)
      = rp_proofResult (proveRestoration sample_correction_env sample_fee (journal_pair sample_correction_env sample_fee m))"
    by (simp add: sample_record_def proposed_record_def Let_def)
  then show "rp_proofResult (pc_proof sample_record) = VERIFIED"
    using restoration_result [OF sample_safe(5)] by (simp add: sample_fee_def)
qed

definition sample_approval :: ApproveParams where
  "sample_approval = \<lparr>ap_correctionId = pc_correctionId sample_record, ap_tenantId = ''t'', ap_reviewerId = ''asha'',
     ap_expectedVersion = None, ap_currentVersion = None\<rparr>"

definition sample_rejection :: RejectParams where
  "sample_rejection = \<lparr>rj_correctionId = pc_correctionId sample_record, rj_tenantId = ''t'', rj_reviewerId = ''ravi'', rj_reason = ''no''\<rparr>"

lemma lookup_any_locks: "getCorrection i tenant (st\<lparr>cr_locks := ls\<rparr>) = getCorrection i tenant st"
  by (simp add: getCorrection_def)

text \<open>An approval from begin to finish, as two steps of the system.\<close>

lemma approved_run:
  obtains s where "decided sample_repo s" "sy_approved s = [makeKey ''t'' (pc_correctionId sample_record)]"
proof -
  have got: "getCorrection (pc_correctionId sample_record) ''t'' sample_repo = Inr (Some sample_record)"
    using sample_lookup by (simp add: sample_status)
  let ?lk = "lock_key ''t'' (pc_correctionId sample_record)"
  have "begin_approve sample_approval sample_repo = Inr (Inr (Some sample_record), sample_repo\<lparr>cr_locks := [?lk]\<rparr>)"
    by (simp add: begin_approve_def sample_approval_def got Let_def) (simp add: sample_repo_def put_def empty_repo_def)
  then have 1: "decided sample_repo ((idle sample_repo)\<lparr>sy_repo := sample_repo\<lparr>cr_locks := [?lk]\<rparr>,
      sy_approving := [(sample_approval, Inr (Some sample_record))]\<rparr>)" (is "decided _ ?s1")
    using decision [OF undecided, of sample_repo] approve_begins [of sample_approval "idle sample_repo"] by (simp add: idle_def)
  obtain reply st where f: "finish_approve sample_correction_env sample_approval (Inr (Some sample_record)) (sy_repo ?s1) = (reply, st)"
    by (rule prod.exhaust)
  then have reply: "first_approval sample_approval reply = [makeKey ''t'' (pc_correctionId sample_record)]"
    using sample_status by (auto simp: finish_approve_def sample_approval_def first_approval_def Let_def)
  have "(sample_approval, Inr (Some sample_record)) \<in> set (sy_approving ?s1)" by simp
  from decision [OF 1 approve_finishes [OF this f]] reply show thesis
    by (intro that) (auto simp: idle_def)
qed

theorem stored_correction_replays_witness:
  "\<exists>rr. replayCorrectionProof sample_correction_env sample_record ''t'' = Inr rr \<and> rr_linesCount rr = 2
     \<and> rr_replayedHash rr = rp_proofHash (pc_proof sample_record)"
  using stored_correction_replays [OF sample_stored refl refl, of "''t''"] by (simp add: sample_fee_def)

theorem approval_exclusive_witness:
  "\<exists>s. decided sample_repo s \<and> sy_approved s \<noteq> [] \<and> distinct (sy_approved s)"
proof -
  obtain s where s: "decided sample_repo s" "sy_approved s = [makeKey ''t'' (pc_correctionId sample_record)]" by (rule approved_run)
  with approval_exclusive [OF s(1)] show ?thesis by auto
qed

theorem rejection_overturns_approval_witness:
  "\<exists>got st1 r2 st2 r3 st3. begin_approve sample_approval sample_repo = Inr (got, st1)
     \<and> finish_approve sample_correction_env sample_approval got st1 = (Inr (r2, False), st2)
     \<and> finish_reject sample_correction_env sample_rejection (begin_reject sample_rejection st1) st2 = (Inr (r3, False), st3)
     \<and> pc_status r2 = APPROVED \<and> pc_status r3 = REJECTED"
proof -
  have g: "getCorrection (pc_correctionId sample_record) ''t'' sample_repo = Inr (Some sample_record)"
    using sample_lookup by (simp add: sample_status)
  have n: "pc_status sample_record \<notin> {APPROVED, REJECTED}" by (simp add: sample_status)
  have l: "lock_key ''t'' (pc_correctionId sample_record) \<notin> set (cr_locks sample_repo)"
    by (simp add: sample_repo_def put_def empty_repo_def)
  from rejection_overturns_approval [OF g n sample_status(2) l, of sample_approval sample_rejection sample_correction_env]
  show ?thesis by (auto simp: sample_approval_def sample_rejection_def)
qed

theorem reproposal_erases_decision_witness:
  "\<exists>st2 st3 again. map_of (cr_store st2) (makeKey ''t'' (pc_correctionId sample_record)) = Some (mark sample_correction_env REJECTED sample_record)
     \<and> post_correction sample_correction_env sample_fee st2 = (Stored sample_record, st3)
     \<and> map_of (cr_store st3) (makeKey ''t'' (pc_correctionId sample_record)) = Some again \<and> pc_status again = AWAITING_REVIEW"
proof -
  let ?st2 = "put ''t'' (pc_correctionId sample_record) (mark sample_correction_env REJECTED sample_record) sample_repo"
  have "map_of (cr_store ?st2) (makeKey (pc_tenantId sample_record) (pc_correctionId sample_record))
      = Some (mark sample_correction_env REJECTED sample_record)"
    "pc_status (mark sample_correction_env REJECTED sample_record) = REJECTED" by (simp_all add: sample_status mark_def)
  from reproposal_erases_decision [OF sample_stored sample_stored refl this] obtain again where
    "map_of (cr_store (put ''t'' (pc_correctionId sample_record) sample_record ?st2)) (makeKey ''t'' (pc_correctionId sample_record)) = Some again"
    "pc_status again = AWAITING_REVIEW" by (metis sample_status(3))
  moreover have "map_of (cr_store ?st2) (makeKey ''t'' (pc_correctionId sample_record)) = Some (mark sample_correction_env REJECTED sample_record)"
    by simp
  ultimately show ?thesis using sample_stored [of ?st2] unfolding sample_status(3) by blast
qed

definition sample_other_tenant :: CorrectionInput where
  "sample_other_tenant = sample_fee\<lparr>ci_tenantId := ''a'', ci_transactionId := ''b_c''\<rparr>"

definition sample_tenant :: CorrectionInput where
  "sample_tenant = sample_fee\<lparr>ci_tenantId := ''a_b'', ci_transactionId := ''c''\<rparr>"

lemma stores_when_applicable:
  assumes "mc_applicable (calculateMinimalCorrection env inp)" "ci_debitAccount inp = None" "ci_creditAccount inp = None"
    "isSafeInteger (ci_observedDebit inp + ci_detectedDifference inp)" "isSafeInteger (ci_observedCredit inp + ci_detectedDifference inp)"
    "\<And>s. ce_sha env s \<noteq> ''''"
  obtains st1 where "post_correction env inp st = (Stored (proposed_record env inp), st1)"
proof -
  have "input_valid inp" using assms(1) by (rule applicable_cases)
  with assms record_valid_proposed [OF assms] that show thesis by (simp add: post_correction_def saveCorrection_def Let_def)
qed

theorem correction_id_collision_witness:
  "\<exists>r r' st1 st2. post_correction sample_correction_env sample_tenant empty_repo = (Stored r, st1)
     \<and> post_correction sample_correction_env sample_other_tenant st1 = (Stored r', st2)
     \<and> getCorrection (pc_correctionId r) ''a_b'' st2 = Inl CorrectionTenantIsolation"
proof -
  have app: "mc_applicable (calculateMinimalCorrection sample_correction_env sample_tenant)"
    "mc_applicable (calculateMinimalCorrection sample_correction_env sample_other_tenant)"
    by (simp_all add: sample_tenant_def sample_other_tenant_def sample_fee_def sample_correction_env_def correction_eval Let_def)
  have safe: "isSafeInteger (ci_observedDebit inp + ci_detectedDifference inp)"
      "isSafeInteger (ci_observedCredit inp + ci_detectedDifference inp)" "ci_debitAccount inp = None" "ci_creditAccount inp = None"
    if "inp \<in> {sample_tenant, sample_other_tenant}" for inp
    using that by (auto simp: sample_tenant_def sample_other_tenant_def sample_fee_def isSafeInteger_def)
  let ?e = sample_correction_env
  obtain st1 where 1: "post_correction ?e sample_tenant empty_repo = (Stored (proposed_record ?e sample_tenant), st1)"
    by (rule stores_when_applicable [OF app(1) _ _ _ _ sample_safe(6)]) (simp_all add: safe)
  obtain st2 where 2: "post_correction ?e sample_other_tenant st1 = (Stored (proposed_record ?e sample_other_tenant), st2)"
    by (rule stores_when_applicable [OF app(2) _ _ _ _ sample_safe(6)]) (simp_all add: safe)
  have "ci_tenantId sample_tenant \<noteq> ci_tenantId sample_other_tenant"
    "ci_tenantId sample_tenant @ ''_'' @ ci_transactionId sample_tenant = ci_tenantId sample_other_tenant @ ''_'' @ ci_transactionId sample_other_tenant"
    "ci_detectedDifference sample_tenant = ci_detectedDifference sample_other_tenant"
    by (simp_all add: sample_tenant_def sample_other_tenant_def)
  from correction_id_collision [OF 1 2 this] 1 2 show ?thesis by (auto simp: sample_tenant_def)
qed

end
