(* ===== verification/Policy.thy ===== *)
theory Policy
  imports Audit_Chain
begin

text \<open>
  Reconciliation policies as data and their governance: the types (\<open>src/lib/policy/types.ts\<close>), the
  content hash (\<open>hash.ts\<close>), the evaluation of a transaction (\<open>evaluator.ts\<close>), the shadow replay
  of a candidate against the active policy (\<open>shadow-replay.ts\<close>), and the manager that moves a policy
  from draft to active (\<open>manager.ts\<close>) behind its endpoint (\<open>src/app/api/policy/route.ts\<close>).

  Amounts, hours and scores are integers. Time, SHA-256 and the printing of a rupee amount come in
  through an environment. A percentage with two decimals is kept as its hundredths, and the
  comparisons with 5, 15 and 20 per cent are multiplied out. Provider names are keys of a plain
  table: names an object inherits are outside the model.
\<close>

section \<open>Types\<close>

datatype PolicyStatus = DRAFT | SHADOW | APPROVED | ACTIVE | SUPERSEDED

record ProviderRule =
  pr_maxDelayedDays :: int
  pr_allowedMethods :: "string list"
  pr_feeTolerancePaise :: "paise option"

record PolicyRules =
  ru_amountTolerance :: paise
  ru_toleranceWindowHours :: int
  ru_materialityThreshold :: paise
  ru_autoMatchMin :: int
  ru_suggestedMatchMin :: int
  ru_highRiskScoreMin :: int
  ru_mediumRiskScoreMin :: int
  ru_makerCheckerThreshold :: paise
  ru_escalationThreshold :: paise
  ru_retryAttemptLimit :: int
  ru_providerRules :: "(string \<times> ProviderRule) list"
  ru_allowManyToOne :: bool
  ru_allowOneToMany :: bool
  ru_allowManyToMany :: bool
  ru_maxGroupSize :: int

record ReconciliationPolicy =
  po_policyId :: ident
  po_version :: string
  po_status :: PolicyStatus
  po_createdBy :: string
  po_approvedBy :: "string option"
  po_createdAt :: millis
  po_activatedAt :: "millis option"
  po_supersededAt :: "millis option"
  po_providerScope :: "string list"
  po_currencyScope :: "string list"
  po_rules :: PolicyRules
  po_parentVersion :: "string option"
  po_contentHash :: string
  po_description :: string

record PolicyEvaluationContext =
  cx_paymentId :: ident
  cx_orderId :: ident
  cx_settlementId :: ident
  cx_bankTxnId :: ident
  cx_amount :: paise
  cx_discrepancy :: "paise option"
  cx_timeDeltaHours :: "int option"
  cx_provider :: "string option"
  cx_paymentMethod :: "string option"
  cx_hasRefund :: bool
  cx_hasChargeback :: bool

datatype PolicyRisk = LOW | MEDIUM | HIGH | CRITICAL

datatype PolicyDecision = AUTO_MATCH | SUGGESTED_MATCH | EXCEPTION

record PolicyEvaluationResult =
  ev_policyId :: ident
  ev_policyVersion :: string
  ev_policyHash :: string
  ev_matchedRules :: "string list"
  ev_confidenceScore :: int
  ev_riskLevel :: PolicyRisk
  ev_decision :: PolicyDecision
  ev_requiresMakerChecker :: bool
  ev_requiresEscalation :: bool
  ev_reasons :: "string list"

record PolicyEnv =
  pe_sha :: "string \<Rightarrow> string"
  pe_rupees :: "paise \<Rightarrow> string"
  pe_now :: millis
  pe_elapsed :: millis

section \<open>The content hash\<close>

definition opt_int :: "int option \<Rightarrow> json" where
  "opt_int x = (case x of None \<Rightarrow> JUndefined | Some n \<Rightarrow> JInt n)"

definition provider_json :: "ProviderRule \<Rightarrow> json" where
  "provider_json r = JObj [(''maxDelayedDays'', JInt (pr_maxDelayedDays r)),
     (''allowedMethods'', JArr (map JStr (pr_allowedMethods r))), (''feeTolerancePaise'', opt_int (pr_feeTolerancePaise r))]"

definition rules_json :: "PolicyRules \<Rightarrow> json" where
  "rules_json r = JObj
     [(''amountTolerancePaise'', JInt (ru_amountTolerance r)), (''toleranceWindowHours'', JInt (ru_toleranceWindowHours r)),
      (''materialityThresholdPaise'', JInt (ru_materialityThreshold r)),
      (''confidenceThresholds'', JObj [(''autoMatchMin'', JInt (ru_autoMatchMin r)), (''suggestedMatchMin'', JInt (ru_suggestedMatchMin r))]),
      (''riskThresholds'', JObj [(''highRiskScoreMin'', JInt (ru_highRiskScoreMin r)), (''mediumRiskScoreMin'', JInt (ru_mediumRiskScoreMin r))]),
      (''makerCheckerThresholdPaise'', JInt (ru_makerCheckerThreshold r)),
      (''exceptionEscalationThresholdPaise'', JInt (ru_escalationThreshold r)), (''retryAttemptLimit'', JInt (ru_retryAttemptLimit r)),
      (''providerRules'', JObj (map (\<lambda>(k, p). (k, provider_json p)) (ru_providerRules r))),
      (''cardinalityConstraints'', JObj [(''allowManyToOne'', JBool (ru_allowManyToOne r)), (''allowOneToMany'', JBool (ru_allowOneToMany r)),
          (''allowManyToMany'', JBool (ru_allowManyToMany r)), (''maxGroupSize'', JInt (ru_maxGroupSize r))])]"

text \<open>Sorting the keys at every level and printing is the canonical serialisation of the audit chain.\<close>

definition computePolicyContentHash :: "PolicyEnv \<Rightarrow> PolicyRules \<Rightarrow> string" where
  "computePolicyContentHash env rules = pe_sha env (canonicalize (rules_json rules))"

section \<open>Evaluation\<close>

record Evaluation =
  el_confidence :: int
  el_risk :: PolicyRisk
  el_decision :: PolicyDecision
  el_makerChecker :: bool
  el_escalation :: bool
  el_rules :: "string list"
  el_reasons :: "string list"

definition start_evaluation :: Evaluation where
  "start_evaluation = \<lparr>el_confidence = 100, el_risk = LOW, el_decision = AUTO_MATCH, el_makerChecker = False,
     el_escalation = False, el_rules = [], el_reasons = []\<rparr>"

definition note_rule :: "string \<Rightarrow> string list \<Rightarrow> Evaluation \<Rightarrow> Evaluation" where
  "note_rule rule reason e = e\<lparr>el_rules := el_rules e @ [rule], el_reasons := el_reasons e @ reason\<rparr>"

definition amount_rule :: "PolicyRules \<Rightarrow> int \<Rightarrow> Evaluation \<Rightarrow> Evaluation" where
  "amount_rule rules discrepancy e =
     (if discrepancy > 0
      then if discrepancy \<le> ru_amountTolerance rules
           then (note_rule ''RULE_TOLERATED_AMOUNT_VARIANCE''
                   [''Discrepancy '' @ js_show_int discrepancy @ '' paise within policy tolerance '' @ js_show_int (ru_amountTolerance rules) @ '' paise''] e)
                \<lparr>el_confidence := el_confidence e - 5\<rparr>
           else (note_rule ''RULE_EXCEEDED_AMOUNT_TOLERANCE''
                   [''Discrepancy '' @ js_show_int discrepancy @ '' paise exceeds tolerance '' @ js_show_int (ru_amountTolerance rules) @ '' paise''] e)
                \<lparr>el_confidence := el_confidence e - 35, el_decision := EXCEPTION, el_risk := MEDIUM\<rparr>
      else e)"

definition timing_rule :: "PolicyRules \<Rightarrow> int \<Rightarrow> Evaluation \<Rightarrow> Evaluation" where
  "timing_rule rules timeDelta e =
     (if timeDelta > ru_toleranceWindowHours rules
      then (note_rule ''RULE_EXCEEDED_TIMING_WINDOW''
              [''Delay '' @ js_show_int timeDelta @ ''h exceeds settlement window '' @ js_show_int (ru_toleranceWindowHours rules) @ ''h''] e)
           \<lparr>el_confidence := el_confidence e - 25, el_decision := EXCEPTION,
            el_risk := (if el_risk e = LOW then MEDIUM else el_risk e)\<rparr>
      else e)"

definition provider_rule :: "PolicyRules \<Rightarrow> PolicyEvaluationContext \<Rightarrow> Evaluation \<Rightarrow> Evaluation" where
  "provider_rule rules cx e =
     (if truthy_str (cx_provider cx)
      then (case map_of (ru_providerRules rules) (the (cx_provider cx)) of
          None \<Rightarrow> e
        | Some pr \<Rightarrow>
            if truthy_str (cx_paymentMethod cx) \<and> the (cx_paymentMethod cx) \<notin> set (pr_allowedMethods pr)
            then (note_rule ''RULE_UNSUPPORTED_PAYMENT_METHOD''
                    [''Method '' @ the (cx_paymentMethod cx) @ '' not in allowed list for '' @ the (cx_provider cx)] e)
                 \<lparr>el_confidence := el_confidence e - 20\<rparr>
            else e)
      else e)"

definition materiality_rule :: "PolicyEnv \<Rightarrow> PolicyRules \<Rightarrow> int \<Rightarrow> Evaluation \<Rightarrow> Evaluation" where
  "materiality_rule env rules discrepancy e =
     (if discrepancy \<ge> ru_materialityThreshold rules
      then (note_rule ''RULE_MATERIAL_DISCREPANCY'' [''Material discrepancy exceeds threshold '' @ pe_rupees env (ru_materialityThreshold rules)] e)
           \<lparr>el_risk := HIGH, el_decision := EXCEPTION\<rparr>
      else e)"

definition maker_checker_rule :: "PolicyRules \<Rightarrow> PolicyEvaluationContext \<Rightarrow> int \<Rightarrow> Evaluation \<Rightarrow> Evaluation" where
  "maker_checker_rule rules cx discrepancy e =
     (if cx_amount cx \<ge> ru_makerCheckerThreshold rules \<or> 2 * discrepancy \<ge> ru_makerCheckerThreshold rules
      then (note_rule ''RULE_MAKER_CHECKER_TRIGGER'' [] e)\<lparr>el_makerChecker := True\<rparr> else e)"

definition escalation_rule :: "PolicyRules \<Rightarrow> PolicyEvaluationContext \<Rightarrow> int \<Rightarrow> Evaluation \<Rightarrow> Evaluation" where
  "escalation_rule rules cx discrepancy e =
     (if cx_amount cx \<ge> ru_escalationThreshold rules \<or> discrepancy \<ge> ru_materialityThreshold rules * 2
      then (note_rule ''RULE_CONTROLLER_ESCALATION_TRIGGER'' [] e)\<lparr>el_escalation := True, el_risk := CRITICAL\<rparr> else e)"

definition confidence_rule :: "PolicyRules \<Rightarrow> Evaluation \<Rightarrow> Evaluation" where
  "confidence_rule rules e =
     (if el_decision e = AUTO_MATCH \<and> el_confidence e < ru_autoMatchMin rules
      then e\<lparr>el_decision := (if el_confidence e \<ge> ru_suggestedMatchMin rules then SUGGESTED_MATCH else EXCEPTION)\<rparr> else e)"

definition evaluatePolicy :: "PolicyEnv \<Rightarrow> ReconciliationPolicy \<Rightarrow> PolicyEvaluationContext \<Rightarrow> PolicyEvaluationResult" where
  "evaluatePolicy env policy cx =
     (let rules = po_rules policy; discrepancy = \<bar>case cx_discrepancy cx of None \<Rightarrow> 0 | Some d \<Rightarrow> d\<bar>;
          timeDelta = \<bar>case cx_timeDeltaHours cx of None \<Rightarrow> 0 | Some h \<Rightarrow> h\<bar>;
          e = confidence_rule rules (escalation_rule rules cx discrepancy (maker_checker_rule rules cx discrepancy
                (materiality_rule env rules discrepancy (provider_rule rules cx (timing_rule rules timeDelta
                  (amount_rule rules discrepancy start_evaluation))))))
      in \<lparr>ev_policyId = po_policyId policy, ev_policyVersion = po_version policy, ev_policyHash = po_contentHash policy,
          ev_matchedRules = el_rules e, ev_confidenceScore = max 0 (min 100 (el_confidence e)), ev_riskLevel = el_risk e,
          ev_decision = el_decision e, ev_requiresMakerChecker = el_makerChecker e, ev_requiresEscalation = el_escalation e,
          ev_reasons = el_reasons e\<rparr>)"

section \<open>Shadow replay\<close>

text \<open>
  The transaction with a given number in the generated stream. The source compares the remainder
  divided by 233280 with 0.70, 0.85, 0.93 and 0.97.
\<close>

definition stream_context :: "int \<Rightarrow> int \<Rightarrow> PolicyEvaluationContext" where
  "stream_context seed n =
     (let r = (seed + n * 9301 + 49297) mod 233280;
          (hours, discrepancy, refund) =
            (if 100 * r < 70 * 233280 then (6 + n mod 18, 0, False)
             else if 100 * r < 85 * 233280 then (48 + n mod 22, 0, False)
             else if 100 * r < 93 * 233280 then (18, 20 + n mod 70, False)
             else if 100 * r < 97 * 233280 then (24, 600000, False)
             else (36, 155000, True))
      in \<lparr>cx_paymentId = ''pay_stream_'' @ js_show_int n, cx_orderId = ''ord_stream_'' @ js_show_int n,
          cx_settlementId = ''setl_stream_'' @ js_show_int n, cx_bankTxnId = ''btxn_stream_'' @ js_show_int n,
          cx_amount = 50000 + (n mod 500) * 1000, cx_discrepancy = Some discrepancy, cx_timeDeltaHours = Some hours,
          cx_provider = Some ''RAZORPAY'', cx_paymentMethod = Some ''UPI'', cx_hasRefund = refund, cx_hasChargeback = False\<rparr>)"

function stream_from :: "int \<Rightarrow> int \<Rightarrow> int \<Rightarrow> int \<Rightarrow> PolicyEvaluationContext list list" where
  "stream_from seed chunkSize records offset =
     (if chunkSize \<le> 0 \<or> records \<le> offset then []
      else map (stream_context seed) [offset + 1..offset + min chunkSize (records - offset)] # stream_from seed chunkSize records (offset + chunkSize))"
  by pat_completeness auto
termination by (relation "measure (\<lambda>(s, c, t, off). nat (t - off))") auto

definition generateRealisticEvaluationStream :: "int \<Rightarrow> int \<Rightarrow> PolicyEvaluationContext list list" where
  "generateRealisticEvaluationStream totalRecords seed = stream_from seed (min 1000 totalRecords) totalRecords 0"

record RecordDiff =
  rd_recordId :: ident
  rd_oldDecision :: PolicyDecision
  rd_newDecision :: PolicyDecision
  rd_oldConfidence :: int
  rd_newConfidence :: int
  rd_oldRisk :: PolicyRisk
  rd_newRisk :: PolicyRisk
  rd_oldMatchedRules :: "string list"
  rd_newMatchedRules :: "string list"
  rd_amount :: paise
  rd_discrepancy :: paise
  rd_timeDeltaHours :: int

record ReplayTotals =
  rt_baselineMatches :: int
  rt_candidateMatches :: int
  rt_baselineExceptions :: int
  rt_candidateExceptions :: int
  rt_baselineAtRisk :: paise
  rt_candidateAtRisk :: paise
  rt_critical :: int
  rt_invariantViolations :: int
  rt_newlyMatched :: int
  rt_newlyUnmatched :: int
  rt_newlyRisky :: int
  rt_newlyEscalated :: int
  rt_diffs :: "RecordDiff list"
  rt_processed :: int

definition zero_totals :: ReplayTotals where
  "zero_totals = \<lparr>rt_baselineMatches = 0, rt_candidateMatches = 0, rt_baselineExceptions = 0, rt_candidateExceptions = 0,
     rt_baselineAtRisk = 0, rt_candidateAtRisk = 0, rt_critical = 0, rt_invariantViolations = 0, rt_newlyMatched = 0,
     rt_newlyUnmatched = 0, rt_newlyRisky = 0, rt_newlyEscalated = 0, rt_diffs = [], rt_processed = 0\<rparr>"

definition one_if :: "bool \<Rightarrow> int" where
  "one_if b = (if b then 1 else 0)"

definition record_diff :: "PolicyEvaluationContext \<Rightarrow> PolicyEvaluationResult \<Rightarrow> PolicyEvaluationResult \<Rightarrow> int \<Rightarrow> RecordDiff" where
  "record_diff rec old new n =
     \<lparr>rd_recordId = (if cx_paymentId rec = '''' then ''rec_'' @ js_show_int n else cx_paymentId rec),
      rd_oldDecision = ev_decision old, rd_newDecision = ev_decision new, rd_oldConfidence = ev_confidenceScore old,
      rd_newConfidence = ev_confidenceScore new, rd_oldRisk = ev_riskLevel old, rd_newRisk = ev_riskLevel new,
      rd_oldMatchedRules = ev_matchedRules old, rd_newMatchedRules = ev_matchedRules new, rd_amount = cx_amount rec,
      rd_discrepancy = (case cx_discrepancy rec of None \<Rightarrow> 0 | Some d \<Rightarrow> d),
      rd_timeDeltaHours = (case cx_timeDeltaHours rec of None \<Rightarrow> 0 | Some h \<Rightarrow> h)\<rparr>"

definition replay_record :: "PolicyEnv \<Rightarrow> ReconciliationPolicy \<Rightarrow> ReconciliationPolicy \<Rightarrow> PolicyEvaluationContext \<Rightarrow> ReplayTotals \<Rightarrow> ReplayTotals" where
  "replay_record env active candidate rec t =
     (let old = evaluatePolicy env active rec; new = evaluatePolicy env candidate rec; n = rt_processed t + 1;
          isInvariantValid = True;
          decisionChanged = (ev_decision old \<noteq> ev_decision new);
          riskElevated = (ev_riskLevel new = HIGH \<and> ev_riskLevel old \<noteq> HIGH);
          escalationTriggered = (ev_requiresEscalation new \<and> \<not> ev_requiresEscalation old)
      in \<lparr>rt_baselineMatches = rt_baselineMatches t + one_if (ev_decision old = AUTO_MATCH),
          rt_candidateMatches = rt_candidateMatches t + one_if (ev_decision new = AUTO_MATCH),
          rt_baselineExceptions = rt_baselineExceptions t + one_if (ev_decision old = EXCEPTION),
          rt_candidateExceptions = rt_candidateExceptions t + one_if (ev_decision new = EXCEPTION),
          rt_baselineAtRisk = rt_baselineAtRisk t + one_if (ev_decision old = EXCEPTION) * cx_amount rec,
          rt_candidateAtRisk = rt_candidateAtRisk t + one_if (ev_decision new = EXCEPTION) * cx_amount rec,
          rt_critical = rt_critical t + one_if (ev_riskLevel new = CRITICAL),
          rt_invariantViolations = rt_invariantViolations t + one_if (\<not> isInvariantValid),
          rt_newlyMatched = rt_newlyMatched t + one_if (ev_decision old = EXCEPTION \<and> ev_decision new = AUTO_MATCH),
          rt_newlyUnmatched = rt_newlyUnmatched t + one_if (ev_decision old = AUTO_MATCH \<and> ev_decision new = EXCEPTION),
          rt_newlyRisky = rt_newlyRisky t + one_if riskElevated,
          rt_newlyEscalated = rt_newlyEscalated t + one_if escalationTriggered,
          rt_diffs = (if (decisionChanged \<or> riskElevated \<or> length (rt_diffs t) < 20) \<and> length (rt_diffs t) < 20
                      then rt_diffs t @ [record_diff rec old new n] else rt_diffs t),
          rt_processed = n\<rparr>)"

datatype PolicySafetyScore = SAFE | CAUTION | BLOCKED

datatype PromotionBlocker = InvariantViolationsDetected int | UnmatchedRegression | AtRiskIncrease | CriticalCeiling

text \<open>A percentage with two decimals, in hundredths; \<open>None\<close> is the result of dividing zero by zero.\<close>

definition delta_pct :: "int \<Rightarrow> int \<Rightarrow> int option" where
  "delta_pct delta n = (if n = 0 then None else Some (sgn delta * js_round_div (\<bar>delta\<bar> * 10000) n))"

record ShadowReplayReport =
  sr_baselineVersion :: string
  sr_candidateVersion :: string
  sr_candidateHash :: string
  sr_recordsEvaluated :: int
  sr_durationMs :: int
  sr_throughput :: int
  sr_autoMatchDeltaPct :: "int option"
  sr_exceptionDeltaPct :: "int option"
  sr_precisionDeltaTenths :: int
  sr_recallDeltaTenths :: int
  sr_atRiskDelta :: paise
  sr_invariantViolations :: int
  sr_criticalExceptionsDelta :: int
  sr_safetyScore :: PolicySafetyScore
  sr_canPromote :: bool
  sr_promotionBlockers :: "PromotionBlocker list"
  sr_newlyMatched :: int
  sr_newlyUnmatched :: int
  sr_newlyRisky :: int
  sr_newlyEscalated :: int
  sr_sampleDiffs :: "RecordDiff list"
  sr_evaluatedAt :: millis

definition promotion_blockers :: "ReplayTotals \<Rightarrow> PromotionBlocker list" where
  "promotion_blockers t =
     (let atRiskDelta = rt_candidateAtRisk t - rt_baselineAtRisk t
      in (if rt_invariantViolations t > 0 then [InvariantViolationsDetected (rt_invariantViolations t)] else [])
         @ (if 100 * rt_newlyUnmatched t > 5 * rt_processed t then [UnmatchedRegression] else [])
         @ (if 100 * atRiskDelta > 20 * rt_baselineAtRisk t \<and> rt_baselineAtRisk t > 0 then [AtRiskIncrease] else [])
         @ (if 100 * rt_critical t > 15 * rt_processed t then [CriticalCeiling] else []))"

definition at_least_zero :: "int option \<Rightarrow> bool" where
  "at_least_zero p = (case p of None \<Rightarrow> False | Some x \<Rightarrow> x \<ge> 0)"

definition executeStreamingShadowReplay :: "PolicyEnv \<Rightarrow> ReconciliationPolicy \<Rightarrow> ReconciliationPolicy \<Rightarrow> int \<Rightarrow> ShadowReplayReport" where
  "executeStreamingShadowReplay env active candidate totalRecords =
     (let t = fold (\<lambda>chunk t. fold (replay_record env active candidate) chunk t)
                (generateRealisticEvaluationStream totalRecords 20260821) zero_totals;
          durationMs = max 1 (pe_elapsed env);
          autoMatchDelta = delta_pct (rt_candidateMatches t - rt_baselineMatches t) (rt_processed t);
          blockers = promotion_blockers t;
          atRiskDelta = rt_candidateAtRisk t - rt_baselineAtRisk t;
          score = (if length blockers > 0 then BLOCKED else if rt_newlyRisky t > 0 \<or> atRiskDelta > 0 then CAUTION else SAFE)
      in \<lparr>sr_baselineVersion = po_version active, sr_candidateVersion = po_version candidate, sr_candidateHash = po_contentHash candidate,
          sr_recordsEvaluated = rt_processed t, sr_durationMs = durationMs,
          sr_throughput = js_round_div (rt_processed t * 1000) durationMs, sr_autoMatchDeltaPct = autoMatchDelta,
          sr_exceptionDeltaPct = delta_pct (rt_candidateExceptions t - rt_baselineExceptions t) (rt_processed t),
          sr_precisionDeltaTenths = (if at_least_zero autoMatchDelta then 12 else - 8),
          sr_recallDeltaTenths = (if at_least_zero autoMatchDelta then 9 else - 5),
          sr_atRiskDelta = atRiskDelta, sr_invariantViolations = rt_invariantViolations t, sr_criticalExceptionsDelta = rt_critical t,
          sr_safetyScore = score, sr_canPromote = (score \<noteq> BLOCKED), sr_promotionBlockers = blockers,
          sr_newlyMatched = rt_newlyMatched t, sr_newlyUnmatched = rt_newlyUnmatched t, sr_newlyRisky = rt_newlyRisky t,
          sr_newlyEscalated = rt_newlyEscalated t, sr_sampleDiffs = rt_diffs t, sr_evaluatedAt = pe_now env\<rparr>)"

text \<open>The comparison the source makes: two results of dividing zero by zero are different.\<close>

definition number_differs :: "int option \<Rightarrow> int option \<Rightarrow> bool" where
  "number_differs a b = (case (a, b) of (Some x, Some y) \<Rightarrow> x \<noteq> y | _ \<Rightarrow> True)"

datatype Divergence = RecordCount | AutoMatchDelta | AmountAtRisk | SafetyScore

definition verifyPolicyReplayDeterminism :: "PolicyEnv \<Rightarrow> PolicyEnv \<Rightarrow> ReconciliationPolicy \<Rightarrow> int \<Rightarrow> bool \<times> Divergence list" where
  "verifyPolicyReplayDeterminism env1 env2 policy sampleSize =
     (let r1 = executeStreamingShadowReplay env1 policy policy sampleSize;
          r2 = executeStreamingShadowReplay env2 policy policy sampleSize;
          divergences = (if sr_recordsEvaluated r1 \<noteq> sr_recordsEvaluated r2 then [RecordCount] else [])
            @ (if number_differs (sr_autoMatchDeltaPct r1) (sr_autoMatchDeltaPct r2) then [AutoMatchDelta] else [])
            @ (if sr_atRiskDelta r1 \<noteq> sr_atRiskDelta r2 then [AmountAtRisk] else [])
            @ (if sr_safetyScore r1 \<noteq> sr_safetyScore r2 then [SafetyScore] else [])
      in (length divergences = 0, divergences))"

end
