(* ===== verification/Policy_Manager.thy ===== *)
theory Policy_Manager
  imports Policy
begin

text \<open>
  The policy manager (\<open>src/lib/policy/manager.ts\<close>) and the actions of its endpoint
  (\<open>src/app/api/policy/route.ts\<close>). The manager keeps the policies by version in the order they were
  added, the version it holds to be active, and the latest shadow replay of each version. Policies are
  objects changed in place, so a transition changes the stored one.
\<close>

definition DEFAULT_RULES_V1 :: PolicyRules where
  "DEFAULT_RULES_V1 = \<lparr>ru_amountTolerance = 100, ru_toleranceWindowHours = 72, ru_materialityThreshold = 500000,
     ru_autoMatchMin = 90, ru_suggestedMatchMin = 70, ru_highRiskScoreMin = 70, ru_mediumRiskScoreMin = 40,
     ru_makerCheckerThreshold = 1000000, ru_escalationThreshold = 5000000, ru_retryAttemptLimit = 3,
     ru_providerRules =
       [(''RAZORPAY'', \<lparr>pr_maxDelayedDays = 3, pr_allowedMethods = [''UPI'', ''CARD'', ''NETBANKING'', ''WALLET''], pr_feeTolerancePaise = None\<rparr>),
        (''STRIPE'', \<lparr>pr_maxDelayedDays = 5, pr_allowedMethods = [''CARD''], pr_feeTolerancePaise = None\<rparr>)],
     ru_allowManyToOne = True, ru_allowOneToMany = True, ru_allowManyToMany = True, ru_maxGroupSize = 50\<rparr>"

definition DEFAULT_POLICY :: "PolicyEnv \<Rightarrow> ReconciliationPolicy" where
  "DEFAULT_POLICY env = \<lparr>po_policyId = ''pol_v1_0_0'', po_version = ''1.0.0'', po_status = ACTIVE,
     po_createdBy = ''SYSTEM_CONTROLLER'', po_approvedBy = Some ''CHIEF_RISK_OFFICER'', po_createdAt = 1767225600000,
     po_activatedAt = Some 1767225600000, po_supersededAt = None, po_providerScope = [''*''], po_currencyScope = [''INR'', ''USD''],
     po_rules = DEFAULT_RULES_V1, po_parentVersion = None, po_contentHash = computePolicyContentHash env DEFAULT_RULES_V1,
     po_description = ''Default Production Financial Reconciliation Policy v1.0.0''\<rparr>"

record PolicyManager =
  pm_policies :: "(string \<times> ReconciliationPolicy) list"
  pm_activeVersion :: string
  pm_reports :: "(string \<times> ShadowReplayReport) list"

datatype PolicyError =
    VersionExists string
  | PolicyNotFound string
  | OnlyFromDraft
  | OnlyFromShadow
  | ApprovalRequiresActor
  | SeparationOfDutiesViolation
  | NoSuccessfulReplay
  | OnlyFromApproved
  | NoActivePolicy

definition new_manager :: "ReconciliationPolicy \<Rightarrow> PolicyManager" where
  "new_manager p = \<lparr>pm_policies = [(po_version p, p)], pm_activeVersion = po_version p, pm_reports = []\<rparr>"

definition getPolicy :: "string \<Rightarrow> PolicyManager \<Rightarrow> ReconciliationPolicy option" where
  "getPolicy v m = map_of (pm_policies m) v"

definition getActivePolicy :: "PolicyManager \<Rightarrow> ReconciliationPolicy option" where
  "getActivePolicy m = map_of (pm_policies m) (pm_activeVersion m)"

definition getLatestReplayReport :: "string \<Rightarrow> PolicyManager \<Rightarrow> ShadowReplayReport option" where
  "getLatestReplayReport v m = map_of (pm_reports m) v"

definition getAllPolicies :: "PolicyManager \<Rightarrow> ReconciliationPolicy list" where
  "getAllPolicies m = js_sort (\<lambda>a b. po_createdAt b - po_createdAt a) (map snd (pm_policies m))"

definition set_policy :: "ReconciliationPolicy \<Rightarrow> PolicyManager \<Rightarrow> PolicyManager" where
  "set_policy p m = m\<lparr>pm_policies := AList.update (po_version p) p (pm_policies m)\<rparr>"

text \<open>\<open>replace(/\./g, "_")\<close>.\<close>

definition dots_to_underscores :: "string \<Rightarrow> string" where
  "dots_to_underscores = map (\<lambda>c. if c = CHR ''.'' then CHR ''_'' else c)"

record DraftParams =
  dp_version :: string
  dp_rules :: PolicyRules
  dp_createdBy :: string
  dp_description :: "string option"
  dp_parentVersion :: "string option"

definition createDraftPolicy :: "PolicyEnv \<Rightarrow> DraftParams \<Rightarrow> PolicyManager \<Rightarrow> (PolicyError + ReconciliationPolicy) \<times> PolicyManager" where
  "createDraftPolicy env q m =
     (if getPolicy (dp_version q) m \<noteq> None then (Inl (VersionExists (dp_version q)), m)
      else let draft = \<lparr>po_policyId = ''pol_v'' @ dots_to_underscores (dp_version q), po_version = dp_version q, po_status = DRAFT,
                 po_createdBy = dp_createdBy q, po_approvedBy = None, po_createdAt = pe_now env, po_activatedAt = None,
                 po_supersededAt = None, po_providerScope = [''*''], po_currencyScope = [''INR'', ''USD''], po_rules = dp_rules q,
                 po_parentVersion = Some (if truthy_str (dp_parentVersion q) then the (dp_parentVersion q) else pm_activeVersion m),
                 po_contentHash = computePolicyContentHash env (dp_rules q),
                 po_description = (if truthy_str (dp_description q) then the (dp_description q) else ''Draft Policy '' @ dp_version q)\<rparr>
           in (Inr draft, set_policy draft m))"

definition approve_policy :: "string option \<Rightarrow> ReconciliationPolicy \<Rightarrow> PolicyManager \<Rightarrow> PolicyError + ReconciliationPolicy" where
  "approve_policy actorId p m =
     (if po_status p \<noteq> SHADOW then Inl OnlyFromShadow
      else if \<not> truthy_str actorId then Inl ApprovalRequiresActor
      else if the actorId = po_createdBy p then Inl SeparationOfDutiesViolation
      else if (case getLatestReplayReport (po_version p) m of None \<Rightarrow> True | Some r \<Rightarrow> \<not> sr_canPromote r) then Inl NoSuccessfulReplay
      else Inr (p\<lparr>po_status := APPROVED, po_approvedBy := actorId\<rparr>))"

definition supersede :: "PolicyEnv \<Rightarrow> ReconciliationPolicy \<Rightarrow> ReconciliationPolicy" where
  "supersede env p = p\<lparr>po_status := SUPERSEDED, po_supersededAt := Some (pe_now env)\<rparr>"

text \<open>
  Activation marks the policy of the active version first and reads the candidate again from the
  store, as both names may be of the same object.
\<close>

definition activate_policy :: "PolicyEnv \<Rightarrow> string \<Rightarrow> PolicyManager \<Rightarrow> PolicyManager" where
  "activate_policy env v m =
     (let m1 = (case getActivePolicy m of None \<Rightarrow> m | Some a \<Rightarrow> set_policy (supersede env a) m)
      in case getPolicy v m1 of
           None \<Rightarrow> m1
         | Some p \<Rightarrow> (set_policy (p\<lparr>po_status := ACTIVE, po_activatedAt := Some (pe_now env)\<rparr>) m1)\<lparr>pm_activeVersion := po_version p\<rparr>)"

definition transitionStatus :: "PolicyEnv \<Rightarrow> string \<Rightarrow> PolicyStatus \<Rightarrow> string option \<Rightarrow> PolicyManager
     \<Rightarrow> (PolicyError + ReconciliationPolicy) \<times> PolicyManager" where
  "transitionStatus env v newStatus actorId m =
     (case getPolicy v m of
        None \<Rightarrow> (Inl (PolicyNotFound v), m)
      | Some p \<Rightarrow>
          (case newStatus of
             SHADOW \<Rightarrow>
               if po_status p \<noteq> DRAFT then (Inl OnlyFromDraft, m)
               else (Inr (p\<lparr>po_status := SHADOW\<rparr>), set_policy (p\<lparr>po_status := SHADOW\<rparr>) m)
           | APPROVED \<Rightarrow>
               (case approve_policy actorId p m of Inl e \<Rightarrow> (Inl e, m) | Inr p1 \<Rightarrow> (Inr p1, set_policy p1 m))
           | ACTIVE \<Rightarrow>
               if po_status p \<noteq> APPROVED then (Inl OnlyFromApproved, m)
               else let m1 = activate_policy env v m in (Inr (the (getPolicy v m1)), m1)
           | SUPERSEDED \<Rightarrow> (Inr (supersede env p), set_policy (supersede env p) m)
           | DRAFT \<Rightarrow> (Inr p, m)))"

definition runShadowReplay :: "PolicyEnv \<Rightarrow> string \<Rightarrow> int \<Rightarrow> PolicyManager \<Rightarrow> (PolicyError + ShadowReplayReport) \<times> PolicyManager" where
  "runShadowReplay env v sampleSize m =
     (case getPolicy v m of
        None \<Rightarrow> (Inl (PolicyNotFound v), m)
      | Some candidate \<Rightarrow>
          (case getActivePolicy m of
             None \<Rightarrow> (Inl NoActivePolicy, m)
           | Some active \<Rightarrow>
               let report = executeStreamingShadowReplay env active candidate sampleSize
               in (Inr report, m\<lparr>pm_reports := AList.update v report (pm_reports m)\<rparr>)))"

text \<open>One step after another; the first error ends the rollback and what was done stays.\<close>

definition rollbackToVersion :: "PolicyEnv \<Rightarrow> string \<Rightarrow> string \<Rightarrow> PolicyManager \<Rightarrow> (PolicyError + ReconciliationPolicy) \<times> PolicyManager" where
  "rollbackToVersion env target actorId m =
     (case getPolicy target m of
        None \<Rightarrow> (Inl (PolicyNotFound target), m)
      | Some targetPolicy \<Rightarrow>
          (case getActivePolicy m of
             None \<Rightarrow> (Inl NoActivePolicy, m)
           | Some current \<Rightarrow>
               (let v = po_version current @ ''-rollback-to-'' @ target
                in case createDraftPolicy env \<lparr>dp_version = v, dp_rules = po_rules targetPolicy, dp_createdBy = actorId,
                          dp_description = Some (''Emergency rollback to '' @ target @ '' rules''), dp_parentVersion = Some (po_version current)\<rparr> m of
                     (Inl e, m1) \<Rightarrow> (Inl e, m1)
                   | (Inr _, m1) \<Rightarrow> (case transitionStatus env v SHADOW None m1 of
                     (Inl e, m2) \<Rightarrow> (Inl e, m2)
                   | (Inr _, m2) \<Rightarrow> (case runShadowReplay env v 1000 m2 of
                     (Inl e, m3) \<Rightarrow> (Inl e, m3)
                   | (Inr _, m3) \<Rightarrow> (case transitionStatus env v APPROVED (Some ''CONTROLLER_OVERRIDE'') m3 of
                     (Inl e, m4) \<Rightarrow> (Inl e, m4)
                   | (Inr _, m4) \<Rightarrow> transitionStatus env v ACTIVE None m4))))))"

section \<open>The endpoint\<close>

datatype PolicyRequest =
    CreateDraft string "PolicyRules option" "string option" "string option"
  | RunShadowReplay string "int option"
  | Approve string string
  | Activate string
  | Rollback string string

definition or_text :: "string option \<Rightarrow> string \<Rightarrow> string" where
  "or_text s d = (if truthy_str s then the s else d)"

fun post_policy :: "PolicyEnv \<Rightarrow> PolicyRequest \<Rightarrow> PolicyManager \<Rightarrow> nat \<times> PolicyManager" where
  "post_policy env (CreateDraft v rules createdBy description) m =
     (if v = '''' then (400, m)
      else (case createDraftPolicy env \<lparr>dp_version = v, dp_rules = (case rules of None \<Rightarrow> DEFAULT_RULES_V1 | Some r \<Rightarrow> r),
                     dp_createdBy = or_text createdBy ''CONTROLLER_ADMIN'',
                     dp_description = Some (or_text description (''Draft Policy '' @ v)), dp_parentVersion = None\<rparr> m of
          (Inl e, m1) \<Rightarrow> (400, m1) | (Inr p, m1) \<Rightarrow> (200, m1)))"
| "post_policy env (RunShadowReplay v sampleSize) m =
     (if v = '''' then (400, m)
      else let count = (case sampleSize of None \<Rightarrow> 10000 | Some n \<Rightarrow> if n = 0 then 10000 else n);
               m1 = (case getPolicy v m of None \<Rightarrow> m
                     | Some p \<Rightarrow> if po_status p = DRAFT then snd (transitionStatus env v SHADOW None m) else m)
           in (case runShadowReplay env v count m1 of (Inl e, m2) \<Rightarrow> (400, m2) | (Inr r, m2) \<Rightarrow> (200, m2)))"
| "post_policy env (Approve v actorId) m =
     (if v = '''' \<or> actorId = '''' then (400, m)
      else (case transitionStatus env v APPROVED (Some actorId) m of (Inl e, m1) \<Rightarrow> (400, m1) | (Inr p, m1) \<Rightarrow> (200, m1)))"
| "post_policy env (Activate v) m =
     (if v = '''' then (400, m)
      else (case transitionStatus env v ACTIVE None m of (Inl e, m1) \<Rightarrow> (400, m1) | (Inr p, m1) \<Rightarrow> (200, m1)))"
| "post_policy env (Rollback target actorId) m =
     (if target = '''' \<or> actorId = '''' then (400, m)
      else (case rollbackToVersion env target actorId m of (Inl e, m1) \<Rightarrow> (400, m1) | (Inr p, m1) \<Rightarrow> (200, m1)))"

inductive manager_run :: "ReconciliationPolicy \<Rightarrow> PolicyManager \<Rightarrow> bool" for p0 where
  fresh: "manager_run p0 (new_manager p0)"
| request: "manager_run p0 m \<Longrightarrow> manager_run p0 (snd (post_policy env r m))"

end
