(* ===== verification/Policy_Correct.thy ===== *)
theory Policy_Correct
  imports Policy_Manager
begin

text \<open>
  What a policy decides automatically, what the shadow replay measures, and the governance every
  sequence of requests to the endpoint keeps, with the request that gets around it.
\<close>

section \<open>Evaluation\<close>

lemma note_rule_simps [simp]:
  "el_confidence (note_rule r s e) = el_confidence e" "el_decision (note_rule r s e) = el_decision e"
  "el_risk (note_rule r s e) = el_risk e" "el_escalation (note_rule r s e) = el_escalation e"
  "el_makerChecker (note_rule r s e) = el_makerChecker e"
  by (simp_all add: note_rule_def)

lemma provider_rule_simps [simp]:
  "el_decision (provider_rule rules cx e) = el_decision e" "el_risk (provider_rule rules cx e) = el_risk e"
  "el_escalation (provider_rule rules cx e) = el_escalation e"
  by (simp_all add: provider_rule_def split: option.split)

lemma later_rules_simps [simp]:
  "el_decision (maker_checker_rule rules cx d e) = el_decision e" "el_confidence (maker_checker_rule rules cx d e) = el_confidence e"
  "el_risk (maker_checker_rule rules cx d e) = el_risk e" "el_escalation (maker_checker_rule rules cx d e) = el_escalation e"
  "el_decision (escalation_rule rules cx d e) = el_decision e" "el_confidence (escalation_rule rules cx d e) = el_confidence e"
  "el_confidence (materiality_rule env rules d e) = el_confidence e" "el_escalation (materiality_rule env rules d e) = el_escalation e"
  by (simp_all add: maker_checker_rule_def escalation_rule_def materiality_rule_def)

lemmas rule_defs = amount_rule_def timing_rule_def materiality_rule_def escalation_rule_def confidence_rule_def start_evaluation_def

definition discrepancy_of :: "PolicyEvaluationContext \<Rightarrow> int" where
  "discrepancy_of cx = \<bar>case cx_discrepancy cx of None \<Rightarrow> 0 | Some d \<Rightarrow> d\<bar>"

definition delay_of :: "PolicyEvaluationContext \<Rightarrow> int" where
  "delay_of cx = \<bar>case cx_timeDeltaHours cx of None \<Rightarrow> 0 | Some h \<Rightarrow> h\<bar>"

text \<open>
  A policy matches automatically only what it tolerates: within the amount tolerance when there is
  a discrepancy, inside the settlement window, below materiality, and with the confidence it asks for.
  Every score is between 0 and 100, and an escalation is always CRITICAL.
\<close>

theorem policy_auto_match_sound:
  "(ev_decision (evaluatePolicy env p cx) = AUTO_MATCH \<longrightarrow>
      (discrepancy_of cx = 0 \<or> discrepancy_of cx \<le> ru_amountTolerance (po_rules p))
    \<and> delay_of cx \<le> ru_toleranceWindowHours (po_rules p)
    \<and> discrepancy_of cx < ru_materialityThreshold (po_rules p)
    \<and> min 100 (ev_confidenceScore (evaluatePolicy env p cx)) \<ge> min 100 (ru_autoMatchMin (po_rules p)))
   \<and> 0 \<le> ev_confidenceScore (evaluatePolicy env p cx) \<and> ev_confidenceScore (evaluatePolicy env p cx) \<le> 100
   \<and> (ev_requiresEscalation (evaluatePolicy env p cx) \<longleftrightarrow> ev_riskLevel (evaluatePolicy env p cx) = CRITICAL)"
proof -
  let ?d = "discrepancy_of cx" and ?h = "delay_of cx" and ?r = "po_rules p"
  have nonneg: "0 \<le> ?d" by (simp add: discrepancy_of_def)
  let ?e1 = "timing_rule ?r ?h (amount_rule ?r ?d start_evaluation)"
  let ?e = "confidence_rule ?r (escalation_rule ?r cx ?d (maker_checker_rule ?r cx ?d (materiality_rule env ?r ?d (provider_rule ?r cx ?e1))))"
  have fields: "ev_decision (evaluatePolicy env p cx) = el_decision ?e" "ev_confidenceScore (evaluatePolicy env p cx) = max 0 (min 100 (el_confidence ?e))"
    "ev_requiresEscalation (evaluatePolicy env p cx) = el_escalation ?e" "ev_riskLevel (evaluatePolicy env p cx) = el_risk ?e"
    unfolding evaluatePolicy_def discrepancy_of_def delay_of_def by (simp_all add: Let_def)
  have early: "el_decision ?e1 = AUTO_MATCH \<longleftrightarrow> (?d \<le> 0 \<or> ?d \<le> ru_amountTolerance ?r) \<and> ?h \<le> ru_toleranceWindowHours ?r"
    "el_risk ?e1 \<noteq> CRITICAL" "\<not> el_escalation ?e1"
    by (auto simp: rule_defs)
  have match: "el_decision ?e = AUTO_MATCH \<longleftrightarrow> el_decision ?e1 = AUTO_MATCH \<and> ?d < ru_materialityThreshold ?r \<and> ru_autoMatchMin ?r \<le> el_confidence ?e"
    by (auto simp: confidence_rule_def materiality_rule_def)
  have esc: "el_escalation ?e \<longleftrightarrow> el_risk ?e = CRITICAL"
    using early(2,3) by (auto simp: confidence_rule_def escalation_rule_def materiality_rule_def)
  show ?thesis unfolding fields match esc using early(1) nonneg by (auto simp: max_def min_def)
qed

section \<open>Shadow replay\<close>

lemma stream_empty: "n \<le> 0 \<Longrightarrow> generateRealisticEvaluationStream n seed = []"
  by (simp add: generateRealisticEvaluationStream_def)

lemma upto_split: "a \<le> b \<Longrightarrow> b \<le> c \<Longrightarrow> [a + 1..b] @ [b + 1..c] = [a + 1..(c :: int)]"
proof (induction "nat (b - a)" arbitrary: a)
  case 0
  then show ?case by simp
next
  case (Suc k)
  then have "a + 1 \<le> b" by linarith
  moreover have "k = nat (b - (a + 1))" using Suc.hyps(2) by linarith
  ultimately have "[a + 1 + 1..b] @ [b + 1..c] = [a + 1 + 1..c]" using Suc.hyps(1) [of "a + 1"] Suc.prems by simp
  moreover have "[a + 1..b] = (a + 1) # [a + 1 + 1..b]" "[a + 1..c] = (a + 1) # [a + 1 + 1..c]"
    using \<open>a + 1 \<le> b\<close> Suc.prems by (simp_all add: upto_rec1)
  ultimately show ?case by simp
qed

lemma stream_concat:
  "0 < chunk \<Longrightarrow> offset \<le> n \<Longrightarrow> concat (stream_from seed chunk n offset) = map (stream_context seed) [offset + 1..n]"
proof (induction seed chunk n offset rule: stream_from.induct)
  case (1 seed chunk n offset)
  show ?case
  proof (cases "n \<le> offset")
    case True
    with "1.prems" show ?thesis by (simp add: stream_from.simps)
  next
    case False
    let ?next = "offset + min chunk (n - offset)"
    have step: "stream_from seed chunk n offset = map (stream_context seed) [offset + 1..?next] # stream_from seed chunk n (offset + chunk)"
      using False "1.prems" by (subst stream_from.simps) simp
    show ?thesis
    proof (cases "offset + chunk \<le> n")
      case True
      then have nx: "?next = offset + chunk" by simp
      have "concat (stream_from seed chunk n (offset + chunk)) = map (stream_context seed) [offset + chunk + 1..n]"
        using "1.IH" "1.prems" False True by simp
      moreover have "[offset + 1..offset + chunk] @ [offset + chunk + 1..n] = [offset + 1..n]"
        using "1.prems" True by (intro upto_split) simp_all
      ultimately show ?thesis unfolding step nx by (simp flip: map_append)
    next
      case past: False
      then have "?next = n" "stream_from seed chunk n (offset + chunk) = []" by (simp_all add: stream_from.simps)
      then show ?thesis unfolding step by simp
    qed
  qed
qed

lemma stream_all: "concat (generateRealisticEvaluationStream n seed) = map (stream_context seed) [1..n]"
proof (cases "n \<le> 0")
  case False
  then show ?thesis using stream_concat [of "min 1000 n" 0 n seed] by (simp add: generateRealisticEvaluationStream_def)
qed (simp add: stream_empty)

lemma fold_chunks: "fold (\<lambda>chunk t. fold f chunk t) chunks t = fold f (concat chunks) t"
  by (induction chunks arbitrary: t) simp_all

definition replay_totals :: "PolicyEnv \<Rightarrow> ReconciliationPolicy \<Rightarrow> ReconciliationPolicy \<Rightarrow> int \<Rightarrow> ReplayTotals" where
  "replay_totals env a c n = fold (replay_record env a c) (map (stream_context 20260821) [1..n]) zero_totals"

lemma replay_fields:
  "sr_recordsEvaluated (executeStreamingShadowReplay env a c n) = rt_processed (replay_totals env a c n)"
  "sr_autoMatchDeltaPct (executeStreamingShadowReplay env a c n)
     = delta_pct (rt_candidateMatches (replay_totals env a c n) - rt_baselineMatches (replay_totals env a c n)) (rt_processed (replay_totals env a c n))"
  "sr_atRiskDelta (executeStreamingShadowReplay env a c n)
     = rt_candidateAtRisk (replay_totals env a c n) - rt_baselineAtRisk (replay_totals env a c n)"
  "sr_invariantViolations (executeStreamingShadowReplay env a c n) = rt_invariantViolations (replay_totals env a c n)"
  "sr_canPromote (executeStreamingShadowReplay env a c n) = (promotion_blockers (replay_totals env a c n) = [])"
  "sr_safetyScore (executeStreamingShadowReplay env a c n) =
     (if promotion_blockers (replay_totals env a c n) \<noteq> [] then BLOCKED
      else if rt_newlyRisky (replay_totals env a c n) > 0
         \<or> rt_candidateAtRisk (replay_totals env a c n) - rt_baselineAtRisk (replay_totals env a c n) > 0 then CAUTION else SAFE)"
  by (simp_all add: executeStreamingShadowReplay_def replay_totals_def fold_chunks stream_all Let_def)

text \<open>Whatever the two policies, the loop counts its records and never an invariant violation.\<close>

lemma replay_counts:
  "rt_processed (fold (replay_record env a c) xs t) = rt_processed t + int (length xs)"
  "rt_invariantViolations (fold (replay_record env a c) xs t) = rt_invariantViolations t"
  by (induction xs arbitrary: t) (simp_all add: replay_record_def one_if_def Let_def)

text \<open>A policy against itself: nothing is new and both sides agree.\<close>

lemma replay_self:
  assumes "rt_candidateMatches t = rt_baselineMatches t" "rt_candidateAtRisk t = rt_baselineAtRisk t" "rt_newlyRisky t = 0" "rt_newlyUnmatched t = 0"
  shows "rt_candidateMatches (fold (replay_record env p p) xs t) = rt_baselineMatches (fold (replay_record env p p) xs t)
    \<and> rt_candidateAtRisk (fold (replay_record env p p) xs t) = rt_baselineAtRisk (fold (replay_record env p p) xs t)
    \<and> rt_newlyRisky (fold (replay_record env p p) xs t) = 0 \<and> rt_newlyUnmatched (fold (replay_record env p p) xs t) = 0"
  using assms
proof (induction xs arbitrary: t)
  case (Cons x xs)
  have "rt_candidateMatches (replay_record env p p x t) = rt_baselineMatches (replay_record env p p x t)"
    "rt_candidateAtRisk (replay_record env p p x t) = rt_baselineAtRisk (replay_record env p p x t)"
    "rt_newlyRisky (replay_record env p p x t) = 0" "rt_newlyUnmatched (replay_record env p p x t) = 0"
    using Cons.prems by (auto simp: replay_record_def one_if_def Let_def)
  from Cons.IH [OF this] show ?case by simp
qed simp

lemma self_totals:
  "rt_candidateMatches (replay_totals env p p n) = rt_baselineMatches (replay_totals env p p n)"
  "rt_candidateAtRisk (replay_totals env p p n) = rt_baselineAtRisk (replay_totals env p p n)"
  "rt_newlyRisky (replay_totals env p p n) = 0" "rt_newlyUnmatched (replay_totals env p p n) = 0"
  "rt_processed (replay_totals env p p n) = max 0 n" "rt_invariantViolations (replay_totals env p p n) = 0"
  using replay_self [of zero_totals env p "map (stream_context 20260821) [1..n]"]
    replay_counts [of env p p "map (stream_context 20260821) [1..n]" zero_totals]
  by (auto simp: replay_totals_def zero_totals_def)

text \<open>The counts of criticals do not depend on the clock either.\<close>

lemma evaluate_env:
  "ev_decision (evaluatePolicy env p cx) = ev_decision (evaluatePolicy env' p cx)"
  "ev_riskLevel (evaluatePolicy env p cx) = ev_riskLevel (evaluatePolicy env' p cx)"
proof -
  let ?d = "discrepancy_of cx" and ?h = "delay_of cx" and ?r = "po_rules p"
  let ?e1 = "provider_rule ?r cx (timing_rule ?r ?h (amount_rule ?r ?d start_evaluation))"
  have f: "ev_decision (evaluatePolicy e p cx) = el_decision (confidence_rule ?r (escalation_rule ?r cx ?d (maker_checker_rule ?r cx ?d (materiality_rule e ?r ?d ?e1))))"
    "ev_riskLevel (evaluatePolicy e p cx) = el_risk (confidence_rule ?r (escalation_rule ?r cx ?d (maker_checker_rule ?r cx ?d (materiality_rule e ?r ?d ?e1))))" for e
    unfolding evaluatePolicy_def discrepancy_of_def delay_of_def by (simp_all add: Let_def)
  show "ev_decision (evaluatePolicy env p cx) = ev_decision (evaluatePolicy env' p cx)"
    "ev_riskLevel (evaluatePolicy env p cx) = ev_riskLevel (evaluatePolicy env' p cx)"
    unfolding f by (simp_all add: confidence_rule_def escalation_rule_def materiality_rule_def)
qed

lemma critical_env: "rt_critical t = rt_critical t' \<Longrightarrow>
   rt_critical (fold (replay_record env a p) xs t) = rt_critical (fold (replay_record env' a p) xs t')"
proof (induction xs arbitrary: t t')
  case (Cons x xs)
  have "rt_critical (replay_record env a p x t) = rt_critical (replay_record env' a p x t')"
    using Cons.prems evaluate_env(2) [of env p x env'] by (simp add: replay_record_def Let_def)
  from Cons.IH [OF this] show ?case by simp
qed simp

text \<open>
  The determinism check of the replay, run at any two times, passes exactly when there is a record
  to replay: with none, it compares two undefined percentages and reports a divergence.
\<close>

theorem replay_determinism_check:
  "fst (verifyPolicyReplayDeterminism env1 env2 p n) \<longleftrightarrow> 0 < n"
proof -
  have pct: "sr_autoMatchDeltaPct (executeStreamingShadowReplay env p p n) = (if 0 < n then Some 0 else None)" for env
    by (auto simp: replay_fields self_totals delta_pct_def js_round_div_def)
  have risk: "sr_atRiskDelta (executeStreamingShadowReplay env p p n) = 0" for env by (simp add: replay_fields self_totals)
  have "promotion_blockers (replay_totals env1 p p n) = promotion_blockers (replay_totals env2 p p n)"
    using critical_env [of zero_totals zero_totals env1 p p _ env2]
    by (simp add: promotion_blockers_def self_totals) (simp add: replay_totals_def)
  then have score: "sr_safetyScore (executeStreamingShadowReplay env1 p p n) = sr_safetyScore (executeStreamingShadowReplay env2 p p n)"
    by (simp add: replay_fields self_totals)
  have records: "sr_recordsEvaluated (executeStreamingShadowReplay env1 p p n) = sr_recordsEvaluated (executeStreamingShadowReplay env2 p p n)"
    by (simp add: replay_fields self_totals)
  show ?thesis using score records by (simp add: verifyPolicyReplayDeterminism_def Let_def pct risk number_differs_def)
qed

lemma empty_totals: "n \<le> 0 \<Longrightarrow> replay_totals env a c n = zero_totals"
  by (simp add: replay_totals_def)

lemma empty_replay_promotes: "n \<le> 0 \<Longrightarrow> sr_canPromote (executeStreamingShadowReplay env a c n)"
  by (simp add: replay_fields empty_totals promotion_blockers_def zero_totals_def)

section \<open>Governance\<close>

lemma set_policy_simps [simp]:
  "getPolicy v (set_policy p m) = (if v = po_version p then Some p else getPolicy v m)"
  "pm_activeVersion (set_policy p m) = pm_activeVersion m" "pm_reports (set_policy p m) = pm_reports m"
  by (simp_all add: set_policy_def getPolicy_def update_conv')

lemma other_fields_simps [simp]:
  "getPolicy v (m\<lparr>pm_reports := r\<rparr>) = getPolicy v m" "getPolicy v (m\<lparr>pm_activeVersion := w\<rparr>) = getPolicy v m"
  by (simp_all add: getPolicy_def)

lemma active_lookup: "getActivePolicy m = getPolicy (pm_activeVersion m) m"
  by (simp add: getActivePolicy_def getPolicy_def)

text \<open>Before approval nobody has approved; from approval on someone other than the author has.\<close>

definition reviewed :: "ReconciliationPolicy \<Rightarrow> bool" where
  "reviewed p \<longleftrightarrow> (if po_status p \<in> {DRAFT, SHADOW} then po_approvedBy p = None
     else (\<exists>a. po_approvedBy p = Some a \<and> a \<noteq> po_createdBy p))"

definition governed :: "PolicyManager \<Rightarrow> bool" where
  "governed m \<longleftrightarrow> getActivePolicy m \<noteq> None \<and>
     (\<forall>v p. getPolicy v m = Some p \<longrightarrow> po_version p = v \<and> reviewed p \<and> (po_status p = ACTIVE \<longleftrightarrow> v = pm_activeVersion m))"

lemma governedD:
  assumes "governed m" "getPolicy v m = Some p"
  shows "po_version p = v" "reviewed p" "po_status p = ACTIVE \<longleftrightarrow> v = pm_activeVersion m"
  using assms by (auto simp: governed_def)

lemma set_policy_governed:
  assumes "governed m" "reviewed p" "po_status p \<noteq> ACTIVE" "po_version p \<noteq> pm_activeVersion m"
  shows "governed (set_policy p m)"
  using assms by (auto simp: governed_def active_lookup)

lemma reports_governed: "governed m \<Longrightarrow> governed (m\<lparr>pm_reports := r\<rparr>)"
  by (simp add: governed_def active_lookup)

lemma draft_governed: "governed m \<Longrightarrow> governed (snd (createDraftPolicy env q m))"
  by (auto simp: createDraftPolicy_def Let_def reviewed_def active_lookup governed_def)

lemma activate_governed:
  assumes g: "governed m" and p: "getPolicy v m = Some p" "po_status p = APPROVED"
  shows "governed (activate_policy env v m)"
proof -
  from g obtain a where a: "getPolicy (pm_activeVersion m) m = Some a" by (auto simp: governed_def active_lookup)
  note A = governedD [OF g a] and P = governedD [OF g p(1)]
  have ne: "v \<noteq> pm_activeVersion m" using P(3) p(2) by auto
  have va: "po_version (supersede env a) = pm_activeVersion m" using A(1) by (simp add: supersede_def)
  let ?m1 = "set_policy (supersede env a) m" and ?p1 = "p\<lparr>po_status := ACTIVE, po_activatedAt := Some (pe_now env)\<rparr>"
  have act: "activate_policy env v m = (set_policy ?p1 ?m1)\<lparr>pm_activeVersion := v\<rparr>"
    using a ne va p(1) P(1) by (simp add: activate_policy_def active_lookup)
  have "reviewed (supersede env a)" "reviewed ?p1" using A P p(2) by (auto simp: reviewed_def supersede_def)
  moreover have "po_status (supersede env a) = SUPERSEDED" by (simp add: supersede_def)
  ultimately show ?thesis unfolding act governed_def active_lookup
    using governedD [OF g] P(1) va ne by (auto split: if_splits)
qed

lemma transition_governed:
  assumes g: "governed m" and s: "newStatus \<noteq> SUPERSEDED"
  shows "governed (snd (transitionStatus env v newStatus actorId m))"
proof (cases "getPolicy v m")
  case None
  with g show ?thesis by (simp add: transitionStatus_def)
next
  case (Some p)
  note P = governedD [OF g Some]
  show ?thesis
  proof (cases newStatus)
    case SHADOW
    have "governed (set_policy (p\<lparr>po_status := SHADOW\<rparr>) m)" if "po_status p = DRAFT"
      using that P by (intro set_policy_governed [OF g]) (auto simp: reviewed_def)
    with SHADOW Some g show ?thesis by (simp add: transitionStatus_def)
  next
    case APPROVED
    show ?thesis
    proof (cases "approve_policy actorId p m")
      case (Inr p1)
      then have p1: "p1 = p\<lparr>po_status := APPROVED, po_approvedBy := actorId\<rparr>" "po_status p = SHADOW" "truthy_str actorId"
        "the actorId \<noteq> po_createdBy p" by (auto simp: approve_policy_def split: if_splits)
      have "governed (set_policy p1 m)"
        using p1 P by (intro set_policy_governed [OF g]) (auto simp: reviewed_def truthy_str_def split: option.splits)
      with APPROVED Some Inr show ?thesis by (simp add: transitionStatus_def)
    qed (use APPROVED Some g in \<open>simp add: transitionStatus_def\<close>)
  next
    case ACTIVE
    with Some g activate_governed [OF g Some] show ?thesis by (simp add: transitionStatus_def Let_def)
  qed (use s Some g in \<open>simp_all add: transitionStatus_def\<close>)
qed

lemma replay_governed: "governed m \<Longrightarrow> governed (snd (runShadowReplay env v n m))"
  by (simp add: runShadowReplay_def Let_def reports_governed split: option.split)

lemma rollback_governed:
  assumes "governed m"
  shows "governed (snd (rollbackToVersion env target actorId m))"
proof -
  note D = draft_governed [where env = env] and T = transition_governed [where env = env] and R = replay_governed [where env = env]
  show ?thesis
    unfolding rollbackToVersion_def Let_def
    by (auto split: option.split sum.split prod.split simp: assms
      dest!: arg_cong [of "createDraftPolicy _ _ _" _ snd] arg_cong [of "transitionStatus _ _ _ _ _" _ snd] arg_cong [of "runShadowReplay _ _ _ _" _ snd])
       (metis D T R assms PolicyStatus.distinct snd_conv)+
qed

lemma code_pair [simp]:
  "snd (case x of (Inl e, m1) \<Rightarrow> (c, m1) | (Inr r, m1) \<Rightarrow> (d, m1)) = snd x"
  by (simp split: prod.split sum.split)

lemma post_governed:
  assumes "governed m"
  shows "governed (snd (post_policy env r m))"
proof (cases r)
  case (RunShadowReplay v sampleSize)
  have "governed (case getPolicy v m of None \<Rightarrow> m
          | Some p \<Rightarrow> if po_status p = DRAFT then snd (transitionStatus env v SHADOW None m) else m)"
    using assms by (auto intro: transition_governed split: option.split)
  then show ?thesis using RunShadowReplay assms by (simp add: Let_def replay_governed)
qed (use assms in \<open>simp_all add: draft_governed transition_governed rollback_governed\<close>)

lemma run_governed:
  assumes "manager_run p0 m" "po_status p0 = ACTIVE" "reviewed p0"
  shows "governed m"
  using assms(1)
proof (induction rule: manager_run.induct)
  case fresh
  show ?case using assms(2,3) by (auto simp: governed_def new_manager_def getPolicy_def active_lookup)
next
  case (request m env r)
  from request.IH show ?case by (rule post_governed)
qed

text \<open>
  C16. Through any requests to the endpoint, starting from a reviewed active policy, there is exactly one
  ACTIVE policy and it is the one the manager answers with; and no policy gets past SHADOW unless
  someone other than its author approved it.
\<close>

theorem policy_governance:
  assumes "manager_run p0 m" "po_status p0 = ACTIVE" "po_approvedBy p0 = Some a" "a \<noteq> po_createdBy p0"
  shows "(\<exists>p. getActivePolicy m = Some p \<and> po_status p = ACTIVE \<and> (\<forall>v q. getPolicy v m = Some q \<and> po_status q = ACTIVE \<longrightarrow> q = p))
    \<and> (\<forall>v q. getPolicy v m = Some q \<and> po_status q \<notin> {DRAFT, SHADOW} \<longrightarrow> (\<exists>b. po_approvedBy q = Some b \<and> b \<noteq> po_createdBy q))"
proof -
  have g: "governed m" using assms by (intro run_governed) (auto simp: reviewed_def)
  then obtain p where p: "getPolicy (pm_activeVersion m) m = Some p" by (auto simp: governed_def active_lookup)
  have "po_status p = ACTIVE" using governedD(3) [OF g p] by simp
  moreover have "q = p" if "getPolicy v m = Some q" "po_status q = ACTIVE" for v q
    using governedD(3) [OF g that(1)] that p by simp
  moreover have "\<exists>b. po_approvedBy q = Some b \<and> b \<noteq> po_createdBy q" if "getPolicy v m = Some q" "po_status q \<notin> {DRAFT, SHADOW}" for v q
    using governedD(2) [OF g that(1)] that(2) by (simp add: reviewed_def)
  ultimately show ?thesis using p unfolding active_lookup by blast
qed

text \<open>
  C38. The replay gate can be passed with no replay: three requests, a shadow replay over a negative
  sample, an approval and an activation, make any draft of another author the active policy, whatever
  its rules.
\<close>

theorem draft_activated_without_replay:
  assumes "governed m" "getPolicy v m = Some p" "po_status p = DRAFT" "n < 0" "v \<noteq> ''''" "actorId \<noteq> ''''" "actorId \<noteq> po_createdBy p"
  shows "\<exists>m1 m2 m3 q. post_policy env (RunShadowReplay v (Some n)) m = (200, m1) \<and> post_policy env (Approve v actorId) m1 = (200, m2)
     \<and> post_policy env (Activate v) m2 = (200, m3) \<and> getActivePolicy m3 = Some q \<and> po_rules q = po_rules p
     \<and> map_option sr_recordsEvaluated (getLatestReplayReport v m1) = Some 0"
proof -
  note P = governedD [OF assms(1,2)]
  obtain a where a: "getPolicy (pm_activeVersion m) m = Some a" using assms(1) by (auto simp: governed_def active_lookup)
  have ne: "v \<noteq> pm_activeVersion m" using P(3) assms(3) by auto
  let ?p1 = "p\<lparr>po_status := SHADOW\<rparr>"
  let ?report = "executeStreamingShadowReplay env a ?p1 n"
  let ?m1 = "(set_policy ?p1 m)\<lparr>pm_reports := AList.update v ?report (pm_reports m)\<rparr>"
  let ?p2 = "?p1\<lparr>po_status := APPROVED, po_approvedBy := Some actorId\<rparr>"
  have 1: "post_policy env (RunShadowReplay v (Some n)) m = (200, ?m1)"
    using assms(2-5) a ne P(1) by (simp add: Let_def transitionStatus_def runShadowReplay_def active_lookup)
  have prom: "sr_canPromote ?report" using assms(4) by (intro empty_replay_promotes) simp
  have rep: "getLatestReplayReport v ?m1 = Some ?report" by (simp add: getLatestReplayReport_def update_conv')
  have 2: "post_policy env (Approve v actorId) ?m1 = (200, set_policy ?p2 ?m1)"
    using assms(5-7) P(1) prom rep by (simp add: transitionStatus_def approve_policy_def truthy_str_def)
  let ?m2 = "set_policy ?p2 ?m1"
  have v2: "getPolicy v ?m2 = Some ?p2" "po_status ?p2 = APPROVED" using P(1) by simp_all
  have act: "getPolicy v (activate_policy env v ?m2) = Some (?p2\<lparr>po_status := ACTIVE, po_activatedAt := Some (pe_now env)\<rparr>)
      \<and> pm_activeVersion (activate_policy env v ?m2) = v"
    using a ne P(1) governedD(1) [OF assms(1) a] by (simp add: activate_policy_def active_lookup supersede_def)
  have 3: "post_policy env (Activate v) ?m2 = (200, activate_policy env v ?m2)"
    using assms(5) v2 by (simp add: transitionStatus_def Let_def)
  have "getActivePolicy (activate_policy env v ?m2) = Some (?p2\<lparr>po_status := ACTIVE, po_activatedAt := Some (pe_now env)\<rparr>)"
    using act by (simp add: active_lookup)
  moreover have "sr_recordsEvaluated ?report = 0" using assms(4) by (simp add: replay_fields empty_totals zero_totals_def)
  ultimately show ?thesis using 1 2 3 rep by fastforce
qed

section \<open>A permissive draft\<close>

definition sample_policy_env :: PolicyEnv where
  "sample_policy_env = \<lparr>pe_sha = id, pe_rupees = js_show_int, pe_now = 1767300000000, pe_elapsed = 5\<rparr>"

definition permissive_rules :: PolicyRules where
  "permissive_rules = DEFAULT_RULES_V1\<lparr>ru_amountTolerance := 100000000, ru_materialityThreshold := 100000000\<rparr>"

definition with_draft :: PolicyManager where
  "with_draft = snd (post_policy sample_policy_env (CreateDraft ''2.0.0'' (Some permissive_rules) (Some ''ravi'') None)
     (new_manager (DEFAULT_POLICY sample_policy_env)))"

lemma with_draft_run: "manager_run (DEFAULT_POLICY sample_policy_env) with_draft"
  unfolding with_draft_def by (intro manager_run.intros)

lemma default_reviewed: "po_status (DEFAULT_POLICY env) = ACTIVE" "po_approvedBy (DEFAULT_POLICY env) = Some ''CHIEF_RISK_OFFICER''"
  "''CHIEF_RISK_OFFICER'' \<noteq> po_createdBy (DEFAULT_POLICY env)" "reviewed (DEFAULT_POLICY env)"
  by (simp_all add: DEFAULT_POLICY_def reviewed_def)

lemma draft_lookup:
  obtains p where "getPolicy ''2.0.0'' with_draft = Some p" "po_status p = DRAFT" "po_rules p = permissive_rules" "po_createdBy p = ''ravi''"
  using that by (auto simp: with_draft_def createDraftPolicy_def new_manager_def DEFAULT_POLICY_def getPolicy_def set_policy_def
      or_text_def truthy_str_def Let_def)

theorem policy_governance_witness:
  "\<exists>p. getActivePolicy with_draft = Some p \<and> po_status p = ACTIVE"
  using policy_governance [OF with_draft_run default_reviewed(1-3)] by auto

theorem draft_activated_without_replay_witness:
  "\<exists>m1 m2 m3 q. post_policy sample_policy_env (RunShadowReplay ''2.0.0'' (Some (- 1))) with_draft = (200, m1)
     \<and> post_policy sample_policy_env (Approve ''2.0.0'' ''asha'') m1 = (200, m2) \<and> post_policy sample_policy_env (Activate ''2.0.0'') m2 = (200, m3)
     \<and> getActivePolicy m3 = Some q \<and> po_rules q = permissive_rules"
proof -
  obtain p where p: "getPolicy ''2.0.0'' with_draft = Some p" "po_status p = DRAFT" "po_rules p = permissive_rules" "po_createdBy p = ''ravi''"
    by (rule draft_lookup)
  have g: "governed with_draft" by (rule run_governed [OF with_draft_run default_reviewed(1,4)])
  have "(- 1 :: int) < 0" "''2.0.0'' \<noteq> ''''" "''asha'' \<noteq> ''''" "''asha'' \<noteq> po_createdBy p" using p(4) by simp_all
  from draft_activated_without_replay [OF g p(1,2) this, of sample_policy_env] p(3) show ?thesis by metis
qed

theorem policy_auto_match_sound_witness:
  "ev_decision (evaluatePolicy sample_policy_env (DEFAULT_POLICY sample_policy_env) (stream_context 20260821 1)) = AUTO_MATCH
   \<and> delay_of (stream_context 20260821 1) \<le> 72"
proof -
  let ?cx = "stream_context 20260821 1" and ?p = "DEFAULT_POLICY sample_policy_env"
  have cx: "cx_amount ?cx = 51000" "cx_discrepancy ?cx = Some 0" "cx_timeDeltaHours ?cx = Some 7" "cx_provider ?cx = Some ''RAZORPAY''"
    "cx_paymentMethod ?cx = Some ''UPI''"
    by (simp_all add: stream_context_def Let_def)
  let ?r = DEFAULT_RULES_V1
  have quiet: "amount_rule ?r 0 start_evaluation = start_evaluation" "timing_rule ?r 7 start_evaluation = start_evaluation"
    "provider_rule ?r ?cx start_evaluation = start_evaluation" "materiality_rule sample_policy_env ?r 0 start_evaluation = start_evaluation"
    "maker_checker_rule ?r ?cx 0 start_evaluation = start_evaluation" "escalation_rule ?r ?cx 0 start_evaluation = start_evaluation"
    "confidence_rule ?r start_evaluation = start_evaluation"
    by (simp_all add: amount_rule_def timing_rule_def provider_rule_def materiality_rule_def maker_checker_rule_def escalation_rule_def
        confidence_rule_def cx DEFAULT_RULES_V1_def truthy_str_def) (simp add: start_evaluation_def)
  have rules: "po_rules ?p = ?r" by (simp add: DEFAULT_POLICY_def)
  have d: "ev_decision (evaluatePolicy sample_policy_env ?p ?cx) = AUTO_MATCH"
    by (simp add: evaluatePolicy_def Let_def rules cx quiet) (simp add: start_evaluation_def)
  moreover have "ru_toleranceWindowHours (po_rules (DEFAULT_POLICY sample_policy_env)) = 72"
    by (simp add: DEFAULT_POLICY_def DEFAULT_RULES_V1_def)
  ultimately show ?thesis
    using policy_auto_match_sound [of sample_policy_env "DEFAULT_POLICY sample_policy_env" "stream_context 20260821 1"] by simp
qed

end
