(* ===== verification/Rate_Limits.thy ===== *)
theory Rate_Limits
  imports Prelude
begin

text \<open>
  The two rate limiters: the sliding window of \<open>src/lib/security/distributed-rate-limiter.ts\<close>, whose
  Redis branch the constructor never enables, and the fixed window of \<open>src/lib/auth/rate-limiter.ts\<close>.
  Times are milliseconds; a request that gives none, or zero, is counted at the clock's time.
\<close>

section \<open>The sliding window\<close>

datatype RateLimitTier = AUTH | API_V1 | STREAM_INGEST | AI_INSPECTOR | WEBHOOK_ADMIN | DEFAULT

fun tier_text :: "RateLimitTier \<Rightarrow> string" where
  "tier_text AUTH = ''AUTH''"
| "tier_text API_V1 = ''API_V1''"
| "tier_text STREAM_INGEST = ''STREAM_INGEST''"
| "tier_text AI_INSPECTOR = ''AI_INSPECTOR''"
| "tier_text WEBHOOK_ADMIN = ''WEBHOOK_ADMIN''"
| "tier_text DEFAULT = ''DEFAULT''"

datatype FailureMode = FAIL_CLOSED | DEGRADED_LOCAL

record TierConfig =
  tc_maxRequests :: nat
  tc_windowMs :: millis
  tc_failureMode :: FailureMode

fun RATE_LIMIT_TIERS :: "RateLimitTier \<Rightarrow> TierConfig" where
  "RATE_LIMIT_TIERS AUTH = \<lparr>tc_maxRequests = 10, tc_windowMs = 60000, tc_failureMode = FAIL_CLOSED\<rparr>"
| "RATE_LIMIT_TIERS API_V1 = \<lparr>tc_maxRequests = 120, tc_windowMs = 60000, tc_failureMode = DEGRADED_LOCAL\<rparr>"
| "RATE_LIMIT_TIERS STREAM_INGEST = \<lparr>tc_maxRequests = 300, tc_windowMs = 60000, tc_failureMode = DEGRADED_LOCAL\<rparr>"
| "RATE_LIMIT_TIERS AI_INSPECTOR = \<lparr>tc_maxRequests = 20, tc_windowMs = 60000, tc_failureMode = DEGRADED_LOCAL\<rparr>"
| "RATE_LIMIT_TIERS WEBHOOK_ADMIN = \<lparr>tc_maxRequests = 30, tc_windowMs = 60000, tc_failureMode = DEGRADED_LOCAL\<rparr>"
| "RATE_LIMIT_TIERS DEFAULT = \<lparr>tc_maxRequests = 60, tc_windowMs = 60000, tc_failureMode = DEGRADED_LOCAL\<rparr>"

record RateLimitResult =
  rl_allowed :: bool
  rl_limit :: nat
  rl_remaining :: nat
  rl_resetAt :: millis
  rl_retryAfterSeconds :: int
  rl_tier :: RateLimitTier

record RateRequest =
  rq_tenantId :: ident
  rq_clientId :: ident
  rq_tier :: RateLimitTier
  rq_now :: "millis option"

type_synonym WindowLogs = "string \<rightharpoonup> millis list"

definition limit_key :: "ident \<Rightarrow> RateLimitTier \<Rightarrow> ident \<Rightarrow> string" where
  "limit_key tenant tier client = ''ratelimit:'' @ tenant @ '':'' @ tier_text tier @ '':'' @ client"

definition request_time :: "millis \<Rightarrow> RateRequest \<Rightarrow> millis" where
  "request_time clock q = (case rq_now q of None \<Rightarrow> clock | Some n \<Rightarrow> if n = 0 then clock else n)"

text \<open>\<open>Math.ceil(ms / 1000)\<close>.\<close>

definition ceil_seconds :: "millis \<Rightarrow> int" where
  "ceil_seconds ms = - ((- ms) div 1000)"

definition checkLimit :: "millis \<Rightarrow> RateRequest \<Rightarrow> WindowLogs \<Rightarrow> RateLimitResult \<times> WindowLogs" where
  "checkLimit clock q logs =
     (let now = request_time clock q; config = RATE_LIMIT_TIERS (rq_tier q); windowStart = now - tc_windowMs config;
          key = limit_key (rq_tenantId q) (rq_tier q) (rq_clientId q);
          log = filter (\<lambda>ts. ts > windowStart) (case logs key of None \<Rightarrow> [] | Some l \<Rightarrow> l)
      in if length log \<ge> tc_maxRequests config
         then let oldest = (case log of [] \<Rightarrow> now | ts # _ \<Rightarrow> if ts = 0 then now else ts);
                  resetAt = oldest + tc_windowMs config
              in (\<lparr>rl_allowed = False, rl_limit = tc_maxRequests config, rl_remaining = 0, rl_resetAt = resetAt,
                   rl_retryAfterSeconds = max 1 (ceil_seconds (resetAt - now)), rl_tier = rq_tier q\<rparr>, logs(key \<mapsto> log))
         else let log1 = log @ [now]
              in (\<lparr>rl_allowed = True, rl_limit = tc_maxRequests config, rl_remaining = tc_maxRequests config - length log1,
                   rl_resetAt = now + tc_windowMs config, rl_retryAfterSeconds = 0, rl_tier = rq_tier q\<rparr>, logs(key \<mapsto> log1)))"

definition reset_limit :: "ident \<Rightarrow> ident \<Rightarrow> RateLimitTier \<Rightarrow> WindowLogs \<Rightarrow> WindowLogs" where
  "reset_limit tenant client tier logs = logs(limit_key tenant tier client := None)"

section \<open>The fixed window\<close>

record RateLimitOptions =
  ro_windowMs :: millis
  ro_maxRequests :: nat

record ClientRecord =
  cl_count :: nat
  cl_resetAt :: millis

record FixedResult =
  fx_allowed :: bool
  fx_remaining :: int
  fx_resetAt :: millis

type_synonym Clients = "ident \<rightharpoonup> ClientRecord"

definition check_client :: "RateLimitOptions \<Rightarrow> ident \<Rightarrow> millis \<Rightarrow> Clients \<Rightarrow> FixedResult \<times> Clients" where
  "check_client opts client now cs =
     (let start = \<lparr>cl_count = 1, cl_resetAt = now + ro_windowMs opts\<rparr>;
          fresh = (\<lparr>fx_allowed = True, fx_remaining = int (ro_maxRequests opts) - 1, fx_resetAt = cl_resetAt start\<rparr>, cs(client \<mapsto> start))
      in case cs client of
           None \<Rightarrow> fresh
         | Some r \<Rightarrow>
             if cl_resetAt r \<le> now then fresh
             else if cl_count r \<ge> ro_maxRequests opts
             then (\<lparr>fx_allowed = False, fx_remaining = 0, fx_resetAt = cl_resetAt r\<rparr>, cs)
             else let r1 = r\<lparr>cl_count := cl_count r + 1\<rparr>
                  in (\<lparr>fx_allowed = True, fx_remaining = int (ro_maxRequests opts) - int (cl_count r1), fx_resetAt = cl_resetAt r\<rparr>,
                      cs(client \<mapsto> r1)))"

definition reset_client :: "ident \<Rightarrow> Clients \<Rightarrow> Clients" where
  "reset_client client cs = cs(client := None)"

definition authRateLimiter :: RateLimitOptions where
  "authRateLimiter = \<lparr>ro_windowMs = 60000, ro_maxRequests = 10\<rparr>"

definition apiRateLimiter :: RateLimitOptions where
  "apiRateLimiter = \<lparr>ro_windowMs = 60000, ro_maxRequests = 120\<rparr>"

section \<open>The bound of the sliding window\<close>

text \<open>One log on its own: what a request does to it, and the times it has let through.\<close>

definition slide :: "millis \<Rightarrow> nat \<Rightarrow> millis \<Rightarrow> millis list \<Rightarrow> bool \<times> millis list" where
  "slide w k now log = (let log1 = filter (\<lambda>ts. ts > now - w) log
     in if length log1 \<ge> k then (False, log1) else (True, log1 @ [now]))"

text \<open>
  What a log remembers of the times \<open>as\<close> it let through: those the window of the last request still
  holds, and never more than the limit.
\<close>

definition remembers :: "millis \<Rightarrow> nat \<Rightarrow> millis \<Rightarrow> millis list \<Rightarrow> millis list \<Rightarrow> bool" where
  "remembers w k prev as log \<longleftrightarrow> log = filter (\<lambda>ts. ts > prev - w) as \<and> length log \<le> k \<and> (\<forall>t \<in> set as. t \<le> prev)"

definition in_window :: "millis \<Rightarrow> millis \<Rightarrow> millis list \<Rightarrow> nat" where
  "in_window w x as = length (filter (\<lambda>t. x - w < t \<and> t \<le> x) as)"

lemma slide_remembers:
  assumes "remembers w k prev as log" "prev \<le> now" "\<forall>x. in_window w x as \<le> k" "0 < w"
  shows "remembers w k now (if fst (slide w k now log) then as @ [now] else as) (snd (slide w k now log))
    \<and> (\<forall>x. in_window w x (if fst (slide w k now log) then as @ [now] else as) \<le> k)"
proof -
  let ?log1 = "filter (\<lambda>ts. ts > now - w) as"
  have log1: "filter (\<lambda>ts. ts > now - w) log = ?log1"
  proof -
    have "filter (\<lambda>ts. ts > now - w) (filter (\<lambda>ts. ts > prev - w) as) = ?log1"
      using assms(2) by (auto simp: intro!: filter_cong)
    with assms(1) show ?thesis by (simp add: remembers_def)
  qed
  have le: "\<forall>t \<in> set as. t \<le> now" using assms(1,2) by (auto simp: remembers_def)
  show ?thesis
  proof (cases "length ?log1 \<ge> k")
    case True
    have "in_window w now as = length ?log1" using le by (auto simp: in_window_def intro!: arg_cong [of _ _ length] filter_cong)
    with assms(3) have "length ?log1 \<le> k" by metis
    with True le assms(3) show ?thesis by (simp add: slide_def log1 remembers_def)
  next
    case False
    have "in_window w x (as @ [now]) \<le> k" for x
    proof (cases "x < now")
      case True
      then show ?thesis using assms(3) by (simp add: in_window_def)
    next
      case past: False
      have "filter (\<lambda>t. x - w < t \<and> t \<le> x) as = filter (\<lambda>t. x - w < t \<and> t \<le> x) ?log1"
        using past le by (auto intro!: filter_cong)
      then have "length (filter (\<lambda>t. x - w < t \<and> t \<le> x) as) \<le> length ?log1" by (metis length_filter_le)
      with False show ?thesis by (simp add: in_window_def)
    qed
    with False le assms(4) show ?thesis by (simp add: slide_def log1 remembers_def)
  qed
qed

text \<open>The limiter on one key is a slide of its log; other keys are left alone.\<close>

definition key_of :: "RateRequest \<Rightarrow> string" where
  "key_of q = limit_key (rq_tenantId q) (rq_tier q) (rq_clientId q)"

definition log_at :: "string \<Rightarrow> WindowLogs \<Rightarrow> millis list" where
  "log_at k logs = (case logs k of None \<Rightarrow> [] | Some l \<Rightarrow> l)"

lemma check_slides:
  "rl_allowed (fst (checkLimit clock q logs))
     = fst (slide (tc_windowMs (RATE_LIMIT_TIERS (rq_tier q))) (tc_maxRequests (RATE_LIMIT_TIERS (rq_tier q))) (request_time clock q) (log_at (key_of q) logs))"
  "log_at k (snd (checkLimit clock q logs)) =
     (if k = key_of q then snd (slide (tc_windowMs (RATE_LIMIT_TIERS (rq_tier q))) (tc_maxRequests (RATE_LIMIT_TIERS (rq_tier q))) (request_time clock q) (log_at k logs))
      else log_at k logs)"
  by (simp_all add: checkLimit_def slide_def log_at_def key_of_def Let_def)

text \<open>The times of the allowed requests of a key, in a run over requests with the clock's time at each.\<close>

fun allowed_times :: "string \<Rightarrow> (millis \<times> RateRequest) list \<Rightarrow> WindowLogs \<Rightarrow> millis list" where
  "allowed_times k [] logs = []"
| "allowed_times k ((clock, q) # rs) logs =
     (if key_of q = k \<and> rl_allowed (fst (checkLimit clock q logs)) then [request_time clock q] else [])
     @ allowed_times k rs (snd (checkLimit clock q logs))"

definition times_of :: "(millis \<times> RateRequest) list \<Rightarrow> millis list" where
  "times_of rs = map (\<lambda>(clock, q). request_time clock q) rs"

lemma allowed_bound:
  assumes "remembers w k prev as (log_at key logs)" "\<forall>x. in_window w x as \<le> k" "0 < w" "sorted (prev # times_of rs)"
    "\<forall>(c, q) \<in> set rs. key_of q = key \<longrightarrow> tc_windowMs (RATE_LIMIT_TIERS (rq_tier q)) = w \<and> tc_maxRequests (RATE_LIMIT_TIERS (rq_tier q)) = k"
  shows "\<forall>x. in_window w x (as @ allowed_times key rs logs) \<le> k"
  using assms
proof (induction rs arbitrary: prev as logs)
  case (Cons cq rs)
  obtain c q where cq: "cq = (c, q)" by (rule prod.exhaust)
  let ?now = "request_time c q" and ?logs1 = "snd (checkLimit c q logs)"
  have le: "prev \<le> ?now" "sorted (?now # times_of rs)" "sorted (prev # times_of rs)"
    using Cons.prems(4) by (auto simp: cq times_of_def)
  have rest: "\<forall>(c, q) \<in> set rs. key_of q = key \<longrightarrow> tc_windowMs (RATE_LIMIT_TIERS (rq_tier q)) = w \<and> tc_maxRequests (RATE_LIMIT_TIERS (rq_tier q)) = k"
    using Cons.prems(5) by simp
  show ?case
  proof (cases "key_of q = key")
    case False
    then have same: "log_at key ?logs1 = log_at key logs" by (simp add: check_slides)
    have "\<forall>x. in_window w x (as @ allowed_times key rs ?logs1) \<le> k"
      using Cons.IH [of prev as ?logs1] Cons.prems(1-3) le(3) rest by (simp add: same)
    with False show ?thesis by (simp add: cq)
  next
    case True
    then have tier: "tc_windowMs (RATE_LIMIT_TIERS (rq_tier q)) = w" "tc_maxRequests (RATE_LIMIT_TIERS (rq_tier q)) = k"
      using Cons.prems(5) by (auto simp: cq)
    let ?as1 = "if fst (slide w k ?now (log_at key logs)) then as @ [?now] else as"
    have "remembers w k ?now ?as1 (log_at key ?logs1)" "\<forall>x. in_window w x ?as1 \<le> k"
      using slide_remembers [OF Cons.prems(1) le(1) Cons.prems(2,3)] True tier by (simp_all add: check_slides)
    from Cons.IH [OF this Cons.prems(3) le(2) rest]
    have "\<forall>x. in_window w x (?as1 @ allowed_times key rs ?logs1) \<le> k" .
    moreover have "as @ allowed_times key (cq # rs) logs = ?as1 @ allowed_times key rs ?logs1"
      using True tier by (simp add: cq check_slides)
    ultimately show ?thesis by simp
  qed
qed simp

text \<open>
  C24. The sliding window holds its promise on a clock that does not go back: from an empty limiter,
  whatever other clients do, no window of a tier's length contains more allowed requests of one tenant,
  tier and client than the tier's limit, at whatever instant the window ends.
\<close>

theorem sliding_window_bound:
  assumes "sorted (times_of rs)" "\<forall>(c, q) \<in> set rs. key_of q = limit_key tenant tier client \<longrightarrow> rq_tier q = tier"
  shows "in_window (tc_windowMs (RATE_LIMIT_TIERS tier)) x (allowed_times (limit_key tenant tier client) rs Map.empty)
           \<le> tc_maxRequests (RATE_LIMIT_TIERS tier)"
proof (cases rs)
  case Nil
  then show ?thesis by (simp add: in_window_def)
next
  case (Cons cq rs')
  let ?key = "limit_key tenant tier client" and ?w = "tc_windowMs (RATE_LIMIT_TIERS tier)" and ?k = "tc_maxRequests (RATE_LIMIT_TIERS tier)"
  let ?first = "hd (times_of rs)"
  have "remembers ?w ?k ?first [] (log_at ?key Map.empty)" by (simp add: remembers_def log_at_def)
  moreover have "\<forall>x. in_window ?w x [] \<le> ?k" by (simp add: in_window_def)
  moreover have "0 < ?w" by (cases tier) simp_all
  moreover have "sorted (?first # times_of rs)" using assms(1) Cons by (cases cq) (auto simp: times_of_def)
  moreover have "\<forall>(c, q) \<in> set rs. key_of q = ?key \<longrightarrow> tc_windowMs (RATE_LIMIT_TIERS (rq_tier q)) = ?w \<and> tc_maxRequests (RATE_LIMIT_TIERS (rq_tier q)) = ?k"
    using assms(2) by auto
  ultimately have "\<forall>x. in_window ?w x ([] @ allowed_times ?key rs Map.empty) \<le> ?k" by (rule allowed_bound)
  then show ?thesis by simp
qed

definition sample_requests :: "(millis \<times> RateRequest) list" where
  "sample_requests = replicate 12 (5, \<lparr>rq_tenantId = ''t'', rq_clientId = ''c'', rq_tier = AUTH, rq_now = None\<rparr>)"

theorem sliding_window_bound_witness:
  "in_window 60000 5 (allowed_times (limit_key ''t'' AUTH ''c'') sample_requests Map.empty) \<le> 10"
proof -
  have s: "sorted (times_of sample_requests)" by (simp add: sample_requests_def times_of_def)
  have t: "\<forall>(c, q) \<in> set sample_requests. key_of q = limit_key ''t'' AUTH ''c'' \<longrightarrow> rq_tier q = AUTH"
    by (auto simp: sample_requests_def)
  from sliding_window_bound [OF s t, of 5] show ?thesis by simp
qed

text \<open>
  The fixed window has no such bound: around the end of a window nearly twice the limit gets through
  within one millisecond.
\<close>

fun fixed_run :: "RateLimitOptions \<Rightarrow> ident \<Rightarrow> millis list \<Rightarrow> Clients \<Rightarrow> bool list" where
  "fixed_run opts client [] cs = []"
| "fixed_run opts client (now # ts) cs =
     (let (r, cs1) = check_client opts client now cs in fx_allowed r # fixed_run opts client ts cs1)"

lemma fixed_within:
  "cs c = Some r \<Longrightarrow> now < cl_resetAt r \<Longrightarrow> cl_count r + n \<le> ro_maxRequests opts \<Longrightarrow>
   fixed_run opts c (replicate n now @ ts) cs = replicate n True @ fixed_run opts c ts (cs(c \<mapsto> r\<lparr>cl_count := cl_count r + n\<rparr>))"
proof (induction n arbitrary: cs r)
  case 0
  then show ?case by (simp add: map_upd_triv)
next
  case (Suc n)
  let ?r1 = "r\<lparr>cl_count := cl_count r + 1\<rparr>"
  have "check_client opts c now cs = (\<lparr>fx_allowed = True, fx_remaining = int (ro_maxRequests opts) - int (cl_count ?r1), fx_resetAt = cl_resetAt r\<rparr>, cs(c \<mapsto> ?r1))"
    using Suc.prems by (simp add: check_client_def Let_def)
  moreover have "fixed_run opts c (replicate n now @ ts) (cs(c \<mapsto> ?r1))
      = replicate n True @ fixed_run opts c ts (cs(c \<mapsto> ?r1, c \<mapsto> ?r1\<lparr>cl_count := cl_count ?r1 + n\<rparr>))"
    by (rule Suc.IH) (use Suc.prems in simp_all)
  moreover have "cs(c \<mapsto> ?r1, c \<mapsto> ?r1\<lparr>cl_count := cl_count ?r1 + n\<rparr>) = cs(c \<mapsto> r\<lparr>cl_count := cl_count r + Suc n\<rparr>)"
    by simp
  ultimately show ?case by (simp add: Let_def del: fun_upd_apply)
qed

text \<open>
  The fixed window has no such bound: a request to open the window and as many more as it
  admits just before it ends, then a full window's worth at its end, are all let through, so that
  one short of twice the limit passes within a millisecond, and the next request there is refused.
\<close>

theorem fixed_window_burst:
  assumes "ro_maxRequests opts = Suc m" "1 < ro_windowMs opts"
  shows "fixed_run opts c (0 # replicate m (ro_windowMs opts - 1) @ replicate (Suc m) (ro_windowMs opts) @ [ro_windowMs opts]) Map.empty
    = replicate (2 * Suc m) True @ [False]"
proof -
  let ?w = "ro_windowMs opts"
  let ?first = "\<lparr>cl_count = 1, cl_resetAt = ?w\<rparr>" and ?second = "\<lparr>cl_count = 1, cl_resetAt = ?w + ?w\<rparr>"
  have a: "fixed_run opts c (0 # ts) Map.empty = True # fixed_run opts c ts (Map.empty(c \<mapsto> ?first))" for ts
    by (simp add: check_client_def Let_def)
  have b: "fixed_run opts c (replicate m (?w - 1) @ ts) (Map.empty(c \<mapsto> ?first))
      = replicate m True @ fixed_run opts c ts (Map.empty(c \<mapsto> ?first, c \<mapsto> ?first\<lparr>cl_count := cl_count ?first + m\<rparr>))" for ts
    by (rule fixed_within) (use assms in simp_all)
  have d: "fixed_run opts c (?w # ts) (cs(c \<mapsto> ?first\<lparr>cl_count := n\<rparr>)) = True # fixed_run opts c ts (cs(c \<mapsto> ?second))" for ts cs n
    by (simp add: check_client_def Let_def)
  have e: "fixed_run opts c (replicate m ?w @ [?w]) (cs(c \<mapsto> ?second))
      = replicate m True @ fixed_run opts c [?w] (cs(c \<mapsto> ?second, c \<mapsto> ?second\<lparr>cl_count := cl_count ?second + m\<rparr>))" for cs
    by (rule fixed_within) (use assms in simp_all)
  have f: "fixed_run opts c [?w] (cs(c \<mapsto> ?second\<lparr>cl_count := cl_count ?second + m\<rparr>)) = [False]" for cs
    using assms by (simp add: check_client_def Let_def)
  have "replicate (2 * Suc m) True = True # replicate m True @ True # replicate m True"
    by (simp add: mult_2 replicate_add replicate_app_Cons_same)
  then show ?thesis by (simp only: a b replicate_Suc append_Cons d e f append_assoc)
qed

theorem fixed_window_burst_witness:
  "fixed_run authRateLimiter ''c'' (0 # replicate 9 59999 @ replicate 10 60000 @ [60000]) Map.empty = replicate 20 True @ [False]"
proof -
  have m: "ro_maxRequests authRateLimiter = Suc 9" and w: "1 < ro_windowMs authRateLimiter" by (simp_all add: authRateLimiter_def)
  from fixed_window_burst [OF m w, of "''c''"] show ?thesis by (simp add: authRateLimiter_def eval_nat_numeral)
qed

end
