(* ===== verification/Durable_Jobs.thy ===== *)
theory Durable_Jobs
  imports Audit_Chain
begin

text \<open>
  The durable job queue (\<open>src/lib/workers/durable-job-worker.ts\<close>): records, the transition table,
  failure classification, and the operations that enqueue, claim, renew, cancel, complete, fail,
  reclaim and replay a job. The store has two copies: the table \<open>AsyncJob\<close> of the database, and the
  queue every process keeps in memory. With a PostgreSQL address claims, reclaims, replays and items
  go to the table; otherwise to memory. The other operations write to both, and an unavailable
  database is caught and ignored there. A column that holds serialised JSON is modelled by the object.
\<close>

section \<open>Data\<close>

datatype JobStatus = PENDING | CLAIMED | RUNNING | CANCEL_REQUESTED | STALLED | RETRY_WAIT
  | COMPLETED | FAILED | DEAD_LETTER | CANCELLED

datatype JobItemStatus = ItemPending | ItemProcessing | ItemCompleted | ItemFailed | ItemRetryableFailed | ItemCancelled

datatype FailureClassification = TRANSIENT | PERMANENT | INVARIANT_FAILURE | VALIDATION_FAILURE
  | BUSINESS_RULE_ERROR | RATE_LIMIT | RATE_LIMITED_429 | TIMEOUT | DATABASE_TIMEOUT | NETWORK_TIMEOUT
  | SERVICE_UNAVAILABLE | CANCELLED_FAILURE | STALE_LEASE | UNKNOWN

type_synonym fields = "(string \<times> json) list"

record DurableJobRecord =
  jb_id :: ident
  jb_tenantId :: ident
  jb_idempotencyKey :: string
  jb_jobType :: string
  jb_status :: JobStatus
  jb_payload :: fields
  jb_result :: "fields option"
  jb_error :: "string option"
  jb_attempt :: int
  jb_maxRetries :: int
  jb_workerId :: "ident option"
  jb_claimedAt :: "millis option"
  jb_leaseExpiresAt :: "millis option"
  jb_heartbeatAt :: "millis option"
  jb_nextRetryAt :: "millis option"
  jb_cancelRequestedAt :: "millis option"
  jb_progressCurrent :: int
  jb_progressTotal :: int
  jb_createdAt :: millis
  jb_updatedAt :: millis
  jb_completedAt :: "millis option"

record JobItemRecord =
  it_id :: ident
  it_jobId :: ident
  it_tenantId :: ident
  it_idempotencyKey :: string
  it_status :: JobItemStatus
  it_createdAt :: millis
  it_updatedAt :: millis

text \<open>The columns of a batch the queue writes.\<close>

record BatchRow =
  br_status :: string
  br_completedAt :: "millis option"

record JobStore =
  st_postgres :: bool
  st_available :: bool
  st_jobs :: "DurableJobRecord list"
  st_items :: "JobItemRecord list"
  st_batches :: "ident \<rightharpoonup> BatchRow"
  st_local :: "(string \<times> DurableJobRecord) list"
  st_localItems :: "(string \<times> JobItemRecord) list"

datatype JobError = IllegalTransition JobStatus JobStatus | DatabaseError | JobNotFound ident

section \<open>Transitions, backoff and classification\<close>

fun legalTransitions :: "JobStatus \<Rightarrow> JobStatus list" where
  "legalTransitions PENDING = [PENDING, CLAIMED, RUNNING, CANCEL_REQUESTED, CANCELLED, FAILED, DEAD_LETTER]"
| "legalTransitions CLAIMED = [CLAIMED, RUNNING, CANCEL_REQUESTED, CANCELLED, STALLED, FAILED, PENDING]"
| "legalTransitions RUNNING = [RUNNING, CANCEL_REQUESTED, COMPLETED, FAILED, STALLED, RETRY_WAIT, CANCELLED, PENDING, DEAD_LETTER]"
| "legalTransitions CANCEL_REQUESTED = [CANCEL_REQUESTED, CANCELLED]"
| "legalTransitions STALLED = [STALLED, RETRY_WAIT, PENDING, CLAIMED, RUNNING, CANCEL_REQUESTED, CANCELLED, FAILED, DEAD_LETTER]"
| "legalTransitions RETRY_WAIT = [RETRY_WAIT, PENDING, CLAIMED, RUNNING, CANCEL_REQUESTED, CANCELLED, DEAD_LETTER]"
| "legalTransitions FAILED = [FAILED, RETRY_WAIT, PENDING, DEAD_LETTER]"
| "legalTransitions CANCELLED = [CANCELLED]"
| "legalTransitions DEAD_LETTER = [DEAD_LETTER, PENDING]"
| "legalTransitions COMPLETED = [COMPLETED]"

text \<open>\<open>None\<close> when the transition is legal, the error thrown otherwise.\<close>

definition assertValidTransition :: "JobStatus \<Rightarrow> JobStatus \<Rightarrow> JobError option" where
  "assertValidTransition current nxt = (if nxt \<in> set (legalTransitions current) then None else Some (IllegalTransition current nxt))"

text \<open>
  Without jitter, and with a random number given in units of \<open>2 ^ -53\<close>: the source multiplies the
  seconds by \<open>0.5 + r * 0.75\<close>.
\<close>

definition backoff_seconds :: "int \<Rightarrow> int \<Rightarrow> int \<Rightarrow> int \<Rightarrow> int" where
  "backoff_seconds attempt baseSeconds multiplier maxCapSeconds =
     min maxCapSeconds (baseSeconds * multiplier ^ nat (max 0 (attempt - 1)))"

definition calculateBackoffMs :: "int \<Rightarrow> int" where
  "calculateBackoffMs attempt = backoff_seconds attempt 5 5 300 * 1000"

definition calculateBackoffMs_jitter :: "int \<Rightarrow> int \<Rightarrow> int" where
  "calculateBackoffMs_jitter random attempt =
     js_round_div (backoff_seconds attempt 5 5 300 * 1000 * (2 * 9007199254740992 + 3 * random)) (4 * 9007199254740992)"

record FailureVerdict =
  fv_classification :: FailureClassification
  fv_retryable :: bool
  fv_errorMsg :: string
  fv_retryAfterMs :: "int option"

definition verdict :: "string \<Rightarrow> FailureClassification \<Rightarrow> bool \<Rightarrow> int option \<Rightarrow> FailureVerdict" where
  "verdict msg c r after = \<lparr>fv_classification = c, fv_retryable = r, fv_errorMsg = msg, fv_retryAfterMs = after\<rparr>"

definition includes_any :: "string \<Rightarrow> string list \<Rightarrow> bool" where
  "includes_any s ps = list_ex (js_includes s) ps"

definition classifyFailure :: "string \<Rightarrow> FailureVerdict" where
  "classifyFailure errorMsg =
     (let lower = js_toLowerCase errorMsg in
      if includes_any lower [''cancel'', ''aborted''] then verdict errorMsg CANCELLED_FAILURE False None
      else if includes_any lower [''invariant'', ''control_failure'', ''tampered''] then verdict errorMsg INVARIANT_FAILURE False None
      else if includes_any lower [''validation'', ''invalid input'', ''schema mismatch''] then verdict errorMsg VALIDATION_FAILURE False None
      else if includes_any lower [''business_rule'', ''unauthorized'', ''forbidden''] then verdict errorMsg BUSINESS_RULE_ERROR False None
      else if includes_any lower [''stale lease'', ''lease expired'', ''lost lease''] then verdict errorMsg STALE_LEASE True (Some 1000)
      else if includes_any lower [''429'', ''rate limit'', ''quota exceeded'', ''too many requests''] then verdict errorMsg RATE_LIMIT True (Some 5000)
      else if includes_any lower [''db timeout'', ''query_timeout'', ''canceling statement due to statement timeout'']
        then verdict errorMsg DATABASE_TIMEOUT True (Some 2000)
      else if includes_any lower [''timeout'', ''timed out'', ''econnreset'', ''etimedout''] then verdict errorMsg TIMEOUT True (Some 2000)
      else if includes_any lower [''503'', ''service unavailable'', ''econnrefused'', ''connection refused'']
        then verdict errorMsg SERVICE_UNAVAILABLE True (Some 3000)
      else if includes_any lower [''sqlite_busy'', ''deadlock'', ''connection terminated'', ''serialization_failure'']
        then verdict errorMsg TRANSIENT True (Some 1000)
      else verdict errorMsg UNKNOWN True None)"

section \<open>Access to the two copies\<close>

definition find_job :: "ident \<Rightarrow> JobStore \<Rightarrow> DurableJobRecord option" where
  "find_job i s = find (\<lambda>r. jb_id r = i) (st_jobs s)"

definition find_by_key :: "ident \<Rightarrow> string \<Rightarrow> JobStore \<Rightarrow> DurableJobRecord option" where
  "find_by_key tenant key s = find (\<lambda>r. jb_tenantId r = tenant \<and> jb_idempotencyKey r = key) (st_jobs s)"

definition update_where :: "('a \<Rightarrow> bool) \<Rightarrow> ('a \<Rightarrow> 'a) \<Rightarrow> 'a list \<Rightarrow> 'a list" where
  "update_where P f rows = map (\<lambda>r. if P r then f r else r) rows"

definition update_jobs :: "(DurableJobRecord \<Rightarrow> bool) \<Rightarrow> (DurableJobRecord \<Rightarrow> DurableJobRecord) \<Rightarrow> JobStore \<Rightarrow> JobStore" where
  "update_jobs P f s = (if st_available s then s\<lparr>st_jobs := update_where P f (st_jobs s)\<rparr> else s)"

definition put_local :: "DurableJobRecord \<Rightarrow> JobStore \<Rightarrow> JobStore" where
  "put_local j s = s\<lparr>st_local := AList.update (jb_tenantId j @ '':'' @ jb_idempotencyKey j) j (st_local s)\<rparr>"

text \<open>The text of a field of an object, when it is there and not empty.\<close>

definition text_field :: "string \<Rightarrow> fields \<Rightarrow> string option" where
  "text_field k fs = (case map_of fs k of Some (JStr t) \<Rightarrow> if t = [] then None else Some t | _ \<Rightarrow> None)"

definition batch_of :: "DurableJobRecord \<Rightarrow> ident option" where
  "batch_of j = (case text_field ''batchId'' (jb_payload j) of Some b \<Rightarrow> Some b
     | None \<Rightarrow> (case jb_result j of None \<Rightarrow> None | Some r \<Rightarrow> text_field ''batchId'' r))"

definition set_batch :: "ident option \<Rightarrow> (BatchRow \<Rightarrow> BatchRow) \<Rightarrow> JobStore \<Rightarrow> JobStore" where
  "set_batch b f s =
     (case b of None \<Rightarrow> s
      | Some i \<Rightarrow> if st_available s then s\<lparr>st_batches := (st_batches s)(i := map_option f (st_batches s i))\<rparr> else s)"

text \<open>
  The loops over the queue in memory: the body may change the job it visits and a value it carries,
  and may leave the loop with a result.
\<close>

fun for_jobs :: "(DurableJobRecord \<Rightarrow> 's \<Rightarrow> DurableJobRecord \<times> 's \<times> 'r option) \<Rightarrow> (string \<times> DurableJobRecord) list \<Rightarrow> 's
    \<Rightarrow> (string \<times> DurableJobRecord) list \<times> 's \<times> 'r option" where
  "for_jobs body [] s = ([], s, None)"
| "for_jobs body ((k, j) # js) s =
     (case body j s of
        (j1, s1, Some r) \<Rightarrow> ((k, j1) # js, s1, Some r)
      | (j1, s1, None) \<Rightarrow> (case for_jobs body js s1 of (js1, s2, r) \<Rightarrow> ((k, j1) # js1, s2, r)))"

section \<open>Enqueueing\<close>

record JobEnv =
  je_now :: millis
  je_uuid :: string
  je_keyUuid :: string
  je_tenant :: ident

record EnqueueParams =
  eq_tenantId :: "ident option"
  eq_idempotencyKey :: "string option"
  eq_jobType :: string
  eq_payload :: fields
  eq_maxRetries :: "int option"
  eq_progressTotal :: "int option"

definition or_text :: "string option \<Rightarrow> string \<Rightarrow> string" where
  "or_text t d = (if truthy_str t then the t else d)"

definition non_empty :: "string option \<Rightarrow> string option" where
  "non_empty t = (if truthy_str t then t else None)"

definition or_int :: "int \<Rightarrow> int \<Rightarrow> int" where
  "or_int n d = (if n = 0 then d else n)"

text \<open>A row read back as a record; zero counts as absent for the two defaults.\<close>

definition read_row :: "int \<Rightarrow> int \<Rightarrow> DurableJobRecord \<Rightarrow> DurableJobRecord" where
  "read_row maxRetries progressTotal row = row\<lparr>jb_error := non_empty (jb_error row), jb_workerId := non_empty (jb_workerId row),
     jb_maxRetries := or_int (jb_maxRetries row) maxRetries, jb_progressTotal := or_int (jb_progressTotal row) progressTotal\<rparr>"

definition new_job :: "JobEnv \<Rightarrow> EnqueueParams \<Rightarrow> DurableJobRecord" where
  "new_job env q = \<lparr>jb_id = ''job_'' @ take 12 (je_uuid env), jb_tenantId = or_text (eq_tenantId q) (je_tenant env),
     jb_idempotencyKey = or_text (eq_idempotencyKey q) (''idemp_'' @ je_keyUuid env), jb_jobType = eq_jobType q, jb_status = PENDING,
     jb_payload = eq_payload q, jb_result = None, jb_error = None, jb_attempt = 0,
     jb_maxRetries = (case eq_maxRetries q of None \<Rightarrow> 3 | Some n \<Rightarrow> n), jb_workerId = None, jb_claimedAt = None, jb_leaseExpiresAt = None,
     jb_heartbeatAt = None, jb_nextRetryAt = None, jb_cancelRequestedAt = None, jb_progressCurrent = 0,
     jb_progressTotal = (case eq_progressTotal q of None \<Rightarrow> 0 | Some n \<Rightarrow> n), jb_createdAt = je_now env, jb_updatedAt = je_now env,
     jb_completedAt = None\<rparr>"

definition enqueue_local :: "DurableJobRecord \<Rightarrow> JobStore \<Rightarrow> DurableJobRecord \<times> JobStore" where
  "enqueue_local job s =
     (case map_of (st_local s) (jb_tenantId job @ '':'' @ jb_idempotencyKey job) of Some existing \<Rightarrow> (existing, s) | None \<Rightarrow> (job, put_local job s))"

text \<open>
  Creating the row violates a unique constraint when the identifier is taken (the key was looked up
  just before); the second lookup of the key then finds nothing either.
\<close>

definition enqueueJob :: "JobEnv \<Rightarrow> EnqueueParams \<Rightarrow> JobStore \<Rightarrow> DurableJobRecord \<times> JobStore" where
  "enqueueJob env q s =
     (let job = new_job env q in
      if st_available s
      then (case find_by_key (jb_tenantId job) (jb_idempotencyKey job) s of
              Some row \<Rightarrow> let r = read_row (jb_maxRetries job) (jb_progressTotal job) row in (r, put_local r s)
            | None \<Rightarrow> if find_job (jb_id job) s \<noteq> None then enqueue_local job s
                else (job, put_local job (s\<lparr>st_jobs := st_jobs s @ [job]\<rparr>)))
      else enqueue_local job s)"

record CompletedParams =
  co_tenantId :: "ident option"
  co_idempotencyKey :: "string option"
  co_jobId :: "ident option"
  co_jobType :: string
  co_batchSize :: int
  co_result :: "fields option"
  co_payload :: "fields option"

definition completed_record :: "JobEnv \<Rightarrow> CompletedParams \<Rightarrow> DurableJobRecord" where
  "completed_record env q =
     (let i = or_text (co_jobId q) (''job_'' @ take 12 (je_uuid env))
      in \<lparr>jb_id = i, jb_tenantId = or_text (co_tenantId q) (je_tenant env), jb_idempotencyKey = or_text (co_idempotencyKey q) (''idemp_'' @ i),
          jb_jobType = co_jobType q, jb_status = COMPLETED,
          jb_payload = (case co_payload q of None \<Rightarrow> [(''size'', JInt (co_batchSize q))] | Some p \<Rightarrow> p), jb_result = co_result q,
          jb_error = None, jb_attempt = 1, jb_maxRetries = 3, jb_workerId = None, jb_claimedAt = None, jb_leaseExpiresAt = None,
          jb_heartbeatAt = None, jb_nextRetryAt = None, jb_cancelRequestedAt = None, jb_progressCurrent = co_batchSize q,
          jb_progressTotal = co_batchSize q, jb_createdAt = je_now env, jb_updatedAt = je_now env, jb_completedAt = Some (je_now env)\<rparr>)"

definition upsert_completed :: "DurableJobRecord \<Rightarrow> JobStore \<Rightarrow> JobStore" where
  "upsert_completed rec s =
     (if find_job (jb_id rec) s \<noteq> None
      then update_jobs (\<lambda>r. jb_id r = jb_id rec)
             (\<lambda>r. r\<lparr>jb_status := COMPLETED, jb_result := (if jb_result rec = None then jb_result r else jb_result rec),
                jb_progressCurrent := jb_progressCurrent rec, jb_progressTotal := jb_progressTotal rec, jb_updatedAt := jb_updatedAt rec,
                jb_completedAt := jb_completedAt rec\<rparr>) s
      else if find_by_key (jb_tenantId rec) (jb_idempotencyKey rec) s \<noteq> None then s
      else s\<lparr>st_jobs := st_jobs s @ [rec]\<rparr>)"

definition recordCompletedDurableJob :: "JobEnv \<Rightarrow> CompletedParams \<Rightarrow> JobStore \<Rightarrow> DurableJobRecord \<times> JobStore" where
  "recordCompletedDurableJob env q s =
     (let rec = completed_record env q in (rec, put_local rec (if st_available s then upsert_completed rec s else s)))"

section \<open>Claiming and leases\<close>

definition lease_expired :: "millis \<Rightarrow> DurableJobRecord \<Rightarrow> bool" where
  "lease_expired now j = (case jb_leaseExpiresAt j of None \<Rightarrow> False | Some l \<Rightarrow> l < now)"

definition claimable :: "millis \<Rightarrow> DurableJobRecord \<Rightarrow> bool" where
  "claimable now j \<longleftrightarrow> jb_cancelRequestedAt j = None
     \<and> (case jb_nextRetryAt j of None \<Rightarrow> True | Some t \<Rightarrow> t \<le> now)
     \<and> (jb_status j = PENDING \<or> jb_status j = RUNNING \<and> lease_expired now j \<or> jb_status j = STALLED \<and> lease_expired now j)"

definition claimed_job :: "millis \<Rightarrow> ident \<Rightarrow> int \<Rightarrow> DurableJobRecord \<Rightarrow> DurableJobRecord" where
  "claimed_job now w duration j = j\<lparr>jb_status := RUNNING, jb_workerId := Some w, jb_claimedAt := Some now, jb_heartbeatAt := Some now,
     jb_leaseExpiresAt := Some (now + duration), jb_attempt := jb_attempt j + 1, jb_updatedAt := now\<rparr>"

text \<open>The oldest claimable row; rows of equal age are taken in table order.\<close>

definition next_candidate :: "millis \<Rightarrow> DurableJobRecord list \<Rightarrow> DurableJobRecord option" where
  "next_candidate now rows = (case js_sort (cmp_by jb_createdAt) (filter (claimable now) rows) of [] \<Rightarrow> None | r # _ \<Rightarrow> Some r)"

definition claim_row :: "millis \<Rightarrow> ident \<Rightarrow> int \<Rightarrow> JobStore \<Rightarrow> DurableJobRecord option \<times> JobStore" where
  "claim_row now w duration s =
     (case next_candidate now (st_jobs s) of
        None \<Rightarrow> (None, s)
      | Some c \<Rightarrow> (Some (let r = claimed_job now w duration c in
             r\<lparr>jb_error := non_empty (jb_error r), jb_attempt := or_int (jb_attempt r) 1, jb_maxRetries := or_int (jb_maxRetries r) 3,
               jb_completedAt := None\<rparr>),
           s\<lparr>st_jobs := update_where (\<lambda>r. jb_id r = jb_id c) (claimed_job now w duration) (st_jobs s)\<rparr>))"

definition claim_body :: "millis \<Rightarrow> ident \<Rightarrow> int \<Rightarrow> DurableJobRecord \<Rightarrow> unit \<Rightarrow> DurableJobRecord \<times> unit \<times> DurableJobRecord option" where
  "claim_body now w duration j u =
     (if claimable now j then (claimed_job now w duration j, u, Some (claimed_job now w duration j)) else (j, u, None))"

definition claim_local :: "millis \<Rightarrow> ident \<Rightarrow> int \<Rightarrow> JobStore \<Rightarrow> DurableJobRecord option \<times> JobStore" where
  "claim_local now w duration s =
     (case for_jobs (claim_body now w duration) (st_local s) () of
        (js, _, r) \<Rightarrow> (r, s\<lparr>st_local := js\<rparr>))"

definition claimNextJob :: "millis \<Rightarrow> ident \<Rightarrow> int \<Rightarrow> JobStore \<Rightarrow> (JobError + DurableJobRecord option) \<times> JobStore" where
  "claimNextJob now w duration s =
     (if st_postgres s
      then if \<not> st_available s then (Inl DatabaseError, s) else (case claim_row now w duration s of (r, s1) \<Rightarrow> (Inr r, s1))
      else (case claim_local now w duration s of (r, s1) \<Rightarrow> (Inr r, s1)))"

definition holds :: "ident \<Rightarrow> ident \<Rightarrow> DurableJobRecord \<Rightarrow> bool" where
  "holds i w j \<longleftrightarrow> jb_id j = i \<and> jb_workerId j = Some w \<and> jb_status j = RUNNING"

definition renewed_job :: "millis \<Rightarrow> int \<Rightarrow> DurableJobRecord \<Rightarrow> DurableJobRecord" where
  "renewed_job now duration j = j\<lparr>jb_leaseExpiresAt := Some (now + duration), jb_heartbeatAt := Some now, jb_updatedAt := now\<rparr>"

definition renewLease :: "millis \<Rightarrow> ident \<Rightarrow> ident \<Rightarrow> int \<Rightarrow> JobStore \<Rightarrow> bool \<times> JobStore" where
  "renewLease now i w duration s =
     ((st_available s \<and> list_ex (holds i w) (st_jobs s)) \<or> list_ex (holds i w) (map snd (st_local s)),
      (update_jobs (holds i w) (renewed_job now duration) s)
        \<lparr>st_local := map (\<lambda>(k, j). (k, if holds i w j then renewed_job now duration j else j)) (st_local s)\<rparr>)"

definition progressed_job :: "millis \<Rightarrow> int \<Rightarrow> int option \<Rightarrow> DurableJobRecord \<Rightarrow> DurableJobRecord" where
  "progressed_job now current tot j = j\<lparr>jb_progressCurrent := current,
     jb_progressTotal := (case tot of None \<Rightarrow> jb_progressTotal j | Some t \<Rightarrow> t), jb_heartbeatAt := Some now, jb_updatedAt := now\<rparr>"

text \<open>In memory the job is not required to run.\<close>

definition progress_body :: "millis \<Rightarrow> ident \<Rightarrow> ident \<Rightarrow> int \<Rightarrow> int option \<Rightarrow> DurableJobRecord \<Rightarrow> unit \<Rightarrow> DurableJobRecord \<times> unit \<times> unit option" where
  "progress_body now i w current tot j u =
     (if jb_id j = i \<and> jb_workerId j = Some w then (progressed_job now current tot j, u, Some ()) else (j, u, None))"

definition updateJobProgress :: "millis \<Rightarrow> ident \<Rightarrow> ident \<Rightarrow> int \<Rightarrow> int option \<Rightarrow> JobStore \<Rightarrow> JobStore" where
  "updateJobProgress now i w current tot s =
     (case for_jobs (progress_body now i w current tot) (st_local s) () of
        (js, _, _) \<Rightarrow> (update_jobs (holds i w) (progressed_job now current tot) s)\<lparr>st_local := js\<rparr>)"

end
