(* ===== verification/Job_Lifecycle.thy ===== *)
theory Job_Lifecycle
  imports Durable_Jobs
begin

text \<open>
  The operations that end, restart and list jobs (\<open>src/lib/workers/durable-job-worker.ts\<close>): cancellation,
  completion, failure, reclaiming of stalled jobs, items, replay of dead letters and the read-only
  queries; and the turn of a worker that claims a job, runs a handler and records what came of it.
\<close>

section \<open>Cancellation\<close>

definition cancel_reason :: string where
  "cancel_reason = ''Cancelled by user request''"

definition open_item :: "JobItemRecord \<Rightarrow> bool" where
  "open_item x \<longleftrightarrow> it_status x = ItemPending \<or> it_status x = ItemProcessing \<or> it_status x = ItemRetryableFailed"

definition cancel_items :: "millis \<Rightarrow> ident \<Rightarrow> JobStore \<Rightarrow> JobStore" where
  "cancel_items now i s =
     (if st_available s
      then s\<lparr>st_items := update_where (\<lambda>x. it_jobId x = i \<and> open_item x) (\<lambda>x. x\<lparr>it_status := ItemCancelled, it_updatedAt := now\<rparr>) (st_items s)\<rparr>
      else s)"

definition cancel_local_items :: "millis \<Rightarrow> ident \<Rightarrow> (string \<times> JobItemRecord) list \<Rightarrow> (string \<times> JobItemRecord) list" where
  "cancel_local_items now i =
     map (\<lambda>(k, x). (k, if it_jobId x = i \<and> it_status x \<noteq> ItemCompleted \<and> it_status x \<noteq> ItemFailed
        then x\<lparr>it_status := ItemCancelled, it_updatedAt := now\<rparr> else x))"

definition finished :: "JobStatus \<Rightarrow> bool" where
  "finished t \<longleftrightarrow> t = COMPLETED \<or> t = FAILED \<or> t = DEAD_LETTER"

definition cancelled_job :: "millis \<Rightarrow> string \<Rightarrow> DurableJobRecord \<Rightarrow> DurableJobRecord" where
  "cancelled_job now reason j = j\<lparr>jb_status := CANCELLED, jb_cancelRequestedAt := Some now, jb_completedAt := Some now,
     jb_error := Some reason, jb_updatedAt := now\<rparr>"

definition batch_cancelled :: "BatchRow \<Rightarrow> BatchRow" where
  "batch_cancelled b = b\<lparr>br_status := ''CANCELLED''\<rparr>"

text \<open>The verdict on a found job: an answer, or \<open>None\<close> when it is to be cancelled.\<close>

definition cancel_verdict :: "ident \<Rightarrow> DurableJobRecord \<Rightarrow> bool option" where
  "cancel_verdict tenant j =
     (if jb_tenantId j \<noteq> tenant then Some False
      else if jb_status j = CANCELLED then Some True
      else if finished (jb_status j) then Some False else None)"

definition request_cancel_body :: "millis \<Rightarrow> ident \<Rightarrow> ident \<Rightarrow> DurableJobRecord \<Rightarrow> ident option \<times> (string \<times> JobItemRecord) list
    \<Rightarrow> DurableJobRecord \<times> (ident option \<times> (string \<times> JobItemRecord) list) \<times> bool option" where
  "request_cancel_body now i tenant j c =
     (if jb_id j \<noteq> i then (j, c, None)
      else (case cancel_verdict tenant j of
              Some r \<Rightarrow> (j, c, Some r)
            | None \<Rightarrow> (cancelled_job now cancel_reason j,
                (case batch_of j of None \<Rightarrow> fst c | Some x \<Rightarrow> Some x, cancel_local_items now i (snd c)), None)))"

definition request_cancel_local ::
  "millis \<Rightarrow> ident \<Rightarrow> ident \<Rightarrow> ident option \<Rightarrow> JobStore \<Rightarrow> bool \<times> JobStore" where
  "request_cancel_local now i tenant b s =
     (case for_jobs (request_cancel_body now i tenant) (st_local s) (b, st_localItems s) of
        (js, (b1, items), Some r) \<Rightarrow> (r, s\<lparr>st_local := js, st_localItems := items\<rparr>)
      | (js, (b1, items), None) \<Rightarrow> (True, set_batch b1 batch_cancelled (s\<lparr>st_local := js, st_localItems := items\<rparr>)))"

text \<open>An empty tenant on the row is not compared.\<close>

definition requestJobCancellation :: "millis \<Rightarrow> ident \<Rightarrow> ident \<Rightarrow> JobStore \<Rightarrow> bool \<times> JobStore" where
  "requestJobCancellation now i tenant s =
     (case if st_available s then find_job i s else None of
        None \<Rightarrow> request_cancel_local now i tenant None s
      | Some row \<Rightarrow>
          (case cancel_verdict (if jb_tenantId row = '''' then '''' else tenant) row of
             Some r \<Rightarrow> (r, s)
           | None \<Rightarrow> request_cancel_local now i tenant (batch_of row)
               (cancel_items now i (update_jobs (\<lambda>r. jb_id r = i \<and> jb_tenantId r = tenant) (cancelled_job now cancel_reason) s))))"

definition cancel_seen :: "DurableJobRecord \<Rightarrow> bool" where
  "cancel_seen j \<longleftrightarrow> jb_cancelRequestedAt j \<noteq> None \<or> jb_status j = CANCEL_REQUESTED \<or> jb_status j = CANCELLED"

definition checkCancellationRequested :: "ident \<Rightarrow> JobStore \<Rightarrow> bool" where
  "checkCancellationRequested i s =
     (case if st_available s then find_job i s else None of
        Some row \<Rightarrow> cancel_seen row
      | None \<Rightarrow> (case find (\<lambda>j. jb_id j = i) (map snd (st_local s)) of None \<Rightarrow> False | Some j \<Rightarrow> cancel_seen j))"

text \<open>The table is written whatever the status; in memory an illegal transition is thrown out of the loop.\<close>

definition cancel_body :: "millis \<Rightarrow> ident \<Rightarrow> string \<Rightarrow> DurableJobRecord \<Rightarrow> ident option \<Rightarrow> DurableJobRecord \<times> ident option \<times> JobError option" where
  "cancel_body now i reason j b =
     (if jb_id j \<noteq> i then (j, b, None)
      else (case assertValidTransition (jb_status j) CANCELLED of
              Some e \<Rightarrow> (j, b, Some e)
            | None \<Rightarrow> ((cancelled_job now reason j)
                  \<lparr>jb_cancelRequestedAt := (case jb_cancelRequestedAt j of None \<Rightarrow> Some now | Some t \<Rightarrow> Some t)\<rparr>,
                (case batch_of j of None \<Rightarrow> b | Some x \<Rightarrow> Some x), None)))"

definition cancelJob :: "millis \<Rightarrow> ident \<Rightarrow> string \<Rightarrow> JobStore \<Rightarrow> JobError option \<times> JobStore" where
  "cancelJob now i reason s =
     (let s1 = cancel_items now i (update_jobs (\<lambda>r. jb_id r = i) (cancelled_job now reason) s);
          b = (case if st_available s1 then find_job i s1 else None of None \<Rightarrow> None | Some row \<Rightarrow> batch_of row)
      in case for_jobs (cancel_body now i reason) (st_local s1) b of
        (js, b1, Some e) \<Rightarrow> (Some e, s1\<lparr>st_local := js\<rparr>)
      | (js, b1, None) \<Rightarrow> (None, set_batch b1 batch_cancelled
            (s1\<lparr>st_local := js, st_localItems := cancel_local_items now i (st_localItems s1)\<rparr>)))"

section \<open>Completion and failure\<close>

definition completed_job :: "millis \<Rightarrow> fields \<Rightarrow> DurableJobRecord \<Rightarrow> DurableJobRecord" where
  "completed_job now result j = j\<lparr>jb_status := COMPLETED, jb_result := Some result, jb_completedAt := Some now, jb_updatedAt := now\<rparr>"

definition batch_completed :: "millis \<Rightarrow> BatchRow \<Rightarrow> BatchRow" where
  "batch_completed now b = b\<lparr>br_status := ''COMPLETED'', br_completedAt := Some now\<rparr>"

definition complete_body :: "millis \<Rightarrow> ident \<Rightarrow> ident \<Rightarrow> fields \<Rightarrow> DurableJobRecord \<Rightarrow> ident option \<Rightarrow> DurableJobRecord \<times> ident option \<times> JobError option" where
  "complete_body now i w result j b =
     (if \<not> (jb_id j = i \<and> jb_workerId j = Some w) then (j, b, None)
      else (case assertValidTransition (jb_status j) COMPLETED of
              Some e \<Rightarrow> (j, b, Some e)
            | None \<Rightarrow> (completed_job now result j,
                (case b of None \<Rightarrow> batch_of (completed_job now result j) | Some x \<Rightarrow> Some x), None)))"

text \<open>Whether the row was updated is not looked at: the batch is set to completed in any case.\<close>

definition completeJob :: "millis \<Rightarrow> ident \<Rightarrow> ident \<Rightarrow> fields \<Rightarrow> JobStore \<Rightarrow> JobError option \<times> JobStore" where
  "completeJob now i w result s =
     (let s1 = update_jobs (holds i w) (completed_job now result) s;
          b0 = text_field ''batchId'' result;
          b = (case b0 of Some x \<Rightarrow> Some x
               | None \<Rightarrow> (case if st_available s1 then find_job i s1 else None of None \<Rightarrow> None
                   | Some row \<Rightarrow> text_field ''batchId'' (jb_payload row)))
      in case for_jobs (complete_body now i w result) (st_local s1) b of
        (js, b1, Some e) \<Rightarrow> (Some e, s1\<lparr>st_local := js\<rparr>)
      | (js, b1, None) \<Rightarrow> (None, set_batch b1 (batch_completed now) (s1\<lparr>st_local := js\<rparr>)))"

definition dead_letter :: "FailureClassification \<Rightarrow> int \<Rightarrow> int \<Rightarrow> bool" where
  "dead_letter c attempt maxRetries \<longleftrightarrow>
     c = INVARIANT_FAILURE \<or> c = VALIDATION_FAILURE \<or> c = PERMANENT \<or> attempt \<ge> maxRetries"

definition after_failure :: "FailureClassification \<Rightarrow> int \<Rightarrow> int \<Rightarrow> JobStatus" where
  "after_failure c attempt maxRetries = (if dead_letter c attempt maxRetries then DEAD_LETTER else PENDING)"

definition retry_delay :: "int option \<Rightarrow> int \<Rightarrow> int" where
  "retry_delay delay attempt = (case delay of None \<Rightarrow> calculateBackoffMs attempt | Some d \<Rightarrow> d)"

definition failed_job :: "millis \<Rightarrow> string \<Rightarrow> JobStatus \<Rightarrow> int \<Rightarrow> DurableJobRecord \<Rightarrow> DurableJobRecord" where
  "failed_job now err nxt delay j = j\<lparr>jb_status := nxt, jb_error := Some err, jb_leaseExpiresAt := None, jb_workerId := None,
     jb_nextRetryAt := (if nxt = DEAD_LETTER then None else Some (now + delay)), jb_updatedAt := now\<rparr>"

text \<open>The answer is the status the job was given; the table is written whatever its status and worker.\<close>

definition fail_row :: "millis \<Rightarrow> ident \<Rightarrow> string \<Rightarrow> FailureClassification \<Rightarrow> int option \<Rightarrow> JobStore \<Rightarrow> JobStatus \<times> JobStore" where
  "fail_row now i err c delay s =
     (case if st_available s then find_job i s else None of
        None \<Rightarrow> (PENDING, s)
      | Some row \<Rightarrow>
          let attempt = or_int (jb_attempt row) 1; nxt = after_failure c attempt (or_int (jb_maxRetries row) 3)
          in (nxt, update_jobs (\<lambda>r. jb_id r = i) (failed_job now err nxt (retry_delay delay attempt)) s))"

definition fail_body :: "millis \<Rightarrow> ident \<Rightarrow> string \<Rightarrow> FailureClassification \<Rightarrow> int option \<Rightarrow> DurableJobRecord \<Rightarrow> unit
    \<Rightarrow> DurableJobRecord \<times> unit \<times> (JobError + JobStatus) option" where
  "fail_body now i err c delay j u =
     (if jb_id j \<noteq> i then (j, u, None)
      else let nxt = after_failure c (jb_attempt j) (jb_maxRetries j) in
           (case assertValidTransition (jb_status j) nxt of
              Some e \<Rightarrow> (j, u, Some (Inl e))
            | None \<Rightarrow> (failed_job now err nxt (retry_delay delay (jb_attempt j)) j, u, Some (Inr nxt))))"

definition failJob ::
  "millis \<Rightarrow> ident \<Rightarrow> string \<Rightarrow> FailureClassification \<Rightarrow> int option \<Rightarrow> JobStore \<Rightarrow> (JobError + JobStatus) \<times> JobStore" where
  "failJob now i err c delay s =
     (case fail_row now i err c delay s of (t, s1) \<Rightarrow>
        (case for_jobs (fail_body now i err c delay) (st_local s1) () of
           (js, _, r) \<Rightarrow> (case r of None \<Rightarrow> Inr t | Some x \<Rightarrow> x, s1\<lparr>st_local := js\<rparr>)))"

section \<open>Reclaiming stalled jobs\<close>

definition exceeded_error :: string where
  "exceeded_error = ''Heartbeat lease expired; maximum retries exceeded.''"

definition reclaimed_error :: string where
  "reclaimed_error = ''Worker lease expired; reclaimed for retry.''"

definition stalled :: "millis \<Rightarrow> int \<Rightarrow> DurableJobRecord \<Rightarrow> bool" where
  "stalled now threshold j \<longleftrightarrow> jb_status j = RUNNING
     \<and> (lease_expired now j \<or> (case jb_heartbeatAt j of None \<Rightarrow> False | Some h \<Rightarrow> now - h > threshold))"

definition reclaimed_job :: "millis \<Rightarrow> int option \<Rightarrow> DurableJobRecord \<Rightarrow> DurableJobRecord" where
  "reclaimed_job now delay j =
     (if jb_attempt j \<ge> jb_maxRetries j
      then j\<lparr>jb_status := DEAD_LETTER, jb_error := Some exceeded_error, jb_leaseExpiresAt := None, jb_workerId := None, jb_updatedAt := now\<rparr>
      else j\<lparr>jb_status := PENDING, jb_error := Some reclaimed_error, jb_leaseExpiresAt := None, jb_workerId := None,
        jb_nextRetryAt := Some (now + retry_delay delay (jb_attempt j)), jb_updatedAt := now\<rparr>)"

definition settle_cancel :: "millis \<Rightarrow> DurableJobRecord \<Rightarrow> DurableJobRecord" where
  "settle_cancel now j = j\<lparr>jb_status := CANCELLED, jb_completedAt := Some now, jb_error := Some cancel_reason, jb_updatedAt := now\<rparr>"

definition reclaim_counts :: "DurableJobRecord list \<Rightarrow> nat \<times> nat" where
  "reclaim_counts js = (length (filter (\<lambda>j. jb_attempt j < jb_maxRetries j) js), length (filter (\<lambda>j. jb_attempt j \<ge> jb_maxRetries j) js))"

definition detectAndReclaimStalledJobs ::
  "millis \<Rightarrow> int \<Rightarrow> int option \<Rightarrow> JobStore \<Rightarrow> (JobError + nat \<times> nat) \<times> JobStore" where
  "detectAndReclaimStalledJobs now threshold delay s =
     (if st_postgres s
      then if \<not> st_available s then (Inl DatabaseError, s)
           else let rows = update_where (\<lambda>r. jb_status r = CANCEL_REQUESTED) (settle_cancel now) (st_jobs s)
                in (Inr (reclaim_counts (filter (stalled now threshold) rows)),
                    s\<lparr>st_jobs := update_where (stalled now threshold) (reclaimed_job now delay) rows\<rparr>)
      else (Inr (reclaim_counts (filter (stalled now threshold) (map snd (st_local s)))),
            s\<lparr>st_local := map (\<lambda>(k, j). (k, if stalled now threshold j then reclaimed_job now delay j else j)) (st_local s)\<rparr>))"

section \<open>Items, replay and queries\<close>

definition new_item :: "millis \<Rightarrow> ident \<Rightarrow> ident \<Rightarrow> ident \<Rightarrow> string \<Rightarrow> JobItemRecord" where
  "new_item now x i tenant key = \<lparr>it_id = ''item_'' @ x, it_jobId = i, it_tenantId = tenant, it_idempotencyKey = key,
     it_status = ItemPending, it_createdAt = now, it_updatedAt = now\<rparr>"

text \<open>Duplicates of the constraint on job and key are skipped; identifiers come with the keys.\<close>

fun create_rows :: "millis \<Rightarrow> ident \<Rightarrow> ident \<Rightarrow> (ident \<times> string) list \<Rightarrow> JobItemRecord list \<Rightarrow> nat \<times> JobItemRecord list" where
  "create_rows now i tenant [] rows = (0, rows)"
| "create_rows now i tenant ((x, key) # keys) rows =
     (if list_ex (\<lambda>r. it_jobId r = i \<and> it_idempotencyKey r = key) rows then create_rows now i tenant keys rows
      else (case create_rows now i tenant keys (rows @ [new_item now x i tenant key]) of (n, rows1) \<Rightarrow> (Suc n, rows1)))"

fun create_local :: "millis \<Rightarrow> ident \<Rightarrow> ident \<Rightarrow> (ident \<times> string) list \<Rightarrow> (string \<times> JobItemRecord) list \<Rightarrow> nat \<times> (string \<times> JobItemRecord) list" where
  "create_local now i tenant [] m = (0, m)"
| "create_local now i tenant ((x, key) # keys) m =
     (if map_of m (i @ '':'' @ key) \<noteq> None then create_local now i tenant keys m
      else (case create_local now i tenant keys (m @ [(i @ '':'' @ key, new_item now x i tenant key)]) of (n, m1) \<Rightarrow> (Suc n, m1)))"

definition createJobItems :: "millis \<Rightarrow> ident \<Rightarrow> ident \<Rightarrow> (ident \<times> string) list \<Rightarrow> JobStore \<Rightarrow> (JobError + nat) \<times> JobStore" where
  "createJobItems now i tenant keys s =
     (if st_postgres s
      then if \<not> st_available s then (Inl DatabaseError, s)
           else (case create_rows now i tenant keys (st_items s) of (n, rows) \<Rightarrow> (Inr n, s\<lparr>st_items := rows\<rparr>))
      else (case create_local now i tenant keys (st_localItems s) of (n, m) \<Rightarrow> (Inr n, s\<lparr>st_localItems := m\<rparr>)))"

definition replayed_job :: "millis \<Rightarrow> DurableJobRecord \<Rightarrow> DurableJobRecord" where
  "replayed_job now j = j\<lparr>jb_status := PENDING, jb_attempt := 0, jb_error := None, jb_leaseExpiresAt := None, jb_workerId := None,
     jb_nextRetryAt := None, jb_cancelRequestedAt := None, jb_updatedAt := now\<rparr>"

definition replayable :: "ident \<Rightarrow> ident \<Rightarrow> DurableJobRecord \<Rightarrow> bool" where
  "replayable i tenant j \<longleftrightarrow> jb_id j = i \<and> jb_tenantId j = tenant \<and> jb_status j = DEAD_LETTER"

definition replay_body :: "millis \<Rightarrow> ident \<Rightarrow> ident \<Rightarrow> DurableJobRecord \<Rightarrow> unit \<Rightarrow> DurableJobRecord \<times> unit \<times> bool option" where
  "replay_body now i tenant j u = (if replayable i tenant j then (replayed_job now j, u, Some True) else (j, u, None))"

definition replayJob :: "millis \<Rightarrow> ident \<Rightarrow> ident \<Rightarrow> JobStore \<Rightarrow> (JobError + bool) \<times> JobStore" where
  "replayJob now i tenant s =
     (if st_postgres s
      then if \<not> st_available s then (Inl DatabaseError, s)
           else (Inr (list_ex (replayable i tenant) (st_jobs s)), update_jobs (replayable i tenant) (replayed_job now) s)
      else (case for_jobs (replay_body now i tenant) (st_local s) () of
              (js, _, r) \<Rightarrow> (Inr (r = Some True), s\<lparr>st_local := js\<rparr>)))"

text \<open>A missing tenant matches every job.\<close>

definition of_tenant :: "ident option \<Rightarrow> DurableJobRecord \<Rightarrow> bool" where
  "of_tenant tenant j \<longleftrightarrow> \<not> truthy_str tenant \<or> jb_tenantId j = the tenant"

definition getDurableJob :: "ident \<Rightarrow> ident option \<Rightarrow> JobStore \<Rightarrow> DurableJobRecord option" where
  "getDurableJob i tenant s =
     (case if st_available s then find_job i s else None of
        Some row \<Rightarrow> if of_tenant tenant row then Some (read_row 3 0 row)
          else find (\<lambda>j. jb_id j = i \<and> of_tenant tenant j) (map snd (st_local s))
      | None \<Rightarrow> find (\<lambda>j. jb_id j = i \<and> of_tenant tenant j) (map snd (st_local s)))"

definition active_job :: "DurableJobRecord \<Rightarrow> bool" where
  "active_job j \<longleftrightarrow> (jb_status j = PENDING \<or> jb_status j = CLAIMED \<or> jb_status j = RUNNING \<or> jb_status j = RETRY_WAIT)
     \<and> jb_cancelRequestedAt j = None"

definition listDurableJobs :: "ident option \<Rightarrow> nat \<Rightarrow> JobStore \<Rightarrow> DurableJobRecord list \<times> DurableJobRecord list" where
  "listDurableJobs tenant limit s =
     (let newest = js_sort (\<lambda>a b. jb_createdAt b - jb_createdAt a);
          records = (if st_available s then take limit (newest (filter (of_tenant tenant) (st_jobs s))) else [])
      in if records \<noteq> [] then (let mapped = map (read_row 3 0) records in (filter active_job mapped, take limit mapped))
         else (let all = newest (filter (of_tenant tenant) (map snd (st_local s))) in (filter active_job all, take limit all)))"

section \<open>The worker\<close>

fun status_text :: "JobStatus \<Rightarrow> string" where
  "status_text PENDING = ''PENDING''"
| "status_text CLAIMED = ''CLAIMED''"
| "status_text RUNNING = ''RUNNING''"
| "status_text CANCEL_REQUESTED = ''CANCEL_REQUESTED''"
| "status_text STALLED = ''STALLED''"
| "status_text RETRY_WAIT = ''RETRY_WAIT''"
| "status_text COMPLETED = ''COMPLETED''"
| "status_text FAILED = ''FAILED''"
| "status_text DEAD_LETTER = ''DEAD_LETTER''"
| "status_text CANCELLED = ''CANCELLED''"

definition quoted :: "string \<Rightarrow> string" where
  "quoted s = [CHR 0x27] @ s @ [CHR 0x27]"

fun error_text :: "JobError \<Rightarrow> string" where
  "error_text (IllegalTransition s t) = ''Illegal Job State Transition: Cannot transition job from state '' @ quoted (status_text s) @ '' to '' @ quoted (status_text t) @ ''.''"
| "error_text DatabaseError = ''Database unavailable''"
| "error_text (JobNotFound i) = ''Job '' @ quoted i @ '' not found''"

text \<open>
  What a handler does to the store is left to the run in between; its end is a result or the text of
  an error. An error of the queue while the end is recorded is handled like one of the handler; an
  error while that is recorded ends the turn and is ignored.
\<close>

datatype HandlerEnd = Returned fields | Threw string

definition worker_claim :: "millis \<Rightarrow> ident \<Rightarrow> int \<Rightarrow> JobStore \<Rightarrow> DurableJobRecord option \<times> JobStore" where
  "worker_claim now w duration s =
     (case claimNextJob now w duration s of
        (Inl e, s1) \<Rightarrow> (None, s1)
      | (Inr None, s1) \<Rightarrow> (None, s1)
      | (Inr (Some j), s1) \<Rightarrow>
          if jb_cancelRequestedAt j = None then (Some j, s1)
          else (None, snd (cancelJob now (jb_id j) ''Cancelled prior to worker dispatch'' s1)))"

definition worker_failure :: "millis \<Rightarrow> ident \<Rightarrow> string \<Rightarrow> JobStore \<Rightarrow> JobStore" where
  "worker_failure now i msg s = snd (failJob now i msg (fv_classification (classifyFailure msg)) None s)"

definition worker_finish :: "millis \<Rightarrow> ident \<Rightarrow> ident \<Rightarrow> HandlerEnd \<Rightarrow> JobStore \<Rightarrow> JobStore" where
  "worker_finish now w i outcome s =
     (case outcome of
        Threw msg \<Rightarrow> worker_failure now i msg s
      | Returned result \<Rightarrow>
          (case if checkCancellationRequested i s then cancelJob now i ''Cancelled during execution'' s else completeJob now i w result s of
             (None, s1) \<Rightarrow> s1
           | (Some e, s1) \<Rightarrow> worker_failure now i (error_text e) s1))"

end
