(* ===== verification/Adaptive_Chunk.thy ===== *)
theory Adaptive_Chunk
  imports Complex_Main
begin

text \<open>
  The chunk size recommended for the next step of a job (\<open>calculateAdaptiveChunkSize\<close> of
  \<open>src/lib/workers/durable-job-worker.ts\<close>), on rational numbers. An option that is missing, not a
  finite number or not positive falls back to its default, so one option of a rational stands for all of these.
\<close>

definition js_round_rat :: "rat \<Rightarrow> rat" where
  "js_round_rat x = of_int \<lfloor>x + 1 / 2\<rfloor>"

record ChunkParams =
  ch_currentChunkSize :: "rat option"
  ch_lastDurationMs :: "rat option"
  ch_targetDurationMs :: "rat option"
  ch_minChunkSize :: "rat option"
  ch_maxChunkSize :: "rat option"
  ch_totalSize :: "rat option"

definition positive_or :: "rat \<Rightarrow> rat option \<Rightarrow> rat" where
  "positive_or d x = (case x of None \<Rightarrow> d | Some v \<Rightarrow> if v > 0 then v else d)"

definition ABSOLUTE_MAX_CHUNK :: rat where
  "ABSOLUTE_MAX_CHUNK = 5000"

definition default_max :: "ChunkParams \<Rightarrow> rat" where
  "default_max p = (case ch_totalSize p of None \<Rightarrow> 500 | Some t \<Rightarrow> if t \<ge> 50000 then 2500 else 500)"

definition effective_max :: "ChunkParams \<Rightarrow> rat" where
  "effective_max p = min ABSOLUTE_MAX_CHUNK (max 1 (positive_or (default_max p) (ch_maxChunkSize p)))"

definition effective_min :: "ChunkParams \<Rightarrow> rat" where
  "effective_min p = min (effective_max p) (max 1 (positive_or 50 (ch_minChunkSize p)))"

definition clamp :: "ChunkParams \<Rightarrow> rat \<Rightarrow> rat" where
  "clamp p x = min (effective_max p) (max (effective_min p) x)"

definition scaled_chunk :: "rat \<Rightarrow> rat \<Rightarrow> rat \<Rightarrow> rat" where
  "scaled_chunk target current duration =
     (if duration < 200 then js_round_rat (current * min (13 / 10) (target / duration))
      else if duration > 600 then js_round_rat (current * max (4 / 10) (target / duration))
      else (let rps = current / duration * 1000; targetCount = js_round_rat (rps * (target / 1000))
            in js_round_rat (current * (7 / 10) + targetCount * (3 / 10))))"

definition calculateAdaptiveChunkSize :: "ChunkParams \<Rightarrow> rat" where
  "calculateAdaptiveChunkSize p =
     (let targetMs = positive_or 500 (ch_targetDurationMs p); currentChunk = positive_or 100 (ch_currentChunkSize p)
      in case ch_lastDurationMs p of
           None \<Rightarrow> clamp p currentChunk
         | Some d \<Rightarrow> if d \<le> 0 then clamp p currentChunk else clamp p (scaled_chunk targetMs currentChunk d))"

section \<open>Bounds\<close>

lemma js_round_rat_mono: "x \<le> y \<Longrightarrow> js_round_rat x \<le> js_round_rat y"
  unfolding js_round_rat_def by (simp add: floor_mono)

lemma clamp_between: "effective_min p \<le> clamp p x" "clamp p x \<le> effective_max p"
  by (auto simp: clamp_def effective_min_def)

lemma clamp_mono: "x \<le> y \<Longrightarrow> clamp p x \<le> clamp p y"
  by (auto simp: clamp_def)

lemma effective_bounds: "1 \<le> effective_min p" "effective_min p \<le> effective_max p" "effective_max p \<le> 5000"
  by (auto simp: effective_min_def effective_max_def ABSOLUTE_MAX_CHUNK_def)

lemma adaptive_clamped: "\<exists>x. calculateAdaptiveChunkSize p = clamp p x"
  by (auto simp: calculateAdaptiveChunkSize_def Let_def split: option.splits)

text \<open>
  No setting gets past the clamp: the recommendation is between 1 and 5000, at most the ceiling asked
  for and at least the floor asked for where the two agree; a fast step grows it by at most 30 percent
  before rounding and a slow one leaves at least 40 percent.
\<close>

theorem adaptive_chunk_bounds:
  "1 \<le> calculateAdaptiveChunkSize p \<and> calculateAdaptiveChunkSize p \<le> 5000
   \<and> (\<forall>hi. ch_maxChunkSize p = Some hi \<and> 1 \<le> hi \<longrightarrow> calculateAdaptiveChunkSize p \<le> hi)
   \<and> (\<forall>lo hi. ch_minChunkSize p = Some lo \<and> ch_maxChunkSize p = Some hi \<and> 0 < lo \<and> lo \<le> hi \<and> hi \<le> 5000 \<longrightarrow> lo \<le> calculateAdaptiveChunkSize p)
   \<and> (\<forall>d. ch_lastDurationMs p = Some d \<and> 0 < d \<and> d < 200 \<longrightarrow>
        calculateAdaptiveChunkSize p \<le> clamp p (js_round_rat (positive_or 100 (ch_currentChunkSize p) * (13 / 10))))
   \<and> (\<forall>d. ch_lastDurationMs p = Some d \<and> 600 < d \<longrightarrow>
        clamp p (js_round_rat (positive_or 100 (ch_currentChunkSize p) * (4 / 10))) \<le> calculateAdaptiveChunkSize p)"
proof -
  let ?r = "calculateAdaptiveChunkSize p" and ?c = "positive_or 100 (ch_currentChunkSize p)"
  obtain x where x: "?r = clamp p x" using adaptive_clamped by blast
  have c: "0 < ?c" by (auto simp: positive_or_def split: option.splits)
  have "1 \<le> ?r" "?r \<le> 5000"
    unfolding x using clamp_between [of p x] effective_bounds [of p] by linarith+
  moreover have "?r \<le> hi" if "ch_maxChunkSize p = Some hi" "1 \<le> hi" for hi
    unfolding x using clamp_between(2) [of p x] that by (auto simp: effective_max_def positive_or_def)
  moreover have "lo \<le> ?r" if "ch_minChunkSize p = Some lo" "ch_maxChunkSize p = Some hi" "0 < lo" "lo \<le> hi" "hi \<le> 5000" for lo hi
    unfolding x using clamp_between(1) [of p x] that by (auto simp: effective_min_def effective_max_def positive_or_def ABSOLUTE_MAX_CHUNK_def)
  moreover have "?r \<le> clamp p (js_round_rat (?c * (13 / 10)))" if "ch_lastDurationMs p = Some d" "0 < d" "d < 200" for d
  proof -
    have "?c * min (13 / 10) (positive_or 500 (ch_targetDurationMs p) / d) \<le> ?c * (13 / 10)"
      using c by (intro mult_left_mono min.cobounded1) simp
    with that show ?thesis
      by (auto simp: calculateAdaptiveChunkSize_def Let_def scaled_chunk_def intro!: clamp_mono js_round_rat_mono)
  qed
  moreover have "clamp p (js_round_rat (?c * (4 / 10))) \<le> ?r" if "ch_lastDurationMs p = Some d" "600 < d" for d
  proof -
    have "?c * (4 / 10) \<le> ?c * max (4 / 10) (positive_or 500 (ch_targetDurationMs p) / d)"
      using c by (intro mult_left_mono max.cobounded1) simp
    with that show ?thesis
      by (auto simp: calculateAdaptiveChunkSize_def Let_def scaled_chunk_def intro!: clamp_mono js_round_rat_mono)
  qed
  ultimately show ?thesis by blast
qed

definition sample_chunk :: ChunkParams where
  "sample_chunk = \<lparr>ch_currentChunkSize = Some 100, ch_lastDurationMs = Some 100, ch_targetDurationMs = None,
     ch_minChunkSize = Some 20, ch_maxChunkSize = Some 120, ch_totalSize = None\<rparr>"

theorem adaptive_chunk_bounds_witness:
  "20 \<le> calculateAdaptiveChunkSize sample_chunk \<and> calculateAdaptiveChunkSize sample_chunk \<le> 120"
  using adaptive_chunk_bounds [of sample_chunk] by (auto simp: sample_chunk_def)

text \<open>The law is not monotone: a step of 200 ms grows the chunk more than one of 100 ms.\<close>

lemma slower_step_grows_more:
  "calculateAdaptiveChunkSize (sample_chunk\<lparr>ch_lastDurationMs := Some 100, ch_maxChunkSize := None\<rparr>) = 130
   \<and> calculateAdaptiveChunkSize (sample_chunk\<lparr>ch_lastDurationMs := Some 200, ch_maxChunkSize := None\<rparr>) = 145"
proof -
  have f: "\<lfloor>261 / 2 :: rat\<rfloor> = 130" "\<lfloor>501 / 2 :: rat\<rfloor> = 250" by (simp_all add: floor_eq_iff)
  have g: "\<lfloor>291 / 2 :: rat\<rfloor> = 145" by (simp add: floor_eq_iff)
  show ?thesis
    by (simp add: calculateAdaptiveChunkSize_def Let_def scaled_chunk_def sample_chunk_def clamp_def effective_min_def effective_max_def
      positive_or_def default_max_def ABSOLUTE_MAX_CHUNK_def js_round_rat_def f g)
qed

end
