(* ===== verification/Job_Steps.thy ===== *)
theory Job_Steps
  imports Job_Lifecycle Adaptive_Chunk
begin

text \<open>
  Bounded steps of a job (\<open>stepJobChunk\<close> and the handler of batch generation in
  \<open>src/lib/workers/durable-job-worker.ts\<close>). A step is split where the source awaits between claiming the
  job and running the slice, so that two steps can overlap: \<open>step_begin\<close> reads and claims,
  \<open>step_finish\<close> runs the handler on the record it read. The rows the generator of synthetic records
  produces for a slice are a function of the slice, so the table they go to is modelled by the slices
  inserted: batch, first index, number of records and total.
\<close>

section \<open>State and results\<close>

record StepSystem =
  ss_store :: JobStore
  ss_inFlight :: nat
  ss_slices :: "(ident \<times> int \<times> int \<times> int) list"
  ss_audit :: "(ident \<times> int) list"

record StepEnv =
  se_now :: millis
  se_iso :: string
  se_batchId :: ident
  se_duration :: rat

record StepResult =
  sr_jobId :: ident
  sr_tenantId :: ident
  sr_jobType :: string
  sr_status :: JobStatus
  sr_progressCurrent :: int
  sr_progressTotal :: int
  sr_progressPct :: int
  sr_completedSliceCount :: int
  sr_isComplete :: bool
  sr_isCancelled :: bool
  sr_result :: "fields option"
  sr_error :: "string option"
  sr_recordsPerSecond :: int
  sr_estimatedRemainingMs :: "int option"
  sr_recommendedNextChunkSize :: rat

definition MAX_CONCURRENT_STEPS :: nat where
  "MAX_CONCURRENT_STEPS = 4"

definition progress_pct :: "int \<Rightarrow> int \<Rightarrow> int" where
  "progress_pct current tot = (if tot > 0 then js_round_div (current * 100) tot else 0)"

text \<open>The answers of a step that ran no slice.\<close>

definition no_slice :: "DurableJobRecord \<Rightarrow> JobStatus \<Rightarrow> bool \<Rightarrow> int \<Rightarrow> StepResult" where
  "no_slice j status cancelled chunkSize = \<lparr>sr_jobId = jb_id j, sr_tenantId = jb_tenantId j, sr_jobType = jb_jobType j, sr_status = status,
     sr_progressCurrent = jb_progressCurrent j, sr_progressTotal = jb_progressTotal j,
     sr_progressPct = progress_pct (jb_progressCurrent j) (jb_progressTotal j), sr_completedSliceCount = 0, sr_isComplete = False,
     sr_isCancelled = cancelled, sr_result = None, sr_error = None, sr_recordsPerSecond = 0, sr_estimatedRemainingMs = None,
     sr_recommendedNextChunkSize = of_int chunkSize\<rparr>"

definition terminal_answer :: "DurableJobRecord \<Rightarrow> int \<Rightarrow> StepResult" where
  "terminal_answer j chunkSize = (no_slice j (jb_status j) (jb_status j = CANCELLED) chunkSize)
     \<lparr>sr_progressPct := (if jb_progressTotal j > 0 then progress_pct (jb_progressCurrent j) (jb_progressTotal j)
        else if jb_status j = COMPLETED then 100 else 0),
      sr_isComplete := (jb_status j = COMPLETED), sr_result := jb_result j, sr_error := jb_error j\<rparr>"

section \<open>Reading and claiming\<close>

datatype StepStart = Answered StepResult | Dispatched DurableJobRecord

definition stepped_job :: "millis \<Rightarrow> ident \<Rightarrow> DurableJobRecord \<Rightarrow> DurableJobRecord" where
  "stepped_job now w j = j\<lparr>jb_status := RUNNING, jb_workerId := Some w, jb_claimedAt := Some now, jb_heartbeatAt := Some now,
     jb_leaseExpiresAt := Some (now + 30000), jb_updatedAt := now\<rparr>"

definition steppable :: "ident \<Rightarrow> DurableJobRecord \<Rightarrow> bool" where
  "steppable i j \<longleftrightarrow> jb_id j = i \<and> jb_status j \<in> {PENDING, CLAIMED, RUNNING, RETRY_WAIT} \<and> jb_cancelRequestedAt j = None"

definition current_or :: "DurableJobRecord \<Rightarrow> ident \<Rightarrow> JobStore \<Rightarrow> DurableJobRecord" where
  "current_or j i s = (case getDurableJob i None s of None \<Rightarrow> j | Some r \<Rightarrow> r)"

definition user_cancel :: string where
  "user_cancel = ''Cancellation requested by user''"

definition step_body :: "millis \<Rightarrow> ident \<Rightarrow> ident \<Rightarrow> DurableJobRecord \<Rightarrow> unit \<Rightarrow> DurableJobRecord \<times> unit \<times> DurableJobRecord option" where
  "step_body now w i j u =
     (if jb_id j \<noteq> i then (j, u, None) else if cancel_seen j then (j, u, Some j) else (stepped_job now w j, u, None))"

text \<open>
  The update of the table does not ask whose lease it is. When it finds no row to update and the job
  turns out to be cancelled, the step ends; an error thrown while cancelling there is swallowed.
\<close>

definition claim_in_table :: "millis \<Rightarrow> ident \<Rightarrow> DurableJobRecord \<Rightarrow> int \<Rightarrow> JobStore \<Rightarrow> StepResult option \<times> JobStore" where
  "claim_in_table now w job chunkSize s =
     (if \<not> st_available s then (None, s)
      else let s1 = update_jobs (steppable (jb_id job)) (stepped_job now w) s
           in if list_ex (steppable (jb_id job)) (st_jobs s) then (None, s1)
              else (case getDurableJob (jb_id job) None s1 of
                      None \<Rightarrow> (None, s1)
                    | Some latest \<Rightarrow>
                        if \<not> cancel_seen latest then (None, s1)
                        else (case cancelJob now (jb_id job) user_cancel s1 of
                                (Some e, s2) \<Rightarrow> (None, s2)
                              | (None, s2) \<Rightarrow> (Some (no_slice (current_or job (jb_id job) s2) CANCELLED True chunkSize), s2))))"

definition claim_step :: "millis \<Rightarrow> ident \<Rightarrow> DurableJobRecord \<Rightarrow> int \<Rightarrow> JobStore \<Rightarrow> (JobError + StepStart) \<times> JobStore" where
  "claim_step now w job chunkSize s =
     (let i = jb_id job in
      case claim_in_table now w job chunkSize s of
        (Some r, s1) \<Rightarrow> (Inr (Answered r), s1)
      | (None, s1) \<Rightarrow>
          (case for_jobs (step_body now w i) (st_local s1) () of
             (js, _, Some seen) \<Rightarrow>
               (case cancelJob now i user_cancel (s1\<lparr>st_local := js\<rparr>) of
                  (Some e, s2) \<Rightarrow> (Inl e, s2)
                | (None, s2) \<Rightarrow> (Inr (Answered ((no_slice seen CANCELLED True chunkSize)\<lparr>sr_tenantId := jb_tenantId job, sr_jobType := jb_jobType job\<rparr>)), s2))
           | (js, _, None) \<Rightarrow>
               (let s2 = s1\<lparr>st_local := js\<rparr> in
                if checkCancellationRequested i s2
                then (case cancelJob now i user_cancel s2 of
                        (Some e, s3) \<Rightarrow> (Inl e, s3)
                      | (None, s3) \<Rightarrow> (Inr (Answered (no_slice (current_or job i s3) CANCELLED True chunkSize)), s3))
                else (Inr (Dispatched (job\<lparr>jb_status := RUNNING, jb_workerId := Some w\<rparr>)), s2))))"

section \<open>The slice\<close>

record StepOutcome =
  so_sliceCount :: int
  so_isComplete :: bool
  so_result :: "fields option"

definition cancelled_slice :: "millis \<Rightarrow> ident \<Rightarrow> string \<Rightarrow> int \<Rightarrow> StepSystem \<Rightarrow> (JobError + StepOutcome) \<times> StepSystem" where
  "cancelled_slice now i reason n sys =
     (case cancelJob now i reason (ss_store sys) of
        (Some e, s) \<Rightarrow> (Inl e, sys\<lparr>ss_store := s\<rparr>)
      | (None, s) \<Rightarrow> (Inr \<lparr>so_sliceCount = n, so_isComplete = False, so_result = None\<rparr>, sys\<lparr>ss_store := s\<rparr>))"

definition completed_slice :: "millis \<Rightarrow> DurableJobRecord \<Rightarrow> ident \<Rightarrow> fields \<Rightarrow> int \<Rightarrow> StepSystem \<Rightarrow> (JobError + StepOutcome) \<times> StepSystem" where
  "completed_slice now job w result n sys =
     (case completeJob now (jb_id job) w result (ss_store sys) of
        (Some e, s) \<Rightarrow> (Inl e, sys\<lparr>ss_store := s\<rparr>)
      | (None, s) \<Rightarrow> (Inr \<lparr>so_sliceCount = n, so_isComplete = True, so_result = Some result\<rparr>, sys\<lparr>ss_store := s\<rparr>))"

definition default_step :: "StepEnv \<Rightarrow> ident \<Rightarrow> DurableJobRecord \<Rightarrow> int \<Rightarrow> StepSystem \<Rightarrow> (JobError + StepOutcome) \<times> StepSystem" where
  "default_step env w job chunkSize sys =
     (let i = jb_id job; remaining = max 0 (jb_progressTotal job - jb_progressCurrent job); n = min chunkSize remaining;
          newProgress = jb_progressCurrent job + n; isComplete = newProgress \<ge> jb_progressTotal job;
          sys1 = sys\<lparr>ss_store := updateJobProgress (se_now env) i w newProgress (Some (jb_progressTotal job)) (ss_store sys)\<rparr>
      in if checkCancellationRequested i (ss_store sys1) then cancelled_slice (se_now env) i ''Cancelled after safe chunk'' n sys1
         else if isComplete then completed_slice (se_now env) job w [(''completedAt'', JStr (se_iso env))] n sys1
         else (Inr \<lparr>so_sliceCount = n, so_isComplete = False, so_result = None\<rparr>, sys1))"

definition int_field :: "string \<Rightarrow> fields \<Rightarrow> int option" where
  "int_field k fs = (case map_of fs k of Some (JInt n) \<Rightarrow> if n = 0 then None else Some n | _ \<Rightarrow> None)"

definition total_size :: "DurableJobRecord \<Rightarrow> int" where
  "total_size job = (case int_field ''size'' (jb_payload job) of Some n \<Rightarrow> n | None \<Rightarrow> or_int (jb_progressTotal job) 250)"

text \<open>
  A batch is created when the payload names none. Its identifier is stored in the payload of the
  record the step holds, which is the object in memory, or a copy when the record came from the table.
\<close>

definition ensure_batch :: "StepEnv \<Rightarrow> DurableJobRecord \<Rightarrow> StepSystem \<Rightarrow> ident \<times> StepSystem" where
  "ensure_batch env job sys =
     (case text_field ''batchId'' (jb_payload job) of
        Some b \<Rightarrow> (b, sys)
      | None \<Rightarrow>
          (let s = ss_store sys;
               b = (if st_available s then se_batchId env else ''batch_mem_'' @ take 8 (se_batchId env));
               s1 = (if st_available s then s\<lparr>st_batches := (st_batches s)(b \<mapsto> \<lparr>br_status = ''PROCESSING'', br_completedAt = None\<rparr>)\<rparr> else s);
               share = (\<lambda>j. if jb_id j = jb_id job then j\<lparr>jb_payload := AList.update ''batchId'' (JStr b) (jb_payload j)\<rparr> else j)
           in (b, sys\<lparr>ss_store := (if st_available s1 \<and> find_job (jb_id job) s1 \<noteq> None then s1
                  else s1\<lparr>st_local := map (\<lambda>(k, j). (k, share j)) (st_local s1)\<rparr>)\<rparr>)))"

definition batch_created :: "ident \<Rightarrow> StepSystem \<Rightarrow> StepSystem" where
  "batch_created b sys = sys\<lparr>ss_store := set_batch (Some b) (\<lambda>r. r\<lparr>br_status := ''CREATED''\<rparr>) (ss_store sys)\<rparr>"

definition generation_result :: "StepEnv \<Rightarrow> ident \<Rightarrow> int \<Rightarrow> fields" where
  "generation_result env b tot = [(''batchId'', JStr b), (''size'', JInt tot), (''completedAt'', JStr (se_iso env))]"

definition batch_step :: "StepEnv \<Rightarrow> DurableJobRecord \<Rightarrow> int \<Rightarrow> StepSystem \<Rightarrow> (JobError + StepOutcome) \<times> StepSystem" where
  "batch_step env job chunkSize sys =
     (let i = jb_id job; now = se_now env; w = or_text (jb_workerId job) ''stepper'' in
      if checkCancellationRequested i (ss_store sys) then cancelled_slice now i user_cancel 0 sys
      else (case ensure_batch env job sys of (b, sys1) \<Rightarrow>
        let tot = total_size job; start = jb_progressCurrent job; n = min chunkSize (tot - start) in
        if n \<le> 0
        then if checkCancellationRequested i (ss_store sys1) then cancelled_slice now i user_cancel 0 sys1
             else completed_slice now job w (generation_result env b tot) 0 (batch_created b sys1)
        else
          let sys2 = (if st_available (ss_store sys1) then sys1\<lparr>ss_slices := ss_slices sys1 @ [(b, start, n, tot)]\<rparr> else sys1);
              sys3 = sys2\<lparr>ss_store := updateJobProgress now i w (start + n) (Some tot) (ss_store sys2)\<rparr>
          in if checkCancellationRequested i (ss_store sys3)
             then cancelled_slice now i ''Cancellation requested during step execution'' n sys3
             else if start + n \<ge> tot
             then (let sys4 = batch_created b sys3;
                       sys5 = (if st_available (ss_store sys4) \<and> st_batches (ss_store sys4) b \<noteq> None then sys4\<lparr>ss_audit := ss_audit sys4 @ [(b, tot)]\<rparr> else sys4)
                   in completed_slice now job w (generation_result env b tot) n sys5)
             else (Inr \<lparr>so_sliceCount = n, so_isComplete = False, so_result = None\<rparr>, sys3)))"

text \<open>The one registered handler is the one of batch generation.\<close>

definition run_slice :: "StepEnv \<Rightarrow> ident \<Rightarrow> DurableJobRecord \<Rightarrow> int \<Rightarrow> StepSystem \<Rightarrow> (JobError + StepOutcome) \<times> StepSystem" where
  "run_slice env w job chunkSize sys =
     (if jb_jobType job = ''BATCH_GENERATION'' then batch_step env job chunkSize sys else default_step env w job chunkSize sys)"

section \<open>A step\<close>

definition step_duration :: "StepEnv \<Rightarrow> rat" where
  "step_duration env = max 1 (se_duration env)"

definition slice_answer :: "StepEnv \<Rightarrow> DurableJobRecord \<Rightarrow> int \<Rightarrow> StepOutcome \<Rightarrow> StepResult" where
  "slice_answer env j chunkSize outcome =
     (let d = step_duration env;
          rate = (if so_sliceCount outcome > 0 then \<lfloor>of_int (so_sliceCount outcome) / d * 1000 + 1 / 2\<rfloor> else 0);
          remaining = max 0 (jb_progressTotal j - jb_progressCurrent j)
      in \<lparr>sr_jobId = jb_id j, sr_tenantId = jb_tenantId j, sr_jobType = jb_jobType j, sr_status = jb_status j,
          sr_progressCurrent = jb_progressCurrent j, sr_progressTotal = jb_progressTotal j,
          sr_progressPct = (if jb_progressTotal j > 0 then min 100 (progress_pct (jb_progressCurrent j) (jb_progressTotal j))
             else if jb_status j = COMPLETED then 100 else 0),
          sr_completedSliceCount = so_sliceCount outcome, sr_isComplete = (jb_status j = COMPLETED \<or> so_isComplete outcome),
          sr_isCancelled = (jb_status j = CANCELLED), sr_result = (case jb_result j of None \<Rightarrow> so_result outcome | Some r \<Rightarrow> Some r),
          sr_error = non_empty (jb_error j), sr_recordsPerSecond = rate,
          sr_estimatedRemainingMs = (if rate > 0 \<and> remaining > 0 then Some (js_round_div (remaining * 1000) rate) else None),
          sr_recommendedNextChunkSize = calculateAdaptiveChunkSize
            \<lparr>ch_currentChunkSize = Some (of_int chunkSize), ch_lastDurationMs = Some d, ch_targetDurationMs = None, ch_minChunkSize = None,
             ch_maxChunkSize = None, ch_totalSize = Some (of_int (jb_progressTotal j))\<rparr>\<rparr>)"

definition step_failure :: "StepEnv \<Rightarrow> DurableJobRecord \<Rightarrow> int \<Rightarrow> string \<Rightarrow> JobStore \<Rightarrow> (JobError + StepResult) \<times> JobStore" where
  "step_failure env job chunkSize msg s =
     (case failJob (se_now env) (jb_id job) msg (fv_classification (classifyFailure msg)) None s of
        (Inl e, s1) \<Rightarrow> (Inl e, s1)
      | (Inr t, s1) \<Rightarrow> (let j = current_or job (jb_id job) s1 in (Inr ((no_slice j (jb_status j) False chunkSize)\<lparr>sr_error := Some msg\<rparr>), s1)))"

definition clamp_chunk :: "int option \<Rightarrow> int" where
  "clamp_chunk c = max 1 (min 5000 (case c of None \<Rightarrow> 100 | Some n \<Rightarrow> n))"

text \<open>An answer, an error thrown to the caller, or the record to run the slice on, with one more step in flight.\<close>

definition step_begin :: "StepEnv \<Rightarrow> ident \<Rightarrow> ident \<Rightarrow> int option \<Rightarrow> StepSystem \<Rightarrow> (JobError + StepStart) \<times> StepSystem" where
  "step_begin env w i chunk sys =
     (let chunkSize = clamp_chunk chunk; s = ss_store sys; now = se_now env in
      case getDurableJob i None s of
        None \<Rightarrow> (Inl (JobNotFound i), sys)
      | Some job \<Rightarrow>
          if finished (jb_status job) \<or> jb_status job = CANCELLED then (Inr (Answered (terminal_answer job chunkSize)), sys)
          else if cancel_seen job \<or> checkCancellationRequested i s
          then (case cancelJob now i user_cancel s of
                  (Some e, s1) \<Rightarrow> (Inl e, sys\<lparr>ss_store := s1\<rparr>)
                | (None, s1) \<Rightarrow> (Inr (Answered (no_slice (current_or job i s1) CANCELLED True chunkSize)), sys\<lparr>ss_store := s1\<rparr>))
          else if ss_inFlight sys \<ge> MAX_CONCURRENT_STEPS then (Inr (Answered (no_slice job (jb_status job) False chunkSize)), sys)
          else (case claim_step now w job chunkSize s of
                  (Inr (Dispatched j), s1) \<Rightarrow> (Inr (Dispatched j), sys\<lparr>ss_store := s1, ss_inFlight := ss_inFlight sys + 1\<rparr>)
                | (Inr (Answered r), s1) \<Rightarrow> (Inr (Answered r), sys\<lparr>ss_store := s1\<rparr>)
                | (Inl e, s1) \<Rightarrow>
                    (case step_failure env job chunkSize (error_text e) s1 of
                       (Inl e1, s2) \<Rightarrow> (Inl e1, sys\<lparr>ss_store := s2\<rparr>)
                     | (Inr r, s2) \<Rightarrow> (Inr (Answered r), sys\<lparr>ss_store := s2\<rparr>))))"

definition step_finish :: "StepEnv \<Rightarrow> ident \<Rightarrow> DurableJobRecord \<Rightarrow> int option \<Rightarrow> StepSystem \<Rightarrow> (JobError + StepResult) \<times> StepSystem" where
  "step_finish env w job chunk sys =
     (let chunkSize = clamp_chunk chunk in
      case run_slice env w job chunkSize sys of
        (Inr outcome, sys1) \<Rightarrow>
          (Inr (slice_answer env (current_or job (jb_id job) (ss_store sys1)) chunkSize outcome), sys1\<lparr>ss_inFlight := ss_inFlight sys1 - 1\<rparr>)
      | (Inl e, sys1) \<Rightarrow>
          (case step_failure env job chunkSize (error_text e) (ss_store sys1) of
             (r, s2) \<Rightarrow> (r, sys1\<lparr>ss_store := s2, ss_inFlight := ss_inFlight sys1 - 1\<rparr>)))"

definition stepJobChunk :: "StepEnv \<Rightarrow> ident \<Rightarrow> ident \<Rightarrow> int option \<Rightarrow> StepSystem \<Rightarrow> (JobError + StepResult) \<times> StepSystem" where
  "stepJobChunk env w i chunk sys =
     (case step_begin env w i chunk sys of
        (Inl e, sys1) \<Rightarrow> (Inl e, sys1)
      | (Inr (Answered r), sys1) \<Rightarrow> (Inr r, sys1)
      | (Inr (Dispatched j), sys1) \<Rightarrow> step_finish env w j chunk sys1)"

end
