(* ===== verification/Job_Lifecycle_Correct.thy ===== *)
theory Job_Lifecycle_Correct
  imports Job_Lifecycle
begin

text \<open>
  What the durable queue guarantees and what it does not: in memory every status moves along the
  transition table, so completed and cancelled jobs stay so; the table in the database has no such
  protection against workers that have lost their lease.
\<close>

section \<open>The queue in memory\<close>

lemma for_jobs_rel:
  assumes "\<And>j s. R j (fst (body j s))" "\<And>j. R j j"
  shows "list_all2 (\<lambda>(k, j) (k1, j1). k = k1 \<and> R j j1) js (fst (for_jobs body js s))"
proof (induction js arbitrary: s)
  case (Cons kj js)
  obtain k j where kj: "kj = (k, j)" by (rule prod.exhaust)
  obtain j1 s1 r where b: "body j s = (j1, s1, r)" by (metis prod.exhaust)
  have R: "R j j1" using assms(1) [of j s] by (simp add: b)
  have same: "list_all2 (\<lambda>(k, j) (k1, j1). k = k1 \<and> R j j1) js js" by (rule list_all2_refl) (use assms(2) in auto)
  show ?case
  proof (cases r)
    case None
    obtain js1 s2 q where f: "for_jobs body js s1 = (js1, s2, q)" by (metis prod.exhaust)
    show ?thesis using Cons.IH [of s1] R None by (simp add: kj b f)
  next
    case (Some x)
    then show ?thesis using R same by (simp add: kj b)
  qed
qed simp

lemma map_of_rel:
  "list_all2 (\<lambda>(k, j) (k1, j1). k = k1 \<and> R j j1) js js1 \<Longrightarrow> map_of js k = Some j \<Longrightarrow> \<exists>j1. map_of js1 k = Some j1 \<and> R j j1"
  by (induction js js1 rule: list_all2_induct) (auto split: if_splits)

text \<open>One operation moves a job of the memory along a legal transition, or leaves its status.\<close>

definition legal_move :: "DurableJobRecord \<Rightarrow> DurableJobRecord \<Rightarrow> bool" where
  "legal_move j j1 \<longleftrightarrow> jb_id j1 = jb_id j \<and> jb_tenantId j1 = jb_tenantId j \<and> jb_status j1 \<in> set (legalTransitions (jb_status j))"

lemma legal_status_refl [simp]: "t \<in> set (legalTransitions t)"
  by (cases t) simp_all

lemma legal_refl [simp]: "legal_move j j"
  by (simp add: legal_move_def)

lemma legalI [intro]:
  "assertValidTransition (jb_status j) (jb_status j1) = None \<Longrightarrow> jb_id j1 = jb_id j \<Longrightarrow> jb_tenantId j1 = jb_tenantId j \<Longrightarrow> legal_move j j1"
  by (simp add: legal_move_def assertValidTransition_def split: if_splits)

datatype JobOp =
    OpEnqueue JobEnv EnqueueParams
  | OpClaim millis ident int
  | OpRenew millis ident ident int
  | OpProgress millis ident ident int "int option"
  | OpRequestCancel millis ident ident
  | OpCancel millis ident string
  | OpComplete millis ident ident fields
  | OpFail millis ident string FailureClassification "int option"
  | OpReclaim millis int "int option"
  | OpItems millis ident ident "(ident \<times> string) list"
  | OpReplay millis ident ident
  | OpFinish millis ident ident HandlerEnd

fun run_op :: "JobOp \<Rightarrow> JobStore \<Rightarrow> JobStore" where
  "run_op (OpEnqueue env q) s = snd (enqueueJob env q s)"
| "run_op (OpClaim now w d) s = snd (claimNextJob now w d s)"
| "run_op (OpRenew now i w d) s = snd (renewLease now i w d s)"
| "run_op (OpProgress now i w c t) s = updateJobProgress now i w c t s"
| "run_op (OpRequestCancel now i tenant) s = snd (requestJobCancellation now i tenant s)"
| "run_op (OpCancel now i reason) s = snd (cancelJob now i reason s)"
| "run_op (OpComplete now i w result) s = snd (completeJob now i w result s)"
| "run_op (OpFail now i err c d) s = snd (failJob now i err c d s)"
| "run_op (OpReclaim now th d) s = snd (detectAndReclaimStalledJobs now th d s)"
| "run_op (OpItems now i tenant keys) s = snd (createJobItems now i tenant keys s)"
| "run_op (OpReplay now i tenant) s = snd (replayJob now i tenant s)"
| "run_op (OpFinish now w i e) s = worker_finish now w i e s"

definition memory_only :: "JobStore \<Rightarrow> bool" where
  "memory_only s \<longleftrightarrow> \<not> st_available s \<and> \<not> st_postgres s"

text \<open>What an operation may do to a store without a database.\<close>

definition keeps_jobs :: "JobStore \<Rightarrow> JobStore \<Rightarrow> bool" where
  "keeps_jobs s s1 \<longleftrightarrow> memory_only s1 \<and> (\<forall>k j. map_of (st_local s) k = Some j \<longrightarrow> (\<exists>j1. map_of (st_local s1) k = Some j1 \<and> legal_move j j1))"

lemma keeps_all2:
  "memory_only s1 \<Longrightarrow> list_all2 (\<lambda>(k, j) (k1, j1). k = k1 \<and> legal_move j j1) (st_local s) (st_local s1) \<Longrightarrow> keeps_jobs s s1"
  unfolding keeps_jobs_def by (auto dest: map_of_rel)

lemma keeps_map:
  "memory_only s1 \<Longrightarrow> st_local s1 = map (\<lambda>(k, j). (k, f j)) (st_local s) \<Longrightarrow> (\<And>j. legal_move j (f j)) \<Longrightarrow> keeps_jobs s s1"
  by (auto simp: keeps_jobs_def map_of_map)

lemma keeps_same: "memory_only s1 \<Longrightarrow> st_local s1 = st_local s \<Longrightarrow> keeps_jobs s s1"
  by (auto simp: keeps_jobs_def)

lemma memory_updates [simp]:
  "\<not> st_available s \<Longrightarrow> update_jobs P f s = s"
  "\<not> st_available s \<Longrightarrow> cancel_items now i s = s"
  "\<not> st_available s \<Longrightarrow> set_batch b g s = s"
  by (simp_all add: update_jobs_def cancel_items_def set_batch_def split: option.splits)

lemma keeps_enqueue: "memory_only s \<Longrightarrow> keeps_jobs s (snd (enqueueJob env q s))"
  by (auto simp: memory_only_def enqueueJob_def Let_def enqueue_local_def put_local_def keeps_jobs_def update_conv' split: option.splits)

lemma claimed_legal: "claimable now j \<Longrightarrow> legal_move j (claimed_job now w d j)"
  by (auto simp: claimable_def claimed_job_def legal_move_def)

text \<open>The body of every loop makes legal moves only.\<close>

lemma bodies_legal:
  "legal_move j (fst (claim_body now w d j u))"
  "legal_move j (fst (progress_body now i w cur t j u))"
  "legal_move j (fst (request_cancel_body now i tenant j c))"
  "legal_move j (fst (cancel_body now i reason j b))"
  "legal_move j (fst (complete_body now i w result j b))"
  "legal_move j (fst (fail_body now i err cl delay j u))"
  "legal_move j (fst (replay_body now i tenant j u))"
proof -
  show "legal_move j (fst (claim_body now w d j u))" by (simp add: claim_body_def claimed_legal)
  show "legal_move j (fst (progress_body now i w cur t j u))"
    using legal_refl [of j] by (auto simp: progress_body_def progressed_job_def legal_move_def)
  show "legal_move j (fst (request_cancel_body now i tenant j c))"
    by (cases "jb_status j") (auto simp: request_cancel_body_def cancel_verdict_def finished_def cancelled_job_def legal_move_def)
  show "legal_move j (fst (cancel_body now i reason j b))"
    by (auto simp: cancel_body_def cancelled_job_def split: option.splits)
  show "legal_move j (fst (complete_body now i w result j b))"
    by (auto simp: complete_body_def completed_job_def split: option.splits)
  show "legal_move j (fst (fail_body now i err cl delay j u))"
    by (auto simp: fail_body_def Let_def failed_job_def split: option.splits)
  show "legal_move j (fst (replay_body now i tenant j u))"
    by (auto simp: replay_body_def replayable_def replayed_job_def legal_move_def)
qed

lemma keeps_claim: "memory_only s \<Longrightarrow> keeps_jobs s (snd (claimNextJob now w d s))"
  using for_jobs_rel [of legal_move "claim_body now w d" "st_local s" "()", OF bodies_legal(1) legal_refl]
  by (auto simp: memory_only_def claimNextJob_def claim_local_def intro!: keeps_all2 split: prod.splits)

lemma keeps_renew: "memory_only s \<Longrightarrow> keeps_jobs s (snd (renewLease now i w d s))"
  by (rule keeps_map [where f = "\<lambda>j. if holds i w j then renewed_job now d j else j"])
    (auto simp: memory_only_def renewLease_def renewed_job_def legal_move_def holds_def)

lemma keeps_progress: "memory_only s \<Longrightarrow> keeps_jobs s (updateJobProgress now i w c t s)"
  using for_jobs_rel [of legal_move "progress_body now i w c t" "st_local s" "()", OF bodies_legal(2) legal_refl]
  by (auto simp: memory_only_def updateJobProgress_def intro!: keeps_all2 split: prod.splits)

lemma keeps_request: "memory_only s \<Longrightarrow> keeps_jobs s (snd (requestJobCancellation now i tenant s))"
  using for_jobs_rel [of legal_move "request_cancel_body now i tenant" "st_local s" "(None, st_localItems s)", OF bodies_legal(3) legal_refl]
  by (auto simp: memory_only_def requestJobCancellation_def request_cancel_local_def intro!: keeps_all2 split: prod.splits option.splits)

lemma keeps_cancel: "memory_only s \<Longrightarrow> keeps_jobs s (snd (cancelJob now i reason s))"
  using for_jobs_rel [of legal_move "cancel_body now i reason" "st_local s" None, OF bodies_legal(4) legal_refl]
  by (auto simp: memory_only_def cancelJob_def Let_def intro!: keeps_all2 split: prod.splits option.splits)

lemma keeps_complete: "memory_only s \<Longrightarrow> keeps_jobs s (snd (completeJob now i w result s))"
  using for_jobs_rel [of legal_move "complete_body now i w result" "st_local s" "text_field ''batchId'' result", OF bodies_legal(5) legal_refl]
  by (auto simp: memory_only_def completeJob_def Let_def intro!: keeps_all2 split: prod.splits option.splits)

lemma keeps_fail: "memory_only s \<Longrightarrow> keeps_jobs s (snd (failJob now i err c d s))"
  using for_jobs_rel [of legal_move "fail_body now i err c d" "st_local s" "()", OF bodies_legal(6) legal_refl]
  by (auto simp: memory_only_def failJob_def fail_row_def intro!: keeps_all2 split: prod.splits option.splits)

lemma keeps_reclaim: "memory_only s \<Longrightarrow> keeps_jobs s (snd (detectAndReclaimStalledJobs now th d s))"
  by (rule keeps_map [where f = "\<lambda>j. if stalled now th j then reclaimed_job now d j else j"])
    (auto simp: memory_only_def detectAndReclaimStalledJobs_def stalled_def reclaimed_job_def legal_move_def)

lemma keeps_items: "memory_only s \<Longrightarrow> keeps_jobs s (snd (createJobItems now i tenant keys s))"
  by (rule keeps_same) (auto simp: memory_only_def createJobItems_def split: prod.splits)

lemma keeps_replay: "memory_only s \<Longrightarrow> keeps_jobs s (snd (replayJob now i tenant s))"
  using for_jobs_rel [of legal_move "replay_body now i tenant" "st_local s" "()", OF bodies_legal(7) legal_refl]
  by (auto simp: memory_only_def replayJob_def intro!: keeps_all2 split: prod.splits)

text \<open>Recording the end of a handler is up to two operations, so it is a path rather than a step.\<close>

definition legal_step :: "JobStatus \<Rightarrow> JobStatus \<Rightarrow> bool" where
  "legal_step t u \<longleftrightarrow> u \<in> set (legalTransitions t)"

definition legal_path :: "DurableJobRecord \<Rightarrow> DurableJobRecord \<Rightarrow> bool" where
  "legal_path j j1 \<longleftrightarrow> jb_id j1 = jb_id j \<and> legal_step\<^sup>*\<^sup>* (jb_status j) (jb_status j1)"

definition keeps_paths :: "JobStore \<Rightarrow> JobStore \<Rightarrow> bool" where
  "keeps_paths s s1 \<longleftrightarrow> memory_only s1 \<and> (\<forall>k j. map_of (st_local s) k = Some j \<longrightarrow> (\<exists>j1. map_of (st_local s1) k = Some j1 \<and> legal_path j j1))"

lemma keeps_paths_step: "keeps_jobs s s1 \<Longrightarrow> keeps_paths s s1"
proof -
  have "legal_move j j1 \<Longrightarrow> legal_path j j1" for j j1
    by (auto simp: legal_move_def legal_path_def legal_step_def)
  then show "keeps_jobs s s1 \<Longrightarrow> keeps_paths s s1" unfolding keeps_jobs_def keeps_paths_def by blast
qed

lemma keeps_paths_refl: "memory_only s \<Longrightarrow> keeps_paths s s"
  by (simp add: keeps_paths_def legal_path_def)

lemma keeps_paths_trans:
  assumes "keeps_paths s s1" "keeps_paths s1 s2"
  shows "keeps_paths s s2"
proof -
  have "legal_path j j1 \<Longrightarrow> legal_path j1 j2 \<Longrightarrow> legal_path j j2" for j j1 j2
    unfolding legal_path_def by (metis rtranclp_trans)
  with assms show ?thesis unfolding keeps_paths_def by blast
qed

lemma keeps_finish:
  assumes "memory_only s"
  shows "keeps_paths s (worker_finish now w i outcome s)"
proof -
  have fail: "keeps_paths st (worker_failure now i msg st)" if "memory_only st" for msg st
    unfolding worker_failure_def by (rule keeps_paths_step [OF keeps_fail [OF that]])
  show ?thesis
  proof (cases outcome)
    case (Threw msg)
    then show ?thesis using fail [OF assms] by (simp add: worker_finish_def)
  next
    case (Returned result)
    define r where "r = (if checkCancellationRequested i s then cancelJob now i ''Cancelled during execution'' s else completeJob now i w result s)"
    have k: "keeps_paths s (snd r)"
      using keeps_paths_step [OF keeps_cancel [OF assms]] keeps_paths_step [OF keeps_complete [OF assms]] by (simp add: r_def)
    then have "memory_only (snd r)" by (simp add: keeps_paths_def)
    then have "keeps_paths s (worker_failure now i msg (snd r))" for msg by (rule keeps_paths_trans [OF k fail])
    with k show ?thesis by (cases r) (simp add: Returned worker_finish_def r_def [symmetric] split: option.splits)
  qed
qed

lemma run_op_keeps: "memory_only s \<Longrightarrow> keeps_paths s (run_op op s)"
  by (cases op) (simp_all add: keeps_paths_step keeps_enqueue keeps_claim keeps_renew keeps_progress keeps_request keeps_cancel
      keeps_complete keeps_fail keeps_reclaim keeps_items keeps_replay keeps_finish)

lemma run_ops_keep: "memory_only s \<Longrightarrow> keeps_paths s (fold run_op ops s)"
proof (induction ops arbitrary: s)
  case Nil
  then show ?case by (simp add: keeps_paths_refl)
next
  case (Cons op ops)
  have k: "keeps_paths s (run_op op s)" by (rule run_op_keeps [OF Cons.prems])
  then have "memory_only (run_op op s)" by (simp add: keeps_paths_def)
  from keeps_paths_trans [OF k Cons.IH [OF this]] show ?case by simp
qed

lemma final_path: "legal_step\<^sup>*\<^sup>* t u \<Longrightarrow> t = COMPLETED \<or> t = CANCELLED \<Longrightarrow> u = t"
  by (induction rule: rtranclp_induct) (auto simp: legal_step_def)


section \<open>The table\<close>

text \<open>A table with one row per job, and no copy of the job in memory.\<close>

definition row_only :: "ident \<Rightarrow> DurableJobRecord \<Rightarrow> JobStore \<Rightarrow> bool" where
  "row_only i row s \<longleftrightarrow> st_available s \<and> distinct (map jb_id (st_jobs s)) \<and> row \<in> set (st_jobs s) \<and> jb_id row = i
     \<and> i \<notin> jb_id ` set (map snd (st_local s))"

lemma find_distinct: "distinct (map jb_id rows) \<Longrightarrow> row \<in> set rows \<Longrightarrow> find (\<lambda>r. jb_id r = jb_id row) rows = Some row"
  by (induction rows) auto

lemma row_only_find: "row_only i row s \<Longrightarrow> find_job i s = Some row"
  unfolding row_only_def find_job_def using find_distinct by blast

lemma for_jobs_skip:
  assumes "\<And>j c. j \<in> set (map snd js) \<Longrightarrow> body j c = (j, c, None)"
  shows "for_jobs body js c = (js, c, None)"
  using assms by (induction js arbitrary: c) auto

lemma not_local: "row_only i row s \<Longrightarrow> j \<in> set (map snd (st_local s)) \<Longrightarrow> jb_id j \<noteq> i"
  unfolding row_only_def by (metis imageI)

lemma skip_bodies:
  assumes "row_only i row s"
  shows "for_jobs (fail_body now i err c d) (st_local s) () = (st_local s, (), None)"
    "for_jobs (complete_body now i w result) (st_local s) b = (st_local s, b, None)"
    "for_jobs (cancel_body now i reason) (st_local s) b = (st_local s, b, None)"
    "for_jobs (progress_body now i w cur t) (st_local s) () = (st_local s, (), None)"
  by (rule for_jobs_skip; use not_local [OF assms] in \<open>auto simp: fail_body_def complete_body_def cancel_body_def progress_body_def\<close>)+

lemma map_id_update: "map jb_id (update_where P f rows) = map jb_id rows" if "\<And>r. jb_id (f r) = jb_id r"
  by (induction rows) (auto simp: update_where_def that)

lemma row_only_update:
  assumes "row_only i row s" "\<And>r. jb_id (f r) = jb_id r" "P row"
  shows "row_only i (f row) (update_jobs P f s)"
  using assms by (auto simp: row_only_def update_jobs_def map_id_update) (auto simp: update_where_def)

text \<open>
  C33. A failure is written to the table whatever the job has become since. A worker whose handler
  throws turns a job another worker completed back into a pending one, which is claimed and run again
  once the backoff is over; and a job its user cancelled becomes pending with the cancellation still
  on it, so that it is neither cancelled nor ever claimed again.
\<close>

theorem failure_overwrites_final_states:
  assumes "row_only i row s" "0 < jb_attempt row" "jb_attempt row < jb_maxRetries row" "c \<notin> {INVARIANT_FAILURE, VALIDATION_FAILURE, PERMANENT}"
  shows "\<exists>s1 row1. failJob now i err c None s = (Inr PENDING, s1) \<and> row_only i row1 s1 \<and> jb_status row1 = PENDING
     \<and> (jb_status row = COMPLETED \<and> jb_cancelRequestedAt row = None \<longrightarrow> (\<forall>t \<ge> now + calculateBackoffMs (jb_attempt row). claimable t row1))
     \<and> (jb_status row = CANCELLED \<and> jb_cancelRequestedAt row = Some r \<longrightarrow> (\<forall>t. \<not> claimable t row1))"
proof -
  let ?row1 = "failed_job now err PENDING (calculateBackoffMs (jb_attempt row)) row"
  let ?s1 = "update_jobs (\<lambda>r. jb_id r = i) (failed_job now err PENDING (calculateBackoffMs (jb_attempt row))) s"
  have st: "after_failure c (jb_attempt row) (jb_maxRetries row) = PENDING"
    using assms(3,4) by (auto simp: after_failure_def dead_letter_def)
  have ro: "row_only i ?row1 ?s1"
    by (rule row_only_update [OF assms(1)]) (use assms(1) in \<open>auto simp: failed_job_def row_only_def\<close>)
  have av: "st_available s" using assms(1) by (simp add: row_only_def)
  have "fail_row now i err c None s = (PENDING, ?s1)"
    using assms(2,3) by (simp add: fail_row_def av row_only_find [OF assms(1)] or_int_def st Let_def retry_delay_def)
  moreover have "st_local ?s1 = st_local s" by (simp add: update_jobs_def)
  ultimately have "failJob now i err c None s = (Inr PENDING, ?s1)"
    using skip_bodies(1) [OF ro] by (simp add: failJob_def)
  moreover have "jb_status row = COMPLETED \<and> jb_cancelRequestedAt row = None \<longrightarrow> (\<forall>t \<ge> now + calculateBackoffMs (jb_attempt row). claimable t ?row1)"
    by (simp add: claimable_def failed_job_def)
  moreover have "jb_status row = CANCELLED \<and> jb_cancelRequestedAt row = Some r \<longrightarrow> (\<forall>t. \<not> claimable t ?row1)"
    by (simp add: claimable_def failed_job_def)
  moreover have "jb_status ?row1 = PENDING" by (simp add: failed_job_def)
  ultimately show ?thesis using ro by blast
qed

text \<open>
  Completion is fenced in the table but not for the batch: a worker that lost its job to another
  one changes no row when it completes, yet the batch its result names is marked completed while the
  job still runs.
\<close>

theorem stale_completion_finishes_batch:
  assumes "row_only i row s" "jb_workerId row = Some w2" "w \<noteq> w2" "text_field ''batchId'' result = Some b" "st_batches s b = Some br"
  shows "\<exists>s1. completeJob now i w result s = (None, s1) \<and> row_only i row s1 \<and> st_jobs s1 = st_jobs s
     \<and> st_batches s1 b = Some (br\<lparr>br_status := ''COMPLETED'', br_completedAt := Some now\<rparr>)"
proof -
  have "r = row" if "r \<in> set (st_jobs s)" "holds i w r" for r
  proof -
    have "jb_id r = jb_id row" using that assms(1) by (simp add: holds_def row_only_def)
    then show ?thesis using that(1) assms(1) unfolding row_only_def by (metis eq_key_imp_eq_value distinct_map inj_onD)
  qed
  moreover have "\<not> holds i w row" using assms(2,3) by (simp add: holds_def)
  ultimately have "update_where (holds i w) (completed_job now result) (st_jobs s) = st_jobs s"
    unfolding update_where_def by (intro map_idI) auto
  then have u: "update_jobs (holds i w) (completed_job now result) s = s" by (simp add: update_jobs_def)
  let ?s1 = "s\<lparr>st_batches := (st_batches s)(b := map_option (batch_completed now) (st_batches s b))\<rparr>"
  have "st_available s" using assms(1) by (simp add: row_only_def)
  then have "completeJob now i w result s = (None, ?s1)"
    by (simp add: completeJob_def Let_def u assms(4) skip_bodies(2) [OF assms(1)] set_batch_def)
  moreover have "row_only i row ?s1" using assms(1) by (simp add: row_only_def)
  ultimately show ?thesis using assms(5) by (simp add: batch_completed_def)
qed

text \<open>
  CN. The bound on retries only holds where failures are reported: a job whose workers die without a
  word is claimed again as soon as its lease is over, as often as that happens and whatever its
  bound, since claiming an expired job does not look at the number of attempts.
\<close>

fun silent_claims :: "nat \<Rightarrow> millis \<Rightarrow> ident \<Rightarrow> int \<Rightarrow> JobStore \<Rightarrow> JobStore" where
  "silent_claims 0 now w d s = s"
| "silent_claims (Suc n) now w d s = silent_claims n (now + d + 1) w d (snd (claimNextJob now w d s))"

theorem expired_lease_claims_unbounded:
  assumes "st_postgres s" "st_available s" "st_jobs s = [row]" "claimable now row" "0 \<le> d"
  shows "\<exists>row1. st_jobs (silent_claims n now w d s) = [row1] \<and> jb_attempt row1 = jb_attempt row + int n
     \<and> jb_maxRetries row1 = jb_maxRetries row \<and> claimable (now + int n * (d + 1)) row1"
  using assms
proof (induction n arbitrary: now row s)
  case 0
  then show ?case by simp
next
  case (Suc n)
  let ?r = "claimed_job now w d row"
  have "next_candidate now [row] = Some row" using Suc.prems(4) by (simp add: next_candidate_def js_sort_def)
  then have c: "snd (claimNextJob now w d s) = s\<lparr>st_jobs := [?r]\<rparr>"
    using Suc.prems(1-3) by (simp add: claimNextJob_def claim_row_def update_where_def)
  have retry: "case jb_nextRetryAt row of None \<Rightarrow> True | Some t \<Rightarrow> t \<le> now + d + 1"
    using Suc.prems(4,5) by (auto simp: claimable_def split: option.splits)
  have "claimable (now + d + 1) ?r"
    using Suc.prems(4) retry by (auto simp: claimable_def claimed_job_def lease_expired_def split: option.splits)
  from Suc.IH [of "s\<lparr>st_jobs := [?r]\<rparr>" ?r "now + d + 1", OF _ _ _ this Suc.prems(5)] Suc.prems(1,2)
  have "\<exists>row1. st_jobs (silent_claims n (now + d + 1) w d (s\<lparr>st_jobs := [?r]\<rparr>)) = [row1] \<and> jb_attempt row1 = jb_attempt ?r + int n
     \<and> jb_maxRetries row1 = jb_maxRetries ?r \<and> claimable (now + d + 1 + int n * (d + 1)) row1"
    by simp
  then show ?case by (simp add: c claimed_job_def algebra_simps)
qed

lemma complete_single:
  assumes "st_local s = [(k, j)]" "jb_id j = i" "jb_workerId j = Some w" "jb_status j = RUNNING"
    "update_jobs (holds i w) (completed_job t result) s = s"
  shows "\<exists>b. completeJob t i w result s = (None, set_batch b (batch_completed t) (s\<lparr>st_local := [(k, completed_job t result j)]\<rparr>))"
  using assms by (auto simp: completeJob_def Let_def complete_body_def assertValidTransition_def)

text \<open>
  Where the database is not PostgreSQL, jobs are written to the table and claimed from memory, and
  enqueueing prefers the table. A job that was completed is therefore pending again as soon as the
  same request is enqueued a second time, and the next worker runs it again.
\<close>

theorem completed_job_runs_again:
  assumes "\<not> st_postgres s" "st_available s" "st_jobs s = []" "st_local s = []"
    "truthy_str (eq_idempotencyKey q)" "je_tenant env2 = je_tenant env"
  shows "\<exists>j j1 j2 s1 s2 s3 s4 s5. enqueueJob env q s = (j, s1) \<and> claimNextJob t1 w1 d s1 = (Inr (Some j1), s2)
     \<and> completeJob t2 (jb_id j) w1 result s2 = (None, s3) \<and> map (jb_status \<circ> snd) (st_local s3) = [COMPLETED]
     \<and> enqueueJob env2 q s3 = (j, s4) \<and> claimNextJob t3 w2 d s4 = (Inr (Some j2), s5) \<and> jb_id j2 = jb_id j \<and> jb_status j2 = RUNNING"
proof -
  let ?j = "new_job env q"
  let ?k = "jb_tenantId ?j @ '':'' @ jb_idempotencyKey ?j"
  let ?j1 = "claimed_job t1 w1 d ?j"
  let ?s1 = "s\<lparr>st_jobs := [?j], st_local := [(?k, ?j)]\<rparr>"
  let ?s2 = "?s1\<lparr>st_local := [(?k, ?j1)]\<rparr>"
  have pend: "claimable t ?j" for t by (simp add: claimable_def new_job_def)
  have claim: "claimNextJob t w d s' = (Inr (Some (claimed_job t w d ?j)), s'\<lparr>st_local := [(?k, claimed_job t w d ?j)]\<rparr>)"
    if "st_local s' = [(?k, ?j)]" "\<not> st_postgres s'" for t w s'
    using that pend by (simp add: claimNextJob_def claim_local_def claim_body_def)
  have e1: "enqueueJob env q s = (?j, ?s1)"
    using assms(1-4) by (simp add: enqueueJob_def Let_def find_by_key_def find_job_def put_local_def)
  have c1: "claimNextJob t1 w1 d ?s1 = (Inr (Some ?j1), ?s2)" using claim [of ?s1] assms(1) by simp
  have u: "update_jobs (holds (jb_id ?j) w1) g ?s2 = ?s2" for g
    by (simp add: update_jobs_def update_where_def holds_def new_job_def)
  have "\<exists>b. completeJob t2 (jb_id ?j) w1 result ?s2
      = (None, set_batch b (batch_completed t2) (?s2\<lparr>st_local := [(?k, completed_job t2 result ?j1)]\<rparr>))"
    using complete_single [of ?s2 ?k ?j1 "jb_id ?j" w1 t2 result] u by (simp add: claimed_job_def)
  then obtain b where f1: "completeJob t2 (jb_id ?j) w1 result ?s2
      = (None, set_batch b (batch_completed t2) (?s2\<lparr>st_local := [(?k, completed_job t2 result ?j1)]\<rparr>))" by blast
  let ?s3 = "set_batch b (batch_completed t2) (?s2\<lparr>st_local := [(?k, completed_job t2 result ?j1)]\<rparr>)"
  have s3: "st_local ?s3 = [(?k, completed_job t2 result ?j1)]" "st_jobs ?s3 = [?j]" "st_available ?s3" "\<not> st_postgres ?s3"
    using assms(1,2) by (simp_all add: set_batch_def split: option.splits)
  have key: "jb_tenantId (new_job env2 q) = jb_tenantId ?j" "jb_idempotencyKey (new_job env2 q) = jb_idempotencyKey ?j"
    "jb_maxRetries (new_job env2 q) = jb_maxRetries ?j" "jb_progressTotal (new_job env2 q) = jb_progressTotal ?j"
    using assms(5,6) by (simp_all add: new_job_def or_text_def)
  have r: "read_row (jb_maxRetries ?j) (jb_progressTotal ?j) ?j = ?j"
    by (simp add: read_row_def or_int_def non_empty_def truthy_str_def new_job_def)
  have e2: "enqueueJob env2 q ?s3 = (?j, ?s3\<lparr>st_local := [(?k, ?j)]\<rparr>)"
    using s3 by (simp add: enqueueJob_def Let_def key find_by_key_def r put_local_def)
  have "map (jb_status \<circ> snd) (st_local ?s3) = [COMPLETED]" unfolding s3(1) by (simp add: completed_job_def)
  with e1 c1 f1 e2 claim [of "?s3\<lparr>st_local := [(?k, ?j)]\<rparr>" t3 w2] s3(4) show ?thesis
    by (fastforce simp: claimed_job_def)
qed

text \<open>
  The test for cancellations comes first and looks for the syllables of cancel anywhere: the message
  PostgreSQL gives for a statement timeout is classified as a cancellation and not as a timeout of the
  database, although the pattern for it is there, and so for every message that contains it.
\<close>

lemma js_includes_append: "js_includes s p \<Longrightarrow> js_includes (x @ s) p"
  by (induction x) auto

lemma js_includes_mid: "js_includes (p @ y) p"
proof (cases "p @ y")
  case Nil
  then show ?thesis by simp
next
  case (Cons c t)
  then show ?thesis using js_startsWith_append [of p y] by (simp add: Cons)
qed

theorem statement_timeout_not_retried:
  "fv_classification (classifyFailure (x @ ''canceling statement due to statement timeout'' @ y)) = CANCELLED_FAILURE
   \<and> \<not> fv_retryable (classifyFailure (x @ ''canceling statement due to statement timeout'' @ y))"
proof -
  define msg where "msg = x @ ''canceling statement due to statement timeout'' @ y"
  have "js_toLowerCase msg = js_toLowerCase x @ (''cancel'' @ (''ing statement due to statement timeout'' @ js_toLowerCase y))"
    by (simp add: msg_def js_toLowerCase_def js_lower_def)
  then have "js_includes (js_toLowerCase msg) ''cancel''" by (metis js_includes_append js_includes_mid)
  then have "includes_any (js_toLowerCase msg) [''cancel'', ''aborted'']" unfolding includes_any_def list_ex_iff by (rule bexI [OF _ list.set_intros(1)])
  then have "classifyFailure msg = verdict msg CANCELLED_FAILURE False None" by (simp only: classifyFailure_def Let_def if_True)
  then show ?thesis unfolding msg_def by (simp only: verdict_def FailureVerdict.simps simp_thms)
qed

section \<open>Witnesses\<close>

definition sample_job_env :: JobEnv where
  "sample_job_env = \<lparr>je_now = 0, je_uuid = ''0123456789abcdef'', je_keyUuid = ''k'', je_tenant = ''t''\<rparr>"

definition sample_request :: EnqueueParams where
  "sample_request = \<lparr>eq_tenantId = None, eq_idempotencyKey = Some ''gen_250'', eq_jobType = ''BATCH_GENERATION'',
     eq_payload = [(''batchId'', JStr ''b1''), (''size'', JInt 250)], eq_maxRetries = None, eq_progressTotal = Some 250\<rparr>"

definition sample_job :: DurableJobRecord where
  "sample_job = new_job sample_job_env sample_request"

definition empty_store :: "bool \<Rightarrow> bool \<Rightarrow> JobStore" where
  "empty_store pg av = \<lparr>st_postgres = pg, st_available = av, st_jobs = [], st_items = [],
     st_batches = Map.empty(''b1'' \<mapsto> \<lparr>br_status = ''PROCESSING'', br_completedAt = None\<rparr>), st_local = [], st_localItems = []\<rparr>"

definition table_with :: "DurableJobRecord \<Rightarrow> JobStore" where
  "table_with j = (empty_store True True)\<lparr>st_jobs := [j]\<rparr>"

lemma table_with_row: "row_only (jb_id j) j (table_with j)"
  by (simp add: row_only_def table_with_def empty_store_def)


theorem failure_overwrites_final_states_witness:
  "\<exists>s1 row1. failJob 9 (jb_id sample_job) ''boom'' TIMEOUT None (table_with (completed_job 3 [] (claimed_job 1 ''w2'' 30000 sample_job))) = (Inr PENDING, s1)
     \<and> row_only (jb_id sample_job) row1 s1 \<and> claimable 6000 row1"
proof -
  let ?j = "completed_job 3 [] (claimed_job 1 ''w2'' 30000 sample_job)"
  have i: "jb_id ?j = jb_id sample_job" by (simp add: completed_job_def claimed_job_def)
  have r: "row_only (jb_id sample_job) ?j (table_with ?j)" using table_with_row [of ?j] by (simp add: i)
  have a: "0 < jb_attempt ?j" "jb_attempt ?j < jb_maxRetries ?j" "TIMEOUT \<notin> {INVARIANT_FAILURE, VALIDATION_FAILURE, PERMANENT}"
    "9 + calculateBackoffMs (jb_attempt ?j) \<le> 6000" "jb_status ?j = COMPLETED" "jb_cancelRequestedAt ?j = None"
    by (simp_all add: completed_job_def claimed_job_def sample_job_def new_job_def sample_request_def calculateBackoffMs_def backoff_seconds_def)
  from failure_overwrites_final_states [OF r a(1-3), of 9 "''boom''"] a(4-6) show ?thesis by blast
qed

theorem stale_completion_finishes_batch_witness:
  "\<exists>s1. completeJob 9 (jb_id sample_job) ''w1'' [(''batchId'', JStr ''b1'')] (table_with (claimed_job 1 ''w2'' 30000 sample_job)) = (None, s1)
     \<and> map jb_status (st_jobs s1) = [RUNNING] \<and> map_option br_status (st_batches s1 ''b1'') = Some ''COMPLETED''"
proof -
  let ?j = "claimed_job 1 ''w2'' 30000 sample_job"
  have i: "jb_id ?j = jb_id sample_job" by (simp add: claimed_job_def)
  have r: "row_only (jb_id sample_job) ?j (table_with ?j)" using table_with_row [of ?j] by (simp add: i)
  have a: "jb_workerId ?j = Some ''w2''" "''w1'' \<noteq> ''w2''" "text_field ''batchId'' [(''batchId'', JStr ''b1'')] = Some ''b1''"
    "st_batches (table_with ?j) ''b1'' = Some \<lparr>br_status = ''PROCESSING'', br_completedAt = None\<rparr>" "map jb_status (st_jobs (table_with ?j)) = [RUNNING]"
    by (simp_all add: claimed_job_def text_field_def table_with_def empty_store_def)
  from stale_completion_finishes_batch [OF r a(1-4), of 9] a(5) show ?thesis by auto
qed

theorem expired_lease_claims_unbounded_witness:
  "\<exists>row1. st_jobs (silent_claims 7 0 ''w'' 30000 (table_with sample_job)) = [row1] \<and> jb_attempt row1 = 7 \<and> jb_maxRetries row1 = 3"
proof -
  have a: "st_postgres (table_with sample_job)" "st_available (table_with sample_job)" "st_jobs (table_with sample_job) = [sample_job]"
    "claimable 0 sample_job" "(0::int) \<le> 30000" "jb_attempt sample_job = 0" "jb_maxRetries sample_job = 3"
    by (simp_all add: table_with_def empty_store_def claimable_def sample_job_def new_job_def sample_request_def)
  from expired_lease_claims_unbounded [OF a(1-5), of 7 "''w''"] a(6,7) show ?thesis by auto
qed

theorem completed_job_runs_again_witness:
  "\<exists>j j1 j2 s1 s2 s3 s4 s5. enqueueJob sample_job_env sample_request (empty_store False True) = (j, s1)
     \<and> claimNextJob 1 ''w1'' 30000 s1 = (Inr (Some j1), s2) \<and> completeJob 2 (jb_id j) ''w1'' [] s2 = (None, s3)
     \<and> map (jb_status \<circ> snd) (st_local s3) = [COMPLETED] \<and> enqueueJob sample_job_env sample_request s3 = (j, s4)
     \<and> claimNextJob 3 ''w2'' 30000 s4 = (Inr (Some j2), s5) \<and> jb_id j2 = jb_id j \<and> jb_status j2 = RUNNING"
  by (rule completed_job_runs_again) (simp_all add: empty_store_def truthy_str_def sample_request_def)

end
