(* ===== verification/Job_Steps_Correct.thy ===== *)
theory Job_Steps_Correct
  imports Job_Steps Job_Lifecycle_Correct
begin

text \<open>
  Stepping a batch generation job: one step after another generates every record exactly once and
  completes the job; steps that overlap generate the same slice again.
\<close>

section \<open>One step on a row of the table\<close>

lemma check_row: "row_only i row s \<Longrightarrow> checkCancellationRequested i s = cancel_seen row"
  using row_only_find [of i row s] by (simp add: checkCancellationRequested_def row_only_def)

lemma get_row: "row_only i row s \<Longrightarrow> getDurableJob i None s = Some (read_row 3 0 row)"
  using row_only_find [of i row s] by (simp add: getDurableJob_def row_only_def of_tenant_def truthy_str_def)

lemma update_keeps_local [simp]:
  "st_local (update_jobs P f s) = st_local s" "st_available (update_jobs P f s) = st_available s"
  "st_batches (update_jobs P f s) = st_batches s" "(update_jobs P f s)\<lparr>st_local := st_local s\<rparr> = update_jobs P f s"
  by (simp_all add: update_jobs_def)

lemma progress_row:
  "row_only i row s \<Longrightarrow> updateJobProgress now i w c t s = update_jobs (holds i w) (progressed_job now c t) s"
  by (simp add: updateJobProgress_def skip_bodies(4))

lemma row_only_batch [simp]: "row_only i row (set_batch b f s) = row_only i row s"
  by (simp add: row_only_def set_batch_def split: option.splits)

lemma batch_fields [simp]:
  "st_available (set_batch b f s) = st_available s" "st_jobs (set_batch b f s) = st_jobs s" "st_local (set_batch b f s) = st_local s"
  by (simp_all add: set_batch_def split: option.splits)

lemma row_only_ids: "row_only i row s \<Longrightarrow> r \<in> set (st_jobs s) \<Longrightarrow> jb_id r = i \<Longrightarrow> r = row"
  unfolding row_only_def by (metis eq_key_imp_eq_value distinct_map inj_onD)

lemma complete_row:
  assumes "row_only i row s"
  shows "\<exists>x. completeJob now i w result s = (None, set_batch x (batch_completed now) (update_jobs (holds i w) (completed_job now result) s))
    \<and> (text_field ''batchId'' result = Some b \<longrightarrow> x = Some b)"
  using skip_bodies(2) [OF assms] by (auto simp: completeJob_def Let_def split: option.splits)

text \<open>A generation job in the table that is not done yet.\<close>

definition generating :: "ident \<Rightarrow> ident \<Rightarrow> int \<Rightarrow> DurableJobRecord \<Rightarrow> JobStore \<Rightarrow> bool" where
  "generating i b tot row s \<longleftrightarrow> row_only i row s \<and> jb_jobType row = ''BATCH_GENERATION''
     \<and> text_field ''batchId'' (jb_payload row) = Some b \<and> int_field ''size'' (jb_payload row) = Some tot \<and> jb_progressTotal row = tot
     \<and> jb_status row \<in> {PENDING, RUNNING} \<and> jb_cancelRequestedAt row = None \<and> 0 \<le> jb_progressCurrent row \<and> jb_progressCurrent row < tot"

lemma generating_steppable: "generating i b tot row s \<Longrightarrow> steppable i row"
  by (auto simp: generating_def steppable_def row_only_def)

lemma generating_not_seen: "generating i b tot row s \<Longrightarrow> \<not> cancel_seen row"
  by (auto simp: generating_def cancel_seen_def)

lemma stepped_generating:
  assumes "generating i b tot row s"
  shows "generating i b tot (stepped_job now w row) (update_jobs (steppable i) (stepped_job now w) s)"
proof -
  have "row_only i (stepped_job now w row) (update_jobs (steppable i) (stepped_job now w) s)"
    by (rule row_only_update) (use assms generating_steppable [OF assms] in \<open>auto simp: generating_def stepped_job_def\<close>)
  with assms show ?thesis by (simp add: generating_def stepped_job_def)
qed

text \<open>The record a step works on.\<close>

definition snapshot :: "ident \<Rightarrow> DurableJobRecord \<Rightarrow> DurableJobRecord" where
  "snapshot w row = (read_row 3 0 row)\<lparr>jb_status := RUNNING, jb_workerId := Some w\<rparr>"

lemma begin_dispatches:
  assumes g: "generating i b tot row (ss_store sys)" and f: "ss_inFlight sys < 4"
  shows "step_begin env w i chunk sys = (Inr (Dispatched (snapshot w row)),
     sys\<lparr>ss_store := update_jobs (steppable i) (stepped_job (se_now env) w) (ss_store sys), ss_inFlight := ss_inFlight sys + 1\<rparr>)"
proof -
  let ?s = "ss_store sys" and ?now = "se_now env" and ?j = "read_row 3 0 row"
  let ?s1 = "update_jobs (steppable i) (stepped_job ?now w) ?s"
  have r: "row_only i row ?s" and r1: "row_only i (stepped_job ?now w row) ?s1"
    using g stepped_generating [OF g, of ?now w] by (simp_all add: generating_def)
  have id: "jb_id ?j = i" using r by (simp add: read_row_def row_only_def)
  have st: "\<not> finished (jb_status ?j)" "jb_status ?j \<noteq> CANCELLED" "\<not> cancel_seen ?j" "\<not> cancel_seen row"
    using g generating_not_seen [OF g] by (auto simp: generating_def finished_def read_row_def cancel_seen_def)
  have av: "st_available ?s" and "row \<in> set (st_jobs ?s)" using r by (auto simp: row_only_def)
  then have "list_ex (steppable i) (st_jobs ?s)" using generating_steppable [OF g] by (auto simp: list_ex_iff)
  then have c: "claim_in_table ?now w ?j (clamp_chunk chunk) ?s = (None, ?s1)"
    by (simp add: claim_in_table_def av id Let_def)
  have skip: "for_jobs (step_body ?now w i) (st_local ?s1) () = (st_local ?s1, (), None)"
    by (rule for_jobs_skip) (use not_local [OF r1] in \<open>auto simp: step_body_def\<close>)
  have "\<not> cancel_seen (stepped_job ?now w row)"
    using generating_not_seen [OF stepped_generating [OF g]] .
  then have "claim_step ?now w ?j (clamp_chunk chunk) ?s = (Inr (Dispatched (snapshot w row)), ?s1)"
    using skip by (simp add: claim_step_def id c Let_def check_row [OF r1] snapshot_def)
  with st f show ?thesis
    by (simp add: step_begin_def Let_def get_row [OF r] check_row [OF r] MAX_CONCURRENT_STEPS_def)
qed

text \<open>What the slice of a job in the table does, whoever holds the row by then.\<close>

definition slice_of :: "DurableJobRecord \<Rightarrow> int option \<Rightarrow> int \<Rightarrow> int" where
  "slice_of row chunk tot = min (clamp_chunk chunk) (tot - jb_progressCurrent row)"

lemma slice_positive: "jb_progressCurrent row < tot \<Longrightarrow> 0 < slice_of row chunk tot"
  by (simp add: slice_of_def clamp_chunk_def)

lemma snapshot_fields:
  assumes "generating i b tot row s"
  shows "jb_id (snapshot w row) = i" "jb_payload (snapshot w row) = jb_payload row" "jb_jobType (snapshot w row) = ''BATCH_GENERATION''"
    "jb_progressCurrent (snapshot w row) = jb_progressCurrent row" "total_size (snapshot w row) = tot" "jb_workerId (snapshot w row) = Some w"
  using assms by (auto simp: generating_def snapshot_def read_row_def row_only_def total_size_def)

lemma run_slice_step:
  assumes g0: "generating i b tot row0 s0" and g: "generating i b tot row (ss_store sys)" and w: "w \<noteq> ''''"
    and u: "\<not> cancel_seen row1" "row_only i row1 (updateJobProgress (se_now env) i w (jb_progressCurrent row0 + n) (Some tot) (ss_store sys))"
    and n: "n = slice_of row0 chunk tot"
  defines "s1 \<equiv> updateJobProgress (se_now env) i w (jb_progressCurrent row0 + n) (Some tot) (ss_store sys)"
  shows "run_slice env w (snapshot w row0) (clamp_chunk chunk) sys =
     (let sys3 = sys\<lparr>ss_slices := ss_slices sys @ [(b, jb_progressCurrent row0, n, tot)], ss_store := s1\<rparr>
      in if jb_progressCurrent row0 + n < tot then (Inr \<lparr>so_sliceCount = n, so_isComplete = False, so_result = None\<rparr>, sys3)
         else (let sys4 = batch_created b sys3;
                   sys5 = (if st_batches (ss_store sys4) b \<noteq> None then sys4\<lparr>ss_audit := ss_audit sys4 @ [(b, tot)]\<rparr> else sys4)
               in completed_slice (se_now env) (snapshot w row0) w (generation_result env b tot) n sys5))"
proof -
  note F = snapshot_fields [OF g0, of w]
  have bt: "text_field ''batchId'' (jb_payload row0) = Some b" using g0 by (simp add: generating_def)
  have r: "row_only i row (ss_store sys)" and av: "st_available (ss_store sys)" using g by (auto simp: generating_def row_only_def)
  have av1: "st_available s1" using u(2) by (simp add: s1_def row_only_def)
  have pos: "\<not> n \<le> 0" using slice_positive [of row0 tot chunk] g0 by (simp add: n generating_def)
  have n': "min (clamp_chunk chunk) (tot - jb_progressCurrent row0) = n" by (simp add: n slice_of_def)
  have b: "ensure_batch env (snapshot w row0) sys = (b, sys)" by (simp add: ensure_batch_def F bt)
  have seen: "\<not> checkCancellationRequested i (ss_store sys)" using generating_not_seen [OF g] by (simp add: check_row [OF r])
  have seen1: "\<not> checkCancellationRequested i s1" using check_row [OF u(2)] u(1) by (simp add: s1_def)
  have wk: "or_text (Some w) ''stepper'' = w" using w by (simp add: or_text_def truthy_str_def)
  show ?thesis
    using pos seen seen1 av1 av
    by (simp add: run_slice_def F batch_step_def Let_def wk b n' s1_def [symmetric] batch_created_def not_less)
qed

text \<open>The holder of the row.\<close>

lemma own_slice:
  assumes g: "generating i b tot row (ss_store sys)" and h: "holds i w row" and w: "w \<noteq> ''''"
    and p0: "jb_progressCurrent row = jb_progressCurrent row0"
    and g0: "generating i b tot row0 s0" and n: "n = slice_of row0 chunk tot"
  shows "\<exists>r sys1 row1. step_finish env w (snapshot w row0) chunk sys = (Inr r, sys1) \<and> ss_inFlight sys1 = ss_inFlight sys - 1
     \<and> ss_slices sys1 = ss_slices sys @ [(b, jb_progressCurrent row0, n, tot)] \<and> row_only i row1 (ss_store sys1)
     \<and> jb_progressCurrent row1 = jb_progressCurrent row0 + n
     \<and> (if jb_progressCurrent row0 + n < tot then generating i b tot row1 (ss_store sys1) else jb_status row1 = COMPLETED)"
proof -
  let ?now = "se_now env" and ?p = "jb_progressCurrent row0 + n"
  let ?row1 = "progressed_job ?now ?p (Some tot) row"
  let ?s1 = "updateJobProgress ?now i w ?p (Some tot) (ss_store sys)"
  have r: "row_only i row (ss_store sys)" using g by (simp add: generating_def)
  have r1: "row_only i ?row1 ?s1"
    unfolding progress_row [OF r] by (rule row_only_update [where P = "holds i w", OF r]) (simp_all add: progressed_job_def h)
  have seen: "\<not> cancel_seen ?row1" using generating_not_seen [OF g] by (simp add: cancel_seen_def progressed_job_def)
  have h1: "holds i w ?row1" using h by (simp add: holds_def progressed_job_def)
  note R = run_slice_step [OF g0 g w seen r1 n]
  have pos: "0 < n" using slice_positive [of row0 tot chunk] g0 by (simp add: n generating_def)
  show ?thesis
  proof (cases "?p < tot")
    case True
    have "generating i b tot ?row1 ?s1" using g r1 True pos g0 p0 by (simp add: generating_def progressed_job_def)
    with True r1 R show ?thesis by (simp add: step_finish_def Let_def) (auto simp: progressed_job_def)
  next
    case False
    define sysc where "sysc = batch_created b (sys\<lparr>ss_slices := ss_slices sys @ [(b, jb_progressCurrent row0, n, tot)], ss_store := ?s1\<rparr>)"
    define sysa where "sysa = (if st_batches (ss_store sysc) b \<noteq> None then sysc\<lparr>ss_audit := ss_audit sysc @ [(b, tot)]\<rparr> else sysc)"
    have F: "ss_inFlight sysa = ss_inFlight sys" "ss_slices sysa = ss_slices sys @ [(b, jb_progressCurrent row0, n, tot)]"
      "row_only i ?row1 (ss_store sysa)"
      using r1 by (simp_all add: sysa_def sysc_def batch_created_def)
    let ?row2 = "completed_job ?now (generation_result env b tot) ?row1"
    obtain x where x: "completeJob ?now i w (generation_result env b tot) (ss_store sysa)
        = (None, set_batch x (batch_completed ?now) (update_jobs (holds i w) (completed_job ?now (generation_result env b tot)) (ss_store sysa)))"
      using complete_row [OF F(3)] by blast
    have "row_only i ?row2 (update_jobs (holds i w) (completed_job ?now (generation_result env b tot)) (ss_store sysa))"
      by (rule row_only_update [where P = "holds i w", OF F(3)]) (simp_all add: completed_job_def h1)
    moreover have "jb_status ?row2 = COMPLETED" "jb_progressCurrent ?row2 = ?p" by (simp_all add: completed_job_def progressed_job_def)
    moreover have "run_slice env w (snapshot w row0) (clamp_chunk chunk) sys
        = completed_slice ?now (snapshot w row0) w (generation_result env b tot) n sysa"
      using R False by (simp add: Let_def sysa_def sysc_def)
    ultimately show ?thesis using False F x
      by (simp add: step_finish_def Let_def completed_slice_def snapshot_fields [OF g0]) blast
  qed
qed

lemma step_row:
  assumes g: "generating i b tot row (ss_store sys)" and f: "ss_inFlight sys < 4" and w: "w \<noteq> ''''" and n: "n = slice_of row chunk tot"
  shows "\<exists>r sys1 row1. stepJobChunk env w i chunk sys = (Inr r, sys1) \<and> ss_inFlight sys1 = ss_inFlight sys
     \<and> ss_slices sys1 = ss_slices sys @ [(b, jb_progressCurrent row, n, tot)] \<and> row_only i row1 (ss_store sys1)
     \<and> jb_progressCurrent row1 = jb_progressCurrent row + n
     \<and> (if jb_progressCurrent row + n < tot then generating i b tot row1 (ss_store sys1) else jb_status row1 = COMPLETED)"
proof -
  let ?sys1 = "sys\<lparr>ss_store := update_jobs (steppable i) (stepped_job (se_now env) w) (ss_store sys), ss_inFlight := ss_inFlight sys + 1\<rparr>"
  have g1: "generating i b tot (stepped_job (se_now env) w row) (ss_store ?sys1)" using stepped_generating [OF g] by simp
  have h: "holds i w (stepped_job (se_now env) w row)" using g by (simp add: holds_def stepped_job_def generating_def row_only_def)
  have p: "jb_progressCurrent (stepped_job (se_now env) w row) = jb_progressCurrent row" by (simp add: stepped_job_def)
  show ?thesis
    using own_slice [OF g1 h w p g n, of env] by (simp add: stepJobChunk_def begin_dispatches [OF g f])
qed

section \<open>One step after another\<close>

fun run_steps :: "ident \<Rightarrow> (StepEnv \<times> ident \<times> int option) list \<Rightarrow> StepSystem \<Rightarrow> StepSystem" where
  "run_steps i [] sys = sys"
| "run_steps i ((env, w, chunk) # steps) sys = run_steps i steps (snd (stepJobChunk env w i chunk sys))"

definition capacity :: "(StepEnv \<times> ident \<times> int option) list \<Rightarrow> int" where
  "capacity steps = sum_list (map (\<lambda>(env, w, chunk). clamp_chunk chunk) steps)"

text \<open>The indices of the records a slice generates.\<close>

definition indices :: "ident \<times> int \<times> int \<times> int \<Rightarrow> int list" where
  "indices x = (case x of (b, start, n, tot) \<Rightarrow> [start..start + n - 1])"

lemma run_steps_done:
  assumes "row_only i row (ss_store sys)" "jb_status row = COMPLETED"
  shows "run_steps i steps sys = sys"
proof -
  have "snd (stepJobChunk env w i chunk sys) = sys" for env w chunk
    using assms by (simp add: stepJobChunk_def step_begin_def Let_def get_row finished_def read_row_def)
  then show ?thesis by (induction steps) auto
qed

lemma run_steps_cover:
  assumes "generating i b tot row (ss_store sys)" "ss_inFlight sys < 4" "\<forall>(env, w, chunk) \<in> set steps. w \<noteq> ''''"
    "tot - jb_progressCurrent row \<le> capacity steps"
  shows "\<exists>row1 new. row_only i row1 (ss_store (run_steps i steps sys)) \<and> jb_status row1 = COMPLETED \<and> jb_progressCurrent row1 = tot
     \<and> ss_slices (run_steps i steps sys) = ss_slices sys @ new \<and> concat (map indices new) = [jb_progressCurrent row..tot - 1]"
  using assms
proof (induction steps arbitrary: sys row)
  case Nil
  then show ?case by (simp add: capacity_def generating_def)
next
  case (Cons x steps)
  obtain env w chunk where x: "x = (env, w, chunk)" by (rule prod_cases3)
  let ?p = "jb_progressCurrent row" and ?n = "slice_of row chunk tot"
  have w: "w \<noteq> ''''" and ws: "\<forall>(env, w, chunk) \<in> set steps. w \<noteq> ''''" using Cons.prems(3) by (simp_all add: x)
  have pos: "0 < ?n" using slice_positive Cons.prems(1) by (simp add: generating_def)
  obtain r sys1 row1 where s: "stepJobChunk env w i chunk sys = (Inr r, sys1)" "ss_inFlight sys1 = ss_inFlight sys"
      "ss_slices sys1 = ss_slices sys @ [(b, ?p, ?n, tot)]" "row_only i row1 (ss_store sys1)" "jb_progressCurrent row1 = ?p + ?n"
      "if ?p + ?n < tot then generating i b tot row1 (ss_store sys1) else jb_status row1 = COMPLETED"
    using step_row [OF Cons.prems(1,2) w refl] by blast
  have run: "run_steps i (x # steps) sys = run_steps i steps sys1" by (simp add: x s(1))
  show ?case
  proof (cases "?p + ?n < tot")
    case True
    then have "?n = clamp_chunk chunk" by (auto simp: slice_of_def)
    then have cap: "tot - jb_progressCurrent row1 \<le> capacity steps" using Cons.prems(4) by (simp add: capacity_def x s(5))
    have g1: "generating i b tot row1 (ss_store sys1)" using s(6) True by simp
    obtain row2 new where c: "row_only i row2 (ss_store (run_steps i steps sys1))" "jb_status row2 = COMPLETED" "jb_progressCurrent row2 = tot"
        "ss_slices (run_steps i steps sys1) = ss_slices sys1 @ new" "concat (map indices new) = [?p + ?n..tot - 1]"
      using Cons.IH [OF g1 _ ws cap] Cons.prems(2) s(2,5) by auto
    have "[?p..tot - 1] = [?p..?p + ?n - 1] @ [?p + ?n..tot - 1]" using pos True by (intro upto_split1) auto
    with c s(3) have "ss_slices (run_steps i steps sys1) = ss_slices sys @ ((b, ?p, ?n, tot) # new)"
        "concat (map indices ((b, ?p, ?n, tot) # new)) = [?p..tot - 1]"
      by (simp_all add: indices_def)
    with c(1-3) run show ?thesis by metis
  next
    case False
    then have "?p + ?n = tot" by (auto simp: slice_of_def)
    moreover have "jb_status row1 = COMPLETED" using s(6) False by simp
    ultimately have "run_steps i steps sys1 = sys1" "concat (map indices [(b, ?p, ?n, tot)]) = [?p..tot - 1]" "jb_progressCurrent row1 = tot"
      using run_steps_done [OF s(4)] s(5) by (simp_all add: indices_def)
    with s(3,4) \<open>jb_status row1 = COMPLETED\<close> run show ?thesis by metis
  qed
qed


section \<open>Overlapping steps\<close>

lemma other_slice:
  assumes g: "generating i b tot row (ss_store sys)" and h: "jb_workerId row = Some w2" "w1 \<noteq> w2" and w: "w1 \<noteq> ''''"
    and g0: "generating i b tot row0 s0" and n: "n = slice_of row0 chunk tot" and more: "jb_progressCurrent row0 + n < tot"
  shows "\<exists>r. step_finish env w1 (snapshot w1 row0) chunk sys
     = (Inr r, sys\<lparr>ss_slices := ss_slices sys @ [(b, jb_progressCurrent row0, n, tot)], ss_inFlight := ss_inFlight sys - 1\<rparr>)"
proof -
  have r: "row_only i row (ss_store sys)" using g by (simp add: generating_def)
  have "\<not> holds i w1 x" if "x \<in> set (st_jobs (ss_store sys))" for x
    using row_only_ids [OF r that] h by (auto simp: holds_def)
  then have "update_where (holds i w1) f (st_jobs (ss_store sys)) = st_jobs (ss_store sys)" for f
    unfolding update_where_def by (intro map_idI) auto
  then have u: "updateJobProgress (se_now env) i w1 c t (ss_store sys) = ss_store sys" for c t
    by (simp add: progress_row [OF r] update_jobs_def)
  have "row_only i row (updateJobProgress (se_now env) i w1 (jb_progressCurrent row0 + n) (Some tot) (ss_store sys))"
    using r by (simp add: u)
  from run_slice_step [OF g0 g w generating_not_seen [OF g] this n] more show ?thesis
    by (simp add: step_finish_def Let_def u)
qed


section \<open>Witnesses\<close>

definition sample_generation :: StepSystem where
  "sample_generation = \<lparr>ss_store = table_with sample_job, ss_inFlight = 0, ss_slices = [], ss_audit = []\<rparr>"

definition sample_step :: StepEnv where
  "sample_step = \<lparr>se_now = 1, se_iso = ''2026-01-01T00:00:00.000Z'', se_batchId = ''b9'', se_duration = 400\<rparr>"

lemma sample_generating: "generating (jb_id sample_job) ''b1'' 250 sample_job (ss_store sample_generation)"
  using table_with_row [of sample_job]
  by (simp add: generating_def sample_generation_def) (simp add: sample_job_def new_job_def sample_request_def text_field_def int_field_def)



end
