(* ===== verification/Bounded_Pool.thy ===== *)
theory Bounded_Pool
  imports Prelude
begin

text \<open>
  The pool that processes the items of a job with bounded concurrency
  (\<open>processItemsBoundedConcurrency\<close> of \<open>src/lib/workers/durable-job-worker.ts\<close>). The workers share the
  next index, the number of completed items, the results and the flag of cancellation, and take turns at
  the points where the source awaits: the check for cancellation, the processor, the report of progress.
  A turn is given with the worker that moves and the answer of the check; the processor is a function of
  the index that fails or gives a result.
\<close>

datatype pc = Next | Checking nat | Processing nat | Reporting | Stopped | Crashed

record 'r Pool =
  pl_index :: nat
  pl_completed :: nat
  pl_results :: "'r option list"
  pl_cancelled :: bool
  pl_workers :: "pc list"
  pl_calls :: "nat list"
  pl_reports :: "nat list"

definition pool_size :: "int option \<Rightarrow> nat \<Rightarrow> nat" where
  "pool_size concurrency n = min (nat (max 1 (min 30 (case concurrency of None \<Rightarrow> 12 | Some c \<Rightarrow> c)))) n"

definition start_pool :: "int option \<Rightarrow> nat \<Rightarrow> 'r Pool" where
  "start_pool concurrency n = \<lparr>pl_index = 0, pl_completed = 0, pl_results = replicate n None, pl_cancelled = False,
     pl_workers = replicate (pool_size concurrency n) Next, pl_calls = [], pl_reports = []\<rparr>"

definition move :: "nat \<Rightarrow> pc \<Rightarrow> 'r Pool \<Rightarrow> 'r Pool" where
  "move k p st = st\<lparr>pl_workers := (pl_workers st)[k := p]\<rparr>"

definition call_processor :: "nat \<Rightarrow> nat \<Rightarrow> 'r Pool \<Rightarrow> 'r Pool" where
  "call_processor k i st = (move k (Processing i) st)\<lparr>pl_calls := pl_calls st @ [i]\<rparr>"

text \<open>The head of the loop: take an index, and check for cancellation at every tenth.\<close>

definition take_index :: "nat \<Rightarrow> 'r Pool \<Rightarrow> 'r Pool" where
  "take_index k st =
     (if \<not> (pl_index st < length (pl_results st) \<and> \<not> pl_cancelled st) then move k Stopped st
      else let i = pl_index st; st1 = st\<lparr>pl_index := i + 1\<rparr>
           in if i mod 10 = 0 then move k (Checking i) st1 else call_processor k i st1)"

definition store_result :: "nat \<Rightarrow> nat \<Rightarrow> 'r \<Rightarrow> 'r Pool \<Rightarrow> 'r Pool" where
  "store_result k i r st =
     (let done = pl_completed st + 1; st1 = st\<lparr>pl_results := (pl_results st)[i := Some r], pl_completed := done\<rparr>
      in if done mod 20 = 0 \<or> done = length (pl_results st) then (move k Reporting st1)\<lparr>pl_reports := pl_reports st @ [done]\<rparr>
         else move k Next st1)"

definition turn :: "(nat \<Rightarrow> 'r option) \<Rightarrow> nat \<times> bool \<Rightarrow> 'r Pool \<Rightarrow> 'r Pool" where
  "turn process ka st =
     (case ka of (k, cancel) \<Rightarrow>
      if length (pl_workers st) \<le> k then st
      else (case pl_workers st ! k of
              Next \<Rightarrow> take_index k st
            | Checking i \<Rightarrow> if cancel then (move k Stopped st)\<lparr>pl_cancelled := True\<rparr> else call_processor k i st
            | Processing i \<Rightarrow> (case process i of None \<Rightarrow> move k Crashed st | Some r \<Rightarrow> store_result k i r st)
            | Reporting \<Rightarrow> move k Next st
            | Stopped \<Rightarrow> st
            | Crashed \<Rightarrow> st))"

text \<open>A crashed worker makes the whole call throw; otherwise it returns when every worker has stopped.\<close>

definition finished_pool :: "'r Pool \<Rightarrow> bool" where
  "finished_pool st \<longleftrightarrow> (\<forall>p \<in> set (pl_workers st). p = Stopped)"

definition pool_answer :: "'r Pool \<Rightarrow> 'r option list \<times> bool" where
  "pool_answer st = (pl_results st, pl_cancelled st)"

section \<open>Every item once\<close>

text \<open>The index a worker checks for, and the one it has the processor work on.\<close>

fun asking :: "pc \<Rightarrow> nat multiset" where
  "asking (Checking i) = {#i#}"
| "asking (Processing i) = {#}"
| "asking Next = {#}"
| "asking Reporting = {#}"
| "asking Stopped = {#}"
| "asking Crashed = {#}"

fun running :: "pc \<Rightarrow> nat multiset" where
  "running (Processing i) = {#i#}"
| "running (Checking i) = {#}"
| "running Next = {#}"
| "running Reporting = {#}"
| "running Stopped = {#}"
| "running Crashed = {#}"

definition over :: "(pc \<Rightarrow> nat multiset) \<Rightarrow> 'r Pool \<Rightarrow> nat multiset" where
  "over f st = \<Sum>\<^sub># (image_mset f (mset (pl_workers st)))"

definition filled :: "'r Pool \<Rightarrow> nat multiset" where
  "filled st = mset (filter (\<lambda>i. pl_results st ! i \<noteq> None) [0..<length (pl_results st)])"

lemma over_update:
  assumes "k < length ps"
  shows "\<Sum>\<^sub># (image_mset f (mset (ps[k := p]))) + f (ps ! k) = \<Sum>\<^sub># (image_mset f (mset ps)) + (f p :: nat multiset)"
proof -
  have m: "mset ps = add_mset (ps ! k) (mset ps - {#ps ! k#})" using assms by simp
  have "mset (ps[k := p]) = add_mset p (mset ps - {#ps ! k#})" by (rule mset_update [OF assms])
  then have "\<Sum>\<^sub># (image_mset f (mset (ps[k := p]))) + f (ps ! k) = f p + \<Sum>\<^sub># (image_mset f (mset ps - {#ps ! k#})) + f (ps ! k)" by simp
  moreover have "\<Sum>\<^sub># (image_mset f (mset ps)) = f (ps ! k) + \<Sum>\<^sub># (image_mset f (mset ps - {#ps ! k#}))"
    by (subst m) simp
  ultimately show ?thesis by (simp add: ac_simps)
qed

lemma filled_store:
  assumes "i < length rs" "rs ! i = None"
  shows "mset (filter (\<lambda>j. rs[i := Some r] ! j \<noteq> None) [0..<length rs]) = add_mset i (mset (filter (\<lambda>j. rs ! j \<noteq> None) [0..<length rs]))"
proof -
  have m: "mset (filter P [0..<length rs]) = mset_set {j. j < length rs \<and> P j}" for P :: "nat \<Rightarrow> bool"
    by (subst mset_set_set [symmetric]) (auto intro!: arg_cong [of _ _ mset_set])
  have "{j. j < length rs \<and> rs[i := Some r] ! j \<noteq> None} = insert i {j. j < length rs \<and> rs ! j \<noteq> None}"
    using assms by (auto simp: nth_list_update)
  then show ?thesis using assms(2) by (simp only: m) simp
qed

definition handed :: "nat \<Rightarrow> nat multiset" where
  "handed i = mset [0..<i]"

lemma handed_simps [simp]: "handed 0 = {#}" "handed (Suc i) = add_mset i (handed i)"
  by (simp_all add: handed_def)

text \<open>
  The invariant: the indices handed out are those asked about and those the processor was called on,
  and the latter are running or filled in, up to what a cancellation or a crash has lost.
\<close>

definition lossless :: "'r Pool \<Rightarrow> bool" where
  "lossless st \<longleftrightarrow> \<not> pl_cancelled st \<and> Crashed \<notin> set (pl_workers st)"

definition pool_inv :: "nat \<Rightarrow> nat \<Rightarrow> (nat \<Rightarrow> 'r option) \<Rightarrow> 'r Pool \<Rightarrow> bool" where
  "pool_inv m n process st \<longleftrightarrow> length (pl_workers st) = m \<and> length (pl_results st) = n \<and> pl_index st \<le> n
     \<and> over asking st + mset (pl_calls st) \<subseteq># handed (pl_index st)
     \<and> over running st + filled st \<subseteq># mset (pl_calls st)
     \<and> (lossless st \<longrightarrow> over asking st + mset (pl_calls st) = handed (pl_index st) \<and> over running st + filled st = mset (pl_calls st))
     \<and> pl_completed st = size (filled st)
     \<and> (\<forall>i < n. pl_results st ! i \<noteq> None \<longrightarrow> pl_results st ! i = process i)
     \<and> (Stopped \<in> set (pl_workers st) \<longrightarrow> pl_cancelled st \<or> pl_index st = n)
     \<and> sorted_wrt (<) (pl_reports st) \<and> (\<forall>r \<in> set (pl_reports st). r \<le> pl_completed st)"

lemma filled_start: "filled \<lparr>pl_index = 0, pl_completed = 0, pl_results = replicate n None, pl_cancelled = False, pl_workers = ws,
     pl_calls = [], pl_reports = []\<rparr> = {#}"
  by (simp add: filled_def filter_empty_conv)

lemma start_inv: "pool_inv (pool_size c n) n process (start_pool c n)"
proof -
  have z: "\<Sum>\<^sub># (image_mset f (mset (replicate k Next))) = {#}" if "f Next = {#}" for f :: "pc \<Rightarrow> nat multiset" and k
    using that by (induction k) auto
  show ?thesis
    unfolding pool_inv_def start_pool_def over_def lossless_def by (simp add: z filled_start in_set_replicate)
qed

lemma over_move: "k < length (pl_workers st) \<Longrightarrow> over f (move k q st) + f (pl_workers st ! k) = over f st + f q"
  unfolding over_def move_def using over_update [of k "pl_workers st" f q] by simp

lemma over_fields [simp]:
  "over f (st\<lparr>pl_index := a\<rparr>) = over f st" "over f (st\<lparr>pl_completed := b\<rparr>) = over f st" "over f (st\<lparr>pl_results := c\<rparr>) = over f st"
  "over f (st\<lparr>pl_cancelled := d\<rparr>) = over f st" "over f (st\<lparr>pl_calls := e\<rparr>) = over f st" "over f (st\<lparr>pl_reports := g\<rparr>) = over f st"
  by (simp_all add: over_def)

lemma filled_fields [simp]:
  "filled (st\<lparr>pl_index := a\<rparr>) = filled st" "filled (st\<lparr>pl_completed := b\<rparr>) = filled st" "filled (st\<lparr>pl_workers := c\<rparr>) = filled st"
  "filled (st\<lparr>pl_cancelled := d\<rparr>) = filled st" "filled (st\<lparr>pl_calls := e\<rparr>) = filled st" "filled (st\<lparr>pl_reports := g\<rparr>) = filled st"
  "filled (move k q st) = filled st"
  by (simp_all add: filled_def move_def)

lemma move_fields [simp]:
  "pl_index (move k q st) = pl_index st" "pl_completed (move k q st) = pl_completed st" "pl_results (move k q st) = pl_results st"
  "pl_cancelled (move k q st) = pl_cancelled st" "pl_calls (move k q st) = pl_calls st" "pl_reports (move k q st) = pl_reports st"
  "length (pl_workers (move k q st)) = length (pl_workers st)" "pl_workers (move k q st) = (pl_workers st)[k := q]"
  by (simp_all add: move_def)

lemma lossless_update:
  assumes "k < length ps" "ps ! k \<noteq> Crashed" "q \<noteq> Crashed"
  shows "Crashed \<in> set (ps[k := q]) \<longleftrightarrow> Crashed \<in> set ps"
  using assms by (auto simp: in_set_conv_nth nth_list_update)

lemma stopped_update: "Stopped \<in> set (ps[k := q]) \<Longrightarrow> q \<noteq> Stopped \<Longrightarrow> Stopped \<in> set ps"
  using set_update_subset_insert [of ps k q] by auto

text \<open>A worker that moves without touching an index.\<close>

lemma inv_idle:
  assumes "pool_inv m n process st" "k < m" "asking (pl_workers st ! k) = {#}" "running (pl_workers st ! k) = {#}" "pl_workers st ! k \<noteq> Crashed"
    "q = Next \<or> q = Stopped \<and> (pl_cancelled st \<or> pl_index st = n)"
  shows "pool_inv m n process (move k q st)"
proof -
  have k: "k < length (pl_workers st)" using assms(1,2) by (simp add: pool_inv_def)
  have o: "over asking (move k q st) = over asking st" "over running (move k q st) = over running st"
    using over_move [OF k, of asking q] over_move [OF k, of running q] assms(3,4,6) by auto
  have "lossless (move k q st) = lossless st" using lossless_update [OF k assms(5)] assms(6) by (auto simp: lossless_def)
  moreover have "Stopped \<in> set ((pl_workers st)[k := q]) \<Longrightarrow> pl_cancelled st \<or> pl_index st = n"
    using stopped_update [of "pl_workers st" k q] assms(1,6) by (auto simp: pool_inv_def)
  ultimately show ?thesis using assms(1) by (auto simp: pool_inv_def o)
qed

lemma inv_take:
  assumes "pool_inv m n process st" "k < m" "pl_workers st ! k = Next"
  shows "pool_inv m n process (take_index k st)"
proof (cases "pl_index st < n \<and> \<not> pl_cancelled st")
  case False
  then have "pool_inv m n process (move k Stopped st)"
    using assms(1) by (intro inv_idle [OF assms(1,2)]) (auto simp: assms(3) pool_inv_def)
  with False assms(1) show ?thesis by (simp add: take_index_def pool_inv_def)
next
  case True
  let ?i = "pl_index st"
  have k: "k < length (pl_workers st)" using assms(1,2) by (simp add: pool_inv_def)
  have no: "\<not> pl_cancelled st" "?i \<noteq> n" using True by auto
  have loss: "Crashed \<in> set ((pl_workers st)[k := q]) \<longleftrightarrow> Crashed \<in> set (pl_workers st)" if "q \<noteq> Crashed" for q
    using lossless_update [OF k] assms(3) that by simp
  have stop: "Stopped \<notin> set ((pl_workers st)[k := q])" if "q \<noteq> Stopped" for q
    using stopped_update [of "pl_workers st" k q] that assms(1) no by (auto simp: pool_inv_def)
  show ?thesis
  proof (cases "?i mod 10 = 0")
    case check: True
    have o: "over asking (move k (Checking ?i) st) = add_mset ?i (over asking st)" "over running (move k (Checking ?i) st) = over running st"
      using over_move [OF k, of asking "Checking ?i"] over_move [OF k, of running "Checking ?i"] assms(3) by simp_all
    have "take_index k st = (move k (Checking ?i) st)\<lparr>pl_index := ?i + 1\<rparr>"
      using True check assms(1) by (simp add: take_index_def pool_inv_def move_def Let_def)
    with o loss stop no True assms(1) show ?thesis by (auto simp: pool_inv_def lossless_def)
  next
    case call: False
    have o: "over asking (move k (Processing ?i) st) = over asking st" "over running (move k (Processing ?i) st) = add_mset ?i (over running st)"
      using over_move [OF k, of asking "Processing ?i"] over_move [OF k, of running "Processing ?i"] assms(3) by simp_all
    have "take_index k st = (move k (Processing ?i) st)\<lparr>pl_index := ?i + 1, pl_calls := pl_calls st @ [?i]\<rparr>"
      using True call assms(1) by (simp add: take_index_def call_processor_def pool_inv_def move_def Let_def)
    with o loss stop no True assms(1) show ?thesis by (auto simp: pool_inv_def lossless_def)
  qed
qed

lemma inv_checked:
  assumes "pool_inv m n process st" "k < m" "pl_workers st ! k = Checking i"
  shows "pool_inv m n process ((move k Stopped st)\<lparr>pl_cancelled := True\<rparr>)" "pool_inv m n process (call_processor k i st)"
proof -
  have k: "k < length (pl_workers st)" using assms(1,2) by (simp add: pool_inv_def)
  have o: "over asking st = add_mset i (over asking (move k q st))" if "asking q = {#}" for q
    using over_move [OF k, of asking q] assms(3) that by simp
  have r: "over running (move k q st) = over running st + running q" for q
    using over_move [OF k, of running q] assms(3) by simp
  have sub: "add_mset i x \<subseteq># y \<Longrightarrow> x \<subseteq># y" for x y :: "nat multiset"
    by (meson mset_subset_eq_insertD subset_mset.less_imp_le)
  show "pool_inv m n process ((move k Stopped st)\<lparr>pl_cancelled := True\<rparr>)"
    using assms(1) r [of Stopped] sub unfolding pool_inv_def by (auto simp: o [of Stopped] lossless_def)
  have loss: "Crashed \<in> set ((pl_workers st)[k := Processing i]) \<longleftrightarrow> Crashed \<in> set (pl_workers st)"
    using lossless_update [OF k] assms(3) by simp
  have stop: "Stopped \<in> set ((pl_workers st)[k := Processing i]) \<Longrightarrow> Stopped \<in> set (pl_workers st)"
    using stopped_update [of "pl_workers st" k "Processing i"] by simp
  show "pool_inv m n process (call_processor k i st)"
    using assms(1) r [of "Processing i"] stop unfolding pool_inv_def
    by (auto simp: o [of "Processing i"] lossless_def call_processor_def loss)
qed

lemma inv_crash:
  assumes "pool_inv m n process st" "k < m" "pl_workers st ! k = Processing i"
  shows "pool_inv m n process (move k Crashed st)"
proof -
  have k: "k < length (pl_workers st)" using assms(1,2) by (simp add: pool_inv_def)
  have o: "over running st = add_mset i (over running (move k Crashed st))" "over asking (move k Crashed st) = over asking st"
    using over_move [OF k, of running Crashed] over_move [OF k, of asking Crashed] assms(3) by simp_all
  have sub: "add_mset i x \<subseteq># y \<Longrightarrow> x \<subseteq># y" for x y :: "nat multiset"
    by (meson mset_subset_eq_insertD subset_mset.less_imp_le)
  have c: "Crashed \<in> set ((pl_workers st)[k := Crashed])" using k by (meson set_update_memI)
  show ?thesis
    using assms(1) sub stopped_update [of "pl_workers st" k Crashed] unfolding pool_inv_def
    by (auto simp: o lossless_def c)
qed

text \<open>An index that is running has not been stored, and its result is stored once.\<close>

lemma inv_store:
  assumes "pool_inv m n process st" "k < m" "pl_workers st ! k = Processing i" "process i = Some r"
  shows "pool_inv m n process (store_result k i r st)"
proof -
  have k: "k < length (pl_workers st)" and n: "length (pl_results st) = n" using assms(1,2) by (simp_all add: pool_inv_def)
  have o: "over running st = add_mset i (over running (move k q st))" "over asking (move k q st) = over asking st"
    if "q = Next \<or> q = Reporting" for q
    using over_move [OF k, of running q] over_move [OF k, of asking q] assms(3) that by auto
  have "add_mset i (over running (move k Next st)) + filled st \<subseteq># mset (pl_calls st)"
    using assms(1) unfolding pool_inv_def by (simp add: o(1) [of Next, simplified])
  moreover have "mset (pl_calls st) \<subseteq># handed (pl_index st)"
    using assms(1) unfolding pool_inv_def by (metis mset_subset_eq_add_right subset_mset.order_trans)
  ultimately have sub: "add_mset i (filled st) \<subseteq># handed (pl_index st)"
    by (metis mset_subset_eq_add_right subset_mset.order_trans union_mset_add_mset_left union_mset_add_mset_right)
  have "i \<in># handed (pl_index st)" using sub by (meson insert_subset_eq_iff mset_subset_eqD union_single_eq_member)
  then have i: "i < n" using assms(1) by (simp add: handed_def pool_inv_def)
  have "count (handed (pl_index st)) i \<le> 1" by (simp add: handed_def count_mset_set')
  moreover have "count (add_mset i (filled st)) i \<le> count (handed (pl_index st)) i" using sub by (rule mset_subset_eq_count)
  ultimately have "i \<notin># filled st" by (simp add: not_in_iff)
  then have none: "pl_results st ! i = None" using i n by (simp add: filled_def)
  define st1 where "st1 = st\<lparr>pl_results := (pl_results st)[i := Some r], pl_completed := pl_completed st + 1\<rparr>"
  have f: "filled st1 = add_mset i (filled st)" using filled_store [OF _ none] i n by (simp add: filled_def st1_def)
  have loss: "Crashed \<in> set ((pl_workers st)[k := q]) \<longleftrightarrow> Crashed \<in> set (pl_workers st)" if "q = Next \<or> q = Reporting" for q
    using lossless_update [OF k] assms(3) that by auto
  have stop: "Stopped \<in> set ((pl_workers st)[k := q]) \<Longrightarrow> Stopped \<in> set (pl_workers st)" if "q = Next \<or> q = Reporting" for q
    using stopped_update [of "pl_workers st" k q] that by auto
  have old: "pl_results st ! j = Some y \<Longrightarrow> process j = Some y" if "j < n" for j y
    using assms(1) that by (auto simp: pool_inv_def)
  have res: "process j = Some y" if "j < length (pl_results st)" "(pl_results st)[i := Some r] ! j = Some y" for j y
    using that old [of j y] assms(4) i n by (auto simp: nth_list_update split: if_splits)
  note I = assms(1) [unfolded pool_inv_def]
  have s1: "pl_workers st1 = pl_workers st" "pl_index st1 = pl_index st" "pl_calls st1 = pl_calls st" "pl_cancelled st1 = pl_cancelled st"
    "pl_reports st1 = pl_reports st" "pl_completed st1 = Suc (pl_completed st)" "pl_results st1 = (pl_results st)[i := Some r]"
    by (simp_all add: st1_def)
  have mv: "pool_inv m n process (move k q st1)" if q: "q = Next \<or> q = Reporting" for q
  proof -
    have m: "over g (move k q st1) = over g (move k q st)" for g by (simp add: over_def move_def st1_def)
    have ask: "over asking (move k q st1) = over asking st" using o(2) [OF q] m by simp
    have run: "over running (move k q st1) + filled (move k q st1) = over running st + filled st"
      using o(1) [OF q] m f by simp
    have ll: "lossless (move k q st1) = lossless st" by (simp add: lossless_def s1 loss [OF q])
    show ?thesis unfolding pool_inv_def ask run ll
      using I res stop [OF q] by (simp add: s1 f) fastforce
  qed
  have lt: "\<forall>r \<in> set (pl_reports st). r < Suc (pl_completed st)" using I by (auto simp: less_Suc_eq_le)
  have srt: "sorted_wrt (<) (pl_reports st @ [Suc (pl_completed st)])" using I lt by (simp add: sorted_wrt_append)
  let ?st2 = "(move k Reporting st1)\<lparr>pl_reports := pl_reports st @ [pl_completed st + 1]\<rparr>"
  have same: "lossless ?st2 = lossless (move k Reporting st1)" by (simp add: lossless_def)
  have rep: "pool_inv m n process ?st2"
    using mv [of Reporting, simplified] lt srt unfolding pool_inv_def same by (simp add: s1 less_imp_le)
  show ?thesis using mv [of Next] rep by (simp add: store_result_def Let_def st1_def)
qed

lemma inv_turn:
  assumes "pool_inv m n process st"
  shows "pool_inv m n process (turn process ka st)"
proof -
  obtain k cancel where ka: "ka = (k, cancel)" by (rule prod.exhaust)
  show ?thesis
  proof (cases "k < m")
    case False
    then have "turn process ka st = st" using assms by (auto simp: turn_def ka pool_inv_def)
    then show ?thesis using assms by simp
  next
    case True
    have l: "\<not> length (pl_workers st) \<le> k" using assms True by (simp add: pool_inv_def)
    show ?thesis
    proof (cases "pl_workers st ! k")
      case Reporting
      then have "pool_inv m n process (move k Next st)" by (intro inv_idle [OF assms True]) simp_all
      then show ?thesis using l Reporting by (simp add: turn_def ka)
    next
      case (Processing i)
      then show ?thesis using l inv_crash [OF assms True] inv_store [OF assms True] by (simp add: turn_def ka split: option.splits)
    qed (use l assms inv_take [OF assms True] inv_checked [OF assms True] in \<open>simp_all add: turn_def ka\<close>)
  qed
qed

lemma inv_run: "pool_inv m n process st \<Longrightarrow> pool_inv m n process (fold (turn process) schedule st)"
  by (induction schedule arbitrary: st) (simp_all add: inv_turn)

lemma distinct_sub:
  assumes "mset xs \<subseteq># mset ys" "distinct ys"
  shows "distinct xs"
proof -
  have "count (mset xs) a \<le> 1" for a
  proof -
    have "count (mset ys) a \<le> 1" using assms(2) by (simp add: distinct_count_atmost_1)
    with mset_subset_eq_count [OF assms(1), of a] show ?thesis by linarith
  qed
  then have "count (mset xs) a = (if a \<in> set xs then 1 else 0)" for a
    by (auto simp: le_Suc_eq)
  then show ?thesis by (simp add: distinct_count_atmost_1)
qed

lemma all_stopped: "finished_pool st \<Longrightarrow> f Stopped = {#} \<Longrightarrow> over f st = {#}"
  unfolding finished_pool_def over_def by (induction "pl_workers st") auto

text \<open>
  C23. However the workers take turns, the processor is called at most once on each item, every result
  that is there is the processor's for its own position, and the progress reported only grows. When the
  call returns without a cancellation, every item has been processed and the results are in order.
\<close>

theorem pool_processes_once:
  assumes "st = fold (turn process) schedule (start_pool concurrency n)"
  shows "distinct (pl_calls st) \<and> set (pl_calls st) \<subseteq> {..<n} \<and> sorted_wrt (<) (pl_reports st)
     \<and> length (pl_results st) = n \<and> (\<forall>i < n. pl_results st ! i \<noteq> None \<longrightarrow> pl_results st ! i = process i)
     \<and> (finished_pool st \<and> \<not> pl_cancelled st \<longrightarrow> pl_results st = map process [0..<n] \<and> pl_completed st = n \<and> (\<forall>i < n. process i \<noteq> None))"
proof -
  have inv: "pool_inv (pool_size concurrency n) n process st" unfolding assms by (rule inv_run [OF start_inv])
  have "mset (pl_calls st) \<subseteq># handed (pl_index st)" "pl_index st \<le> n"
    using inv unfolding pool_inv_def by (auto intro: subset_mset.order_trans [OF mset_subset_eq_add_right])
  then have "mset (pl_calls st) \<subseteq># mset [0..<pl_index st]" "pl_index st \<le> n" by (simp_all add: handed_def)
  then have calls: "distinct (pl_calls st)" "set (pl_calls st) \<subseteq> {..<n}"
    by (metis distinct_sub distinct_upt, fastforce dest: mset_subset_eqD)
  have full: "pl_results st = map process [0..<n] \<and> pl_completed st = n \<and> (\<forall>i < n. process i \<noteq> None)" if "finished_pool st" "\<not> pl_cancelled st"
  proof -
    have zero: "over asking st = {#}" "over running st = {#}" using all_stopped [OF that(1)] by simp_all
    have "Crashed \<notin> set (pl_workers st)" using that(1) by (auto simp: finished_pool_def)
    then have eq: "filled st = handed (pl_index st)" using inv that(2) zero by (auto simp: pool_inv_def lossless_def)
    have "pl_index st = n"
    proof (cases "n = 0")
      case True
      then show ?thesis using inv by (simp add: pool_inv_def)
    next
      case False
      then have "0 < pool_size concurrency n" by (simp add: pool_size_def)
      then have "pl_workers st \<noteq> []" using inv by (auto simp: pool_inv_def)
      then have "Stopped \<in> set (pl_workers st)" using that(1) by (metis finished_pool_def last_in_set)
      then show ?thesis using inv that(2) by (simp add: pool_inv_def)
    qed
    with eq have f: "filled st = mset [0..<n]" by (simp add: handed_def)
    have len: "length (pl_results st) = n" using inv by (simp add: pool_inv_def)
    have "pl_results st ! i \<noteq> None \<and> pl_results st ! i = process i" if "i < n" for i
    proof -
      have "i \<in># filled st" using that by (simp add: f)
      then have "pl_results st ! i \<noteq> None" by (simp add: filled_def)
      with inv that show ?thesis by (simp add: pool_inv_def)
    qed
    then have "pl_results st = map process [0..<n]" "\<forall>i < n. process i \<noteq> None"
      using len by (auto intro: nth_equalityI) (metis option.distinct(1))
    moreover have "pl_completed st = n" using inv f by (simp add: pool_inv_def)
    ultimately show ?thesis by blast
  qed
  have "sorted_wrt (<) (pl_reports st)" "length (pl_results st) = n" "\<forall>i < n. pl_results st ! i \<noteq> None \<longrightarrow> pl_results st ! i = process i"
    using inv unfolding pool_inv_def by blast+
  with calls full show ?thesis by blast
qed

text \<open>One worker over one item.\<close>

theorem pool_processes_once_witness:
  "pl_results (fold (turn (\<lambda>i. Some (10 * i + 7))) [(0, False), (0, False), (0, False), (0, False), (0, False)] (start_pool None 1)) = [Some 7]"
proof -
  let ?st = "fold (turn (\<lambda>i. Some (10 * i + 7))) [(0, False), (0, False), (0, False), (0, False), (0, False)] (start_pool None 1) :: nat Pool"
  have "finished_pool ?st \<and> \<not> pl_cancelled ?st"
    by (simp add: start_pool_def pool_size_def turn_def take_index_def call_processor_def store_result_def move_def finished_pool_def
        Let_def)
  with pool_processes_once [of ?st "\<lambda>i. Some (10 * i + 7)", OF refl] have "pl_results ?st = map (\<lambda>i. Some (10 * i + 7)) [0..<1]" by blast
  then show ?thesis by simp
qed

end
