(* ===== verification/Webhook_Outbox.thy ===== *)
theory Webhook_Outbox
  imports Audit_Chain
begin

text \<open>
  The outbox of webhooks (\<open>src/lib/webhooks/webhook-outbox-worker.ts\<close>): enqueueing, claiming by
  workers, delivery and replay. Entries live in an insertion-ordered map in memory; with a PostgreSQL
  database an entry is also written to a table that nothing reads. A worker gets copies of the entries
  it claims and puts its copy back when the delivery has ended, so a delivery takes the copy, and what
  the address check and the request gave: the checks of the address and the request itself are calls of
  other modules and of the platform. HMAC-SHA256 is a parameter, times are milliseconds.
\<close>

section \<open>Data\<close>

datatype WebhookDeliveryStatus = PENDING | DELIVERING | DELIVERED | FAILED | DEAD_LETTER

record WebhookOutboxEntry =
  we_id :: ident
  we_tenantId :: ident
  we_subscriptionId :: "ident option"
  we_targetUrl :: string
  we_event :: string
  we_payload :: string
  we_signature :: string
  we_status :: WebhookDeliveryStatus
  we_attempts :: int
  we_maxAttempts :: int
  we_nextAttemptAt :: millis
  we_leaseExpiresAt :: "millis option"
  we_workerId :: "ident option"
  we_lastStatusCode :: "int option"
  we_lastError :: "string option"
  we_createdAt :: millis
  we_deliveredAt :: "millis option"

text \<open>A row of the table: the address is not among its columns.\<close>

record OutboxRow =
  or_id :: ident
  or_tenantId :: ident
  or_subscriptionId :: "ident option"
  or_event :: string
  or_payload :: string
  or_signature :: string
  or_attempts :: int
  or_maxAttempts :: int
  or_nextAttemptAt :: millis
  or_createdAt :: millis

record Outbox =
  ob_postgres :: bool
  ob_tableWorks :: bool
  ob_rows :: "OutboxRow list"
  ob_entries :: "(ident \<times> WebhookOutboxEntry) list"

section \<open>Enqueueing\<close>

definition generateCanonicalWebhookSignature :: "(string \<Rightarrow> string \<Rightarrow> string) \<Rightarrow> millis \<Rightarrow> string \<Rightarrow> string \<Rightarrow> string \<times> int" where
  "generateCanonicalWebhookSignature hmac now payload secret =
     (let sec = now div 1000
      in (''t='' @ js_show_int sec @ '',v1='' @ hmac secret (js_show_int sec @ ''.'' @ payload), sec))"

record WebhookParams =
  wp_tenantId :: ident
  wp_subscriptionId :: "ident option"
  wp_targetUrl :: string
  wp_event :: string
  wp_payload :: json
  wp_secret :: "string option"
  wp_maxAttempts :: "int option"

definition new_entry :: "(string \<Rightarrow> string \<Rightarrow> string) \<Rightarrow> millis \<Rightarrow> string \<Rightarrow> WebhookParams \<Rightarrow> WebhookOutboxEntry" where
  "new_entry hmac now uuid q =
     (let payload = json_stringify (wp_payload q)
      in \<lparr>we_id = ''who_'' @ take 16 (filter (\<lambda>c. c \<noteq> CHR ''-'') uuid), we_tenantId = wp_tenantId q, we_subscriptionId = wp_subscriptionId q,
          we_targetUrl = wp_targetUrl q, we_event = wp_event q, we_payload = payload,
          we_signature = (if truthy_str (wp_secret q) then fst (generateCanonicalWebhookSignature hmac now payload (the (wp_secret q))) else ''unsigned''),
          we_status = PENDING, we_attempts = 0, we_maxAttempts = (case wp_maxAttempts q of None \<Rightarrow> 5 | Some n \<Rightarrow> if n = 0 then 5 else n),
          we_nextAttemptAt = now, we_leaseExpiresAt = None, we_workerId = None, we_lastStatusCode = None, we_lastError = None,
          we_createdAt = now, we_deliveredAt = None\<rparr>)"

definition outbox_row :: "WebhookOutboxEntry \<Rightarrow> OutboxRow" where
  "outbox_row e = \<lparr>or_id = we_id e, or_tenantId = we_tenantId e, or_subscriptionId = we_subscriptionId e, or_event = we_event e,
     or_payload = we_payload e, or_signature = we_signature e, or_attempts = we_attempts e, or_maxAttempts = we_maxAttempts e,
     or_nextAttemptAt = we_nextAttemptAt e, or_createdAt = we_createdAt e\<rparr>"

definition put_entry :: "WebhookOutboxEntry \<Rightarrow> Outbox \<Rightarrow> Outbox" where
  "put_entry e ob = ob\<lparr>ob_entries := AList.update (we_id e) e (ob_entries ob)\<rparr>"

text \<open>An error of the database is logged and ignored.\<close>

definition enqueueWebhookOutbox ::
  "(string \<Rightarrow> string \<Rightarrow> string) \<Rightarrow> millis \<Rightarrow> string \<Rightarrow> WebhookParams \<Rightarrow> Outbox \<Rightarrow> WebhookOutboxEntry \<times> Outbox" where
  "enqueueWebhookOutbox hmac now uuid q ob =
     (let e = new_entry hmac now uuid q;
          ob1 = (if ob_postgres ob \<and> ob_tableWorks ob then ob\<lparr>ob_rows := ob_rows ob @ [outbox_row e]\<rparr> else ob)
      in (e, put_entry e ob1))"

section \<open>Claiming\<close>

definition pending_due :: "millis \<Rightarrow> WebhookOutboxEntry \<Rightarrow> bool" where
  "pending_due now e \<longleftrightarrow> we_status e = PENDING \<and> we_nextAttemptAt e \<le> now"

definition delivery_expired :: "millis \<Rightarrow> WebhookOutboxEntry \<Rightarrow> bool" where
  "delivery_expired now e \<longleftrightarrow> we_status e = DELIVERING \<and> (case we_leaseExpiresAt e of None \<Rightarrow> False | Some l \<Rightarrow> l < now)"

definition claimed_entry :: "millis \<Rightarrow> ident \<Rightarrow> int \<Rightarrow> WebhookOutboxEntry \<Rightarrow> WebhookOutboxEntry" where
  "claimed_entry now w lease e = e\<lparr>we_status := DELIVERING, we_workerId := Some w, we_leaseExpiresAt := Some (now + lease)\<rparr>"

fun claim_entries :: "millis \<Rightarrow> ident \<Rightarrow> int \<Rightarrow> int \<Rightarrow> (ident \<times> WebhookOutboxEntry) list \<Rightarrow> WebhookOutboxEntry list \<times> (ident \<times> WebhookOutboxEntry) list" where
  "claim_entries now w limit lease [] = ([], [])"
| "claim_entries now w limit lease ((k, e) # es) =
     (if limit \<le> 0 then ([], (k, e) # es)
      else if pending_due now e \<or> delivery_expired now e
      then (let e1 = claimed_entry now w lease e; (cs, es1) = claim_entries now w (limit - 1) lease es in (e1 # cs, (k, e1) # es1))
      else (let (cs, es1) = claim_entries now w limit lease es in (cs, (k, e) # es1)))"

definition claimWebhookBatch :: "millis \<Rightarrow> ident \<Rightarrow> int \<Rightarrow> int \<Rightarrow> Outbox \<Rightarrow> WebhookOutboxEntry list \<times> Outbox" where
  "claimWebhookBatch now w limit lease ob =
     (let (cs, es) = claim_entries now w limit lease (ob_entries ob) in (cs, ob\<lparr>ob_entries := es\<rparr>))"

section \<open>Delivery\<close>

definition baseDelays :: "int list" where
  "baseDelays = [5000, 25000, 125000, 625000, 3125000]"

text \<open>The random part is below a second; an index below zero reads no delay and falls back to the first.\<close>

definition calculateWebhookBackoffMs :: "int \<Rightarrow> int \<Rightarrow> int" where
  "calculateWebhookBackoffMs jitter attempt =
     (let idx = min (attempt - 1) 4 in (if idx < 0 then 5000 else baseDelays ! nat idx) + jitter)"

datatype Fetched = Responded int string | FetchThrew string bool

record DeliveryResult =
  dr_success :: bool
  dr_statusCode :: int
  dr_error :: "string option"

definition permanent_4xx :: "int \<Rightarrow> bool" where
  "permanent_4xx code \<longleftrightarrow> 400 \<le> code \<and> code < 500 \<and> code \<noteq> 408 \<and> code \<noteq> 429"

definition handleDeliveryFailure :: "millis \<Rightarrow> int \<Rightarrow> WebhookOutboxEntry \<Rightarrow> int \<Rightarrow> string \<Rightarrow> Outbox \<Rightarrow> DeliveryResult \<times> Outbox" where
  "handleDeliveryFailure now jitter e code err ob =
     (let e1 = (if we_attempts e \<ge> we_maxAttempts e \<or> permanent_4xx code then e\<lparr>we_status := DEAD_LETTER\<rparr>
                else e\<lparr>we_status := FAILED, we_nextAttemptAt := now + calculateWebhookBackoffMs jitter (we_attempts e)\<rparr>)
      in (\<lparr>dr_success = False, dr_statusCode = code, dr_error = Some err\<rparr>, put_entry e1 ob))"

text \<open>
  The copy a worker delivers; a reason when the address check blocked it; what the request gave: a
  status code with its text, or an error with its message and whether it was the time-out's abort.
\<close>

definition processWebhookDelivery ::
  "millis \<Rightarrow> int \<Rightarrow> string option \<Rightarrow> Fetched \<Rightarrow> WebhookOutboxEntry \<Rightarrow> Outbox \<Rightarrow> DeliveryResult \<times> Outbox" where
  "processWebhookDelivery now jitter blocked fetched e ob =
     (case blocked of
        Some reason \<Rightarrow>
          let err = ''Blocked by SSRF guard: '' @ reason
          in (\<lparr>dr_success = False, dr_statusCode = 0, dr_error = Some err\<rparr>,
              put_entry (e\<lparr>we_status := DEAD_LETTER, we_lastError := Some err, we_lastStatusCode := Some 0\<rparr>) ob)
      | None \<Rightarrow>
          let e1 = e\<lparr>we_attempts := we_attempts e + 1\<rparr> in
          (case fetched of
             Responded code text \<Rightarrow>
               let e2 = e1\<lparr>we_lastStatusCode := Some code\<rparr> in
               if 200 \<le> code \<and> code \<le> 299
               then (\<lparr>dr_success = True, dr_statusCode = code, dr_error = None\<rparr>,
                     put_entry (e2\<lparr>we_status := DELIVERED, we_deliveredAt := Some now, we_lastError := None\<rparr>) ob)
               else let err = ''HTTP '' @ js_show_int code @ '': '' @ text
                    in handleDeliveryFailure now jitter (e2\<lparr>we_lastError := Some err\<rparr>) code err ob
           | FetchThrew msg aborted \<Rightarrow>
               let err = (if msg = [] then ''Network timeout or connect error'' else msg); code = (if aborted then 408 else 500)
               in handleDeliveryFailure now jitter (e1\<lparr>we_lastError := Some err, we_lastStatusCode := Some code\<rparr>) code err ob))"

section \<open>Replay\<close>

datatype ReplayError = DeliveryNotFound ident | NotReplayable WebhookDeliveryStatus

definition replayDeadLetterWebhook :: "millis \<Rightarrow> ident \<Rightarrow> Outbox \<Rightarrow> (ReplayError + WebhookOutboxEntry) \<times> Outbox" where
  "replayDeadLetterWebhook now i ob =
     (case map_of (ob_entries ob) i of
        None \<Rightarrow> (Inl (DeliveryNotFound i), ob)
      | Some e \<Rightarrow>
          if we_status e \<noteq> DEAD_LETTER \<and> we_status e \<noteq> FAILED then (Inl (NotReplayable (we_status e)), ob)
          else let e1 = e\<lparr>we_status := PENDING, we_attempts := 0, we_nextAttemptAt := now, we_lastError := None\<rparr>
               in (Inr e1, put_entry e1 ob))"

section \<open>Runs\<close>

text \<open>Operations in the order they take effect; a run gives the identifiers claimed on the way.\<close>

datatype OutboxOp =
    Enqueue millis string WebhookParams
  | Claim millis ident int int
  | Finish millis int "string option" Fetched WebhookOutboxEntry
  | Replay millis ident

definition outbox_op :: "(string \<Rightarrow> string \<Rightarrow> string) \<Rightarrow> OutboxOp \<Rightarrow> Outbox \<Rightarrow> WebhookOutboxEntry list \<times> Outbox" where
  "outbox_op hmac op ob =
     (case op of
        Enqueue now uuid q \<Rightarrow> ([], snd (enqueueWebhookOutbox hmac now uuid q ob))
      | Claim now w limit lease \<Rightarrow> claimWebhookBatch now w limit lease ob
      | Finish now jitter blocked fetched e \<Rightarrow> ([], snd (processWebhookDelivery now jitter blocked fetched e ob))
      | Replay now i \<Rightarrow> ([], snd (replayDeadLetterWebhook now i ob)))"

fun outbox_run :: "(string \<Rightarrow> string \<Rightarrow> string) \<Rightarrow> OutboxOp list \<Rightarrow> Outbox \<Rightarrow> ident list \<times> Outbox" where
  "outbox_run hmac [] ob = ([], ob)"
| "outbox_run hmac (op # ops) ob =
     (let (cs, ob1) = outbox_op hmac op ob; (is, ob2) = outbox_run hmac ops ob1 in (map we_id cs @ is, ob2))"

text \<open>Every entry is filed under its own identifier, once.\<close>

definition outbox_ok :: "Outbox \<Rightarrow> bool" where
  "outbox_ok ob \<longleftrightarrow> distinct (map fst (ob_entries ob)) \<and> (\<forall>k e. map_of (ob_entries ob) k = Some e \<longrightarrow> we_id e = k)"

end
