(* ===== verification/Webhook_Correct.thy ===== *)
theory Webhook_Correct
  imports Webhook_Outbox
begin

text \<open>
  What the outbox guarantees: a lease is exclusive while it lasts. And what it does not: a failed
  delivery is never tried again, and a worker that comes back late undoes what another one delivered.
\<close>

section \<open>Entries no operation touches\<close>

lemma claim_keys: "map fst (snd (claim_entries now w limit lease es)) = map fst es"
  by (induction now w limit lease es rule: claim_entries.induct) (auto simp: Let_def split: prod.splits)

text \<open>Where claiming changes an entry, it was due or its lease had expired.\<close>

definition claim_rel :: "millis \<Rightarrow> ident \<Rightarrow> int \<Rightarrow> ident \<times> WebhookOutboxEntry \<Rightarrow> ident \<times> WebhookOutboxEntry \<Rightarrow> bool" where
  "claim_rel now w lease x y \<longleftrightarrow> fst y = fst x
     \<and> (snd y = snd x \<or> (pending_due now (snd x) \<or> delivery_expired now (snd x)) \<and> snd y = claimed_entry now w lease (snd x))"

lemma claim_rel_pair [simp]:
  "claim_rel now w lease (k, e) (k1, e1) \<longleftrightarrow> k1 = k \<and> (e1 = e \<or> (pending_due now e \<or> delivery_expired now e) \<and> e1 = claimed_entry now w lease e)"
  by (simp add: claim_rel_def)

lemma claim_batch: "claimWebhookBatch now w limit lease ob
    = (fst (claim_entries now w limit lease (ob_entries ob)), ob\<lparr>ob_entries := snd (claim_entries now w limit lease (ob_entries ob))\<rparr>)"
  by (simp add: claimWebhookBatch_def split_beta)

lemma claim_rel_refl [simp]: "claim_rel now w lease x x"
  by (simp add: claim_rel_def)

lemma claim_all2: "list_all2 (claim_rel now w lease) es (snd (claim_entries now w limit lease es))"
proof (induction now w limit lease es rule: claim_entries.induct)
  case (2 now w limit lease k e es)
  have "list_all2 (claim_rel now w lease) es es" by (rule list_all2_refl) simp
  with 2 show ?case by (auto simp: Let_def split: prod.splits)
qed simp

lemma claimed_sources:
  "set (fst (claim_entries now w limit lease es))
     \<subseteq> {claimed_entry now w lease e | k e. (k, e) \<in> set es \<and> (pending_due now e \<or> delivery_expired now e)}"
proof (induction now w limit lease es rule: claim_entries.induct)
  case (2 now w limit lease k e es)
  then show ?case
    by (cases "limit \<le> 0"; cases "pending_due now e \<or> delivery_expired now e") (auto simp: Let_def split: prod.splits, blast+)
qed simp

lemma claim_lookup:
  assumes "map_of es k = Some e"
  shows "\<exists>e1. map_of (snd (claim_entries now w limit lease es)) k = Some e1 \<and> claim_rel now w lease (k, e) (k, e1)"
proof -
  have "list_all2 (claim_rel now w lease) es js \<Longrightarrow> map_of es k = Some e \<Longrightarrow> \<exists>e1. map_of js k = Some e1 \<and> claim_rel now w lease (k, e) (k, e1)" for js
    by (induction es js rule: list_all2_induct) (auto simp: claim_rel_def split: if_splits)
  with claim_all2 assms show ?thesis by blast
qed

lemma claimed_id [simp]: "we_id (claimed_entry now w lease e) = we_id e"
  by (simp add: claimed_entry_def)

lemma claim_ok:
  assumes "outbox_ok ob"
  shows "outbox_ok (snd (claimWebhookBatch now w limit lease ob))"
proof -
  let ?es = "snd (claim_entries now w limit lease (ob_entries ob))"
  have d: "distinct (map fst ?es)" using assms by (simp add: claim_keys outbox_ok_def)
  have "we_id e1 = k" if "map_of ?es k = Some e1" for k e1
  proof -
    have "map_of ?es k \<noteq> None" using that by simp
    then have "map_of (ob_entries ob) k \<noteq> None" unfolding map_of_eq_None_iff set_map [symmetric] claim_keys .
    then obtain e where e: "map_of (ob_entries ob) k = Some e" by blast
    then have "we_id e = k" using assms by (simp add: outbox_ok_def)
    with claim_lookup [OF e, of now w limit lease] that show ?thesis by (auto simp: claim_rel_def)
  qed
  with d show ?thesis by (simp add: claim_batch outbox_ok_def)
qed

lemma claimed_in:
  "\<forall>(k, e) \<in> set es. we_id e = k \<Longrightarrow> c \<in> set (fst (claim_entries now w limit lease es))
   \<Longrightarrow> (we_id c, c) \<in> set (snd (claim_entries now w limit lease es))"
  by (induction now w limit lease es rule: claim_entries.induct) (auto simp: Let_def split: prod.splits if_splits)

lemma claimed_stored:
  assumes "outbox_ok ob" "c \<in> set (fst (claim_entries now w limit lease (ob_entries ob)))"
  shows "map_of (snd (claim_entries now w limit lease (ob_entries ob))) (we_id c) = Some c"
proof -
  have "\<forall>(k, e) \<in> set (ob_entries ob). we_id e = k" using assms(1) by (auto simp: outbox_ok_def)
  from claimed_in [OF this assms(2)] show ?thesis using assms(1) by (simp add: outbox_ok_def claim_keys)
qed

lemma put_ok: "outbox_ok ob \<Longrightarrow> outbox_ok (put_entry e ob)"
  by (simp add: outbox_ok_def put_entry_def distinct_update update_conv')

lemma put_entry_lookup: "map_of (ob_entries (put_entry e ob)) i = (if i = we_id e then Some e else map_of (ob_entries ob) i)"
  by (simp add: put_entry_def update_conv')

lemma puts_intro: "we_id x = we_id e \<Longrightarrow> \<exists>e1. we_id e1 = we_id e \<and> put_entry x ob = put_entry e1 ob"
  by blast

lemma process_puts:
  "\<exists>e1. we_id e1 = we_id e \<and> snd (processWebhookDelivery now jitter blocked fetched e ob) = put_entry e1 ob"
  by (cases blocked; cases fetched) (auto simp: processWebhookDelivery_def Let_def handleDeliveryFailure_def intro!: puts_intro)

lemma rows_ok [simp]: "outbox_ok (ob\<lparr>ob_rows := r\<rparr>) = outbox_ok ob"
  by (simp add: outbox_ok_def)

lemma replay_ok: "outbox_ok ob \<Longrightarrow> outbox_ok (snd (replayDeadLetterWebhook now i ob))"
  by (auto simp: replayDeadLetterWebhook_def Let_def put_ok split: option.splits)

lemma op_ok: "outbox_ok ob \<Longrightarrow> outbox_ok (snd (outbox_op hmac op ob))"
proof (cases op)
  case (Finish now jitter blocked fetched e)
  then show "outbox_ok ob \<Longrightarrow> outbox_ok (snd (outbox_op hmac op ob))"
    using process_puts [of e now jitter blocked fetched ob] by (auto simp: outbox_op_def put_ok)
qed (auto simp: outbox_op_def enqueueWebhookOutbox_def Let_def put_ok claim_ok replay_ok)

text \<open>An operation that has no business with an entry: it claims nothing due, and finishes, replays or adds another one.\<close>

definition apart :: "(string \<Rightarrow> string \<Rightarrow> string) \<Rightarrow> WebhookOutboxEntry \<Rightarrow> OutboxOp \<Rightarrow> bool" where
  "apart hmac e op = (case op of
       Enqueue now uuid q \<Rightarrow> we_id (new_entry hmac now uuid q) \<noteq> we_id e
     | Claim now w limit lease \<Rightarrow> \<not> pending_due now e \<and> \<not> delivery_expired now e
     | Finish now jitter blocked fetched c \<Rightarrow> we_id c \<noteq> we_id e
     | Replay now i \<Rightarrow> i \<noteq> we_id e \<or> we_status e \<noteq> DEAD_LETTER \<and> we_status e \<noteq> FAILED)"

lemma apart_op:
  assumes "outbox_ok ob" "map_of (ob_entries ob) (we_id e) = Some e" "apart hmac e op"
  shows "map_of (ob_entries (snd (outbox_op hmac op ob))) (we_id e) = Some e \<and> we_id e \<notin> we_id ` set (fst (outbox_op hmac op ob))"
proof (cases op)
  case (Claim now w limit lease)
  have not: "\<not> pending_due now e" "\<not> delivery_expired now e" using assms(3) by (simp_all add: apart_def Claim)
  have "we_id e \<noteq> we_id c" if "c \<in> set (fst (claim_entries now w limit lease (ob_entries ob)))" for c
  proof
    assume i: "we_id e = we_id c"
    from that claimed_sources obtain k e1 where e1: "c = claimed_entry now w lease e1" "(k, e1) \<in> set (ob_entries ob)"
        "pending_due now e1 \<or> delivery_expired now e1" by blast
    have m: "map_of (ob_entries ob) k = Some e1" using assms(1) e1(2) by (simp add: outbox_ok_def)
    then have "we_id e1 = k" using assms(1) by (simp add: outbox_ok_def)
    with e1(1) i m assms(2) have "e1 = e" by simp
    with e1(3) not show False by simp
  qed
  moreover have "map_of (snd (claim_entries now w limit lease (ob_entries ob))) (we_id e) = Some e"
    using claim_lookup [OF assms(2), of now w limit lease] not by (auto simp: claim_rel_def)
  ultimately show ?thesis by (auto simp: outbox_op_def Claim claim_batch)
next
  case (Finish now jitter blocked fetched c)
  then show ?thesis
    using process_puts [of c now jitter blocked fetched ob] assms(2,3) by (auto simp: outbox_op_def apart_def put_entry_lookup)
next
  case (Replay now i)
  show ?thesis
  proof (cases "map_of (ob_entries ob) i")
    case None
    then show ?thesis using assms(2) by (simp add: outbox_op_def Replay replayDeadLetterWebhook_def)
  next
    case (Some x)
    then have x: "we_id x = i" using assms(1) by (simp add: outbox_ok_def)
    show ?thesis
    proof (cases "i = we_id e")
      case True
      then have "x = e" using Some assms(2) by simp
      then show ?thesis using assms(2,3) True by (simp add: outbox_op_def Replay replayDeadLetterWebhook_def apart_def)
    next
      case False
      then show ?thesis using assms(2) Some x by (simp add: outbox_op_def Replay replayDeadLetterWebhook_def put_entry_lookup Let_def)
    qed
  qed
next
  case (Enqueue now uuid q)
  then show ?thesis
    using assms(2,3) by (auto simp: outbox_op_def apart_def enqueueWebhookOutbox_def Let_def put_entry_lookup)
qed

lemma apart_run:
  assumes "outbox_ok ob" "map_of (ob_entries ob) (we_id e) = Some e" "\<forall>op \<in> set ops. apart hmac e op"
  shows "map_of (ob_entries (snd (outbox_run hmac ops ob))) (we_id e) = Some e \<and> we_id e \<notin> set (fst (outbox_run hmac ops ob))"
  using assms
proof (induction ops arbitrary: ob)
  case (Cons op ops)
  let ?ob1 = "snd (outbox_op hmac op ob)"
  have "map_of (ob_entries ?ob1) (we_id e) = Some e" "we_id e \<notin> we_id ` set (fst (outbox_op hmac op ob))"
    using apart_op [OF Cons.prems(1,2)] Cons.prems(3) by simp_all
  moreover from this(1) have "map_of (ob_entries (snd (outbox_run hmac ops ?ob1))) (we_id e) = Some e \<and> we_id e \<notin> set (fst (outbox_run hmac ops ?ob1))"
    using Cons.IH [OF op_ok [OF Cons.prems(1)]] Cons.prems(3) by simp
  ultimately show ?case by (simp add: Let_def split_beta)
qed simp

section \<open>Leases and failures\<close>

text \<open>Operations of others while a lease lasts.\<close>

definition within_lease :: "(string \<Rightarrow> string \<Rightarrow> string) \<Rightarrow> millis \<Rightarrow> ident \<Rightarrow> OutboxOp \<Rightarrow> bool" where
  "within_lease hmac until i op = (case op of
       Enqueue now uuid q \<Rightarrow> we_id (new_entry hmac now uuid q) \<noteq> i
     | Claim now w limit lease \<Rightarrow> now \<le> until
     | Finish now jitter blocked fetched c \<Rightarrow> we_id c \<noteq> i
     | Replay now j \<Rightarrow> True)"

text \<open>
  A lease is exclusive: from the claim of an entry to the end of its lease, and as long as its own
  worker does not finish it, no claim of any worker returns it again, whatever else is claimed,
  delivered, added or replayed, and the entry is not changed.
\<close>

theorem lease_exclusive:
  assumes "outbox_ok ob" "claimWebhookBatch t w limit d ob = (cs, ob1)" "e \<in> set cs" "\<forall>op \<in> set ops. within_lease hmac (t + d) (we_id e) op"
  shows "we_id e \<notin> set (fst (outbox_run hmac ops ob1)) \<and> map_of (ob_entries (snd (outbox_run hmac ops ob1))) (we_id e) = Some e"
proof -
  have e: "e \<in> set (fst (claim_entries t w limit d (ob_entries ob)))" and ob1: "ob1 = snd (claimWebhookBatch t w limit d ob)"
    using assms(2,3) by (auto simp: claim_batch)
  have ok: "outbox_ok ob1" unfolding ob1 by (rule claim_ok [OF assms(1)])
  obtain k e0 where e0: "e = claimed_entry t w d e0" using e claimed_sources by blast
  have "map_of (ob_entries ob1) (we_id e) = Some e"
    using claimed_stored [OF assms(1), of e t w limit d] e by (simp add: ob1 claim_batch)
  moreover have "\<forall>op \<in> set ops. apart hmac e op"
    using assms(4) by (auto simp: within_lease_def apart_def pending_due_def delivery_expired_def e0 claimed_entry_def split: OutboxOp.splits)
  ultimately show ?thesis using apart_run [OF ok] by blast
qed

text \<open>Operations that do not concern an entry.\<close>

definition elsewhere :: "(string \<Rightarrow> string \<Rightarrow> string) \<Rightarrow> ident \<Rightarrow> OutboxOp \<Rightarrow> bool" where
  "elsewhere hmac i op = (case op of
       Enqueue now uuid q \<Rightarrow> we_id (new_entry hmac now uuid q) \<noteq> i
     | Claim now w limit lease \<Rightarrow> True
     | Finish now jitter blocked fetched c \<Rightarrow> we_id c \<noteq> i
     | Replay now j \<Rightarrow> j \<noteq> i)"

definition retryable_failure :: "Fetched \<Rightarrow> bool" where
  "retryable_failure f = (case f of Responded code text \<Rightarrow> \<not> (200 \<le> code \<and> code \<le> 299) \<and> \<not> permanent_4xx code | FetchThrew msg aborted \<Rightarrow> True)"

lemma retryable_fails:
  assumes "we_attempts e + 1 < we_maxAttempts e" "retryable_failure f"
  shows "\<exists>e1. snd (processWebhookDelivery now jitter None f e ob) = put_entry e1 ob \<and> we_id e1 = we_id e \<and> we_status e1 = FAILED
     \<and> we_attempts e1 = we_attempts e + 1 \<and> we_deliveredAt e1 = we_deliveredAt e
     \<and> we_nextAttemptAt e1 = now + calculateWebhookBackoffMs jitter (we_attempts e + 1)"
proof -
  have i: "\<exists>e1. put_entry x ob = put_entry e1 ob \<and> P e1" if "P x" for x :: WebhookOutboxEntry and P using that by blast
  show ?thesis
    using assms by (cases f) (auto simp: processWebhookDelivery_def Let_def handleDeliveryFailure_def retryable_failure_def permanent_4xx_def intro!: i)
qed

text \<open>
  C40. Retries are computed but never made: a delivery that failed in a way meant to be retried is
  filed as FAILED with the time of its next attempt, and from then on no claim at any time returns it;
  only an administrator's replay brings it back.
\<close>

theorem failed_delivery_never_retried:
  assumes "outbox_ok ob" "we_attempts e + 1 < we_maxAttempts e" "retryable_failure f" "\<forall>op \<in> set ops. elsewhere hmac (we_id e) op"
    "ob1 = snd (processWebhookDelivery now jitter None f e ob)"
  shows "\<exists>e1. map_of (ob_entries ob1) (we_id e) = Some e1 \<and> we_status e1 = FAILED
     \<and> we_nextAttemptAt e1 = now + calculateWebhookBackoffMs jitter (we_attempts e + 1)
     \<and> we_id e \<notin> set (fst (outbox_run hmac ops ob1)) \<and> map_of (ob_entries (snd (outbox_run hmac ops ob1))) (we_id e) = Some e1"
proof -
  obtain e1 where e1: "ob1 = put_entry e1 ob" "we_id e1 = we_id e" "we_status e1 = FAILED"
      "we_nextAttemptAt e1 = now + calculateWebhookBackoffMs jitter (we_attempts e + 1)"
    using retryable_fails [OF assms(2,3)] unfolding assms(5) by blast
  have ok: "outbox_ok ob1" using put_ok assms(1) by (simp add: e1(1))
  have m: "map_of (ob_entries ob1) (we_id e1) = Some e1" by (simp add: e1(1) put_entry_lookup)
  have "\<forall>op \<in> set ops. apart hmac e1 op"
    using assms(4) by (auto simp: elsewhere_def apart_def e1(2,3) pending_due_def delivery_expired_def split: OutboxOp.splits)
  from apart_run [OF ok m this] m e1(2-4) show ?thesis by auto
qed

text \<open>
  Delivered is not final: when a lease runs out during a slow request, a second worker claims and
  delivers the entry, and the first one's failure, written from its old copy, makes it failed with no
  delivery time; a replay then sends the event a second time.
\<close>

theorem late_failure_undoes_delivery:
  assumes "ob_entries ob = [(we_id e, e)]" "pending_due t1 e" "we_attempts e + 1 < we_maxAttempts e" "we_deliveredAt e = None"
    "t1 + d < t2" "retryable_failure f" "200 \<le> code \<and> code \<le> 299"
  shows "\<exists>c1 c2 ob1 ob2 ob3 ob4 e3 e4.
     claimWebhookBatch t1 w1 10 d ob = ([c1], ob1) \<and> claimWebhookBatch t2 w2 10 d ob1 = ([c2], ob2)
     \<and> snd (processWebhookDelivery t3 j2 None (Responded code text) c2 ob2) = ob3 \<and> ob_entries ob3 = [(we_id e, e3)] \<and> we_status e3 = DELIVERED
     \<and> snd (processWebhookDelivery t4 j1 None f c1 ob3) = ob4 \<and> ob_entries ob4 = [(we_id e, e4)]
     \<and> we_status e4 = FAILED \<and> we_deliveredAt e4 = None \<and> we_attempts e4 = we_attempts e + 1
     \<and> (\<exists>e5. fst (replayDeadLetterWebhook t5 (we_id e) ob4) = Inr e5 \<and> we_status e5 = PENDING)"
proof -
  let ?c1 = "claimed_entry t1 w1 d e"
  let ?ob1 = "ob\<lparr>ob_entries := [(we_id e, ?c1)]\<rparr>"
  let ?c2 = "claimed_entry t2 w2 d ?c1"
  let ?ob2 = "?ob1\<lparr>ob_entries := [(we_id e, ?c2)]\<rparr>"
  have a: "claimWebhookBatch t1 w1 10 d ob = ([?c1], ?ob1)" using assms(1,2) by (simp add: claimWebhookBatch_def Let_def)
  have "delivery_expired t2 ?c1" using assms(5) by (simp add: delivery_expired_def claimed_entry_def)
  then have b: "claimWebhookBatch t2 w2 10 d ?ob1 = ([?c2], ?ob2)" by (simp add: claimWebhookBatch_def Let_def)
  let ?e3 = "?c2\<lparr>we_attempts := we_attempts ?c2 + 1, we_lastStatusCode := Some code, we_status := DELIVERED, we_deliveredAt := Some t3, we_lastError := None\<rparr>"
  have c: "snd (processWebhookDelivery t3 j2 None (Responded code text) ?c2 ?ob2) = ?ob2\<lparr>ob_entries := [(we_id e, ?e3)]\<rparr>"
    using assms(7) by (simp add: processWebhookDelivery_def Let_def put_entry_def)
  let ?ob3 = "?ob2\<lparr>ob_entries := [(we_id e, ?e3)]\<rparr>"
  have m: "we_attempts ?c1 + 1 < we_maxAttempts ?c1" "we_attempts ?c1 = we_attempts e" "we_deliveredAt ?c1 = None"
    using assms(3,4) by (simp_all add: claimed_entry_def)
  obtain e4 where e4: "snd (processWebhookDelivery t4 j1 None f ?c1 ?ob3) = put_entry e4 ?ob3" "we_id e4 = we_id ?c1" "we_status e4 = FAILED"
      "we_attempts e4 = we_attempts ?c1 + 1" "we_deliveredAt e4 = we_deliveredAt ?c1"
    using retryable_fails [OF m(1) assms(6)] by blast
  let ?ob4 = "put_entry e4 ?ob3"
  have d4: "ob_entries ?ob4 = [(we_id e, e4)]" using e4(2) by (simp add: put_entry_def)
  have e5: "\<exists>e5. fst (replayDeadLetterWebhook t5 (we_id e) ?ob4) = Inr e5 \<and> we_status e5 = PENDING"
    using d4 e4(3) by (simp add: replayDeadLetterWebhook_def Let_def)
  have n: "we_deliveredAt e4 = None" "we_attempts e4 = we_attempts e + 1" "we_status ?e3 = DELIVERED" "ob_entries ?ob3 = [(we_id e, ?e3)]"
    using e4(4,5) m(2,3) by simp_all
  show ?thesis
    by (intro exI [of _ ?c1] exI [of _ ?c2] exI [of _ ?ob1] exI [of _ ?ob2] exI [of _ ?ob3] exI [of _ ?ob4] exI [of _ ?e3] exI [of _ e4]
      conjI a b c e4(1,3) d4 n e5)
qed

section \<open>Witnesses\<close>

definition sample_entry :: "ident \<Rightarrow> WebhookOutboxEntry" where
  "sample_entry i = \<lparr>we_id = i, we_tenantId = ''t'', we_subscriptionId = None, we_targetUrl = ''https://example.com'', we_event = ''batch.completed'',
     we_payload = ''{}'', we_signature = ''unsigned'', we_status = PENDING, we_attempts = 0, we_maxAttempts = 5, we_nextAttemptAt = 0,
     we_leaseExpiresAt = None, we_workerId = None, we_lastStatusCode = None, we_lastError = None, we_createdAt = 0, we_deliveredAt = None\<rparr>"

definition sample_outbox :: Outbox where
  "sample_outbox = \<lparr>ob_postgres = False, ob_tableWorks = False, ob_rows = [], ob_entries = [(''a'', sample_entry ''a'')]\<rparr>"

lemma sample_outbox_ok: "outbox_ok sample_outbox"
  by (simp add: outbox_ok_def sample_outbox_def sample_entry_def)

definition no_hmac :: "string \<Rightarrow> string \<Rightarrow> string" where
  "no_hmac key text = key @ text"

theorem lease_exclusive_witness:
  "''a'' \<notin> set (fst (outbox_run no_hmac [Claim 20 ''w2'' 10 30, Replay 25 ''a'', Claim 30 ''w3'' 10 30]
     (snd (claimWebhookBatch 1 ''w1'' 10 30 sample_outbox))))"
proof -
  let ?c = "claimed_entry 1 ''w1'' 30 (sample_entry ''a'')"
  have c: "claimWebhookBatch 1 ''w1'' 10 30 sample_outbox = ([?c], sample_outbox\<lparr>ob_entries := [(''a'', ?c)]\<rparr>)"
    by (simp add: claimWebhookBatch_def Let_def sample_outbox_def pending_due_def sample_entry_def)
  have i: "we_id ?c = ''a''" by (simp add: sample_entry_def)
  have "\<forall>op \<in> set [Claim 20 ''w2'' 10 30, Replay 25 ''a'', Claim 30 ''w3'' 10 30]. within_lease no_hmac (1 + 30) (we_id ?c) op"
    by (simp add: within_lease_def)
  from lease_exclusive [OF sample_outbox_ok c _ this] have "we_id ?c \<notin> set (fst (outbox_run no_hmac
      [Claim 20 ''w2'' 10 30, Replay 25 ''a'', Claim 30 ''w3'' 10 30] (sample_outbox\<lparr>ob_entries := [(''a'', ?c)]\<rparr>)))"
    by (meson list.set_intros(1))
  then show ?thesis unfolding c i snd_conv .
qed

theorem failed_delivery_never_retried_witness:
  "''a'' \<notin> set (fst (outbox_run no_hmac [Claim 99999999 ''w'' 10 30]
     (snd (processWebhookDelivery 5 0 None (Responded 503 ''down'') (sample_entry ''a'') sample_outbox))))"
proof -
  have a: "we_attempts (sample_entry ''a'') + 1 < we_maxAttempts (sample_entry ''a'')" "retryable_failure (Responded 503 ''down'')"
    "\<forall>op \<in> set [Claim 99999999 ''w'' 10 30]. elsewhere no_hmac (we_id (sample_entry ''a'')) op"
    by (simp_all add: sample_entry_def retryable_failure_def permanent_4xx_def elsewhere_def)
  have i: "we_id (sample_entry ''a'') = ''a''" by (simp add: sample_entry_def)
  from failed_delivery_never_retried [OF sample_outbox_ok a refl, of 5 0] show ?thesis unfolding i by blast
qed

theorem late_failure_undoes_delivery_witness:
  "\<exists>c1 c2 ob1 ob2 ob3 ob4 e3 e4.
     claimWebhookBatch 1 ''w1'' 10 30 sample_outbox = ([c1], ob1) \<and> claimWebhookBatch 40 ''w2'' 10 30 ob1 = ([c2], ob2)
     \<and> snd (processWebhookDelivery 41 0 None (Responded 200 ''OK'') c2 ob2) = ob3 \<and> ob_entries ob3 = [(''a'', e3)] \<and> we_status e3 = DELIVERED
     \<and> snd (processWebhookDelivery 42 0 None (FetchThrew ''reset'' False) c1 ob3) = ob4 \<and> ob_entries ob4 = [(''a'', e4)] \<and> we_status e4 = FAILED"
proof -
  have a: "ob_entries sample_outbox = [(we_id (sample_entry ''a''), sample_entry ''a'')]" "pending_due 1 (sample_entry ''a'')"
    "we_attempts (sample_entry ''a'') + 1 < we_maxAttempts (sample_entry ''a'')" "we_deliveredAt (sample_entry ''a'') = None"
    "(1::int) + 30 < 40" "retryable_failure (FetchThrew ''reset'' False)" "(200::int) \<le> 200 \<and> (200::int) \<le> 299"
    by (simp_all add: sample_outbox_def sample_entry_def pending_due_def retryable_failure_def)
  have i: "we_id (sample_entry ''a'') = ''a''" by (simp add: sample_entry_def)
  from late_failure_undoes_delivery [OF a, of "''w1''" "''w2''" 41 0 "''OK''" 42 0 0] show ?thesis unfolding i by blast
qed

end
