(* ===== verification/Ssrf_Guard.thy ===== *)
theory Ssrf_Guard
  imports Prelude "HOL-Library.Word"
begin

unbundle bit_operations_syntax

text \<open>
  The guard of outbound requests (\<open>src/lib/security/ssrf-guard.ts\<close>): literals of both address families, the
  reserved names, and the optional look-up of names. An IPv4 address is a \<open>32 word\<close>, the groups of
  an IPv6 address are integers that have been checked against 16 bits. The URL parser of the platform and the
  name service are parameters: the first gives the protocol and the host of a URL it accepts, the second
  the addresses of a name, or nothing when it fails.
\<close>

section \<open>Strings\<close>

fun js_split :: "char \<Rightarrow> string \<Rightarrow> string list" where
  "js_split d [] = [[]]"
| "js_split d (c # cs) = (if c = d then [] # js_split d cs else (c # hd (js_split d cs)) # tl (js_split d cs))"

text \<open>The same for a separator of two characters.\<close>

fun js_split_pair :: "char \<Rightarrow> string \<Rightarrow> string list" where
  "js_split_pair d (x # y # zs) =
     (if x = d \<and> y = d then [] # js_split_pair d zs
      else (x # hd (js_split_pair d (y # zs))) # tl (js_split_pair d (y # zs)))"
| "js_split_pair d xs = [xs]"

definition js_endsWith :: "string \<Rightarrow> string \<Rightarrow> bool" where
  "js_endsWith s t = js_startsWith (rev s) (rev t)"

definition is_digit :: "char \<Rightarrow> bool" where
  "is_digit c = (48 \<le> (of_char c :: nat) \<and> (of_char c :: nat) \<le> 57)"

definition decimal :: "string \<Rightarrow> nat" where
  "decimal s = foldl (\<lambda>a c. 10 * a + (of_char c - 48)) 0 s"

definition hex_value :: "char \<Rightarrow> nat option" where
  "hex_value c = (let n = of_char c :: nat in
     if 48 \<le> n \<and> n \<le> 57 then Some (n - 48) else if 97 \<le> n \<and> n \<le> 102 then Some (n - 87)
     else if 65 \<le> n \<and> n \<le> 70 then Some (n - 55) else None)"

definition is_hex :: "char \<Rightarrow> bool" where
  "is_hex c = (hex_value c \<noteq> None)"

definition hexadecimal :: "string \<Rightarrow> nat" where
  "hexadecimal s = foldl (\<lambda>a c. 16 * a + the (hex_value c)) 0 s"

text \<open>
  \<open>parseInt(s, 16)\<close>: leading blanks, a sign and a prefix are skipped, and whatever follows the digits is ignored.
  Without a digit the result is not a number.
\<close>

definition parseInt16 :: "string \<Rightarrow> int option" where
  "parseInt16 s =
     (let t = dropWhile js_whitespace s;
          u = (if js_startsWith t ''-'' \<or> js_startsWith t ''+'' then tl t else t);
          v = (if js_startsWith u ''0x'' \<or> js_startsWith u ''0X'' then drop 2 u else u);
          ds = takeWhile is_hex v
      in if ds = [] then None else Some ((if js_startsWith t ''-'' then - 1 else 1) * int (hexadecimal ds)))"

fun js_show_hex :: "nat \<Rightarrow> string" where
  "js_show_hex n = (if n < 16 then [char_of (if n < 10 then 48 + n else 87 + n)]
     else js_show_hex (n div 16) @ [char_of (if n mod 16 < 10 then 48 + n mod 16 else 87 + n mod 16)])"

declare js_show_hex.simps [simp del]

section \<open>IPv4\<close>

definition isIPv4 :: "string \<Rightarrow> bool" where
  "isIPv4 host = (let ps = js_split (CHR ''.'') host in
     length ps = 4 \<and> list_all (\<lambda>p. 1 \<le> length p \<and> length p \<le> 3 \<and> list_all is_digit p) ps)"

definition quad_value :: "nat list \<Rightarrow> nat" where
  "quad_value os = os ! 0 * 2 ^ 24 + os ! 1 * 2 ^ 16 + os ! 2 * 2 ^ 8 + os ! 3"

definition ipv4ToInt :: "string \<Rightarrow> 32 word option" where
  "ipv4ToInt host =
     (if isIPv4 host
      then (let os = map decimal (js_split (CHR ''.'') host) in
            if list_ex (\<lambda>n. n > 255) os then None else Some (of_nat (quad_value os)))
      else None)"

definition cidr_mask :: "nat \<Rightarrow> 32 word" where
  "cidr_mask bits = (if bits = 0 then 0 else push_bit (32 - bits) (- 1))"

definition inCidr :: "32 word \<Rightarrow> string \<Rightarrow> nat \<Rightarrow> bool" where
  "inCidr ip base bits =
     (case ipv4ToInt base of None \<Rightarrow> False | Some b \<Rightarrow> ip AND cidr_mask bits = b AND cidr_mask bits)"

definition ipv4_ranges :: "(string \<times> nat \<times> string) list" where
  "ipv4_ranges =
     [(''0.0.0.0'', 8, ''this-network (0.0.0.0/8)''),
      (''10.0.0.0'', 8, ''private (10.0.0.0/8)''),
      (''100.64.0.0'', 10, ''carrier-grade NAT (100.64.0.0/10)''),
      (''127.0.0.0'', 8, ''loopback (127.0.0.0/8)''),
      (''169.254.0.0'', 16, ''link-local / cloud metadata (169.254.0.0/16)''),
      (''172.16.0.0'', 12, ''private (172.16.0.0/12)''),
      (''192.0.0.0'', 24, ''IETF protocol assignments (192.0.0.0/24)''),
      (''192.168.0.0'', 16, ''private (192.168.0.0/16)''),
      (''198.18.0.0'', 15, ''benchmarking (198.18.0.0/15)''),
      (''224.0.0.0'', 4, ''multicast (224.0.0.0/4)''),
      (''240.0.0.0'', 4, ''reserved (240.0.0.0/4)'')]"

definition blockedIPv4Reason :: "32 word \<Rightarrow> string option" where
  "blockedIPv4Reason ip =
     (case find (\<lambda>(base, bits, reason). inCidr ip base bits) ipv4_ranges of
        Some (base, bits, reason) \<Rightarrow> Some reason
      | None \<Rightarrow> if ip = 0xffffffff then Some ''broadcast (255.255.255.255)'' else None)"

section \<open>IPv6\<close>

text \<open>A dotted tail is rewritten into two groups first.\<close>

definition expand_tail :: "string \<Rightarrow> string option" where
  "expand_tail h =
     (if CHR ''.'' \<in> set h
      then (let front = rev (dropWhile (\<lambda>c. c \<noteq> CHR '':'') (rev h));
                dotted = rev (takeWhile (\<lambda>c. c \<noteq> CHR '':'') (rev h))
            in if CHR '':'' \<notin> set h then None
               else (case ipv4ToInt dotted of None \<Rightarrow> None
                     | Some w \<Rightarrow> Some (front @ js_show_hex (unat (drop_bit 16 w AND 0xffff)) @ '':'' @ js_show_hex (unat (w AND 0xffff)))))
      else Some h)"

definition groups_of :: "string \<Rightarrow> string list" where
  "groups_of s = (if s = [] then [] else js_split (CHR '':'') s)"

definition group_value :: "string \<Rightarrow> int option" where
  "group_value g = parseInt16 (if g = [] then ''0'' else g)"

definition checked_groups :: "int option list \<Rightarrow> int list option" where
  "checked_groups gs =
     (if length gs \<noteq> 8 \<or> list_ex (\<lambda>g. case g of None \<Rightarrow> True | Some x \<Rightarrow> x < 0 \<or> x > 0xffff) gs then None else Some (map the gs))"

definition expandIPv6 :: "string \<Rightarrow> int list option" where
  "expandIPv6 host =
     (case expand_tail (js_toLowerCase host) of
        None \<Rightarrow> None
      | Some h \<Rightarrow>
          (let halves = js_split_pair (CHR '':'') h; front = groups_of (hd halves) in
           if length halves > 2 then None
           else if length halves = 1
           then (if length front \<noteq> 8 then None else checked_groups (map parseInt16 front))
           else (let back = groups_of (halves ! 1) in
                 if length front + length back > 8 then None
                 else checked_groups (map group_value front @ replicate (8 - (length front + length back)) (Some 0) @ map group_value back))))"

definition blockedIPv6Reason :: "int list \<Rightarrow> string option" where
  "blockedIPv6Reason g =
     (let leadingZero = list_all (\<lambda>x. x = 0) (take 7 g) in
      if leadingZero \<and> g ! 7 = 1 then Some ''loopback (::1)''
      else if leadingZero \<and> g ! 7 = 0 then Some ''unspecified (::)''
      else if list_all (\<lambda>x. x = 0) (take 5 g) \<and> g ! 5 = 0xffff
      then map_option (\<lambda>r. ''IPv4-mapped '' @ r) (blockedIPv4Reason (of_int (g ! 6 * 2 ^ 16 + g ! 7)))
      else if g ! 0 AND 0xfe00 = 0xfc00 then Some ''unique-local (fc00::/7)''
      else if g ! 0 AND 0xffc0 = 0xfe80 then Some ''link-local (fe80::/10)''
      else if g ! 0 AND 0xff00 = 0xff00 then Some ''multicast (ff00::/8)''
      else None)"

section \<open>Hosts and URLs\<close>

definition classifyIpLiteral :: "string \<Rightarrow> bool \<times> string option" where
  "classifyIpLiteral host =
     (if isIPv4 host
      then (True, case ipv4ToInt host of None \<Rightarrow> Some ''malformed IPv4 literal'' | Some ip \<Rightarrow> blockedIPv4Reason ip)
      else if CHR '':'' \<in> set host
      then (True, case expandIPv6 host of None \<Rightarrow> Some ''malformed IPv6 literal'' | Some g \<Rightarrow> blockedIPv6Reason g)
      else (False, None))"

definition RESERVED_HOST_EXACT :: "string list" where
  "RESERVED_HOST_EXACT = [''localhost'', ''ip6-localhost'', ''ip6-loopback'', ''metadata.google.internal'', ''metadata.goog'']"

definition RESERVED_HOST_SUFFIXES :: "string list" where
  "RESERVED_HOST_SUFFIXES = [''.internal'', ''.local'', ''.localhost'', ''.lan'', ''.home.arpa'']"

definition isReservedHostname :: "string \<Rightarrow> bool" where
  "isReservedHostname host = (host \<in> set RESERVED_HOST_EXACT \<or> list_ex (js_endsWith host) RESERVED_HOST_SUFFIXES)"

definition stripBrackets :: "string \<Rightarrow> string" where
  "stripBrackets host = (if js_startsWith host ''['' \<and> js_endsWith host '']'' then butlast (tl host) else host)"

record UrlSafetyVerdict =
  uv_blocked :: bool
  uv_reason :: "string option"

definition blocked_because :: "string \<Rightarrow> UrlSafetyVerdict" where
  "blocked_because r = \<lparr>uv_blocked = True, uv_reason = Some r\<rparr>"

definition allowed :: UrlSafetyVerdict where
  "allowed = \<lparr>uv_blocked = False, uv_reason = None\<rparr>"

definition of_reason :: "string option \<Rightarrow> UrlSafetyVerdict" where
  "of_reason r = (case r of None \<Rightarrow> allowed | Some t \<Rightarrow> blocked_because t)"

definition quote_text :: "string \<Rightarrow> string" where
  "quote_text s = [CHR 0x27] @ s @ [CHR 0x27]"

text \<open>The optional pass: the first address of the name that is in a blocked range decides.\<close>

definition resolve_check :: "(string \<Rightarrow> string list option) \<Rightarrow> string \<Rightarrow> UrlSafetyVerdict" where
  "resolve_check lookup host =
     (case lookup host of
        None \<Rightarrow> blocked_because (''DNS resolution failed for '' @ quote_text host)
      | Some addresses \<Rightarrow>
          (case List.map_filter (\<lambda>a. snd (classifyIpLiteral a)) addresses of
             [] \<Rightarrow> allowed
           | r # rs \<Rightarrow> blocked_because (''host '' @ quote_text host @ '' resolves to '' @ r)))"

definition evaluateOutboundUrl ::
  "(string \<Rightarrow> (string \<times> string) option) \<Rightarrow> bool \<Rightarrow> (string \<Rightarrow> string list option) \<Rightarrow> string \<Rightarrow> UrlSafetyVerdict" where
  "evaluateOutboundUrl new_URL resolve lookup rawUrl =
     (case new_URL rawUrl of
        None \<Rightarrow> blocked_because ''malformed URL''
      | Some (protocol, hostname) \<Rightarrow>
          (let host = js_toLowerCase (stripBrackets hostname); literal = classifyIpLiteral host in
           if protocol \<noteq> ''http:'' \<and> protocol \<noteq> ''https:'' then blocked_because (''unsupported protocol '' @ quote_text protocol)
           else if host = [] then blocked_because ''empty host''
           else if isReservedHostname host then blocked_because (''reserved/internal host '' @ quote_text host)
           else if fst literal then of_reason (snd literal)
           else if resolve then resolve_check lookup host
           else allowed))"

definition isBlockedOutboundUrl ::
  "(string \<Rightarrow> (string \<times> string) option) \<Rightarrow> bool \<Rightarrow> (string \<Rightarrow> string list option) \<Rightarrow> string \<Rightarrow> bool" where
  "isBlockedOutboundUrl new_URL resolve lookup rawUrl = uv_blocked (evaluateOutboundUrl new_URL resolve lookup rawUrl)"

end
