(* ===== verification/Ssrf_Correct.thy ===== *)
theory Ssrf_Correct
  imports Ssrf_Guard Webhook_Outbox
begin

text \<open>
  What the guard lets through: for every IPv4 literal the ranges are the intended ones, an IPv4-mapped
  IPv6 literal gets the verdict of the address inside it, a delivery to a blocked target never leaves the server; and the two
  ways past the guard, a name with a final dot and an IPv4 address carried by another IPv6 prefix.
\<close>

section \<open>Splitting and printing\<close>

lemma js_split_free: "d \<notin> set xs \<Longrightarrow> js_split d xs = [xs]"
  by (induction xs) auto

lemma js_split_app: "d \<notin> set xs \<Longrightarrow> js_split d (xs @ d # ys) = xs # js_split d ys"
  by (induction xs) auto

lemma js_split_pair_free: "d \<notin> set xs \<Longrightarrow> js_split_pair d xs = [xs]"
  by (induction d xs rule: js_split_pair.induct) auto

lemma js_split_pair_skip:
  "d \<notin> set xs \<Longrightarrow> ys \<noteq> [] \<Longrightarrow> hd ys \<noteq> d \<Longrightarrow>
   js_split_pair d (xs @ d # ys) = (xs @ d # hd (js_split_pair d ys)) # tl (js_split_pair d ys)"
proof (induction xs)
  case Nil
  then obtain y zs where "ys = y # zs" by (cases ys) auto
  with Nil show ?case by simp
next
  case (Cons x xs)
  then show ?case by (cases xs) auto
qed

lemma js_split_pair_single:
  "d \<notin> set xs \<Longrightarrow> d \<notin> set ys \<Longrightarrow> ys \<noteq> [] \<Longrightarrow> js_split_pair d (xs @ d # ys) = [xs @ d # ys]"
  by (subst js_split_pair_skip) (auto simp: js_split_pair_free)

lemma js_split_pair_app: "d \<notin> set xs \<Longrightarrow> js_split_pair d (xs @ d # d # ys) = xs # js_split_pair d ys"
proof (induction xs)
  case (Cons x xs)
  then show ?case by (cases xs) auto
qed simp

lemma show_nat_is_digit: "c \<in> set (js_show_nat n) \<Longrightarrow> is_digit c"
  using js_show_nat_digits [of c n] by (simp add: is_digit_def)

lemma js_show_nat_not_Nil [simp]: "js_show_nat n \<noteq> []"
  by (subst js_show_nat.simps) simp

lemma js_show_nat_small: "n < 1000 \<Longrightarrow> length (js_show_nat n) \<le> 3"
proof -
  have a: "length (js_show_nat n) = 1" if "n < 10" for n using that by (subst js_show_nat.simps) simp
  have b: "length (js_show_nat n) \<le> 2" if "n < 100" for n
  proof (cases "n < 10")
    case False
    have "length (js_show_nat n) = length (js_show_nat (n div 10)) + 1" using False by (subst js_show_nat.simps) simp
    moreover have "n div 10 < 10" using that by simp
    ultimately show ?thesis using a [of "n div 10"] by simp
  qed (simp add: a)
  assume n: "n < 1000"
  show ?thesis
  proof (cases "n < 10")
    case False
    have "length (js_show_nat n) = length (js_show_nat (n div 10)) + 1" using False by (subst js_show_nat.simps) simp
    moreover have "n div 10 < 100" using n by simp
    ultimately show ?thesis using b [of "n div 10"] by simp
  qed (simp add: a)
qed

lemma decimal_show [simp]: "decimal (js_show_nat n) = n"
  by (simp add: decimal_def js_show_nat_value)

definition hex_char :: "nat \<Rightarrow> char" where
  "hex_char n = char_of (if n < 10 then 48 + n else 87 + n)"

lemma hex_char_props:
  assumes "n < 16"
  shows "hex_value (hex_char n) = Some n" "is_hex (hex_char n)" "js_lower (hex_char n) = hex_char n"
    "hex_char n \<noteq> CHR '':''" "hex_char n \<noteq> CHR ''.''" "hex_char n \<noteq> CHR ''x''" "hex_char n \<noteq> CHR ''X''"
    "hex_char n \<noteq> CHR ''-''" "hex_char n \<noteq> CHR ''+''" "\<not> js_whitespace (hex_char n)"
proof -
  have v: "(of_char (hex_char n) :: nat) = (if n < 10 then 48 + n else 87 + n)" using assms by (simp add: hex_char_def)
  show "hex_value (hex_char n) = Some n" using assms by (simp add: hex_value_def v)
  then show "is_hex (hex_char n)" by (simp add: is_hex_def)
  show "js_lower (hex_char n) = hex_char n" using assms by (simp add: js_lower_def Let_def v)
  show "\<not> js_whitespace (hex_char n)" using assms by (simp add: js_whitespace_def v)
  have d: "hex_char n \<noteq> c" if "(of_char c :: nat) \<notin> {48..57} \<union> {97..102}" for c
    using that v assms by (auto split: if_splits)
  show "hex_char n \<noteq> CHR '':''" "hex_char n \<noteq> CHR ''.''" "hex_char n \<noteq> CHR ''x''" "hex_char n \<noteq> CHR ''X''"
    "hex_char n \<noteq> CHR ''-''" "hex_char n \<noteq> CHR ''+''" by (rule d, simp)+
qed

lemma show_hex_step: "js_show_hex n = (if n < 16 then [hex_char n] else js_show_hex (n div 16) @ [hex_char (n mod 16)])"
  by (subst js_show_hex.simps) (simp add: hex_char_def)

lemma show_hex_chars: "c \<in> set (js_show_hex n) \<Longrightarrow> \<exists>k < 16. c = hex_char k"
proof (induction n rule: js_show_hex.induct)
  case (1 n)
  show ?case
  proof (cases "n < 16")
    case True
    with 1(2) show ?thesis by (auto simp: show_hex_step [of n])
  next
    case False
    then have "c \<in> set (js_show_hex (n div 16)) \<or> c = hex_char (n mod 16)" using 1(2) by (auto simp: show_hex_step [of n])
    moreover have "n mod 16 < 16" by simp
    ultimately show ?thesis using 1(1) False by blast
  qed
qed

lemma hexadecimal_show: "hexadecimal (js_show_hex n) = n"
proof (induction n rule: js_show_hex.induct)
  case (1 n)
  then show ?case by (subst show_hex_step) (simp add: hexadecimal_def hex_char_props)
qed

lemma show_hex_Nil [simp]: "js_show_hex n \<noteq> []"
  by (subst show_hex_step) simp

lemma show_hex_free [simp]: "CHR '':'' \<notin> set (js_show_hex n)" "CHR ''.'' \<notin> set (js_show_hex n)"
  using show_hex_chars hex_char_props(4,5) by metis+

lemma show_hex_lower [simp]: "js_toLowerCase (js_show_hex n) = js_show_hex n"
  unfolding js_toLowerCase_def by (rule map_idI) (use show_hex_chars hex_char_props(3) in metis)

lemma show_hex_all: "\<forall>c \<in> set (js_show_hex n). is_hex c"
  using show_hex_chars hex_char_props(2) by metis

lemma parse_show_hex [simp]: "parseInt16 (js_show_hex n) = Some (int n)"
proof -
  obtain c cs where s: "js_show_hex n = c # cs" by (cases "js_show_hex n") auto
  obtain k where k: "k < 16" "c = hex_char k" using show_hex_chars [of c n] s by auto
  have nox: "c2 \<noteq> CHR ''x'' \<and> c2 \<noteq> CHR ''X''" if "c2 \<in> set cs" for c2
    using show_hex_chars [of c2 n] hex_char_props(6,7) that s by force
  have x: "\<not> js_startsWith (c # cs) ''0x''" "\<not> js_startsWith (c # cs) ''0X''"
    using nox by (cases cs; auto)+
  have h: "takeWhile is_hex (c # cs) = c # cs" using show_hex_all [of n] s by (simp add: takeWhile_eq_all_conv)
  have w: "dropWhile js_whitespace (c # cs) = c # cs" using hex_char_props(10) [OF k(1)] k(2) by simp
  have m: "\<not> js_startsWith (c # cs) ''-''" "\<not> js_startsWith (c # cs) ''+''" using hex_char_props(8,9) [OF k(1)] k(2) by auto
  have "parseInt16 (c # cs) = Some (int (hexadecimal (c # cs)))"
    unfolding parseInt16_def Let_def w by (simp only: m x h if_False simp_thms) simp
  then show ?thesis using hexadecimal_show [of n] by (simp add: s)
qed

section \<open>IPv4\<close>

definition dotted :: "nat \<Rightarrow> nat \<Rightarrow> nat \<Rightarrow> nat \<Rightarrow> string" where
  "dotted a b c d = js_show_nat a @ CHR ''.'' # js_show_nat b @ CHR ''.'' # js_show_nat c @ CHR ''.'' # js_show_nat d"

definition quad_number :: "nat \<Rightarrow> nat \<Rightarrow> nat \<Rightarrow> nat \<Rightarrow> nat" where
  "quad_number a b c d = a * 2 ^ 24 + b * 2 ^ 16 + c * 2 ^ 8 + d"

text \<open>The addresses no request may reach, by their octets.\<close>

definition internal_address :: "nat \<Rightarrow> nat \<Rightarrow> nat \<Rightarrow> bool" where
  "internal_address a b c \<longleftrightarrow> a = 0 \<or> a = 10 \<or> (a = 100 \<and> 64 \<le> b \<and> b \<le> 127) \<or> a = 127 \<or> (a = 169 \<and> b = 254)
     \<or> (a = 172 \<and> 16 \<le> b \<and> b \<le> 31) \<or> (a = 192 \<and> b = 0 \<and> c = 0) \<or> (a = 192 \<and> b = 168) \<or> (a = 198 \<and> (b = 18 \<or> b = 19)) \<or> 224 \<le> a"

lemma show_nat_not [simp]: "\<not> is_digit x \<Longrightarrow> x \<notin> set (js_show_nat n)"
  using show_nat_is_digit by blast

lemma is_digit_marks [simp]: "\<not> is_digit (CHR ''.'')" "\<not> is_digit (CHR '':'')" "\<not> is_digit (CHR ''['')" "\<not> is_digit (CHR '']'')"
  by (simp_all add: is_digit_def)

lemma split_dotted: "js_split (CHR ''.'') (dotted a b c d) = [js_show_nat a, js_show_nat b, js_show_nat c, js_show_nat d]"
  unfolding dotted_def by (simp add: js_split_app js_split_free)

lemma octet_shown: "a \<le> 255 \<Longrightarrow> 1 \<le> length (js_show_nat a) \<and> length (js_show_nat a) \<le> 3 \<and> list_all is_digit (js_show_nat a)"
  using js_show_nat_small [of a] show_nat_is_digit by (auto simp: list_all_iff Suc_le_eq)

lemma isIPv4_dotted:
  assumes "a \<le> 255" "b \<le> 255" "c \<le> 255" "d \<le> 255"
  shows "isIPv4 (dotted a b c d)"
  using octet_shown [OF assms(1)] octet_shown [OF assms(2)] octet_shown [OF assms(3)] octet_shown [OF assms(4)]
  unfolding isIPv4_def Let_def split_dotted by simp

lemma ipv4ToInt_dotted:
  assumes "a \<le> 255" "b \<le> 255" "c \<le> 255" "d \<le> 255"
  shows "ipv4ToInt (dotted a b c d) = Some (of_nat (quad_number a b c d))"
  using assms unfolding ipv4ToInt_def Let_def split_dotted by (simp add: isIPv4_dotted quad_value_def quad_number_def)

lemma mask_eq_div:
  fixes x y :: "32 word"
  assumes "n \<le> 32"
  shows "x AND push_bit n (- 1) = y AND push_bit n (- 1) \<longleftrightarrow> unat x div 2 ^ n = unat y div 2 ^ n"
proof -
  have "x AND push_bit n (- 1) = y AND push_bit n (- 1) \<longleftrightarrow> drop_bit n x = drop_bit n y"
  proof
    assume h: "x AND push_bit n (- 1) = y AND push_bit n (- 1)"
    show "drop_bit n x = drop_bit n y"
    proof (rule bit_word_eqI)
      fix i assume "i < LENGTH(32)"
      have "bit (x AND push_bit n (- 1)) (n + i) = bit (y AND push_bit n (- 1)) (n + i)" by (simp only: h)
      then show "bit (drop_bit n x) i = bit (drop_bit n y) i"
        by (cases "n + i < 32") (auto simp: bit_simps dest: bit_imp_le_length)
    qed
  next
    assume h: "drop_bit n x = drop_bit n y"
    show "x AND push_bit n (- 1) = y AND push_bit n (- 1)"
    proof (rule bit_word_eqI)
      fix i assume "i < LENGTH(32)"
      have "bit (drop_bit n x) (i - n) = bit (drop_bit n y) (i - n)" by (simp only: h)
      then show "bit (x AND push_bit n (- 1)) i = bit (y AND push_bit n (- 1)) i"
        by (cases "n \<le> i") (auto simp: bit_simps)
    qed
  qed
  also have "\<dots> \<longleftrightarrow> unat (drop_bit n x) = unat (drop_bit n y)" by (rule word_unat_eq_iff)
  also have "\<dots> \<longleftrightarrow> unat x div 2 ^ n = unat y div 2 ^ n" unfolding unat_drop_bit_eq unfolding drop_bit_eq_div ..
  finally show ?thesis .
qed

lemma inCidr_dotted:
  assumes "a \<le> 255" "b \<le> 255" "c \<le> 255" "d \<le> 255" "0 < bits" "bits \<le> 32"
  shows "inCidr ip (dotted a b c d) bits \<longleftrightarrow> unat ip div 2 ^ (32 - bits) = quad_number a b c d div 2 ^ (32 - bits)"
proof -
  have "quad_number a b c d < 2 ^ 32" using assms(1-4) by (simp add: quad_number_def)
  then have u: "unat (of_nat (quad_number a b c d) :: 32 word) = quad_number a b c d"
    by (simp add: unat_of_nat take_bit_nat_eq_self)
  show ?thesis
    using assms(5,6) mask_eq_div [of "32 - bits" ip "of_nat (quad_number a b c d)"] unfolding inCidr_def ipv4ToInt_dotted [OF assms(1-4)] cidr_mask_def
    by (simp only: u option.case if_False) simp
qed

lemma digit_chars:
  "char_of (48 :: nat) = CHR ''0''" "char_of (49 :: nat) = CHR ''1''" "char_of (50 :: nat) = CHR ''2''" "char_of (52 :: nat) = CHR ''4''"
  "char_of (53 :: nat) = CHR ''5''" "char_of (54 :: nat) = CHR ''6''" "char_of (55 :: nat) = CHR ''7''" "char_of (56 :: nat) = CHR ''8''"
  "char_of (57 :: nat) = CHR ''9''"
  by code_simp+

lemma range_bases:
  "''0.0.0.0'' = dotted 0 0 0 0" "''10.0.0.0'' = dotted 10 0 0 0" "''100.64.0.0'' = dotted 100 64 0 0" "''127.0.0.0'' = dotted 127 0 0 0"
  "''169.254.0.0'' = dotted 169 254 0 0" "''172.16.0.0'' = dotted 172 16 0 0" "''192.0.0.0'' = dotted 192 0 0 0" "''192.168.0.0'' = dotted 192 168 0 0"
  "''198.18.0.0'' = dotted 198 18 0 0" "''224.0.0.0'' = dotted 224 0 0 0" "''240.0.0.0'' = dotted 240 0 0 0"
  by (simp_all add: dotted_def js_show_nat.simps digit_chars)

lemma quad_divs:
  assumes "a \<le> 255" "b \<le> 255" "c \<le> 255" "d \<le> 255"
  shows "quad_number a b c d div 2 ^ 24 = a" "quad_number a b c d div 2 ^ 22 = 4 * a + b div 64" "quad_number a b c d div 2 ^ 20 = 16 * a + b div 16"
    "quad_number a b c d div 2 ^ 17 = 128 * a + b div 2" "quad_number a b c d div 2 ^ 16 = 256 * a + b"
    "quad_number a b c d div 2 ^ 8 = 65536 * a + 256 * b + c" "quad_number a b c d div 2 ^ 28 = a div 16"
  using assms by (simp_all add: quad_number_def)

lemma mixed_radix:
  fixes x :: nat
  assumes "x < m" "r < m"
  shows "m * a + x = m * q + r \<longleftrightarrow> a = q \<and> x = r"
proof
  assume h: "m * a + x = m * q + r"
  have "(m * a + x) div m = (m * q + r) div m" "(m * a + x) mod m = (m * q + r) mod m" by (simp_all only: h)
  then show "a = q \<and> x = r" using assms by simp
qed simp

lemma div_eq_range: "0 < k \<Longrightarrow> b div k = r \<longleftrightarrow> r * k \<le> b \<and> b < (r + 1) * k" for b k r :: nat
  using less_eq_div_iff_mult_less_eq [of k r b] div_less_iff_less_mult [of k b "r + 1"] by linarith

lemma cidr_arith:
  fixes a b c :: nat
  assumes "b \<le> 255" "c \<le> 255"
  shows "4 * a + b div 64 = 401 \<longleftrightarrow> a = 100 \<and> 64 \<le> b \<and> b \<le> 127" "16 * a + b div 16 = 2753 \<longleftrightarrow> a = 172 \<and> 16 \<le> b \<and> b \<le> 31"
    "128 * a + b div 2 = 25353 \<longleftrightarrow> a = 198 \<and> (b = 18 \<or> b = 19)" "256 * a + b = 43518 \<longleftrightarrow> a = 169 \<and> b = 254"
    "256 * a + b = 49320 \<longleftrightarrow> a = 192 \<and> b = 168" "65536 * a + 256 * b + c = 12582912 \<longleftrightarrow> a = 192 \<and> b = 0 \<and> c = 0"
proof -
  show "4 * a + b div 64 = 401 \<longleftrightarrow> a = 100 \<and> 64 \<le> b \<and> b \<le> 127"
    using mixed_radix [of "b div 64" 4 1 a 100] div_eq_range [of 64 b 1] assms by auto
  show "16 * a + b div 16 = 2753 \<longleftrightarrow> a = 172 \<and> 16 \<le> b \<and> b \<le> 31"
    using mixed_radix [of "b div 16" 16 1 a 172] div_eq_range [of 16 b 1] assms by auto
  show "128 * a + b div 2 = 25353 \<longleftrightarrow> a = 198 \<and> (b = 18 \<or> b = 19)"
    using mixed_radix [of "b div 2" 128 9 a 198] div_eq_range [of 2 b 9] assms by auto
  show "256 * a + b = 43518 \<longleftrightarrow> a = 169 \<and> b = 254" using mixed_radix [of b 256 254 a 169] assms by auto
  show "256 * a + b = 49320 \<longleftrightarrow> a = 192 \<and> b = 168" using mixed_radix [of b 256 168 a 192] assms by auto
  show "65536 * a + 256 * b + c = 12582912 \<longleftrightarrow> a = 192 \<and> b = 0 \<and> c = 0"
    using mixed_radix [of "256 * b + c" 65536 0 a 192] assms by auto
qed

lemma find_none_iff: "find P xs = None \<longleftrightarrow> \<not> list_ex P xs"
  by (auto simp: find_None_iff list_ex_iff)

lemma in_ranges:
  assumes "a \<le> 255" "b \<le> 255" "c \<le> 255" "d \<le> 255" "unat ip = quad_number a b c d"
  shows "list_ex (\<lambda>(base, bits, reason). inCidr ip base bits) ipv4_ranges \<longleftrightarrow> internal_address a b c"
proof -
  note q = quad_divs [OF assms(1-4)]
  have e: "inCidr ip (dotted a1 b1 c1 0) bits \<longleftrightarrow> quad_number a b c d div 2 ^ (32 - bits) = quad_number a1 b1 c1 0 div 2 ^ (32 - bits)"
    if "a1 \<le> 255" "b1 \<le> 255" "c1 \<le> 255" "0 < bits" "bits \<le> 32" for a1 b1 c1 bits
    using inCidr_dotted [OF that(1-3) _ that(4,5), of 0 ip] by (simp add: assms(5))
  have r: "inCidr ip (dotted 0 0 0 0) 8 \<longleftrightarrow> a = 0" "inCidr ip (dotted 10 0 0 0) 8 \<longleftrightarrow> a = 10" "inCidr ip (dotted 127 0 0 0) 8 \<longleftrightarrow> a = 127"
    using e [of 0 0 0 8] e [of 10 0 0 8] e [of 127 0 0 8] quad_divs(1) [of 0 0 0 0] quad_divs(1) [of 10 0 0 0] quad_divs(1) [of 127 0 0 0] q(1) by simp_all
  have r2: "inCidr ip (dotted 100 64 0 0) 10 \<longleftrightarrow> a = 100 \<and> 64 \<le> b \<and> b \<le> 127"
    using e [of 100 64 0 10] quad_divs(2) [of 100 64 0 0] q(2) cidr_arith(1) [OF assms(2,3)] by simp
  have r3: "inCidr ip (dotted 169 254 0 0) 16 \<longleftrightarrow> a = 169 \<and> b = 254" "inCidr ip (dotted 192 168 0 0) 16 \<longleftrightarrow> a = 192 \<and> b = 168"
    using e [of 169 254 0 16] e [of 192 168 0 16] quad_divs(5) [of 169 254 0 0] quad_divs(5) [of 192 168 0 0] q(5) cidr_arith(4,5) [OF assms(2,3)] by simp_all
  have r4: "inCidr ip (dotted 172 16 0 0) 12 \<longleftrightarrow> a = 172 \<and> 16 \<le> b \<and> b \<le> 31"
    using e [of 172 16 0 12] quad_divs(3) [of 172 16 0 0] q(3) cidr_arith(2) [OF assms(2,3)] by simp
  have r5: "inCidr ip (dotted 192 0 0 0) 24 \<longleftrightarrow> a = 192 \<and> b = 0 \<and> c = 0"
    using e [of 192 0 0 24] quad_divs(6) [of 192 0 0 0] q(6) cidr_arith(6) [OF assms(2,3)] by simp
  have r6: "inCidr ip (dotted 198 18 0 0) 15 \<longleftrightarrow> a = 198 \<and> (b = 18 \<or> b = 19)"
    using e [of 198 18 0 15] quad_divs(4) [of 198 18 0 0] q(4) cidr_arith(3) [OF assms(2,3)] by simp
  have r7: "inCidr ip (dotted 224 0 0 0) 4 \<longleftrightarrow> a div 16 = 14" "inCidr ip (dotted 240 0 0 0) 4 \<longleftrightarrow> a div 16 = 15"
    using e [of 224 0 0 4] e [of 240 0 0 4] quad_divs(7) [of 224 0 0 0] quad_divs(7) [of 240 0 0 0] q(7) by simp_all
  have "a div 16 = 14 \<or> a div 16 = 15 \<longleftrightarrow> 224 \<le> a" using assms(1) by linarith
  then show ?thesis
    unfolding ipv4_ranges_def range_bases(2-11) unfolding range_bases(1) internal_address_def by (simp only: list_ex_Nil_iff list_ex_Cons_iff prod.case r r2 r3 r4 r5 r6 r7) blast
qed

lemma blockedIPv4_iff:
  assumes "a \<le> 255" "b \<le> 255" "c \<le> 255" "d \<le> 255"
  shows "blockedIPv4Reason (of_nat (quad_number a b c d)) = None \<longleftrightarrow> \<not> internal_address a b c"
proof -
  let ?ip = "of_nat (quad_number a b c d) :: 32 word"
  have lt: "quad_number a b c d < 2 ^ 32" using assms by (simp add: quad_number_def)
  then have u: "unat ?ip = quad_number a b c d" by (simp add: unat_of_nat take_bit_nat_eq_self)
  note r = in_ranges [OF assms u]
  show ?thesis
  proof (cases "internal_address a b c")
    case True
    then have "find (\<lambda>(base, bits, reason). inCidr ?ip base bits) ipv4_ranges \<noteq> None" using r find_none_iff by blast
    then show ?thesis using True by (auto simp: blockedIPv4Reason_def split: option.splits)
  next
    case False
    then have f: "find (\<lambda>(base, bits, reason). inCidr ?ip base bits) ipv4_ranges = None" using r find_none_iff by blast
    have "a < 224" using False by (auto simp: internal_address_def)
    then have "quad_number a b c d < 0xffffffff" using assms by (simp add: quad_number_def)
    moreover have "unat (0xffffffff :: 32 word) = 0xffffffff" by simp
    ultimately have "?ip \<noteq> 0xffffffff" using u by (metis less_irrefl)
    then show ?thesis using False f by (simp add: blockedIPv4Reason_def)
  qed
qed

section \<open>Hosts\<close>

lemma lower_digit: "is_digit x \<Longrightarrow> js_lower x = x"
  by (simp add: js_lower_def is_digit_def Let_def)

lemma show_nat_lower: "map js_lower (js_show_nat n) = js_show_nat n"
  by (rule map_idI) (use show_nat_is_digit lower_digit in blast)

lemma js_lower_marks [simp]: "js_lower (CHR ''.'') = CHR ''.''" "js_lower (CHR '':'') = CHR '':''"
  by (simp_all add: js_lower_def)

lemma dotted_lower: "js_toLowerCase (dotted a b c d) = dotted a b c d"
  by (simp add: js_toLowerCase_def dotted_def show_nat_lower)

lemma ends_free: "s \<noteq> [] \<Longrightarrow> t \<noteq> [] \<Longrightarrow> List.last s \<noteq> List.last t \<Longrightarrow> \<not> js_endsWith s t"
  by (cases s rule: rev_cases; cases t rule: rev_cases) (auto simp: js_endsWith_def)

lemma not_reserved:
  assumes "s \<noteq> []" "\<forall>t \<in> set (RESERVED_HOST_EXACT @ RESERVED_HOST_SUFFIXES). List.last s \<noteq> List.last t"
  shows "\<not> isReservedHostname s"
proof -
  have "s \<notin> set RESERVED_HOST_EXACT" using assms(2) by auto
  moreover have "\<not> js_endsWith s t" if "t \<in> set RESERVED_HOST_SUFFIXES" for t
    using assms that by (intro ends_free) (auto simp: RESERVED_HOST_SUFFIXES_def)
  ultimately show ?thesis by (auto simp: isReservedHostname_def list_ex_iff)
qed

lemma last_of_reserved: "t \<in> set (RESERVED_HOST_EXACT @ RESERVED_HOST_SUFFIXES) \<Longrightarrow> List.last t \<in> {CHR ''t'', CHR ''k'', CHR ''l'', CHR ''g'', CHR ''n'', CHR ''a''}"
  by (auto simp: RESERVED_HOST_EXACT_def RESERVED_HOST_SUFFIXES_def)

lemma dotted_last: "is_digit (List.last (dotted a b c d))" and dotted_Nil [simp]: "dotted a b c d \<noteq> []"
  by (simp_all add: dotted_def show_nat_is_digit [OF last_in_set])

lemma dotted_not_reserved: "\<not> isReservedHostname (dotted a b c d)"
proof (rule not_reserved)
  show "\<forall>t \<in> set (RESERVED_HOST_EXACT @ RESERVED_HOST_SUFFIXES). List.last (dotted a b c d) \<noteq> List.last t"
  proof
    fix t assume "t \<in> set (RESERVED_HOST_EXACT @ RESERVED_HOST_SUFFIXES)"
    from last_of_reserved [OF this] have "\<not> is_digit (List.last t)" by (auto simp: is_digit_def)
    then show "List.last (dotted a b c d) \<noteq> List.last t" using dotted_last by metis
  qed
qed simp

lemma dotted_brackets: "stripBrackets (dotted a b c d) = dotted a b c d"
proof -
  have "\<not> js_endsWith (dotted a b c d) '']''" using dotted_last [of a b c d] by (intro ends_free) auto
  then show ?thesis by (simp add: stripBrackets_def)
qed

section \<open>IPv6 literals\<close>

text \<open>A literal that ends in the two groups of an IPv4 address.\<close>

definition carried_by :: "string \<Rightarrow> nat \<Rightarrow> nat \<Rightarrow> string" where
  "carried_by front hi lo = ''['' @ front @ js_show_hex hi @ '':'' @ js_show_hex lo @ '']''"

lemma strip_carried: "stripBrackets (carried_by front hi lo) = front @ js_show_hex hi @ '':'' @ js_show_hex lo"
  by (simp add: stripBrackets_def carried_by_def js_endsWith_def butlast_append)

lemma groups_tail: "groups_of (js_show_hex hi @ CHR '':'' # js_show_hex lo) = [js_show_hex hi, js_show_hex lo]"
  by (simp add: groups_of_def js_split_app js_split_free)

lemma pair_tail: "js_split_pair (CHR '':'') (js_show_hex hi @ CHR '':'' # js_show_hex lo) = [js_show_hex hi @ CHR '':'' # js_show_hex lo]"
  by (rule js_split_pair_single) simp_all

lemma group_value_hex: "group_value (js_show_hex n) = Some (int n)"
  by (simp add: group_value_def)

lemma expand_carried:
  assumes "hi \<le> 0xffff" "lo \<le> 0xffff"
  shows "expandIPv6 (''::ffff:'' @ js_show_hex hi @ '':'' @ js_show_hex lo) = Some [0, 0, 0, 0, 0, 0xffff, int hi, int lo]"
    and "expandIPv6 (''64:ff9b::'' @ js_show_hex hi @ '':'' @ js_show_hex lo) = Some [0x64, 0xff9b, 0, 0, 0, 0, int hi, int lo]"
    and "expandIPv6 (''::'' @ js_show_hex hi @ '':'' @ js_show_hex lo) = Some [0, 0, 0, 0, 0, 0, int hi, int lo]"
proof -
  let ?t = "js_show_hex hi @ CHR '':'' # js_show_hex lo"
  have low: "js_toLowerCase (front @ ?t) = map js_lower front @ ?t" for front
    using show_hex_lower by (simp add: js_toLowerCase_def)
  have nodot: "expand_tail (front @ ?t) = Some (front @ ?t)" if "CHR ''.'' \<notin> set front" for front
    using that by (simp add: expand_tail_def)
  have l1: "map js_lower ''::ffff:'' = ''::ffff:''" "map js_lower ''64:ff9b::'' = ''64:ff9b::''" "map js_lower ''::'' = ''::''" by (simp_all add: js_lower_def)
  have p1: "js_split_pair (CHR '':'') (''::ffff:'' @ ?t) = [[], ''ffff:'' @ ?t]"
  proof -
    have "hd ?t \<noteq> CHR '':''" using show_hex_free(1) [of hi] by (metis hd_append2 hd_in_set show_hex_Nil)
    then have "js_split_pair (CHR '':'') (''ffff'' @ CHR '':'' # ?t) = [''ffff'' @ CHR '':'' # ?t]"
      using pair_tail [of hi lo] by (subst js_split_pair_skip) auto
    then show ?thesis using js_split_pair_app [of "CHR '':''" "[]" "''ffff:'' @ ?t"] by simp
  qed
  have p2: "js_split_pair (CHR '':'') (''64:ff9b::'' @ ?t) = [''64:ff9b'', ?t]"
    using pair_tail [of hi lo] by simp
  have p3: "js_split_pair (CHR '':'') (''::'' @ ?t) = [[], ?t]"
    using pair_tail [of hi lo] by simp
  have g1: "groups_of (''ffff:'' @ ?t) = [''ffff'', js_show_hex hi, js_show_hex lo]"
    using groups_tail [of hi lo] by (simp add: groups_of_def)
  have g2: "groups_of ''64:ff9b'' = [''64'', ''ff9b'']" by (simp add: groups_of_def)
  have v: "group_value ''ffff'' = Some 0xffff" "group_value ''64'' = Some 0x64" "group_value ''ff9b'' = Some 0xff9b"
    by (simp_all add: group_value_def parseInt16_def Let_def js_whitespace_def is_hex_def hex_value_def hexadecimal_def)
  have ok: "checked_groups (map Some gs) = Some gs" if "length gs = 8" "\<forall>g \<in> set gs. 0 \<le> g \<and> g \<le> 0xffff" for gs
    using that by (auto simp: checked_groups_def list_ex_iff not_less comp_def)
  have r: "replicate 5 (Some (0 :: int)) = [Some 0, Some 0, Some 0, Some 0, Some 0]" "replicate 4 (Some (0 :: int)) = [Some 0, Some 0, Some 0, Some 0]"
    "replicate 6 (Some (0 :: int)) = [Some 0, Some 0, Some 0, Some 0, Some 0, Some 0]" by (simp_all add: numeral_eq_Suc)
  have b: "0 \<le> int hi \<and> int hi \<le> 0xffff" "0 \<le> int lo \<and> int lo \<le> 0xffff" using assms by simp_all
  show "expandIPv6 (''::ffff:'' @ js_show_hex hi @ '':'' @ js_show_hex lo) = Some [0, 0, 0, 0, 0, 0xffff, int hi, int lo]"
    using low [of "''::ffff:''"] nodot [of "''::ffff:''"] ok [of "[0, 0, 0, 0, 0, 0xffff, int hi, int lo]"] b
    unfolding expandIPv6_def l1 by (simp add: p1 [simplified] g1 [simplified] groups_of_def [of "[]"] group_value_hex v r)
  show "expandIPv6 (''64:ff9b::'' @ js_show_hex hi @ '':'' @ js_show_hex lo) = Some [0x64, 0xff9b, 0, 0, 0, 0, int hi, int lo]"
    using low [of "''64:ff9b::''"] nodot [of "''64:ff9b::''"] ok [of "[0x64, 0xff9b, 0, 0, 0, 0, int hi, int lo]"] b
    unfolding expandIPv6_def l1 by (simp add: p2 [simplified] g2 groups_tail group_value_hex v r)
  show "expandIPv6 (''::'' @ js_show_hex hi @ '':'' @ js_show_hex lo) = Some [0, 0, 0, 0, 0, 0, int hi, int lo]"
    using low [of "''::''"] nodot [of "''::''"] ok [of "[0, 0, 0, 0, 0, 0, int hi, int lo]"] b
    unfolding expandIPv6_def l1 by (simp add: p3 [simplified] groups_of_def [of "[]"] groups_tail group_value_hex r)
qed

section \<open>Verdicts\<close>

text \<open>A delivery with the verdict of the guard on its target.\<close>

definition guarded_delivery ::
  "(string \<Rightarrow> (string \<times> string) option) \<Rightarrow> bool \<Rightarrow> (string \<Rightarrow> string list option) \<Rightarrow> millis \<Rightarrow> int \<Rightarrow> Fetched
    \<Rightarrow> WebhookOutboxEntry \<Rightarrow> Outbox \<Rightarrow> DeliveryResult \<times> Outbox" where
  "guarded_delivery new_URL resolve lookup now jitter f e ob =
     (let safety = evaluateOutboundUrl new_URL resolve lookup (we_targetUrl e)
      in processWebhookDelivery now jitter (if uv_blocked safety then uv_reason safety else None) f e ob)"

lemma js_split_not_Nil: "js_split d xs \<noteq> []"
  by (cases xs) auto

lemma lower_colon: "js_lower x = CHR '':'' \<Longrightarrow> x = CHR '':''"
proof (rule ccontr)
  assume h: "js_lower x = CHR '':''" "x \<noteq> CHR '':''"
  then have r: "65 \<le> (of_char x :: nat) \<and> (of_char x :: nat) \<le> 90" by (auto simp: js_lower_def Let_def split: if_splits)
  then have "(of_char (js_lower x) :: nat) = of_char x + 32" by (simp add: js_lower_def Let_def)
  with r h(1) show False by simp
qed

lemma verdict_of_literal:
  assumes "new_URL u = Some (p, h)" "p \<in> {''http:'', ''https:''}" "js_toLowerCase (stripBrackets h) = host" "host \<noteq> []"
    "\<not> isReservedHostname host" "classifyIpLiteral host = (True, r)"
  shows "evaluateOutboundUrl new_URL resolve lookup u = of_reason r"
  using assms by (auto simp: evaluateOutboundUrl_def Let_def)

lemma verdict_of_dotted:
  assumes "a \<le> 255" "b \<le> 255" "c \<le> 255" "d \<le> 255" "new_URL u = Some (p, dotted a b c d)" "p \<in> {''http:'', ''https:''}"
  shows "evaluateOutboundUrl new_URL resolve lookup u = of_reason (blockedIPv4Reason (of_nat (quad_number a b c d)))"
  using assms(5,6) verdict_of_literal [of new_URL u p "dotted a b c d" "dotted a b c d"] isIPv4_dotted [OF assms(1-4)] ipv4ToInt_dotted [OF assms(1-4)]
  by (simp add: dotted_brackets dotted_lower dotted_not_reserved classifyIpLiteral_def)

lemma last_hex: "\<exists>k < 16. List.last (front @ js_show_hex hi @ '':'' @ js_show_hex lo) = hex_char k"
  using show_hex_chars [of "List.last (js_show_hex lo)" lo] by simp

lemma split_colon_head: "CHR '':'' \<in> set s \<Longrightarrow> CHR ''.'' \<notin> set s \<Longrightarrow> \<not> isIPv4 s"
  by (simp add: isIPv4_def js_split_free)

lemma hex_last_free:
  assumes "k < 16"
  shows "hex_char k \<notin> {CHR ''t'', CHR ''k'', CHR ''l'', CHR ''g'', CHR ''n''}"
proof -
  have "(of_char (hex_char k) :: nat) \<le> 102" using assms by (simp add: hex_char_def)
  then show ?thesis by auto
qed

text \<open>A name that holds a colon is not one of the reserved names, nor does it end like one.\<close>

lemma carried_not_reserved:
  assumes "CHR ''.'' \<notin> set front"
  shows "\<not> isReservedHostname (front @ js_show_hex hi @ '':'' @ js_show_hex lo)"
proof -
  let ?s = "front @ js_show_hex hi @ '':'' @ js_show_hex lo"
  have "CHR ''.'' \<notin> set ?s" using assms by simp
  moreover have "CHR ''.'' \<in> set s" if "list_ex (js_endsWith s) RESERVED_HOST_SUFFIXES" for s
  proof -
    have "CHR ''.'' \<in> set s" if "js_endsWith s t" "CHR ''.'' \<in> set t" for t
      using that by (auto simp: js_endsWith_def js_startsWith_iff) (metis Un_iff set_append set_rev)
    then show ?thesis using that by (auto simp: RESERVED_HOST_SUFFIXES_def)
  qed
  moreover have "CHR '':'' \<in> set ?s" by simp
  moreover have "CHR '':'' \<notin> set t" if "t \<in> set RESERVED_HOST_EXACT" for t using that by (auto simp: RESERVED_HOST_EXACT_def)
  ultimately show ?thesis unfolding isReservedHostname_def by metis
qed

lemma verdict_of_carried:
  assumes "new_URL u = Some (p, carried_by front hi lo)" "p \<in> {''http:'', ''https:''}" "CHR ''.'' \<notin> set front" "map js_lower front = front"
    "expandIPv6 (front @ js_show_hex hi @ '':'' @ js_show_hex lo) = Some g"
  shows "evaluateOutboundUrl new_URL resolve lookup u = of_reason (blockedIPv6Reason g)"
proof (rule verdict_of_literal [where p = p and h = "carried_by front hi lo" and host = "front @ js_show_hex hi @ '':'' @ js_show_hex lo"])
  show "js_toLowerCase (stripBrackets (carried_by front hi lo)) = front @ js_show_hex hi @ '':'' @ js_show_hex lo"
    using assms(4) show_hex_lower by (simp add: strip_carried js_toLowerCase_def)
  show "classifyIpLiteral (front @ js_show_hex hi @ '':'' @ js_show_hex lo) = (True, blockedIPv6Reason g)"
    using assms(3,5) split_colon_head [of "front @ js_show_hex hi @ '':'' @ js_show_hex lo"] by (simp add: classifyIpLiteral_def)
  show "\<not> isReservedHostname (front @ js_show_hex hi @ '':'' @ js_show_hex lo)" by (rule carried_not_reserved [OF assms(3)])
qed (use assms(1,2) in simp_all)

lemma of_reason_blocked [simp]: "uv_blocked (of_reason r) \<longleftrightarrow> r \<noteq> None"
  by (cases r) (simp_all add: of_reason_def allowed_def blocked_because_def)

lemma quad_of_groups: "int (256 * a + b) * 2 ^ 16 + int (256 * c + d) = int (quad_number a b c d)"
  by (simp add: quad_number_def)

section \<open>What the guard blocks\<close>

text \<open>
  C17. An IPv4 literal is refused exactly when its octets lie in a range no request may reach, and the
  IPv4-mapped IPv6 literal of the same address gets the same answer, with and without resolution of names.
\<close>

theorem ipv4_literals_exact:
  assumes "a \<le> 255" "b \<le> 255" "c \<le> 255" "d \<le> 255" "p \<in> {''http:'', ''https:''}"
    "new_URL u4 = Some (p, dotted a b c d)" "new_URL u6 = Some (p, carried_by ''::ffff:'' (256 * a + b) (256 * c + d))"
  shows "(uv_blocked (evaluateOutboundUrl new_URL resolve lookup u4) \<longleftrightarrow> internal_address a b c)
    \<and> (uv_blocked (evaluateOutboundUrl new_URL resolve lookup u6) \<longleftrightarrow> internal_address a b c)"
proof
  show "uv_blocked (evaluateOutboundUrl new_URL resolve lookup u4) \<longleftrightarrow> internal_address a b c"
    using verdict_of_dotted [of a b c d new_URL u4 p] blockedIPv4_iff [of a b c d] assms(1-6) by simp
  have g: "blockedIPv6Reason [0, 0, 0, 0, 0, 0xffff, int (256 * a + b), int (256 * c + d)] = None
      \<longleftrightarrow> blockedIPv4Reason (of_nat (quad_number a b c d)) = None"
    by (simp add: blockedIPv6Reason_def quad_of_groups [simplified])
  have "evaluateOutboundUrl new_URL resolve lookup u6 = of_reason (blockedIPv6Reason [0, 0, 0, 0, 0, 0xffff, int (256 * a + b), int (256 * c + d)])"
    by (rule verdict_of_carried [where new_URL = new_URL and u = u6 and p = p, OF assms(7,5) _ _ expand_carried(1)]) (use assms(1-4) in \<open>simp_all add: js_lower_def\<close>)
  then show "uv_blocked (evaluateOutboundUrl new_URL resolve lookup u6) \<longleftrightarrow> internal_address a b c"
    using g blockedIPv4_iff [of a b c d] assms(1-4) by simp
qed

text \<open>
  C35. Two ways past the guard: any name with a final dot, the reserved ones included, is let through
  unless names are resolved, and so is every IPv4 address, internal or not, written behind the prefix of an
  address translator or, unless it is one of the first 65536, in the compatible form.
\<close>

theorem guard_bypasses:
  assumes "p \<in> {''http:'', ''https:''}" "CHR '':'' \<notin> set name"
    "new_URL u1 = Some (p, name @ ''.'')"
    "new_URL u2 = Some (p, carried_by ''64:ff9b::'' hi lo)" "new_URL u3 = Some (p, carried_by ''::'' hi lo)" "0 < hi" "hi \<le> 0xffff" "lo \<le> 0xffff"
  shows "evaluateOutboundUrl new_URL False lookup u1 = allowed
    \<and> evaluateOutboundUrl new_URL resolve lookup u2 = allowed \<and> evaluateOutboundUrl new_URL resolve lookup u3 = allowed"
proof (intro conjI)
  let ?h = "js_toLowerCase (name @ ''.'')"
  have l: "List.last ?h = CHR ''.''" "?h \<noteq> []" by (simp_all add: js_toLowerCase_def)
  have "\<not> isReservedHostname ?h"
  proof (rule not_reserved)
    show "\<forall>t \<in> set (RESERVED_HOST_EXACT @ RESERVED_HOST_SUFFIXES). List.last ?h \<noteq> List.last t"
    proof
      fix t assume "t \<in> set (RESERVED_HOST_EXACT @ RESERVED_HOST_SUFFIXES)"
      from last_of_reserved [OF this] show "List.last ?h \<noteq> List.last t" unfolding l(1) by force
    qed
  qed (rule l(2))
  moreover have "js_split (CHR ''.'') (xs @ ''.'') = js_split (CHR ''.'') xs @ [[]]" for xs
    by (induction xs) (auto simp: js_split_not_Nil)
  then have "\<not> isIPv4 ?h" by (auto simp: isIPv4_def js_toLowerCase_def list_all_iff)
  moreover have "CHR '':'' \<notin> set ?h" 
  proof
    assume "CHR '':'' \<in> set ?h"
    then obtain x where "x \<in> set (name @ ''.'')" "js_lower x = CHR '':''" unfolding js_toLowerCase_def by (metis imageE set_map)
    with lower_colon [of x] assms(2) show False by simp
  qed
  moreover have "stripBrackets (name @ ''.'') = name @ ''.''" by (simp add: stripBrackets_def js_endsWith_def)
  ultimately show "evaluateOutboundUrl new_URL False lookup u1 = allowed"
    using assms(1,3) l(2) by (auto simp: evaluateOutboundUrl_def Let_def classifyIpLiteral_def)
  have "blockedIPv6Reason [0x64, 0xff9b, 0, 0, 0, 0, int hi, int lo] = None"
    by (simp add: blockedIPv6Reason_def)
  then show "evaluateOutboundUrl new_URL resolve lookup u2 = allowed"
    using verdict_of_carried [where new_URL = new_URL and u = u2 and p = p, OF assms(4,1) _ _ expand_carried(2)] assms(7,8) by (simp add: js_lower_def of_reason_def)
  have "blockedIPv6Reason [0, 0, 0, 0, 0, 0, int hi, int lo] = None"
    using assms(6) by (simp add: blockedIPv6Reason_def)
  then show "evaluateOutboundUrl new_URL resolve lookup u3 = allowed"
    using verdict_of_carried [where new_URL = new_URL and u = u3 and p = p, OF assms(5,1) _ _ expand_carried(3)] assms(7,8) by (simp add: js_lower_def of_reason_def)
qed

text \<open>
  A delivery whose target is an internal IPv4 literal is dead-lettered: whatever the network would answer, the
  entry ends in \<open>DEAD_LETTER\<close> with no attempt counted and the reason recorded.
\<close>

theorem internal_target_dead_lettered:
  assumes "a \<le> 255" "b \<le> 255" "c \<le> 255" "d \<le> 255" "p \<in> {''http:'', ''https:''}"
    "new_URL (we_targetUrl e) = Some (p, dotted a b c d)" "internal_address a b c"
  shows "\<exists>reason. guarded_delivery new_URL resolve lookup now jitter f e ob =
     (\<lparr>dr_success = False, dr_statusCode = 0, dr_error = Some (''Blocked by SSRF guard: '' @ reason)\<rparr>,
      put_entry (e\<lparr>we_status := DEAD_LETTER, we_lastError := Some (''Blocked by SSRF guard: '' @ reason), we_lastStatusCode := Some 0\<rparr>) ob)"
proof -
  obtain r where r: "blockedIPv4Reason (of_nat (quad_number a b c d)) = Some r"
    using blockedIPv4_iff [OF assms(1-4)] assms(7) by auto
  have "evaluateOutboundUrl new_URL resolve lookup (we_targetUrl e) = blocked_because r"
    using verdict_of_dotted [of a b c d new_URL "we_targetUrl e" p] assms(1-6) by (simp add: r of_reason_def)
  then show ?thesis by (auto simp: guarded_delivery_def processWebhookDelivery_def blocked_because_def Let_def)
qed

section \<open>Witnesses\<close>

definition sample_urls :: "string \<Rightarrow> (string \<times> string) option" where
  "sample_urls u = (if u = ''a'' then Some (''https:'', dotted 169 254 169 254) else if u = ''b'' then Some (''https:'', carried_by ''::ffff:'' 43518 43518)
     else if u = ''c'' then Some (''http:'', ''localhost.'') else if u = ''d'' then Some (''http:'', carried_by ''64:ff9b::'' 43518 43518)
     else if u = ''e'' then Some (''http:'', carried_by ''::'' 43518 43518) else None)"

definition no_names :: "string \<Rightarrow> string list option" where
  "no_names host = None"

definition sample_target :: WebhookOutboxEntry where
  "sample_target = \<lparr>we_id = ''i'', we_tenantId = ''t'', we_subscriptionId = None, we_targetUrl = ''a'', we_event = ''batch.completed'',
     we_payload = ''{}'', we_signature = ''unsigned'', we_status = DELIVERING, we_attempts = 0, we_maxAttempts = 5, we_nextAttemptAt = 0,
     we_leaseExpiresAt = None, we_workerId = None, we_lastStatusCode = None, we_lastError = None, we_createdAt = 0, we_deliveredAt = None\<rparr>"

definition sample_box :: Outbox where
  "sample_box = \<lparr>ob_postgres = False, ob_tableWorks = False, ob_rows = [], ob_entries = [(''i'', sample_target)]\<rparr>"

theorem ipv4_literals_exact_witness:
  "uv_blocked (evaluateOutboundUrl sample_urls False no_names ''a'') \<and> uv_blocked (evaluateOutboundUrl sample_urls True no_names ''b'')"
  using ipv4_literals_exact [of 169 254 169 254 "''https:''" sample_urls "''a''" "''b''" False no_names]
    ipv4_literals_exact [of 169 254 169 254 "''https:''" sample_urls "''a''" "''b''" True no_names]
  by (simp add: sample_urls_def internal_address_def)

theorem guard_bypasses_witness:
  "evaluateOutboundUrl sample_urls False no_names ''c'' = allowed \<and> evaluateOutboundUrl sample_urls True no_names ''d'' = allowed"
  using guard_bypasses [of "''http:''" "''localhost''" sample_urls "''c''" "''d''" 43518 43518 "''e''" no_names True]
  by (simp add: sample_urls_def)

theorem internal_target_dead_lettered_witness:
  "\<exists>reason. fst (guarded_delivery sample_urls False no_names 5 0 (Responded 200 ''OK'') sample_target sample_box)
     = \<lparr>dr_success = False, dr_statusCode = 0, dr_error = Some (''Blocked by SSRF guard: '' @ reason)\<rparr>"
proof -
  have url: "sample_urls (we_targetUrl sample_target) = Some (''https:'', dotted 169 254 169 254)" by (simp add: sample_urls_def sample_target_def)
  obtain reason where "guarded_delivery sample_urls False no_names 5 0 (Responded 200 ''OK'') sample_target sample_box =
     (\<lparr>dr_success = False, dr_statusCode = 0, dr_error = Some (''Blocked by SSRF guard: '' @ reason)\<rparr>,
      put_entry (sample_target\<lparr>we_status := DEAD_LETTER, we_lastError := Some (''Blocked by SSRF guard: '' @ reason), we_lastStatusCode := Some 0\<rparr>) sample_box)"
    by (atomize_elim, rule internal_target_dead_lettered [of 169 254 169 254 "''https:''" sample_urls sample_target])
      (use url in \<open>simp_all add: internal_address_def\<close>)
  then show ?thesis by simp
qed

end
