(* ===== verification/Multi_Pass.thy ===== *)
theory Multi_Pass
  imports Prelude
begin

text \<open>
  The idempotent entry point of the multi-pass reconciliation (\<open>src/lib/reconciliation/multi-pass.ts\<close>): the
  per-batch lock, the persisted snapshot, and the accuracy that is recomputed after every pass. Callers run
  concurrently: each is a program counter, and one event lets one caller take the step between two of its waits.
  What a run computes (or that it throws) is part of the event that ends it. Tokens are random identifiers, a function of
  the caller.
\<close>

section \<open>Snapshots\<close>

record PassReport =
  pr_passNumber :: nat
  pr_name :: string
  pr_accuracy :: int
  pr_exceptions :: nat
  pr_autoMatched :: nat
  pr_unresolved :: nat
  pr_durationMs :: int
  pr_details :: string
  pr_aiUsed :: bool
  pr_aiCallsMade :: nat

record AiStatus =
  ai_totalCalls :: nat
  ai_maxCalls :: nat
  ai_circuitTripped :: bool

record AdversarialReport =
  ad_totalTests :: nat
  ad_detected :: nat
  ad_detectionRate :: int
  ad_tests :: "(string \<times> bool \<times> string option) list"

record CalibrationRow =
  cal_range :: string
  cal_total :: nat
  cal_correct :: nat
  cal_accuracy :: int

record MultiPassSnapshotBody =
  mb_passes :: "PassReport list"
  mb_aiStatus :: AiStatus
  mb_adversarial :: "AdversarialReport option"
  mb_calibration :: "CalibrationRow list option"
  mb_totalDurationMs :: int

text \<open>What the metadata of an audit row holds: older rows keep the status of the language model flat, and any field may be missing.\<close>

record StoredSnapshot =
  st_passes :: "PassReport list option"
  st_nested :: "(nat option \<times> bool option) option"
  st_aiCalls :: "nat option"
  st_flatTripped :: "bool option"
  st_adversarial :: "AdversarialReport option"
  st_calibration :: "CalibrationRow list option"
  st_totalDurationMs :: "int option"

definition first_of :: "'a option \<Rightarrow> 'a option \<Rightarrow> 'a \<Rightarrow> 'a" where
  "first_of x y d = (case x of Some a \<Rightarrow> a | None \<Rightarrow> (case y of Some b \<Rightarrow> b | None \<Rightarrow> d))"

definition snapshot_body :: "StoredSnapshot \<Rightarrow> MultiPassSnapshotBody" where
  "snapshot_body s =
     \<lparr>mb_passes = (case st_passes s of None \<Rightarrow> [] | Some ps \<Rightarrow> ps),
      mb_aiStatus = \<lparr>ai_totalCalls = first_of (Option.bind (st_nested s) fst) (st_aiCalls s) 0, ai_maxCalls = 10,
        ai_circuitTripped = first_of (Option.bind (st_nested s) snd) (st_flatTripped s) False\<rparr>,
      mb_adversarial = st_adversarial s, mb_calibration = st_calibration s,
      mb_totalDurationMs = (case st_totalDurationMs s of None \<Rightarrow> 0 | Some d \<Rightarrow> d)\<rparr>"

definition stored_snapshot :: "MultiPassSnapshotBody \<Rightarrow> StoredSnapshot" where
  "stored_snapshot b =
     \<lparr>st_passes = Some (mb_passes b), st_nested = Some (Some (ai_totalCalls (mb_aiStatus b)), Some (ai_circuitTripped (mb_aiStatus b))),
      st_aiCalls = None, st_flatTripped = None, st_adversarial = mb_adversarial b, st_calibration = mb_calibration b,
      st_totalDurationMs = Some (mb_totalDurationMs b)\<rparr>"

section \<open>The database\<close>

record BatchOutcome =
  bo_status :: string
  bo_completedAt :: "millis option"
  bo_processingTimeMs :: "int option"
  bo_throughputRps :: "int option"

record MultiPassDb =
  mp_locks :: "ident \<Rightarrow> (ident \<times> millis) option"
  mp_audit :: "(ident \<times> millis \<times> StoredSnapshot) list"
  mp_batches :: "ident \<Rightarrow> BatchOutcome option"

text \<open>The newest row counts; of rows with the same time the one the database returns first, taken to be the earlier one.\<close>

definition latest_row :: "(ident \<times> millis \<times> StoredSnapshot) list \<Rightarrow> (ident \<times> millis \<times> StoredSnapshot) option" where
  "latest_row rows = (case js_sort (\<lambda>x y. fst (snd y) - fst (snd x)) rows of [] \<Rightarrow> None | r # rs \<Rightarrow> Some r)"

definition readMultiPassSnapshot :: "ident \<Rightarrow> MultiPassDb \<Rightarrow> MultiPassSnapshotBody option" where
  "readMultiPassSnapshot b db = map_option (\<lambda>(i, t, s). snapshot_body s) (latest_row (filter (\<lambda>(i, t, s). i = b) (mp_audit db)))"

text \<open>One transaction: the update of the batch throws when there is none, and then nothing is written.\<close>

definition writeMultiPassSnapshot :: "millis \<Rightarrow> ident \<Rightarrow> MultiPassSnapshotBody \<Rightarrow> int \<Rightarrow> MultiPassDb \<Rightarrow> MultiPassDb option" where
  "writeMultiPassSnapshot now b body rps db =
     (case mp_batches db b of
        None \<Rightarrow> None
      | Some r \<Rightarrow> Some (db\<lparr>mp_batches := (mp_batches db)(b \<mapsto> \<lparr>bo_status = ''COMPLETED'', bo_completedAt = Some now,
             bo_processingTimeMs = Some (mb_totalDurationMs body), bo_throughputRps = Some rps\<rparr>),
           mp_audit := mp_audit db @ [(b, now, stored_snapshot body)]\<rparr>))"

section \<open>The lock\<close>

definition LOCK_STALE_MS :: int where
  "LOCK_STALE_MS = 60000"

definition create_lock :: "millis \<Rightarrow> ident \<Rightarrow> ident \<Rightarrow> MultiPassDb \<Rightarrow> MultiPassDb option" where
  "create_lock now b token db =
     (case mp_locks db b of Some l \<Rightarrow> None | None \<Rightarrow> Some (db\<lparr>mp_locks := (mp_locks db)(b \<mapsto> (token, now))\<rparr>))"

definition delete_lock :: "ident \<Rightarrow> ident \<Rightarrow> MultiPassDb \<Rightarrow> MultiPassDb" where
  "delete_lock b token db =
     (case mp_locks db b of
        Some (t, at) \<Rightarrow> if t = token then db\<lparr>mp_locks := (mp_locks db)(b := None)\<rparr> else db
      | None \<Rightarrow> db)"

section \<open>Callers\<close>

record MultiPassIdempotentResult =
  mr_executed :: bool
  mr_inProgress :: bool
  mr_idempotent :: bool
  mr_body :: "MultiPassSnapshotBody option"

datatype pc =
    Fresh | Claiming | Inspecting | Reclaiming ident | Retrying | Rechecking
  | Running | Releasing "MultiPassSnapshotBody option"
  | Answered MultiPassIdempotentResult | Threw

definition idempotent_answer :: "MultiPassSnapshotBody \<Rightarrow> MultiPassIdempotentResult" where
  "idempotent_answer body = \<lparr>mr_executed = False, mr_inProgress = False, mr_idempotent = True, mr_body = Some body\<rparr>"

definition in_progress_answer :: MultiPassIdempotentResult where
  "in_progress_answer = \<lparr>mr_executed = False, mr_inProgress = True, mr_idempotent = False, mr_body = None\<rparr>"

definition executed_answer :: "MultiPassSnapshotBody \<Rightarrow> MultiPassIdempotentResult" where
  "executed_answer body = \<lparr>mr_executed = True, mr_inProgress = False, mr_idempotent = False, mr_body = Some body\<rparr>"

text \<open>
  One step of a caller with the batch and the token it has: the next program counter and the database. The outcome
  is only used by the step that ends a run: the result with its throughput, or nothing when the run throws.
\<close>

definition claim_or :: "millis \<Rightarrow> ident \<Rightarrow> ident \<Rightarrow> pc \<Rightarrow> MultiPassDb \<Rightarrow> pc \<times> MultiPassDb" where
  "claim_or now b token otherwise db =
     (case create_lock now b token db of Some db1 \<Rightarrow> (Running, db1) | None \<Rightarrow> (otherwise, db))"

definition look_at_lock :: "millis \<Rightarrow> ident \<Rightarrow> MultiPassDb \<Rightarrow> pc" where
  "look_at_lock now b db =
     (case mp_locks db b of
        Some (t, at) \<Rightarrow> if now - at > LOCK_STALE_MS then Reclaiming t else Rechecking
      | None \<Rightarrow> Rechecking)"

definition end_run :: "millis \<Rightarrow> ident \<Rightarrow> (MultiPassSnapshotBody \<times> int) option \<Rightarrow> MultiPassDb \<Rightarrow> pc \<times> MultiPassDb" where
  "end_run now b outcome db =
     (case outcome of
        None \<Rightarrow> (Releasing None, db)
      | Some (body, rps) \<Rightarrow>
          (case writeMultiPassSnapshot now b body rps db of None \<Rightarrow> (Releasing None, db) | Some db1 \<Rightarrow> (Releasing (Some body), db1)))"

fun caller_step :: "millis \<Rightarrow> ident \<Rightarrow> ident \<Rightarrow> (MultiPassSnapshotBody \<times> int) option \<Rightarrow> pc \<Rightarrow> MultiPassDb \<Rightarrow> pc \<times> MultiPassDb" where
  "caller_step now b token outcome Fresh db =
     (case readMultiPassSnapshot b db of Some body \<Rightarrow> (Answered (idempotent_answer body), db) | None \<Rightarrow> (Claiming, db))"
| "caller_step now b token outcome Claiming db = claim_or now b token Inspecting db"
| "caller_step now b token outcome Inspecting db = (look_at_lock now b db, db)"
| "caller_step now b token outcome (Reclaiming old) db = (Retrying, delete_lock b old db)"
| "caller_step now b token outcome Retrying db = claim_or now b token Rechecking db"
| "caller_step now b token outcome Rechecking db =
     (case readMultiPassSnapshot b db of Some body \<Rightarrow> (Answered (idempotent_answer body), db) | None \<Rightarrow> (Answered in_progress_answer, db))"
| "caller_step now b token outcome Running db = end_run now b outcome db"
| "caller_step now b token outcome (Releasing result) db =
     (case result of None \<Rightarrow> Threw | Some body \<Rightarrow> Answered (executed_answer body), delete_lock b token db)"
| "caller_step now b token outcome (Answered r) db = (Answered r, db)"
| "caller_step now b token outcome Threw db = (Threw, db)"

record MultiPassSystem =
  ms_db :: MultiPassDb
  ms_pc :: "nat \<Rightarrow> pc"

datatype Event = Step nat millis "(MultiPassSnapshotBody \<times> int) option"

fun system_step :: "(nat \<Rightarrow> ident) \<Rightarrow> (nat \<Rightarrow> ident) \<Rightarrow> Event \<Rightarrow> MultiPassSystem \<Rightarrow> MultiPassSystem" where
  "system_step batch token (Step c now outcome) sys =
     (case caller_step now (batch c) (token c) outcome (ms_pc sys c) (ms_db sys) of
        (p, db) \<Rightarrow> \<lparr>ms_db = db, ms_pc = (ms_pc sys)(c := p)\<rparr>)"

definition fresh_system :: "MultiPassDb \<Rightarrow> MultiPassSystem" where
  "fresh_system db = \<lparr>ms_db = db, ms_pc = (\<lambda>c. Fresh)\<rparr>"

text \<open>A single caller with nobody else around, as the source reads.\<close>

definition runMultiPassIdempotent ::
  "millis \<Rightarrow> ident \<Rightarrow> ident \<Rightarrow> (MultiPassSnapshotBody \<times> int) option \<Rightarrow> MultiPassDb \<Rightarrow> pc \<times> MultiPassDb" where
  "runMultiPassIdempotent now b token outcome db =
     ((\<lambda>(p, db). caller_step now b token outcome p db) ^^ 7) (Fresh, db)"

section \<open>Accuracy of a pass\<close>

record ResultRow =
  rr_paymentId :: ident
  rr_status :: string

record Accuracy =
  ac_accuracy :: int
  ac_autoMatched :: nat
  ac_exceptions :: nat
  ac_unresolved :: nat
  ac_total :: nat

definition is_orphan_row :: "ResultRow \<Rightarrow> bool" where
  "is_orphan_row r = js_startsWith (rr_paymentId r) ''orphan_''"

definition truth_map :: "(ident \<times> string) list \<Rightarrow> ident \<Rightarrow> string option" where
  "truth_map gts = map_of (rev (map (\<lambda>(p, l). (p, if l = ''ORPHAN_BANK_CREDIT'' then ''AUTO_MATCHED'' else l)) gts))"

definition evaluated_rows :: "(ident \<times> string) list \<Rightarrow> ResultRow list \<Rightarrow> ResultRow list" where
  "evaluated_rows gts rows = filter (\<lambda>r. \<not> is_orphan_row r \<and> truthy_str (truth_map gts (rr_paymentId r))) rows"

text \<open>The accuracy is in hundredths of a percent.\<close>

definition computeAccuracy :: "(ident \<times> string) list \<Rightarrow> ResultRow list \<Rightarrow> Accuracy" where
  "computeAccuracy gts rows =
     (let ev = evaluated_rows gts rows; ok = filter (\<lambda>r. truth_map gts (rr_paymentId r) = Some (rr_status r)) ev
      in \<lparr>ac_accuracy = (if ev = [] then 0 else js_round_div (int (length ok) * 10000) (int (length ev))),
          ac_autoMatched = length (filter (\<lambda>r. rr_status r = ''AUTO_MATCHED'') rows),
          ac_exceptions = length (filter (\<lambda>r. rr_status r \<noteq> ''AUTO_MATCHED'' \<and> \<not> is_orphan_row r) rows),
          ac_unresolved = length (filter (\<lambda>r. rr_status r = ''NEEDS_MANUAL_REVIEW'') rows),
          ac_total = length rows\<rparr>)"

end
