(* ===== verification/Multi_Pass_Correct.thy ===== *)
theory Multi_Pass_Correct
  imports Multi_Pass
begin

text \<open>
  The lock protocol of the multi-pass entry point: exclusion while no lock is older than the stale
  limit, a persisted snapshot stops every later caller, and the two schedules in which a batch runs twice.
\<close>

section \<open>Exclusion\<close>

definition holding :: "pc \<Rightarrow> bool" where
  "holding p \<longleftrightarrow> p = Running \<or> (\<exists>r. p = Releasing r)"

lemma holding_simps [simp]:
  "holding Running" "holding (Releasing r)" "\<not> holding Fresh" "\<not> holding Claiming" "\<not> holding Inspecting" "\<not> holding (Reclaiming t)"
  "\<not> holding Retrying" "\<not> holding Rechecking" "\<not> holding (Answered a)" "\<not> holding Threw"
  by (simp_all add: holding_def)

text \<open>A caller that is past the claim holds the lock; no caller is about to delete a lock of another; no lock is older than the window.\<close>

definition lock_inv :: "(nat \<Rightarrow> ident) \<Rightarrow> (nat \<Rightarrow> ident) \<Rightarrow> millis \<Rightarrow> MultiPassSystem \<Rightarrow> bool" where
  "lock_inv batch token lo sys \<longleftrightarrow>
     (\<forall>c. holding (ms_pc sys c) \<longrightarrow> (\<exists>at. mp_locks (ms_db sys) (batch c) = Some (token c, at)))
     \<and> (\<forall>c t. ms_pc sys c \<noteq> Reclaiming t)
     \<and> (\<forall>b t at. mp_locks (ms_db sys) b = Some (t, at) \<longrightarrow> lo \<le> at)"

definition within_window :: "millis \<Rightarrow> Event \<Rightarrow> bool" where
  "within_window lo e \<longleftrightarrow> (case e of Step c now outcome \<Rightarrow> lo \<le> now \<and> now \<le> lo + LOCK_STALE_MS)"

lemma end_run_locks: "end_run now b outcome db = (p, db1) \<Longrightarrow> mp_locks db1 = mp_locks db \<and> (\<exists>r. p = Releasing r)"
  by (auto simp: end_run_def writeMultiPassSnapshot_def split: option.splits prod.splits)

text \<open>What one step does to the locks.\<close>

lemma step_effect:
  assumes "caller_step now b token outcome p db = (p1, db1)" "\<And>t. p \<noteq> Reclaiming t" "holding p \<longrightarrow> (\<exists>at. mp_locks db b = Some (token, at))"
    "\<And>t at. mp_locks db b = Some (t, at) \<Longrightarrow> now - at \<le> LOCK_STALE_MS"
  shows "(\<forall>t. p1 \<noteq> Reclaiming t) \<and>
     ((holding p1 \<longleftrightarrow> holding p) \<and> mp_locks db1 = mp_locks db
      \<or> holding p1 \<and> mp_locks db b = None \<and> mp_locks db1 = (mp_locks db)(b \<mapsto> (token, now))
      \<or> \<not> holding p1 \<and> holding p \<and> mp_locks db1 = (mp_locks db)(b := None))"
proof (cases p)
  case Fresh
  then show ?thesis using assms(1) by (auto split: option.splits)
next
  case Claiming
  then show ?thesis using assms(1) by (auto simp: claim_or_def create_lock_def split: option.splits)
next
  case Inspecting
  then show ?thesis using assms(1,4) by (force simp: look_at_lock_def split: option.splits if_splits)
next
  case (Reclaiming t)
  then show ?thesis using assms(2) by blast
next
  case Retrying
  then show ?thesis using assms(1) by (auto simp: claim_or_def create_lock_def split: option.splits)
next
  case Rechecking
  then show ?thesis using assms(1) by (auto split: option.splits)
next
  case Running
  then show ?thesis using assms(1) end_run_locks by fastforce
next
  case (Releasing r)
  then show ?thesis using assms(1,3) by (auto simp: delete_lock_def split: option.splits)
qed (use assms(1) in auto)

lemma lock_inv_step:
  assumes "inj token" "lock_inv batch token lo sys" "within_window lo e"
  shows "lock_inv batch token lo (system_step batch token e sys)"
proof -
  obtain c now outcome where e: "e = Step c now outcome" by (cases e)
  have w: "lo \<le> now" "now \<le> lo + LOCK_STALE_MS" using assms(3) by (simp_all add: within_window_def e)
  obtain p1 db1 where s: "caller_step now (batch c) (token c) outcome (ms_pc sys c) (ms_db sys) = (p1, db1)" by fastforce
  have old: "\<And>t at. mp_locks (ms_db sys) (batch c) = Some (t, at) \<Longrightarrow> now - at \<le> LOCK_STALE_MS"
    using assms(2) w by (fastforce simp: lock_inv_def)
  have eff: "(\<forall>t. p1 \<noteq> Reclaiming t) \<and>
     ((holding p1 \<longleftrightarrow> holding (ms_pc sys c)) \<and> mp_locks db1 = mp_locks (ms_db sys)
      \<or> holding p1 \<and> mp_locks (ms_db sys) (batch c) = None \<and> mp_locks db1 = (mp_locks (ms_db sys))(batch c \<mapsto> (token c, now))
      \<or> \<not> holding p1 \<and> holding (ms_pc sys c) \<and> mp_locks db1 = (mp_locks (ms_db sys))(batch c := None))"
    using assms(2) by (intro step_effect [OF s _ _ old]) (auto simp: lock_inv_def)
  have other: "mp_locks (ms_db sys) (batch d) = Some (token c, at) \<Longrightarrow> holding (ms_pc sys d) \<Longrightarrow> d = c" for d at
    using assms(1,2) by (fastforce simp: lock_inv_def inj_def)
  have k: "system_step batch token e sys = \<lparr>ms_db = db1, ms_pc = (ms_pc sys)(c := p1)\<rparr>" by (simp add: e s)
  have "\<exists>at. mp_locks db1 (batch d) = Some (token d, at)" if h: "holding (((ms_pc sys)(c := p1)) d)" for d
  proof (cases "d = c")
    case True
    then show ?thesis using eff h assms(2) by (auto simp: lock_inv_def)
  next
    case False
    then have hd: "holding (ms_pc sys d)" using h by simp
    then obtain at where at: "mp_locks (ms_db sys) (batch d) = Some (token d, at)" using assms(2) by (auto simp: lock_inv_def)
    show ?thesis
    proof (cases "batch d = batch c")
      case True
      have "\<not> holding (ms_pc sys c)"
        using at True False assms(1,2) by (fastforce simp: lock_inv_def inj_def)
      then show ?thesis using eff at True by auto
    next
      case False
      then show ?thesis using eff at by auto
    qed
  qed
  moreover have "lo \<le> at" if "mp_locks db1 b = Some (t, at)" for b t at
    using eff that w(1) assms(2) by (auto simp: lock_inv_def split: if_splits)
  ultimately show ?thesis using eff assms(2) unfolding k lock_inv_def by auto
qed

lemma lock_inv_run:
  "inj token \<Longrightarrow> lock_inv batch token lo sys \<Longrightarrow> \<forall>e \<in> set es. within_window lo e \<Longrightarrow>
   lock_inv batch token lo (fold (system_step batch token) es sys)"
  by (induction es arbitrary: sys) (auto simp: lock_inv_step)

text \<open>
  C25. However callers interleave, within the time in which no lock goes stale at most one caller per batch is running or
  about to release, and that caller is the one whose token the lock carries, so no caller releases the lock of another.
\<close>

theorem one_run_at_a_time:
  assumes "inj token" "\<forall>b t at. mp_locks db b = Some (t, at) \<longrightarrow> lo \<le> at" "\<forall>e \<in> set es. within_window lo e"
  shows "(\<forall>c d. holding (ms_pc (fold (system_step batch token) es (fresh_system db)) c)
       \<and> holding (ms_pc (fold (system_step batch token) es (fresh_system db)) d) \<and> batch c = batch d \<longrightarrow> c = d)
    \<and> (\<forall>c. holding (ms_pc (fold (system_step batch token) es (fresh_system db)) c) \<longrightarrow>
         (\<exists>at. mp_locks (ms_db (fold (system_step batch token) es (fresh_system db))) (batch c) = Some (token c, at)))"
proof -
  have "lock_inv batch token lo (fresh_system db)" using assms(2) by (auto simp: lock_inv_def fresh_system_def)
  from lock_inv_run [OF assms(1) this assms(3)]
  have i: "\<forall>c. holding (ms_pc (fold (system_step batch token) es (fresh_system db)) c) \<longrightarrow>
         (\<exists>at. mp_locks (ms_db (fold (system_step batch token) es (fresh_system db))) (batch c) = Some (token c, at))"
    by (simp add: lock_inv_def)
  then show ?thesis using assms(1) by (metis fst_conv injD option.inject)
qed

section \<open>Snapshots stop later callers\<close>

lemma latest_row_None: "latest_row rows = None \<longleftrightarrow> rows = []"
proof -
  have "js_sort (\<lambda>x y. fst (snd y) - fst (snd x)) rows = [] \<longleftrightarrow> rows = []" by (metis length_js_sort length_0_conv)
  then show ?thesis by (cases "js_sort (\<lambda>x y. fst (snd y) - fst (snd x)) rows") (auto simp: latest_row_def)
qed

lemma snapshot_exists: "readMultiPassSnapshot b db = None \<longleftrightarrow> (\<forall>r \<in> set (mp_audit db). fst r \<noteq> b)"
  by (auto simp: readMultiPassSnapshot_def latest_row_None filter_empty_conv)

lemma audit_grows: "caller_step now b token outcome p db = (p1, db1) \<Longrightarrow> set (mp_audit db) \<subseteq> set (mp_audit db1)"
  by (cases p) (auto simp: claim_or_def create_lock_def delete_lock_def end_run_def writeMultiPassSnapshot_def split: option.splits if_splits prod.splits)

lemma snapshot_stays: "caller_step now b token outcome p db = (p1, db1) \<Longrightarrow> readMultiPassSnapshot x db \<noteq> None \<Longrightarrow> readMultiPassSnapshot x db1 \<noteq> None"
  unfolding snapshot_exists using audit_grows by blast

text \<open>
  Once a batch has a snapshot, a caller that has not started yet never runs it: whatever the others do, it answers
  with a persisted snapshot.
\<close>

theorem snapshot_stops_new_callers:
  assumes "readMultiPassSnapshot (batch c) (ms_db sys) \<noteq> None" "ms_pc sys c = Fresh"
  shows "ms_pc (fold (system_step batch token) es sys) c = Fresh
     \<or> (\<exists>body. ms_pc (fold (system_step batch token) es sys) c = Answered (idempotent_answer body))"
proof -
  have "readMultiPassSnapshot (batch c) (ms_db (fold (system_step batch token) es sys)) \<noteq> None
     \<and> (ms_pc (fold (system_step batch token) es sys) c = Fresh \<or> (\<exists>body. ms_pc (fold (system_step batch token) es sys) c = Answered (idempotent_answer body)))"
    if "readMultiPassSnapshot (batch c) (ms_db sys) \<noteq> None" "ms_pc sys c = Fresh \<or> (\<exists>body. ms_pc sys c = Answered (idempotent_answer body))" for sys
    using that
  proof (induction es arbitrary: sys)
    case (Cons e es)
    obtain d now outcome where e: "e = Step d now outcome" by (cases e)
    obtain p1 db1 where s: "caller_step now (batch d) (token d) outcome (ms_pc sys d) (ms_db sys) = (p1, db1)" by fastforce
    have k: "system_step batch token e sys = \<lparr>ms_db = db1, ms_pc = (ms_pc sys)(d := p1)\<rparr>" by (simp add: e s)
    have n: "readMultiPassSnapshot (batch c) db1 \<noteq> None" using snapshot_stays [OF s] Cons.prems(1) .
    have "p1 = Fresh \<or> (\<exists>body. p1 = Answered (idempotent_answer body))" if "d = c"
    proof (cases "ms_pc sys c = Fresh")
      case True
      then show ?thesis using s Cons.prems(1) that by (auto split: option.splits)
    next
      case False
      then obtain body where "ms_pc sys c = Answered (idempotent_answer body)" using Cons.prems(2) by blast
      then have "p1 = Answered (idempotent_answer body)" using s that by simp
      then show ?thesis by blast
    qed
    then show ?case using Cons.IH [of "system_step batch token e sys"] Cons.prems(2) n by (simp add: k)
  qed simp
  then show ?thesis using assms by blast
qed

section \<open>A batch that runs twice\<close>

lemma read_locks [simp]: "readMultiPassSnapshot b (db\<lparr>mp_locks := l\<rparr>) = readMultiPassSnapshot b db"
  by (simp add: readMultiPassSnapshot_def)

text \<open>A caller that finds the lock free and no snapshot, and whose run succeeds.\<close>

definition solo :: "nat \<Rightarrow> millis \<Rightarrow> MultiPassSnapshotBody \<times> int \<Rightarrow> Event list" where
  "solo c now outcome = [Step c now None, Step c now (Some outcome), Step c now None]"

lemma solo_run:
  assumes "ms_pc sys c = Claiming" "mp_locks (ms_db sys) (batch c) = None" "mp_batches (ms_db sys) (batch c) = Some r"
  shows "\<exists>r1. fold (system_step batch token) (solo c now (body, rps)) sys
     = \<lparr>ms_db = (ms_db sys)\<lparr>mp_locks := mp_locks (ms_db sys), mp_batches := (mp_batches (ms_db sys))(batch c \<mapsto> r1),
          mp_audit := mp_audit (ms_db sys) @ [(batch c, now, stored_snapshot body)]\<rparr>,
        ms_pc = (ms_pc sys)(c := Answered (executed_answer body))\<rparr> \<and> bo_status r1 = ''COMPLETED''"
  using assms by (auto simp: solo_def claim_or_def create_lock_def end_run_def writeMultiPassSnapshot_def delete_lock_def fun_upd_idem)

text \<open>
  C36. The two ways a batch is reconciled twice: a caller that looked for a snapshot before another one finished claims the
  free lock afterwards and runs again, because the snapshot is not read again after the claim; and a run that takes longer than
  the stale limit loses its lock to a second caller, which then runs beside it.
\<close>

theorem batch_runs_twice:
  assumes "a \<noteq> c" "batch a = b" "batch c = b" "token a \<noteq> token c" "readMultiPassSnapshot b db = None" "mp_locks db b = None" "mp_batches db b = Some r"
    "t + LOCK_STALE_MS < t2"
  shows "(\<exists>sys. fold (system_step batch token) (Step a t None # Step c t None # solo c t (body1, rps) @ solo a t (body2, rps)) (fresh_system db) = sys
     \<and> ms_pc sys a = Answered (executed_answer body2) \<and> ms_pc sys c = Answered (executed_answer body1)
     \<and> filter (\<lambda>r. fst r = b) (mp_audit (ms_db sys)) = [(b, t, stored_snapshot body1), (b, t, stored_snapshot body2)])
   \<and> (\<exists>sys. fold (system_step batch token) [Step a t None, Step a t None, Step c t None, Step c t None, Step c t2 None, Step c t2 None, Step c t2 None] (fresh_system db) = sys
     \<and> ms_pc sys a = Running \<and> ms_pc sys c = Running)"
proof (intro conjI)
  let ?sys = "\<lparr>ms_db = db, ms_pc = (\<lambda>_. Fresh)(a := Claiming, c := Claiming)\<rparr>"
  have s0: "fold (system_step batch token) [Step a t None, Step c t None] (fresh_system db) = ?sys"
    using assms by (simp add: fresh_system_def)
  obtain r1 where s1: "fold (system_step batch token) (solo c t (body1, rps)) ?sys
     = \<lparr>ms_db = db\<lparr>mp_locks := mp_locks db, mp_batches := (mp_batches db)(b \<mapsto> r1), mp_audit := mp_audit db @ [(b, t, stored_snapshot body1)]\<rparr>,
        ms_pc = (\<lambda>_. Fresh)(a := Claiming, c := Answered (executed_answer body1))\<rparr>"
    using solo_run [of ?sys c batch r token t body1 rps] assms by auto
  let ?sys1 = "\<lparr>ms_db = db\<lparr>mp_locks := mp_locks db, mp_batches := (mp_batches db)(b \<mapsto> r1), mp_audit := mp_audit db @ [(b, t, stored_snapshot body1)]\<rparr>,
        ms_pc = (\<lambda>_. Fresh)(a := Claiming, c := Answered (executed_answer body1))\<rparr>"
  obtain r2 where s2: "fold (system_step batch token) (solo a t (body2, rps)) ?sys1
     = \<lparr>ms_db = (ms_db ?sys1)\<lparr>mp_locks := mp_locks (ms_db ?sys1), mp_batches := (mp_batches (ms_db ?sys1))(b \<mapsto> r2),
          mp_audit := mp_audit (ms_db ?sys1) @ [(b, t, stored_snapshot body2)]\<rparr>,
        ms_pc = (ms_pc ?sys1)(a := Answered (executed_answer body2))\<rparr>"
    using solo_run [of ?sys1 a batch r1 token t body2 rps] assms by auto
  have none: "filter (\<lambda>r. fst r = b) (mp_audit db) = []" using assms(5) by (auto simp: snapshot_exists filter_empty_conv)
  have "fold (system_step batch token) (Step a t None # Step c t None # solo c t (body1, rps) @ solo a t (body2, rps)) (fresh_system db)
     = fold (system_step batch token) (solo a t (body2, rps)) (fold (system_step batch token) (solo c t (body1, rps)) ?sys)"
    using s0 by simp
  then show "\<exists>sys. fold (system_step batch token) (Step a t None # Step c t None # solo c t (body1, rps) @ solo a t (body2, rps)) (fresh_system db) = sys
     \<and> ms_pc sys a = Answered (executed_answer body2) \<and> ms_pc sys c = Answered (executed_answer body1)
     \<and> filter (\<lambda>r. fst r = b) (mp_audit (ms_db sys)) = [(b, t, stored_snapshot body1), (b, t, stored_snapshot body2)]"
    unfolding s1 s2 using assms(1) none by simp
  show "\<exists>sys. fold (system_step batch token) [Step a t None, Step a t None, Step c t None, Step c t None, Step c t2 None, Step c t2 None, Step c t2 None] (fresh_system db) = sys
     \<and> ms_pc sys a = Running \<and> ms_pc sys c = Running"
    using assms by (simp add: fresh_system_def claim_or_def create_lock_def look_at_lock_def delete_lock_def)
qed

section \<open>Witnesses\<close>

definition one_batch :: MultiPassDb where
  "one_batch = \<lparr>mp_locks = (\<lambda>_. None), mp_audit = [], mp_batches = [''b'' \<mapsto> \<lparr>bo_status = ''PROCESSING'', bo_completedAt = None,
     bo_processingTimeMs = None, bo_throughputRps = None\<rparr>]\<rparr>"

definition sample_body :: MultiPassSnapshotBody where
  "sample_body = \<lparr>mb_passes = [], mb_aiStatus = \<lparr>ai_totalCalls = 2, ai_maxCalls = 10, ai_circuitTripped = False\<rparr>, mb_adversarial = None,
     mb_calibration = None, mb_totalDurationMs = 1200\<rparr>"

definition sample_token :: "nat \<Rightarrow> ident" where
  "sample_token c = js_show_nat c"

lemma sample_token_inj: "inj sample_token"
  by (rule injI) (simp add: sample_token_def)

theorem one_run_at_a_time_witness:
  "\<not> (holding (ms_pc (fold (system_step (\<lambda>_. ''b'') sample_token) [Step 0 5 None, Step 1 6 None, Step 0 7 None, Step 1 8 None] (fresh_system one_batch)) 0)
     \<and> holding (ms_pc (fold (system_step (\<lambda>_. ''b'') sample_token) [Step 0 5 None, Step 1 6 None, Step 0 7 None, Step 1 8 None] (fresh_system one_batch)) 1))"
  using one_run_at_a_time [OF sample_token_inj, of one_batch 0 "[Step 0 5 None, Step 1 6 None, Step 0 7 None, Step 1 8 None]" "\<lambda>_. ''b''"]
  by (force simp: one_batch_def within_window_def LOCK_STALE_MS_def)

theorem snapshot_stops_new_callers_witness:
  "\<exists>p. ms_pc (fold (system_step (\<lambda>_. ''b'') sample_token) [Step 1 9 None, Step 1 9 None]
      (fresh_system (one_batch\<lparr>mp_audit := [(''b'', 3, stored_snapshot sample_body)]\<rparr>))) 1 = p \<and> p \<noteq> Running"
proof -
  have "readMultiPassSnapshot ((\<lambda>_. ''b'') (1 :: nat)) (ms_db (fresh_system (one_batch\<lparr>mp_audit := [(''b'', 3, stored_snapshot sample_body)]\<rparr>))) \<noteq> None"
    unfolding snapshot_exists by (simp add: fresh_system_def)
  then have "ms_pc (fold (system_step (\<lambda>_. ''b'') sample_token) [Step 1 9 None, Step 1 9 None]
      (fresh_system (one_batch\<lparr>mp_audit := [(''b'', 3, stored_snapshot sample_body)]\<rparr>))) 1 = Fresh
    \<or> (\<exists>body. ms_pc (fold (system_step (\<lambda>_. ''b'') sample_token) [Step 1 9 None, Step 1 9 None]
      (fresh_system (one_batch\<lparr>mp_audit := [(''b'', 3, stored_snapshot sample_body)]\<rparr>))) 1 = Answered (idempotent_answer body))"
    by (rule snapshot_stops_new_callers [where batch = "\<lambda>_. ''b''"]) (simp add: fresh_system_def)
  then have "ms_pc (fold (system_step (\<lambda>_. ''b'') sample_token) [Step 1 9 None, Step 1 9 None]
      (fresh_system (one_batch\<lparr>mp_audit := [(''b'', 3, stored_snapshot sample_body)]\<rparr>))) 1 \<noteq> Running"
    by (elim disjE exE) (erule ssubst, simp)+
  then show ?thesis by blast
qed

theorem batch_runs_twice_witness:
  "\<exists>sys. fold (system_step (\<lambda>_. ''b'') sample_token) [Step 0 5 None, Step 0 5 None, Step 1 5 None, Step 1 5 None, Step 1 70000 None, Step 1 70000 None, Step 1 70000 None]
      (fresh_system one_batch) = sys \<and> ms_pc sys 0 = Running \<and> ms_pc sys 1 = Running"
proof -
  have "(0 :: nat) \<noteq> 1" "(\<lambda>_. ''b'') (0 :: nat) = ''b''" "(\<lambda>_. ''b'') (1 :: nat) = ''b''" "sample_token 0 \<noteq> sample_token 1"
    "readMultiPassSnapshot ''b'' one_batch = None" "mp_locks one_batch ''b'' = None" "(5 :: int) + LOCK_STALE_MS < 70000"
    by (simp_all add: sample_token_def one_batch_def snapshot_exists LOCK_STALE_MS_def)
  moreover have "mp_batches one_batch ''b'' = Some \<lparr>bo_status = ''PROCESSING'', bo_completedAt = None, bo_processingTimeMs = None, bo_throughputRps = None\<rparr>"
    by (simp add: one_batch_def)
  ultimately show ?thesis using batch_runs_twice [of 0 1 "\<lambda>_. ''b''" "''b''" sample_token one_batch _ 5 70000] by blast
qed

end
