(* ===== verification/Routing.thy ===== *)
theory Routing
  imports Currency Adaptive_Chunk Audit_Chain
begin

text \<open>
  Confidence and exposure routing (\<open>src/lib/routing/types.ts\<close>, \<open>risk-calculator.ts\<close>, \<open>replay.ts\<close> and
  \<open>repository.ts\<close>). Confidences, factors and risks are rational numbers, rounded to four places as the source
  rounds them. The common logarithm of the mathematics library, SHA-256, the printing of a number and the time of the record are parameters;
  the sentence that explains a decision is kept as the data it prints. Counting metrics are left out.
\<close>

section \<open>Types and schemas\<close>

datatype ChallengeStatus = NEVER_CHALLENGED | CHALLENGED_SURVIVED | CHALLENGE_CONFIRMED
datatype VerificationStatus = VERIFIED | FAILED | UNCHECKED
datatype ExposureBand = LOW | MEDIUM | HIGH | CRITICAL
datatype RoutingDecision = AUTO_RESOLVE | HUMAN_REVIEW | BLOCKED | REINVESTIGATE

record RoutingInput =
  ri_claimId :: ident
  ri_tenantId :: ident
  ri_transactionId :: ident
  ri_originalConfidence :: rat
  ri_challengeStatus :: ChallengeStatus
  ri_transactionAmountMinor :: int
  ri_currency :: string
  ri_invariantStatus :: VerificationStatus
  ri_mechanicalVerificationStatus :: VerificationStatus
  ri_reinvestigationCount :: int
  ri_evidenceIds :: "ident list"
  ri_proofSignature :: "string option"
  ri_policyVersion :: string

record RoutingPolicyConfig =
  rp_version :: string
  rp_survivalBonus :: rat
  rp_riskThreshold :: rat
  rp_confidenceWeight :: rat
  rp_exposureWeight :: rat
  rp_lowMaxPaise :: int
  rp_mediumMaxPaise :: int
  rp_highMaxPaise :: int

datatype RoutingReason =
    ConfirmedObjection | InvariantIs VerificationStatus | MechanicalIs VerificationStatus
  | BelowThreshold rat rat | NotBelowThreshold rat rat ExposureBand int

record RoutingDecisionRecord =
  rd_decisionId :: ident
  rd_tenantId :: ident
  rd_claimId :: ident
  rd_transactionId :: ident
  rd_policyVersion :: string
  rd_originalConfidence :: rat
  rd_adjustedConfidence :: rat
  rd_survivalBonusApplied :: rat
  rd_originalAmountMinor :: int
  rd_currency :: string
  rd_normalizedExposurePaise :: int
  rd_exposureBand :: ExposureBand
  rd_exposureFactor :: rat
  rd_routingRisk :: rat
  rd_threshold :: rat
  rd_challengeStatus :: ChallengeStatus
  rd_invariantStatus :: VerificationStatus
  rd_mechanicalVerificationStatus :: VerificationStatus
  rd_reinvestigationCount :: int
  rd_evidenceIds :: "ident list"
  rd_proofSignature :: "string option"
  rd_decision :: RoutingDecision
  rd_decisionReason :: RoutingReason
  rd_createdAt :: string
  rd_recordHash :: string

datatype RoutingError =
    InvalidInput | ConversionFailed CurrencyError | InvalidRecord
  | TenantIsolation ident ident | ReplayDivergence ident

definition id_ok :: "ident \<Rightarrow> bool" where
  "id_ok s \<longleftrightarrow> 1 \<le> length s \<and> length s \<le> 100"

definition currency_ok :: "string \<Rightarrow> bool" where
  "currency_ok c \<longleftrightarrow> js_trim (js_toUpperCase c) \<in> set SUPPORTED_CURRENCIES"

definition input_ok :: "RoutingInput \<Rightarrow> bool" where
  "input_ok i \<longleftrightarrow> id_ok (ri_claimId i) \<and> id_ok (ri_tenantId i) \<and> id_ok (ri_transactionId i)
     \<and> 0 \<le> ri_originalConfidence i \<and> ri_originalConfidence i \<le> 1 \<and> 0 \<le> ri_transactionAmountMinor i \<and> currency_ok (ri_currency i)
     \<and> 0 \<le> ri_reinvestigationCount i \<and> list_all (\<lambda>e. e \<noteq> []) (ri_evidenceIds i) \<and> ri_proofSignature i \<noteq> Some [] \<and> ri_policyVersion i \<noteq> []"

text \<open>The record is parsed again before it is returned: what a policy or a digest could break.\<close>

definition unit_range :: "rat \<Rightarrow> bool" where
  "unit_range x \<longleftrightarrow> 0 \<le> x \<and> x \<le> 1"

definition record_ok :: "RoutingDecisionRecord \<Rightarrow> bool" where
  "record_ok r \<longleftrightarrow> rd_decisionId r \<noteq> [] \<and> rd_tenantId r \<noteq> [] \<and> rd_claimId r \<noteq> [] \<and> rd_transactionId r \<noteq> [] \<and> rd_policyVersion r \<noteq> []
     \<and> unit_range (rd_originalConfidence r) \<and> unit_range (rd_adjustedConfidence r) \<and> 0 \<le> rd_survivalBonusApplied r \<and> rd_survivalBonusApplied r \<le> 1 / 10
     \<and> 0 \<le> rd_originalAmountMinor r \<and> rd_currency r \<noteq> [] \<and> 0 \<le> rd_normalizedExposurePaise r \<and> unit_range (rd_exposureFactor r)
     \<and> unit_range (rd_routingRisk r) \<and> unit_range (rd_threshold r) \<and> 0 \<le> rd_reinvestigationCount r \<and> length (rd_recordHash r) = 64"

definition DEFAULT_ROUTING_POLICY :: RoutingPolicyConfig where
  "DEFAULT_ROUTING_POLICY = \<lparr>rp_version = ''confidence-exposure-v1'', rp_survivalBonus = 2 / 100, rp_riskThreshold = 30 / 100,
     rp_confidenceWeight = 40 / 100, rp_exposureWeight = 60 / 100, rp_lowMaxPaise = 500000, rp_mediumMaxPaise = 5000000, rp_highMaxPaise = 50000000\<rparr>"

section \<open>The calculator\<close>

definition normalizeExposureToBasePaise :: "int \<Rightarrow> string \<Rightarrow> CurrencyError + int" where
  "normalizeExposureToBasePaise amountMinor currency =
     (if amountMinor \<le> 0 then Inr 0
      else (case convertToBaseMinor amountMinor (Some currency) (Some BASE_CURRENCY) STATIC_FX_RATES of
              Inl e \<Rightarrow> Inl e | Inr c \<Rightarrow> Inr (cv_convertedMinor c)))"

definition classifyExposureBand :: "RoutingPolicyConfig \<Rightarrow> int \<Rightarrow> ExposureBand" where
  "classifyExposureBand p e =
     (if e \<le> rp_lowMaxPaise p then LOW else if e \<le> rp_mediumMaxPaise p then MEDIUM else if e \<le> rp_highMaxPaise p then HIGH else CRITICAL)"

definition round4 :: "rat \<Rightarrow> rat" where
  "round4 x = js_round_rat (x * 10000) / 10000"

definition clamp_between :: "rat \<Rightarrow> rat \<Rightarrow> rat \<Rightarrow> rat" where
  "clamp_between lo hi x = min hi (max lo x)"

definition E_MIN :: int where "E_MIN = 10000"
definition E_MAX :: int where "E_MAX = 100000000"

definition calculateExposureFactor :: "(rat \<Rightarrow> rat) \<Rightarrow> int \<Rightarrow> rat" where
  "calculateExposureFactor log10 e =
     (if e \<le> 0 then 5 / 100
      else if e \<le> E_MIN then 5 / 100
      else if e \<ge> E_MAX then 1
      else (let logMin = log10 (of_int E_MIN); logMax = log10 (of_int E_MAX); logVal = log10 (of_int e)
            in round4 (clamp_between (5 / 100) 1 (5 / 100 + 95 / 100 * ((logVal - logMin) / (logMax - logMin))))))"

definition calculateAdjustedConfidence :: "RoutingPolicyConfig \<Rightarrow> rat \<Rightarrow> ChallengeStatus \<Rightarrow> rat \<times> rat" where
  "calculateAdjustedConfidence p conf ch =
     (let bounded = clamp_between 0 1 conf in
      if ch = CHALLENGED_SURVIVED then (round4 (min 1 (bounded + rp_survivalBonus p)), rp_survivalBonus p) else (round4 bounded, 0))"

definition risk_score :: "RoutingPolicyConfig \<Rightarrow> rat \<Rightarrow> rat \<Rightarrow> rat" where
  "risk_score p adjusted factor = round4 (clamp_between 0 1 (rp_confidenceWeight p * (1 - adjusted) + rp_exposureWeight p * factor))"

definition route_decision :: "RoutingInput \<Rightarrow> rat \<Rightarrow> rat \<Rightarrow> ExposureBand \<Rightarrow> int \<Rightarrow> RoutingDecision \<times> RoutingReason" where
  "route_decision i risk threshold band exposure =
     (if ri_challengeStatus i = CHALLENGE_CONFIRMED then (REINVESTIGATE, ConfirmedObjection)
      else if ri_invariantStatus i \<noteq> VERIFIED then (BLOCKED, InvariantIs (ri_invariantStatus i))
      else if ri_mechanicalVerificationStatus i \<noteq> VERIFIED then (BLOCKED, MechanicalIs (ri_mechanicalVerificationStatus i))
      else if risk < threshold then (AUTO_RESOLVE, BelowThreshold risk threshold)
      else (HUMAN_REVIEW, NotBelowThreshold risk threshold band exposure))"

fun band_text :: "ExposureBand \<Rightarrow> string" where
  "band_text LOW = ''LOW''" | "band_text MEDIUM = ''MEDIUM''" | "band_text HIGH = ''HIGH''" | "band_text CRITICAL = ''CRITICAL''"

fun decision_text :: "RoutingDecision \<Rightarrow> string" where
  "decision_text AUTO_RESOLVE = ''AUTO_RESOLVE''" | "decision_text HUMAN_REVIEW = ''HUMAN_REVIEW''"
| "decision_text BLOCKED = ''BLOCKED''" | "decision_text REINVESTIGATE = ''REINVESTIGATE''"

record RoutingEnv =
  re_sha :: "string \<Rightarrow> string"
  re_log10 :: "rat \<Rightarrow> rat"
  re_number :: "rat \<Rightarrow> string"

definition decision_id :: "RoutingEnv \<Rightarrow> RoutingPolicyConfig \<Rightarrow> RoutingInput \<Rightarrow> ident" where
  "decision_id env p i = ''dec_'' @ take 12 (re_sha env (ri_tenantId i @ '':'' @ ri_claimId i @ '':'' @ ri_transactionId i @ '':'' @ rp_version p))"

definition record_hash ::
  "RoutingEnv \<Rightarrow> RoutingPolicyConfig \<Rightarrow> RoutingInput \<Rightarrow> rat \<Rightarrow> int \<Rightarrow> ExposureBand \<Rightarrow> rat \<Rightarrow> RoutingDecision \<Rightarrow> string" where
  "record_hash env p i adjusted exposure band risk decision =
     re_sha env (json_stringify (JObj
       [(''decisionId'', JStr (decision_id env p i)), (''tenantId'', JStr (ri_tenantId i)), (''claimId'', JStr (ri_claimId i)),
        (''transactionId'', JStr (ri_transactionId i)), (''policyVersion'', JStr (rp_version p)),
        (''originalConfidence'', JNum (re_number env (ri_originalConfidence i))), (''adjustedConfidence'', JNum (re_number env adjusted)),
        (''originalAmountMinor'', JInt (ri_transactionAmountMinor i)), (''currency'', JStr (ri_currency i)),
        (''normalizedExposurePaise'', JInt exposure), (''exposureBand'', JStr (band_text band)), (''routingRisk'', JNum (re_number env risk)),
        (''threshold'', JNum (re_number env (rp_riskThreshold p))), (''decision'', JStr (decision_text decision))]))"

definition calculateRoutingRisk :: "RoutingEnv \<Rightarrow> string \<Rightarrow> RoutingPolicyConfig \<Rightarrow> RoutingInput \<Rightarrow> RoutingError + RoutingDecisionRecord" where
  "calculateRoutingRisk env createdAt p i =
     (if \<not> input_ok i then Inl InvalidInput
      else (case normalizeExposureToBasePaise (ri_transactionAmountMinor i) (ri_currency i) of
          Inl e \<Rightarrow> Inl (ConversionFailed e)
        | Inr exposure \<Rightarrow>
            (let (adjusted, bonus) = calculateAdjustedConfidence p (ri_originalConfidence i) (ri_challengeStatus i);
                 band = classifyExposureBand p exposure;
                 factor = calculateExposureFactor (re_log10 env) exposure;
                 risk = risk_score p adjusted factor;
                 (decision, reason) = route_decision i risk (rp_riskThreshold p) band exposure;
                 r = \<lparr>rd_decisionId = decision_id env p i, rd_tenantId = ri_tenantId i, rd_claimId = ri_claimId i, rd_transactionId = ri_transactionId i,
                   rd_policyVersion = rp_version p, rd_originalConfidence = ri_originalConfidence i, rd_adjustedConfidence = adjusted,
                   rd_survivalBonusApplied = bonus, rd_originalAmountMinor = ri_transactionAmountMinor i, rd_currency = ri_currency i,
                   rd_normalizedExposurePaise = exposure, rd_exposureBand = band, rd_exposureFactor = factor, rd_routingRisk = risk,
                   rd_threshold = rp_riskThreshold p, rd_challengeStatus = ri_challengeStatus i, rd_invariantStatus = ri_invariantStatus i,
                   rd_mechanicalVerificationStatus = ri_mechanicalVerificationStatus i, rd_reinvestigationCount = ri_reinvestigationCount i,
                   rd_evidenceIds = ri_evidenceIds i, rd_proofSignature = ri_proofSignature i, rd_decision = decision, rd_decisionReason = reason,
                   rd_createdAt = createdAt, rd_recordHash = record_hash env p i adjusted exposure band risk decision\<rparr>
             in if record_ok r then Inr r else Inl InvalidRecord)))"

section \<open>Replay\<close>

definition stored_input :: "RoutingDecisionRecord \<Rightarrow> RoutingInput" where
  "stored_input r = \<lparr>ri_claimId = rd_claimId r, ri_tenantId = rd_tenantId r, ri_transactionId = rd_transactionId r,
     ri_originalConfidence = rd_originalConfidence r, ri_challengeStatus = rd_challengeStatus r, ri_transactionAmountMinor = rd_originalAmountMinor r,
     ri_currency = rd_currency r, ri_invariantStatus = rd_invariantStatus r, ri_mechanicalVerificationStatus = rd_mechanicalVerificationStatus r,
     ri_reinvestigationCount = rd_reinvestigationCount r, ri_evidenceIds = rd_evidenceIds r, ri_proofSignature = rd_proofSignature r,
     ri_policyVersion = rd_policyVersion r\<rparr>"

record ReplayVerificationResult =
  rv_isDeterministic :: bool
  rv_decisionId :: ident
  rv_tenantId :: ident
  rv_originalDecision :: RoutingDecision
  rv_replayedDecision :: RoutingDecision
  rv_originalRisk :: rat
  rv_replayedRisk :: rat
  rv_replayedRecord :: RoutingDecisionRecord

definition replay_matches :: "RoutingDecisionRecord \<Rightarrow> RoutingDecisionRecord \<Rightarrow> bool" where
  "replay_matches new old \<longleftrightarrow> \<bar>rd_adjustedConfidence new - rd_adjustedConfidence old\<bar> < 1 / 10000
     \<and> \<bar>rd_routingRisk new - rd_routingRisk old\<bar> < 1 / 10000 \<and> rd_exposureBand new = rd_exposureBand old \<and> rd_decision new = rd_decision old"

definition replayRoutingDecision ::
  "RoutingEnv \<Rightarrow> string \<Rightarrow> RoutingPolicyConfig \<Rightarrow> ident \<Rightarrow> RoutingDecisionRecord \<Rightarrow> RoutingError + ReplayVerificationResult" where
  "replayRoutingDecision env createdAt p tenant r =
     (if tenant = [] \<or> js_trim tenant \<noteq> js_trim (rd_tenantId r) then Inl (TenantIsolation tenant (rd_tenantId r))
      else (case calculateRoutingRisk env createdAt p (stored_input r) of
          Inl e \<Rightarrow> Inl e
        | Inr new \<Rightarrow>
            if \<not> replay_matches new r then Inl (ReplayDivergence (rd_decisionId r))
            else Inr \<lparr>rv_isDeterministic = True, rv_decisionId = rd_decisionId r, rv_tenantId = rd_tenantId r, rv_originalDecision = rd_decision r,
              rv_replayedDecision = rd_decision new, rv_originalRisk = rd_routingRisk r, rv_replayedRisk = rd_routingRisk new, rv_replayedRecord = new\<rparr>))"

section \<open>The repository\<close>

type_synonym routing_store = "(string \<times> RoutingDecisionRecord) list"

definition store_key :: "ident \<Rightarrow> ident \<Rightarrow> string" where
  "store_key tenant decision = tenant @ '':'' @ decision"

definition save_decision :: "RoutingDecisionRecord \<Rightarrow> routing_store \<Rightarrow> routing_store" where
  "save_decision r s = AList.update (store_key (rd_tenantId r) (rd_decisionId r)) r s"

definition get_decision :: "ident \<Rightarrow> ident \<Rightarrow> routing_store \<Rightarrow> RoutingDecisionRecord option" where
  "get_decision decision tenant s = (if tenant = [] \<or> decision = [] then None else map_of s (store_key tenant decision))"

text \<open>The limit is checked after a record is taken, so one record is listed even with a limit of 0.\<close>

fun take_while_room :: "int \<Rightarrow> RoutingDecisionRecord list \<Rightarrow> RoutingDecisionRecord list" where
  "take_while_room n [] = []"
| "take_while_room n (r # rs) = (if 1 \<ge> n then [r] else r # take_while_room (n - 1) rs)"

definition listByTenant :: "ident \<Rightarrow> int \<Rightarrow> routing_store \<Rightarrow> RoutingDecisionRecord list" where
  "listByTenant tenant limit s =
     (if tenant = [] then [] else take_while_room limit (filter (\<lambda>r. rd_tenantId r = tenant) (map snd s)))"

end
