(* ===== verification/Routing_Correct.thy ===== *)
theory Routing_Correct
  imports Routing
begin

text \<open>
  The routing decision: what automatic resolution implies under the default policy, that a safer case is never routed
  worse, and that a stored decision replays.
\<close>

section \<open>Rounding and clamping\<close>

lemma round4_mono: "x \<le> y \<Longrightarrow> round4 x \<le> round4 y"
  by (simp add: round4_def js_round_rat_def divide_right_mono floor_mono)

lemma round4_less: "round4 x < of_int n / 10000 \<Longrightarrow> x < (of_int n - 1 / 2) / 10000"
proof -
  assume "round4 x < of_int n / 10000"
  then have "\<lfloor>x * 10000 + 1 / 2\<rfloor> < n" by (simp add: round4_def js_round_rat_def)
  then have "x * 10000 + 1 / 2 < of_int n" by (simp add: floor_less_iff)
  then show ?thesis by (simp add: field_simps)
qed

lemma round4_grid: "\<exists>k. round4 x = of_int k / 10000"
  by (auto simp: round4_def js_round_rat_def)

lemma clamp_between_mono: "x \<le> y \<Longrightarrow> clamp_between lo hi x \<le> clamp_between lo hi y"
  by (auto simp: clamp_between_def)

lemma clamp_between_range: "lo \<le> hi \<Longrightarrow> lo \<le> clamp_between lo hi x \<and> clamp_between lo hi x \<le> hi"
  by (auto simp: clamp_between_def)

lemma clamp_lower: "0 \<le> a \<Longrightarrow> a \<le> 1 \<Longrightarrow> a \<le> x \<Longrightarrow> a \<le> clamp_between 0 1 x"
  by (simp add: clamp_between_def)

lemma round4_numeral: "round4 (5 / 100) = 5 / 100" "round4 1 = 1" "round4 0 = 0"
  by (simp_all add: round4_def js_round_rat_def floor_eq_iff)

lemma risk_score_mono: "0 \<le> rp_confidenceWeight p \<Longrightarrow> 0 \<le> rp_exposureWeight p \<Longrightarrow> c2 \<le> c1 \<Longrightarrow> f1 \<le> f2 \<Longrightarrow> risk_score p c1 f1 \<le> risk_score p c2 f2"
  unfolding risk_score_def by (intro round4_mono clamp_between_mono add_mono mult_left_mono) simp_all

lemma factor_range: "5 / 100 \<le> calculateExposureFactor lg e \<and> calculateExposureFactor lg e \<le> 1"
proof -
  have r: "5 / 100 \<le> round4 (clamp_between (5 / 100) 1 x) \<and> round4 (clamp_between (5 / 100) 1 x) \<le> 1" for x
  proof -
    have c: "5 / 100 \<le> clamp_between (5 / 100) 1 x" "clamp_between (5 / 100) 1 x \<le> 1" using clamp_between_range [of "5 / 100" 1 x] by simp_all
    show ?thesis using round4_mono [OF c(1)] round4_mono [OF c(2)] unfolding round4_numeral by blast
  qed
  then show ?thesis unfolding calculateExposureFactor_def Let_def by simp
qed

lemma factor_mid: "E_MIN < e \<Longrightarrow> e < E_MAX \<Longrightarrow> calculateExposureFactor lg e
    = round4 (clamp_between (5 / 100) 1 (5 / 100 + 95 / 100 * ((lg (of_int e) - lg (of_int E_MIN)) / (lg (of_int E_MAX) - lg (of_int E_MIN)))))"
  by (simp add: calculateExposureFactor_def Let_def E_MIN_def E_MAX_def)

lemma factor_mono:
  assumes "mono_on {0<..} lg" "lg (of_int E_MIN) < lg (of_int E_MAX)" "e1 \<le> e2"
  shows "calculateExposureFactor lg e1 \<le> calculateExposureFactor lg e2"
proof -
  consider "e1 \<le> E_MIN" | "e2 \<ge> E_MAX" | "E_MIN < e1" "e2 < E_MAX" by linarith
  then show ?thesis
  proof cases
    case 1
    then have "calculateExposureFactor lg e1 = 5 / 100" by (simp add: calculateExposureFactor_def)
    then show ?thesis using factor_range [of lg e2] by linarith
  next
    case 2
    then have "calculateExposureFactor lg e2 = 1" by (simp add: calculateExposureFactor_def E_MIN_def E_MAX_def)
    then show ?thesis using factor_range [of lg e1] by linarith
  next
    case 3
    have "lg (of_int e1) \<le> lg (of_int e2)" using assms(1,3) 3(1) by (intro mono_onD [OF assms(1)]) (simp_all add: E_MIN_def)
    then have "(lg (of_int e1) - lg (of_int E_MIN)) / (lg (of_int E_MAX) - lg (of_int E_MIN))
        \<le> (lg (of_int e2) - lg (of_int E_MIN)) / (lg (of_int E_MAX) - lg (of_int E_MIN))"
      using assms(2) by (intro divide_right_mono) simp_all
    moreover have "E_MIN < e2" "e1 < E_MAX" using 3 assms(3) by linarith+
    ultimately show ?thesis using factor_mid [of e1 lg] factor_mid [of e2 lg] 3
      by (simp only:) (intro round4_mono clamp_between_mono add_left_mono mult_left_mono; simp)
  qed
qed

lemma adjusted_mono:
  assumes "c1 \<le> c2"
  shows "fst (calculateAdjustedConfidence p c1 ch) \<le> fst (calculateAdjustedConfidence p c2 ch)"
  using clamp_between_mono [OF assms, of 0 1] by (auto simp: calculateAdjustedConfidence_def Let_def intro!: round4_mono)

section \<open>The record of a decision\<close>

lemma routing_record:
  assumes "calculateRoutingRisk env t p i = Inr r"
  shows "input_ok i" "record_ok r" "rd_adjustedConfidence r = fst (calculateAdjustedConfidence p (ri_originalConfidence i) (ri_challengeStatus i))"
    "rd_exposureFactor r = calculateExposureFactor (re_log10 env) (rd_normalizedExposurePaise r)"
    "rd_routingRisk r = risk_score p (rd_adjustedConfidence r) (rd_exposureFactor r)"
    "rd_decision r = fst (route_decision i (rd_routingRisk r) (rp_riskThreshold p) (rd_exposureBand r) (rd_normalizedExposurePaise r))"
    "stored_input r = i\<lparr>ri_policyVersion := rp_version p\<rparr>" "rd_policyVersion r = rp_version p" "rd_tenantId r = ri_tenantId i"
    "normalizeExposureToBasePaise (ri_transactionAmountMinor i) (ri_currency i) = Inr (rd_normalizedExposurePaise r)"
  using assms by (auto simp: calculateRoutingRisk_def Let_def stored_input_def split: if_splits sum.splits prod.splits)

lemma auto_resolve_iff:
  "fst (route_decision i risk th band e) = AUTO_RESOLVE \<longleftrightarrow>
   ri_challengeStatus i \<noteq> CHALLENGE_CONFIRMED \<and> ri_invariantStatus i = VERIFIED \<and> ri_mechanicalVerificationStatus i = VERIFIED \<and> risk < th"
  by (simp add: route_decision_def)

text \<open>The parts of the answer that do not depend on the clock.\<close>

lemma routing_time:
  assumes "calculateRoutingRisk env t p i = Inr r"
  shows "calculateRoutingRisk env t2 p (stored_input r) = Inr (r\<lparr>rd_createdAt := t2\<rparr>)"
proof -
  have s: "stored_input r = i\<lparr>ri_policyVersion := rp_version p\<rparr>" and v: "rp_version p \<noteq> []" and ok: "input_ok i"
    using routing_record(7) [OF assms] routing_record(1,2,8) [OF assms] by (auto simp: record_ok_def)
  have i: "input_ok (i\<lparr>ri_policyVersion := rp_version p\<rparr>)" using ok v by (simp add: input_ok_def)
  have d: "decision_id env p (i\<lparr>ri_policyVersion := x\<rparr>) = decision_id env p i" for x by (simp add: decision_id_def)
  have h: "record_hash env p (i\<lparr>ri_policyVersion := x\<rparr>) a e b k dc = record_hash env p i a e b k dc" for x a e b k dc
    by (simp add: record_hash_def d)
  have rt: "route_decision (i\<lparr>ri_policyVersion := x\<rparr>) = route_decision i" for x by (intro ext) (simp add: route_decision_def)
  have rk: "record_ok (q\<lparr>rd_createdAt := t2\<rparr>) = record_ok q" for q by (simp add: record_ok_def)
  show ?thesis
    using assms i ok unfolding s calculateRoutingRisk_def
    by (auto simp: d h rt Let_def record_ok_def split: if_splits sum.splits prod.splits)
qed

section \<open>The default policy\<close>

text \<open>
  Under the default policy a case is resolved automatically only when its invariants and its mechanical verification
  are verified, no objection stands, its exposure is below ten lakh rupees and its adjusted confidence is above 0.3251, whatever the
  logarithm of the platform returns.
\<close>

theorem auto_resolve_needs:
  assumes "calculateRoutingRisk env t DEFAULT_ROUTING_POLICY i = Inr r" "rd_decision r = AUTO_RESOLVE"
  shows "ri_challengeStatus i \<noteq> CHALLENGE_CONFIRMED \<and> ri_invariantStatus i = VERIFIED \<and> ri_mechanicalVerificationStatus i = VERIFIED
    \<and> rd_normalizedExposurePaise r < 100000000 \<and> 3251 / 10000 < rd_adjustedConfidence r \<and> rd_exposureFactor r < 1 / 2"
proof -
  have a: "ri_challengeStatus i \<noteq> CHALLENGE_CONFIRMED \<and> ri_invariantStatus i = VERIFIED \<and> ri_mechanicalVerificationStatus i = VERIFIED"
    and risk: "rd_routingRisk r < 30 / 100"
    using assms(2) routing_record(6) [OF assms(1)] auto_resolve_iff by (auto simp: DEFAULT_ROUTING_POLICY_def)
  let ?c = "rd_adjustedConfidence r" and ?f = "rd_exposureFactor r"
  have f: "5 / 100 \<le> ?f" using factor_range routing_record(4) [OF assms(1)] by simp
  have c: "?c \<le> 1" using routing_record(2) [OF assms(1)] by (simp add: record_ok_def unit_range_def)
  let ?x = "clamp_between 0 1 (40 / 100 * (1 - ?c) + 60 / 100 * ?f)"
  have "round4 ?x < of_int 3000 / 10000"
    using risk routing_record(5) [OF assms(1)] by (simp add: risk_score_def DEFAULT_ROUTING_POLICY_def)
  from round4_less [OF this] have "?x < 29995 / 100000" by simp
  then have x: "40 / 100 * (1 - ?c) + 60 / 100 * ?f < 29995 / 100000"
    using clamp_lower [of "29995 / 100000" "40 / 100 * (1 - ?c) + 60 / 100 * ?f"] by linarith
  have "3251 / 10000 < ?c" using x f by (simp add: field_simps)
  moreover have f2: "?f < 1 / 2" using x c by (simp add: field_simps)
  moreover have "rd_normalizedExposurePaise r < 100000000"
  proof (rule ccontr)
    assume "\<not> ?thesis"
    then have "?f = 1" using routing_record(4) [OF assms(1)] by (simp add: calculateExposureFactor_def E_MIN_def E_MAX_def)
    with f2 show False by simp
  qed
  ultimately show ?thesis using a by blast
qed


text \<open>
  A decision that was computed and saved is read back by its own tenant, replays at any later time to the same record but for
  its time, and cannot be replayed by a tenant of another name.
\<close>

theorem saved_decision_replays:
  assumes "calculateRoutingRisk env t p i = Inr r" "rd_tenantId r \<noteq> []" "js_trim other \<noteq> js_trim (rd_tenantId r)"
  shows "get_decision (rd_decisionId r) (rd_tenantId r) (save_decision r s) = Some r
    \<and> (\<exists>v. replayRoutingDecision env t2 p (rd_tenantId r) r = Inr v \<and> rv_replayedRecord v = r\<lparr>rd_createdAt := t2\<rparr> \<and> rv_replayedDecision v = rd_decision r)
    \<and> replayRoutingDecision env t2 p other r = Inl (TenantIsolation other (rd_tenantId r))"
proof -
  have "rd_decisionId r \<noteq> []" using routing_record(2) [OF assms(1)] by (simp add: record_ok_def)
  then have "get_decision (rd_decisionId r) (rd_tenantId r) (save_decision r s) = Some r"
    using assms(2) by (simp add: get_decision_def save_decision_def update_conv')
  moreover have "replay_matches (r\<lparr>rd_createdAt := t2\<rparr>) r" by (simp add: replay_matches_def)
  ultimately show ?thesis using assms(2,3) routing_time [OF assms(1), of t2] by (simp add: replayRoutingDecision_def)
qed

section \<open>Witnesses\<close>

text \<open>A logarithm that is right at the two ends of the scale and linear between them.\<close>

definition chord_log :: "rat \<Rightarrow> rat" where
  "chord_log x = 4 + 4 * (x - 10000) / 99990000"

definition sample_routing_env :: RoutingEnv where
  "sample_routing_env = \<lparr>re_sha = (\<lambda>s. replicate 64 (CHR ''a'')), re_log10 = chord_log, re_number = (\<lambda>x. ''0'')\<rparr>"

definition sample_case :: "rat \<Rightarrow> int \<Rightarrow> RoutingInput" where
  "sample_case conf amount = \<lparr>ri_claimId = ''c1'', ri_tenantId = ''t1'', ri_transactionId = ''x1'', ri_originalConfidence = conf,
     ri_challengeStatus = NEVER_CHALLENGED, ri_transactionAmountMinor = amount, ri_currency = ''INR'', ri_invariantStatus = VERIFIED,
     ri_mechanicalVerificationStatus = VERIFIED, ri_reinvestigationCount = 0, ri_evidenceIds = [''e1''], ri_proofSignature = None,
     ri_policyVersion = ''confidence-exposure-v1''\<rparr>"

lemma sample_currency: "currency_ok ''INR''" "norm_currency (Some ''INR'') = ''INR''"
  by code_simp+

lemma round4_unit: "unit_range (round4 (clamp_between 0 1 x))"
proof -
  have "0 \<le> clamp_between 0 1 x" "clamp_between 0 1 x \<le> 1" using clamp_between_range [of 0 1 x] by simp_all
  from round4_mono [OF this(1)] round4_mono [OF this(2)] show ?thesis unfolding round4_numeral unit_range_def by blast
qed

lemma routing_result:
  assumes "input_ok i" "normalizeExposureToBasePaise (ri_transactionAmountMinor i) (ri_currency i) = Inr e" "0 \<le> e" "ri_currency i \<noteq> []"
    "rp_version p \<noteq> []" "unit_range (rp_riskThreshold p)" "ri_challengeStatus i = NEVER_CHALLENGED" "\<And>s. length (re_sha env s) = 64"
  shows "\<exists>r. calculateRoutingRisk env t p i = Inr r \<and> rd_tenantId r = ri_tenantId i \<and> rd_normalizedExposurePaise r = e"
proof -
  have u: "unit_range (calculateExposureFactor (re_log10 env) e)" using factor_range [of "re_log10 env" e] unfolding unit_range_def by linarith
  have k: "unit_range (risk_score p c f)" for c f unfolding risk_score_def by (rule round4_unit)
  have h: "length (record_hash env p i a e b k d) = 64" for a b k d unfolding record_hash_def by (rule assms(8))
  show ?thesis using assms(1-7) u k h round4_unit
    by (auto simp: calculateRoutingRisk_def Let_def record_ok_def input_ok_def id_ok_def calculateAdjustedConfidence_def decision_id_def unit_range_def split: prod.splits)
qed

lemma sample_routed:
  "\<exists>r. calculateRoutingRisk sample_routing_env ''now'' DEFAULT_ROUTING_POLICY (sample_case (9 / 10) 5000) = Inr r \<and> rd_decision r = AUTO_RESOLVE
     \<and> rd_tenantId r = ''t1'' \<and> rd_normalizedExposurePaise r = 5000"
  "\<exists>r. calculateRoutingRisk sample_routing_env ''now'' DEFAULT_ROUTING_POLICY (sample_case 1 4000) = Inr r \<and> rd_normalizedExposurePaise r = 4000"
proof -
  have ok: "input_ok (sample_case c n)" if "0 \<le> c" "c \<le> 1" "0 \<le> n" for c n
    using sample_currency that by (simp add: input_ok_def sample_case_def id_ok_def)
  have norm: "normalizeExposureToBasePaise n ''INR'' = Inr n" if "0 < n" for n
    using sample_currency that by (simp add: normalizeExposureToBasePaise_def convertToBaseMinor_def BASE_CURRENCY_def Let_def)
  have r: "\<exists>r. calculateRoutingRisk sample_routing_env ''now'' DEFAULT_ROUTING_POLICY (sample_case c n) = Inr r \<and> rd_tenantId r = ''t1''
      \<and> rd_normalizedExposurePaise r = n" if "0 \<le> c" "c \<le> 1" "0 < n" for c n
    using routing_result [OF ok [OF that(1,2)], of n n DEFAULT_ROUTING_POLICY sample_routing_env "''now''"] norm [OF that(3)] that(3)
    by (simp add: sample_case_def DEFAULT_ROUTING_POLICY_def unit_range_def sample_routing_env_def)
  from r [of 1 4000] show "\<exists>r. calculateRoutingRisk sample_routing_env ''now'' DEFAULT_ROUTING_POLICY (sample_case 1 4000) = Inr r \<and> rd_normalizedExposurePaise r = 4000"
    by auto
  from r [of "9 / 10" 5000] obtain q where q: "calculateRoutingRisk sample_routing_env ''now'' DEFAULT_ROUTING_POLICY (sample_case (9 / 10) 5000) = Inr q"
      "rd_tenantId q = ''t1''" "rd_normalizedExposurePaise q = 5000" by auto
  have c: "rd_adjustedConfidence q = 9 / 10" unfolding routing_record(3) [OF q(1)]
    by (simp add: calculateAdjustedConfidence_def sample_case_def clamp_between_def round4_def js_round_rat_def floor_eq_iff)
  have f: "rd_exposureFactor q = 5 / 100" unfolding routing_record(4) [OF q(1)] q(3) by (simp add: calculateExposureFactor_def E_MIN_def)
  have "rd_routingRisk q < 30 / 100" unfolding routing_record(5) [OF q(1)] c f
    by (simp add: risk_score_def DEFAULT_ROUTING_POLICY_def clamp_between_def round4_def js_round_rat_def floor_less_iff)
  then have "rd_decision q = AUTO_RESOLVE"
    unfolding routing_record(6) [OF q(1)] auto_resolve_iff by (simp add: sample_case_def DEFAULT_ROUTING_POLICY_def)
  with q show "\<exists>r. calculateRoutingRisk sample_routing_env ''now'' DEFAULT_ROUTING_POLICY (sample_case (9 / 10) 5000) = Inr r \<and> rd_decision r = AUTO_RESOLVE
     \<and> rd_tenantId r = ''t1'' \<and> rd_normalizedExposurePaise r = 5000" by blast
qed

theorem auto_resolve_needs_witness:
  "\<exists>r. calculateRoutingRisk sample_routing_env ''now'' DEFAULT_ROUTING_POLICY (sample_case (9 / 10) 5000) = Inr r \<and> rd_exposureFactor r < 1 / 2"
  using sample_routed(1) auto_resolve_needs by blast

lemma chord_mono: "mono_on {0<..} chord_log"
  by (rule mono_onI) (simp add: chord_log_def field_simps)


theorem saved_decision_replays_witness:
  "\<exists>r v. calculateRoutingRisk sample_routing_env ''now'' DEFAULT_ROUTING_POLICY (sample_case (9 / 10) 5000) = Inr r
     \<and> replayRoutingDecision sample_routing_env ''later'' DEFAULT_ROUTING_POLICY ''t1'' r = Inr v \<and> rv_replayedDecision v = rd_decision r"
proof -
  obtain r where r: "calculateRoutingRisk sample_routing_env ''now'' DEFAULT_ROUTING_POLICY (sample_case (9 / 10) 5000) = Inr r"
      "rd_tenantId r = ''t1''" using sample_routed(1) by blast
  have "js_trim ''t2'' \<noteq> js_trim (rd_tenantId r)" unfolding r(2) by (simp add: js_trim_def js_whitespace_def)
  with saved_decision_replays [OF r(1) _ this] r show ?thesis by fastforce
qed

end
