(* ===== verification/Adjustments.thy ===== *)
theory Adjustments
  imports Prelude "HOL-Library.AList"
begin

text \<open>
  Late events on finalised ledger entries (\<open>src/lib/ledger/adjustments.ts\<close>): the manager's three maps, and the one
  operation that adds an adjustment. A map that is iterated is an association list in insertion order. SHA-256 and the
  clock are parameters.
\<close>

section \<open>State\<close>

record FinalizedLedgerRecord =
  fl_ledgerEntryId :: ident
  fl_batchId :: ident
  fl_paymentId :: ident
  fl_grossAmountPaise :: paise
  fl_feePaise :: paise
  fl_taxPaise :: paise
  fl_netSettledPaise :: paise
  fl_finalizedAt :: millis
  fl_contentHash :: string

datatype LateEventType = LATE_REFUND | LATE_CHARGEBACK | LATE_BANK_ADJUSTMENT

record LateFinancialEvent =
  le_eventId :: ident
  le_originalLedgerEntryId :: ident
  le_paymentId :: ident
  le_eventType :: LateEventType
  le_adjustmentAmountPaise :: paise
  le_reason :: string
  le_observedAt :: millis
  le_idempotencyKey :: string

record LinkedAdjustmentRecord =
  la_adjustmentEntryId :: ident
  la_parentLedgerEntryId :: ident
  la_paymentId :: ident
  la_eventType :: LateEventType
  la_originalNetPaise :: paise
  la_adjustmentAmountPaise :: paise
  la_newEffectiveNetPaise :: paise
  la_idempotencyKey :: string
  la_invariantPassed :: bool
  la_createdAt :: millis
  la_adjustmentHash :: string

record AdjustmentLedger =
  al_finalized :: "ident \<rightharpoonup> FinalizedLedgerRecord"
  al_adjustments :: "(ident \<times> LinkedAdjustmentRecord) list"
  al_registry :: "string \<rightharpoonup> ident"

definition empty_ledger :: AdjustmentLedger where
  "empty_ledger = \<lparr>al_finalized = Map.empty, al_adjustments = [], al_registry = Map.empty\<rparr>"

section \<open>Operations\<close>

definition registerFinalizedEntry :: "FinalizedLedgerRecord \<Rightarrow> AdjustmentLedger \<Rightarrow> AdjustmentLedger" where
  "registerFinalizedEntry e s = s\<lparr>al_finalized := (al_finalized s)(fl_ledgerEntryId e \<mapsto> e)\<rparr>"

definition getFinalizedEntry :: "ident \<Rightarrow> AdjustmentLedger \<Rightarrow> FinalizedLedgerRecord option" where
  "getFinalizedEntry i s = al_finalized s i"

definition getAdjustmentsForEntry :: "ident \<Rightarrow> AdjustmentLedger \<Rightarrow> LinkedAdjustmentRecord list" where
  "getAdjustmentsForEntry i s = filter (\<lambda>a. la_parentLedgerEntryId a = i) (map snd (al_adjustments s))"

datatype AdjustmentError = PARENT_LEDGER_ENTRY_NOT_FOUND | INVARIANT_BREACH paise

datatype LateOutcome =
    Duplicate "LinkedAdjustmentRecord option" | Adjusted LinkedAdjustmentRecord | Refused AdjustmentError

definition adjustment_hash :: "(string \<Rightarrow> string) \<Rightarrow> FinalizedLedgerRecord \<Rightarrow> LateFinancialEvent \<Rightarrow> string" where
  "adjustment_hash sha parent e =
     sha (fl_ledgerEntryId parent @ ''|'' @ le_eventId e @ ''|'' @ js_show_int (le_adjustmentAmountPaise e) @ ''|'' @ le_idempotencyKey e)"

definition new_adjustment :: "(string \<Rightarrow> string) \<Rightarrow> millis \<Rightarrow> FinalizedLedgerRecord \<Rightarrow> LateFinancialEvent \<Rightarrow> LinkedAdjustmentRecord" where
  "new_adjustment sha now parent e =
     (let h = adjustment_hash sha parent e in
      \<lparr>la_adjustmentEntryId = ''adj_'' @ take 16 h, la_parentLedgerEntryId = fl_ledgerEntryId parent, la_paymentId = fl_paymentId parent,
       la_eventType = le_eventType e, la_originalNetPaise = fl_netSettledPaise parent, la_adjustmentAmountPaise = le_adjustmentAmountPaise e,
       la_newEffectiveNetPaise = fl_netSettledPaise parent + le_adjustmentAmountPaise e, la_idempotencyKey = le_idempotencyKey e,
       la_invariantPassed = True, la_createdAt = now, la_adjustmentHash = h\<rparr>)"

definition add_adjustment :: "LinkedAdjustmentRecord \<Rightarrow> AdjustmentLedger \<Rightarrow> AdjustmentLedger" where
  "add_adjustment a s = s\<lparr>al_adjustments := AList.update (la_adjustmentEntryId a) a (al_adjustments s),
     al_registry := (al_registry s)(la_idempotencyKey a \<mapsto> la_adjustmentEntryId a)\<rparr>"

definition processLateEvent :: "(string \<Rightarrow> string) \<Rightarrow> millis \<Rightarrow> LateFinancialEvent \<Rightarrow> AdjustmentLedger \<Rightarrow> LateOutcome \<times> AdjustmentLedger" where
  "processLateEvent sha now e s =
     (case al_registry s (le_idempotencyKey e) of
        Some i \<Rightarrow> (Duplicate (map_of (al_adjustments s) i), s)
      | None \<Rightarrow>
          (case al_finalized s (le_originalLedgerEntryId e) of
             None \<Rightarrow> (Refused PARENT_LEDGER_ENTRY_NOT_FOUND, s)
           | Some parent \<Rightarrow>
               (let effective = fl_netSettledPaise parent + le_adjustmentAmountPaise e in
                if 0 \<le> effective \<and> effective \<le> fl_grossAmountPaise parent
                then (let a = new_adjustment sha now parent e in (Adjusted a, add_adjustment a s))
                else (Refused (INVARIANT_BREACH effective), s))))"

section \<open>Properties\<close>

datatype LedgerOp = Register FinalizedLedgerRecord | Late millis LateFinancialEvent

fun ledger_op :: "(string \<Rightarrow> string) \<Rightarrow> LedgerOp \<Rightarrow> AdjustmentLedger \<Rightarrow> AdjustmentLedger" where
  "ledger_op sha (Register e) s = registerFinalizedEntry e s"
| "ledger_op sha (Late now e) s = snd (processLateEvent sha now e s)"

text \<open>The identifier an event gets for a parent whose entry carries the identifier the event names.\<close>

definition event_id :: "(string \<Rightarrow> string) \<Rightarrow> LateFinancialEvent \<Rightarrow> ident" where
  "event_id sha e = ''adj_'' @ take 16 (sha (le_originalLedgerEntryId e @ ''|'' @ le_eventId e @ ''|'' @ js_show_int (le_adjustmentAmountPaise e) @ ''|'' @ le_idempotencyKey e))"

definition adjustment_ok :: "ident \<Rightarrow> LinkedAdjustmentRecord \<Rightarrow> bool" where
  "adjustment_ok i a \<longleftrightarrow> la_adjustmentEntryId a = i \<and> la_newEffectiveNetPaise a = la_originalNetPaise a + la_adjustmentAmountPaise a
     \<and> 0 \<le> la_newEffectiveNetPaise a"

definition ledger_ok :: "AdjustmentLedger \<Rightarrow> bool" where
  "ledger_ok s \<longleftrightarrow> (\<forall>i f. al_finalized s i = Some f \<longrightarrow> fl_ledgerEntryId f = i)
     \<and> (\<forall>k i. al_registry s k = Some i \<longrightarrow> map_of (al_adjustments s) i \<noteq> None)
     \<and> (\<forall>i a. map_of (al_adjustments s) i = Some a \<longrightarrow> adjustment_ok i a)"

lemma late_cases:
  "processLateEvent sha now e s =
     (case al_registry s (le_idempotencyKey e) of
        Some i \<Rightarrow> (Duplicate (map_of (al_adjustments s) i), s)
      | None \<Rightarrow>
          (case al_finalized s (le_originalLedgerEntryId e) of
             None \<Rightarrow> (Refused PARENT_LEDGER_ENTRY_NOT_FOUND, s)
           | Some p \<Rightarrow>
               if 0 \<le> fl_netSettledPaise p + le_adjustmentAmountPaise e \<and> fl_netSettledPaise p + le_adjustmentAmountPaise e \<le> fl_grossAmountPaise p
               then (Adjusted (new_adjustment sha now p e), add_adjustment (new_adjustment sha now p e) s)
               else (Refused (INVARIANT_BREACH (fl_netSettledPaise p + le_adjustmentAmountPaise e)), s)))"
  by (simp add: processLateEvent_def Let_def split: option.splits)

lemma new_adjustment_fields [simp]:
  "la_idempotencyKey (new_adjustment sha now p e) = le_idempotencyKey e" "la_adjustmentAmountPaise (new_adjustment sha now p e) = le_adjustmentAmountPaise e"
  "la_newEffectiveNetPaise (new_adjustment sha now p e) = fl_netSettledPaise p + le_adjustmentAmountPaise e"
  "la_originalNetPaise (new_adjustment sha now p e) = fl_netSettledPaise p" "la_parentLedgerEntryId (new_adjustment sha now p e) = fl_ledgerEntryId p"
  by (simp_all add: new_adjustment_def Let_def)

lemma new_adjustment_id: "fl_ledgerEntryId p = le_originalLedgerEntryId e \<Longrightarrow> la_adjustmentEntryId (new_adjustment sha now p e) = event_id sha e"
  by (simp add: new_adjustment_def event_id_def adjustment_hash_def Let_def)

lemma late_state:
  "snd (processLateEvent sha now e s) = s
   \<or> (\<exists>p. al_registry s (le_idempotencyKey e) = None \<and> al_finalized s (le_originalLedgerEntryId e) = Some p
      \<and> 0 \<le> fl_netSettledPaise p + le_adjustmentAmountPaise e \<and> snd (processLateEvent sha now e s) = add_adjustment (new_adjustment sha now p e) s)"
  by (simp add: late_cases split: option.splits)

lemma ledger_ok_add: "ledger_ok s \<Longrightarrow> adjustment_ok (la_adjustmentEntryId a) a \<Longrightarrow> ledger_ok (add_adjustment a s)"
  by (auto simp: ledger_ok_def add_adjustment_def update_conv')

lemma ledger_ok_register: "ledger_ok s \<Longrightarrow> ledger_ok (registerFinalizedEntry e s)"
  by (auto simp: ledger_ok_def registerFinalizedEntry_def)

lemma ledger_ok_op: "ledger_ok s \<Longrightarrow> ledger_ok (ledger_op sha op s)"
proof (cases op)
  case (Late now e)
  assume "ledger_ok s"
  then show ?thesis using late_state [of sha now e s] by (auto simp: Late ledger_ok_add adjustment_ok_def)
qed (simp add: ledger_ok_register)

text \<open>What any operation keeps: adjustments under other identifiers, and the entries of the registry.\<close>

lemma ledger_op_keeps:
  assumes "ledger_ok s" "map_of (al_adjustments s) i = Some a" "al_registry s k = Some j"
    "\<forall>now e. op = Late now e \<longrightarrow> event_id sha e = i \<longrightarrow> le_idempotencyKey e = k"
  shows "i = j \<Longrightarrow> map_of (al_adjustments (ledger_op sha op s)) i = Some a \<and> al_registry (ledger_op sha op s) k = Some j"
proof (cases op)
  case (Late now e)
  assume "i = j"
  show ?thesis
  proof (cases "snd (processLateEvent sha now e s) = s")
    case False
    then obtain p where 2: "al_registry s (le_idempotencyKey e) = None" "al_finalized s (le_originalLedgerEntryId e) = Some p"
        "snd (processLateEvent sha now e s) = add_adjustment (new_adjustment sha now p e) s"
      using late_state [of sha now e s] by blast
    have "la_adjustmentEntryId (new_adjustment sha now p e) = event_id sha e"
      using 2(2) assms(1) by (intro new_adjustment_id) (simp add: ledger_ok_def)
    moreover have "le_idempotencyKey e \<noteq> k" using 2(1) assms(3) by auto
    moreover from this have "event_id sha e \<noteq> i" using assms(4) Late by blast
    ultimately show ?thesis using 2(3) assms(2,3) \<open>i = j\<close> by (simp add: Late add_adjustment_def update_conv')
  qed (use assms Late \<open>i = j\<close> in simp)
qed (use assms in \<open>simp add: registerFinalizedEntry_def\<close>)

text \<open>
  C28. An event that was accepted is applied once: after any further registrations and late events, as long as no other key
  gives the same identifier, delivering it again is recognised, returns the first record and changes nothing.
\<close>

theorem late_event_applied_once:
  assumes "ledger_ok s" "processLateEvent sha now e s = (Adjusted a, s1)"
    "\<forall>op \<in> set ops. \<forall>t f. op = Late t f \<longrightarrow> event_id sha f = event_id sha e \<longrightarrow> le_idempotencyKey f = le_idempotencyKey e"
  shows "processLateEvent sha now2 e (fold (ledger_op sha) ops s1) = (Duplicate (Some a), fold (ledger_op sha) ops s1)"
proof -
  have ok: "ledger_ok s1" using ledger_ok_op [OF assms(1), of sha "Late now e"] assms(2) by simp
  have i: "map_of (al_adjustments s1) (event_id sha e) = Some a" and r: "al_registry s1 (le_idempotencyKey e) = Some (event_id sha e)"
    using assms(1,2) new_adjustment_id [of _ e sha now]
    by (auto simp: late_cases add_adjustment_def update_conv' ledger_ok_def split: option.splits if_splits)
  have "map_of (al_adjustments (fold (ledger_op sha) ops s1)) (event_id sha e) = Some a
      \<and> al_registry (fold (ledger_op sha) ops s1) (le_idempotencyKey e) = Some (event_id sha e)"
    using assms(3) ok i r
  proof (induction ops arbitrary: s1)
    case (Cons op ops)
    have "map_of (al_adjustments (ledger_op sha op s1)) (event_id sha e) = Some a \<and> al_registry (ledger_op sha op s1) (le_idempotencyKey e) = Some (event_id sha e)"
      using Cons.prems by (intro ledger_op_keeps) auto
    then show ?case using Cons ledger_ok_op [OF Cons.prems(2)] by simp
  qed simp
  then show ?thesis by (simp add: processLateEvent_def)
qed

lemma filter_update_new: "k \<notin> fst ` set xs \<Longrightarrow> AList.update k v xs = xs @ [(k, v)]"
  by (induction xs) auto

text \<open>
  C37. The boundary check looks at the finalised net only, not at the adjustments already made: any number of refunds of the
  whole net, under keys and identifiers of their own, are all accepted, and together they take out that many times the net.
\<close>

theorem adjustments_stack_below_zero:
  assumes "al_finalized s i = Some p" "fl_ledgerEntryId p = i" "0 < fl_netSettledPaise p" "fl_netSettledPaise p \<le> fl_grossAmountPaise p"
    "\<forall>e \<in> set es. le_originalLedgerEntryId e = i \<and> le_adjustmentAmountPaise e = - fl_netSettledPaise p
        \<and> al_registry s (le_idempotencyKey e) = None \<and> event_id sha e \<notin> fst ` set (al_adjustments s)"
    "distinct (map le_idempotencyKey es)" "distinct (map (event_id sha) es)"
  shows "sum_list (map la_adjustmentAmountPaise (getAdjustmentsForEntry i (fold (ledger_op sha) (map (Late now) es) s)))
     = sum_list (map la_adjustmentAmountPaise (getAdjustmentsForEntry i s)) - int (length es) * fl_netSettledPaise p"
  using assms
proof (induction es arbitrary: s)
  case (Cons e es)
  let ?a = "new_adjustment sha now p e"
  let ?s = "add_adjustment ?a s"
  have id: "la_adjustmentEntryId ?a = event_id sha e" using Cons.prems(2,5) by (intro new_adjustment_id) simp
  have step: "ledger_op sha (Late now e) s = ?s" using Cons.prems(1-5) by (auto simp: late_cases)
  have new: "al_adjustments ?s = al_adjustments s @ [(event_id sha e, ?a)]"
    using Cons.prems(5) by (simp add: add_adjustment_def id filter_update_new)
  have more: "getAdjustmentsForEntry i ?s = getAdjustmentsForEntry i s @ [?a]" using Cons.prems(2) by (simp add: getAdjustmentsForEntry_def new)
  have "\<forall>f \<in> set es. le_originalLedgerEntryId f = i \<and> le_adjustmentAmountPaise f = - fl_netSettledPaise p
        \<and> al_registry ?s (le_idempotencyKey f) = None \<and> event_id sha f \<notin> fst ` set (al_adjustments ?s)"
  proof
    fix f assume f: "f \<in> set es"
    then have "le_idempotencyKey f \<noteq> le_idempotencyKey e" "event_id sha f \<noteq> event_id sha e" using Cons.prems(6,7) by (metis distinct.simps(2) image_eqI list.set_map list.simps(9))+
    then show "le_originalLedgerEntryId f = i \<and> le_adjustmentAmountPaise f = - fl_netSettledPaise p
        \<and> al_registry ?s (le_idempotencyKey f) = None \<and> event_id sha f \<notin> fst ` set (al_adjustments ?s)"
      using Cons.prems(5) f unfolding new by (auto simp: add_adjustment_def)
  qed
  moreover have "al_finalized ?s i = Some p" using Cons.prems(1) by (simp add: add_adjustment_def)
  ultimately have "sum_list (map la_adjustmentAmountPaise (getAdjustmentsForEntry i (fold (ledger_op sha) (map (Late now) es) ?s)))
     = sum_list (map la_adjustmentAmountPaise (getAdjustmentsForEntry i ?s)) - int (length es) * fl_netSettledPaise p"
    using Cons.prems(2-4,6,7) by (intro Cons.IH) auto
  then show ?case using Cons.prems(5) step by (simp add: more algebra_simps)
qed simp

section \<open>Witnesses\<close>

definition sample_final :: FinalizedLedgerRecord where
  "sample_final = \<lparr>fl_ledgerEntryId = ''L1'', fl_batchId = ''b'', fl_paymentId = ''p'', fl_grossAmountPaise = 10000, fl_feePaise = 200, fl_taxPaise = 36,
     fl_netSettledPaise = 9764, fl_finalizedAt = 0, fl_contentHash = ''h''\<rparr>"

definition sample_refund :: "string \<Rightarrow> LateFinancialEvent" where
  "sample_refund k = \<lparr>le_eventId = k, le_originalLedgerEntryId = ''L1'', le_paymentId = ''p'', le_eventType = LATE_REFUND,
     le_adjustmentAmountPaise = - 9764, le_reason = ''refund'', le_observedAt = 1, le_idempotencyKey = k\<rparr>"

definition sample_ledger :: AdjustmentLedger where
  "sample_ledger = registerFinalizedEntry sample_final empty_ledger"

text \<open>A digest that keeps the end of its argument.\<close>

definition tail_sha :: "string \<Rightarrow> string" where
  "tail_sha s = rev s"

lemma sample_ledger_ok: "ledger_ok sample_ledger" "al_finalized sample_ledger ''L1'' = Some sample_final"
  by (auto simp: ledger_ok_def sample_ledger_def registerFinalizedEntry_def empty_ledger_def sample_final_def)

lemma sample_event_ids: "event_id tail_sha (sample_refund ''a'') \<noteq> event_id tail_sha (sample_refund ''b'')"
  by (simp add: event_id_def tail_sha_def sample_refund_def)

theorem late_event_applied_once_witness:
  "\<exists>a s1. processLateEvent tail_sha 5 (sample_refund ''a'') sample_ledger = (Adjusted a, s1)
     \<and> fst (processLateEvent tail_sha 9 (sample_refund ''a'') (fold (ledger_op tail_sha) [Late 6 (sample_refund ''b'')] s1)) = Duplicate (Some a)"
proof -
  obtain a s1 where p: "processLateEvent tail_sha 5 (sample_refund ''a'') sample_ledger = (Adjusted a, s1)"
    using sample_ledger_ok(2) by (simp add: late_cases sample_ledger_def registerFinalizedEntry_def empty_ledger_def sample_refund_def sample_final_def)
  from late_event_applied_once [OF sample_ledger_ok(1) p, of "[Late 6 (sample_refund ''b'')]" 9] sample_event_ids p show ?thesis by fastforce
qed

theorem adjustments_stack_below_zero_witness:
  "sum_list (map la_adjustmentAmountPaise (getAdjustmentsForEntry ''L1''
      (fold (ledger_op tail_sha) (map (Late 5) [sample_refund ''a'', sample_refund ''b'']) sample_ledger))) = - 19528"
proof -
  have "getAdjustmentsForEntry ''L1'' sample_ledger = []" "al_adjustments sample_ledger = []" "al_registry sample_ledger = Map.empty"
    by (simp_all add: getAdjustmentsForEntry_def sample_ledger_def registerFinalizedEntry_def empty_ledger_def)
  moreover have "fl_ledgerEntryId sample_final = ''L1''" "fl_netSettledPaise sample_final = 9764" "fl_grossAmountPaise sample_final = 10000"
    by (simp_all add: sample_final_def)
  moreover have "le_originalLedgerEntryId (sample_refund k) = ''L1''" "le_adjustmentAmountPaise (sample_refund k) = - 9764" "le_idempotencyKey (sample_refund k) = k" for k
    by (simp_all add: sample_refund_def)
  ultimately show ?thesis
    using adjustments_stack_below_zero [OF sample_ledger_ok(2), of "[sample_refund ''a'', sample_refund ''b'']" tail_sha 5] sample_event_ids by simp
qed

end
