(* ===== verification/Aggregate_Risk.thy ===== *)
theory Aggregate_Risk
  imports Prelude "HOL-Library.AList" "HOL-Library.Multiset" Complex_Main
begin

text \<open>
  Tolerance stacking (\<open>src/lib/reconciliation/aggregate-risk.ts\<close>): the tracker, fed one record at a time, and the
  report with its gates. The two exposure maps are association lists in the order of first use; ratios are rational
  numbers. The sentences of a breached limit and of the explanation are kept as the data they print.
\<close>

section \<open>Types\<close>

record AggregateRiskPolicy =
  ap_maxSingleRecordTolerancePaise :: paise
  ap_maxBatchCumulativeTolerancePaise :: paise
  ap_maxMerchantCumulativeTolerancePaise :: paise
  ap_maxProviderCumulativeTolerancePaise :: paise
  ap_maxAggregateDriftRatio :: rat

definition DEFAULT_AGGREGATE_RISK_POLICY :: AggregateRiskPolicy where
  "DEFAULT_AGGREGATE_RISK_POLICY = \<lparr>ap_maxSingleRecordTolerancePaise = 100, ap_maxBatchCumulativeTolerancePaise = 50000,
     ap_maxMerchantCumulativeTolerancePaise = 10000, ap_maxProviderCumulativeTolerancePaise = 25000, ap_maxAggregateDriftRatio = 5 / 1000\<rparr>"

record TransactionRecord =
  tx_recordId :: ident
  tx_merchantId :: "ident option"
  tx_provider :: "ident option"
  tx_grossPaise :: paise
  tx_settledPaise :: paise

record ToleranceRecord =
  to_transaction :: TransactionRecord
  to_discrepancyPaise :: paise
  to_tolerated :: bool

record AggregateRiskTracker =
  ag_records :: "ToleranceRecord list"
  ag_totalVolumePaise :: paise
  ag_cumulativeToleranceConsumedPaise :: paise
  ag_merchantExposure :: "(ident \<times> paise) list"
  ag_providerExposure :: "(ident \<times> paise) list"
  ag_policy :: AggregateRiskPolicy

datatype Verdict = SAFE_WITHIN_TOLERANCE | AGGREGATE_DRIFT_WARNING | AGGREGATE_TOLERANCE_BREACH_REVIEW_REQUIRED

datatype BreachedLimit =
    BatchExceeded paise paise | MerchantExceeded ident paise paise | ProviderExceeded ident paise paise | DriftExceeded rat rat

record AggregateRiskReport =
  rep_verdict :: Verdict
  rep_totalRecordsProcessed :: nat
  rep_toleratedRecordsCount :: nat
  rep_totalVolumePaise :: paise
  rep_cumulativeToleranceConsumedPaise :: paise
  rep_aggregateDriftRatio :: rat
  rep_merchantExposure :: "(ident \<times> paise) list"
  rep_providerExposure :: "(ident \<times> paise) list"
  rep_breachedLimits :: "BreachedLimit list"
  rep_requiresMakerChecker :: bool

section \<open>The tracker\<close>

definition new_tracker :: "AggregateRiskPolicy \<Rightarrow> AggregateRiskTracker" where
  "new_tracker p = \<lparr>ag_records = [], ag_totalVolumePaise = 0, ag_cumulativeToleranceConsumedPaise = 0, ag_merchantExposure = [],
     ag_providerExposure = [], ag_policy = p\<rparr>"

definition discrepancy :: "TransactionRecord \<Rightarrow> paise" where
  "discrepancy t = \<bar>tx_grossPaise t - tx_settledPaise t\<bar>"

text \<open>An absent or empty name is not tracked.\<close>

definition expose :: "ident option \<Rightarrow> paise \<Rightarrow> (ident \<times> paise) list \<Rightarrow> (ident \<times> paise) list" where
  "expose name amount m =
     (case name of None \<Rightarrow> m | Some k \<Rightarrow> if k = [] then m else AList.update k (or_zero 0 (map_of m k) + amount) m)"

definition recordTransaction :: "TransactionRecord \<Rightarrow> AggregateRiskTracker \<Rightarrow> (bool \<times> paise) \<times> AggregateRiskTracker" where
  "recordTransaction t s =
     (let d = discrepancy t; safe = (d \<le> ap_maxSingleRecordTolerancePaise (ag_policy s)) in
      ((safe, d),
       s\<lparr>ag_records := ag_records s @ [\<lparr>to_transaction = t, to_discrepancyPaise = d, to_tolerated = (safe \<and> d > 0)\<rparr>],
         ag_totalVolumePaise := ag_totalVolumePaise s + tx_grossPaise t,
         ag_cumulativeToleranceConsumedPaise := ag_cumulativeToleranceConsumedPaise s + d,
         ag_merchantExposure := expose (tx_merchantId t) d (ag_merchantExposure s),
         ag_providerExposure := expose (tx_provider t) d (ag_providerExposure s)\<rparr>))"

section \<open>The report\<close>

definition over_limit :: "(ident \<Rightarrow> paise \<Rightarrow> paise \<Rightarrow> BreachedLimit) \<Rightarrow> paise \<Rightarrow> (ident \<times> paise) list \<Rightarrow> BreachedLimit list" where
  "over_limit breach limit m = map (\<lambda>(k, e). breach k e limit) (filter (\<lambda>(k, e). e > limit) m)"

definition drift_ratio :: "AggregateRiskTracker \<Rightarrow> rat" where
  "drift_ratio s = (if ag_totalVolumePaise s > 0 then of_int (ag_cumulativeToleranceConsumedPaise s) / of_int (ag_totalVolumePaise s) else 0)"

definition breached_limits :: "AggregateRiskTracker \<Rightarrow> BreachedLimit list" where
  "breached_limits s = (let p = ag_policy s; c = ag_cumulativeToleranceConsumedPaise s; d = drift_ratio s in
     (if c > ap_maxBatchCumulativeTolerancePaise p then [BatchExceeded c (ap_maxBatchCumulativeTolerancePaise p)] else [])
     @ over_limit MerchantExceeded (ap_maxMerchantCumulativeTolerancePaise p) (ag_merchantExposure s)
     @ over_limit ProviderExceeded (ap_maxProviderCumulativeTolerancePaise p) (ag_providerExposure s)
     @ (if d > ap_maxAggregateDriftRatio p then [DriftExceeded d (ap_maxAggregateDriftRatio p)] else []))"

definition near_limit :: "AggregateRiskTracker \<Rightarrow> bool" where
  "near_limit s \<longleftrightarrow> of_int (ag_cumulativeToleranceConsumedPaise s) > of_int (ap_maxBatchCumulativeTolerancePaise (ag_policy s)) * (8 / 10 :: rat)
     \<or> drift_ratio s > ap_maxAggregateDriftRatio (ag_policy s) * (8 / 10)"

definition to_fixed6 :: "rat \<Rightarrow> rat" where
  "to_fixed6 x = of_int \<lfloor>x * 1000000 + 1 / 2\<rfloor> / 1000000"

definition evaluateAggregateRisk :: "AggregateRiskTracker \<Rightarrow> AggregateRiskReport" where
  "evaluateAggregateRisk s =
     (let breached = breached_limits s in
      \<lparr>rep_verdict = (if breached \<noteq> [] then AGGREGATE_TOLERANCE_BREACH_REVIEW_REQUIRED else if near_limit s then AGGREGATE_DRIFT_WARNING else SAFE_WITHIN_TOLERANCE),
       rep_totalRecordsProcessed = length (ag_records s), rep_toleratedRecordsCount = length (filter to_tolerated (ag_records s)),
       rep_totalVolumePaise = ag_totalVolumePaise s, rep_cumulativeToleranceConsumedPaise = ag_cumulativeToleranceConsumedPaise s,
       rep_aggregateDriftRatio = to_fixed6 (drift_ratio s), rep_merchantExposure = ag_merchantExposure s, rep_providerExposure = ag_providerExposure s,
       rep_breachedLimits = breached, rep_requiresMakerChecker = (breached \<noteq> [])\<rparr>)"

section \<open>What the tracker has added up\<close>

definition track :: "TransactionRecord list \<Rightarrow> AggregateRiskPolicy \<Rightarrow> AggregateRiskTracker" where
  "track ts p = fold (\<lambda>t s. snd (recordTransaction t s)) ts (new_tracker p)"

definition exposure_of :: "(TransactionRecord \<Rightarrow> ident option) \<Rightarrow> ident \<Rightarrow> TransactionRecord list \<Rightarrow> paise" where
  "exposure_of name k ts = sum_list (map discrepancy (filter (\<lambda>t. name t = Some k) ts))"

definition named :: "(TransactionRecord \<Rightarrow> ident option) \<Rightarrow> TransactionRecord list \<Rightarrow> ident set" where
  "named name ts = {k. k \<noteq> [] \<and> (\<exists>t \<in> set ts. name t = Some k)}"

definition adds_up :: "(TransactionRecord \<Rightarrow> ident option) \<Rightarrow> TransactionRecord list \<Rightarrow> (ident \<times> paise) list \<Rightarrow> bool" where
  "adds_up name ts m \<longleftrightarrow> distinct (map fst m) \<and> (\<forall>k. map_of m k = (if k \<in> named name ts then Some (exposure_of name k ts) else None))"

lemma adds_up_expose:
  assumes "adds_up name ts m"
  shows "adds_up name (ts @ [t]) (expose (name t) (discrepancy t) m)"
proof (cases "name t")
  case None
  have "named name (ts @ [t]) = named name ts" using None by (auto simp: named_def)
  moreover have "exposure_of name k (ts @ [t]) = exposure_of name k ts" for k using None by (simp add: exposure_of_def)
  ultimately show ?thesis using assms by (simp add: adds_up_def expose_def None)
next
  case (Some n)
  show ?thesis
  proof (cases "n = []")
    case True
    have n: "named name (ts @ [t]) = named name ts" using Some True by (auto simp: named_def)
    have "k \<in> named name ts \<Longrightarrow> exposure_of name k (ts @ [t]) = exposure_of name k ts" for k
      using Some True by (auto simp: exposure_of_def named_def)
    with n show ?thesis using assms by (auto simp: adds_up_def expose_def Some True)
  next
    case False
    have n: "named name (ts @ [t]) = insert n (named name ts)" using Some False by (auto simp: named_def)
    have "exposure_of name n ts = 0" if "n \<notin> named name ts"
    proof -
      from that have "filter (\<lambda>t. name t = Some n) ts = []" using False by (auto simp: named_def filter_empty_conv)
      then show ?thesis by (simp add: exposure_of_def)
    qed
    then have "or_zero 0 (map_of m n) = exposure_of name n ts" using assms by (simp add: adds_up_def or_zero_def)
    then show ?thesis using assms n False
      by (auto simp: adds_up_def expose_def Some update_conv' distinct_update exposure_of_def)
  qed
qed

lemma tracked:
  "ag_policy (track ts p) = p \<and> ag_totalVolumePaise (track ts p) = sum_list (map tx_grossPaise ts)
   \<and> ag_cumulativeToleranceConsumedPaise (track ts p) = sum_list (map discrepancy ts)
   \<and> adds_up tx_merchantId ts (ag_merchantExposure (track ts p)) \<and> adds_up tx_provider ts (ag_providerExposure (track ts p))
   \<and> map to_transaction (ag_records (track ts p)) = ts"
proof (induction ts rule: rev_induct)
  case Nil
  show ?case by (simp add: track_def new_tracker_def adds_up_def named_def)
next
  case (snoc t ts)
  have "track (ts @ [t]) p = snd (recordTransaction t (track ts p))" by (simp add: track_def)
  then show ?case using snoc by (simp add: recordTransaction_def Let_def adds_up_expose)
qed

lemma over_limit_iff:
  assumes "adds_up name ts m"
  shows "over_limit breach limit m \<noteq> [] \<longleftrightarrow> (\<exists>k \<in> named name ts. exposure_of name k ts > limit)"
proof -
  have "over_limit breach limit m \<noteq> [] \<longleftrightarrow> (\<exists>k e. (k, e) \<in> set m \<and> e > limit)" by (force simp: over_limit_def filter_empty_conv)
  also have "\<dots> \<longleftrightarrow> (\<exists>k e. map_of m k = Some e \<and> e > limit)"
  proof -
    have "distinct (map fst m)" using assms by (simp add: adds_up_def)
    then show ?thesis by simp
  qed
  also have "\<dots> \<longleftrightarrow> (\<exists>k \<in> named name ts. exposure_of name k ts > limit)"
  proof -
    have "map_of m k = (if k \<in> named name ts then Some (exposure_of name k ts) else None)" for k using assms by (simp add: adds_up_def)
    then show ?thesis by auto
  qed
  finally show ?thesis .
qed

definition total_drift :: "TransactionRecord list \<Rightarrow> rat" where
  "total_drift ts = (let v = sum_list (map tx_grossPaise ts) in if v > 0 then of_int (sum_list (map discrepancy ts)) / of_int v else 0)"

definition stacked_breach :: "AggregateRiskPolicy \<Rightarrow> TransactionRecord list \<Rightarrow> bool" where
  "stacked_breach p ts \<longleftrightarrow> sum_list (map discrepancy ts) > ap_maxBatchCumulativeTolerancePaise p
     \<or> (\<exists>k \<in> named tx_merchantId ts. exposure_of tx_merchantId k ts > ap_maxMerchantCumulativeTolerancePaise p)
     \<or> (\<exists>k \<in> named tx_provider ts. exposure_of tx_provider k ts > ap_maxProviderCumulativeTolerancePaise p)
     \<or> total_drift ts > ap_maxAggregateDriftRatio p"

lemma drift_tracked: "drift_ratio (track ts p) = total_drift ts"
  using tracked [of ts p] by (simp add: drift_ratio_def total_drift_def Let_def)

lemma breached_iff: "breached_limits (track ts p) \<noteq> [] \<longleftrightarrow> stacked_breach p ts"
proof -
  have m: "adds_up tx_merchantId ts (ag_merchantExposure (track ts p))" and v: "adds_up tx_provider ts (ag_providerExposure (track ts p))"
    and q: "ag_policy (track ts p) = p" "ag_cumulativeToleranceConsumedPaise (track ts p) = sum_list (map discrepancy ts)"
    using tracked [of ts p] by simp_all
  show ?thesis
    using over_limit_iff [OF m, of MerchantExceeded] over_limit_iff [OF v, of ProviderExceeded]
    unfolding breached_limits_def Let_def stacked_breach_def q drift_tracked by auto
qed

lemma mset_facts:
  assumes "mset ts = mset us"
  shows "sum_list (map f ts) = (sum_list (map f us) :: int)" "exposure_of name k ts = exposure_of name k us" "named name ts = named name us" "total_drift ts = total_drift us"
proof -
  have s: "sum_list (map f ts) = sum_list (map f us)" if "mset ts = mset us" for f :: "TransactionRecord \<Rightarrow> int" and ts us
    using that by (metis mset_map sum_mset_sum_list)
  show "sum_list (map f ts) = sum_list (map f us)" by (rule s [OF assms])
  show "exposure_of name k ts = exposure_of name k us" unfolding exposure_of_def by (rule s) (simp add: assms mset_filter)
  show "named name ts = named name us" using mset_eq_setD [OF assms] by (simp add: named_def)
  show "total_drift ts = total_drift us"
    using s [OF assms, of tx_grossPaise] s [OF assms, of discrepancy] by (simp add: total_drift_def Let_def)
qed

text \<open>
  C27. After any records the report is the sum of them: the verdict asks for a review exactly when the whole drift, the
  drift of some merchant or of some provider, or the ratio of drift to volume is above its limit, and it is the same for the
  same records in any order.
\<close>

theorem aggregate_gates_exact:
  "rep_cumulativeToleranceConsumedPaise (evaluateAggregateRisk (track ts p)) = sum_list (map discrepancy ts)
   \<and> (rep_verdict (evaluateAggregateRisk (track ts p)) = AGGREGATE_TOLERANCE_BREACH_REVIEW_REQUIRED \<longleftrightarrow> stacked_breach p ts)
   \<and> (rep_requiresMakerChecker (evaluateAggregateRisk (track ts p)) \<longleftrightarrow> stacked_breach p ts)
   \<and> (mset us = mset ts \<longrightarrow> rep_verdict (evaluateAggregateRisk (track us p)) = rep_verdict (evaluateAggregateRisk (track ts p)))"
proof (intro conjI impI)
  show "rep_verdict (evaluateAggregateRisk (track us p)) = rep_verdict (evaluateAggregateRisk (track ts p))" if "mset us = mset ts"
  proof -
    note f = mset_facts [OF that]
    have "stacked_breach p us \<longleftrightarrow> stacked_breach p ts" by (simp add: stacked_breach_def f)
    then have "breached_limits (track us p) = [] \<longleftrightarrow> breached_limits (track ts p) = []" using breached_iff by blast
    moreover have "near_limit (track us p) \<longleftrightarrow> near_limit (track ts p)"
      using tracked [of us p] tracked [of ts p] by (simp add: near_limit_def drift_tracked f)
    ultimately show ?thesis by (simp add: evaluateAggregateRisk_def Let_def)
  qed
qed (use tracked [of ts p] breached_iff [of ts p] in \<open>simp_all add: evaluateAggregateRisk_def Let_def\<close>)

text \<open>
  The limit on a single record gates nothing: one record of a hundred thousand rupees whose settlement is off by four hundred rupees,
  four hundred times its own limit, is not individually safe, and the report still says that the batch is within tolerance.
\<close>

definition large_record :: TransactionRecord where
  "large_record = \<lparr>tx_recordId = ''r'', tx_merchantId = None, tx_provider = None, tx_grossPaise = 10000000, tx_settledPaise = 9960000\<rparr>"

lemma large_record_report:
  "fst (recordTransaction large_record (new_tracker DEFAULT_AGGREGATE_RISK_POLICY)) = (False, 40000)
   \<and> rep_verdict (evaluateAggregateRisk (track [large_record] DEFAULT_AGGREGATE_RISK_POLICY)) = SAFE_WITHIN_TOLERANCE"
  by (simp add: track_def recordTransaction_def Let_def new_tracker_def large_record_def discrepancy_def expose_def DEFAULT_AGGREGATE_RISK_POLICY_def
      evaluateAggregateRisk_def breached_limits_def over_limit_def drift_ratio_def near_limit_def)

theorem aggregate_gates_exact_witness:
  "rep_verdict (evaluateAggregateRisk (track [large_record, large_record] DEFAULT_AGGREGATE_RISK_POLICY)) = AGGREGATE_TOLERANCE_BREACH_REVIEW_REQUIRED"
proof -
  have "stacked_breach DEFAULT_AGGREGATE_RISK_POLICY [large_record, large_record]"
    by (simp add: stacked_breach_def DEFAULT_AGGREGATE_RISK_POLICY_def large_record_def discrepancy_def)
  then show ?thesis using aggregate_gates_exact [of "[large_record, large_record]" DEFAULT_AGGREGATE_RISK_POLICY "[]"] by blast
qed

end
