(* ===== verification/Spec2Isabelle.thy ===== *)
theory Spec2Isabelle
  imports Engine_Correct Control_Error Solver_Correct Distributed_Run Cross_Partition_Correct
    Exception_Workflow_Correct Correction_Manager Corrections_Correct Policy_Correct Rate_Limits Job_Steps_Correct Bounded_Pool Webhook_Correct
    Ssrf_Correct Multi_Pass_Correct Routing_Correct Adjustments Aggregate_Risk
begin

text \<open>
  This library is a formal model of SettleMate: the pipeline that takes the payments, settlements and bank
  transactions of a batch, matches them, explains the exceptions and decides whether a person has to look at the
  batch; its distributed and durable execution; and the services around it that decide over money or
  over who may act: the invoice solver, exception workflow, corrections, adjustments, policies, routing, jobs, webhooks and
  request guards.

  \<^bold>\<open>The program.\<close> \<^verbatim>\<open>src/src/lib/reconciliation/engine.ts\<close> runs a batch through these
  stages: normalisation (\<^verbatim>\<open>normalizer.ts\<close>), indexing (\<^verbatim>\<open>indexer.ts\<close>),
  one-to-one matching (\<^verbatim>\<open>matcher.ts\<close>), grouping of several settlements or credits
  (\<^verbatim>\<open>apply-cardinality.ts\<close>, which uses \<^verbatim>\<open>cardinality.ts\<close>,
  \<^verbatim>\<open>meet-in-middle.ts\<close> and, for large batches, \<^verbatim>\<open>scale/\<close>), metrics
  (\<^verbatim>\<open>evaluator.ts\<close>), the invariant gate (\<^verbatim>\<open>invariants.ts\<close>), decisions
  and risk levels (\<^verbatim>\<open>decision.ts\<close>), routing (\<^verbatim>\<open>risk-gate.ts\<close>), the ledger
  (\<^verbatim>\<open>ledger.ts\<close>) and the hash-chained audit trail (\<^verbatim>\<open>audit-chain.ts\<close>).
  \<^verbatim>\<open>multi-pass.ts\<close> wraps it in an idempotent entry point; \<^verbatim>\<open>distributed/\<close> runs partitions on
  several workers behind a leased queue and resolves what crosses partitions; \<^verbatim>\<open>workers/durable-job-worker.ts\<close>
  runs long jobs in bounded steps. An exception of a finished batch goes through \<^verbatim>\<open>exceptions/\<close> and
  \<^verbatim>\<open>corrections/\<close>; late events go to \<^verbatim>\<open>ledger/adjustments.ts\<close>; webhooks leave
  through \<^verbatim>\<open>webhooks/webhook-outbox-worker.ts\<close> behind \<^verbatim>\<open>security/ssrf-guard.ts\<close>.

  \<^bold>\<open>Theories.\<close> A theory \<open>T\<close> holds the definitions of a component and \<open>T_Correct\<close>, where it
  exists, the larger proofs about it.
  \<^item> \<^verbatim>\<open>Prelude\<close>: JavaScript sorting (\<open>js_sort\<close>, stable insertion by a comparator),
    strings, \<open>Math.round\<close>, bisection, maps of lists, sublists and best-candidate folds; the locale
    \<open>js_comparator\<close> states what a comparator must promise and is interpreted wherever the code sorts.
  \<^item> \<^verbatim>\<open>Domain\<close>, \<^verbatim>\<open>Confidence\<close>: records of the batch and of a match result,
    confidence scores and temporal states.
  \<^item> \<^verbatim>\<open>Indexer\<close>, \<^verbatim>\<open>Matcher\<close>: the indexes, specified by the locale
    \<open>match_index\<close>, and the three phases of \<open>matchAllRecords\<close>. Shown: an automatic match is backed by
    one settlement and one credit, every captured payment has exactly one row, no credit is lost, the
    bisecting fuzzy search is a full scan.
  \<^item> \<^verbatim>\<open>Cardinality_Solvers\<close>, \<^verbatim>\<open>Apply_Cardinality\<close>: the N:1, 1:N and N:M solvers
    (locale \<open>cardinality_solver\<close>, interpreted for each) and the passes that apply them. Shown: the
    pruned search is optimal, the two N:M solvers agree, relationships are disjoint and pass the
    gate's cardinality check.
  \<^item> \<^verbatim>\<open>Scale\<close>, \<^verbatim>\<open>Scale_Durable\<close>: partitions, strategies, the durable rows
    and the claim loop. Shown: partitions are exact, a fresh run completes every partition.
  \<^item> \<^verbatim>\<open>Evaluator\<close>, \<^verbatim>\<open>Invariants\<close>, \<^verbatim>\<open>Decision\<close>,
    \<^verbatim>\<open>Risk_Gate\<close>, \<^verbatim>\<open>Ledger\<close>, \<^verbatim>\<open>Audit_Chain\<close>: the stages after
    matching. Shown: the audit chain stays verifiable under concurrent writers and is tamper-evident.
  \<^item> \<^verbatim>\<open>Engine\<close>, \<^verbatim>\<open>Run_Metadata\<close>, \<^verbatim>\<open>Control_Error\<close>: the whole run as a
    sequence of operations that may throw, its fingerprints and the answer to a failed gate. Shown: how a run can end, that a
    well-formed batch finishes, that every run keeps the audit chain.
  \<^item> \<^verbatim>\<open>Multi_Pass\<close>: lock, snapshot and callers of the multi-pass entry point, one program counter per caller. Shown:
    exclusion within the stale limit, and the schedules in which a batch runs twice.
  \<^item> \<^verbatim>\<open>Merkle\<close>, \<^verbatim>\<open>Lease_Queue\<close>, \<^verbatim>\<open>Distributed\<close> (with
    \<^verbatim>\<open>Distributed_Run\<close>), \<^verbatim>\<open>Cross_Partition\<close>: audit tree, leased queue, workers and orchestrator, registry and
    resolver of boundary orphans. Shown: under every interleaving the report is the one the records determine and the
    workers stop; a superseded lease is refused; the registry refines an abstract machine of free, leased and consumed candidates.
  \<^item> \<^verbatim>\<open>Currency\<close>, \<^verbatim>\<open>Solver\<close>: conversions, and the invoice solver with its verifier, replay
    and consumption. Shown: optimality, soundness of the verifier, replay.
  \<^item> \<^verbatim>\<open>Exception_Workflow\<close>, \<^verbatim>\<open>Correction_Manager\<close>, \<^verbatim>\<open>Smt_Prover\<close>,
    \<^verbatim>\<open>Corrections\<close>, \<^verbatim>\<open>Adjustments\<close>: state machine of exceptions with interleaved requests,
    proposals, the proof service, journal corrections with their approval, late events. Shown: the workflow invariant, what reviews
    guarantee and what they do not, that approvals are exclusive, that late events are applied once.
  \<^item> \<^verbatim>\<open>Policy\<close>, \<^verbatim>\<open>Policy_Manager\<close>, \<^verbatim>\<open>Routing\<close>,
    \<^verbatim>\<open>Aggregate_Risk\<close>: rules, shadow replay and life cycle of policies; confidence and exposure routing; stacked
    tolerances. Shown: one active, approved policy at all times; a safer case is never routed worse; the aggregate gates are exact.
  \<^item> \<^verbatim>\<open>Durable_Jobs\<close>, \<^verbatim>\<open>Job_Lifecycle\<close>, \<^verbatim>\<open>Job_Steps\<close>,
    \<^verbatim>\<open>Adaptive_Chunk\<close>, \<^verbatim>\<open>Bounded_Pool\<close>: the job queue in its table and its memory, every
    operation, bounded steps, chunk sizes, the item pool under every schedule. Shown: legal moves in memory, what the table allows
    besides, that stepping generates a batch once and overlapping steps do not.
  \<^item> \<^verbatim>\<open>Webhook_Outbox\<close>, \<^verbatim>\<open>Ssrf_Guard\<close>, \<^verbatim>\<open>Rate_Limits\<close>: deliveries, the guard
    of their targets on 32-bit addresses, the two rate limiters. Shown: exclusive leases, exact address ranges, window bounds.
  \<^item> \<^verbatim>\<open>Samples\<close>: small batches on which the witnesses evaluate.

  \<^bold>\<open>Conventions.\<close> Amounts are \<open>int\<close> paise and instants \<open>int\<close> milliseconds: the code keeps both in
  IEEE doubles, which are exact for the integers in question. Percentages, confidences and rounded quotients are
  computed on exact rationals (\<open>js_round_div\<close>, \<open>js_round_rat\<close>). A JavaScript \<open>Map\<close> is a partial map, or an association
  list where its insertion order matters; sets of identifiers are sets. A database table is a list of
  rows, a transaction a function on tables. Where a function awaits between reading and writing, and its callers overlap, it is split there
  and the operations of all callers form one schedule. What the sources only call is a parameter: the collation
  of \<open>localeCompare\<close> and of the database, SHA-256, HMAC, the logarithm, the URL parser and the name service of the platform, the
  clock, fresh identifiers, the writes of other processes. Message texts for people are datatypes that carry the interpolated values,
  where no code reads them back.

  \<^bold>\<open>Termination and bounds.\<close> All definitions are total. The depth-first searches recurse on the
  remaining candidates; the claim loop of the durable run ends because every round lowers the number
  of claimable partitions; the audit append makes at most \<open>MAX_RETRIES\<close> attempts, as in the code. The
  group enumeration keeps the code's cap of 3000 groups. Schedules are finite lists, so a worker's endless loop is
  modelled by its turns; that the workers of a distributed run stop is a bound on the number of turns. A multi-pass call
  alone takes at most seven steps, which is the number \<open>runMultiPassIdempotent\<close> iterates.

  \<^bold>\<open>Not modelled.\<close> Web pages and most routes, the database client and the embedded stores, language-model agents and what
  is built on their answers, generators of synthetic data, red-team and verification harnesses, forensics and evidence documents, file exports and
  telemetry: input and output around the modelled functions, or programs that only exercise them. Sessions, tenants, decision receipts, risk scores and
  the durable queue adapters are logic of the same kind as what is modelled and are left for later.
\<close>

end
